(* ===== verification/Prelude.thy ===== *)
theory Prelude
  imports Main "HOL-Library.Word" "HOL-Library.List_Lexorder" "HOL-Library.Char_ord"
begin

text \<open>
  The base of the development: the result type and the state-and-error combinators every
  repository and service is written in, the step orders that carry invariants through them,
  generic lemmas on tables (lists of rows), byte strings and the text helpers of the Rust
  standard library (\<open>str::trim\<close>, \<open>to_ascii_lowercase\<close>) that the program uses.
\<close>

named_theorems run_simps \<open>evaluation of the state-and-error combinators\<close>
named_theorems step_intros \<open>an operation only moves along a step order\<close>
named_theorems table_simps \<open>rows after an update or a deletion\<close>

section \<open>Machine bytes and text\<close>

type_synonym byte = "8 word"
type_synonym bytes = "8 word list"

text \<open>A Rust \<open>String\<close> is its UTF-8 byte sequence; HOL's \<open>char\<close> is one such byte.\<close>

definition str_bytes :: "string \<Rightarrow> bytes" where
  "str_bytes s = map (\<lambda>c. word_of_nat (of_char c)) s"

definition bytes_str :: "bytes \<Rightarrow> string" where
  "bytes_str b = map (\<lambda>w. char_of (unat w)) b"

text \<open>Evaluation reads the bits of the byte, and adds them up.\<close>

lemma str_bytes_code [code]: "str_bytes s = map of_char s"
  by (simp add: str_bytes_def of_nat_of_char)

lemma bytes_str_code [code]:
  "bytes_str b = map (\<lambda>w. Char (bit w 0) (bit w 1) (bit w 2) (bit w 3) (bit w 4) (bit w 5) (bit w 6) (bit w 7)) b"
  by (simp add: bytes_str_def char_of_def bit_unsigned_iff)

lemma bytes_str_str_bytes [simp]: "bytes_str (str_bytes s) = s"
proof -
  have "char_of (unat (word_of_nat (of_char c) :: 8 word)) = c" for c :: char
  proof -
    have "(of_char c :: nat) < 256" by simp
    then show ?thesis by (simp add: unat_of_nat)
  qed
  then show ?thesis by (simp add: bytes_str_def str_bytes_def comp_def)
qed

lemma str_bytes_bytes_str [simp]: "str_bytes (bytes_str b) = b"
proof -
  have "word_of_nat (of_char (char_of (unat w) :: char)) = w" for w :: "8 word"
  proof -
    have "unat w < 256" using unsigned_less [of w] by simp
    then show ?thesis by simp
  qed
  then show ?thesis by (simp add: bytes_str_def str_bytes_def comp_def)
qed

lemma length_str_bytes [simp]: "length (str_bytes s) = length s"
  by (simp add: str_bytes_def)

lemma length_bytes_str [simp]: "length (bytes_str b) = length b"
  by (simp add: bytes_str_def)

lemma str_bytes_inj [simp]: "str_bytes s = str_bytes t \<longleftrightarrow> s = t"
  by (metis bytes_str_str_bytes)

text \<open>The UTF-8 encodings of the code points with the Unicode property White_Space, which is
  what \<open>char::is_whitespace\<close> tests.\<close>

definition white_space :: "string list" where
  "white_space =
     [[CHR 0x09], [CHR 0x0A], [CHR 0x0B], [CHR 0x0C], [CHR 0x0D], [CHR 0x20],
      [CHR 0xC2, CHR 0x85], [CHR 0xC2, CHR 0xA0], [CHR 0xE1, CHR 0x9A, CHR 0x80]]
     @ map (\<lambda>c. [CHR 0xE2, CHR 0x80, c])
         [CHR 0x80, CHR 0x81, CHR 0x82, CHR 0x83, CHR 0x84, CHR 0x85, CHR 0x86, CHR 0x87, CHR 0x88,
          CHR 0x89, CHR 0x8A, CHR 0xA8, CHR 0xA9, CHR 0xAF]
     @ [[CHR 0xE2, CHR 0x81, CHR 0x9F], [CHR 0xE3, CHR 0x80, CHR 0x80]]"

definition take_prefix_of :: "string list \<Rightarrow> string \<Rightarrow> string option" where
  "take_prefix_of ps s =
     map_option (\<lambda>p. drop (length p) s)
       (find (\<lambda>p. p \<noteq> [] \<and> take (length p) s = p) ps)"

lemma take_prefix_of_shorter:
  "take_prefix_of ps s = Some r \<Longrightarrow> length r < length s"
  by (auto simp: take_prefix_of_def find_Some_iff)
    (metis length_drop length_greater_0_conv diff_less list.size(3) take_eq_Nil)

function strip_prefixes :: "string list \<Rightarrow> string \<Rightarrow> string" where
  "strip_prefixes ps s =
     (case take_prefix_of ps s of None \<Rightarrow> s | Some r \<Rightarrow> strip_prefixes ps r)"
  by pat_completeness auto
termination strip_prefixes
  by (relation "measure (\<lambda>(ps, s). length s)") (auto simp: take_prefix_of_shorter)

declare strip_prefixes.simps [simp del]

definition trim_start :: "string \<Rightarrow> string" where
  "trim_start s = strip_prefixes white_space s"

definition trim_end :: "string \<Rightarrow> string" where
  "trim_end s = rev (strip_prefixes (map rev white_space) (rev s))"

definition trim :: "string \<Rightarrow> string" where
  "trim s = trim_end (trim_start s)"

definition ascii_lower_char :: "char \<Rightarrow> char" where
  "ascii_lower_char c =
     (if 65 \<le> (of_char c :: nat) \<and> (of_char c :: nat) \<le> 90 then char_of ((of_char c :: nat) + 32) else c)"

text \<open>\<open>str::to_ascii_lowercase\<close>, and also SQLite's built-in \<open>LOWER\<close>, which only folds ASCII.\<close>

definition ascii_lower :: "string \<Rightarrow> string" where
  "ascii_lower s = map ascii_lower_char s"

lemma length_ascii_lower [simp]: "length (ascii_lower s) = length s"
  by (simp add: ascii_lower_def)

lemma ascii_lower_idem [simp]: "ascii_lower (ascii_lower s) = ascii_lower s"
proof -
  have "ascii_lower_char (ascii_lower_char c) = ascii_lower_char c" for c
    by (auto simp: ascii_lower_char_def)
  then show ?thesis by (simp add: ascii_lower_def comp_def)
qed

text \<open>SQLite's one-argument \<open>trim\<close> removes the space character only.\<close>

definition sql_trim :: "string \<Rightarrow> string" where
  "sql_trim s = rev (dropWhile (\<lambda>c. c = CHR '' '') (rev (dropWhile (\<lambda>c. c = CHR '' '') s)))"

section \<open>State and errors\<close>

text \<open>
  A call of the program either returns or fails with an error, and has changed the state up to
  the point where it stopped.  \<open>bindE\<close> is Rust's \<open>?\<close> on the result of one call before the next.
\<close>

type_synonym ('e, 's, 'a) act = "'s \<Rightarrow> ('e + 'a) \<times> 's"

definition ret :: "'a \<Rightarrow> ('e, 's, 'a) act" where
  "ret x = (\<lambda>s. (Inr x, s))"

definition fail :: "'e \<Rightarrow> ('e, 's, 'a) act" where
  "fail e = (\<lambda>s. (Inl e, s))"

definition bindE :: "('e, 's, 'a) act \<Rightarrow> ('a \<Rightarrow> ('e, 's, 'b) act) \<Rightarrow> ('e, 's, 'b) act" where
  "bindE m f = (\<lambda>s. case m s of (Inl e, s') \<Rightarrow> (Inl e, s') | (Inr x, s') \<Rightarrow> f x s')"

definition gets :: "('s \<Rightarrow> 'a) \<Rightarrow> ('e, 's, 'a) act" where
  "gets f = (\<lambda>s. (Inr (f s), s))"

definition modify :: "('s \<Rightarrow> 's) \<Rightarrow> ('e, 's, unit) act" where
  "modify f = (\<lambda>s. (Inr (), f s))"

definition require :: "bool \<Rightarrow> 'e \<Rightarrow> ('e, 's, unit) act" where
  "require b e = (if b then ret () else fail e)"

text \<open>\<open>ok_or\<close>, and a plain \<open>Result\<close> used with \<open>?\<close>.\<close>

definition ok_or :: "'e \<Rightarrow> 'a option \<Rightarrow> ('e, 's, 'a) act" where
  "ok_or e v = (case v of None \<Rightarrow> fail e | Some x \<Rightarrow> ret x)"

definition lift_result :: "'e + 'a \<Rightarrow> ('e, 's, 'a) act" where
  "lift_result r = (\<lambda>s. (r, s))"

text \<open>The result of a call as a value, the error included (\<open>match call().await\<close>).\<close>

definition attempt :: "('e, 's, 'a) act \<Rightarrow> ('e, 's, 'e + 'a) act" where
  "attempt m = (\<lambda>s. case m s of (r, s') \<Rightarrow> (Inr r, s'))"

definition ignore_error :: "('e, 's, 'a) act \<Rightarrow> ('e, 's, unit) act" where
  "ignore_error m = (\<lambda>s. (Inr (), snd (m s)))"

text \<open>A database transaction: dropped without \<open>commit\<close>, it leaves nothing behind.\<close>

definition transaction :: "('e, 's, 'a) act \<Rightarrow> ('e, 's, 'a) act" where
  "transaction m = (\<lambda>s. case m s of (Inl e, _) \<Rightarrow> (Inl e, s) | (Inr x, s') \<Rightarrow> (Inr x, s'))"

primrec for_each :: "'a list \<Rightarrow> ('a \<Rightarrow> ('e, 's, unit) act) \<Rightarrow> ('e, 's, unit) act" where
  "for_each [] f = ret ()"
| "for_each (x # xs) f = bindE (f x) (\<lambda>_. for_each xs f)"

primrec map_each :: "'a list \<Rightarrow> ('a \<Rightarrow> ('e, 's, 'b) act) \<Rightarrow> ('e, 's, 'b list) act" where
  "map_each [] f = ret []"
| "map_each (x # xs) f = bindE (f x) (\<lambda>y. bindE (map_each xs f) (\<lambda>ys. ret (y # ys)))"

primrec sequence_results :: "('e + 'a) list \<Rightarrow> 'e + 'a list" where
  "sequence_results [] = Inr []"
| "sequence_results (r # rs) =
     (case r of Inl e \<Rightarrow> Inl e
      | Inr x \<Rightarrow> (case sequence_results rs of Inl e \<Rightarrow> Inl e | Inr xs \<Rightarrow> Inr (x # xs)))"

lemma ret_run [run_simps]: "ret x s = (Inr x, s)" by (simp add: ret_def)
lemma fail_run [run_simps]: "fail e s = (Inl e, s)" by (simp add: fail_def)
lemma gets_run [run_simps]: "gets f s = (Inr (f s), s)" by (simp add: gets_def)
lemma modify_run [run_simps]: "modify f s = (Inr (), f s)" by (simp add: modify_def)

lemma require_run [run_simps]: "require b e s = (if b then Inr () else Inl e, s)"
  by (simp add: require_def ret_def fail_def)

lemma ok_or_run [run_simps]:
  "ok_or e v s = (case v of None \<Rightarrow> Inl e | Some x \<Rightarrow> Inr x, s)"
  by (simp add: ok_or_def ret_def fail_def split: option.split)

lemma lift_result_run [run_simps]: "lift_result r s = (r, s)"
  by (simp add: lift_result_def)

lemma attempt_run [run_simps]: "attempt m s = (Inr (fst (m s)), snd (m s))"
  by (simp add: attempt_def split: prod.split)

lemma ignore_error_run [run_simps]: "ignore_error m s = (Inr (), snd (m s))"
  by (simp add: ignore_error_def)

lemma bindE_ok [run_simps]: "m s = (Inr x, s') \<Longrightarrow> bindE m f s = f x s'"
  by (simp add: bindE_def)

lemma bindE_err [run_simps]: "m s = (Inl e, s') \<Longrightarrow> bindE m f s = (Inl e, s')"
  by (simp add: bindE_def)

lemma bindE_run: "bindE m f s = (case m s of (Inl e, s') \<Rightarrow> (Inl e, s') | (Inr x, s') \<Rightarrow> f x s')"
  by (simp add: bindE_def)

text \<open>A sequence returns exactly when each of its parts does.\<close>

lemma bindE_returns:
  "bindE m f s = (Inr y, s'') \<longleftrightarrow> (\<exists>x s'. m s = (Inr x, s') \<and> f x s' = (Inr y, s''))"
  by (auto simp: bindE_def split: prod.splits sum.splits)

lemma bindE_fails:
  "bindE m f s = (Inl e, s'') \<longleftrightarrow>
     m s = (Inl e, s'') \<or> (\<exists>x s'. m s = (Inr x, s') \<and> f x s' = (Inl e, s''))"
  by (auto simp: bindE_def split: prod.splits sum.splits)

lemma require_returns: "require b e s = (Inr x, s') \<longleftrightarrow> b \<and> s' = s"
  by (auto simp: require_run)

lemma ok_or_returns: "ok_or e v s = (Inr x, s') \<longleftrightarrow> v = Some x \<and> s' = s"
  by (auto simp: ok_or_run split: option.splits)

lemma gets_returns: "gets f s = (Inr x, s') \<longleftrightarrow> x = f s \<and> s' = s"
  by (auto simp: gets_run)

lemma ret_returns: "ret y s = (Inr x, s') \<longleftrightarrow> x = y \<and> s' = s"
  by (auto simp: ret_run)

lemma lift_result_returns: "lift_result r s = (Inr x, s') \<longleftrightarrow> r = Inr x \<and> s' = s"
  by (auto simp: lift_result_run)

lemma fail_returns: "fail e s = (Inr x, s') \<longleftrightarrow> False"
  by (auto simp: fail_run)

lemma transaction_returns: "transaction m s = (Inr x, s') \<longleftrightarrow> m s = (Inr x, s')"
  by (auto simp: transaction_def split: prod.splits sum.splits)

lemma transaction_atomic:
  "transaction m s = (Inl e, s') \<Longrightarrow> s' = s"
  by (auto simp: transaction_def split: prod.splits sum.splits)

lemmas returns_iff =
  bindE_returns require_returns ok_or_returns gets_returns ret_returns lift_result_returns
  fail_returns transaction_returns

lemma sequence_results_ok: "sequence_results (map Inr xs) = Inr xs"
  by (induction xs) auto

lemma sequence_results_okD: "sequence_results rs = Inr xs \<Longrightarrow> rs = map Inr xs"
  by (induction rs arbitrary: xs) (auto split: sum.splits)

lemma sequence_results_Inr [simp]: "sequence_results rs = Inr xs \<longleftrightarrow> rs = map Inr xs"
  using sequence_results_ok sequence_results_okD by metis

subsection \<open>Operations along a step order\<close>

text \<open>
  \<open>moves R m\<close>: whatever \<open>m\<close> does to the state, it does along \<open>R\<close>, on the returning and on the
  failing branches.  The locale holds what the combinators need of \<open>R\<close>; preservation of an
  invariant, a log that only grows and a part of the state that never changes are instances.
\<close>

definition moves :: "('s \<Rightarrow> 's \<Rightarrow> bool) \<Rightarrow> ('e, 's, 'a) act \<Rightarrow> bool" where
  "moves R m \<longleftrightarrow> (\<forall>s. R s (snd (m s)))"

definition keeps :: "('s \<Rightarrow> bool) \<Rightarrow> ('e, 's, 'a) act \<Rightarrow> bool" where
  "keeps P = moves (\<lambda>s s'. P s \<longrightarrow> P s')"

definition reads_only :: "('e, 's, 'a) act \<Rightarrow> bool" where
  "reads_only = moves (\<lambda>s s'. s' = s)"

locale step_order =
  fixes R :: "'s \<Rightarrow> 's \<Rightarrow> bool"
  assumes R_refl: "R s s"
    and R_trans: "R a b \<Longrightarrow> R b c \<Longrightarrow> R a c"
begin

lemma moves_bindE:
  assumes "moves R m" and "\<And>x. moves R (f x)"
  shows "moves R (bindE m f)"
  unfolding moves_def
proof
  fix s
  show "R s (snd (bindE m f s))"
  proof (cases "m s")
    case (Pair r s')
    with assms(1) have "R s s'" unfolding moves_def by (metis snd_conv)
    moreover have "R s' (snd (f x s'))" for x using assms(2) unfolding moves_def by blast
    ultimately show ?thesis using Pair R_trans by (cases r) (auto simp: bindE_def)
  qed
qed

lemma moves_pure:
  "moves R (ret x)" "moves R (fail e)" "moves R (gets g)" "moves R (require b e)"
  "moves R (ok_or e v)" "moves R (lift_result r)"
  by (simp_all add: moves_def run_simps R_refl)

lemma moves_catch:
  "moves R m \<Longrightarrow> moves R (attempt m)" "moves R m \<Longrightarrow> moves R (ignore_error m)"
  by (simp_all add: moves_def run_simps)

lemma moves_transaction: "moves R m \<Longrightarrow> moves R (transaction m)"
  by (auto simp: moves_def transaction_def R_refl split: prod.split sum.split)
    (metis snd_conv)

lemma moves_for_each: "(\<And>x. moves R (f x)) \<Longrightarrow> moves R (for_each xs f)"
  by (induction xs) (simp_all add: moves_bindE moves_pure)

lemma moves_map_each: "(\<And>x. moves R (f x)) \<Longrightarrow> moves R (map_each xs f)"
  by (induction xs) (simp_all add: moves_bindE moves_pure)

lemma moves_of_reads: "reads_only m \<Longrightarrow> moves R m"
  by (simp add: moves_def reads_only_def R_refl)

lemma moves_cond:
  "(b \<Longrightarrow> moves R m) \<Longrightarrow> (\<not> b \<Longrightarrow> moves R n) \<Longrightarrow> moves R (if b then m else n)"
  by simp

lemma moves_option:
  "moves R m \<Longrightarrow> (\<And>x. moves R (f x)) \<Longrightarrow> moves R (case v of None \<Rightarrow> m | Some x \<Rightarrow> f x)"
  by (simp split: option.split)

lemma moves_sum:
  "(\<And>e. moves R (f e)) \<Longrightarrow> (\<And>x. moves R (g x)) \<Longrightarrow> moves R (case v of Inl e \<Rightarrow> f e | Inr x \<Rightarrow> g x)"
  by (simp split: sum.split)

lemma moves_pair: "(\<And>x y. moves R (f x y)) \<Longrightarrow> moves R (case p of (x, y) \<Rightarrow> f x y)"
  by (simp split: prod.split)

end

interpretation keep: step_order "\<lambda>s s'. P s \<longrightarrow> P s'" for P :: "'s \<Rightarrow> bool"
  by unfold_locales auto

interpretation rd: step_order "\<lambda>s s'. s' = s"
  by unfold_locales auto

lemmas keeps_intros [step_intros] =
  keep.moves_bindE [folded keeps_def] keep.moves_pure [folded keeps_def]
  keep.moves_catch [folded keeps_def] keep.moves_transaction [folded keeps_def]
  keep.moves_for_each [folded keeps_def] keep.moves_map_each [folded keeps_def]
  keep.moves_cond [folded keeps_def] keep.moves_option [folded keeps_def]
  keep.moves_sum [folded keeps_def] keep.moves_pair [folded keeps_def]

lemmas reads_intros [step_intros] =
  rd.moves_bindE [folded reads_only_def] rd.moves_pure [folded reads_only_def]
  rd.moves_catch [folded reads_only_def] rd.moves_transaction [folded reads_only_def]
  rd.moves_for_each [folded reads_only_def] rd.moves_map_each [folded reads_only_def]
  rd.moves_cond [folded reads_only_def] rd.moves_option [folded reads_only_def]
  rd.moves_sum [folded reads_only_def] rd.moves_pair [folded reads_only_def]

lemma keepsI: "(\<And>s. P s \<Longrightarrow> P (snd (m s))) \<Longrightarrow> keeps P m"
  by (simp add: keeps_def moves_def)

lemma keepsD: "keeps P m \<Longrightarrow> P s \<Longrightarrow> P (snd (m s))"
  by (simp add: keeps_def moves_def)

lemma keeps_run: "keeps P m \<Longrightarrow> m s = (r, s') \<Longrightarrow> P s \<Longrightarrow> P s'"
  by (metis keepsD snd_conv)

lemma keeps_modify: "(\<And>s. P s \<Longrightarrow> P (f s)) \<Longrightarrow> keeps P (modify f)"
  by (simp add: keepsI run_simps)

lemma keeps_reads: "reads_only m \<Longrightarrow> keeps P m"
  unfolding keeps_def by (rule keep.moves_of_reads)

lemma reads_onlyI: "(\<And>s. snd (m s) = s) \<Longrightarrow> reads_only m"
  by (simp add: reads_only_def moves_def)

lemma reads_onlyD: "reads_only m \<Longrightarrow> snd (m s) = s"
  by (simp add: reads_only_def moves_def)

lemma reads_only_run: "reads_only m \<Longrightarrow> m s = (r, s') \<Longrightarrow> s' = s"
  using reads_onlyD [of m s] by simp

subsection \<open>What holds after a run\<close>

lemma post_bindE:
  assumes "\<And>e s'. m s = (Inl e, s') \<Longrightarrow> Q s'" and "\<And>x s'. m s = (Inr x, s') \<Longrightarrow> Q (snd (f x s'))"
  shows "Q (snd (bindE m f s))"
  using assms by (cases "m s"; cases "fst (m s)") (auto simp: bindE_run)

lemma post_reads:
  assumes "reads_only m" and "Q s" and "\<And>x. m s = (Inr x, s) \<Longrightarrow> Q (snd (f x s))"
  shows "Q (snd (bindE m f s))"
  by (rule post_bindE) (use assms reads_only_run [OF assms(1)] in blast)+

lemma run_ok: "fst (m s) = Inr x \<Longrightarrow> m s = (Inr x, snd (m s))"
  by (cases "m s") simp

lemma run_err: "fst (m s) = Inl e \<Longrightarrow> m s = (Inl e, snd (m s))"
  by (cases "m s") simp

section \<open>Tables\<close>

text \<open>A table is its list of rows in insertion (rowid) order.\<close>

definition first_row :: "('r \<Rightarrow> bool) \<Rightarrow> 'r list \<Rightarrow> 'r option" where
  "first_row p rows = find p rows"

definition update_rows :: "('r \<Rightarrow> bool) \<Rightarrow> ('r \<Rightarrow> 'r) \<Rightarrow> 'r list \<Rightarrow> 'r list" where
  "update_rows p f rows = map (\<lambda>r. if p r then f r else r) rows"

definition delete_rows :: "('r \<Rightarrow> bool) \<Rightarrow> 'r list \<Rightarrow> 'r list" where
  "delete_rows p rows = filter (\<lambda>r. \<not> p r) rows"

definition affected :: "('r \<Rightarrow> bool) \<Rightarrow> 'r list \<Rightarrow> nat" where
  "affected p rows = length (filter p rows)"

lemma first_row_None [table_simps]: "first_row p rows = None \<longleftrightarrow> (\<forall>r\<in>set rows. \<not> p r)"
  by (auto simp: first_row_def find_None_iff)

lemma first_row_SomeD: "first_row p rows = Some r \<Longrightarrow> r \<in> set rows \<and> p r"
  by (auto simp: first_row_def find_Some_iff)

lemma affected_0 [table_simps]: "affected p rows = 0 \<longleftrightarrow> (\<forall>r\<in>set rows. \<not> p r)"
  by (auto simp: affected_def filter_empty_conv)

lemma affected_pos [table_simps]: "0 < affected p rows \<longleftrightarrow> (\<exists>r\<in>set rows. p r)"
  by (induction rows) (auto simp: affected_def)

lemma set_delete_rows [table_simps]: "r \<in> set (delete_rows p rows) \<longleftrightarrow> r \<in> set rows \<and> \<not> p r"
  by (simp add: delete_rows_def)

lemma set_update_rows [table_simps]:
  "set (update_rows p f rows) = (\<lambda>r. if p r then f r else r) ` set rows"
  by (simp add: update_rows_def)

lemma update_rowsE:
  assumes "r' \<in> set (update_rows p f rows)"
  obtains (changed) r where "r \<in> set rows" "p r" "r' = f r" | (kept) "r' \<in> set rows" "\<not> p r'"
  using assms by (auto simp: set_update_rows split: if_splits)

lemma map_update_rows [table_simps]:
  "(\<And>r. g (f r) = g r) \<Longrightarrow> map g (update_rows p f rows) = map g rows"
  by (simp add: update_rows_def)

lemma distinct_delete_rows [table_simps]:
  "distinct (map g rows) \<Longrightarrow> distinct (map g (delete_rows p rows))"
  by (simp add: delete_rows_def distinct_map_filter)

text \<open>A key that is unique in the table determines the row.\<close>

lemma unique_key_row:
  "distinct (map k rows) \<Longrightarrow> r \<in> set rows \<Longrightarrow> r' \<in> set rows \<Longrightarrow> k r = k r' \<Longrightarrow> r = r'"
  by (metis distinct_map inj_onD)

lemma first_row_unique:
  assumes "distinct (map k rows)" and "r \<in> set rows" and "p r" and "\<And>r. p r \<Longrightarrow> k r = x"
  shows "first_row p rows = Some r"
proof (cases "first_row p rows")
  case None
  with assms show ?thesis by (simp add: table_simps)
next
  case (Some r')
  then have "r' \<in> set rows \<and> p r'" by (rule first_row_SomeD)
  with assms have "r' = r" by (metis unique_key_row)
  with Some show ?thesis by simp
qed

lemma first_row_append [table_simps]:
  "first_row p (rows @ [r]) =
     (case first_row p rows of Some r' \<Rightarrow> Some r' | None \<Rightarrow> if p r then Some r else None)"
  by (induction rows) (auto simp: first_row_def)

lemma first_row_update [table_simps]:
  assumes "\<And>r. p (f r) = p r"
  shows "first_row p (update_rows q f rows) =
           map_option (\<lambda>r. if q r then f r else r) (first_row p rows)"
  by (induction rows) (auto simp: first_row_def update_rows_def assms)

section \<open>Codecs\<close>

text \<open>
  What a pair of an encoder and a decoder promises: the decoder inverts the encoder on the values
  that are well formed, and accepts nothing else.
\<close>

definition ok_of :: "'e + 'a \<Rightarrow> 'a option" where
  "ok_of r = (case r of Inl _ \<Rightarrow> None | Inr x \<Rightarrow> Some x)"

lemma ok_of_simps [simp]: "ok_of (Inl e) = None" "ok_of (Inr x) = Some x"
  by (simp_all add: ok_of_def)

lemma ok_of_Some: "ok_of r = Some x \<longleftrightarrow> r = Inr x"
  by (simp add: ok_of_def split: sum.split)

locale codec =
  fixes good :: "'a \<Rightarrow> bool" and enc :: "'a \<Rightarrow> 'c" and dec :: "'c \<Rightarrow> 'a option"
  assumes dec_enc: "good x \<Longrightarrow> dec (enc x) = Some x"
    and dec_good: "dec c = Some x \<Longrightarrow> good x"
    and dec_canonical: "dec c = Some x \<Longrightarrow> enc x = c"
begin

lemma dec_iff: "dec c = Some x \<longleftrightarrow> good x \<and> enc x = c"
  using dec_enc dec_good dec_canonical by metis

lemma enc_inj: "good x \<Longrightarrow> good y \<Longrightarrow> enc x = enc y \<longleftrightarrow> x = y"
  using dec_enc by (metis option.inject)

lemma dec_inj: "dec c = Some x \<Longrightarrow> dec d = Some x \<Longrightarrow> c = d"
  using dec_canonical by metis

lemma accepted: "dec c \<noteq> None \<longleftrightarrow> c \<in> enc ` Collect good"
  by (auto simp: dec_iff image_iff)

end

end
