(* ===== verification/Models.thy ===== *)
theory Models
  imports Prelude
begin

text \<open>
  The error type (\<open>errors.rs\<close>) and the domain types of \<open>models/\<close> with their database spellings.
  A \<open>Uuid\<close> is the 128-bit value itself: the textual form the columns hold (\<open>to_string\<close> on every
  write, \<open>parse_str\<close> on every read) belongs to the uuid crate and is elided, so the error branches
  of \<open>parse_str\<close> are the only ones of a repository that have no counterpart here.  In texts built
  with \<open>format!\<close> a Uuid and a number stay symbolic (\<open>chunk\<close>).  Of an error message that interpolates the text
  of a foreign library's error only the program's own part is kept.
\<close>

type_synonym uuid = "128 word"

text \<open>Seconds, as SQLite's \<open>CURRENT_TIMESTAMP\<close> and the code's \<open>unix\<close> clocks count them.\<close>

type_synonym timestamp = nat

datatype chunk = Lit string | IdText uuid | NatText nat

type_synonym rich_text = "chunk list"

section \<open>Errors\<close>

datatype access_denied_reason =
    AdminRequired | TeamLeaderRequired | TeamMembershipRequired | VaultAccessDenied
  | VaultWriteDenied | VaultAdminRequired | VaultSharedCreateDenied | InvalidCredentials
  | PasswordRequiredForChange | InvalidTotpCode | AuditCrossUserDenied | Unauthorized

fun display_reason :: "access_denied_reason \<Rightarrow> string" where
  "display_reason AdminRequired = ''admin role required''"
| "display_reason TeamLeaderRequired = ''team leader role required''"
| "display_reason TeamMembershipRequired = ''team membership required''"
| "display_reason VaultAccessDenied = ''vault access denied for this user''"
| "display_reason VaultWriteDenied = ''vault write denied for this user''"
| "display_reason VaultAdminRequired = ''vault administration requires admin permission''"
| "display_reason VaultSharedCreateDenied = ''creating secrets in shared vault requires admin role''"
| "display_reason InvalidCredentials = ''invalid credentials''"
| "display_reason PasswordRequiredForChange = ''current password required for this change''"
| "display_reason InvalidTotpCode = ''invalid TOTP setup code''"
| "display_reason AuditCrossUserDenied =
     ''insufficient permissions to view another user's audit log''"
| "display_reason Unauthorized = ''unauthorized action''"

text \<open>What \<open>sqlx::Error\<close> says of a statement SQLite refuses, by the constraint it breaks,
  or of a row it cannot return.\<close>

datatype sql_error =
    UniqueViolation | ForeignKeyViolation | CheckViolation | RowNotFound | ColumnDecode

datatype app_error =
    InitializationRequired string
  | Validation string
  | NotFound string
  | Conflict string
  | Storage string
  | Database sql_error
  | Io string
  | Crypto string
  | Authorization access_denied_reason
  | ShutdownInProgress
  | Internal

lemma display_reason_inj: "display_reason r = display_reason r' \<longleftrightarrow> r = r'"
  by (cases r; cases r'; simp)

section \<open>Users\<close>

datatype user_role = RoleUser | RoleAdmin

record user =
  user_id :: uuid
  username :: string
  role :: user_role
  email :: "string option"
  display_name :: "string option"
  preferred_language :: string
  show_passwords_in_edit :: bool
  updated_at :: "timestamp option"

fun format_role :: "user_role \<Rightarrow> string" where
  "format_role RoleAdmin = ''admin''"
| "format_role RoleUser = ''user''"

definition parse_role :: "string \<Rightarrow> app_error + user_role" where
  "parse_role s =
     (if s = ''user'' then Inr RoleUser
      else if s = ''admin'' then Inr RoleAdmin
      else Inl (Storage ''invalid user role in storage''))"

section \<open>Vaults and shares\<close>

record vault =
  vault_id :: uuid
  owner_user_id :: uuid
  vault_name :: string

datatype vault_share_role = ShareRead | ShareWrite | ShareAdmin

fun share_role_to_db :: "vault_share_role \<Rightarrow> string" where
  "share_role_to_db ShareRead = ''read''"
| "share_role_to_db ShareWrite = ''write''"
| "share_role_to_db ShareAdmin = ''admin''"

definition share_role_from_db :: "string \<Rightarrow> vault_share_role option" where
  "share_role_from_db s =
     (if s = ''read'' then Some ShareRead
      else if s = ''write'' then Some ShareWrite
      else if s = ''admin'' then Some ShareAdmin
      else None)"

fun can_write :: "vault_share_role \<Rightarrow> bool" where
  "can_write ShareRead = False"
| "can_write ShareWrite = True"
| "can_write ShareAdmin = True"

fun can_admin :: "vault_share_role \<Rightarrow> bool" where
  "can_admin ShareRead = False"
| "can_admin ShareWrite = False"
| "can_admin ShareAdmin = True"

datatype vault_access_kind = Owner | DirectShare | TeamShare

definition access_kind_from_db :: "string \<Rightarrow> vault_access_kind option" where
  "access_kind_from_db s =
     (if s = ''owner'' then Some Owner
      else if s = ''direct_share'' then Some DirectShare
      else if s = ''team_share'' then Some TeamShare
      else None)"

record accessible_vault =
  av_vault :: vault
  av_role :: vault_share_role
  av_kind :: vault_access_kind
  av_key_version :: int

text \<open>The share roles are ordered by what they allow; the order is what \<open>can_write\<close> and
  \<open>can_admin\<close> are monotone in.\<close>

fun role_rank :: "vault_share_role \<Rightarrow> nat" where
  "role_rank ShareRead = 0"
| "role_rank ShareWrite = 1"
| "role_rank ShareAdmin = 2"

instantiation vault_share_role :: linorder
begin

definition less_eq_vault_share_role :: "vault_share_role \<Rightarrow> vault_share_role \<Rightarrow> bool" where
  "less_eq_vault_share_role r r' \<longleftrightarrow> role_rank r \<le> role_rank r'"

definition less_vault_share_role :: "vault_share_role \<Rightarrow> vault_share_role \<Rightarrow> bool" where
  "less_vault_share_role r r' \<longleftrightarrow> role_rank r < role_rank r'"

instance
proof
  fix x y z :: vault_share_role
  show "x < y \<longleftrightarrow> x \<le> y \<and> \<not> y \<le> x"
    by (auto simp: less_eq_vault_share_role_def less_vault_share_role_def)
  show "x \<le> x" by (simp add: less_eq_vault_share_role_def)
  show "x \<le> y \<Longrightarrow> y \<le> z \<Longrightarrow> x \<le> z" by (simp add: less_eq_vault_share_role_def)
  show "x \<le> y \<Longrightarrow> y \<le> x \<Longrightarrow> x = y"
    by (cases x; cases y; simp add: less_eq_vault_share_role_def)
  show "x \<le> y \<or> y \<le> x" by (auto simp: less_eq_vault_share_role_def)
qed

end

lemma can_write_iff: "can_write r \<longleftrightarrow> ShareWrite \<le> r"
  by (cases r) (simp_all add: less_eq_vault_share_role_def)

lemma can_admin_iff: "can_admin r \<longleftrightarrow> ShareAdmin \<le> r"
  by (cases r) (simp_all add: less_eq_vault_share_role_def)

section \<open>Secrets\<close>

datatype secret_type = Password | ApiToken | SshKey | SecureDocument

datatype blob_storage = Inline | BlobFile

record secret_item =
  secret_id :: uuid
  secret_vault :: uuid
  s_type :: secret_type
  title :: "string option"
  metadata_json :: "string option"
  tags :: "string option"
  expires_at :: "string option"
  created_at :: "timestamp option"
  modified_at :: "timestamp option"
  usage_count :: "32 word"
  storage :: blob_storage
  secret_blob :: bytes
  deleted_at :: "timestamp option"

definition from_dropdown_index :: "32 word \<Rightarrow> secret_type option" where
  "from_dropdown_index i =
     (if i = 0 then Some Password
      else if i = 1 then Some ApiToken
      else if i = 2 then Some SshKey
      else if i = 3 then Some SecureDocument
      else None)"

fun dropdown_index :: "secret_type \<Rightarrow> 32 word" where
  "dropdown_index Password = 0"
| "dropdown_index ApiToken = 1"
| "dropdown_index SshKey = 2"
| "dropdown_index SecureDocument = 3"

fun to_secret_type_db :: "secret_type \<Rightarrow> string" where
  "to_secret_type_db Password = ''password''"
| "to_secret_type_db ApiToken = ''api_token''"
| "to_secret_type_db SshKey = ''ssh_key''"
| "to_secret_type_db SecureDocument = ''secure_document''"

definition parse_secret_type_db :: "string \<Rightarrow> app_error + secret_type" where
  "parse_secret_type_db s =
     (if s = ''password'' then Inr Password
      else if s = ''api_token'' then Inr ApiToken
      else if s = ''ssh_key'' then Inr SshKey
      else if s = ''secure_document'' then Inr SecureDocument
      else Inl (Storage ''invalid secret_type in storage''))"

fun to_blob_storage_db :: "blob_storage \<Rightarrow> string" where
  "to_blob_storage_db Inline = ''inline''"
| "to_blob_storage_db BlobFile = ''file''"

definition parse_blob_storage_db :: "string \<Rightarrow> app_error + blob_storage" where
  "parse_blob_storage_db s =
     (if s = ''inline'' then Inr Inline
      else if s = ''file'' then Inr BlobFile
      else Inl (Storage ''invalid blob_storage in storage''))"

section \<open>Teams\<close>

datatype team_member_role = Member | Leader

fun member_role_to_db :: "team_member_role \<Rightarrow> string" where
  "member_role_to_db Member = ''member''"
| "member_role_to_db Leader = ''leader''"

definition member_role_from_db :: "string \<Rightarrow> string + team_member_role" where
  "member_role_from_db s =
     (if s = ''member'' then Inr Member
      else if s = ''leader'' then Inr Leader
      else Inl (''unknown team member role: '' @ s))"

record team =
  team_id :: uuid
  team_name :: string
  created_by :: "uuid option"
  team_created_at :: timestamp

record team_member =
  tm_team :: uuid
  tm_user :: uuid
  tm_role :: team_member_role
  tm_joined_at :: timestamp

section \<open>Audit actions\<close>

datatype audit_action =
    UserCreated | UserDeleted | UserRoleChanged | UserPasswordReset
  | TeamCreated | TeamDeleted | TeamMemberAdded | TeamMemberRemoved
  | VaultSharedWithUser | VaultSharedWithTeam | VaultAccessRevoked | VaultKeyRotated
  | VaultCreated | VaultDeleted | VaultOpened
  | SecretCreated | SecretUpdated | SecretDeleted

fun audit_action_to_db :: "audit_action \<Rightarrow> string" where
  "audit_action_to_db UserCreated = ''user.created''"
| "audit_action_to_db UserDeleted = ''user.deleted''"
| "audit_action_to_db UserRoleChanged = ''user.role_changed''"
| "audit_action_to_db UserPasswordReset = ''user.password_reset''"
| "audit_action_to_db TeamCreated = ''team.created''"
| "audit_action_to_db TeamDeleted = ''team.deleted''"
| "audit_action_to_db TeamMemberAdded = ''team.member_added''"
| "audit_action_to_db TeamMemberRemoved = ''team.member_removed''"
| "audit_action_to_db VaultSharedWithUser = ''vault.shared_with_user''"
| "audit_action_to_db VaultSharedWithTeam = ''vault.shared_with_team''"
| "audit_action_to_db VaultAccessRevoked = ''vault.access_revoked''"
| "audit_action_to_db VaultKeyRotated = ''vault.key_rotated''"
| "audit_action_to_db VaultCreated = ''vault.created''"
| "audit_action_to_db VaultDeleted = ''vault.deleted''"
| "audit_action_to_db VaultOpened = ''vault.opened''"
| "audit_action_to_db SecretCreated = ''secret.created''"
| "audit_action_to_db SecretUpdated = ''secret.updated''"
| "audit_action_to_db SecretDeleted = ''secret.deleted''"

text \<open>An audit row names its target by the text of an id, or by another text.\<close>

datatype target_ref = TargetId uuid | TargetText string

record audit_log_entry =
  entry_id :: nat
  actor_user_id :: "uuid option"
  entry_action :: string
  target_type :: "string option"
  target_id :: "target_ref option"
  detail :: "rich_text option"
  performed_at :: timestamp

section \<open>The database spellings are codecs\<close>

interpretation user_role_db: codec "\<lambda>_. True" format_role "\<lambda>s. ok_of (parse_role s)"
proof unfold_locales
  show "ok_of (parse_role (format_role x)) = Some x" for x by (cases x) (simp_all add: parse_role_def)
  show "ok_of (parse_role c) = Some x \<Longrightarrow> format_role x = c" for c x
    by (auto simp: parse_role_def split: if_splits)
qed simp

interpretation share_role_db: codec "\<lambda>_. True" share_role_to_db share_role_from_db
proof unfold_locales
  show "share_role_from_db (share_role_to_db x) = Some x" for x
    by (cases x) (simp_all add: share_role_from_db_def)
  show "share_role_from_db c = Some x \<Longrightarrow> share_role_to_db x = c" for c x
    by (auto simp: share_role_from_db_def split: if_splits)
qed simp

interpretation secret_type_db: codec "\<lambda>_. True" to_secret_type_db "\<lambda>s. ok_of (parse_secret_type_db s)"
proof unfold_locales
  show "ok_of (parse_secret_type_db (to_secret_type_db x)) = Some x" for x
    by (cases x) (simp_all add: parse_secret_type_db_def)
  show "ok_of (parse_secret_type_db c) = Some x \<Longrightarrow> to_secret_type_db x = c" for c x
    by (auto simp: parse_secret_type_db_def split: if_splits)
qed simp

interpretation blob_storage_db: codec "\<lambda>_. True" to_blob_storage_db "\<lambda>s. ok_of (parse_blob_storage_db s)"
proof unfold_locales
  show "ok_of (parse_blob_storage_db (to_blob_storage_db x)) = Some x" for x
    by (cases x) (simp_all add: parse_blob_storage_db_def)
  show "ok_of (parse_blob_storage_db c) = Some x \<Longrightarrow> to_blob_storage_db x = c" for c x
    by (auto simp: parse_blob_storage_db_def split: if_splits)
qed simp

interpretation member_role_db: codec "\<lambda>_. True" member_role_to_db "\<lambda>s. ok_of (member_role_from_db s)"
proof unfold_locales
  show "ok_of (member_role_from_db (member_role_to_db x)) = Some x" for x
    by (cases x) (simp_all add: member_role_from_db_def)
  show "ok_of (member_role_from_db c) = Some x \<Longrightarrow> member_role_to_db x = c" for c x
    by (auto simp: member_role_from_db_def split: if_splits)
qed simp

interpretation dropdown: codec "\<lambda>_. True" dropdown_index from_dropdown_index
proof unfold_locales
  show "from_dropdown_index (dropdown_index x) = Some x" for x
    by (cases x) (simp_all add: from_dropdown_index_def)
  show "from_dropdown_index c = Some x \<Longrightarrow> dropdown_index x = c" for c x
    by (auto simp: from_dropdown_index_def split: if_splits)
qed simp

end
