(* ===== verification/Crypto.thy ===== *)
theory Crypto
  imports Models
begin

text \<open>
  \<open>services/crypto_service.rs\<close> and the nonce-prefixed envelopes the vault, team and secret
  services store.  AES-256-GCM, Argon2id and the system random source are not code of the
  program: they are the fields of \<open>primitives\<close>, an argument of every definition that uses them,
  and \<open>aead_laws\<close> names the documented behaviour the proofs rely on.  A random draw is an argument
  too: \<open>None\<close> when \<open>getrandom\<close> fails, otherwise the bytes it filled.
\<close>

definition NONCE_LEN :: nat where "NONCE_LEN = 12"
definition AES_256_KEY_LEN :: nat where "AES_256_KEY_LEN = 32"
definition KDF_SALT_LEN :: nat where "KDF_SALT_LEN = 32"

record kdf_config =
  memory_cost_kib :: "32 word"
  time_cost :: "32 word"
  parallelism :: "32 word"
  output_len :: nat

definition default_kdf_config :: kdf_config where
  "default_kdf_config =
     \<lparr> memory_cost_kib = 64 * 1024, time_cost = 3, parallelism = 1, output_len = AES_256_KEY_LEN \<rparr>"

record encrypted_payload =
  nonce :: bytes
  ciphertext :: bytes

text \<open>\<open>aes_key\<close>: \<open>Aes256Gcm::new_from_slice\<close> accepts the slice.  \<open>aead_encrypt\<close> and \<open>aead_decrypt\<close>
  take key, nonce and data; \<open>argon2_params\<close> says whether \<open>Params::new\<close> accepts a configuration, and
  \<open>argon2id\<close> is the hash of a password under a salt.\<close>

record primitives =
  aes_key :: "bytes \<Rightarrow> bool"
  aead_encrypt :: "bytes \<Rightarrow> bytes \<Rightarrow> bytes \<Rightarrow> bytes option"
  aead_decrypt :: "bytes \<Rightarrow> bytes \<Rightarrow> bytes \<Rightarrow> bytes option"
  argon2_params :: "kdf_config \<Rightarrow> bool"
  argon2id :: "kdf_config \<Rightarrow> bytes \<Rightarrow> bytes \<Rightarrow> bytes option"

section \<open>The crypto service\<close>

definition generate_kdf_salt :: "bytes option \<Rightarrow> app_error + bytes" where
  "generate_kdf_salt rnd =
     (case rnd of None \<Rightarrow> Inl (Crypto ''salt generation failed'') | Some salt \<Rightarrow> Inr salt)"

definition generate_nonce :: "bytes option \<Rightarrow> app_error + bytes" where
  "generate_nonce rnd =
     (case rnd of None \<Rightarrow> Inl (Crypto ''nonce generation failed'') | Some n \<Rightarrow> Inr n)"

definition derive_key :: "primitives \<Rightarrow> kdf_config \<Rightarrow> string \<Rightarrow> bytes \<Rightarrow> app_error + bytes" where
  "derive_key P cfg password salt =
     (if salt = [] then Inl (Crypto ''salt must not be empty'')
      else if \<not> argon2_params P cfg then Inl (Crypto ''invalid argon2 params'')
      else case argon2id P cfg (str_bytes password) salt of
          None \<Rightarrow> Inl (Crypto ''argon2id derivation failed'')
        | Some key \<Rightarrow> Inr key)"

definition encrypt :: "primitives \<Rightarrow> bytes option \<Rightarrow> bytes \<Rightarrow> bytes \<Rightarrow> app_error + encrypted_payload" where
  "encrypt P rnd plaintext key =
     (if \<not> aes_key P key then Inl (Crypto ''invalid aes-256 key'')
      else case generate_nonce rnd of
          Inl e \<Rightarrow> Inl e
        | Inr n \<Rightarrow>
           (case aead_encrypt P key n plaintext of
              None \<Rightarrow> Inl (Crypto ''encryption failed'')
            | Some c \<Rightarrow> Inr \<lparr> nonce = n, ciphertext = c \<rparr>))"

definition decrypt :: "primitives \<Rightarrow> encrypted_payload \<Rightarrow> bytes \<Rightarrow> app_error + bytes" where
  "decrypt P payload key =
     (if \<not> aes_key P key then Inl (Crypto ''invalid aes-256 key'')
      else case aead_decrypt P key (nonce payload) (ciphertext payload) of
          None \<Rightarrow> Inl (Crypto ''decryption failed'')
        | Some plaintext \<Rightarrow> Inr plaintext)"

text \<open>
  What the services rely on of AES-256-GCM: keys are 32 bytes, decryption inverts encryption, and
  a ciphertext that passes the authentication is the encryption of what it decrypts to.
\<close>

definition aead_laws :: "primitives \<Rightarrow> bool" where
  "aead_laws P \<longleftrightarrow>
     (\<forall>k. aes_key P k \<longleftrightarrow> length k = 32) \<and>
     (\<forall>k n p c. length k = 32 \<longrightarrow> length n = 12 \<longrightarrow>
        aead_encrypt P k n p = Some c \<longrightarrow> aead_decrypt P k n c = Some p) \<and>
     (\<forall>k n p c. length k = 32 \<longrightarrow> length n = 12 \<longrightarrow>
        aead_decrypt P k n c = Some p \<longrightarrow> aead_encrypt P k n p = Some c)"

lemma aead_lawsD:
  assumes "aead_laws P"
  shows "aes_key P k \<longleftrightarrow> length k = 32"
    and "length k = 32 \<Longrightarrow> length n = 12 \<Longrightarrow>
           aead_encrypt P k n p = Some c \<Longrightarrow> aead_decrypt P k n c = Some p"
    and "length k = 32 \<Longrightarrow> length n = 12 \<Longrightarrow>
           aead_decrypt P k n c = Some p \<Longrightarrow> aead_encrypt P k n p = Some c"
  using assms unfolding aead_laws_def by blast+

lemma encrypt_Inr:
  "encrypt P rnd pt key = Inr q \<longleftrightarrow>
     aes_key P key \<and> rnd = Some (nonce q) \<and> aead_encrypt P key (nonce q) pt = Some (ciphertext q)"
  by (auto simp: encrypt_def generate_nonce_def split: option.splits)

lemma decrypt_Inr:
  "decrypt P q key = Inr pt \<longleftrightarrow>
     aes_key P key \<and> aead_decrypt P key (nonce q) (ciphertext q) = Some pt"
  by (auto simp: decrypt_def split: option.splits)

lemma decrypt_encrypt:
  assumes "aead_laws P" and "length n = NONCE_LEN" and "encrypt P (Some n) pt key = Inr q"
  shows "decrypt P q key = Inr pt"
  using assms(2,3) aead_lawsD(1) [OF assms(1), of key]
    aead_lawsD(2) [OF assms(1), of key "nonce q" pt "ciphertext q"]
  unfolding encrypt_Inr decrypt_Inr NONCE_LEN_def by simp

lemma encrypt_decrypt:
  assumes "aead_laws P" and "length (nonce q) = NONCE_LEN" and "decrypt P q key = Inr pt"
  shows "encrypt P (Some (nonce q)) pt key = Inr q"
  using assms(2,3) aead_lawsD(1) [OF assms(1), of key]
    aead_lawsD(3) [OF assms(1), of key "nonce q" "ciphertext q" pt]
  unfolding encrypt_Inr decrypt_Inr NONCE_LEN_def by simp

section \<open>Envelopes\<close>

text \<open>The serialized form is the nonce followed by the ciphertext; the decoders of the services
  differ in the message of the error only.\<close>

definition serialize_envelope :: "encrypted_payload \<Rightarrow> bytes" where
  "serialize_envelope payload = nonce payload @ ciphertext payload"

definition split_envelope :: "string \<Rightarrow> bytes \<Rightarrow> app_error + encrypted_payload" where
  "split_envelope msg b =
     (if length b < NONCE_LEN then Inl (Storage msg)
      else Inr \<lparr> nonce = take NONCE_LEN b, ciphertext = drop NONCE_LEN b \<rparr>)"

definition deserialize_envelope :: "bytes \<Rightarrow> app_error + encrypted_payload" where
  "deserialize_envelope b = split_envelope ''vault key envelope is invalid'' b"

definition serialize_payload :: "encrypted_payload \<Rightarrow> bytes" where
  "serialize_payload payload = nonce payload @ ciphertext payload"

definition deserialize_payload :: "bytes \<Rightarrow> app_error + encrypted_payload" where
  "deserialize_payload b = split_envelope ''secret blob envelope is invalid'' b"

definition serialize_vault_key_envelope :: "encrypted_payload \<Rightarrow> bytes" where
  "serialize_vault_key_envelope payload = nonce payload @ ciphertext payload"

abbreviation payload_ok :: "encrypted_payload \<Rightarrow> bool" where
  "payload_ok q \<equiv> length (nonce q) = NONCE_LEN"

text \<open>An envelope codec under encryption: what is sealed opens, and only what was sealed opens.\<close>

locale sealing = codec payload_ok ser de
  for ser :: "encrypted_payload \<Rightarrow> bytes" and de :: "bytes \<Rightarrow> encrypted_payload option"
begin

lemma seal_open:
  assumes "aead_laws P" and "length n = NONCE_LEN" and "encrypt P (Some n) pt key = Inr q"
  shows "de (ser q) = Some q \<and> decrypt P q key = Inr pt"
proof -
  from assms(2,3) have "payload_ok q" by (simp add: encrypt_Inr)
  with assms show ?thesis by (simp add: dec_enc decrypt_encrypt)
qed

lemma open_seal:
  assumes "aead_laws P" and "de b = Some q" and "decrypt P q key = Inr pt"
  shows "b = ser q \<and> encrypt P (Some (nonce q)) pt key = Inr q"
  using assms dec_good [OF assms(2)] by (simp add: dec_canonical encrypt_decrypt)

text \<open>Two plaintexts never share an envelope under one key.\<close>

lemma seal_inj:
  assumes "aead_laws P" and "length n = NONCE_LEN" and "length m = NONCE_LEN"
    and "encrypt P (Some n) pt key = Inr q" and "encrypt P (Some m) pt' key = Inr q'"
    and "ser q = ser q'"
  shows "pt = pt'"
proof -
  note one = seal_open [OF assms(1,2,4)] and two = seal_open [OF assms(1,3,5)]
  from one two assms(6) have "Some q = Some q'" by metis
  with one two show ?thesis by (metis option.inject sum.inject(2))
qed

end

lemma split_envelope_codec:
  "codec payload_ok (\<lambda>q. nonce q @ ciphertext q) (\<lambda>b. ok_of (split_envelope msg b))"
  by unfold_locales (auto simp: split_envelope_def NONCE_LEN_def split: if_splits)

interpretation vault_envelope: sealing serialize_envelope "\<lambda>b. ok_of (deserialize_envelope b)"
  unfolding sealing_def deserialize_envelope_def serialize_envelope_def
  by (rule split_envelope_codec)

interpretation secret_envelope: sealing serialize_payload "\<lambda>b. ok_of (deserialize_payload b)"
  unfolding sealing_def deserialize_payload_def serialize_payload_def
  by (rule split_envelope_codec)

text \<open>The team service writes envelopes the vault service reads.\<close>

interpretation share_envelope: sealing serialize_vault_key_envelope "\<lambda>b. ok_of (deserialize_envelope b)"
  unfolding sealing_def deserialize_envelope_def serialize_vault_key_envelope_def
  by (rule split_envelope_codec)

end
