(* ===== verification/Auth_Service.thy ===== *)
theory Auth_Service
  imports Crypto
begin

text \<open>
  \<open>services/auth_service.rs\<close>: the in-memory credential map, the comparison of hashes, and the
  password envelope that carries a salt and a hash to the database; with the two other readers of
  that envelope, in \<open>team_service.rs\<close> and \<open>totp_service.rs\<close>.  The lock on the map is not modelled
  as such: each call runs alone, and a poisoned lock (the only way \<open>lock()\<close> fails) does not occur.
\<close>

unbundle bit_operations_syntax

section \<open>UTF-8\<close>

text \<open>\<open>std::str::from_utf8\<close>: the well-formed byte sequences of the Unicode standard.\<close>

definition in_range :: "nat \<Rightarrow> nat \<Rightarrow> byte \<Rightarrow> bool" where
  "in_range lo hi b \<longleftrightarrow> lo \<le> unat b \<and> unat b \<le> hi"

abbreviation continuation :: "byte \<Rightarrow> bool" where
  "continuation \<equiv> in_range 128 191"

text \<open>The range of the second byte, and the number of continuation bytes after it.\<close>

definition lead_byte :: "byte \<Rightarrow> (nat \<times> nat \<times> nat) option" where
  "lead_byte b =
     (if in_range 194 223 b then Some (128, 191, 0)
      else if in_range 224 224 b then Some (160, 191, 1)
      else if in_range 225 236 b \<or> in_range 238 239 b then Some (128, 191, 1)
      else if in_range 237 237 b then Some (128, 159, 1)
      else if in_range 240 240 b then Some (144, 191, 2)
      else if in_range 241 243 b then Some (128, 191, 2)
      else if in_range 244 244 b then Some (128, 143, 2)
      else None)"

function valid_utf8 :: "bytes \<Rightarrow> bool" where
  "valid_utf8 bs =
     (case bs of
        [] \<Rightarrow> True
      | b # r \<Rightarrow>
         if in_range 0 127 b then valid_utf8 r
         else (case lead_byte b of
             None \<Rightarrow> False
           | Some (lo, hi, n) \<Rightarrow>
              (case r of
                 [] \<Rightarrow> False
               | c # r' \<Rightarrow> in_range lo hi c \<and> n \<le> length r' \<and> list_all continuation (take n r') \<and>
                           valid_utf8 (drop n r'))))"
  by pat_completeness auto
termination valid_utf8
  by (relation "measure length") auto

declare valid_utf8.simps [simp del]

lemma valid_utf8_ascii: "\<forall>b\<in>set bs. in_range 0 127 b \<Longrightarrow> valid_utf8 bs"
  by (induction bs) (simp_all add: valid_utf8.simps)

section \<open>The credential map\<close>

record credential =
  password_salt :: bytes
  password_hash :: bytes

record auth_state =
  shutdown_in_progress :: bool
  credentials :: "string \<Rightarrow> credential option"

definition new_auth_state :: auth_state where
  "new_auth_state = \<lparr> shutdown_in_progress = False, credentials = Map.empty \<rparr>"

type_synonym 'a authm = "auth_state \<Rightarrow> (app_error + 'a) \<times> auth_state"

definition ensure_not_shutting_down :: "unit authm" where
  "ensure_not_shutting_down =
     bindE (gets shutdown_in_progress) (\<lambda>b. require (\<not> b) ShutdownInProgress)"

definition password_to_secret_string :: "bytes \<Rightarrow> app_error + string" where
  "password_to_secret_string password =
     (if valid_utf8 password then Inr (bytes_str password)
      else Inl (Validation ''password must be valid utf-8''))"

text \<open>The loop over the index, with the accumulated difference.\<close>

fun diff_bytes :: "byte \<Rightarrow> bytes \<Rightarrow> bytes \<Rightarrow> byte" where
  "diff_bytes d (l # ls) (r # rs) = diff_bytes (d OR (l XOR r)) ls rs"
| "diff_bytes d _ _ = d"

definition constant_time_eq :: "bytes \<Rightarrow> bytes \<Rightarrow> bool" where
  "constant_time_eq left right =
     (if length left \<noteq> length right then False else diff_bytes 0 left right = 0)"

definition put_credential :: "string \<Rightarrow> credential \<Rightarrow> unit authm" where
  "put_credential name r = modify (\<lambda>s. s\<lparr>credentials := (credentials s)(name \<mapsto> r)\<rparr>)"

definition get_credential :: "string \<Rightarrow> credential authm" where
  "get_credential name =
     bindE (gets (\<lambda>s. credentials s name)) (ok_or (Authorization InvalidCredentials))"

definition auth_create_user :: "primitives \<Rightarrow> kdf_config \<Rightarrow> bytes option \<Rightarrow> string \<Rightarrow> bytes \<Rightarrow> unit authm" where
  "auth_create_user P cfg salt_rnd name password =
     bindE ensure_not_shutting_down (\<lambda>_.
     bindE (require (trim name \<noteq> []) (Validation ''username must not be empty'')) (\<lambda>_.
     bindE (gets (\<lambda>s. credentials s name)) (\<lambda>old.
     bindE (require (old = None) (Conflict ''username already exists'')) (\<lambda>_.
     bindE (lift_result (password_to_secret_string password)) (\<lambda>secret.
     bindE (lift_result (generate_kdf_salt salt_rnd)) (\<lambda>salt.
     bindE (lift_result (derive_key P cfg secret salt)) (\<lambda>hash.
     put_credential name \<lparr> password_salt = salt, password_hash = hash \<rparr>)))))))"

definition verify_password :: "primitives \<Rightarrow> kdf_config \<Rightarrow> string \<Rightarrow> bytes \<Rightarrow> bool authm" where
  "verify_password P cfg name password =
     bindE ensure_not_shutting_down (\<lambda>_.
     bindE (lift_result (password_to_secret_string password)) (\<lambda>secret.
     bindE (get_credential name) (\<lambda>r.
     bindE (lift_result (derive_key P cfg secret (password_salt r))) (\<lambda>derived.
     ret (constant_time_eq derived (password_hash r))))))"

definition change_password ::
  "primitives \<Rightarrow> kdf_config \<Rightarrow> bytes option \<Rightarrow> string \<Rightarrow> bytes \<Rightarrow> bytes \<Rightarrow> unit authm" where
  "change_password P cfg salt_rnd name current_pw new_pw =
     bindE ensure_not_shutting_down (\<lambda>_.
     bindE (require (\<not> constant_time_eq current_pw new_pw)
              (Validation ''new password must be different from current password'')) (\<lambda>_.
     bindE (lift_result (password_to_secret_string current_pw)) (\<lambda>current_secret.
     bindE (lift_result (password_to_secret_string new_pw)) (\<lambda>new_secret.
     bindE (get_credential name) (\<lambda>r.
     bindE (lift_result (derive_key P cfg current_secret (password_salt r))) (\<lambda>derived_current.
     bindE (require (constant_time_eq derived_current (password_hash r))
              (Authorization InvalidCredentials)) (\<lambda>_.
     bindE (lift_result (generate_kdf_salt salt_rnd)) (\<lambda>new_salt.
     bindE (lift_result (derive_key P cfg new_secret new_salt)) (\<lambda>new_hash.
     bindE (get_credential name) (\<lambda>_.
     put_credential name \<lparr> password_salt = new_salt, password_hash = new_hash \<rparr>))))))))))"

definition derive_key_if_valid :: "primitives \<Rightarrow> kdf_config \<Rightarrow> string \<Rightarrow> bytes \<Rightarrow> bytes option authm" where
  "derive_key_if_valid P cfg name password =
     bindE ensure_not_shutting_down (\<lambda>_.
     bindE (lift_result (password_to_secret_string password)) (\<lambda>secret.
     bindE (gets (\<lambda>s. credentials s name)) (\<lambda>ro.
     case ro of
       None \<Rightarrow> ret None
     | Some r \<Rightarrow>
         bindE (lift_result (derive_key P cfg secret (password_salt r))) (\<lambda>derived.
         ret (if constant_time_eq derived (password_hash r) then Some derived else None)))))"

definition signal_shutdown :: "auth_state \<Rightarrow> auth_state" where
  "signal_shutdown s = s\<lparr>shutdown_in_progress := True\<rparr>"

section \<open>The password envelope\<close>

definition PASSWORD_ENVELOPE_VERSION :: byte where "PASSWORD_ENVELOPE_VERSION = 1"

text \<open>\<open>(n as u16).to_be_bytes()\<close>: \<open>word_of_nat\<close> into a byte is reduction modulo 256, so the two bytes
  are those of \<open>n\<close> modulo 65536.\<close>

definition u16_be_bytes :: "nat \<Rightarrow> bytes" where
  "u16_be_bytes n = [word_of_nat (n div 256), word_of_nat n]"

definition u16_from_be :: "byte \<Rightarrow> byte \<Rightarrow> nat" where
  "u16_from_be hi lo = 256 * unat hi + unat lo"

definition encode_password_envelope :: "credential \<Rightarrow> bytes" where
  "encode_password_envelope r =
     PASSWORD_ENVELOPE_VERSION # u16_be_bytes (length (password_salt r))
     @ u16_be_bytes (length (password_hash r)) @ password_salt r @ password_hash r"

definition decode_password_envelope :: "bytes \<Rightarrow> app_error + credential" where
  "decode_password_envelope b =
     (case b of
        v # s1 # s2 # h1 # h2 # body \<Rightarrow>
          if v \<noteq> PASSWORD_ENVELOPE_VERSION
            then Inl (Validation ''invalid password envelope: unsupported version'')
          else
            let salt_len = u16_from_be s1 s2; hash_len = u16_from_be h1 h2 in
            if salt_len = 0 \<or> hash_len = 0 \<or> length b \<noteq> 5 + salt_len + hash_len
              then Inl (Validation ''invalid password envelope: malformed payload'')
            else Inr \<lparr> password_salt = take salt_len body, password_hash = drop salt_len body \<rparr>
      | _ \<Rightarrow> Inl (Validation ''invalid password envelope: too short''))"

text \<open>The reader of \<open>team_service.rs\<close> (and, line for line, of \<open>totp_service.rs\<close>): it keeps the hash
  only, and does not ask for a salt.\<close>

definition derive_master_key_from_password_envelope :: "bytes \<Rightarrow> app_error + bytes" where
  "derive_master_key_from_password_envelope b =
     (case b of
        v # s1 # s2 # h1 # h2 # body \<Rightarrow>
          if v \<noteq> PASSWORD_ENVELOPE_VERSION
            then Inl (Validation ''invalid password envelope: unsupported version'')
          else
            let salt_len = u16_from_be s1 s2; hash_len = u16_from_be h1 h2;
                hash_start = 5 + salt_len; expected_len = hash_start + hash_len in
            if hash_len = 0 \<or> length b \<noteq> expected_len
              then Inl (Validation ''invalid password envelope: malformed payload'')
            else Inr (take (expected_len - hash_start) (drop hash_start b))
      | _ \<Rightarrow> Inl (Validation ''invalid password envelope: too short''))"

definition derive_key_from_password_envelope :: "bytes \<Rightarrow> app_error + bytes" where
  "derive_key_from_password_envelope b =
     (case b of
        v # s1 # s2 # h1 # h2 # body \<Rightarrow>
          if v \<noteq> PASSWORD_ENVELOPE_VERSION
            then Inl (Validation ''invalid password envelope: unsupported version'')
          else
            let salt_len = u16_from_be s1 s2; hash_len = u16_from_be h1 h2;
                hash_start = 5 + salt_len; expected_len = hash_start + hash_len in
            if hash_len = 0 \<or> length b \<noteq> expected_len
              then Inl (Validation ''invalid password envelope: malformed payload'')
            else Inr (take (expected_len - hash_start) (drop hash_start b))
      | _ \<Rightarrow> Inl (Validation ''invalid password envelope: too short''))"

definition upsert_password_envelope :: "string \<Rightarrow> bytes \<Rightarrow> unit authm" where
  "upsert_password_envelope name env =
     bindE ensure_not_shutting_down (\<lambda>_.
     bindE (require (trim name \<noteq> []) (Validation ''username must not be empty'')) (\<lambda>_.
     bindE (lift_result (decode_password_envelope env)) (\<lambda>r.
     put_credential name r)))"

definition get_password_envelope :: "string \<Rightarrow> bytes authm" where
  "get_password_envelope name =
     bindE ensure_not_shutting_down (\<lambda>_.
     bindE (get_credential name) (\<lambda>r.
     ret (encode_password_envelope r)))"

section \<open>The comparison\<close>

lemma byte_xor_zero: "(a :: byte) XOR b = 0 \<longleftrightarrow> a = b"
  by (metis xor.assoc xor.left_neutral xor.right_neutral xor_self_eq)

lemma diff_bytes_zero: "length l = length r \<Longrightarrow> diff_bytes d l r = 0 \<longleftrightarrow> d = 0 \<and> l = r"
  by (induction d l r rule: diff_bytes.induct) (auto simp: or_eq_0_iff byte_xor_zero)

text \<open>The constant-time comparison, which folds the XOR of every byte pair into one accumulator,
  decides equality of byte strings.\<close>

theorem constant_time_eq_is_equality: "constant_time_eq left right \<longleftrightarrow> left = right"
  by (auto simp: constant_time_eq_def diff_bytes_zero)

lemma constant_time_eq_iff: "constant_time_eq left right = (left = right)"
  by (auto simp: constant_time_eq_def diff_bytes_zero)

section \<open>The envelope is a codec\<close>

definition credential_ok :: "credential \<Rightarrow> bool" where
  "credential_ok r \<longleftrightarrow>
     0 < length (password_salt r) \<and> length (password_salt r) < 65536 \<and>
     0 < length (password_hash r) \<and> length (password_hash r) < 65536"

lemma u16_bytes_back: "n < 65536 \<Longrightarrow> u16_from_be (word_of_nat (n div 256)) (word_of_nat n) = n"
  by (simp add: u16_from_be_def unat_of_nat)

lemma byte_less: "unat (b :: byte) < 256"
  using unsigned_less [of b] by simp

lemma u16_from_be_bytes: "u16_be_bytes (u16_from_be hi lo) = [hi, lo]"
proof -
  have "(256 * unat hi + unat lo) div 256 = unat hi" using byte_less [of lo] by simp
  moreover have "unat (word_of_nat (256 * unat hi + unat lo) :: byte) = unat lo"
    using byte_less [of lo] by (simp add: unat_of_nat del: of_nat_add)
  then have "word_of_nat (256 * unat hi + unat lo) = lo" by (rule unsigned_word_eqI)
  ultimately show ?thesis by (simp add: u16_be_bytes_def u16_from_be_def)
qed

lemma u16_less: "u16_from_be x y < 65536"
  using byte_less [of x] byte_less [of y] by (simp add: u16_from_be_def)

lemma decode_encode: "credential_ok r \<Longrightarrow> decode_password_envelope (encode_password_envelope r) = Inr r"
  by (cases r) (auto simp: decode_password_envelope_def encode_password_envelope_def u16_be_bytes_def
      credential_ok_def u16_bytes_back)

lemma decode_shape:
  assumes "decode_password_envelope b = Inr r"
  shows "credential_ok r \<and> encode_password_envelope r = b"
proof -
  from assms obtain v s1 s2 h1 h2 body where b: "b = v # s1 # s2 # h1 # h2 # body"
    by (auto simp: decode_password_envelope_def split: list.splits)
  let ?m = "u16_from_be s1 s2" and ?n = "u16_from_be h1 h2"
  from assms b have ok: "v = PASSWORD_ENVELOPE_VERSION" "?m \<noteq> 0" "?n \<noteq> 0" "length body = ?m + ?n"
    and r: "r = \<lparr> password_salt = take ?m body, password_hash = drop ?m body \<rparr>"
    by (auto simp: decode_password_envelope_def Let_def split: if_splits)
  show ?thesis
    using ok r b u16_less by (auto simp: credential_ok_def encode_password_envelope_def u16_from_be_bytes)
qed

interpretation password_envelope: codec credential_ok encode_password_envelope
  "\<lambda>b. ok_of (decode_password_envelope b)"
  by unfold_locales (auto simp: decode_encode ok_of_Some dest: decode_shape)

lemma drop_header: "drop (5 + n) (a # b # c # d # e # body) = drop n body"
  by (simp add: numeral_eq_Suc)

lemma decode_is_master_key:
  "decode_password_envelope b = Inr r \<Longrightarrow> derive_master_key_from_password_envelope b = Inr (password_hash r)"
  by (auto simp: decode_password_envelope_def derive_master_key_from_password_envelope_def Let_def drop_header
      split: list.splits if_splits)

lemma derive_readers_agree: "derive_key_from_password_envelope b = derive_master_key_from_password_envelope b"
  by (simp add: derive_key_from_password_envelope_def derive_master_key_from_password_envelope_def)

text \<open>The password envelope decodes to exactly the credentials it was encoded from, for salts and
  hashes of 1 to 65535 bytes, and nothing else decodes; every envelope that decodes gives its hash
  to the readers of the team and TOTP services, which is the user's master key.\<close>

theorem password_envelope_round_trip:
  "(decode_password_envelope b = Inr r \<longleftrightarrow> credential_ok r \<and> encode_password_envelope r = b) \<and>
   (credential_ok r \<longrightarrow>
      derive_master_key_from_password_envelope (encode_password_envelope r) = Inr (password_hash r) \<and>
      derive_key_from_password_envelope (encode_password_envelope r) = Inr (password_hash r))"
  using decode_encode decode_shape decode_is_master_key derive_readers_agree by metis

section \<open>Registering, verifying and changing a password\<close>

lemma ensure_returns: "ensure_not_shutting_down s = (Inr x, s') \<longleftrightarrow> \<not> shutdown_in_progress s \<and> s' = s"
  by (auto simp: ensure_not_shutting_down_def returns_iff)

lemma ensure_run: "\<not> shutdown_in_progress s \<Longrightarrow> ensure_not_shutting_down s = (Inr (), s)"
  by (simp add: ensure_not_shutting_down_def bindE_run run_simps)

lemma get_credential_returns: "get_credential name s = (Inr r, s') \<longleftrightarrow> credentials s name = Some r \<and> s' = s"
  by (auto simp: get_credential_def returns_iff)

lemma get_credential_run [run_simps]:
  "get_credential name s =
     (case credentials s name of None \<Rightarrow> Inl (Authorization InvalidCredentials) | Some r \<Rightarrow> Inr r, s)"
  by (simp add: get_credential_def bindE_run run_simps)

lemma put_credential_run [run_simps]:
  "put_credential name r s = (Inr (), s\<lparr>credentials := (credentials s)(name \<mapsto> r)\<rparr>)"
  by (simp add: put_credential_def run_simps)

lemma secret_string_Inr: "password_to_secret_string pw = Inr t \<longleftrightarrow> valid_utf8 pw \<and> t = bytes_str pw"
  by (auto simp: password_to_secret_string_def)

lemma generate_salt_Inr: "generate_kdf_salt rnd = Inr x \<longleftrightarrow> rnd = Some x"
  by (simp add: generate_kdf_salt_def split: option.split)

text \<open>The key of a password under a salt, when the password is text and the derivation succeeds.\<close>

definition key_of :: "primitives \<Rightarrow> kdf_config \<Rightarrow> bytes \<Rightarrow> bytes \<Rightarrow> bytes option" where
  "key_of P cfg pw salt = (if valid_utf8 pw then ok_of (derive_key P cfg (bytes_str pw) salt) else None)"

lemma key_of_Some:
  "key_of P cfg pw salt = Some k \<longleftrightarrow> valid_utf8 pw \<and> derive_key P cfg (bytes_str pw) salt = Inr k"
  by (simp add: key_of_def ok_of_Some)

lemma auth_create_returns:
  "auth_create_user P cfg rnd name pw s = (Inr x, s') \<longleftrightarrow>
     \<not> shutdown_in_progress s \<and> trim name \<noteq> [] \<and> credentials s name = None \<and>
     (\<exists>salt hash. rnd = Some salt \<and> key_of P cfg pw salt = Some hash \<and>
        s' = s\<lparr>credentials := (credentials s)(name \<mapsto> \<lparr> password_salt = salt, password_hash = hash \<rparr>)\<rparr>)"
  by (auto simp: auth_create_user_def returns_iff ensure_returns secret_string_Inr generate_salt_Inr
      key_of_Some put_credential_run)

lemma verify_returns:
  "verify_password P cfg name pw s = (Inr b, s') \<longleftrightarrow>
     s' = s \<and> \<not> shutdown_in_progress s \<and>
     (\<exists>r k. credentials s name = Some r \<and> key_of P cfg pw (password_salt r) = Some k \<and> b = (k = password_hash r))"
  by (auto simp: verify_password_def returns_iff ensure_returns secret_string_Inr get_credential_returns
      key_of_Some constant_time_eq_iff)

lemma derive_if_valid_returns:
  "derive_key_if_valid P cfg name pw s = (Inr ko, s') \<longleftrightarrow>
     s' = s \<and> \<not> shutdown_in_progress s \<and> valid_utf8 pw \<and>
     (case credentials s name of
        None \<Rightarrow> ko = None
      | Some r \<Rightarrow> \<exists>k. key_of P cfg pw (password_salt r) = Some k \<and>
                    ko = (if k = password_hash r then Some k else None))"
  by (auto simp: derive_key_if_valid_def returns_iff ensure_returns secret_string_Inr
      key_of_Some constant_time_eq_iff split: option.splits)

lemma change_password_returns:
  "change_password P cfg rnd name cur new s = (Inr x, s') \<longleftrightarrow>
     \<not> shutdown_in_progress s \<and> cur \<noteq> new \<and>
     (\<exists>r salt hash. credentials s name = Some r \<and> valid_utf8 new \<and>
        key_of P cfg cur (password_salt r) = Some (password_hash r) \<and>
        rnd = Some salt \<and> key_of P cfg new salt = Some hash \<and>
        s' = s\<lparr>credentials := (credentials s)(name \<mapsto> \<lparr> password_salt = salt, password_hash = hash \<rparr>)\<rparr>)"
  by (auto simp: change_password_def returns_iff ensure_returns secret_string_Inr get_credential_returns
      generate_salt_Inr key_of_Some constant_time_eq_iff put_credential_run)

text \<open>A call that fails leaves the credentials as they were.\<close>

lemma auth_failure_keeps:
  "auth_create_user P cfg rnd name pw s = (Inl e, s') \<Longrightarrow> s' = s"
  "change_password P cfg rnd name cur new s = (Inl e, s') \<Longrightarrow> s' = s"
  "verify_password P cfg name pw s = (r, s') \<Longrightarrow> s' = s"
  "derive_key_if_valid P cfg name pw s = (ko, s') \<Longrightarrow> s' = s"
  by (auto simp: auth_create_user_def change_password_def verify_password_def derive_key_if_valid_def
      ensure_not_shutting_down_def bindE_run run_simps split: sum.splits option.splits if_splits)

text \<open>A password that was registered verifies, and yields the stored hash as the master key; any
  other password verifies only if Argon2id maps it to the same hash under the drawn salt.  No other
  user's credentials change.\<close>

theorem registered_password_verifies:
  assumes "auth_create_user P cfg rnd name pw s = (Inr (), s')"
  shows "verify_password P cfg name pw s' = (Inr True, s') \<and>
         (\<exists>r. credentials s' name = Some r \<and>
            derive_key_if_valid P cfg name pw s' = (Inr (Some (password_hash r)), s') \<and>
            (\<forall>pw'. verify_password P cfg name pw' s' = (Inr True, s') \<longleftrightarrow>
                   key_of P cfg pw' (password_salt r) = key_of P cfg pw (password_salt r))) \<and>
         (\<forall>other. other \<noteq> name \<longrightarrow> credentials s' other = credentials s other)"
proof -
  from assms obtain salt hash where a: "\<not> shutdown_in_progress s" "key_of P cfg pw salt = Some hash"
    and s': "s' = s\<lparr>credentials := (credentials s)(name \<mapsto> \<lparr> password_salt = salt, password_hash = hash \<rparr>)\<rparr>"
    unfolding auth_create_returns by blast
  then have "valid_utf8 pw" by (simp add: key_of_Some)
  with a show ?thesis unfolding verify_returns derive_if_valid_returns s' by auto
qed

text \<open>C23. A password change that succeeds proves the current password, makes the new one verify, and
  keeps the old one from verifying unless both hash alike under the new salt; a change that fails
  leaves every credential as it was.\<close>

theorem password_change_replaces_the_password:
  "(change_password P cfg rnd name cur new s = (Inr (), s') \<longrightarrow>
      verify_password P cfg name cur s = (Inr True, s) \<and>
      verify_password P cfg name new s' = (Inr True, s') \<and>
      (\<exists>r. credentials s' name = Some r \<and>
         (verify_password P cfg name cur s' = (Inr True, s') \<longleftrightarrow>
            key_of P cfg cur (password_salt r) = key_of P cfg new (password_salt r))) \<and>
      (\<forall>other. other \<noteq> name \<longrightarrow> credentials s' other = credentials s other)) \<and>
   (\<forall>e. change_password P cfg rnd name cur new s = (Inl e, s') \<longrightarrow> s' = s)"
proof (rule conjI, rule impI)
  assume "change_password P cfg rnd name cur new s = (Inr (), s')"
  then obtain r salt hash where a: "\<not> shutdown_in_progress s" "credentials s name = Some r"
      "key_of P cfg cur (password_salt r) = Some (password_hash r)" "key_of P cfg new salt = Some hash"
    and s': "s' = s\<lparr>credentials := (credentials s)(name \<mapsto> \<lparr> password_salt = salt, password_hash = hash \<rparr>)\<rparr>"
    unfolding change_password_returns by blast
  then show "verify_password P cfg name cur s = (Inr True, s) \<and>
      verify_password P cfg name new s' = (Inr True, s') \<and>
      (\<exists>r. credentials s' name = Some r \<and>
         (verify_password P cfg name cur s' = (Inr True, s') \<longleftrightarrow>
            key_of P cfg cur (password_salt r) = key_of P cfg new (password_salt r))) \<and>
      (\<forall>other. other \<noteq> name \<longrightarrow> credentials s' other = credentials s other)"
    unfolding verify_returns by auto
next
  show "\<forall>e. change_password P cfg rnd name cur new s = (Inl e, s') \<longrightarrow> s' = s"
    using auth_failure_keeps(2) by blast
qed

text \<open>Credentials survive a restart: the envelope a service exports puts the same salt and hash
  into any other service that accepts it, for salts and hashes of 1 to 65535 bytes.\<close>

lemma credentials_survive_restart:
  assumes "credentials s name = Some r" and "credential_ok r"
    and "get_password_envelope name s = (Inr env, s')" and "upsert_password_envelope name env t = (Inr (), t')"
  shows "s' = s \<and> credentials t' name = credentials s name \<and>
         (\<forall>other. other \<noteq> name \<longrightarrow> credentials t' other = credentials t other)"
  using assms decode_encode [OF assms(2)]
  by (auto simp: get_password_envelope_def upsert_password_envelope_def returns_iff ensure_returns
      get_credential_returns put_credential_run)

text \<open>After the shutdown signal no operation of the service runs: each one fails with
  \<open>ShutdownInProgress\<close> and leaves the state as it is.\<close>

theorem nothing_runs_after_shutdown:
  "auth_create_user P cfg rnd name pw (signal_shutdown s) = (Inl ShutdownInProgress, signal_shutdown s) \<and>
   verify_password P cfg name pw (signal_shutdown s) = (Inl ShutdownInProgress, signal_shutdown s) \<and>
   change_password P cfg rnd name cur new (signal_shutdown s) = (Inl ShutdownInProgress, signal_shutdown s) \<and>
   derive_key_if_valid P cfg name pw (signal_shutdown s) = (Inl ShutdownInProgress, signal_shutdown s) \<and>
   upsert_password_envelope name env (signal_shutdown s) = (Inl ShutdownInProgress, signal_shutdown s) \<and>
   get_password_envelope name (signal_shutdown s) = (Inl ShutdownInProgress, signal_shutdown s)"
  by (simp add: auth_create_user_def verify_password_def change_password_def derive_key_if_valid_def
      upsert_password_envelope_def get_password_envelope_def ensure_not_shutting_down_def
      signal_shutdown_def bindE_run run_simps)

end
