(* ===== verification/Schema.thy ===== *)
theory Schema
  imports Models
begin

text \<open>
  The SQLite schema of \<open>migrations/\<close>: one record per table row, the database as the list of rows of
  every table, the constraints as the invariant \<open>db_ok\<close>, and the statements whose effect depends
  on the constraints (inserts that check keys and references, deletions that cascade).  Enumerated
  columns hold the text the schema's CHECK constraints admit; it is the repositories that parse it.
  \<open>clock\<close> is the current time, what \<open>CURRENT_TIMESTAMP\<close> and \<open>Utc::now\<close> read.  The id columns of
  \<open>audit_log\<close> and \<open>login_history\<close> are AUTOINCREMENT: the next id is above every id ever given.
  Foreign keys are enforced (sqlx switches them on for every connection).
\<close>

record user_row =
  u_id :: uuid
  u_name :: string
  u_role :: string
  u_password :: "bytes option"
  u_totp_envelope :: "bytes option"
  u_email :: "string option"
  u_display :: "string option"
  u_updated :: "timestamp option"
  u_show :: int
  u_totp :: "bytes option"
  u_lang :: string

record vault_row =
  v_id :: uuid
  v_owner :: uuid
  v_name :: string
  v_key :: "bytes option"
  v_version :: int
  v_deleted :: "timestamp option"

record secret_row =
  si_id :: uuid
  si_vault :: uuid
  si_type :: string
  si_title :: "string option"
  si_meta :: "string option"
  si_blob :: "bytes option"
  si_file :: "bytes option"
  si_storage :: string
  si_tags :: "string option"
  si_expires :: "string option"
  si_created :: timestamp
  si_modified :: timestamp
  si_usage :: int
  si_deleted :: "timestamp option"

record team_row =
  t_id :: uuid
  t_name :: string
  t_by :: "uuid option"
  t_created :: timestamp

record member_row =
  m_team :: uuid
  m_user :: uuid
  m_role :: string
  m_joined :: timestamp

record share_row =
  k_vault :: uuid
  k_user :: uuid
  k_envelope :: bytes
  k_by :: "uuid option"
  k_team :: "uuid option"
  k_at :: timestamp
  k_role :: string

record audit_row =
  a_id :: nat
  a_actor :: "uuid option"
  a_action :: string
  a_ttype :: "string option"
  a_tid :: "target_ref option"
  a_detail :: "rich_text option"
  a_at :: timestamp

record login_row =
  l_id :: nat
  l_user :: uuid
  l_at :: timestamp
  l_ip :: "string option"
  l_device :: "string option"

record policy_row =
  p_user :: string
  p_failed :: int
  p_last :: "int option"
  p_delay :: int

record db =
  users :: "user_row list"
  vaults :: "vault_row list"
  secrets :: "secret_row list"
  teams :: "team_row list"
  members :: "member_row list"
  shares :: "share_row list"
  audits :: "audit_row list"
  audit_seq :: nat
  logins :: "login_row list"
  login_seq :: nat
  policies :: "policy_row list"
  clock :: timestamp

type_synonym 'a dbm = "db \<Rightarrow> (app_error + 'a) \<times> db"

definition empty_db :: "timestamp \<Rightarrow> db" where
  "empty_db t = \<lparr> users = [], vaults = [], secrets = [], teams = [], members = [], shares = [],
     audits = [], audit_seq = 0, logins = [], login_seq = 0, policies = [], clock = t \<rparr>"

section \<open>The constraints\<close>

definition role_check :: "user_row \<Rightarrow> bool" where
  "role_check u \<longleftrightarrow> u_role u \<in> {''user'', ''admin''}"

definition secret_check :: "secret_row \<Rightarrow> bool" where
  "secret_check s \<longleftrightarrow>
     si_type s \<in> {''password'', ''api_token'', ''ssh_key'', ''secure_document''} \<and>
     si_storage s \<in> {''inline'', ''file''} \<and>
     (si_storage s = ''inline'' \<and> si_blob s \<noteq> None \<or> si_storage s = ''file'' \<and> si_file s \<noteq> None)"

definition member_check :: "member_row \<Rightarrow> bool" where
  "member_check m \<longleftrightarrow> m_role m \<in> {''member'', ''leader''}"

definition share_check :: "share_row \<Rightarrow> bool" where
  "share_check k \<longleftrightarrow> k_role k \<in> {''read'', ''write'', ''admin''}"

text \<open>A nullable reference.\<close>

definition ref_in :: "'k option \<Rightarrow> 'k list \<Rightarrow> bool" where
  "ref_in r ks = (case r of None \<Rightarrow> True | Some k \<Rightarrow> k \<in> set ks)"

definition emails :: "user_row list \<Rightarrow> string list" where
  "emails us = List.map_filter u_email us"

definition user_ids :: "db \<Rightarrow> uuid list" where "user_ids s = map u_id (users s)"
definition vault_ids :: "db \<Rightarrow> uuid list" where "vault_ids s = map v_id (vaults s)"
definition team_ids :: "db \<Rightarrow> uuid list" where "team_ids s = map t_id (teams s)"

definition users_ok :: "user_row list \<Rightarrow> bool" where
  "users_ok us \<longleftrightarrow> distinct (map u_id us) \<and> distinct (map u_name us) \<and> distinct (emails us) \<and>
     (\<forall>u\<in>set us. role_check u)"

definition vaults_ok :: "uuid list \<Rightarrow> vault_row list \<Rightarrow> bool" where
  "vaults_ok uids vs \<longleftrightarrow> distinct (map v_id vs) \<and> (\<forall>v\<in>set vs. v_owner v \<in> set uids)"

definition secrets_ok :: "uuid list \<Rightarrow> secret_row list \<Rightarrow> bool" where
  "secrets_ok vids ss \<longleftrightarrow> distinct (map si_id ss) \<and>
     (\<forall>s\<in>set ss. si_vault s \<in> set vids \<and> secret_check s)"

definition teams_ok :: "uuid list \<Rightarrow> team_row list \<Rightarrow> bool" where
  "teams_ok uids ts \<longleftrightarrow> distinct (map t_id ts) \<and> distinct (map t_name ts) \<and>
     (\<forall>t\<in>set ts. ref_in (t_by t) uids)"

definition member_key :: "member_row \<Rightarrow> uuid \<times> uuid" where
  "member_key m = (m_team m, m_user m)"

definition members_ok :: "uuid list \<Rightarrow> uuid list \<Rightarrow> member_row list \<Rightarrow> bool" where
  "members_ok uids tids ms \<longleftrightarrow> distinct (map member_key ms) \<and>
     (\<forall>m\<in>set ms. m_team m \<in> set tids \<and> m_user m \<in> set uids \<and> member_check m)"

definition share_key :: "share_row \<Rightarrow> uuid \<times> uuid" where
  "share_key k = (k_vault k, k_user k)"

definition shares_ok :: "uuid list \<Rightarrow> uuid list \<Rightarrow> uuid list \<Rightarrow> share_row list \<Rightarrow> bool" where
  "shares_ok uids vids tids ks \<longleftrightarrow> distinct (map share_key ks) \<and>
     (\<forall>k\<in>set ks. k_vault k \<in> set vids \<and> k_user k \<in> set uids \<and> ref_in (k_team k) tids \<and> share_check k)"

definition audits_ok :: "uuid list \<Rightarrow> nat \<Rightarrow> audit_row list \<Rightarrow> bool" where
  "audits_ok uids n as \<longleftrightarrow> sorted_wrt (<) (map a_id as) \<and>
     (\<forall>a\<in>set as. a_id a \<le> n \<and> ref_in (a_actor a) uids)"

definition logins_ok :: "uuid list \<Rightarrow> nat \<Rightarrow> login_row list \<Rightarrow> bool" where
  "logins_ok uids n ls \<longleftrightarrow> sorted_wrt (<) (map l_id ls) \<and>
     (\<forall>l\<in>set ls. l_id l \<le> n \<and> l_user l \<in> set uids)"

definition policies_ok :: "policy_row list \<Rightarrow> bool" where
  "policies_ok ps \<longleftrightarrow> distinct (map p_user ps)"

definition db_ok :: "db \<Rightarrow> bool" where
  "db_ok s \<longleftrightarrow>
     users_ok (users s) \<and> vaults_ok (user_ids s) (vaults s) \<and> secrets_ok (vault_ids s) (secrets s) \<and>
     teams_ok (user_ids s) (teams s) \<and> members_ok (user_ids s) (team_ids s) (members s) \<and>
     shares_ok (user_ids s) (vault_ids s) (team_ids s) (shares s) \<and>
     audits_ok (user_ids s) (audit_seq s) (audits s) \<and>
     logins_ok (user_ids s) (login_seq s) (logins s) \<and> policies_ok (policies s)"

lemma empty_db_ok: "db_ok (empty_db t)"
  by (simp add: db_ok_def empty_db_def users_ok_def vaults_ok_def secrets_ok_def teams_ok_def
      members_ok_def shares_ok_def audits_ok_def logins_ok_def policies_ok_def emails_def map_filter_simps)

section \<open>Statements\<close>

text \<open>A statement either fails with what it violates, leaving the tables alone, or changes them.  It fails
  for no other reason: a full disk, a locked file and the like are not modelled, so that a later statement
  of a call fails only where it violates a constraint.\<close>

definition exec_sql :: "(db \<Rightarrow> sql_error + db) \<Rightarrow> unit dbm" where
  "exec_sql f = (\<lambda>s. case f s of Inl e \<Rightarrow> (Inl (Database e), s) | Inr s' \<Rightarrow> (Inr (), s'))"

definition insert_user_row :: "user_row \<Rightarrow> db \<Rightarrow> sql_error + db" where
  "insert_user_row r s =
     (if \<not> role_check r then Inl CheckViolation
      else if u_id r \<in> set (user_ids s) \<or> u_name r \<in> set (map u_name (users s))
           \<or> (case u_email r of None \<Rightarrow> False | Some e \<Rightarrow> e \<in> set (emails (users s)))
        then Inl UniqueViolation
      else Inr (s\<lparr>users := users s @ [r]\<rparr>))"

definition insert_vault_row :: "vault_row \<Rightarrow> db \<Rightarrow> sql_error + db" where
  "insert_vault_row r s =
     (if v_id r \<in> set (vault_ids s) then Inl UniqueViolation
      else if v_owner r \<notin> set (user_ids s) then Inl ForeignKeyViolation
      else Inr (s\<lparr>vaults := vaults s @ [r]\<rparr>))"

definition insert_secret_row :: "secret_row \<Rightarrow> db \<Rightarrow> sql_error + db" where
  "insert_secret_row r s =
     (if \<not> secret_check r then Inl CheckViolation
      else if si_id r \<in> set (map si_id (secrets s)) then Inl UniqueViolation
      else if si_vault r \<notin> set (vault_ids s) then Inl ForeignKeyViolation
      else Inr (s\<lparr>secrets := secrets s @ [r]\<rparr>))"

definition insert_team_row :: "team_row \<Rightarrow> db \<Rightarrow> sql_error + db" where
  "insert_team_row r s =
     (if t_id r \<in> set (team_ids s) \<or> t_name r \<in> set (map t_name (teams s)) then Inl UniqueViolation
      else if \<not> ref_in (t_by r) (user_ids s) then Inl ForeignKeyViolation
      else Inr (s\<lparr>teams := teams s @ [r]\<rparr>))"

text \<open>\<open>ON CONFLICT(team_id, user_id) DO UPDATE SET role = excluded.role\<close>\<close>

definition upsert_member_row :: "member_row \<Rightarrow> db \<Rightarrow> sql_error + db" where
  "upsert_member_row r s =
     (if \<not> member_check r then Inl CheckViolation
      else if member_key r \<in> set (map member_key (members s)) then
        Inr (s\<lparr>members := update_rows (\<lambda>m. member_key m = member_key r) (\<lambda>m. m\<lparr>m_role := m_role r\<rparr>) (members s)\<rparr>)
      else if m_team r \<notin> set (team_ids s) \<or> m_user r \<notin> set (user_ids s) then Inl ForeignKeyViolation
      else Inr (s\<lparr>members := members s @ [r]\<rparr>))"

definition share_refs_ok :: "share_row \<Rightarrow> db \<Rightarrow> bool" where
  "share_refs_ok r s \<longleftrightarrow> k_vault r \<in> set (vault_ids s) \<and> k_user r \<in> set (user_ids s) \<and>
     ref_in (k_team r) (team_ids s)"

definition insert_share_row :: "share_row \<Rightarrow> db \<Rightarrow> sql_error + db" where
  "insert_share_row r s =
     (if \<not> share_check r then Inl CheckViolation
      else if share_key r \<in> set (map share_key (shares s)) then Inl UniqueViolation
      else if \<not> share_refs_ok r s then Inl ForeignKeyViolation
      else Inr (s\<lparr>shares := shares s @ [r]\<rparr>))"

text \<open>\<open>ON CONFLICT(vault_id, user_id) DO UPDATE\<close> of every other column.\<close>

definition upsert_share_row :: "share_row \<Rightarrow> db \<Rightarrow> sql_error + db" where
  "upsert_share_row r s =
     (if \<not> share_check r then Inl CheckViolation
      else if \<not> share_refs_ok r s then Inl ForeignKeyViolation
      else if share_key r \<in> set (map share_key (shares s)) then
        Inr (s\<lparr>shares := update_rows (\<lambda>k. share_key k = share_key r) (\<lambda>_. r) (shares s)\<rparr>)
      else Inr (s\<lparr>shares := shares s @ [r]\<rparr>))"

definition insert_audit_row :: "(nat \<Rightarrow> audit_row) \<Rightarrow> db \<Rightarrow> sql_error + db" where
  "insert_audit_row mk s =
     (let r = mk (Suc (audit_seq s)) in
      if \<not> ref_in (a_actor r) (user_ids s) then Inl ForeignKeyViolation
      else Inr (s\<lparr>audits := audits s @ [r], audit_seq := Suc (audit_seq s)\<rparr>))"

definition insert_login_row :: "(nat \<Rightarrow> login_row) \<Rightarrow> db \<Rightarrow> sql_error + db" where
  "insert_login_row mk s =
     (let r = mk (Suc (login_seq s)) in
      if l_user r \<notin> set (user_ids s) then Inl ForeignKeyViolation
      else Inr (s\<lparr>logins := logins s @ [r], login_seq := Suc (login_seq s)\<rparr>))"

text \<open>
  \<open>DELETE FROM users\<close>: the vaults of the user go with their secrets and shares, then the user's
  own shares and memberships; authored teams and audit rows keep a NULL; \<open>login_history\<close> has no
  action, so a remaining row refuses the deletion.
\<close>

definition owned_vault_ids :: "uuid \<Rightarrow> db \<Rightarrow> uuid list" where
  "owned_vault_ids uid s = map v_id (filter (\<lambda>v. v_owner v = uid) (vaults s))"

definition cascade_user :: "uuid \<Rightarrow> db \<Rightarrow> db" where
  "cascade_user uid s =
     s\<lparr>users := delete_rows (\<lambda>u. u_id u = uid) (users s),
       vaults := delete_rows (\<lambda>v. v_owner v = uid) (vaults s),
       secrets := delete_rows (\<lambda>i. si_vault i \<in> set (owned_vault_ids uid s)) (secrets s),
       teams := update_rows (\<lambda>t. t_by t = Some uid) (\<lambda>t. t\<lparr>t_by := None\<rparr>) (teams s),
       members := delete_rows (\<lambda>m. m_user m = uid) (members s),
       shares := delete_rows (\<lambda>k. k_user k = uid \<or> k_vault k \<in> set (owned_vault_ids uid s)) (shares s),
       audits := update_rows (\<lambda>a. a_actor a = Some uid) (\<lambda>a. a\<lparr>a_actor := None\<rparr>) (audits s)\<rparr>"

definition delete_user_row :: "uuid \<Rightarrow> db \<Rightarrow> sql_error + db" where
  "delete_user_row uid s =
     (if uid \<in> set (user_ids s) \<and> uid \<in> set (map l_user (logins s)) then Inl ForeignKeyViolation
      else if uid \<in> set (user_ids s) then Inr (cascade_user uid s) else Inr s)"

text \<open>\<open>DELETE FROM teams\<close>: memberships go, a share granted through the team keeps a NULL.\<close>

definition delete_team_row :: "uuid \<Rightarrow> db \<Rightarrow> db" where
  "delete_team_row tid s =
     s\<lparr>teams := delete_rows (\<lambda>t. t_id t = tid) (teams s),
       members := delete_rows (\<lambda>m. m_team m = tid) (members s),
       shares := update_rows (\<lambda>k. k_team k = Some tid) (\<lambda>k. k\<lparr>k_team := None\<rparr>) (shares s)\<rparr>"

section \<open>Every statement keeps the constraints\<close>

lemmas table_ok_defs =
  users_ok_def vaults_ok_def secrets_ok_def teams_ok_def members_ok_def shares_ok_def
  audits_ok_def logins_ok_def policies_ok_def

lemmas ids_defs = user_ids_def vault_ids_def team_ids_def

lemma ref_in_simps [simp]: "ref_in None ks" "ref_in (Some k) ks \<longleftrightarrow> k \<in> set ks"
  by (simp_all add: ref_in_def)

lemma ref_in_mono: "ref_in r ks \<Longrightarrow> set ks \<subseteq> set ks' \<Longrightarrow> ref_in r ks'"
  by (auto simp: ref_in_def split: option.splits)

lemma emails_append [simp]: "emails (us @ [u]) = emails us @ (case u_email u of None \<Rightarrow> [] | Some e \<Rightarrow> [e])"
  by (induction us) (auto simp: emails_def map_filter_simps split: option.split)

lemma set_emails: "set (emails us) = {e. \<exists>u\<in>set us. u_email u = Some e}"
  by (induction us) (auto simp: emails_def map_filter_simps split: option.split)

lemma emails_delete_subset: "distinct (emails us) \<Longrightarrow> distinct (emails (delete_rows p us))"
proof (induction us)
  case Nil
  then show ?case by (simp add: delete_rows_def)
next
  case (Cons u us)
  have sub: "set (emails (delete_rows p us)) \<subseteq> set (emails us)"
    by (auto simp: set_emails table_simps)
  from Cons have IH: "distinct (emails (delete_rows p us))"
    by (auto simp: emails_def map_filter_simps split: option.splits)
  show ?case
  proof (cases "u_email u")
    case None
    with IH show ?thesis by (simp add: emails_def delete_rows_def map_filter_simps)
  next
    case (Some e)
    with Cons.prems have "e \<notin> set (emails us)" by (simp add: emails_def map_filter_simps)
    with sub have "e \<notin> set (emails (delete_rows p us))" by blast
    with IH Some show ?thesis by (simp add: emails_def delete_rows_def map_filter_simps)
  qed
qed

lemma emails_update [simp]:
  "(\<And>u. u_email (f u) = u_email u) \<Longrightarrow> emails (update_rows p f us) = emails us"
  by (induction us) (auto simp: emails_def update_rows_def map_filter_simps split: option.split)

text \<open>The tables that refer to ids stay well formed while the ids only grow.\<close>

lemma table_ok_mono:
  assumes "set uids \<subseteq> set uids'" and "set vids \<subseteq> set vids'" and "set tids \<subseteq> set tids'"
  shows "vaults_ok uids vs \<Longrightarrow> vaults_ok uids' vs"
    and "secrets_ok vids ss \<Longrightarrow> secrets_ok vids' ss"
    and "teams_ok uids ts \<Longrightarrow> teams_ok uids' ts"
    and "members_ok uids tids ms \<Longrightarrow> members_ok uids' tids' ms"
    and "shares_ok uids vids tids ks \<Longrightarrow> shares_ok uids' vids' tids' ks"
    and "audits_ok uids n as \<Longrightarrow> audits_ok uids' n as"
    and "logins_ok uids n ls \<Longrightarrow> logins_ok uids' n ls"
  using assms ref_in_mono [OF _ assms(1)] ref_in_mono [OF _ assms(3)]
  by (auto simp: table_ok_defs)

lemma db_okD:
  assumes "db_ok s"
  shows "users_ok (users s)" "vaults_ok (user_ids s) (vaults s)" "secrets_ok (vault_ids s) (secrets s)"
    "teams_ok (user_ids s) (teams s)" "members_ok (user_ids s) (team_ids s) (members s)"
    "shares_ok (user_ids s) (vault_ids s) (team_ids s) (shares s)"
    "audits_ok (user_ids s) (audit_seq s) (audits s)"
    "logins_ok (user_ids s) (login_seq s) (logins s)" "policies_ok (policies s)"
  using assms by (simp_all add: db_ok_def)

definition sql_keeps :: "(db \<Rightarrow> sql_error + db) \<Rightarrow> bool" where
  "sql_keeps f \<longleftrightarrow> (\<forall>s s'. db_ok s \<longrightarrow> f s = Inr s' \<longrightarrow> db_ok s')"

lemma sql_keepsI: "(\<And>s s'. db_ok s \<Longrightarrow> f s = Inr s' \<Longrightarrow> db_ok s') \<Longrightarrow> sql_keeps f"
  by (simp add: sql_keeps_def)

lemma keeps_exec_sql [step_intros]: "sql_keeps f \<Longrightarrow> keeps db_ok (exec_sql f)"
  by (auto intro!: keepsI simp: exec_sql_def sql_keeps_def split: sum.split)

lemma exec_sql_returns:
  "exec_sql f s = (Inr x, s') \<longleftrightarrow> f s = Inr s'"
  by (auto simp: exec_sql_def split: sum.splits)

lemma insert_user_keeps [step_intros]: "sql_keeps (insert_user_row r)"
proof (rule sql_keepsI)
  fix s s' assume ok: "db_ok s" and ins: "insert_user_row r s = Inr s'"
  have s': "s' = s\<lparr>users := users s @ [r]\<rparr>" using ins by (simp add: insert_user_row_def split: if_splits)
  have "users_ok (users s')" using ins db_okD(1) [OF ok] s'
    by (auto simp: insert_user_row_def users_ok_def user_ids_def split: if_splits option.splits)
  moreover have "set (user_ids s) \<subseteq> set (user_ids s')" "vault_ids s' = vault_ids s" "team_ids s' = team_ids s"
    using s' by (auto simp: ids_defs)
  ultimately show "db_ok s'"
    using db_okD [OF ok] table_ok_mono [of "user_ids s" "user_ids s'" "vault_ids s" "vault_ids s'" "team_ids s" "team_ids s'"]
    unfolding db_ok_def s' by simp
qed

lemma insert_vault_keeps [step_intros]: "sql_keeps (insert_vault_row r)"
proof (rule sql_keepsI)
  fix s s' assume ok: "db_ok s" and ins: "insert_vault_row r s = Inr s'"
  have s': "s' = s\<lparr>vaults := vaults s @ [r]\<rparr>" using ins by (simp add: insert_vault_row_def split: if_splits)
  have "vaults_ok (user_ids s') (vaults s')" using ins db_okD(2) [OF ok] s'
    by (auto simp: insert_vault_row_def vaults_ok_def ids_defs split: if_splits)
  moreover have "set (vault_ids s) \<subseteq> set (vault_ids s')" "user_ids s' = user_ids s" "team_ids s' = team_ids s"
    using s' by (auto simp: ids_defs)
  ultimately show "db_ok s'"
    using db_okD [OF ok] table_ok_mono [of "user_ids s" "user_ids s'" "vault_ids s" "vault_ids s'" "team_ids s" "team_ids s'"]
    unfolding db_ok_def s' by simp
qed

lemma insert_team_keeps [step_intros]: "sql_keeps (insert_team_row r)"
proof (rule sql_keepsI)
  fix s s' assume ok: "db_ok s" and ins: "insert_team_row r s = Inr s'"
  have s': "s' = s\<lparr>teams := teams s @ [r]\<rparr>" using ins by (simp add: insert_team_row_def split: if_splits)
  have "teams_ok (user_ids s') (teams s')" using ins db_okD(4) [OF ok] s'
    by (auto simp: insert_team_row_def teams_ok_def ids_defs split: if_splits)
  moreover have "set (team_ids s) \<subseteq> set (team_ids s')" "user_ids s' = user_ids s" "vault_ids s' = vault_ids s"
    using s' by (auto simp: ids_defs)
  ultimately show "db_ok s'"
    using db_okD [OF ok] table_ok_mono [of "user_ids s" "user_ids s'" "vault_ids s" "vault_ids s'" "team_ids s" "team_ids s'"]
    unfolding db_ok_def s' by simp
qed

text \<open>A statement that touches one table, on which nothing depends, needs that table only.\<close>

lemma one_table_ok:
  assumes "db_ok s"
  shows "secrets_ok (vault_ids s) ss \<Longrightarrow> db_ok (s\<lparr>secrets := ss\<rparr>)"
    and "members_ok (user_ids s) (team_ids s) ms \<Longrightarrow> db_ok (s\<lparr>members := ms\<rparr>)"
    and "shares_ok (user_ids s) (vault_ids s) (team_ids s) ks \<Longrightarrow> db_ok (s\<lparr>shares := ks\<rparr>)"
    and "audits_ok (user_ids s) n as \<Longrightarrow> db_ok (s\<lparr>audits := as, audit_seq := n\<rparr>)"
    and "logins_ok (user_ids s) n ls \<Longrightarrow> db_ok (s\<lparr>logins := ls, login_seq := n\<rparr>)"
    and "logins_ok (user_ids s) (login_seq s) ls \<Longrightarrow> db_ok (s\<lparr>logins := ls\<rparr>)"
    and "policies_ok ps \<Longrightarrow> db_ok (s\<lparr>policies := ps\<rparr>)"
    and "users_ok us \<Longrightarrow> map u_id us = map u_id (users s) \<Longrightarrow> db_ok (s\<lparr>users := us\<rparr>)"
    and "vaults_ok (user_ids s) vs \<Longrightarrow> map v_id vs = map v_id (vaults s) \<Longrightarrow> db_ok (s\<lparr>vaults := vs\<rparr>)"
    and "db_ok (s\<lparr>clock := t\<rparr>)"
  using assms by (simp_all add: db_ok_def ids_defs)

lemma insert_secret_keeps [step_intros]: "sql_keeps (insert_secret_row r)"
  by (rule sql_keepsI)
     (auto simp: insert_secret_row_def secrets_ok_def dest: db_okD(3) intro!: one_table_ok split: if_splits)

lemma upsert_member_keeps [step_intros]: "sql_keeps (upsert_member_row r)"
proof (rule sql_keepsI)
  fix s s' assume ok: "db_ok s" and ins: "upsert_member_row r s = Inr s'"
  have "members_ok (user_ids s) (team_ids s) (update_rows (\<lambda>m. member_key m = member_key r) (\<lambda>m. m\<lparr>m_role := m_role r\<rparr>) (members s))"
    if "member_check r"
    using db_okD(5) [OF ok] that
    by (auto simp: members_ok_def table_simps member_key_def member_check_def)
  moreover have "members_ok (user_ids s) (team_ids s) (members s @ [r])"
    if "member_check r" "m_team r \<in> set (team_ids s)" "m_user r \<in> set (user_ids s)"
      "member_key r \<notin> set (map member_key (members s))"
    using db_okD(5) [OF ok] that by (auto simp: members_ok_def)
  ultimately show "db_ok s'" using ins ok
    by (auto simp: upsert_member_row_def split: if_splits intro!: one_table_ok)
qed

lemma share_refs_table:
  "share_refs_ok r s \<Longrightarrow> share_check r \<Longrightarrow> shares_ok (user_ids s) (vault_ids s) (team_ids s) ks \<Longrightarrow>
     share_key r \<notin> set (map share_key ks) \<Longrightarrow>
     shares_ok (user_ids s) (vault_ids s) (team_ids s) (ks @ [r])"
  by (auto simp: shares_ok_def share_refs_ok_def)

lemma insert_share_keeps [step_intros]: "sql_keeps (insert_share_row r)"
  by (rule sql_keepsI)
     (auto simp: insert_share_row_def dest: db_okD(6) split: if_splits intro!: one_table_ok share_refs_table)

lemma upsert_share_keeps [step_intros]: "sql_keeps (upsert_share_row r)"
proof (rule sql_keepsI)
  fix s s' assume ok: "db_ok s" and ins: "upsert_share_row r s = Inr s'"
  let ?ks = "update_rows (\<lambda>k. share_key k = share_key r) (\<lambda>_. r) (shares s)"
  have "map share_key ?ks = map share_key (shares s)" by (auto simp: update_rows_def)
  then have "shares_ok (user_ids s) (vault_ids s) (team_ids s) ?ks"
    if "share_check r" "share_refs_ok r s"
    using db_okD(6) [OF ok] that by (auto simp: shares_ok_def share_refs_ok_def table_simps)
  with ins ok db_okD(6) [OF ok] show "db_ok s'"
    by (auto simp: upsert_share_row_def split: if_splits intro!: one_table_ok share_refs_table)
qed

lemma insert_audit_keeps [step_intros]:
  assumes "\<And>n. a_id (mk n) = n"
  shows "sql_keeps (insert_audit_row mk)"
proof (rule sql_keepsI)
  fix s s' assume ok: "db_ok s" and ins: "insert_audit_row mk s = Inr s'"
  have "audits_ok (user_ids s) (Suc (audit_seq s)) (audits s @ [mk (Suc (audit_seq s))])"
    if "ref_in (a_actor (mk (Suc (audit_seq s)))) (user_ids s)"
    using db_okD(7) [OF ok] that assms
    by (auto simp: audits_ok_def sorted_wrt_append le_Suc_eq less_Suc_eq_le)
  with ins ok show "db_ok s'"
    by (auto simp: insert_audit_row_def Let_def split: if_splits intro!: one_table_ok)
qed

lemma insert_login_keeps [step_intros]:
  assumes "\<And>n. l_id (mk n) = n"
  shows "sql_keeps (insert_login_row mk)"
proof (rule sql_keepsI)
  fix s s' assume ok: "db_ok s" and ins: "insert_login_row mk s = Inr s'"
  have "logins_ok (user_ids s) (Suc (login_seq s)) (logins s @ [mk (Suc (login_seq s))])"
    if "l_user (mk (Suc (login_seq s))) \<in> set (user_ids s)"
    using db_okD(8) [OF ok] that assms
    by (auto simp: logins_ok_def sorted_wrt_append le_Suc_eq less_Suc_eq_le)
  with ins ok show "db_ok s'"
    by (auto simp: insert_login_row_def Let_def split: if_splits intro!: one_table_ok)
qed

lemma sorted_wrt_map_delete:
  "sorted_wrt P (map f xs) \<Longrightarrow> sorted_wrt P (map f (delete_rows q xs))"
  by (induction xs) (auto simp: delete_rows_def)

lemma ids_after_delete [simp]:
  "set (map v_id (delete_rows (\<lambda>v. v_owner v = uid) vs)) \<subseteq> set (map v_id vs)"
  by (auto simp: delete_rows_def)

lemma user_ids_cascade: "x \<in> set (user_ids (cascade_user uid s)) \<longleftrightarrow> x \<in> set (user_ids s) \<and> x \<noteq> uid"
  by (auto simp: user_ids_def cascade_user_def delete_rows_def)

lemma vault_ids_cascade:
  assumes "distinct (map v_id (vaults s))"
  shows "x \<in> set (vault_ids (cascade_user uid s)) \<longleftrightarrow>
           x \<in> set (vault_ids s) \<and> x \<notin> set (owned_vault_ids uid s)"
proof -
  have "v_id v \<notin> v_id ` {w \<in> set (vaults s). v_owner w = uid}"
    if "v \<in> set (vaults s)" "v_owner v \<noteq> uid" for v
    using unique_key_row [OF assms] that by blast
  then show ?thesis
    by (auto simp: vault_ids_def cascade_user_def delete_rows_def owned_vault_ids_def)
qed

lemma team_ids_cascade [simp]: "team_ids (cascade_user uid s) = team_ids s"
  by (simp add: team_ids_def cascade_user_def update_rows_def)

lemma cascade_user_ok:
  assumes ok: "db_ok s" and no_logins: "uid \<notin> set (map l_user (logins s))"
  shows "db_ok (cascade_user uid s)"
proof -
  let ?s = "cascade_user uid s"
  have dv: "distinct (map v_id (vaults s))" using db_okD(2) [OF ok] by (simp add: vaults_ok_def)
  note uid = user_ids_cascade [of _ uid s] and vid = vault_ids_cascade [OF dv]
  have "users_ok (users ?s)" using db_okD(1) [OF ok]
    by (auto simp: users_ok_def cascade_user_def table_simps emails_delete_subset)
  moreover have "vaults_ok (user_ids ?s) (vaults ?s)" using db_okD(2) [OF ok]
    by (auto simp: vaults_ok_def uid) (auto simp: cascade_user_def table_simps)
  moreover have "secrets_ok (vault_ids ?s) (secrets ?s)" using db_okD(3) [OF ok]
    by (auto simp: secrets_ok_def vid) (auto simp: cascade_user_def table_simps)
  moreover have "teams_ok (user_ids ?s) (teams ?s)" using db_okD(4) [OF ok]
    by (auto simp: teams_ok_def uid ref_in_def split: option.splits)
       (auto simp: cascade_user_def table_simps split: if_splits)
  moreover have "members_ok (user_ids ?s) (team_ids ?s) (members ?s)" using db_okD(5) [OF ok]
    by (auto simp: members_ok_def uid) (auto simp: cascade_user_def table_simps)
  moreover have "shares_ok (user_ids ?s) (vault_ids ?s) (team_ids ?s) (shares ?s)" using db_okD(6) [OF ok]
    by (auto simp: shares_ok_def uid vid) (auto simp: cascade_user_def table_simps)
  moreover have "audits_ok (user_ids ?s) (audit_seq ?s) (audits ?s)" using db_okD(7) [OF ok]
    by (auto simp: audits_ok_def uid ref_in_def split: option.splits)
       (auto simp: cascade_user_def table_simps split: if_splits)
  moreover have "logins_ok (user_ids ?s) (login_seq ?s) (logins ?s)" using db_okD(8) [OF ok] no_logins
    by (auto simp: logins_ok_def uid) (auto simp: cascade_user_def)
  moreover have "policies_ok (policies ?s)" using db_okD(9) [OF ok] by (simp add: cascade_user_def)
  ultimately show ?thesis by (simp add: db_ok_def)
qed

lemma delete_user_keeps [step_intros]: "sql_keeps (delete_user_row uid)"
  by (rule sql_keepsI) (auto simp: delete_user_row_def split: if_splits intro!: cascade_user_ok)

lemma delete_team_ok:
  assumes ok: "db_ok s"
  shows "db_ok (delete_team_row tid s)"
proof -
  let ?s = "delete_team_row tid s"
  have tid: "x \<in> set (team_ids ?s) \<longleftrightarrow> x \<in> set (team_ids s) \<and> x \<noteq> tid" for x
    by (auto simp: team_ids_def delete_team_row_def delete_rows_def)
  have same: "user_ids ?s = user_ids s" "vault_ids ?s = vault_ids s"
    by (simp_all add: ids_defs delete_team_row_def)
  have "teams_ok (user_ids ?s) (teams ?s)" using db_okD(4) [OF ok]
    by (auto simp: teams_ok_def same) (auto simp: delete_team_row_def table_simps)
  moreover have "members_ok (user_ids ?s) (team_ids ?s) (members ?s)" using db_okD(5) [OF ok]
    by (auto simp: members_ok_def same tid) (auto simp: delete_team_row_def table_simps)
  moreover have "shares_ok (user_ids ?s) (vault_ids ?s) (team_ids ?s) (shares ?s)" using db_okD(6) [OF ok]
    by (auto simp: shares_ok_def same tid ref_in_def split: option.splits)
       (auto simp: delete_team_row_def table_simps share_key_def share_check_def split: if_splits)
  ultimately show ?thesis using db_okD [OF ok]
    by (simp add: db_ok_def same) (simp add: delete_team_row_def)
qed

end
