(* ===== verification/User_Repository.thy ===== *)
theory User_Repository
  imports Schema "HOL-Library.Product_Lexorder"
begin

text \<open>
  \<open>repositories/user_repository.rs\<close> over the schema: reading rows into \<open>user\<close>s, the lookup of a
  login identifier, and the updates, each with the error it gives when no row is affected.
\<close>

section \<open>Statements shared by the repositories\<close>

definition fetch_optional :: "(db \<Rightarrow> 'r list) \<Rightarrow> ('r \<Rightarrow> bool) \<Rightarrow> 'r option dbm" where
  "fetch_optional tbl p = gets (\<lambda>s. first_row p (tbl s))"

definition fetch_all :: "(db \<Rightarrow> 'r list) \<Rightarrow> ('r \<Rightarrow> bool) \<Rightarrow> 'r list dbm" where
  "fetch_all tbl p = gets (\<lambda>s. filter p (tbl s))"

text \<open>\<open>UPDATE users\<close>, with the constraints of the table checked and the number of rows returned.\<close>

definition update_users :: "(user_row \<Rightarrow> bool) \<Rightarrow> (timestamp \<Rightarrow> user_row \<Rightarrow> user_row) \<Rightarrow> nat dbm" where
  "update_users p f = (\<lambda>s.
     let us = update_rows p (f (clock s)) (users s) in
     if \<not> (\<forall>u\<in>set us. role_check u) then (Inl (Database CheckViolation), s)
     else if \<not> (distinct (map u_name us) \<and> distinct (emails us)) then (Inl (Database UniqueViolation), s)
     else (Inr (affected p (users s)), s\<lparr>users := us\<rparr>))"

definition require_rows :: "nat dbm \<Rightarrow> app_error \<Rightarrow> unit dbm" where
  "require_rows m e = bindE m (\<lambda>n. require (n \<noteq> 0) e)"

section \<open>Rows into users\<close>

definition effective_language :: "string \<Rightarrow> string" where
  "effective_language l = (if l = '''' then ''fr'' else l)"

definition row_to_user :: "user_row \<Rightarrow> app_error + user" where
  "row_to_user r =
     (case parse_role (u_role r) of
        Inl e \<Rightarrow> Inl e
      | Inr ro \<Rightarrow> Inr
         \<lparr> user_id = u_id r, username = u_name r, role = ro, email = u_email r,
           display_name = u_display r, preferred_language = effective_language (u_lang r),
           show_passwords_in_edit = (u_show r \<noteq> 0), updated_at = u_updated r \<rparr>)"

definition optional_user :: "user_row option \<Rightarrow> user option dbm" where
  "optional_user row =
     (case row of
        None \<Rightarrow> ret None
      | Some r \<Rightarrow> bindE (lift_result (row_to_user r)) (\<lambda>u. ret (Some u)))"

definition user_get_by_id :: "uuid \<Rightarrow> user option dbm" where
  "user_get_by_id uid = bindE (fetch_optional users (\<lambda>r. u_id r = uid)) optional_user"

definition user_get_by_username :: "string \<Rightarrow> user option dbm" where
  "user_get_by_username name = bindE (fetch_optional users (\<lambda>r. u_name r = name)) optional_user"

definition sql_fold :: "string \<Rightarrow> string" where
  "sql_fold s = ascii_lower (sql_trim s)"

definition folded_match :: "string \<Rightarrow> string option \<Rightarrow> bool" where
  "folded_match ident v =
     (case v of None \<Rightarrow> False | Some x \<Rightarrow> sql_trim x \<noteq> '''' \<and> sql_fold x = sql_fold ident)"

text \<open>The UNION ALL of the three lookups, with the rank each match gets.\<close>

definition login_candidates :: "string \<Rightarrow> user_row list \<Rightarrow> (nat \<times> string) list" where
  "login_candidates ident us =
     map (\<lambda>r. (1, u_name r)) (filter (\<lambda>r. sql_fold (u_name r) = sql_fold ident) us)
     @ map (\<lambda>r. (2, u_name r)) (filter (\<lambda>r. folded_match ident (u_email r)) us)
     @ map (\<lambda>r. (3, u_name r)) (filter (\<lambda>r. folded_match ident (u_display r)) us)"

definition user_resolve_login :: "string \<Rightarrow> string option dbm" where
  "user_resolve_login identifier =
     (let ident = trim identifier in
      if ident = '''' then ret None
      else gets (\<lambda>s. case sort (login_candidates ident (users s)) of
                       [] \<Rightarrow> None | (_, name) # _ \<Rightarrow> Some name))"

definition user_list_all :: "user list dbm" where
  "user_list_all =
     bindE (fetch_all users (\<lambda>_. True)) (\<lambda>rows.
     lift_result (sequence_results (map row_to_user (sort_key u_name rows))))"

section \<open>Envelopes and updates\<close>

definition user_get_password_envelope :: "uuid \<Rightarrow> bytes option dbm" where
  "user_get_password_envelope uid =
     bindE (fetch_optional users (\<lambda>r. u_id r = uid)) (\<lambda>row.
     ret (case row of None \<Rightarrow> None | Some r \<Rightarrow> u_password r))"

definition user_update_profile ::
  "uuid \<Rightarrow> string option \<Rightarrow> string option \<Rightarrow> string option \<Rightarrow> bool option \<Rightarrow> unit dbm" where
  "user_update_profile uid mail disp lang show_pw =
     require_rows
       (update_users (\<lambda>r. u_id r = uid) (\<lambda>t r. r\<lparr>
          u_email := mail,
          u_display := disp,
          u_lang := (case lang of None \<Rightarrow> u_lang r | Some l \<Rightarrow> l),
          u_show := (case show_pw of None \<Rightarrow> u_show r | Some b \<Rightarrow> if b then 1 else 0),
          u_updated := Some t\<rparr>))
       (Storage ''user not found for profile update'')"

definition user_update_password_envelope :: "uuid \<Rightarrow> bytes \<Rightarrow> unit dbm" where
  "user_update_password_envelope uid env =
     require_rows (update_users (\<lambda>r. u_id r = uid) (\<lambda>_ r. r\<lparr>u_password := Some env\<rparr>))
       (Storage ''user not found for password update'')"

definition user_update_totp_envelope :: "uuid \<Rightarrow> bytes \<Rightarrow> unit dbm" where
  "user_update_totp_envelope uid env =
     require_rows (update_users (\<lambda>r. u_id r = uid) (\<lambda>_ r. r\<lparr>u_totp_envelope := Some env\<rparr>))
       (Storage ''user not found for totp update'')"

definition user_update_show_passwords :: "uuid \<Rightarrow> bool \<Rightarrow> unit dbm" where
  "user_update_show_passwords uid b =
     require_rows
       (update_users (\<lambda>r. u_id r = uid) (\<lambda>t r. r\<lparr>u_show := (if b then 1 else 0), u_updated := Some t\<rparr>))
       (Storage ''user not found for show_passwords_in_edit update'')"

definition new_user_row :: "uuid \<Rightarrow> string \<Rightarrow> user_role \<Rightarrow> user_row" where
  "new_user_row uid name ro =
     \<lparr> u_id = uid, u_name = name, u_role = format_role ro, u_password = None, u_totp_envelope = None,
       u_email = None, u_display = None, u_updated = None, u_show = 0, u_totp = None, u_lang = ''fr'' \<rparr>"

definition user_create_db :: "uuid \<Rightarrow> string \<Rightarrow> user_role \<Rightarrow> unit dbm" where
  "user_create_db uid name ro = exec_sql (insert_user_row (new_user_row uid name ro))"

text \<open>The count is read before the transaction opens; login history goes first, having no cascade.\<close>

definition delete_logins_of :: "uuid \<Rightarrow> db \<Rightarrow> db" where
  "delete_logins_of uid s = s\<lparr>logins := delete_rows (\<lambda>l. l_user l = uid) (logins s)\<rparr>"

definition user_delete :: "uuid \<Rightarrow> unit dbm" where
  "user_delete uid =
     bindE (gets (\<lambda>s. affected (\<lambda>r. u_id r = uid) (users s))) (\<lambda>n.
     bindE (require (n \<noteq> 0) (NotFound ''user not found for deletion'')) (\<lambda>_.
     transaction
       (bindE (modify (delete_logins_of uid)) (\<lambda>_.
        exec_sql (delete_user_row uid)))))"

definition user_update_role :: "uuid \<Rightarrow> user_role \<Rightarrow> unit dbm" where
  "user_update_role uid ro =
     require_rows
       (update_users (\<lambda>r. u_id r = uid) (\<lambda>t r. r\<lparr>u_role := format_role ro, u_updated := Some t\<rparr>))
       (NotFound ''user not found for role update'')"

definition user_list_password_envelopes :: "(string \<times> bytes) list dbm" where
  "user_list_password_envelopes =
     gets (\<lambda>s. List.map_filter
       (\<lambda>r. case u_password r of None \<Rightarrow> None | Some e \<Rightarrow> Some (u_name r, e)) (users s))"

section \<open>Properties of the repository\<close>

lemma fetch_reads [step_intros]: "reads_only (fetch_optional tbl p)" "reads_only (fetch_all tbl q)"
  by (simp_all add: fetch_optional_def fetch_all_def step_intros)

lemma fetch_optional_run [run_simps]: "fetch_optional tbl p s = (Inr (first_row p (tbl s)), s)"
  by (simp add: fetch_optional_def run_simps)

lemma fetch_all_run [run_simps]: "fetch_all tbl p s = (Inr (filter p (tbl s)), s)"
  by (simp add: fetch_all_def run_simps)

lemma optional_user_reads [step_intros]: "reads_only (optional_user row)"
  by (auto simp: optional_user_def intro!: step_intros split: option.split)

lemma user_queries_read [step_intros]:
  "reads_only (user_get_by_id uid)" "reads_only (user_get_by_username name)"
  "reads_only (user_resolve_login ident)" "reads_only user_list_all"
  "reads_only (user_get_password_envelope uid)" "reads_only user_list_password_envelopes"
  by (simp_all add: user_get_by_id_def user_get_by_username_def user_resolve_login_def
      user_list_all_def user_get_password_envelope_def user_list_password_envelopes_def Let_def step_intros)

lemma require_rows_keeps [step_intros]: "keeps P m \<Longrightarrow> keeps P (require_rows m e)"
  by (simp add: require_rows_def step_intros)

lemma update_users_keeps [step_intros]:
  assumes "\<And>t r. u_id (f t r) = u_id r"
  shows "keeps db_ok (update_users p f)"
proof (rule keepsI)
  fix s assume ok: "db_ok s"
  let ?us = "update_rows p (f (clock s)) (users s)"
  have "map u_id ?us = map u_id (users s)" by (simp add: table_simps assms)
  with ok db_okD(1) [OF ok]
  have "db_ok (s\<lparr>users := ?us\<rparr>)"
    if "\<forall>u\<in>set ?us. role_check u" "distinct (map u_name ?us)" "distinct (emails ?us)"
    using that by (auto intro!: one_table_ok simp: users_ok_def)
  with ok show "db_ok (snd (update_users p f s))"
    by (auto simp: update_users_def Let_def)
qed

lemma delete_logins_ok: "db_ok s \<Longrightarrow> db_ok (delete_logins_of uid s)"
  unfolding delete_logins_of_def using db_okD(8)
  by (auto intro!: one_table_ok simp: logins_ok_def table_simps sorted_wrt_map_delete)

lemma user_updates_keep [step_intros]:
  "keeps db_ok (user_update_profile uid mail disp lang b)"
  "keeps db_ok (user_update_password_envelope uid env)"
  "keeps db_ok (user_update_totp_envelope uid env)"
  "keeps db_ok (user_update_show_passwords uid c)"
  "keeps db_ok (user_update_role uid ro)"
  "keeps db_ok (user_create_db uid name ro)"
  "keeps db_ok (user_delete uid)"
  unfolding user_update_profile_def user_update_password_envelope_def user_update_totp_envelope_def
    user_update_show_passwords_def user_update_role_def user_create_db_def user_delete_def
  by (intro step_intros keeps_modify delete_logins_ok | simp)+

text \<open>The rows of a well-formed table always read back.\<close>

lemma row_to_user_ok: "role_check r \<Longrightarrow> \<exists>u. row_to_user r = Inr u"
  by (auto simp: row_to_user_def role_check_def parse_role_def)

lemma row_to_user_fields:
  "row_to_user r = Inr u \<Longrightarrow> user_id u = u_id r \<and> username u = u_name r \<and> email u = u_email r \<and>
     format_role (role u) = u_role r"
  by (auto simp: row_to_user_def parse_role_def split: sum.splits if_splits)

lemma user_get_by_id_some:
  assumes "db_ok s" and "r \<in> set (users s)" and "u_id r = uid" and "row_to_user r = Inr u"
  shows "user_get_by_id uid s = (Inr (Some u), s)"
proof -
  have "distinct (map u_id (users s))" using db_okD(1) [OF assms(1)] by (simp add: users_ok_def)
  then have "first_row (\<lambda>r. u_id r = uid) (users s) = Some r"
    using assms by (intro first_row_unique [where k = u_id and x = uid]) auto
  with assms(4) show ?thesis
    by (simp add: user_get_by_id_def bindE_run run_simps optional_user_def)
qed

lemma user_get_by_id_returns:
  "user_get_by_id uid s = (Inr (Some u), s') \<longleftrightarrow>
     (\<exists>r. first_row (\<lambda>r. u_id r = uid) (users s) = Some r \<and> row_to_user r = Inr u \<and> s' = s)"
  by (auto simp: user_get_by_id_def optional_user_def bindE_returns run_simps split: option.splits)

lemma user_get_by_id_none:
  "user_get_by_id uid s = (Inr None, s') \<longleftrightarrow> uid \<notin> set (user_ids s) \<and> s' = s"
  by (auto simp: user_get_by_id_def optional_user_def bindE_returns run_simps user_ids_def
      first_row_None dest: first_row_SomeD split: option.splits)

lemma user_get_by_id_id: "user_get_by_id uid s = (Inr (Some u), s') \<Longrightarrow> user_id u = uid"
  by (auto simp: user_get_by_id_returns dest!: first_row_SomeD row_to_user_fields)

lemma user_list_all_total:
  assumes "db_ok s"
  shows "\<exists>us. user_list_all s = (Inr us, s) \<and> map user_id us = map u_id (sort_key u_name (users s))"
proof -
  let ?rows = "sort_key u_name (users s)"
  have "\<forall>r\<in>set ?rows. \<exists>u. row_to_user r = Inr u"
    using db_okD(1) [OF assms] row_to_user_ok by (simp add: users_ok_def)
  then obtain g where g: "\<forall>r\<in>set ?rows. row_to_user r = Inr (g r)" by metis
  then have "map row_to_user ?rows = map Inr (map g ?rows)" by simp
  then have "user_list_all s = (Inr (map g ?rows), s)"
    by (simp add: user_list_all_def bindE_run run_simps del: map_map)
  moreover have "map user_id (map g ?rows) = map u_id ?rows"
    using g row_to_user_fields by auto
  ultimately show ?thesis by blast
qed

end
