(* ===== verification/Vault_Repository.thy ===== *)
theory Vault_Repository
  imports User_Repository
begin

text \<open>
  \<open>repositories/vault_repository.rs\<close>: vaults, the \<open>accessible_vaults\<close> view that projects owners and
  share holders to one row per user and vault, and the key shares.
\<close>

section \<open>The view\<close>

record view_row =
  w_user :: uuid
  w_vault :: uuid
  w_owner :: uuid
  w_name :: string
  w_version :: int
  w_role :: string
  w_kind :: string

definition live :: "vault_row \<Rightarrow> bool" where
  "live v \<longleftrightarrow> v_deleted v = None"

definition owner_view :: "vault_row \<Rightarrow> view_row" where
  "owner_view v =
     \<lparr> w_user = v_owner v, w_vault = v_id v, w_owner = v_owner v, w_name = v_name v,
       w_version = v_version v, w_role = ''admin'', w_kind = ''owner'' \<rparr>"

definition share_view :: "vault_row \<Rightarrow> share_row \<Rightarrow> view_row" where
  "share_view v k =
     \<lparr> w_user = k_user k, w_vault = v_id v, w_owner = v_owner v, w_name = v_name v,
       w_version = v_version v, w_role = k_role k,
       w_kind = (case k_team k of None \<Rightarrow> ''direct_share'' | Some _ \<Rightarrow> ''team_share'') \<rparr>"

definition accessible_vaults :: "db \<Rightarrow> view_row list" where
  "accessible_vaults s =
     map owner_view (filter live (vaults s))
     @ concat (map (\<lambda>v. map (share_view v)
                     (filter (\<lambda>k. k_vault k = v_id v \<and> v_owner v \<noteq> k_user k) (shares s)))
                   (filter live (vaults s)))"

definition row_to_vault :: "vault_row \<Rightarrow> vault" where
  "row_to_vault r = \<lparr> vault_id = v_id r, owner_user_id = v_owner r, vault_name = v_name r \<rparr>"

definition row_to_accessible_vault :: "view_row \<Rightarrow> app_error + accessible_vault" where
  "row_to_accessible_vault r =
     (case share_role_from_db (w_role r) of
        None \<Rightarrow> Inl (Storage ''invalid vault share role in storage'')
      | Some ro \<Rightarrow>
         (case access_kind_from_db (w_kind r) of
            None \<Rightarrow> Inl (Storage ''invalid vault access kind in storage'')
          | Some kind \<Rightarrow> Inr
              \<lparr> av_vault = \<lparr> vault_id = w_vault r, owner_user_id = w_owner r, vault_name = w_name r \<rparr>,
                av_role = ro, av_kind = kind, av_key_version = w_version r \<rparr>))"

section \<open>Queries\<close>

definition vault_get_by_id :: "uuid \<Rightarrow> vault option dbm" where
  "vault_get_by_id vid =
     bindE (fetch_optional vaults (\<lambda>r. v_id r = vid \<and> live r)) (\<lambda>row.
     ret (map_option row_to_vault row))"

definition vault_list_by_user_id :: "uuid \<Rightarrow> vault list dbm" where
  "vault_list_by_user_id uid =
     bindE (fetch_all vaults (\<lambda>r. v_owner r = uid \<and> live r)) (\<lambda>rows.
     ret (map row_to_vault (sort_key (\<lambda>r. ascii_lower (v_name r)) rows)))"

definition vault_list_owned :: "uuid \<Rightarrow> vault list dbm" where
  "vault_list_owned uid = vault_list_by_user_id uid"

definition vault_list_shared :: "uuid \<Rightarrow> vault list dbm" where
  "vault_list_shared uid =
     bindE (gets (\<lambda>s. concat (map (\<lambda>v. map (\<lambda>_. v) (filter (\<lambda>k. k_vault k = v_id v \<and> k_user k = uid) (shares s)))
                    (filter (\<lambda>v. v_owner v \<noteq> uid \<and> live v) (vaults s))))) (\<lambda>rows.
     ret (map row_to_vault (sort_key v_name rows)))"

definition vault_list_all :: "vault list dbm" where
  "vault_list_all =
     bindE (fetch_all vaults live) (\<lambda>rows. ret (map row_to_vault (sort_key v_name rows)))"

definition vault_get_accessible :: "uuid \<Rightarrow> accessible_vault list dbm" where
  "vault_get_accessible uid =
     bindE (fetch_all accessible_vaults (\<lambda>w. w_user w = uid)) (\<lambda>rows.
     lift_result (sequence_results (map row_to_accessible_vault (sort_key w_name rows))))"

definition vault_list_accessible :: "uuid \<Rightarrow> vault list dbm" where
  "vault_list_accessible uid =
     bindE (vault_get_accessible uid) (\<lambda>records. ret (map av_vault records))"

definition vault_get_with_permission :: "uuid \<Rightarrow> uuid \<Rightarrow> accessible_vault option dbm" where
  "vault_get_with_permission uid vid =
     bindE (fetch_optional accessible_vaults (\<lambda>w. w_user w = uid \<and> w_vault w = vid)) (\<lambda>row.
     case row of
       None \<Rightarrow> ret None
     | Some r \<Rightarrow> bindE (lift_result (row_to_accessible_vault r)) (\<lambda>a. ret (Some a)))"

text \<open>The owner's envelope, a column of \<open>vaults\<close> (the envelope repository of \<open>main.rs\<close>).\<close>

definition vault_get_key_envelope :: "uuid \<Rightarrow> bytes option dbm" where
  "vault_get_key_envelope vid =
     bindE (fetch_optional vaults (\<lambda>r. v_id r = vid)) (\<lambda>row.
     ret (case row of None \<Rightarrow> None | Some r \<Rightarrow> v_key r))"

definition vault_get_key_share :: "uuid \<Rightarrow> uuid \<Rightarrow> bytes option dbm" where
  "vault_get_key_share vid uid =
     bindE (fetch_optional shares (\<lambda>k. k_vault k = vid \<and> k_user k = uid)) (\<lambda>row.
     ret (map_option k_envelope row))"

definition vault_list_share_user_ids :: "uuid \<Rightarrow> uuid list dbm" where
  "vault_list_share_user_ids vid =
     bindE (fetch_all shares (\<lambda>k. k_vault k = vid)) (\<lambda>rows. ret (map k_user rows))"

section \<open>Updates\<close>

definition update_vaults :: "(vault_row \<Rightarrow> bool) \<Rightarrow> (timestamp \<Rightarrow> vault_row \<Rightarrow> vault_row) \<Rightarrow> nat dbm" where
  "update_vaults p f = (\<lambda>s.
     (Inr (affected p (vaults s)), s\<lparr>vaults := update_rows p (f (clock s)) (vaults s)\<rparr>))"

definition update_secrets :: "(secret_row \<Rightarrow> bool) \<Rightarrow> (timestamp \<Rightarrow> secret_row \<Rightarrow> secret_row) \<Rightarrow> nat dbm" where
  "update_secrets p f = (\<lambda>s.
     let ss = update_rows p (f (clock s)) (secrets s) in
     if \<not> (\<forall>i\<in>set ss. secret_check i) then (Inl (Database CheckViolation), s)
     else (Inr (affected p (secrets s)), s\<lparr>secrets := ss\<rparr>))"

text \<open>The columns the INSERT does not name take their defaults: no envelope yet, version 1.\<close>

definition new_vault_row :: "vault \<Rightarrow> vault_row" where
  "new_vault_row v =
     \<lparr> v_id = vault_id v, v_owner = owner_user_id v, v_name = vault_name v, v_key = None,
       v_version = 1, v_deleted = None \<rparr>"

definition vault_create :: "vault \<Rightarrow> unit dbm" where
  "vault_create v = exec_sql (insert_vault_row (new_vault_row v))"

definition vault_delete :: "uuid \<Rightarrow> unit dbm" where
  "vault_delete vid =
     transaction
       (bindE (update_vaults (\<lambda>r. v_id r = vid \<and> live r) (\<lambda>t r. r\<lparr>v_deleted := Some t\<rparr>)) (\<lambda>n.
        bindE (require (n \<noteq> 0) (NotFound ''vault not found'')) (\<lambda>_.
        bindE (update_secrets (\<lambda>i. si_vault i = vid \<and> si_deleted i = None) (\<lambda>t i. i\<lparr>si_deleted := Some t\<rparr>)) (\<lambda>_.
        ret ()))))"

definition vault_update_key_envelope :: "uuid \<Rightarrow> bytes \<Rightarrow> unit dbm" where
  "vault_update_key_envelope vid env =
     require_rows
       (update_vaults (\<lambda>r. v_id r = vid \<and> live r)
          (\<lambda>_ r. r\<lparr>v_key := Some env, v_version := v_version r + 1\<rparr>))
       (Storage ''vault not found for key update'')"

definition vault_insert_key_share ::
  "uuid \<Rightarrow> uuid \<Rightarrow> bytes \<Rightarrow> uuid option \<Rightarrow> uuid option \<Rightarrow> vault_share_role \<Rightarrow> unit dbm" where
  "vault_insert_key_share vid uid env by_user via_team ro =
     bindE (gets clock) (\<lambda>t.
     exec_sql (upsert_share_row
       \<lparr> k_vault = vid, k_user = uid, k_envelope = env, k_by = by_user, k_team = via_team,
         k_at = t, k_role = share_role_to_db ro \<rparr>))"

definition delete_shares :: "(share_row \<Rightarrow> bool) \<Rightarrow> nat dbm" where
  "delete_shares p = (\<lambda>s. (Inr (affected p (shares s)), s\<lparr>shares := delete_rows p (shares s)\<rparr>))"

definition vault_delete_key_share :: "uuid \<Rightarrow> uuid \<Rightarrow> unit dbm" where
  "vault_delete_key_share vid uid =
     bindE (delete_shares (\<lambda>k. k_vault k = vid \<and> k_user k = uid)) (\<lambda>_. ret ())"

definition vault_delete_all_key_shares :: "uuid \<Rightarrow> unit dbm" where
  "vault_delete_all_key_shares vid = bindE (delete_shares (\<lambda>k. k_vault k = vid)) (\<lambda>_. ret ())"

text \<open>The INSERT names no role: the column takes its default, \<open>'read'\<close>.\<close>

definition vault_replace_all_key_shares ::
  "uuid \<Rightarrow> (uuid \<times> bytes \<times> uuid option) list \<Rightarrow> uuid option \<Rightarrow> unit dbm" where
  "vault_replace_all_key_shares vid new_shares rotation_actor =
     transaction
       (bindE (delete_shares (\<lambda>k. k_vault k = vid)) (\<lambda>_.
        for_each new_shares (\<lambda>(uid, env, via_team).
          bindE (gets clock) (\<lambda>t.
          exec_sql (insert_share_row
            \<lparr> k_vault = vid, k_user = uid, k_envelope = env, k_by = rotation_actor,
              k_team = via_team, k_at = t, k_role = ''read'' \<rparr>)))))"

definition vault_delete_shares_via_team :: "uuid \<Rightarrow> uuid \<Rightarrow> nat dbm" where
  "vault_delete_shares_via_team uid tid =
     delete_shares (\<lambda>k. k_user k = uid \<and> k_team k = Some tid)"

section \<open>Properties of the repository\<close>

lemma vault_queries_read [step_intros]:
  "reads_only (vault_get_by_id vid)" "reads_only (vault_list_by_user_id uid)"
  "reads_only (vault_list_owned uid)" "reads_only (vault_list_shared uid)" "reads_only vault_list_all"
  "reads_only (vault_get_accessible uid)" "reads_only (vault_list_accessible uid)"
  "reads_only (vault_get_with_permission uid vid)" "reads_only (vault_get_key_envelope vid)"
  "reads_only (vault_get_key_share vid uid)" "reads_only (vault_list_share_user_ids vid)"
  unfolding vault_get_by_id_def vault_list_by_user_id_def vault_list_owned_def vault_list_shared_def
    vault_list_all_def vault_get_accessible_def vault_list_accessible_def
    vault_get_with_permission_def vault_get_key_envelope_def vault_get_key_share_def
    vault_list_share_user_ids_def
  by (intro step_intros)+

lemma update_vaults_keeps [step_intros]:
  assumes "\<And>t r. v_id (f t r) = v_id r" and "\<And>t r. v_owner (f t r) = v_owner r"
  shows "keeps db_ok (update_vaults p f)"
proof (rule keepsI)
  fix s assume ok: "db_ok s"
  let ?vs = "update_rows p (f (clock s)) (vaults s)"
  have "map v_id ?vs = map v_id (vaults s)" by (simp add: table_simps assms)
  moreover have "vaults_ok (user_ids s) ?vs"
    using db_okD(2) [OF ok] calculation by (auto simp: vaults_ok_def table_simps assms)
  ultimately show "db_ok (snd (update_vaults p f s))"
    using ok by (simp add: update_vaults_def one_table_ok)
qed

lemma update_secrets_keeps [step_intros]:
  assumes "\<And>t i. si_id (f t i) = si_id i" and "\<And>t i. si_vault (f t i) = si_vault i"
  shows "keeps db_ok (update_secrets p f)"
proof (rule keepsI)
  fix s assume ok: "db_ok s"
  let ?ss = "update_rows p (f (clock s)) (secrets s)"
  have "map si_id ?ss = map si_id (secrets s)" by (simp add: table_simps assms)
  then have "secrets_ok (vault_ids s) ?ss" if "\<forall>i\<in>set ?ss. secret_check i"
    using db_okD(3) [OF ok] that by (auto simp: secrets_ok_def table_simps assms)
  with ok show "db_ok (snd (update_secrets p f s))"
    by (auto simp: update_secrets_def Let_def intro!: one_table_ok)
qed

lemma delete_shares_keeps [step_intros]: "keeps db_ok (delete_shares p)"
proof (rule keepsI)
  fix s assume ok: "db_ok s"
  then have "shares_ok (user_ids s) (vault_ids s) (team_ids s) (delete_rows p (shares s))"
    using db_okD(6) by (auto simp: shares_ok_def table_simps)
  with ok show "db_ok (snd (delete_shares p s))" by (simp add: delete_shares_def one_table_ok)
qed

lemma vault_updates_keep [step_intros]:
  "keeps db_ok (vault_create v)" "keeps db_ok (vault_delete vid)"
  "keeps db_ok (vault_update_key_envelope vid env)"
  "keeps db_ok (vault_insert_key_share vid uid env b t ro)"
  "keeps db_ok (vault_delete_key_share vid uid)" "keeps db_ok (vault_delete_all_key_shares vid)"
  "keeps db_ok (vault_replace_all_key_shares vid new_shares actor)"
  "keeps db_ok (vault_delete_shares_via_team uid tid)"
  unfolding vault_create_def vault_delete_def vault_update_key_envelope_def vault_insert_key_share_def
    vault_delete_key_share_def vault_delete_all_key_shares_def vault_replace_all_key_shares_def
    vault_delete_shares_via_team_def
  by (intro step_intros | simp)+

text \<open>Who the view lets in: the owner of a live vault, and the holders of a share of it.\<close>

lemma accessible_row_iff:
  "w \<in> set (accessible_vaults s) \<longleftrightarrow>
     (\<exists>v\<in>set (vaults s). live v \<and>
        (w = owner_view v \<or> (\<exists>k\<in>set (shares s). k_vault k = v_id v \<and> k_user k \<noteq> v_owner v \<and> w = share_view v k)))"
proof
  assume "w \<in> set (accessible_vaults s)"
  then consider v where "v \<in> set (vaults s)" "live v" "w = owner_view v"
    | v k where "v \<in> set (vaults s)" "live v" "k \<in> set (shares s)" "k_vault k = v_id v"
        "v_owner v \<noteq> k_user k" "w = share_view v k"
    unfolding accessible_vaults_def by auto
  then show "\<exists>v\<in>set (vaults s). live v \<and>
      (w = owner_view v \<or> (\<exists>k\<in>set (shares s). k_vault k = v_id v \<and> k_user k \<noteq> v_owner v \<and> w = share_view v k))"
    by cases metis+
qed (auto simp: accessible_vaults_def)

lemma owner_row_mem: "v \<in> set (vaults s) \<Longrightarrow> live v \<Longrightarrow> owner_view v \<in> set (accessible_vaults s)"
  unfolding accessible_row_iff by blast

lemma share_row_mem:
  "v \<in> set (vaults s) \<Longrightarrow> live v \<Longrightarrow> k \<in> set (shares s) \<Longrightarrow> k_vault k = v_id v \<Longrightarrow> k_user k \<noteq> v_owner v \<Longrightarrow>
     share_view v k \<in> set (accessible_vaults s)"
  unfolding accessible_row_iff by blast

lemma view_fields [simp]:
  "w_user (owner_view v) = v_owner v" "w_vault (owner_view v) = v_id v"
  "w_user (share_view v k) = k_user k" "w_vault (share_view v k) = v_id v"
  "w_owner (owner_view v) = v_owner v" "w_owner (share_view v k) = v_owner v"
  by (simp_all add: owner_view_def share_view_def)

lemma accessible_rowE:
  assumes "w \<in> set (accessible_vaults s)"
  obtains (owner) v where "v \<in> set (vaults s)" "live v" "w_vault w = v_id v" "w_user w = v_owner v"
      "w = owner_view v"
  | (shared) v k where "v \<in> set (vaults s)" "live v" "w_vault w = v_id v" "w_user w \<noteq> v_owner v"
      "w_user w = k_user k" "k \<in> set (shares s)" "k_vault k = v_id v" "w = share_view v k"
  using assms unfolding accessible_row_iff by (metis view_fields(1-4))

definition has_access :: "db \<Rightarrow> uuid \<Rightarrow> uuid \<Rightarrow> bool" where
  "has_access s uid vid \<longleftrightarrow>
     (\<exists>v\<in>set (vaults s). v_id v = vid \<and> live v \<and>
        (v_owner v = uid \<or> (\<exists>k\<in>set (shares s). k_vault k = vid \<and> k_user k = uid)))"

lemma accessible_iff_has_access:
  "(\<exists>w\<in>set (accessible_vaults s). w_user w = uid \<and> w_vault w = vid) \<longleftrightarrow> has_access s uid vid"
proof
  assume "\<exists>w\<in>set (accessible_vaults s). w_user w = uid \<and> w_vault w = vid"
  then obtain w where w: "w \<in> set (accessible_vaults s)" "w_user w = uid" "w_vault w = vid" by blast
  from w(1) show "has_access s uid vid"
    unfolding has_access_def by (cases rule: accessible_rowE) (use w(2,3) in metis)+
next
  assume "has_access s uid vid"
  then obtain v where v: "v \<in> set (vaults s)" "v_id v = vid" "live v"
    and who: "v_owner v = uid \<or> (\<exists>k\<in>set (shares s). k_vault k = vid \<and> k_user k = uid)"
    unfolding has_access_def by blast
  show "\<exists>w\<in>set (accessible_vaults s). w_user w = uid \<and> w_vault w = vid"
  proof (cases "v_owner v = uid")
    case True
    with v owner_row_mem [of v s] show ?thesis by (intro bexI [of _ "owner_view v"]) simp_all
  next
    case False
    with who obtain k where "k \<in> set (shares s)" "k_vault k = vid" "k_user k = uid" by blast
    with v False share_row_mem [of v s k] show ?thesis
      by (intro bexI [of _ "share_view v k"]) simp_all
  qed
qed

text \<open>On a well-formed database the view holds at most one row per user and vault.\<close>

lemma view_unique:
  assumes ok: "db_ok s" and "w \<in> set (accessible_vaults s)" and "w' \<in> set (accessible_vaults s)"
    and "w_user w = w_user w'" and "w_vault w = w_vault w'"
  shows "w = w'"
proof -
  have dv: "distinct (map v_id (vaults s))" and dk: "distinct (map share_key (shares s))"
    using db_okD(2) [OF ok] db_okD(6) [OF ok] by (simp_all add: vaults_ok_def shares_ok_def)
  note uv = unique_key_row [OF dv] and uk = unique_key_row [OF dk]
  from assms(2) show ?thesis
  proof (cases rule: accessible_rowE)
    case (owner v)
    from assms(3) show ?thesis
      by (cases rule: accessible_rowE) (use owner assms(4,5) uv in metis)+
  next
    case (shared v k)
    from assms(3) show ?thesis
    proof (cases rule: accessible_rowE)
      case (owner v')
      with shared assms(4,5) uv show ?thesis by metis
    next
      case (shared v' k')
      with \<open>w_vault w = v_id v\<close> \<open>v \<in> set (vaults s)\<close> assms(5) uv have "v' = v" by metis
      moreover have "share_key k' = share_key k"
        using shared \<open>w_user w = k_user k\<close> \<open>k_vault k = v_id v\<close> assms(4) \<open>v' = v\<close>
        by (simp add: share_key_def)
      then have "k' = k" using uk shared(6) \<open>k \<in> set (shares s)\<close> by blast
      ultimately show ?thesis using shared(8) \<open>w = share_view v k\<close> by simp
    qed
  qed
qed

lemma view_parses:
  assumes ok: "db_ok s" and "w \<in> set (accessible_vaults s)"
  shows "\<exists>a. row_to_accessible_vault w = Inr a"
proof -
  have own: "\<exists>a. row_to_accessible_vault (owner_view v) = Inr a" for v
    by (simp add: row_to_accessible_vault_def owner_view_def share_role_from_db_def access_kind_from_db_def)
  have sh: "\<exists>a. row_to_accessible_vault (share_view v k) = Inr a" if "share_check k" for v k
    using that by (cases "k_team k")
      (auto simp: row_to_accessible_vault_def share_view_def share_check_def
        share_role_from_db_def access_kind_from_db_def)
  have "share_check k" if "k \<in> set (shares s)" for k
    using db_okD(6) [OF ok] that by (simp add: shares_ok_def)
  with assms(2) own sh show ?thesis unfolding accessible_row_iff by metis
qed

text \<open>The role a user has on a vault: \<open>admin\<close> for the owner, the share's role otherwise.\<close>

definition access_row :: "db \<Rightarrow> uuid \<Rightarrow> uuid \<Rightarrow> view_row option" where
  "access_row s uid vid = first_row (\<lambda>w. w_user w = uid \<and> w_vault w = vid) (accessible_vaults s)"

lemma get_with_permission_returns:
  "vault_get_with_permission uid vid s = (Inr r, s') \<longleftrightarrow>
     s' = s \<and>
     (case access_row s uid vid of None \<Rightarrow> r = None
      | Some w \<Rightarrow> \<exists>a. row_to_accessible_vault w = Inr a \<and> r = Some a)"
  by (auto simp: vault_get_with_permission_def access_row_def bindE_returns run_simps
      split: option.splits)

lemma access_row_none: "access_row s uid vid = None \<longleftrightarrow> \<not> has_access s uid vid"
  by (auto simp: access_row_def first_row_None accessible_iff_has_access [symmetric])

lemma access_row_owner:
  assumes "db_ok s" and "v \<in> set (vaults s)" and "live v" and "v_id v = vid" and "v_owner v = uid"
  shows "access_row s uid vid = Some (owner_view v)"
proof -
  have mem: "owner_view v \<in> set (accessible_vaults s)"
    using assms by (auto simp: accessible_row_iff)
  have "access_row s uid vid \<noteq> None"
    using assms by (auto simp: access_row_none has_access_def)
  then obtain w where w: "access_row s uid vid = Some w" by blast
  then have "w \<in> set (accessible_vaults s) \<and> w_user w = uid \<and> w_vault w = vid"
    unfolding access_row_def by (rule first_row_SomeD)
  with mem assms have "w = owner_view v"
    by (intro view_unique [of s]) (auto simp: owner_view_def)
  with w show ?thesis by simp
qed

lemma access_row_share:
  assumes "db_ok s" and "v \<in> set (vaults s)" and "live v" and "v_id v = vid" and "v_owner v \<noteq> uid"
    and "k \<in> set (shares s)" and "k_vault k = vid" and "k_user k = uid"
  shows "access_row s uid vid = Some (share_view v k)"
proof -
  have mem: "share_view v k \<in> set (accessible_vaults s)"
    using assms by (auto intro!: share_row_mem)
  have "access_row s uid vid \<noteq> None"
    using assms by (auto simp: access_row_none has_access_def)
  then obtain w where w: "access_row s uid vid = Some w" by blast
  then have "w \<in> set (accessible_vaults s) \<and> w_user w = uid \<and> w_vault w = vid"
    unfolding access_row_def by (rule first_row_SomeD)
  with mem assms have "w = share_view v k"
    by (intro view_unique [of s]) (auto simp: share_view_def)
  with w show ?thesis by simp
qed

end
