(* ===== verification/Team_Audit_Repository.thy ===== *)
theory Team_Audit_Repository
  imports Vault_Repository
begin

text \<open>
  \<open>repositories/team_repository.rs\<close>, \<open>repositories/audit_log_repository.rs\<close> and the login history of
  \<open>services/login_history_service.rs\<close>.
\<close>

section \<open>Teams\<close>

definition row_to_team :: "team_row \<Rightarrow> team" where
  "row_to_team r =
     \<lparr> team_id = t_id r, team_name = t_name r, created_by = t_by r, team_created_at = t_created r \<rparr>"

definition parse_member_role :: "string \<Rightarrow> app_error + team_member_role" where
  "parse_member_role raw =
     (case member_role_from_db raw of
        Inl err \<Rightarrow> Inl (Storage (''invalid team member role in storage: '' @ err))
      | Inr ro \<Rightarrow> Inr ro)"

definition row_to_member :: "member_row \<Rightarrow> app_error + team_member" where
  "row_to_member r =
     (case parse_member_role (m_role r) of
        Inl e \<Rightarrow> Inl e
      | Inr ro \<Rightarrow> Inr \<lparr> tm_team = m_team r, tm_user = m_user r, tm_role = ro, tm_joined_at = m_joined r \<rparr>)"

definition team_create :: "uuid \<Rightarrow> string \<Rightarrow> uuid option \<Rightarrow> team dbm" where
  "team_create tid name by_user =
     (if trim name = '''' then fail (Validation ''team name must not be empty'')
      else
        bindE (gets clock) (\<lambda>t.
        bindE (exec_sql (insert_team_row \<lparr> t_id = tid, t_name = name, t_by = by_user, t_created = t \<rparr>)) (\<lambda>_.
        bindE (fetch_optional teams (\<lambda>r. t_id r = tid)) (\<lambda>row.
        bindE (ok_or (Database RowNotFound) row) (\<lambda>r.
        ret (row_to_team r))))))"

definition team_get_by_id :: "uuid \<Rightarrow> team option dbm" where
  "team_get_by_id tid =
     bindE (fetch_optional teams (\<lambda>r. t_id r = tid)) (\<lambda>row. ret (map_option row_to_team row))"

definition team_list_all :: "team list dbm" where
  "team_list_all =
     bindE (fetch_all teams (\<lambda>_. True)) (\<lambda>rows. ret (map row_to_team (sort_key t_name rows)))"

definition team_list_for_user :: "uuid \<Rightarrow> team list dbm" where
  "team_list_for_user uid =
     bindE (gets (\<lambda>s. concat (map (\<lambda>t. map (\<lambda>_. t) (filter (\<lambda>m. m_team m = t_id t \<and> m_user m = uid) (members s)))
                    (teams s)))) (\<lambda>rows.
     ret (map row_to_team (sort_key t_name rows)))"

definition team_delete :: "uuid \<Rightarrow> unit dbm" where
  "team_delete tid =
     bindE (gets (\<lambda>s. affected (\<lambda>r. t_id r = tid) (teams s))) (\<lambda>n.
     bindE (modify (delete_team_row tid)) (\<lambda>_.
     require (n \<noteq> 0) (NotFound ''team not found for deletion'')))"

definition team_add_member :: "uuid \<Rightarrow> uuid \<Rightarrow> team_member_role \<Rightarrow> unit dbm" where
  "team_add_member tid uid ro =
     bindE (gets clock) (\<lambda>t.
     exec_sql (upsert_member_row
       \<lparr> m_team = tid, m_user = uid, m_role = member_role_to_db ro, m_joined = t \<rparr>))"

definition delete_members :: "(member_row \<Rightarrow> bool) \<Rightarrow> nat dbm" where
  "delete_members p = (\<lambda>s. (Inr (affected p (members s)), s\<lparr>members := delete_rows p (members s)\<rparr>))"

definition team_remove_member :: "uuid \<Rightarrow> uuid \<Rightarrow> unit dbm" where
  "team_remove_member tid uid =
     require_rows (delete_members (\<lambda>m. m_team m = tid \<and> m_user m = uid))
       (NotFound ''team membership not found for removal'')"

definition team_list_members :: "uuid \<Rightarrow> team_member list dbm" where
  "team_list_members tid =
     bindE (fetch_all members (\<lambda>m. m_team m = tid)) (\<lambda>rows.
     lift_result (sequence_results (map row_to_member (sort_key m_joined rows))))"

definition team_get_member_role :: "uuid \<Rightarrow> uuid \<Rightarrow> team_member_role option dbm" where
  "team_get_member_role tid uid =
     bindE (fetch_optional members (\<lambda>m. m_team m = tid \<and> m_user m = uid)) (\<lambda>row.
     case row of
       None \<Rightarrow> ret None
     | Some r \<Rightarrow> bindE (lift_result (parse_member_role (m_role r))) (\<lambda>ro. ret (Some ro)))"

definition team_list_member_user_ids :: "uuid \<Rightarrow> uuid list dbm" where
  "team_list_member_user_ids tid =
     bindE (fetch_all members (\<lambda>m. m_team m = tid)) (\<lambda>rows. ret (map m_user rows))"

definition team_list_ids_for_user :: "uuid \<Rightarrow> uuid list dbm" where
  "team_list_ids_for_user uid =
     bindE (fetch_all members (\<lambda>m. m_user m = uid)) (\<lambda>rows. ret (map m_team rows))"

section \<open>The audit log\<close>

definition row_to_entry :: "audit_row \<Rightarrow> audit_log_entry" where
  "row_to_entry r =
     \<lparr> entry_id = a_id r, actor_user_id = a_actor r, entry_action = a_action r, target_type = a_ttype r,
       target_id = a_tid r, detail = a_detail r, performed_at = a_at r \<rparr>"

definition audit_append ::
  "uuid option \<Rightarrow> audit_action \<Rightarrow> string option \<Rightarrow> target_ref option \<Rightarrow> rich_text option \<Rightarrow> unit dbm" where
  "audit_append actor act tty tid det =
     bindE (gets clock) (\<lambda>t.
     exec_sql (insert_audit_row (\<lambda>n.
       \<lparr> a_id = n, a_actor = actor, a_action = audit_action_to_db act, a_ttype = tty, a_tid = tid,
         a_detail = det, a_at = t \<rparr>)))"

text \<open>\<open>ORDER BY performed_at DESC LIMIT n\<close>; rows of the same second keep their insertion order.\<close>

definition recent :: "nat \<Rightarrow> audit_row list \<Rightarrow> audit_row list" where
  "recent n rows = take n (sort_key (\<lambda>r. - int (a_at r)) rows)"

definition audit_list_recent :: "32 word \<Rightarrow> audit_log_entry list dbm" where
  "audit_list_recent lim =
     bindE (fetch_all audits (\<lambda>_. True)) (\<lambda>rows. ret (map row_to_entry (recent (unat lim) rows)))"

definition audit_list_for_actor :: "uuid \<Rightarrow> 32 word \<Rightarrow> audit_log_entry list dbm" where
  "audit_list_for_actor actor lim =
     bindE (fetch_all audits (\<lambda>r. a_actor r = Some actor)) (\<lambda>rows.
     ret (map row_to_entry (recent (unat lim) rows)))"

definition audit_list_for_target :: "string \<Rightarrow> target_ref \<Rightarrow> 32 word \<Rightarrow> audit_log_entry list dbm" where
  "audit_list_for_target tty tid lim =
     bindE (fetch_all audits (\<lambda>r. a_ttype r = Some tty \<and> a_tid r = Some tid)) (\<lambda>rows.
     ret (map row_to_entry (recent (unat lim) rows)))"

section \<open>Login history\<close>

record login_history_entry =
  login_at :: timestamp
  ip_address :: "string option"
  device_info :: "string option"

definition record_successful_login :: "uuid \<Rightarrow> string option \<Rightarrow> string option \<Rightarrow> unit dbm" where
  "record_successful_login uid ip dev =
     bindE (gets clock) (\<lambda>t.
     exec_sql (insert_login_row (\<lambda>n. \<lparr> l_id = n, l_user = uid, l_at = t, l_ip = ip, l_device = dev \<rparr>)))"

definition clamp :: "'a::linorder \<Rightarrow> 'a \<Rightarrow> 'a \<Rightarrow> 'a" where
  "clamp lo hi x = (if x < lo then lo else if hi < x then hi else x)"

definition list_recent_logins :: "uuid \<Rightarrow> int \<Rightarrow> login_history_entry list dbm" where
  "list_recent_logins uid lim =
     bindE (fetch_all logins (\<lambda>l. l_user l = uid)) (\<lambda>rows.
     ret (map (\<lambda>l. \<lparr> login_at = l_at l, ip_address = l_ip l, device_info = l_device l \<rparr>)
            (take (nat (clamp 1 50 lim)) (sort_key (\<lambda>l. - int (l_at l)) rows))))"

section \<open>Properties of the repositories\<close>

lemma team_queries_read [step_intros]:
  "reads_only (team_get_by_id tid)" "reads_only team_list_all" "reads_only (team_list_for_user uid)"
  "reads_only (team_list_members tid)" "reads_only (team_get_member_role tid uid)"
  "reads_only (team_list_member_user_ids tid)" "reads_only (team_list_ids_for_user uid)"
  "reads_only (audit_list_recent lim)" "reads_only (audit_list_for_actor actor lim)"
  "reads_only (audit_list_for_target tty ti lim)" "reads_only (list_recent_logins uid n)"
  unfolding team_get_by_id_def team_list_all_def team_list_for_user_def team_list_members_def
    team_get_member_role_def team_list_member_user_ids_def team_list_ids_for_user_def
    audit_list_recent_def audit_list_for_actor_def audit_list_for_target_def list_recent_logins_def
  by (intro step_intros)+

lemma delete_members_keeps [step_intros]: "keeps db_ok (delete_members p)"
proof (rule keepsI)
  fix s assume ok: "db_ok s"
  then have "members_ok (user_ids s) (team_ids s) (delete_rows p (members s))"
    using db_okD(5) by (auto simp: members_ok_def table_simps)
  with ok show "db_ok (snd (delete_members p s))" by (simp add: delete_members_def one_table_ok)
qed

lemma team_updates_keep [step_intros]:
  "keeps db_ok (team_create tid name b)" "keeps db_ok (team_delete tid)"
  "keeps db_ok (team_add_member tid uid ro)" "keeps db_ok (team_remove_member tid uid)"
  "keeps db_ok (audit_append actor act tty ti det)" "keeps db_ok (record_successful_login uid ip dev)"
  unfolding team_create_def team_delete_def team_add_member_def team_remove_member_def
    audit_append_def record_successful_login_def
  by (intro step_intros keeps_reads keeps_modify delete_team_ok | simp)+

lemma audit_append_run:
  "ref_in actor (user_ids s) \<Longrightarrow>
     audit_append actor act tty ti det s =
       (Inr (), s\<lparr>audits := audits s @ [\<lparr> a_id = Suc (audit_seq s), a_actor = actor,
          a_action = audit_action_to_db act, a_ttype = tty, a_tid = ti, a_detail = det, a_at = clock s \<rparr>],
        audit_seq := Suc (audit_seq s)\<rparr>)"
  by (simp add: audit_append_def bindE_run run_simps exec_sql_def insert_audit_row_def)

lemma audit_append_refused:
  "\<not> ref_in actor (user_ids s) \<Longrightarrow>
     audit_append actor act tty ti det s = (Inl (Database ForeignKeyViolation), s)"
  by (simp add: audit_append_def bindE_run run_simps exec_sql_def insert_audit_row_def)

text \<open>Appending touches the log only.\<close>

definition same_but_audit :: "db \<Rightarrow> db \<Rightarrow> bool" where
  "same_but_audit s s' \<longleftrightarrow>
     users s' = users s \<and> vaults s' = vaults s \<and> secrets s' = secrets s \<and> teams s' = teams s \<and>
     members s' = members s \<and> shares s' = shares s \<and> logins s' = logins s \<and> login_seq s' = login_seq s \<and>
     policies s' = policies s \<and> clock s' = clock s"

interpretation audit_only: step_order same_but_audit
  by unfold_locales (auto simp: same_but_audit_def)

lemma audit_append_only: "moves same_but_audit (audit_append actor act tty ti det)"
  by (auto simp: moves_def same_but_audit_def audit_append_def bindE_run run_simps exec_sql_def
      insert_audit_row_def Let_def)

lemma audit_append_same: "audit_append actor act tty ti det s = (r, s') \<Longrightarrow> same_but_audit s s'"
  using audit_append_only unfolding moves_def by (metis snd_conv)

lemma same_but_audit_access:
  "same_but_audit s s' \<Longrightarrow> accessible_vaults s' = accessible_vaults s"
  "same_but_audit s s' \<Longrightarrow> has_access s' uid vid = has_access s uid vid"
  "same_but_audit s s' \<Longrightarrow> access_row s' uid vid = access_row s uid vid"
  by (simp_all add: same_but_audit_def accessible_vaults_def has_access_def access_row_def)

end
