(* ===== verification/Access_Control.thy ===== *)
theory Access_Control
  imports Models
begin

text \<open>
  \<open>services/access_control.rs\<close>: the one decision function every permission check of the services
  goes through, and what it decides: who may do what, that more rights never lose a permission,
  and that each denial carries the reason of its rule.
\<close>

datatype action =
    AdminManageUsers | TeamManageMembers | TeamReadMembers
  | VaultCreate | VaultOpen | VaultWrite | VaultList | VaultDelete
  | VaultShare | VaultRevoke | VaultRotate
  | AuditRead | AuditWrite | BackupExport | BackupRestore

datatype resource =
    Global
  | TeamRes (requester_role: "team_member_role option")
  | VaultRes (is_owner: bool) (has_direct_share: bool) (has_team_share: bool)
      (share_role: "vault_share_role option")

definition role_admits :: "(vault_share_role \<Rightarrow> bool) \<Rightarrow> vault_share_role option \<Rightarrow> bool" where
  "role_admits p v = (case v of None \<Rightarrow> False | Some r \<Rightarrow> p r)"

text \<open>The arms of the \<open>match\<close> in the order of the source.\<close>

fun permission_rule :: "action \<Rightarrow> resource \<Rightarrow> app_error + unit" where
  "permission_rule AdminManageUsers _ = Inl (Authorization AdminRequired)"
| "permission_rule AuditRead _ = Inl (Authorization AdminRequired)"
| "permission_rule AuditWrite _ = Inr ()"
| "permission_rule TeamManageMembers (TeamRes r) =
     (if r = Some Leader then Inr () else Inl (Authorization TeamLeaderRequired))"
| "permission_rule TeamReadMembers (TeamRes r) =
     (if r \<noteq> None then Inr () else Inl (Authorization TeamMembershipRequired))"
| "permission_rule VaultCreate Global = Inr ()"
| "permission_rule VaultList Global = Inr ()"
| "permission_rule VaultDelete (VaultRes own _ _ r) =
     (if own \<or> role_admits can_admin r then Inr () else Inl (Authorization VaultAdminRequired))"
| "permission_rule VaultWrite (VaultRes own direct via_team r) =
     (if (own \<or> direct \<or> via_team) \<and> (own \<or> role_admits can_write r) then Inr ()
      else Inl (Authorization VaultWriteDenied))"
| "permission_rule VaultOpen (VaultRes own direct via_team _) =
     (if own \<or> direct \<or> via_team then Inr () else Inl (Authorization VaultAccessDenied))"
| "permission_rule VaultShare (VaultRes own direct via_team r) =
     (if (own \<or> direct \<or> via_team) \<and> (own \<or> role_admits can_admin r) then Inr ()
      else Inl (Authorization VaultAdminRequired))"
| "permission_rule VaultRevoke (VaultRes own direct via_team r) =
     (if (own \<or> direct \<or> via_team) \<and> (own \<or> role_admits can_admin r) then Inr ()
      else Inl (Authorization VaultAdminRequired))"
| "permission_rule VaultRotate (VaultRes own direct via_team r) =
     (if (own \<or> direct \<or> via_team) \<and> (own \<or> role_admits can_admin r) then Inr ()
      else Inl (Authorization VaultAdminRequired))"
| "permission_rule BackupExport _ = Inl (Authorization AdminRequired)"
| "permission_rule BackupRestore _ = Inl (Authorization AdminRequired)"
| "permission_rule _ _ = Inl (Authorization Unauthorized)"

definition check_permission :: "user \<Rightarrow> action \<Rightarrow> resource \<Rightarrow> app_error + unit" where
  "check_permission u a r = (if role u = RoleAdmin then Inr () else permission_rule a r)"

abbreviation allowed :: "user \<Rightarrow> action \<Rightarrow> resource \<Rightarrow> bool" where
  "allowed u a r \<equiv> check_permission u a r = Inr ()"

section \<open>The policy, stated by right\<close>

text \<open>What a user needs for an action: the specification the rule table is checked against.\<close>

definition vault_access :: "resource \<Rightarrow> bool" where
  "vault_access r = (case r of VaultRes own direct via_team _ \<Rightarrow> own \<or> direct \<or> via_team | _ \<Rightarrow> False)"

definition vault_rank :: "resource \<Rightarrow> nat" where
  "vault_rank r =
     (case r of VaultRes own _ _ sr \<Rightarrow>
        if own then 3 else (case sr of None \<Rightarrow> 0 | Some x \<Rightarrow> Suc (role_rank x))
      | _ \<Rightarrow> 0)"

definition entitled :: "action \<Rightarrow> resource \<Rightarrow> bool" where
  "entitled a r =
     (case a of
        AuditWrite \<Rightarrow> True
      | VaultCreate \<Rightarrow> r = Global
      | VaultList \<Rightarrow> r = Global
      | TeamManageMembers \<Rightarrow> r = TeamRes (Some Leader)
      | TeamReadMembers \<Rightarrow> (\<exists>m. r = TeamRes (Some m))
      | VaultOpen \<Rightarrow> vault_access r
      | VaultWrite \<Rightarrow> vault_access r \<and> 2 \<le> vault_rank r
      | VaultDelete \<Rightarrow> 3 \<le> vault_rank r
      | VaultShare \<Rightarrow> vault_access r \<and> 3 \<le> vault_rank r
      | VaultRevoke \<Rightarrow> vault_access r \<and> 3 \<le> vault_rank r
      | VaultRotate \<Rightarrow> vault_access r \<and> 3 \<le> vault_rank r
      | _ \<Rightarrow> False)"

lemma rank_can_write: "2 \<le> Suc (role_rank x) \<longleftrightarrow> can_write x" by (cases x) auto
lemma rank_can_admin: "3 \<le> Suc (role_rank x) \<longleftrightarrow> can_admin x" by (cases x) auto

lemma permission_rule_entitled: "permission_rule a r = Inr () \<longleftrightarrow> entitled a r"
  by (cases a; cases r)
     (auto simp: entitled_def vault_access_def vault_rank_def role_admits_def
       rank_can_write [simplified] rank_can_admin [simplified] split: option.splits)

lemma allowed_iff: "allowed u a r \<longleftrightarrow> role u = RoleAdmin \<or> entitled a r"
  by (simp add: check_permission_def permission_rule_entitled)

lemma denied_iff: "(\<exists>e. check_permission u a r = Inl e) \<longleftrightarrow> role u \<noteq> RoleAdmin \<and> \<not> entitled a r"
  by (metis allowed_iff old.sum.exhaust old.unit.exhaust sum.distinct(1))

lemma check_permission_admin [simp]: "role u = RoleAdmin \<Longrightarrow> check_permission u a r = Inr ()"
  by (simp add: check_permission_def)

lemma check_permission_vault_list [simp]: "check_permission u VaultList Global = Inr ()"
  by (simp add: check_permission_def)

lemma check_permission_vault_create [simp]: "check_permission u VaultCreate Global = Inr ()"
  by (simp add: check_permission_def)

text \<open>A denial is always an authorization error, never another kind of failure.\<close>

lemma denial_is_authorization:
  "check_permission u a r = Inl e \<Longrightarrow> \<exists>why. e = Authorization why"
  by (cases a; cases r) (auto simp: check_permission_def split: if_splits)

text \<open>Rights over the same vault, from fewer to more.\<close>

inductive more_rights :: "resource \<Rightarrow> resource \<Rightarrow> bool" where
  more_vault: "(own \<longrightarrow> own') \<Longrightarrow> (d \<longrightarrow> d') \<Longrightarrow> (t \<longrightarrow> t') \<Longrightarrow>
     (\<And>x. r = Some x \<Longrightarrow> \<exists>y. r' = Some y \<and> x \<le> y) \<Longrightarrow>
     more_rights (VaultRes own d t r) (VaultRes own' d' t' r')"
| more_team: "(r \<noteq> None \<Longrightarrow> r' \<noteq> None) \<Longrightarrow> (r = Some Leader \<Longrightarrow> r' = Some Leader) \<Longrightarrow>
     more_rights (TeamRes r) (TeamRes r')"

inductive_cases more_rights_elim: "more_rights r r'"

lemma role_rank_mono: "x \<le> y \<Longrightarrow> role_rank x \<le> role_rank y"
  by (simp add: less_eq_vault_share_role_def)

lemma role_rank_le: "role_rank x \<le> 2" by (cases x) auto

lemma vault_rank_mono:
  assumes "more_rights r r'"
  shows "vault_rank r \<le> vault_rank r'"
  using assms
proof (cases rule: more_rights.cases)
  case (more_vault own own' d d' t t' x x')
  show ?thesis
  proof (cases x)
    case None
    with more_vault(1-3) show ?thesis by (auto simp: vault_rank_def)
  next
    case (Some y)
    with more_vault(6) role_rank_mono
    obtain z where "x' = Some z" "role_rank y \<le> role_rank z" by metis
    with more_vault(1-3) Some role_rank_le [of y] show ?thesis by (auto simp: vault_rank_def)
  qed
qed (simp add: vault_rank_def)

lemma vault_access_mono: "more_rights r r' \<Longrightarrow> vault_access r \<Longrightarrow> vault_access r'"
  by (auto elim!: more_rights_elim simp: vault_access_def)

lemma more_rights_not_global: "more_rights r r' \<Longrightarrow> r \<noteq> Global"
  by (auto elim: more_rights_elim)

lemma more_rights_leader:
  "more_rights r r' \<Longrightarrow> r = TeamRes (Some Leader) \<Longrightarrow> r' = TeamRes (Some Leader)"
  by (auto elim!: more_rights_elim)

lemma more_rights_member:
  "more_rights r r' \<Longrightarrow> \<exists>m. r = TeamRes (Some m) \<Longrightarrow> \<exists>m. r' = TeamRes (Some m)"
  by (auto elim!: more_rights_elim)

lemma entitled_mono:
  assumes "more_rights r r'" and "entitled a r"
  shows "entitled a r'"
proof -
  note rules = more_rights_not_global [OF assms(1)] more_rights_leader [OF assms(1)]
    more_rights_member [OF assms(1)] vault_access_mono [OF assms(1)]
    le_trans [OF _ vault_rank_mono [OF assms(1)]]
  show ?thesis
    using assms(2) rules(1) unfolding entitled_def
    by (cases a; simp only: action.case) (metis rules)+
qed

text \<open>The decision function implements the policy: an action is allowed exactly to a global admin and
  to whoever has the rights the policy asks for, ranked read, write, admin, owner.\<close>

theorem access_policy: "check_permission u a r = Inr () \<longleftrightarrow> role u = RoleAdmin \<or> entitled a r"
  by (rule allowed_iff)

text \<open>Rights are monotone: whoever is allowed an action on a resource keeps it with a higher share
  role, more kinds of share or ownership of the same vault, or a higher role in the same team.\<close>

theorem more_rights_keep_permissions:
  assumes "more_rights r r'" and "check_permission u a r = Inr ()"
  shows "check_permission u a r' = Inr ()"
  using assms entitled_mono by (auto simp: allowed_iff)

theorem more_rights_keep_permissions_witness:
  "check_permission \<lparr> user_id = 1, username = ''bob'', role = RoleUser, email = None, display_name = None,
       preferred_language = ''fr'', show_passwords_in_edit = False, updated_at = None \<rparr>
     VaultWrite (VaultRes False True True (Some ShareAdmin)) = Inr ()"
proof (rule more_rights_keep_permissions)
  show "more_rights (VaultRes False True False (Some ShareWrite)) (VaultRes False True True (Some ShareAdmin))"
    by (rule more_vault) (auto simp: less_eq_vault_share_role_def)
qed (simp add: check_permission_def role_admits_def)

end
