(* ===== verification/Audit_Log_Service.thy ===== *)
theory Audit_Log_Service
  imports Team_Audit_Repository Access_Control
begin

text \<open>
  \<open>services/audit_log_service.rs\<close>: recording an event and the three listings, each behind its own
  check of the requester.
\<close>

definition record_event ::
  "uuid option \<Rightarrow> audit_action \<Rightarrow> string option \<Rightarrow> target_ref option \<Rightarrow> rich_text option \<Rightarrow> unit dbm" where
  "record_event actor act tty tid det = audit_append actor act tty tid det"

text \<open>\<open>get_by_id(..).await?.ok_or_else(|| NotFound(msg))?\<close>, the first step of most services.\<close>

definition require_user :: "uuid \<Rightarrow> string \<Rightarrow> user dbm" where
  "require_user uid msg = bindE (user_get_by_id uid) (\<lambda>u. ok_or (NotFound msg) u)"

definition audit_require_admin :: "uuid \<Rightarrow> unit dbm" where
  "audit_require_admin requester =
     bindE (require_user requester ''requester not found'') (\<lambda>u.
     require (role u = RoleAdmin) (Authorization AdminRequired))"

definition list_recent_events :: "uuid \<Rightarrow> 32 word \<Rightarrow> audit_log_entry list dbm" where
  "list_recent_events requester lim =
     bindE (audit_require_admin requester) (\<lambda>_. audit_list_recent lim)"

definition list_events_for_user :: "uuid \<Rightarrow> uuid \<Rightarrow> 32 word \<Rightarrow> audit_log_entry list dbm" where
  "list_events_for_user requester actor lim =
     bindE (require_user requester ''requester not found'') (\<lambda>u.
     bindE (require (role u = RoleAdmin \<or> requester = actor) (Authorization AuditCrossUserDenied)) (\<lambda>_.
     audit_list_for_actor actor lim))"

definition list_events_for_target :: "uuid \<Rightarrow> string \<Rightarrow> target_ref \<Rightarrow> 32 word \<Rightarrow> audit_log_entry list dbm" where
  "list_events_for_target requester tty tid lim =
     bindE (audit_require_admin requester) (\<lambda>_. audit_list_for_target tty tid lim)"

section \<open>Properties\<close>

lemma record_event_keeps [step_intros]: "keeps db_ok (record_event actor act tty tid det)"
  by (simp add: record_event_def step_intros)

lemma require_user_reads [step_intros]: "reads_only (require_user uid msg)"
  by (simp add: require_user_def step_intros)

lemma audit_service_reads [step_intros]:
  "reads_only (audit_require_admin requester)" "reads_only (list_recent_events requester lim)"
  "reads_only (list_events_for_user requester actor lim)"
  "reads_only (list_events_for_target requester tty tid lim)"
  unfolding audit_require_admin_def list_recent_events_def list_events_for_user_def list_events_for_target_def
  by (intro step_intros)+

lemma require_user_returns:
  "require_user uid msg s = (Inr u, s') \<longleftrightarrow> s' = s \<and> user_get_by_id uid s = (Inr (Some u), s)"
  unfolding require_user_def bindE_returns ok_or_returns
  by (metis reads_only_run user_queries_read(1))

lemma require_user_state: "require_user uid msg s = (r, s') \<Longrightarrow> s' = s"
  by (rule reads_only_run [OF require_user_reads])

lemma record_event_same: "record_event actor act tty tid det s = (r, s') \<Longrightarrow> same_but_audit s s'"
  by (simp add: record_event_def audit_append_same)

lemma record_event_ok:
  "ref_in actor (user_ids s) \<Longrightarrow> \<exists>s'. record_event actor act tty tid det s = (Inr (), s')"
  by (simp add: record_event_def audit_append_run)

text \<open>On a well-formed database an existing user always reads back.\<close>

lemma user_exists_reads:
  assumes "db_ok s" and "uid \<in> set (user_ids s)"
  shows "\<exists>u. user_get_by_id uid s = (Inr (Some u), s) \<and> user_id u = uid"
proof -
  obtain r where r: "r \<in> set (users s)" "u_id r = uid" using assms(2) by (auto simp: user_ids_def)
  obtain u where u: "row_to_user r = Inr u"
    using row_to_user_ok db_okD(1) [OF assms(1)] r by (auto simp: users_ok_def)
  have "user_id u = uid" using row_to_user_fields [OF u] r by simp
  with user_get_by_id_some [OF assms(1) r u] show ?thesis by blast
qed

lemma user_read_exists: "user_get_by_id uid s = (Inr (Some u), s') \<Longrightarrow> uid \<in> set (user_ids s)"
  by (auto simp: user_get_by_id_returns user_ids_def dest!: first_row_SomeD)

text \<open>A listing returns the entries of its filter only, at most the limit, newest first.\<close>

lemma recent_set: "set (recent n rows) \<subseteq> set rows"
  unfolding recent_def using set_take_subset by fastforce

lemma recent_length: "length (recent n rows) \<le> n"
  by (simp add: recent_def)

lemma recent_sorted: "sorted_wrt (\<lambda>a b. a_at a \<ge> a_at b) (recent n rows)"
proof -
  have "sorted_wrt (\<le>) (map (\<lambda>r. - int (a_at r)) (sort_key (\<lambda>r. - int (a_at r)) rows))" by simp
  then have "sorted_wrt (\<lambda>a b. a_at a \<ge> a_at b) (sort_key (\<lambda>r. - int (a_at r)) rows)"
    by (simp add: sorted_wrt_map)
  then show ?thesis unfolding recent_def by (rule sorted_wrt_take)
qed

end
