(* ===== verification/Admin_Service.thy ===== *)
theory Admin_Service
  imports Auth_Service Audit_Log_Service
begin

text \<open>
  \<open>services/admin_service.rs\<close>, \<open>services/user_service.rs\<close> and the start-up of \<open>main.rs\<close>: the operations
  that work on the database and on the in-memory credentials together.  The two parts of the state
  are reached through \<open>zoom\<close>; a call of a repository or of the authentication service is that call
  run on its part.
\<close>

section \<open>The joint state\<close>

record app =
  app_db :: db
  app_auth :: auth_state

type_synonym 'a appm = "app \<Rightarrow> (app_error + 'a) \<times> app"

definition zoom :: "('w \<Rightarrow> 's) \<Rightarrow> ('s \<Rightarrow> 'w \<Rightarrow> 'w) \<Rightarrow> ('e, 's, 'a) act \<Rightarrow> ('e, 'w, 'a) act" where
  "zoom get put m = (\<lambda>w. case m (get w) of (r, s') \<Rightarrow> (r, put s' w))"

definition on_db :: "'a dbm \<Rightarrow> 'a appm" where
  "on_db = zoom app_db (\<lambda>d w. w\<lparr>app_db := d\<rparr>)"

definition on_auth :: "'a authm \<Rightarrow> 'a appm" where
  "on_auth = zoom app_auth (\<lambda>a w. w\<lparr>app_auth := a\<rparr>)"

text \<open>The laws of a part of a state, and what running on the part keeps.\<close>

locale state_part =
  fixes get :: "'w \<Rightarrow> 's" and put :: "'s \<Rightarrow> 'w \<Rightarrow> 'w"
  assumes get_put: "get (put s w) = s"
    and put_get: "put (get w) w = w"
    and put_put: "put s' (put s w) = put s' w"
begin

lemma zoom_bindE: "zoom get put (bindE m f) = bindE (zoom get put m) (\<lambda>x. zoom get put (f x))"
  by (rule ext) (auto simp: zoom_def bindE_def get_put put_put split: prod.split sum.split)

lemma zoom_ret: "zoom get put (ret x) = ret x"
  by (rule ext) (simp add: zoom_def ret_def put_get)

lemma zoom_reads: "reads_only m \<Longrightarrow> reads_only (zoom get put m)"
proof (rule reads_onlyI)
  fix w
  assume "reads_only m"
  then have "snd (m (get w)) = get w" by (rule reads_onlyD)
  then show "snd (zoom get put m w) = w"
    by (cases "m (get w)") (simp add: zoom_def put_get)
qed

lemma zoom_keeps: "keeps P m \<Longrightarrow> keeps (\<lambda>w. P (get w)) (zoom get put m)"
  by (auto intro!: keepsI simp: zoom_def get_put dest: keeps_run split: prod.split)

lemma zoom_returns:
  "zoom get put m w = (r, w') \<longleftrightarrow> (\<exists>s'. m (get w) = (r, s') \<and> w' = put s' w)"
  by (auto simp: zoom_def split: prod.split)

lemma zoom_run: "m (get w) = (r, s') \<Longrightarrow> zoom get put m w = (r, put s' w)"
  by (simp add: zoom_def)

end

interpretation db_part: state_part app_db "\<lambda>d w. w\<lparr>app_db := d\<rparr>"
  by unfold_locales auto

interpretation auth_part: state_part app_auth "\<lambda>a w. w\<lparr>app_auth := a\<rparr>"
  by unfold_locales auto

lemma on_db_returns: "on_db m w = (r, w') \<longleftrightarrow> (\<exists>d. m (app_db w) = (r, d) \<and> w' = w\<lparr>app_db := d\<rparr>)"
  unfolding on_db_def by (rule db_part.zoom_returns)

lemma on_auth_returns: "on_auth m w = (r, w') \<longleftrightarrow> (\<exists>a. m (app_auth w) = (r, a) \<and> w' = w\<lparr>app_auth := a\<rparr>)"
  unfolding on_auth_def by (rule auth_part.zoom_returns)

lemma on_db_run: "m (app_db w) = (r, d) \<Longrightarrow> on_db m w = (r, w\<lparr>app_db := d\<rparr>)"
  unfolding on_db_def by (rule db_part.zoom_run)

lemma on_auth_run: "m (app_auth w) = (r, a) \<Longrightarrow> on_auth m w = (r, w\<lparr>app_auth := a\<rparr>)"
  unfolding on_auth_def by (rule auth_part.zoom_run)

lemma on_db_reads [step_intros]: "reads_only m \<Longrightarrow> reads_only (on_db m)"
  unfolding on_db_def by (rule db_part.zoom_reads)

text \<open>An operation on the credentials does not touch the database, and the other way round.\<close>

lemma on_auth_keeps_db [step_intros]: "keeps (\<lambda>w. P (app_db w)) (on_auth m)"
  by (auto intro!: keepsI simp: on_auth_def zoom_def split: prod.split)

lemma on_db_keeps [step_intros]: "keeps P m \<Longrightarrow> keeps (\<lambda>w. P (app_db w)) (on_db m)"
  unfolding on_db_def by (rule db_part.zoom_keeps)

section \<open>The admin service\<close>

record create_user_result =
  cr_user :: user
  cr_master_key :: bytes

record bootstrap_result =
  br_user_id :: uuid
  br_username :: string
  br_master_key :: bytes

definition user_found :: "string \<Rightarrow> uuid \<Rightarrow> user appm" where
  "user_found msg uid = bindE (on_db (user_get_by_id uid)) (\<lambda>u. ok_or (NotFound msg) u)"

definition require_admin :: "uuid \<Rightarrow> user appm" where
  "require_admin actor =
     bindE (user_found ''actor user not found'' actor) (\<lambda>u.
     bindE (lift_result (check_permission u AdminManageUsers Global)) (\<lambda>_. ret u))"

definition admin_count :: "nat appm" where
  "admin_count = bindE (on_db user_list_all) (\<lambda>us. ret (length (filter (\<lambda>u. role u = RoleAdmin) us)))"

definition admin_create_user ::
  "primitives \<Rightarrow> kdf_config \<Rightarrow> bytes option \<Rightarrow> uuid \<Rightarrow> uuid \<Rightarrow> string \<Rightarrow> bytes \<Rightarrow> user_role \<Rightarrow>
   create_user_result appm" where
  "admin_create_user P cfg salt_rnd new_id actor name password ro =
     bindE (require_admin actor) (\<lambda>_.
     let trimmed = trim name in
     bindE (require (trimmed \<noteq> []) (Validation ''username must not be empty'')) (\<lambda>_.
     bindE (on_auth (auth_create_user P cfg salt_rnd trimmed password)) (\<lambda>_.
     bindE (on_auth (derive_key_if_valid P cfg trimmed password)) (\<lambda>key_opt.
     bindE (ok_or Internal key_opt) (\<lambda>master_key.
     bindE (on_auth (get_password_envelope trimmed)) (\<lambda>env.
     bindE (on_db (user_create_db new_id trimmed ro)) (\<lambda>_.
     bindE (on_db (user_update_password_envelope new_id env)) (\<lambda>_.
     bindE (on_db (user_get_by_id new_id)) (\<lambda>u_opt.
     bindE (ok_or Internal u_opt) (\<lambda>u.
     bindE (on_db (record_event (Some actor) UserCreated (Some ''user'') (Some (TargetId new_id))
              (Some [Lit ''{\"username\":\"'', Lit trimmed, Lit ''\",\"role\":\"'', Lit (format_role ro), Lit ''\"}'']))) (\<lambda>_.
     ret \<lparr> cr_user = u, cr_master_key = master_key \<rparr>)))))))))))"

definition admin_delete_user :: "uuid \<Rightarrow> uuid \<Rightarrow> unit appm" where
  "admin_delete_user actor target =
     bindE (require_admin actor) (\<lambda>_.
     bindE (user_found ''target user not found'' target) (\<lambda>t.
     bindE (if role t = RoleAdmin
            then bindE admin_count (\<lambda>n. require (1 < n) (Validation ''cannot delete the last admin account''))
            else ret ()) (\<lambda>_.
     bindE (on_db (user_delete target)) (\<lambda>_.
     on_db (record_event (Some actor) UserDeleted (Some ''user'') (Some (TargetId target))
              (Some [Lit ''{\"username\":\"'', Lit (username t), Lit ''\"}'']))))))"

definition admin_update_user_role :: "uuid \<Rightarrow> uuid \<Rightarrow> user_role \<Rightarrow> unit appm" where
  "admin_update_user_role actor target new_role =
     bindE (require_admin actor) (\<lambda>_.
     bindE (user_found ''target user not found'' target) (\<lambda>t.
     bindE (if role t = RoleAdmin \<and> new_role = RoleUser
            then bindE admin_count (\<lambda>n. require (1 < n) (Validation ''cannot demote the last admin account''))
            else ret ()) (\<lambda>_.
     bindE (on_db (user_update_role target new_role)) (\<lambda>_.
     on_db (record_event (Some actor) UserRoleChanged (Some ''user'') (Some (TargetId target))
              (Some [Lit ''{\"old_role\":\"'', Lit (format_role (role t)), Lit ''\",\"new_role\":\"'',
                     Lit (format_role new_role), Lit ''\"}'']))))))"

definition admin_list_all_users :: "uuid \<Rightarrow> user list appm" where
  "admin_list_all_users actor = bindE (require_admin actor) (\<lambda>_. on_db user_list_all)"

text \<open>The envelope of a throw-away service with the default configuration.\<close>

definition fresh_envelope :: "primitives \<Rightarrow> bytes option \<Rightarrow> string \<Rightarrow> bytes \<Rightarrow> app_error + bytes" where
  "fresh_envelope P salt_rnd name password =
     fst (bindE (auth_create_user P default_kdf_config salt_rnd name password) (\<lambda>_. get_password_envelope name)
            new_auth_state)"

definition admin_reset_user_password ::
  "primitives \<Rightarrow> kdf_config \<Rightarrow> bytes option \<Rightarrow> uuid \<Rightarrow> uuid \<Rightarrow> bytes \<Rightarrow> bytes appm" where
  "admin_reset_user_password P cfg salt_rnd actor target password =
     bindE (require_admin actor) (\<lambda>_.
     bindE (user_found ''target user not found'' target) (\<lambda>t.
     bindE (lift_result (fresh_envelope P salt_rnd (username t) password)) (\<lambda>fresh.
     bindE (on_auth (upsert_password_envelope (username t) fresh)) (\<lambda>_.
     bindE (on_auth (get_password_envelope (username t))) (\<lambda>env.
     bindE (on_db (user_update_password_envelope target env)) (\<lambda>_.
     bindE (on_auth (derive_key_if_valid P cfg (username t) password)) (\<lambda>key_opt.
     bindE (ok_or Internal key_opt) (\<lambda>master_key.
     bindE (on_db (record_event (Some actor) UserPasswordReset (Some ''user'') (Some (TargetId target)) None)) (\<lambda>_.
     ret master_key)))))))))"

definition bootstrap_first_admin ::
  "primitives \<Rightarrow> kdf_config \<Rightarrow> bytes option \<Rightarrow> uuid \<Rightarrow> string \<Rightarrow> bytes \<Rightarrow> bootstrap_result appm" where
  "bootstrap_first_admin P cfg salt_rnd new_id name password =
     bindE (on_db user_list_all) (\<lambda>us.
     bindE (require (us = []) (Conflict ''vault already initialized; use the login form to access your account'')) (\<lambda>_.
     let trimmed = trim name in
     bindE (require (trimmed \<noteq> []) (Validation ''username must not be empty'')) (\<lambda>_.
     bindE (on_auth (auth_create_user P cfg salt_rnd trimmed password)) (\<lambda>_.
     bindE (on_auth (derive_key_if_valid P cfg trimmed password)) (\<lambda>key_opt.
     bindE (ok_or Internal key_opt) (\<lambda>master_key.
     bindE (on_auth (get_password_envelope trimmed)) (\<lambda>env.
     bindE (on_db (user_create_db new_id trimmed RoleAdmin)) (\<lambda>_.
     bindE (on_db (user_update_password_envelope new_id env)) (\<lambda>_.
     ret \<lparr> br_user_id = new_id, br_username = trimmed, br_master_key = master_key \<rparr>)))))))))"

section \<open>The user service\<close>

record user_profile_update =
  up_email :: "string option"
  up_display_name :: "string option"
  up_language :: "string option"
  up_show_passwords :: "bool option"
  up_current_password :: "bytes option"

definition get_user_profile :: "uuid \<Rightarrow> user appm" where
  "get_user_profile uid = user_found ''user not found'' uid"

definition get_user_profile_by_username :: "string \<Rightarrow> user appm" where
  "get_user_profile_by_username name =
     bindE (on_db (user_get_by_username name)) (\<lambda>u. ok_or (NotFound ''user not found'') u)"

definition resolve_username_for_login_identifier :: "string \<Rightarrow> string option appm" where
  "resolve_username_for_login_identifier ident = on_db (user_resolve_login ident)"

text \<open>\<open>as_deref().map(str::trim).filter(|v| !v.is_empty())\<close>\<close>

definition trimmed_or_none :: "string option \<Rightarrow> string option" where
  "trimmed_or_none v =
     (case v of None \<Rightarrow> None | Some x \<Rightarrow> if trim x = [] then None else Some (trim x))"

definition update_user_profile ::
  "primitives \<Rightarrow> kdf_config \<Rightarrow> uuid \<Rightarrow> user_profile_update \<Rightarrow> user appm" where
  "update_user_profile P cfg uid upd =
     bindE (user_found ''user not found'' uid) (\<lambda>cur.
     let next_email = trimmed_or_none (up_email upd);
         next_display_name = trimmed_or_none (up_display_name upd);
         next_language = trimmed_or_none (up_language upd) in
     bindE (if next_email \<noteq> email cur
            then bindE (ok_or (Authorization PasswordRequiredForChange) (up_current_password upd)) (\<lambda>pw.
                 bindE (on_auth (verify_password P cfg (username cur) pw)) (\<lambda>password_ok.
                 require password_ok (Authorization InvalidCredentials)))
            else ret ()) (\<lambda>_.
     bindE (on_db (user_update_profile uid next_email next_display_name next_language (up_show_passwords upd))) (\<lambda>_.
     user_found ''user not found after profile update'' uid)))"

definition change_master_password ::
  "primitives \<Rightarrow> kdf_config \<Rightarrow> bytes option \<Rightarrow> uuid \<Rightarrow> bytes \<Rightarrow> bytes \<Rightarrow> unit appm" where
  "change_master_password P cfg salt_rnd uid current_pw new_pw =
     bindE (user_found ''user not found'' uid) (\<lambda>u.
     bindE (require (10 \<le> length new_pw) (Validation ''new password must contain at least 10 characters'')) (\<lambda>_.
     bindE (on_auth (change_password P cfg salt_rnd (username u) current_pw new_pw)) (\<lambda>_.
     bindE (on_auth (get_password_envelope (username u))) (\<lambda>env.
     on_db (user_update_password_envelope uid env)))))"

definition update_show_passwords_in_edit :: "uuid \<Rightarrow> bool \<Rightarrow> user appm" where
  "update_show_passwords_in_edit uid b =
     bindE (on_db (user_update_show_passwords uid b)) (\<lambda>_.
     user_found ''user not found after preference update'' uid)"

section \<open>Start-up\<close>

text \<open>\<open>load_password_envelopes_from_db\<close>: every stored envelope goes into the credential map; one
  that does not decode stops the start-up.\<close>

definition load_password_envelopes_from_db :: "unit appm" where
  "load_password_envelopes_from_db =
     bindE (on_db user_list_password_envelopes) (\<lambda>envs.
     for_each envs (\<lambda>(name, env). on_auth (upsert_password_envelope name env)))"

text \<open>\<open>ensure_privileged_account_context_initialized\<close>: the first admin by rowid and its envelope.\<close>

definition ensure_privileged_account :: "unit appm" where
  "ensure_privileged_account =
     bindE (on_db (fetch_optional users (\<lambda>r. u_role r = format_role RoleAdmin))) (\<lambda>row.
     case row of
       None \<Rightarrow> fail (InitializationRequired ''missing required privileged account with admin role; run the explicit initialization flow before startup'')
     | Some r \<Rightarrow>
        (case u_password r of
           Some env \<Rightarrow> on_auth (upsert_password_envelope (u_name r) env)
         | None \<Rightarrow> fail (InitializationRequired ''privileged account with admin role has no password envelope; run the explicit initialization flow before startup'')))"

text \<open>\<open>initialize_app_context\<close> from the opened database on: \<open>True\<close> when a first admin is needed.  The
  other errors of the check carry a context in front of them, which is left out.\<close>

definition start_services :: "bool appm" where
  "start_services =
     bindE (attempt ensure_privileged_account) (\<lambda>res.
     case res of
       Inr _ \<Rightarrow> bindE load_password_envelopes_from_db (\<lambda>_. ret False)
     | Inl (InitializationRequired _) \<Rightarrow> ret True
     | Inl e \<Rightarrow> fail e)"

text \<open>\<open>apply_restored_login_password\<close>: on a restored database, the first admin (or the first user when
  there is none) gets a new password envelope, and the lock-out records go.\<close>

definition apply_restored_login_password :: "primitives \<Rightarrow> bytes option \<Rightarrow> string \<Rightarrow> unit dbm" where
  "apply_restored_login_password P salt_rnd new_password =
     bindE (gets (\<lambda>s. sort_key (\<lambda>r. if u_role r = format_role RoleAdmin then 0 else 1 :: nat) (users s))) (\<lambda>rows.
     bindE (ok_or (NotFound ''restored database does not contain any user'')
              (case rows of [] \<Rightarrow> None | r # _ \<Rightarrow> Some (u_name r))) (\<lambda>name.
     bindE (lift_result (fresh_envelope P salt_rnd name (str_bytes new_password))) (\<lambda>env.
     bindE (update_users (\<lambda>r. u_name r = name) (\<lambda>_ r. r\<lparr>u_password := Some env\<rparr>)) (\<lambda>_.
     modify (\<lambda>s. s\<lparr>policies := []\<rparr>)))))"

section \<open>The database stays well formed\<close>

lemma user_found_reads [step_intros]:
  "reads_only (user_found msg uid)" "reads_only (require_admin actor)" "reads_only admin_count"
  "reads_only (admin_list_all_users actor)" "reads_only (get_user_profile uid)"
  "reads_only (get_user_profile_by_username name)" "reads_only (resolve_username_for_login_identifier ident)"
  unfolding require_admin_def admin_count_def admin_list_all_users_def get_user_profile_def
    get_user_profile_by_username_def resolve_username_for_login_identifier_def user_found_def
  by (intro step_intros)+

lemma app_part_keeps:
  "keeps (\<lambda>w. P (app_db w)) (user_found msg uid)" "keeps (\<lambda>w. P (app_db w)) (require_admin actor)"
  "keeps (\<lambda>w. P (app_db w)) admin_count" "keeps (\<lambda>w. P (app_db w)) (on_db (user_get_by_id uid))"
  "keeps (\<lambda>w. P (app_db w)) (on_db user_list_all)" "keeps (\<lambda>w. P (app_db w)) (on_db user_list_password_envelopes)"
  "keeps (\<lambda>w. P (app_db w)) (on_db (fetch_optional tbl p))"
  by (intro keeps_reads step_intros)+

lemma admin_service_keeps [step_intros]:
  "keeps (\<lambda>w. db_ok (app_db w)) (admin_create_user P cfg rnd i actor name pw ro)"
  "keeps (\<lambda>w. db_ok (app_db w)) (admin_delete_user actor target)"
  "keeps (\<lambda>w. db_ok (app_db w)) (admin_update_user_role actor target ro)"
  "keeps (\<lambda>w. db_ok (app_db w)) (admin_reset_user_password P cfg rnd actor target pw)"
  "keeps (\<lambda>w. db_ok (app_db w)) (bootstrap_first_admin P cfg rnd i name pw)"
  "keeps (\<lambda>w. db_ok (app_db w)) (update_user_profile P cfg uid upd)"
  "keeps (\<lambda>w. db_ok (app_db w)) (change_master_password P cfg rnd uid pw pw')"
  "keeps (\<lambda>w. db_ok (app_db w)) (update_show_passwords_in_edit uid b)"
  unfolding admin_create_user_def admin_delete_user_def admin_update_user_role_def
    admin_reset_user_password_def bootstrap_first_admin_def update_user_profile_def
    change_master_password_def update_show_passwords_in_edit_def Let_def
  by (intro app_part_keeps on_auth_keeps_db on_db_keeps step_intros)+

lemma startup_keeps [step_intros]:
  "keeps (\<lambda>w. P (app_db w)) load_password_envelopes_from_db"
  "keeps (\<lambda>w. P (app_db w)) ensure_privileged_account"
  unfolding load_password_envelopes_from_db_def ensure_privileged_account_def
  by (intro app_part_keeps on_auth_keeps_db on_db_keeps step_intros)+

end
