(* ===== verification/Vault_Service.thy ===== *)
theory Vault_Service
  imports Audit_Log_Service Crypto
begin

text \<open>
  \<open>services/vault_service.rs\<close>: creating, opening, listing and deleting vaults.  The random draws of
  \<open>create_vault\<close> (the new id, the vault key, the nonce) are arguments.
\<close>

definition VAULT_KEY_LEN :: nat where "VAULT_KEY_LEN = 32"

definition generate_vault_key :: "bytes option \<Rightarrow> app_error + bytes" where
  "generate_vault_key rnd =
     (case rnd of None \<Rightarrow> Inl (Crypto ''vault key generation failed'') | Some k \<Rightarrow> Inr k)"

definition name_detail :: "string \<Rightarrow> rich_text" where
  "name_detail name = [Lit ''{\"name\":\"'', Lit name, Lit ''\"}'']"

definition create_vault ::
  "primitives \<Rightarrow> uuid \<Rightarrow> bytes option \<Rightarrow> bytes option \<Rightarrow> uuid \<Rightarrow> string \<Rightarrow> bytes \<Rightarrow> vault dbm" where
  "create_vault P new_id key_rnd nonce_rnd owner name master_key =
     (if trim name = '''' then fail (Validation ''vault name must not be empty'')
      else
        bindE (require_user owner ''owner user not found'') (\<lambda>u.
        bindE (lift_result (check_permission u VaultCreate Global)) (\<lambda>_.
        let v = \<lparr> vault_id = new_id, owner_user_id = owner, vault_name = name \<rparr> in
        bindE (lift_result (generate_vault_key key_rnd)) (\<lambda>vault_key.
        bindE (lift_result (encrypt P nonce_rnd vault_key master_key)) (\<lambda>payload.
        bindE (vault_create v) (\<lambda>_.
        bindE (vault_update_key_envelope new_id (serialize_envelope payload)) (\<lambda>_.
        bindE (record_event (Some owner) VaultCreated (Some ''vault'') (Some (TargetId new_id))
                 (Some (name_detail name))) (\<lambda>_.
        ret v))))))))"

definition vault_resource :: "uuid \<Rightarrow> accessible_vault \<Rightarrow> resource" where
  "vault_resource requester a =
     VaultRes (owner_user_id (av_vault a) = requester) (av_kind a = DirectShare)
       (av_kind a = TeamShare) (Some (av_role a))"

definition require_access :: "uuid \<Rightarrow> uuid \<Rightarrow> accessible_vault dbm" where
  "require_access uid vid =
     bindE (vault_get_with_permission uid vid) (\<lambda>a. ok_or (Authorization VaultAccessDenied) a)"

text \<open>The owner's envelope is in the vault row, everyone else's in the key shares.\<close>

definition load_envelope :: "uuid \<Rightarrow> uuid \<Rightarrow> accessible_vault \<Rightarrow> bytes dbm" where
  "load_envelope requester vid a =
     (if owner_user_id (av_vault a) = requester
      then bindE (vault_get_key_envelope vid) (\<lambda>e. ok_or (Storage ''missing owner vault key envelope'') e)
      else bindE (vault_get_key_share vid requester) (\<lambda>e. ok_or (Authorization VaultAccessDenied) e))"

definition open_vault_for_user :: "primitives \<Rightarrow> uuid \<Rightarrow> uuid \<Rightarrow> bytes \<Rightarrow> bytes dbm" where
  "open_vault_for_user P requester vid master_key =
     bindE (require_user requester ''requester user not found'') (\<lambda>u.
     bindE (require_access requester vid) (\<lambda>a.
     bindE (lift_result (check_permission u VaultOpen (vault_resource requester a))) (\<lambda>_.
     bindE (load_envelope requester vid a) (\<lambda>env.
     bindE (lift_result (deserialize_envelope env)) (\<lambda>payload.
     bindE (lift_result (decrypt P payload master_key)) (\<lambda>vault_key.
     bindE (record_event (Some requester) VaultOpened (Some ''vault'') (Some (TargetId vid)) None) (\<lambda>_.
     ret vault_key)))))))"

definition open_vault :: "primitives \<Rightarrow> uuid \<Rightarrow> bytes \<Rightarrow> bytes dbm" where
  "open_vault P vid master_key =
     bindE (vault_get_by_id vid) (\<lambda>vo.
     bindE (ok_or (NotFound ''vault not found'') vo) (\<lambda>v.
     open_vault_for_user P (owner_user_id v) vid master_key))"

text \<open>The listings: the user must exist, and \<open>VaultList\<close> is checked.\<close>

definition listing_user :: "uuid \<Rightarrow> user dbm" where
  "listing_user uid =
     bindE (require_user uid ''user not found'') (\<lambda>u.
     bindE (lift_result (check_permission u VaultList Global)) (\<lambda>_. ret u))"

definition list_user_vaults :: "uuid \<Rightarrow> vault list dbm" where
  "list_user_vaults uid =
     bindE (listing_user uid) (\<lambda>_.
     bindE (vault_get_accessible uid) (\<lambda>records. ret (map av_vault records)))"

definition get_vault_access_for_user :: "uuid \<Rightarrow> uuid \<Rightarrow> accessible_vault option dbm" where
  "get_vault_access_for_user uid vid =
     bindE (listing_user uid) (\<lambda>_. vault_get_with_permission uid vid)"

definition list_owned_vaults :: "uuid \<Rightarrow> vault list dbm" where
  "list_owned_vaults uid = bindE (listing_user uid) (\<lambda>_. vault_list_owned uid)"

definition list_shared_vaults :: "uuid \<Rightarrow> vault list dbm" where
  "list_shared_vaults uid = bindE (listing_user uid) (\<lambda>_. vault_list_shared uid)"

definition list_shared_vault_access :: "uuid \<Rightarrow> accessible_vault list dbm" where
  "list_shared_vault_access uid =
     bindE (listing_user uid) (\<lambda>_.
     bindE (vault_get_accessible uid) (\<lambda>records.
     ret (filter (\<lambda>a. owner_user_id (av_vault a) \<noteq> uid) records)))"

definition is_vault_shared_with_others :: "uuid \<Rightarrow> uuid \<Rightarrow> bool dbm" where
  "is_vault_shared_with_others uid vid =
     bindE (listing_user uid) (\<lambda>_.
     bindE (require_access uid vid) (\<lambda>a.
     if owner_user_id (av_vault a) \<noteq> uid then ret False
     else bindE (vault_list_share_user_ids vid) (\<lambda>ids. ret (ids \<noteq> []))))"

definition delete_vault :: "uuid \<Rightarrow> uuid \<Rightarrow> unit dbm" where
  "delete_vault requester vid =
     bindE (require_user requester ''requester user not found'') (\<lambda>u.
     bindE (require_access requester vid) (\<lambda>a.
     bindE (lift_result (check_permission u VaultDelete (vault_resource requester a))) (\<lambda>_.
     bindE (vault_delete vid) (\<lambda>_.
     ignore_error
       (record_event (Some requester) VaultDeleted (Some ''vault'') (Some (TargetId vid)) None)))))"

section \<open>Every operation keeps the database well formed\<close>

lemma vault_service_helpers_read [step_intros]:
  "reads_only (require_access uid vid)" "reads_only (load_envelope uid vid a)" "reads_only (listing_user uid)"
  unfolding require_access_def load_envelope_def listing_user_def by (intro step_intros)+

lemma vault_service_reads [step_intros]:
  "reads_only (list_user_vaults uid)" "reads_only (get_vault_access_for_user uid vid)"
  "reads_only (list_owned_vaults uid)" "reads_only (list_shared_vaults uid)"
  "reads_only (list_shared_vault_access uid)" "reads_only (is_vault_shared_with_others uid vid)"
  unfolding list_user_vaults_def get_vault_access_for_user_def list_owned_vaults_def
    list_shared_vaults_def list_shared_vault_access_def is_vault_shared_with_others_def
  by (intro step_intros)+

lemmas keeps_of_reads = keeps_reads [OF require_user_reads] keeps_reads [OF vault_service_helpers_read(1)]
  keeps_reads [OF vault_service_helpers_read(2)] keeps_reads [OF vault_queries_read(1)]

lemma vault_service_keeps [step_intros]:
  "keeps db_ok (create_vault P i kr nr owner name mk)"
  "keeps db_ok (open_vault_for_user P uid vid mk)" "keeps db_ok (open_vault P vid mk)"
  "keeps db_ok (delete_vault uid vid)"
proof -
  show "keeps db_ok (create_vault P i kr nr owner name mk)"
    unfolding create_vault_def Let_def by (intro step_intros keeps_of_reads)
  show "keeps db_ok (open_vault_for_user P uid vid mk)" for uid
    unfolding open_vault_for_user_def by (intro step_intros keeps_of_reads)
  then show "keeps db_ok (open_vault P vid mk)"
    unfolding open_vault_def by (intro step_intros keeps_of_reads)
  show "keeps db_ok (delete_vault uid vid)"
    unfolding delete_vault_def by (intro step_intros keeps_of_reads)
qed

end
