(* ===== verification/Vault_Properties.thy ===== *)
theory Vault_Properties
  imports Vault_Service
begin

text \<open>
  What opening, creating and deleting a vault achieve: the specification \<open>envelope_for\<close> says which
  stored envelope a user's access goes through, and opening is shown to be exactly the decryption
  of that one.
\<close>

definition envelope_for :: "db \<Rightarrow> uuid \<Rightarrow> uuid \<Rightarrow> bytes option" where
  "envelope_for s uid vid =
     (case first_row (\<lambda>v. v_id v = vid \<and> live v) (vaults s) of
        None \<Rightarrow> None
      | Some v \<Rightarrow>
          if v_owner v = uid then v_key v
          else map_option k_envelope (first_row (\<lambda>k. k_vault k = vid \<and> k_user k = uid) (shares s)))"

text \<open>The envelope is the sealing of \<open>key\<close> under \<open>mk\<close>, for some nonce.\<close>

definition sealed_as :: "primitives \<Rightarrow> bytes \<Rightarrow> bytes \<Rightarrow> bytes \<Rightarrow> bool" where
  "sealed_as P mk key env \<longleftrightarrow>
     (\<exists>q. length (nonce q) = NONCE_LEN \<and> encrypt P (Some (nonce q)) key mk = Inr q \<and>
          env = serialize_envelope q)"

lemma live_vault_row:
  assumes "db_ok s" and "v \<in> set (vaults s)" and "live v" and "v_id v = vid"
  shows "first_row (\<lambda>v. v_id v = vid \<and> live v) (vaults s) = Some v"
    and "first_row (\<lambda>v. v_id v = vid) (vaults s) = Some v"
proof -
  have d: "distinct (map v_id (vaults s))" using db_okD(2) [OF assms(1)] by (simp add: vaults_ok_def)
  show "first_row (\<lambda>v. v_id v = vid \<and> live v) (vaults s) = Some v"
    by (rule first_row_unique [OF d assms(2), where x = vid]) (use assms in auto)
  show "first_row (\<lambda>v. v_id v = vid) (vaults s) = Some v"
    by (rule first_row_unique [OF d assms(2), where x = vid]) (use assms in auto)
qed

lemma share_row_found:
  assumes "db_ok s" and "k \<in> set (shares s)" and "k_vault k = vid" and "k_user k = uid"
  shows "first_row (\<lambda>k. k_vault k = vid \<and> k_user k = uid) (shares s) = Some k"
proof -
  have d: "distinct (map share_key (shares s))" using db_okD(6) [OF assms(1)] by (simp add: shares_ok_def)
  show ?thesis
    by (rule first_row_unique [OF d assms(2), where x = "(vid, uid)"])
      (use assms in \<open>auto simp: share_key_def\<close>)
qed

lemma require_access_returns:
  "require_access uid vid s = (Inr a, s') \<longleftrightarrow>
     s' = s \<and> (\<exists>w. access_row s uid vid = Some w \<and> row_to_accessible_vault w = Inr a)"
  by (auto simp: require_access_def bindE_returns ok_or_returns get_with_permission_returns
      split: option.splits)

lemma require_access_denied:
  assumes "\<not> has_access s uid vid"
  shows "require_access uid vid s = (Inl (Authorization VaultAccessDenied), s)"
proof -
  from assms have "vault_get_with_permission uid vid s = (Inr None, s)"
    by (simp add: access_row_none [symmetric] vault_get_with_permission_def access_row_def
        bindE_run run_simps)
  then show ?thesis by (simp add: require_access_def bindE_run run_simps)
qed

text \<open>What the access record of a user says of the vault.\<close>

lemma access_cases:
  assumes ok: "db_ok s" and "has_access s uid vid"
  obtains (owner) v a where "v \<in> set (vaults s)" "live v" "v_id v = vid" "v_owner v = uid"
      "require_access uid vid s = (Inr a, s)" "owner_user_id (av_vault a) = uid" "av_kind a = Owner"
      "av_role a = ShareAdmin"
  | (shared) v k a where "v \<in> set (vaults s)" "live v" "v_id v = vid" "v_owner v \<noteq> uid"
      "k \<in> set (shares s)" "k_vault k = vid" "k_user k = uid"
      "require_access uid vid s = (Inr a, s)" "owner_user_id (av_vault a) \<noteq> uid"
      "av_kind a = (case k_team k of None \<Rightarrow> DirectShare | Some _ \<Rightarrow> TeamShare)"
      "share_role_to_db (av_role a) = k_role k"
proof -
  from assms(2) obtain v where v: "v \<in> set (vaults s)" "v_id v = vid" "live v"
    and who: "v_owner v = uid \<or> (\<exists>k\<in>set (shares s). k_vault k = vid \<and> k_user k = uid)"
    unfolding has_access_def by blast
  show thesis
  proof (cases "v_owner v = uid")
    case True
    have row: "access_row s uid vid = Some (owner_view v)"
      by (rule access_row_owner [OF ok v(1,3,2) True])
    obtain a where a: "row_to_accessible_vault (owner_view v) = Inr a"
      using view_parses [OF ok owner_row_mem [OF v(1,3)]] by blast
    then have "owner_user_id (av_vault a) = uid" "av_kind a = Owner" "av_role a = ShareAdmin"
      using True by (auto simp: row_to_accessible_vault_def owner_view_def share_role_from_db_def
          access_kind_from_db_def)
    with owner v True row a show thesis by (simp add: require_access_returns)
  next
    case False
    with who obtain k where k: "k \<in> set (shares s)" "k_vault k = vid" "k_user k = uid" by blast
    have row: "access_row s uid vid = Some (share_view v k)"
      by (rule access_row_share [OF ok v(1,3,2) False k])
    have "share_view v k \<in> set (accessible_vaults s)"
      using v k False by (intro share_row_mem) auto
    then obtain a where a: "row_to_accessible_vault (share_view v k) = Inr a"
      using view_parses [OF ok] by blast
    then have "owner_user_id (av_vault a) \<noteq> uid" 
      "av_kind a = (case k_team k of None \<Rightarrow> DirectShare | Some _ \<Rightarrow> TeamShare)"
      using False by (auto simp: row_to_accessible_vault_def share_view_def access_kind_from_db_def
          split: option.splits)
    moreover have "share_role_to_db (av_role a) = k_role k"
      using a share_role_db.dec_canonical
      by (auto simp: row_to_accessible_vault_def share_view_def split: option.splits)
    ultimately show thesis using shared v False k row a by (simp add: require_access_returns)
  qed
qed

lemma check_open_ok:
  assumes "db_ok s" and "has_access s uid vid" and "require_access uid vid s = (Inr a, s')"
  shows "check_permission u VaultOpen (vault_resource uid a) = Inr ()"
  using assms(1,2)
proof (cases rule: access_cases)
  case (owner v b)
  with assms(3) show ?thesis by (simp add: check_permission_def vault_resource_def)
next
  case (shared v k b)
  with assms(3) have "b = a" by simp
  with shared show ?thesis
    by (cases "k_team k") (simp_all add: check_permission_def vault_resource_def)
qed

lemma load_envelope_for:
  assumes ok: "db_ok s" and acc: "has_access s uid vid" and ra: "require_access uid vid s = (Inr a, s')"
  shows "load_envelope uid vid a s = (Inr env, s2) \<longleftrightarrow> envelope_for s uid vid = Some env \<and> s2 = s"
  using ok acc
proof (cases rule: access_cases)
  case (owner v b)
  with ra have "b = a" by simp
  with owner show ?thesis
    using live_vault_row [OF ok owner(1,2,3)]
    by (auto simp: load_envelope_def envelope_for_def vault_get_key_envelope_def bindE_returns
        ok_or_returns ret_returns run_simps split: option.splits)
next
  case (shared v k b)
  with ra have "b = a" by simp
  with shared show ?thesis
    using live_vault_row(1) [OF ok shared(1,2,3)] share_row_found [OF ok shared(5,6,7)]
    by (auto simp: load_envelope_def envelope_for_def vault_get_key_share_def bindE_returns
        ok_or_returns ret_returns run_simps split: option.splits)
qed

lemma envelope_for_access: "db_ok s \<Longrightarrow> envelope_for s uid vid = Some env \<Longrightarrow> has_access s uid vid"
  by (auto simp: envelope_for_def has_access_def split: option.splits if_splits dest!: first_row_SomeD)

lemma open_returns_iff:
  assumes ok: "db_ok s" and user: "uid \<in> set (user_ids s)"
  shows "(\<exists>s'. open_vault_for_user P uid vid mk s = (Inr key, s')) \<longleftrightarrow>
     (\<exists>env q. envelope_for s uid vid = Some env \<and> deserialize_envelope env = Inr q \<and> decrypt P q mk = Inr key)"
    (is "?lhs \<longleftrightarrow> ?rhs")
proof
  assume ?lhs
  then obtain s' u a env q where
    "require_access uid vid s = (Inr a, s)" "load_envelope uid vid a s = (Inr env, s)"
    "deserialize_envelope env = Inr q" "decrypt P q mk = Inr key"
    unfolding open_vault_for_user_def returns_iff require_user_returns require_access_returns
    by (metis reads_only_run vault_service_helpers_read(2))
  moreover have "has_access s uid vid"
    using calculation(1) access_row_none [of s uid vid] by (auto simp: require_access_returns)
  ultimately show ?rhs using load_envelope_for [OF ok] by blast
next
  assume ?rhs
  then obtain env q where env: "envelope_for s uid vid = Some env" "deserialize_envelope env = Inr q"
    "decrypt P q mk = Inr key" by blast
  have acc: "has_access s uid vid" by (rule envelope_for_access [OF ok env(1)])
  obtain u where u: "user_get_by_id uid s = (Inr (Some u), s)" using user_exists_reads [OF ok user] by blast
  obtain a where a: "require_access uid vid s = (Inr a, s)" using ok acc by (cases rule: access_cases)
  have "load_envelope uid vid a s = (Inr env, s)" using load_envelope_for [OF ok acc a] env(1) by blast
  moreover obtain s' where "record_event (Some uid) VaultOpened (Some ''vault'') (Some (TargetId vid)) None s = (Inr (), s')"
    using record_event_ok user by (metis ref_in_simps(2))
  ultimately show ?lhs
    using u a env check_open_ok [OF ok acc a, of u]
    by (auto simp: open_vault_for_user_def returns_iff require_user_returns)
qed

lemma open_state: "open_vault_for_user P uid vid mk s = (r, s') \<Longrightarrow> same_but_audit s s'"
proof -
  have "moves same_but_audit (open_vault_for_user P uid vid mk)"
    unfolding open_vault_for_user_def record_event_def
    by (intro audit_only.moves_bindE audit_only.moves_pure audit_append_only audit_only.moves_of_reads step_intros)
  then show "open_vault_for_user P uid vid mk s = (r, s') \<Longrightarrow> same_but_audit s s'"
    unfolding moves_def by (metis snd_conv)
qed

lemma seal_opens_iff:
  assumes "aead_laws P"
  shows "(\<exists>q. deserialize_envelope env = Inr q \<and> decrypt P q mk = Inr key) \<longleftrightarrow> sealed_as P mk key env"
proof
  assume "\<exists>q. deserialize_envelope env = Inr q \<and> decrypt P q mk = Inr key"
  then obtain q where q: "ok_of (deserialize_envelope env) = Some q" "decrypt P q mk = Inr key"
    by (auto simp: ok_of_Some)
  show "sealed_as P mk key env"
    using vault_envelope.open_seal [OF assms q] vault_envelope.dec_good [OF q(1)]
    unfolding sealed_as_def by blast
next
  assume "sealed_as P mk key env"
  then obtain q where q: "length (nonce q) = NONCE_LEN" "encrypt P (Some (nonce q)) key mk = Inr q"
    "env = serialize_envelope q" unfolding sealed_as_def by blast
  show "\<exists>q. deserialize_envelope env = Inr q \<and> decrypt P q mk = Inr key"
    using vault_envelope.seal_open [OF assms q(1,2)] q(3) unfolding ok_of_Some by blast
qed

lemma open_iff_sealed:
  assumes "aead_laws P" and "db_ok s" and "uid \<in> set (user_ids s)"
  shows "(\<exists>s'. open_vault_for_user P uid vid mk s = (Inr key, s')) \<longleftrightarrow>
     (\<exists>env. envelope_for s uid vid = Some env \<and> sealed_as P mk key env)"
  unfolding open_returns_iff [OF assms(2,3)] seal_opens_iff [OF assms(1), symmetric] by blast

text \<open>C1. A vault opens for a user with a master key exactly when the envelope stored for that user
  (the vault's own for the owner, the share's for anyone else) is the sealing of the returned key
  under that master key; and opening changes nothing but the audit log.\<close>

theorem open_vault_exactly_the_sealed_key:
  assumes "aead_laws P" and "db_ok s" and "uid \<in> set (user_ids s)"
  shows "((\<exists>s'. open_vault_for_user P uid vid mk s = (Inr key, s')) \<longleftrightarrow>
            (\<exists>env. envelope_for s uid vid = Some env \<and> sealed_as P mk key env)) \<and>
         same_but_audit s (snd (open_vault_for_user P uid vid mk s))"
proof -
  have "same_but_audit s (snd (open_vault_for_user P uid vid mk s))"
    by (rule open_state [where r = "fst (open_vault_for_user P uid vid mk s)"]) simp
  with open_iff_sealed [OF assms] show ?thesis by blast
qed

text \<open>Without an owner row or a share, opening a live or deleted vault is refused with
  \<open>VaultAccessDenied\<close> whatever the master key and whatever the user's global role, and nothing
  is written, not even an audit row.\<close>

theorem open_vault_denied_without_access:
  assumes "db_ok s" and "uid \<in> set (user_ids s)" and "\<not> has_access s uid vid"
  shows "open_vault_for_user P uid vid mk s = (Inl (Authorization VaultAccessDenied), s)"
proof -
  obtain u where "user_get_by_id uid s = (Inr (Some u), s)"
    using user_exists_reads assms(1,2) by blast
  then have "require_user uid ''requester user not found'' s = (Inr u, s)"
    by (simp add: require_user_returns)
  then show ?thesis
    unfolding open_vault_for_user_def
    by (simp add: bindE_run require_access_denied [OF assms(3)])
qed

section \<open>Creating a vault\<close>

definition created_row :: "uuid \<Rightarrow> uuid \<Rightarrow> string \<Rightarrow> bytes \<Rightarrow> vault_row" where
  "created_row new_id owner name env =
     \<lparr> v_id = new_id, v_owner = owner, v_name = name, v_key = Some env, v_version = 2, v_deleted = None \<rparr>"

lemma update_key_of_new:
  assumes "new_id \<notin> set (map v_id vs)"
  shows "update_rows (\<lambda>r. v_id r = new_id \<and> live r) (\<lambda>r. r\<lparr>v_key := Some env, v_version := v_version r + 1\<rparr>)
           (vs @ [new_vault_row \<lparr> vault_id = new_id, owner_user_id = owner, vault_name = name \<rparr>]) =
         vs @ [created_row new_id owner name env]"
proof -
  have "map (\<lambda>r. if v_id r = new_id \<and> live r then r\<lparr>v_key := Some env, v_version := v_version r + 1\<rparr> else r) vs = vs"
    using assms by (intro map_idI) auto
  then show ?thesis by (simp add: update_rows_def new_vault_row_def created_row_def live_def)
qed

lemma create_vault_effect:
  assumes "create_vault P new_id kr nr owner name mk s = (Inr v, s')"
  shows "\<exists>key q. kr = Some key \<and> encrypt P nr key mk = Inr q \<and> trim name \<noteq> [] \<and>
     v = \<lparr> vault_id = new_id, owner_user_id = owner, vault_name = name \<rparr> \<and>
     new_id \<notin> set (vault_ids s) \<and> owner \<in> set (user_ids s) \<and>
     same_but_audit (s\<lparr>vaults := vaults s @ [created_row new_id owner name (serialize_envelope q)]\<rparr>) s'"
proof -
  let ?v = "\<lparr> vault_id = new_id, owner_user_id = owner, vault_name = name \<rparr>"
  obtain key q s1 s2 where n: "trim name \<noteq> []"
    and kq: "generate_vault_key kr = Inr key" "encrypt P nr key mk = Inr q"
    and run: "vault_create ?v s = (Inr (), s1)"
      "vault_update_key_envelope new_id (serialize_envelope q) s1 = (Inr (), s2)"
      "record_event (Some owner) VaultCreated (Some ''vault'') (Some (TargetId new_id)) (Some (name_detail name)) s2 = (Inr (), s')"
    and v: "v = ?v"
    using assms
    by (auto simp: create_vault_def returns_iff require_user_returns Let_def split: if_splits)
  have s1: "s1 = s\<lparr>vaults := vaults s @ [new_vault_row ?v]\<rparr>" "new_id \<notin> set (vault_ids s)" "owner \<in> set (user_ids s)"
    using run(1) by (auto simp: vault_create_def exec_sql_returns insert_vault_row_def new_vault_row_def split: if_splits)
  then have "s2 = s\<lparr>vaults := vaults s @ [created_row new_id owner name (serialize_envelope q)]\<rparr>"
    using run(2) update_key_of_new [of new_id "vaults s" "serialize_envelope q" owner name]
    by (auto simp: vault_update_key_envelope_def require_rows_def returns_iff update_vaults_def vault_ids_def)
  with record_event_same [OF run(3)] n kq v s1 show ?thesis
    by (auto simp: generate_vault_key_def split: option.splits)
qed

text \<open>A vault that \<open>create_vault\<close> returned opens for its owner with the master key it was created
  with and yields the vault key that was drawn; nobody else has access to it; and its key version
  is 2, the insert counting 1 and the envelope update one more.\<close>

theorem created_vault_opens_for_its_owner_only:
  assumes laws: "aead_laws P" and ok: "db_ok s" and nonce: "length n = NONCE_LEN"
    and run: "create_vault P new_id (Some key) (Some n) owner name mk s = (Inr v, s')"
  shows "(\<exists>t. open_vault_for_user P owner (vault_id v) mk s' = (Inr key, t)) \<and>
         (\<exists>t. open_vault P (vault_id v) mk s' = (Inr key, t)) \<and>
         (\<forall>uid. has_access s' uid (vault_id v) \<longleftrightarrow> uid = owner) \<and>
         (\<exists>a. vault_get_with_permission owner (vault_id v) s' = (Inr (Some a), s') \<and> av_key_version a = 2)"
proof -
  from create_vault_effect [OF run] obtain q where q: "encrypt P (Some n) key mk = Inr q"
    and v: "vault_id v = new_id" "owner_user_id v = owner" and fresh: "new_id \<notin> set (vault_ids s)" "owner \<in> set (user_ids s)"
    and same: "same_but_audit (s\<lparr>vaults := vaults s @ [created_row new_id owner name (serialize_envelope q)]\<rparr>) s'"
    by auto
  let ?r = "created_row new_id owner name (serialize_envelope q)"
  have ok': "db_ok s'" by (rule keeps_run [OF vault_service_keeps(1) run ok])
  have vs': "vaults s' = vaults s @ [?r]" "shares s' = shares s" "users s' = users s"
    using same by (simp_all add: same_but_audit_def)
  have r: "?r \<in> set (vaults s')" "live ?r" "v_id ?r = new_id" "v_owner ?r = owner"
    by (simp_all add: vs' created_row_def live_def)
  have no_share: "k_vault k \<noteq> new_id" if "k \<in> set (shares s')" for k
    using db_okD(6) [OF ok] fresh(1) that by (auto simp: shares_ok_def vs')
  have only: "has_access s' uid new_id \<longleftrightarrow> uid = owner" for uid
  proof -
    have "v_owner w = owner" if "w \<in> set (vaults s')" "v_id w = new_id" for w
      using that fresh(1) r(4) by (auto simp: vs' vault_ids_def)
    then show ?thesis using r no_share unfolding has_access_def by metis
  qed
  have env: "envelope_for s' owner new_id = Some (serialize_envelope q)"
    using live_vault_row(1) [OF ok' r(1,2,3)] by (simp add: envelope_for_def created_row_def)
  have "nonce q = n" using q by (simp add: encrypt_Inr)
  then have "sealed_as P mk key (serialize_envelope q)" using q nonce by (auto simp: sealed_as_def)
  then obtain t where t: "open_vault_for_user P owner new_id mk s' = (Inr key, t)"
    using open_iff_sealed [OF laws ok', of owner new_id mk key] env fresh(2)
    by (auto simp: user_ids_def vs')
  have "vault_get_by_id new_id s' = (Inr (Some (row_to_vault ?r)), s')"
    using live_vault_row(1) [OF ok' r(1,2,3)]
    by (simp add: vault_get_by_id_def bindE_run run_simps)
  with t have "open_vault P new_id mk s' = (Inr key, t)"
    by (simp add: open_vault_def bindE_run run_simps row_to_vault_def r(4))
  moreover have "access_row s' owner new_id = Some (owner_view ?r)"
    by (rule access_row_owner [OF ok' r])
  then have "\<exists>a. vault_get_with_permission owner new_id s' = (Inr (Some a), s') \<and> av_key_version a = 2"
    by (auto simp: get_with_permission_returns row_to_accessible_vault_def owner_view_def created_row_def
        share_role_from_db_def access_kind_from_db_def)
  ultimately show ?thesis using t only v by blast
qed

section \<open>Deleting a vault\<close>

text \<open>Who may delete: the owner, the holder of an admin share, and a global admin who has any
  access to the vault.\<close>

definition may_delete :: "db \<Rightarrow> uuid \<Rightarrow> uuid \<Rightarrow> bool" where
  "may_delete s uid vid \<longleftrightarrow>
     (\<exists>v\<in>set (vaults s). v_id v = vid \<and> live v \<and>
        (v_owner v = uid \<or>
         (\<exists>k\<in>set (shares s). k_vault k = vid \<and> k_user k = uid \<and>
            (k_role k = ''admin'' \<or> (\<exists>u\<in>set (users s). u_id u = uid \<and> u_role u = ''admin'')))))"

definition trash_vault :: "uuid \<Rightarrow> db \<Rightarrow> db" where
  "trash_vault vid s =
     s\<lparr>vaults := update_rows (\<lambda>r. v_id r = vid \<and> live r) (\<lambda>r. r\<lparr>v_deleted := Some (clock s)\<rparr>) (vaults s),
       secrets := update_rows (\<lambda>i. si_vault i = vid \<and> si_deleted i = None) (\<lambda>i. i\<lparr>si_deleted := Some (clock s)\<rparr>) (secrets s)\<rparr>"

lemma vault_delete_run:
  assumes ok: "db_ok s"
  shows "vault_delete vid s =
     (if \<exists>v\<in>set (vaults s). v_id v = vid \<and> live v then (Inr (), trash_vault vid s)
      else (Inl (NotFound ''vault not found''), s))"
proof -
  have "\<forall>i\<in>set (secrets s). secret_check i" using db_okD(3) [OF ok] by (simp add: secrets_ok_def)
  then have "\<forall>i\<in>set (update_rows p (\<lambda>i. i\<lparr>si_deleted := t\<rparr>) (secrets s)). secret_check i" for p t
    by (auto simp: table_simps secret_check_def)
  then show ?thesis
    by (auto simp: vault_delete_def transaction_def bindE_run run_simps update_vaults_def update_secrets_def
        trash_vault_def table_simps(2,3) Let_def)
qed

lemma trashed_not_live:
  assumes "v \<in> set (vaults (trash_vault vid s))"
  shows "v_id v \<noteq> vid \<or> \<not> live v"
proof -
  from assms have "v \<in> set (update_rows (\<lambda>r. v_id r = vid \<and> live r) (\<lambda>r. r\<lparr>v_deleted := Some (clock s)\<rparr>) (vaults s))"
    by (simp add: trash_vault_def)
  then show ?thesis by (cases rule: update_rowsE) (simp_all add: live_def)
qed

lemma may_delete_access: "may_delete s uid vid \<Longrightarrow> has_access s uid vid"
  by (auto simp: may_delete_def has_access_def)

lemma role_admin_iff:
  assumes "db_ok s" and "user_get_by_id uid s = (Inr (Some u), s)"
  shows "role u = RoleAdmin \<longleftrightarrow> (\<exists>r\<in>set (users s). u_id r = uid \<and> u_role r = ''admin'')"
proof -
  from assms(2) obtain r where r: "r \<in> set (users s)" "u_id r = uid" "row_to_user r = Inr u"
    by (auto simp: user_get_by_id_returns dest: first_row_SomeD)
  have d: "distinct (map u_id (users s))" using db_okD(1) [OF assms(1)] by (simp add: users_ok_def)
  have "u_role r = format_role (role u)" using row_to_user_fields [OF r(3)] by simp
  then have "role u = RoleAdmin \<longleftrightarrow> u_role r = ''admin''" by (cases "role u") simp_all
  with r show ?thesis using unique_key_row [OF d] by metis
qed

lemma delete_check_iff:
  assumes ok: "db_ok s" and u: "user_get_by_id uid s = (Inr (Some u), s)"
    and acc: "has_access s uid vid" and ra: "require_access uid vid s = (Inr a, s)"
  shows "check_permission u VaultDelete (vault_resource uid a) = Inr () \<longleftrightarrow> may_delete s uid vid"
  using ok acc
proof (cases rule: access_cases)
  case (owner v b)
  with ra have "b = a" by simp
  with owner show ?thesis by (auto simp: check_permission_def vault_resource_def may_delete_def)
next
  case (shared v k b)
  with ra have ba: "b = a" by simp
  have dv: "distinct (map v_id (vaults s))" and dk: "distinct (map share_key (shares s))"
    using db_okD(2,6) [OF ok] by (simp_all add: vaults_ok_def shares_ok_def)
  have kk: "k' = k" if "k' \<in> set (shares s)" "k_vault k' = vid" "k_user k' = uid" for k'
    using unique_key_row [OF dk that(1) shared(5)] that shared(6,7) by (simp add: share_key_def)
  have vv: "v' = v" if "v' \<in> set (vaults s)" "v_id v' = vid" for v'
    using unique_key_row [OF dv that(1) shared(1)] that shared(3) by simp
  have "may_delete s uid vid \<longleftrightarrow> k_role k = ''admin'' \<or> (\<exists>u\<in>set (users s). u_id u = uid \<and> u_role u = ''admin'')"
    unfolding may_delete_def using shared(1-7) kk vv by metis
  moreover have "can_admin (av_role a) \<longleftrightarrow> k_role k = ''admin''"
    using shared(11) ba by (cases "av_role a") auto
  ultimately show ?thesis
    using shared(9) ba role_admin_iff [OF ok u]
    by (auto simp: check_permission_def vault_resource_def role_admits_def)
qed

text \<open>C11. Deleting a vault succeeds exactly for its owner, the holders of an admin share and the
  global admins who hold some share; it then moves the vault and its live secrets to the trash and
  leaves every other row as it was, so that no user has access any more.  A refused deletion
  changes nothing.  (The comment of the trait says "permanently": the rows stay, and restoring one of
  the secrets from the trash brings the vault back.)\<close>

theorem delete_vault_specification:
  assumes ok: "db_ok s" and user: "uid \<in> set (user_ids s)" and run: "delete_vault uid vid s = (r, s')"
  shows "(r = Inr () \<longleftrightarrow> may_delete s uid vid) \<and>
         (may_delete s uid vid \<longrightarrow> same_but_audit (trash_vault vid s) s' \<and> (\<forall>w. \<not> has_access s' w vid)) \<and>
         (\<not> may_delete s uid vid \<longrightarrow> s' = s)"
proof -
  obtain u where u: "user_get_by_id uid s = (Inr (Some u), s)" using user_exists_reads [OF ok user] by blast
  then have ru: "require_user uid ''requester user not found'' s = (Inr u, s)" by (simp add: require_user_returns)
  show ?thesis
  proof (cases "has_access s uid vid")
    case False
    then have "delete_vault uid vid s = (Inl (Authorization VaultAccessDenied), s)"
      unfolding delete_vault_def by (simp add: bindE_run ru require_access_denied)
    with run False show ?thesis by (auto dest: may_delete_access)
  next
    case acc: True
    obtain a where a: "require_access uid vid s = (Inr a, s)" using ok acc by (cases rule: access_cases)
    have ex: "\<exists>v\<in>set (vaults s). v_id v = vid \<and> live v" using acc by (auto simp: has_access_def)
    show ?thesis
    proof (cases "check_permission u VaultDelete (vault_resource uid a)")
      case (Inl e)
      then have "\<not> may_delete s uid vid" using delete_check_iff [OF ok u acc a] by simp
      moreover have "delete_vault uid vid s = (Inl e, s)"
        unfolding delete_vault_def by (simp add: bindE_run ru a run_simps Inl)
      ultimately show ?thesis using run by auto
    next
      case (Inr x)
      then have may: "may_delete s uid vid" using delete_check_iff [OF ok u acc a] by simp
      let ?ev = "record_event (Some uid) VaultDeleted (Some ''vault'') (Some (TargetId vid)) None"
      have "delete_vault uid vid s = ignore_error ?ev (trash_vault vid s)"
        unfolding delete_vault_def using Inr ex by (simp add: bindE_run ru a run_simps vault_delete_run [OF ok])
      then have res: "r = Inr ()" "s' = snd (?ev (trash_vault vid s))" using run by (simp_all add: ignore_error_run)
      then have same: "same_but_audit (trash_vault vid s) s'"
        using record_event_same by (metis prod.collapse)
      have "\<not> has_access (trash_vault vid s) w vid" for w
        using trashed_not_live unfolding has_access_def by blast
      then have "\<not> has_access s' w vid" for w using same_but_audit_access(2) [OF same] by simp
      with may res(1) same show ?thesis by simp
    qed
  qed
qed

end
