(* ===== verification/Admin_Properties.thy ===== *)
theory Admin_Properties
  imports Admin_Service Vault_Properties
begin

text \<open>
  What the operations on accounts guarantee: there is always an admin, an account that was created
  logs in (after a restart too), an e-mail address changes only against the password; and what a
  password change leaves behind.
\<close>

section \<open>Reading users\<close>

lemma user_found_returns:
  "user_found msg uid w = (Inr u, w') \<longleftrightarrow> w' = w \<and> user_get_by_id uid (app_db w) = (Inr (Some u), app_db w)"
proof -
  have "d = app_db w" if "user_get_by_id uid (app_db w) = (Inr (Some u), d)" for d
    using that by (rule reads_only_run [OF user_queries_read(1)])
  then show ?thesis by (auto simp: user_found_def returns_iff on_db_returns)
qed

definition admins :: "db \<Rightarrow> user_row list" where
  "admins s = filter (\<lambda>r. u_role r = ''admin'') (users s)"

lemma require_admin_returns:
  assumes "db_ok (app_db w)"
  shows "require_admin actor w = (Inr u, w') \<longleftrightarrow>
     w' = w \<and> user_get_by_id actor (app_db w) = (Inr (Some u), app_db w) \<and>
     (\<exists>r\<in>set (admins (app_db w)). u_id r = actor)"
  using role_admin_iff [OF assms]
  by (auto simp: require_admin_def returns_iff user_found_returns check_permission_def admins_def split: if_splits)

lemma admin_count_run:
  assumes "db_ok (app_db w)"
  shows "admin_count w = (Inr (length (admins (app_db w))), w)"
proof -
  let ?rows = "sort_key u_name (users (app_db w))"
  have "\<forall>r\<in>set ?rows. \<exists>u. row_to_user r = Inr u"
    using db_okD(1) [OF assms] row_to_user_ok by (simp add: users_ok_def)
  then obtain g where g: "\<forall>r\<in>set ?rows. row_to_user r = Inr (g r)" by metis
  have adm: "role (g r) = RoleAdmin \<longleftrightarrow> u_role r = ''admin''" if "r \<in> set ?rows" for r
    using row_to_user_fields [of r "g r"] g that by (cases "role (g r)") auto
  have "user_list_all (app_db w) = (Inr (map g ?rows), app_db w)"
    using g by (simp add: user_list_all_def bindE_run run_simps)
  moreover have "length (filter (\<lambda>u. role u = RoleAdmin) (map g ?rows)) = length (admins (app_db w))"
  proof -
    have "filter (\<lambda>u. role u = RoleAdmin) (map g ?rows) = map g (filter (\<lambda>r. u_role r = ''admin'') ?rows)"
      unfolding filter_map comp_def using adm by (intro arg_cong [where f = "map g"] filter_cong) auto
    moreover have "filter (\<lambda>r. u_role r = ''admin'') ?rows = sort_key u_name (admins (app_db w))"
      by (simp add: admins_def filter_sort)
    ultimately show ?thesis by simp
  qed
  ultimately show ?thesis by (simp add: admin_count_def bindE_run on_db_run run_simps)
qed

text \<open>With two admins, one of them is not the target.\<close>

lemma another_admin:
  assumes ok: "db_ok s" and "1 < length (admins s)"
  shows "\<exists>r\<in>set (admins s). u_id r \<noteq> x"
proof (rule ccontr)
  assume "\<not> (\<exists>r\<in>set (admins s). u_id r \<noteq> x)"
  then have all: "u_id r = x" if "r \<in> set (admins s)" for r using that by blast
  have d: "distinct (map u_id (admins s))"
    using db_okD(1) [OF ok] by (simp add: users_ok_def admins_def distinct_map_filter)
  have "set (map u_id (admins s)) \<subseteq> {x}" using all by auto
  then have "card (set (map u_id (admins s))) \<le> 1" using card_mono [of "{x}"] by fastforce
  then show False using distinct_card [OF d] assms(2) by simp
qed

section \<open>The last admin\<close>

lemma user_delete_users:
  "user_delete uid s = (r, s') \<Longrightarrow> users s' = users s \<or> users s' = delete_rows (\<lambda>u. u_id u = uid) (users s)"
  by (auto simp: user_delete_def transaction_def exec_sql_def delete_user_row_def delete_logins_of_def cascade_user_def
      bindE_run run_simps split: sum.splits if_splits prod.splits)

lemma user_update_role_users:
  "user_update_role uid ro s = (r, s') \<Longrightarrow> users s' = users s \<or>
     users s' = update_rows (\<lambda>r. u_id r = uid) (\<lambda>r. r\<lparr>u_role := format_role ro, u_updated := Some (clock s)\<rparr>) (users s)"
  by (auto simp: user_update_role_def require_rows_def update_users_def bindE_run run_simps Let_def
      split: sum.splits if_splits prod.splits)

lemma admin_survives_delete:
  assumes "r \<in> set (admins s)" and "u_id r \<noteq> uid" and "user_delete uid s = (x, s')"
  shows "admins s' \<noteq> []"
proof -
  have "r \<in> set (users s')"
    using user_delete_users [OF assms(3)] assms(1,2) by (auto simp: admins_def set_delete_rows)
  then have "r \<in> set (admins s')" using assms(1) by (simp add: admins_def)
  then show ?thesis by auto
qed

lemma admin_survives_role:
  assumes "r \<in> set (admins s)" and "u_id r \<noteq> uid \<or> ro = RoleAdmin" and "user_update_role uid ro s = (x, s')"
  shows "admins s' \<noteq> []"
proof -
  let ?f = "\<lambda>r. r\<lparr>u_role := format_role ro, u_updated := Some (clock s)\<rparr>"
  have r: "r \<in> set (users s)" "u_role r = ''admin''" using assms(1) by (simp_all add: admins_def)
  from user_update_role_users [OF assms(3)] have "\<exists>q\<in>set (users s'). u_role q = ''admin''"
  proof
    assume us: "users s' = update_rows (\<lambda>r. u_id r = uid) ?f (users s)"
    have mem: "(if u_id r = uid then ?f r else r) \<in> set (users s')"
      unfolding us set_update_rows using r(1) by (rule imageI)
    have "u_role (if u_id r = uid then ?f r else r) = ''admin''" using assms(2) r(2) by auto
    from this mem show ?thesis by (rule bexI [where x = "if u_id r = uid then ?f r else r"])
  next
    assume "users s' = users s"
    with r show ?thesis by auto
  qed
  then show ?thesis by (auto simp: admins_def filter_empty_conv)
qed

lemma record_keeps_admins: "admins (app_db (snd (on_db (record_event a b c d e) w))) = admins (app_db w)"
  using record_event_same [of a b c d e "app_db w"]
  by (cases "record_event a b c d e (app_db w)") (auto simp: on_db_run admins_def same_but_audit_def)

lemma user_get_exists:
  assumes "db_ok s" and "user_get_by_id uid s = (Inr (Some u), s)" and "r \<in> set (users s)" and "u_id r = uid"
  shows "u_role r = format_role (role u)" "username u = u_name r"
proof -
  from assms(2) obtain q where q: "q \<in> set (users s)" "u_id q = uid" "row_to_user q = Inr u"
    by (auto simp: user_get_by_id_returns dest: first_row_SomeD)
  have "distinct (map u_id (users s))" using db_okD(1) [OF assms(1)] by (simp add: users_ok_def)
  then have "q = r" using unique_key_row q assms(3,4) by metis
  then show "u_role r = format_role (role u)" "username u = u_name r"
    using row_to_user_fields [OF q(3)] by simp_all
qed

lemma delete_keeps_an_admin:
  assumes ok: "db_ok (app_db w)" and adm: "admins (app_db w) \<noteq> []"
  shows "admins (app_db (snd (admin_delete_user actor target w))) \<noteq> []"
  unfolding admin_delete_user_def
proof (rule post_reads [where Q = "\<lambda>w. admins (app_db w) \<noteq> []", OF user_found_reads(2) adm],
    rule post_reads [where Q = "\<lambda>w. admins (app_db w) \<noteq> []", OF user_found_reads(1) adm])
  fix u t assume t: "user_found ''target user not found'' target w = (Inr t, w)"
  let ?guard = "if role t = RoleAdmin
            then bindE admin_count (\<lambda>n. require (1 < n) (Validation ''cannot delete the last admin account''))
            else ret ()"
  have t': "user_get_by_id target (app_db w) = (Inr (Some t), app_db w)" using t by (simp add: user_found_returns)
  show "admins (app_db (snd (bindE ?guard (\<lambda>_. bindE (on_db (user_delete target)) (\<lambda>_.
     on_db (record_event (Some actor) UserDeleted (Some ''user'') (Some (TargetId target))
              (Some [Lit ''{\"username\":\"'', Lit (username t), Lit ''\"}''])))) w))) \<noteq> []"
  proof (rule post_reads [where Q = "\<lambda>w. admins (app_db w) \<noteq> []", OF _ adm])
    show "reads_only ?guard" by (intro step_intros)
    fix x assume g: "?guard w = (Inr x, w)"
    have "\<exists>r\<in>set (admins (app_db w)). u_id r \<noteq> target"
    proof (cases "role t = RoleAdmin")
      case True
      with g have "1 < length (admins (app_db w))" by (simp add: returns_iff admin_count_run [OF ok])
      then show ?thesis by (rule another_admin [OF ok])
    next
      case False
      obtain r where r: "r \<in> set (admins (app_db w))" using adm by (meson list.set_sel(1))
      then have "u_id r \<noteq> target"
        using user_get_exists(1) [OF ok t', of r] False by (cases "role t") (auto simp: admins_def)
      with r show ?thesis by blast
    qed
    then show "admins (app_db (snd (bindE (on_db (user_delete target)) (\<lambda>_.
     on_db (record_event (Some actor) UserDeleted (Some ''user'') (Some (TargetId target))
              (Some [Lit ''{\"username\":\"'', Lit (username t), Lit ''\"}'']))) w))) \<noteq> []"
      by (intro post_bindE [where Q = "\<lambda>w. admins (app_db w) \<noteq> []"])
        (auto simp: record_keeps_admins on_db_returns dest: admin_survives_delete)
  qed
qed

lemma role_change_keeps_an_admin:
  assumes ok: "db_ok (app_db w)" and adm: "admins (app_db w) \<noteq> []"
  shows "admins (app_db (snd (admin_update_user_role actor target ro w))) \<noteq> []"
  unfolding admin_update_user_role_def
proof (rule post_reads [where Q = "\<lambda>w. admins (app_db w) \<noteq> []", OF user_found_reads(2) adm],
    rule post_reads [where Q = "\<lambda>w. admins (app_db w) \<noteq> []", OF user_found_reads(1) adm])
  fix u t assume t: "user_found ''target user not found'' target w = (Inr t, w)"
  let ?guard = "if role t = RoleAdmin \<and> ro = RoleUser
            then bindE admin_count (\<lambda>n. require (1 < n) (Validation ''cannot demote the last admin account''))
            else ret ()"
  let ?rec = "on_db (record_event (Some actor) UserRoleChanged (Some ''user'') (Some (TargetId target))
              (Some [Lit ''{\"old_role\":\"'', Lit (format_role (role t)), Lit ''\",\"new_role\":\"'',
                     Lit (format_role ro), Lit ''\"}'']))"
  have t': "user_get_by_id target (app_db w) = (Inr (Some t), app_db w)" using t by (simp add: user_found_returns)
  show "admins (app_db (snd (bindE ?guard (\<lambda>_. bindE (on_db (user_update_role target ro)) (\<lambda>_. ?rec)) w))) \<noteq> []"
  proof (rule post_reads [where Q = "\<lambda>w. admins (app_db w) \<noteq> []", OF _ adm])
    show "reads_only ?guard" by (intro step_intros)
    fix x assume g: "?guard w = (Inr x, w)"
    obtain r where r: "r \<in> set (admins (app_db w))" using adm by (meson list.set_sel(1))
    have "\<exists>r\<in>set (admins (app_db w)). u_id r \<noteq> target \<or> ro = RoleAdmin"
    proof (cases "role t = RoleAdmin \<and> ro = RoleUser")
      case True
      with g have "1 < length (admins (app_db w))" by (simp add: returns_iff admin_count_run [OF ok])
      then show ?thesis using another_admin [OF ok] by blast
    next
      case False
      then have "u_id r \<noteq> target \<or> ro = RoleAdmin"
        using user_get_exists(1) [OF ok t', of r] r by (cases ro; cases "role t") (auto simp: admins_def)
      with r show ?thesis by blast
    qed
    then show "admins (app_db (snd (bindE (on_db (user_update_role target ro)) (\<lambda>_. ?rec) w))) \<noteq> []"
      by (intro post_bindE [where Q = "\<lambda>w. admins (app_db w) \<noteq> []"])
        (auto simp: record_keeps_admins on_db_returns dest: admin_survives_role)
  qed
qed

text \<open>Deleting users and changing roles never leave the application without an admin: whatever
  the call returns, an error included, an admin exists afterwards if one existed before.\<close>

theorem the_last_admin_stays:
  assumes "db_ok (app_db w)" and "admins (app_db w) \<noteq> []"
  shows "admins (app_db (snd (admin_delete_user actor target w))) \<noteq> [] \<and>
         admins (app_db (snd (admin_update_user_role actor target ro w))) \<noteq> []"
  using delete_keeps_an_admin [OF assms] role_change_keeps_an_admin [OF assms] by blast

lemma user_delete_run:
  assumes "db_ok s" and "uid \<in> set (user_ids s)"
  shows "user_delete uid s = (Inr (), cascade_user uid (delete_logins_of uid s))"
proof -
  have "0 < affected (\<lambda>r. u_id r = uid) (users s)" using assms(2) by (auto simp: affected_pos user_ids_def)
  moreover have "uid \<notin> set (map l_user (delete_rows (\<lambda>l. l_user l = uid) (logins s)))"
    by (auto simp: set_delete_rows)
  moreover have "user_ids (delete_logins_of uid s) = user_ids s" by (simp add: delete_logins_of_def user_ids_def)
  ultimately show ?thesis using assms(2)
    by (simp add: user_delete_def transaction_def exec_sql_def delete_user_row_def bindE_run run_simps)
      (simp add: delete_logins_of_def)
qed

text \<open>An admin may delete their own account when another admin remains, and is then told that it
  failed: the audit entry names an actor that no longer exists, and its foreign key refuses it
  after the account is gone.\<close>

theorem deleting_oneself_succeeds_with_an_error:
  assumes ok: "db_ok (app_db w)" and adm: "r \<in> set (admins (app_db w))" "u_id r = actor"
    and others: "1 < length (admins (app_db w))"
  shows "\<exists>w'. admin_delete_user actor actor w = (Inl (Database ForeignKeyViolation), w') \<and>
              actor \<notin> set (user_ids (app_db w')) \<and> app_auth w' = app_auth w"
proof -
  have ex: "actor \<in> set (user_ids (app_db w))" using adm by (auto simp: admins_def user_ids_def)
  obtain u where u: "user_get_by_id actor (app_db w) = (Inr (Some u), app_db w)"
    using user_exists_reads [OF ok ex] by blast
  have "require_admin actor w = (Inr u, w)" using u adm by (auto simp: require_admin_returns [OF ok])
  moreover have "user_found ''target user not found'' actor w = (Inr u, w)" using u by (simp add: user_found_returns)
  moreover let ?d = "cascade_user actor (delete_logins_of actor (app_db w))"
  have "on_db (user_delete actor) w = (Inr (), w\<lparr>app_db := ?d\<rparr>)"
    by (rule on_db_run) (rule user_delete_run [OF ok ex])
  moreover have gone: "actor \<notin> set (user_ids ?d)" by (auto simp: user_ids_def cascade_user_def set_delete_rows)
  then have "on_db (record_event (Some actor) a b c d) (w\<lparr>app_db := ?d\<rparr>) =
      (Inl (Database ForeignKeyViolation), w\<lparr>app_db := ?d\<rparr>)" for a b c d
    by (simp add: on_db_run record_event_def audit_append_refused)
  ultimately show ?thesis using others gone
    by (simp add: admin_delete_user_def bindE_run admin_count_run [OF ok] run_simps)
qed

section \<open>Creating accounts\<close>

lemma get_envelope_returns:
  "get_password_envelope name a = (Inr env, a') \<longleftrightarrow> \<not> shutdown_in_progress a \<and> a' = a \<and>
     (\<exists>r. credentials a name = Some r \<and> env = encode_password_envelope r)"
  by (auto simp: get_password_envelope_def returns_iff ensure_returns get_credential_returns)

lemma upsert_envelope_returns:
  "upsert_password_envelope name env a = (Inr x, a') \<longleftrightarrow> \<not> shutdown_in_progress a \<and> trim name \<noteq> [] \<and>
     (\<exists>r. decode_password_envelope env = Inr r \<and> a' = a\<lparr>credentials := (credentials a)(name \<mapsto> r)\<rparr>)"
  by (auto simp: upsert_password_envelope_def returns_iff ensure_returns put_credential_run)

lemma user_create_returns:
  "user_create_db uid name ro s = (Inr x, s') \<longleftrightarrow>
     insert_user_row (new_user_row uid name ro) s = Inr s'"
  by (simp add: user_create_db_def exec_sql_returns)

lemma insert_user_Inr:
  "insert_user_row r s = Inr s' \<Longrightarrow> u_id r \<notin> set (user_ids s) \<and> u_name r \<notin> u_name ` set (users s) \<and>
     s' = s\<lparr>users := users s @ [r]\<rparr>"
  by (auto simp: insert_user_row_def split: if_splits)

lemma update_envelope_returns:
  "user_update_password_envelope uid env s = (Inr x, s') \<Longrightarrow>
     uid \<in> set (user_ids s) \<and>
     s' = s\<lparr>users := update_rows (\<lambda>r. u_id r = uid) (\<lambda>r. r\<lparr>u_password := Some env\<rparr>) (users s)\<rparr>"
  by (auto simp: user_update_password_envelope_def require_rows_def update_users_def returns_iff Let_def
      affected_pos user_ids_def split: if_splits)

text \<open>Registering a name, exporting its envelope and inserting the row, the part the creation of a
  user and of the first admin share.\<close>

lemma register_and_insert:
  assumes "auth_create_user P cfg rnd name pw a = (Inr y, a')"
    and "derive_key_if_valid P cfg name pw a' = (Inr (Some key), a2)"
    and "get_password_envelope name a2 = (Inr env, a3)"
    and "user_create_db uid name ro s = (Inr z, s1)"
    and "user_update_password_envelope uid env s1 = (Inr z', s2)"
  shows "\<exists>r. credentials a3 name = Some r \<and> key = password_hash r \<and> env = encode_password_envelope r \<and>
     verify_password P cfg name pw a3 = (Inr True, a3) \<and>
     s2 = s\<lparr>users := users s @ [(new_user_row uid name ro)\<lparr>u_password := Some (encode_password_envelope r)\<rparr>]\<rparr>"
proof -
  from assms(1) obtain salt hash where a: "\<not> shutdown_in_progress a" "key_of P cfg pw salt = Some hash"
    and a': "a' = a\<lparr>credentials := (credentials a)(name \<mapsto> \<lparr> password_salt = salt, password_hash = hash \<rparr>)\<rparr>"
    unfolding auth_create_returns by blast
  have a2: "a2 = a'" "a3 = a'" using assms(2,3) by (auto simp: derive_if_valid_returns get_envelope_returns)
  let ?r = "\<lparr> password_salt = salt, password_hash = hash \<rparr>"
  have r: "credentials a3 name = Some ?r" by (simp add: a' a2)
  have key: "key = hash" using assms(2) a by (auto simp: derive_if_valid_returns a')
  have env: "env = encode_password_envelope ?r" using assms(3) by (auto simp: get_envelope_returns a2 a')
  have ver: "verify_password P cfg name pw a3 = (Inr True, a3)" using a by (simp add: verify_returns a2 a')
  from assms(4) have s1: "s1 = s\<lparr>users := users s @ [new_user_row uid name ro]\<rparr>" and fresh: "uid \<notin> set (user_ids s)"
    using insert_user_Inr [of "new_user_row uid name ro" s s1] by (auto simp: user_create_returns new_user_row_def)
  have "update_rows (\<lambda>r. u_id r = uid) (\<lambda>r. r\<lparr>u_password := Some env\<rparr>) (users s @ [new_user_row uid name ro]) =
      users s @ [(new_user_row uid name ro)\<lparr>u_password := Some env\<rparr>]"
  proof -
    have "map (\<lambda>r. if u_id r = uid then r\<lparr>u_password := Some env\<rparr> else r) (users s) = users s"
      using fresh by (intro map_idI) (auto simp: user_ids_def)
    then show ?thesis by (simp add: update_rows_def new_user_row_def)
  qed
  then have "s2 = s\<lparr>users := users s @ [(new_user_row uid name ro)\<lparr>u_password := Some env\<rparr>]\<rparr>"
    using update_envelope_returns [OF assms(5)] by (simp add: s1)
  with r key env ver show ?thesis by auto
qed

text \<open>A user that \<open>create_user\<close> returned was created by an admin, under a name free of surrounding
  blanks that no row had; the new row carries the role and the envelope of the credential held in
  memory, the password verifies, and the returned master key is the hash in that envelope.\<close>

theorem created_user_can_log_in:
  assumes ok: "db_ok (app_db w)"
    and run: "admin_create_user P cfg rnd new_id actor name pw ro w = (Inr res, w')"
  shows "(\<exists>r\<in>set (admins (app_db w)). u_id r = actor) \<and> trim name \<notin> u_name ` set (users (app_db w)) \<and>
         verify_password P cfg (trim name) pw (app_auth w') = (Inr True, app_auth w') \<and>
         (\<exists>cred. credentials (app_auth w') (trim name) = Some cred \<and> cr_master_key res = password_hash cred \<and>
            users (app_db w') = users (app_db w) @
              [(new_user_row new_id (trim name) ro)\<lparr>u_password := Some (encode_password_envelope cred)\<rparr>])"
proof -
  from run obtain u a1 a2 a3 s1 s2 s3 env x det where
    adm: "require_admin actor w = (Inr u, w)"
    and a: "auth_create_user P cfg rnd (trim name) pw (app_auth w) = (Inr (), a1)"
      "derive_key_if_valid P cfg (trim name) pw a1 = (Inr (Some (cr_master_key res)), a2)"
      "get_password_envelope (trim name) a2 = (Inr env, a3)"
    and d: "user_create_db new_id (trim name) ro (app_db w) = (Inr (), s1)"
      "user_update_password_envelope new_id env s1 = (Inr (), s2)"
    and g: "user_get_by_id new_id s2 = (Inr (Some x), s3)"
    and ev: "record_event (Some actor) UserCreated (Some ''user'') (Some (TargetId new_id)) det s3 =
        (Inr (), app_db w')"
    and au: "app_auth w' = a3"
    by (auto simp: admin_create_user_def Let_def returns_iff on_db_returns on_auth_returns require_admin_returns [OF ok])
  have s3: "s3 = s2" by (rule reads_only_run [OF user_queries_read(1) g])
  have same: "users (app_db w') = users s2" using ev record_event_same by (auto simp: s3 same_but_audit_def)
  have "trim name \<notin> u_name ` set (users (app_db w))"
    using d(1) insert_user_Inr by (fastforce simp: user_create_returns new_user_row_def)
  with register_and_insert [OF a d] adm show ?thesis by (auto simp: require_admin_returns [OF ok] same au)
qed

text \<open>The first admin is created on an empty database only.  When \<open>bootstrap_first_admin\<close> returns, the
  database has exactly that one user, with the admin role and a password that verifies; a second
  bootstrap is then refused and changes nothing.\<close>

theorem bootstrap_creates_the_only_admin:
  assumes ok: "db_ok (app_db w)" and run: "bootstrap_first_admin P cfg rnd new_id name pw w = (Inr res, w')"
  shows "users (app_db w) = [] \<and>
         (\<exists>r. users (app_db w') = [r] \<and> admins (app_db w') = [r] \<and> u_id r = new_id \<and> u_name r = br_username res \<and>
            (\<exists>cred. credentials (app_auth w') (u_name r) = Some cred \<and>
               u_password r = Some (encode_password_envelope cred) \<and> br_master_key res = password_hash cred)) \<and>
         verify_password P cfg (br_username res) pw (app_auth w') = (Inr True, app_auth w') \<and>
         bootstrap_first_admin P cfg rnd2 new_id2 name2 pw2 w' =
           (Inl (Conflict ''vault already initialized; use the login form to access your account''), w')"
proof -
  let ?n = "trim name"
  from run obtain s0 a1 a2 a3 s1 env where l: "user_list_all (app_db w) = (Inr [], s0)"
    and a: "auth_create_user P cfg rnd ?n pw (app_auth w) = (Inr (), a1)"
      "derive_key_if_valid P cfg ?n pw a1 = (Inr (Some (br_master_key res)), a2)"
      "get_password_envelope ?n a2 = (Inr env, a3)"
    and d: "user_create_db new_id ?n RoleAdmin s0 = (Inr (), s1)"
      "user_update_password_envelope new_id env s1 = (Inr (), app_db w')"
    and res: "br_username res = ?n" "app_auth w' = a3"
    by (auto simp: bootstrap_first_admin_def Let_def returns_iff on_db_returns on_auth_returns)
  have s0: "s0 = app_db w" by (rule reads_only_run [OF user_queries_read(4) l])
  from user_list_all_total [OF ok] l have "map u_id (sort_key u_name (users (app_db w))) = []" by auto
  then have "length (sort_key u_name (users (app_db w))) = 0" by simp
  then have empty: "users (app_db w) = []" by simp
  from register_and_insert [OF a d [unfolded s0]] obtain cred where c: "credentials a3 ?n = Some cred"
      "br_master_key res = password_hash cred" "verify_password P cfg ?n pw a3 = (Inr True, a3)"
    and us: "users (app_db w') = [(new_user_row new_id ?n RoleAdmin)\<lparr>u_password := Some (encode_password_envelope cred)\<rparr>]"
    by (auto simp: empty)
  have row: "\<exists>r. users (app_db w') = [r] \<and> admins (app_db w') = [r] \<and> u_id r = new_id \<and> u_name r = br_username res \<and>
            (\<exists>cred. credentials (app_auth w') (u_name r) = Some cred \<and>
               u_password r = Some (encode_password_envelope cred) \<and> br_master_key res = password_hash cred)"
    using c res by (simp add: us admins_def new_user_row_def)
  have ok': "db_ok (app_db w')" using keeps_run [OF admin_service_keeps(5) run] ok by simp
  from user_list_all_total [OF ok'] obtain vs where vs: "user_list_all (app_db w') = (Inr vs, app_db w')"
    "map user_id vs = map u_id (users (app_db w'))" by (auto simp: us)
  then have "vs \<noteq> []" by (auto simp: us)
  then have "bootstrap_first_admin P cfg rnd2 new_id2 name2 pw2 w' =
           (Inl (Conflict ''vault already initialized; use the login form to access your account''), w')"
    by (simp add: bootstrap_first_admin_def bindE_run on_db_run [where m = user_list_all, OF vs(1)] run_simps)
  with empty row c(3) res show ?thesis by simp
qed

section \<open>Deleting accounts\<close>

lemma delete_user_effect:
  assumes ok: "db_ok (app_db w)" and run: "admin_delete_user actor target w = (Inr (), w')"
  shows "app_auth w' = app_auth w \<and> actor \<noteq> target \<and>
     (\<exists>r\<in>set (admins (app_db w)). u_id r = actor) \<and> target \<in> set (user_ids (app_db w)) \<and>
     users (app_db w') = delete_rows (\<lambda>u. u_id u = target) (users (app_db w)) \<and>
     vaults (app_db w') = delete_rows (\<lambda>v. v_owner v = target) (vaults (app_db w))"
proof -
  let ?d = "cascade_user target (delete_logins_of target (app_db w))"
  from run obtain u t s1 det where adm: "require_admin actor w = (Inr u, w)"
    and t: "user_get_by_id target (app_db w) = (Inr (Some t), app_db w)"
    and d: "user_delete target (app_db w) = (Inr (), s1)"
    and ev: "record_event (Some actor) UserDeleted (Some ''user'') (Some (TargetId target)) det s1 = (Inr (), app_db w')"
    and au: "app_auth w' = app_auth w"
    by (auto simp: admin_delete_user_def returns_iff on_db_returns user_found_returns require_admin_returns [OF ok]
        admin_count_run [OF ok] split: if_splits)
  have ex: "target \<in> set (user_ids (app_db w))" by (rule user_read_exists [OF t])
  have s1: "s1 = ?d" using d user_delete_run [OF ok ex] by simp
  have "actor \<noteq> target"
  proof
    assume "actor = target"
    then have "\<not> ref_in (Some actor) (user_ids ?d)" by (auto simp: user_ids_def cascade_user_def set_delete_rows)
    with ev s1 show False by (simp add: record_event_def audit_append_refused)
  qed
  moreover have "users (app_db w') = users ?d" "vaults (app_db w') = vaults ?d"
    using record_event_same [OF ev] by (simp_all add: s1 same_but_audit_def)
  ultimately show ?thesis using adm ex au
    by (auto simp: require_admin_returns [OF ok] cascade_user_def delete_logins_of_def)
qed

text \<open>Deleting a user removes the account and every vault they own, but not their credential in
  memory: until a restart the password still verifies, and no account of that name can be created.\<close>

theorem deleted_username_stays_taken:
  assumes ok: "db_ok (app_db w)" and row: "r \<in> set (users (app_db w))" "u_id r = target"
    and name: "trim (u_name r) = u_name r" "u_name r \<noteq> []"
    and mem: "credentials (app_auth w) (u_name r) = Some cred" "\<not> shutdown_in_progress (app_auth w)"
    and run: "admin_delete_user actor target w = (Inr (), w')"
  shows "u_name r \<notin> u_name ` set (users (app_db w')) \<and>
         (\<forall>v\<in>set (vaults (app_db w')). v_owner v \<noteq> target) \<and>
         (\<forall>pw. verify_password P cfg (u_name r) pw (app_auth w') = verify_password P cfg (u_name r) pw (app_auth w)) \<and>
         admin_create_user P cfg rnd new_id actor (u_name r) pw ro w' =
           (Inl (Conflict ''username already exists''), w')"
proof -
  note eff = delete_user_effect [OF ok run]
  have ok': "db_ok (app_db w')" using keeps_run [OF admin_service_keeps(2) run] ok by simp
  have "distinct (map u_name (users (app_db w)))" using db_okD(1) [OF ok] by (simp add: users_ok_def)
  then have "q = r" if "q \<in> set (users (app_db w))" "u_name q = u_name r" for q
    using unique_key_row that row(1) by metis
  then have gone: "u_name r \<notin> u_name ` set (users (app_db w'))"
    using eff row(2) by (auto simp: set_delete_rows)
  obtain b where b: "b \<in> set (admins (app_db w))" "u_id b = actor" using eff by blast
  then have b': "b \<in> set (admins (app_db w'))" using eff by (auto simp: admins_def set_delete_rows)
  then have ex: "actor \<in> set (user_ids (app_db w'))" using b by (auto simp: admins_def user_ids_def)
  obtain u where u: "user_get_by_id actor (app_db w') = (Inr (Some u), app_db w')"
    using user_exists_reads [OF ok' ex] by blast
  have adm: "require_admin actor w' = (Inr u, w')"
    using u b b' by (auto simp: require_admin_returns [OF ok'])
  have "auth_create_user P cfg rnd (u_name r) pw (app_auth w') = (Inl (Conflict ''username already exists''), app_auth w')"
    using mem name eff by (simp add: auth_create_user_def bindE_run ensure_run run_simps)
  then have "on_auth (auth_create_user P cfg rnd (u_name r) pw) w' = (Inl (Conflict ''username already exists''), w')"
    by (simp add: on_auth_run)
  then have "admin_create_user P cfg rnd new_id actor (u_name r) pw ro w' = (Inl (Conflict ''username already exists''), w')"
    by (simp add: admin_create_user_def Let_def bindE_run adm name run_simps)
  with gone eff show ?thesis by (simp add: set_delete_rows)
qed

section \<open>Changing a password\<close>

lemma change_master_effect:
  assumes run: "change_master_password P cfg rnd uid cur new w = (Inr (), w')"
  shows "\<exists>u env a1. user_get_by_id uid (app_db w) = (Inr (Some u), app_db w) \<and> 10 \<le> length new \<and>
     change_password P cfg rnd (username u) cur new (app_auth w) = (Inr (), a1) \<and> app_auth w' = a1 \<and>
     get_password_envelope (username u) a1 = (Inr env, a1) \<and>
     app_db w' = (app_db w)\<lparr>users := update_rows (\<lambda>r. u_id r = uid) (\<lambda>r. r\<lparr>u_password := Some env\<rparr>) (users (app_db w))\<rparr>"
  using run
  by (auto simp: change_master_password_def returns_iff on_db_returns on_auth_returns user_found_returns get_envelope_returns
      dest!: update_envelope_returns)

lemma envelope_for_users: "envelope_for (s\<lparr>users := us\<rparr>) uid vid = envelope_for s uid vid"
  by (auto simp: envelope_for_def split: option.split)

text \<open>Changing the master password does not carry the vaults over to the new key: after it, a vault
  opens with exactly the keys it opened with before, so the old master key still opens it and the
  new one, which the new password derives, opens it only if it did so already.\<close>

theorem password_change_does_not_rewrap_vaults:
  assumes laws: "aead_laws P" and ok: "db_ok (app_db w)"
    and run: "change_master_password P cfg rnd uid cur new w = (Inr (), w')"
  shows "(\<exists>t. open_vault_for_user P x vid mk (app_db w') = (Inr key, t)) \<longleftrightarrow>
         (\<exists>t. open_vault_for_user P x vid mk (app_db w) = (Inr key, t))"
proof -
  obtain env where d: "app_db w' = (app_db w)\<lparr>users := update_rows (\<lambda>r. u_id r = uid)
      (\<lambda>r. r\<lparr>u_password := Some env\<rparr>) (users (app_db w))\<rparr>"
    using change_master_effect [OF run] by blast
  have ok': "db_ok (app_db w')" using keeps_run [OF admin_service_keeps(7) run] ok by simp
  have ids: "user_ids (app_db w') = user_ids (app_db w)" by (simp add: user_ids_def d table_simps)
  show ?thesis
  proof (cases "x \<in> set (user_ids (app_db w))")
    case True
    then show ?thesis
      using open_iff_sealed [OF laws ok, of x] open_iff_sealed [OF laws ok', of x] ids
      by (simp add: d envelope_for_users)
  next
    case False
    have "\<not> (\<exists>t. open_vault_for_user P x vid mk s = (Inr key, t))" if "x \<notin> set (user_ids s)" for s
      using that user_read_exists by (auto simp: open_vault_for_user_def bindE_returns require_user_returns)
    with False ids show ?thesis by metis
  qed
qed

section \<open>Changing an e-mail address\<close>

lemma profile_update_email:
  assumes "user_update_profile uid mail disp lang b s = (Inr x, s1)"
    and "user_get_by_id uid s1 = (Inr (Some u), s2)"
  shows "email u = mail"
proof -
  let ?f = "\<lambda>r. r\<lparr>u_email := mail, u_display := disp,
          u_lang := (case lang of None \<Rightarrow> u_lang r | Some l \<Rightarrow> l),
          u_show := (case b of None \<Rightarrow> u_show r | Some b \<Rightarrow> if b then 1 else 0), u_updated := Some (clock s)\<rparr>"
  have s1: "users s1 = update_rows (\<lambda>r. u_id r = uid) ?f (users s)"
    using assms(1) by (auto simp: user_update_profile_def require_rows_def update_users_def returns_iff Let_def split: if_splits)
  from assms(2) obtain q where q: "q \<in> set (users s1)" "u_id q = uid" "row_to_user q = Inr u"
    by (auto simp: user_get_by_id_returns dest: first_row_SomeD)
  have "u_email q = mail"
    using q(1) unfolding s1 by (cases rule: update_rowsE) (use q(2) in simp_all)
  with row_to_user_fields [OF q(3)] show ?thesis by simp
qed

text \<open>A profile update that changes the e-mail address needs the current password: when it returns,
  the address is the new one and the password given verified for that account; with no password, or
  one that does not verify, it fails and nothing has changed.\<close>

theorem email_change_needs_the_password:
  assumes ok: "db_ok (app_db w)" and row: "r \<in> set (users (app_db w))" "u_id r = uid"
    and change: "trimmed_or_none (up_email upd) \<noteq> u_email r"
  shows "(\<forall>u w'. update_user_profile P cfg uid upd w = (Inr u, w') \<longrightarrow>
            email u = trimmed_or_none (up_email upd) \<and>
            (\<exists>pw. up_current_password upd = Some pw \<and>
               verify_password P cfg (u_name r) pw (app_auth w) = (Inr True, app_auth w))) \<and>
         ((\<forall>pw. up_current_password upd = Some pw \<longrightarrow> fst (verify_password P cfg (u_name r) pw (app_auth w)) \<noteq> Inr True) \<longrightarrow>
            (\<exists>e. update_user_profile P cfg uid upd w = (Inl e, w)))"
proof -
  have ex: "uid \<in> set (user_ids (app_db w))" using row by (auto simp: user_ids_def)
  obtain cur where cur: "user_get_by_id uid (app_db w) = (Inr (Some cur), app_db w)"
    using user_exists_reads [OF ok ex] by blast
  have name: "username cur = u_name r" by (rule user_get_exists(2) [OF ok cur row])
  have mail: "email cur = u_email r"
  proof -
    from cur obtain q where q: "q \<in> set (users (app_db w))" "u_id q = uid" "row_to_user q = Inr cur"
      by (auto simp: user_get_by_id_returns dest: first_row_SomeD)
    have "distinct (map u_id (users (app_db w)))" using db_okD(1) [OF ok] by (simp add: users_ok_def)
    then have "q = r" using unique_key_row q row by metis
    then show ?thesis using row_to_user_fields [OF q(3)] by simp
  qed
  have found: "user_found msg uid w = (Inr cur, w)" for msg using cur by (simp add: user_found_returns)
  let ?chk = "bindE (ok_or (Authorization PasswordRequiredForChange) (up_current_password upd)) (\<lambda>pw.
                 bindE (on_auth (verify_password P cfg (username cur) pw)) (\<lambda>password_ok.
                 require password_ok (Authorization InvalidCredentials)))"
  have chk: "?chk w = (Inr x, w1) \<longleftrightarrow> w1 = w \<and> (\<exists>pw. up_current_password upd = Some pw \<and>
      verify_password P cfg (u_name r) pw (app_auth w) = (Inr True, app_auth w))" for x w1
    using auth_failure_keeps(3) [of P cfg "u_name r" _ "app_auth w"] by (fastforce simp: returns_iff on_auth_returns name)
  have chk_fail: "snd (?chk w) = w"
    using auth_failure_keeps(3) [of P cfg "u_name r" _ "app_auth w"]
    by (auto simp: bindE_run run_simps name on_auth_def zoom_def split: option.split prod.split sum.split)
  have run: "update_user_profile P cfg uid upd w = bindE ?chk (\<lambda>_.
     bindE (on_db (user_update_profile uid (trimmed_or_none (up_email upd)) (trimmed_or_none (up_display_name upd))
       (trimmed_or_none (up_language upd)) (up_show_passwords upd))) (\<lambda>_.
     user_found ''user not found after profile update'' uid)) w"
    using change unfolding update_user_profile_def
    by (subst bindE_ok [where m = "user_found ''user not found'' uid", OF found]) (simp add: Let_def mail)
  show ?thesis
  proof (intro conjI allI impI)
    fix u w' assume "update_user_profile P cfg uid upd w = (Inr u, w')"
    then obtain x w1 s1 where c: "?chk w = (Inr x, w1)"
      and up: "user_update_profile uid (trimmed_or_none (up_email upd)) (trimmed_or_none (up_display_name upd))
       (trimmed_or_none (up_language upd)) (up_show_passwords upd) (app_db w) = (Inr (), s1)"
      and u: "user_get_by_id uid s1 = (Inr (Some u), s1)"
      unfolding run bindE_returns [of ?chk] by (auto simp: bindE_returns [of "on_db m" for m] on_db_returns user_found_returns chk)
    show "email u = trimmed_or_none (up_email upd)" by (rule profile_update_email [OF up u])
    show "\<exists>pw. up_current_password upd = Some pw \<and>
               verify_password P cfg (u_name r) pw (app_auth w) = (Inr True, app_auth w)"
      using c unfolding chk by blast
  next
    assume no: "\<forall>pw. up_current_password upd = Some pw \<longrightarrow> fst (verify_password P cfg (u_name r) pw (app_auth w)) \<noteq> Inr True"
    then have "\<nexists>x w1. ?chk w = (Inr x, w1)" unfolding chk by auto
    then obtain e where "?chk w = (Inl e, w)" using chk_fail by (metis prod.collapse sum.exhaust)
    then show "\<exists>e. update_user_profile P cfg uid upd w = (Inl e, w)" unfolding run by (simp only: bindE_err) blast
  qed
qed

section \<open>Start-up\<close>

definition stored_envelopes :: "db \<Rightarrow> (string \<times> bytes) list" where
  "stored_envelopes s =
     List.map_filter (\<lambda>r. case u_password r of None \<Rightarrow> None | Some e \<Rightarrow> Some (u_name r, e)) (users s)"

lemma stored_envelopes_set:
  "(n, e) \<in> set (stored_envelopes s) \<longleftrightarrow> (\<exists>r\<in>set (users s). u_name r = n \<and> u_password r = Some e)"
proof -
  have "(n, e) \<in> set (List.map_filter (\<lambda>r. case u_password r of None \<Rightarrow> None | Some e \<Rightarrow> Some (u_name r, e)) us) \<longleftrightarrow>
      (\<exists>r\<in>set us. u_name r = n \<and> u_password r = Some e)" for us
    by (induction us) (auto simp: map_filter_simps split: option.split)
  then show ?thesis by (simp add: stored_envelopes_def)
qed

definition load_one :: "(string \<Rightarrow> credential option) \<Rightarrow> string \<times> bytes \<Rightarrow> string \<Rightarrow> credential option" where
  "load_one c p = c(fst p := ok_of (decode_password_envelope (snd p)))"

lemma load_loop:
  "for_each envs (\<lambda>(name, env). on_auth (upsert_password_envelope name env)) w = (Inr (), w') \<longleftrightarrow>
     (envs \<noteq> [] \<longrightarrow> \<not> shutdown_in_progress (app_auth w)) \<and>
     (\<forall>(n, e)\<in>set envs. trim n \<noteq> [] \<and> (\<exists>r. decode_password_envelope e = Inr r)) \<and>
     w' = w\<lparr>app_auth := (app_auth w)\<lparr>credentials := foldl load_one (credentials (app_auth w)) envs\<rparr>\<rparr>"
proof (induction envs arbitrary: w)
  case Nil
  then show ?case by (auto simp: ret_returns)
next
  case (Cons a envs)
  obtain n e where a: "a = (n, e)" by (cases a)
  show ?case
  proof (cases "decode_password_envelope e")
    case (Inr r)
    have one: "load_one c (n, e) = c(n \<mapsto> r)" for c by (simp add: load_one_def Inr)
    show ?thesis by (auto simp: a bindE_returns on_auth_returns upsert_envelope_returns Cons Inr one)
  qed (auto simp: a bindE_returns on_auth_returns upsert_envelope_returns)
qed

lemma foldl_put:
  "distinct (map fst envs) \<Longrightarrow>
     foldl load_one c0 envs n =
       (case map_of envs n of None \<Rightarrow> c0 n | Some e \<Rightarrow> ok_of (decode_password_envelope e))"
proof (induction envs arbitrary: c0)
  case (Cons a envs)
  obtain m e where a: "a = (m, e)" by (cases a)
  have "map_of envs m = None" using Cons.prems by (auto simp: a map_of_eq_None_iff)
  then show ?case using Cons by (auto simp: a load_one_def split: option.split)
qed simp

lemma stored_names_distinct:
  assumes "db_ok s" shows "distinct (map fst (stored_envelopes s))"
proof -
  have sub: "distinct (map u_name us) \<Longrightarrow> distinct (map fst (List.map_filter
      (\<lambda>r. case u_password r of None \<Rightarrow> None | Some e \<Rightarrow> Some (u_name r, e)) us)) \<and>
      set (map fst (List.map_filter (\<lambda>r. case u_password r of None \<Rightarrow> None | Some e \<Rightarrow> Some (u_name r, e)) us)) \<subseteq> u_name ` set us" for us
    by (induction us) (auto simp: map_filter_simps split: option.splits)
  have "distinct (map u_name (users s))" using db_okD(1) [OF assms] by (simp add: users_ok_def)
  from sub [OF this] show ?thesis unfolding stored_envelopes_def by (rule conjunct1)
qed

lemma load_returns:
  "load_password_envelopes_from_db w = (Inr (), w') \<longleftrightarrow>
     for_each (stored_envelopes (app_db w)) (\<lambda>(name, env). on_auth (upsert_password_envelope name env)) w = (Inr (), w')"
  by (simp add: load_password_envelopes_from_db_def user_list_password_envelopes_def stored_envelopes_def
      bindE_run on_db_run run_simps)

text \<open>Loading the credentials at start-up returns, on a running service, exactly when every stored
  envelope decodes (and no name is blank); then the memory holds, for every user with an envelope,
  exactly what it decodes to, every other name keeps what it had, and the database is not touched.\<close>

theorem startup_loads_the_stored_credentials:
  assumes ok: "db_ok (app_db w)" and up: "\<not> shutdown_in_progress (app_auth w)"
  shows "((\<exists>w'. load_password_envelopes_from_db w = (Inr (), w')) \<longleftrightarrow>
            (\<forall>r\<in>set (users (app_db w)). \<forall>env. u_password r = Some env \<longrightarrow>
               trim (u_name r) \<noteq> [] \<and> (\<exists>cred. decode_password_envelope env = Inr cred))) \<and>
         (\<forall>w'. load_password_envelopes_from_db w = (Inr (), w') \<longrightarrow> app_db w' = app_db w \<and>
            (\<forall>r\<in>set (users (app_db w)). \<forall>env. u_password r = Some env \<longrightarrow>
               credentials (app_auth w') (u_name r) = ok_of (decode_password_envelope env)) \<and>
            (\<forall>name. (\<forall>r\<in>set (users (app_db w)). u_name r = name \<longrightarrow> u_password r = None) \<longrightarrow>
               credentials (app_auth w') name = credentials (app_auth w) name))"
proof (intro conjI allI impI ballI)
  note load = load_returns load_loop
  have all: "(\<forall>(n, e)\<in>set (stored_envelopes (app_db w)). Q n e) \<longleftrightarrow>
      (\<forall>r\<in>set (users (app_db w)). \<forall>env. u_password r = Some env \<longrightarrow> Q (u_name r) env)" for Q
    using stored_envelopes_set [of _ _ "app_db w"] by (simp add: Ball_def split: prod.split) metis
  show "(\<exists>w'. load_password_envelopes_from_db w = (Inr (), w')) \<longleftrightarrow>
            (\<forall>r\<in>set (users (app_db w)). \<forall>env. u_password r = Some env \<longrightarrow>
               trim (u_name r) \<noteq> [] \<and> (\<exists>cred. decode_password_envelope env = Inr cred))"
    unfolding load all using up by blast
  fix w' assume run: "load_password_envelopes_from_db w = (Inr (), w')"
  then show "app_db w' = app_db w" unfolding load by simp
  have cred: "credentials (app_auth w') n =
      (case map_of (stored_envelopes (app_db w)) n of None \<Rightarrow> credentials (app_auth w) n
       | Some e \<Rightarrow> ok_of (decode_password_envelope e))" for n
    using run unfolding load by (simp add: foldl_put [OF stored_names_distinct [OF ok]])
  {
    fix r env assume "r \<in> set (users (app_db w))" "u_password r = Some env"
    then have "(u_name r, env) \<in> set (stored_envelopes (app_db w))" by (auto simp: stored_envelopes_set)
    then have "map_of (stored_envelopes (app_db w)) (u_name r) = Some env"
      by (rule map_of_is_SomeI [OF stored_names_distinct [OF ok]])
    then show "credentials (app_auth w') (u_name r) = ok_of (decode_password_envelope env)" by (simp add: cred)
  }
  fix name assume none: "\<forall>r\<in>set (users (app_db w)). u_name r = name \<longrightarrow> u_password r = None"
  have "name \<notin> fst ` set (stored_envelopes (app_db w))" using none by (auto simp: stored_envelopes_set)
  then have "map_of (stored_envelopes (app_db w)) name = None" by (simp add: map_of_eq_None_iff)
  then show "credentials (app_auth w') name = credentials (app_auth w) name" by (simp add: cred)
qed

end
