(* ===== verification/Team_Service.thy ===== *)
theory Team_Service
  imports Vault_Properties Auth_Service
begin

text \<open>
  \<open>services/team_service.rs\<close>: teams and their members, vault keys shared with users and teams,
  revocation and key rotation.  The random draws (new ids, nonces, the rotated key) are arguments;
  a nonce drawn in the member loop is given per member.
\<close>

section \<open>Teams and members\<close>

definition require_team_permission :: "uuid \<Rightarrow> uuid \<Rightarrow> action \<Rightarrow> unit dbm" where
  "require_team_permission requester tid act =
     bindE (require_user requester ''requester not found'') (\<lambda>u.
     bindE (team_get_member_role tid requester) (\<lambda>ro.
     lift_result (check_permission u act (TeamRes ro))))"

definition create_team :: "uuid \<Rightarrow> uuid \<Rightarrow> string \<Rightarrow> team dbm" where
  "create_team new_id creator name =
     bindE (require_user creator ''creator user not found'') (\<lambda>_.
     bindE (team_create new_id name (Some creator)) (\<lambda>t.
     bindE (team_add_member new_id creator Leader) (\<lambda>_.
     bindE (record_event (Some creator) TeamCreated (Some ''team'') (Some (TargetId new_id))
              (Some (name_detail name))) (\<lambda>_.
     ret t))))"

definition delete_team :: "uuid \<Rightarrow> uuid \<Rightarrow> unit dbm" where
  "delete_team requester tid =
     bindE (require_team_permission requester tid TeamManageMembers) (\<lambda>_.
     bindE (team_get_by_id tid) (\<lambda>t_opt.
     bindE (ok_or (NotFound ''team not found'') t_opt) (\<lambda>t.
     bindE (team_delete tid) (\<lambda>_.
     record_event (Some requester) TeamDeleted (Some ''team'') (Some (TargetId tid))
       (Some (name_detail (team_name t)))))))"

definition add_member :: "uuid \<Rightarrow> uuid \<Rightarrow> uuid \<Rightarrow> team_member_role \<Rightarrow> unit dbm" where
  "add_member requester tid uid ro =
     bindE (require_team_permission requester tid TeamManageMembers) (\<lambda>_.
     bindE (require_user uid ''user to add not found'') (\<lambda>_.
     bindE (team_add_member tid uid ro) (\<lambda>_.
     record_event (Some requester) TeamMemberAdded (Some ''team'') (Some (TargetId tid))
       (Some [Lit ''{\"user_id\":\"'', IdText uid, Lit ''\",\"role\":\"'', Lit (member_role_to_db ro), Lit ''\"}'']))))"

definition remove_member :: "uuid \<Rightarrow> uuid \<Rightarrow> uuid \<Rightarrow> unit dbm" where
  "remove_member requester tid uid =
     bindE (require_team_permission requester tid TeamManageMembers) (\<lambda>_.
     bindE (team_remove_member tid uid) (\<lambda>_.
     bindE (vault_delete_shares_via_team uid tid) (\<lambda>purged.
     record_event (Some requester) TeamMemberRemoved (Some ''team'') (Some (TargetId tid))
       (Some [Lit ''{\"user_id\":\"'', IdText uid, Lit ''\",\"purged_shares\":'', NatText purged, Lit ''}'']))))"

definition list_user_teams :: "uuid \<Rightarrow> team list dbm" where
  "list_user_teams uid = team_list_for_user uid"

definition list_visible_teams :: "uuid \<Rightarrow> team list dbm" where
  "list_visible_teams requester =
     bindE (require_user requester ''requester not found'') (\<lambda>u.
     if role u = RoleAdmin then team_list_all else team_list_for_user requester)"

definition list_users_for_member_picker :: "uuid \<Rightarrow> user list dbm" where
  "list_users_for_member_picker requester =
     bindE (require_user requester ''requester not found'') (\<lambda>_. user_list_all)"

definition list_team_members :: "uuid \<Rightarrow> uuid \<Rightarrow> team_member list dbm" where
  "list_team_members requester tid =
     bindE (require_team_permission requester tid TeamReadMembers) (\<lambda>_. team_list_members tid)"

section \<open>Sharing\<close>

definition grant_vault_access ::
  "primitives \<Rightarrow> bytes option \<Rightarrow> uuid \<Rightarrow> uuid \<Rightarrow> uuid \<Rightarrow> bytes \<Rightarrow> bytes \<Rightarrow> unit dbm" where
  "grant_vault_access P nonce_rnd granter vid recipient vault_key recipient_master_key =
     bindE (lift_result (encrypt P nonce_rnd vault_key recipient_master_key)) (\<lambda>payload.
     bindE (vault_insert_key_share vid recipient (serialize_vault_key_envelope payload)
              (Some granter) None ShareWrite) (\<lambda>_.
     record_event (Some granter) VaultSharedWithUser (Some ''vault'') (Some (TargetId vid))
       (Some [Lit ''{\"recipient\":\"'', IdText recipient, Lit ''\"}''])))"

text \<open>A key that the caller supplies wins; otherwise the hash in the stored password envelope is
  taken, an envelope that does not parse counting as no key.\<close>

definition resolve_member_master_key :: "uuid \<Rightarrow> (uuid \<times> bytes) list \<Rightarrow> bytes option dbm" where
  "resolve_member_master_key member keys =
     (case find (\<lambda>(uid, _). uid = member) keys of
        Some (_, key) \<Rightarrow> ret (Some key)
      | None \<Rightarrow>
          bindE (user_get_password_envelope member) (\<lambda>env_opt.
          case env_opt of
            Some env \<Rightarrow>
              (case derive_master_key_from_password_envelope env of
                 Inr derived \<Rightarrow> ret (Some derived)
               | Inl _ \<Rightarrow> ret None)
          | None \<Rightarrow> ret None))"

definition insert_team_key_share ::
  "primitives \<Rightarrow> bytes option \<Rightarrow> uuid \<Rightarrow> uuid \<Rightarrow> uuid \<Rightarrow> uuid \<Rightarrow> bytes \<Rightarrow> bytes \<Rightarrow> unit dbm" where
  "insert_team_key_share P nonce_rnd granter vid tid member vault_key master_key =
     bindE (lift_result (encrypt P nonce_rnd vault_key master_key)) (\<lambda>payload.
     vault_insert_key_share vid member (serialize_vault_key_envelope payload)
       (Some granter) (Some tid) ShareRead)"

text \<open>The loop over the members, with its two counters.\<close>

primrec share_vault_with_members ::
  "primitives \<Rightarrow> (uuid \<Rightarrow> bytes option) \<Rightarrow> uuid \<Rightarrow> uuid \<Rightarrow> uuid \<Rightarrow> bytes \<Rightarrow> (uuid \<times> bytes) list \<Rightarrow>
   uuid list \<Rightarrow> nat \<Rightarrow> nat \<Rightarrow> (nat \<times> nat) dbm" where
  "share_vault_with_members P nonces granter vid tid vault_key keys [] granted skipped =
     ret (granted, skipped)"
| "share_vault_with_members P nonces granter vid tid vault_key keys (m # ms) granted skipped =
     bindE (resolve_member_master_key m keys) (\<lambda>effective_key.
     case effective_key of
       Some master_key \<Rightarrow>
         bindE (insert_team_key_share P (nonces m) granter vid tid m vault_key master_key) (\<lambda>_.
         share_vault_with_members P nonces granter vid tid vault_key keys ms (granted + 1) skipped)
     | None \<Rightarrow>
         share_vault_with_members P nonces granter vid tid vault_key keys ms granted (skipped + 1))"

definition record_team_share_event :: "uuid \<Rightarrow> uuid \<Rightarrow> uuid \<Rightarrow> nat \<Rightarrow> nat \<Rightarrow> unit dbm" where
  "record_team_share_event granter vid tid granted skipped =
     record_event (Some granter) VaultSharedWithTeam (Some ''vault'') (Some (TargetId vid))
       (Some [Lit ''{\"team_id\":\"'', IdText tid, Lit ''\",\"members_granted\":'', NatText granted,
              Lit '',\"members_skipped\":'', NatText skipped, Lit ''}''])"

definition share_vault_with_team ::
  "primitives \<Rightarrow> (uuid \<Rightarrow> bytes option) \<Rightarrow> uuid \<Rightarrow> uuid \<Rightarrow> uuid \<Rightarrow> bytes \<Rightarrow> (uuid \<times> bytes) list \<Rightarrow> unit dbm" where
  "share_vault_with_team P nonces granter vid tid vault_key keys =
     bindE (team_get_by_id tid) (\<lambda>t_opt.
     bindE (ok_or (NotFound ''team not found'') t_opt) (\<lambda>_.
     bindE (team_list_member_user_ids tid) (\<lambda>member_ids.
     bindE (share_vault_with_members P nonces granter vid tid vault_key keys member_ids 0 0) (\<lambda>(granted, skipped).
     bindE (require (granted \<noteq> 0) (Validation ''team share failed: no member received a vault key'')) (\<lambda>_.
     record_team_share_event granter vid tid granted skipped)))))"

definition revoke_vault_access :: "uuid \<Rightarrow> uuid \<Rightarrow> uuid \<Rightarrow> unit dbm" where
  "revoke_vault_access actor vid uid =
     bindE (vault_delete_key_share vid uid) (\<lambda>_.
     record_event (Some actor) VaultAccessRevoked (Some ''vault'') (Some (TargetId vid))
       (Some [Lit ''{\"user_id\":\"'', IdText uid, Lit ''\"}'']))"

section \<open>Rotation\<close>

definition persist_rotated_vault_keys ::
  "uuid \<Rightarrow> uuid \<Rightarrow> bytes \<Rightarrow> (uuid \<times> bytes \<times> uuid option) list \<Rightarrow> unit dbm" where
  "persist_rotated_vault_keys actor vid owner_envelope new_shares =
     bindE (vault_replace_all_key_shares vid new_shares (Some actor)) (\<lambda>_.
     vault_update_key_envelope vid owner_envelope)"

definition record_vault_rotation_event :: "uuid \<Rightarrow> uuid \<Rightarrow> nat \<Rightarrow> unit dbm" where
  "record_vault_rotation_event actor vid n =
     record_event (Some actor) VaultKeyRotated (Some ''vault'') (Some (TargetId vid))
       (Some [Lit ''{\"new_share_count\":'', NatText n, Lit ''}''])"

definition rotate_vault_key ::
  "bytes option \<Rightarrow> uuid \<Rightarrow> uuid \<Rightarrow> bytes \<Rightarrow> (uuid \<times> bytes \<times> uuid option) list \<Rightarrow> bytes dbm" where
  "rotate_vault_key key_rnd actor vid owner_envelope new_shares =
     bindE (lift_result (generate_vault_key key_rnd)) (\<lambda>new_vault_key.
     bindE (persist_rotated_vault_keys actor vid owner_envelope new_shares) (\<lambda>_.
     bindE (record_vault_rotation_event actor vid (length new_shares)) (\<lambda>_.
     ret new_vault_key)))"

section \<open>Every operation keeps the database well formed\<close>

lemma team_service_reads [step_intros]:
  "reads_only (require_team_permission requester tid act)" "reads_only (list_user_teams uid)"
  "reads_only (list_visible_teams requester)" "reads_only (list_users_for_member_picker requester)"
  "reads_only (list_team_members requester tid)" "reads_only (resolve_member_master_key m keys)"
  unfolding require_team_permission_def list_user_teams_def list_visible_teams_def
    list_users_for_member_picker_def list_team_members_def resolve_member_master_key_def
  by (intro step_intros)+

lemma share_members_keeps [step_intros]:
  "keeps db_ok (share_vault_with_members P nonces granter vid tid key keys ms g k)"
  by (induction ms arbitrary: g k)
     (auto simp: insert_team_key_share_def intro!: step_intros keeps_reads [OF team_service_reads(6)])

lemma team_service_keeps [step_intros]:
  "keeps db_ok (create_team i creator name)" "keeps db_ok (delete_team requester tid)"
  "keeps db_ok (add_member requester tid uid ro)" "keeps db_ok (remove_member requester tid uid)"
  "keeps db_ok (grant_vault_access P rnd granter vid uid key mk)"
  "keeps db_ok (share_vault_with_team P nonces granter vid tid key keys)"
  "keeps db_ok (revoke_vault_access actor vid uid)"
  "keeps db_ok (rotate_vault_key kr actor vid env new_shares)"
  unfolding create_team_def delete_team_def add_member_def remove_member_def grant_vault_access_def
    share_vault_with_team_def revoke_vault_access_def rotate_vault_key_def record_team_share_event_def
    persist_rotated_vault_keys_def record_vault_rotation_event_def
  by (intro step_intros keeps_of_reads keeps_reads [OF team_service_reads(1)]
      keeps_reads [OF team_queries_read(1)] keeps_reads [OF team_queries_read(6)])+

end
