(* ===== verification/Team_Properties.thy ===== *)
theory Team_Properties
  imports Team_Service
begin

text \<open>
  What sharing, revoking, rotating and leaving a team achieve.  The shares are seen as a keyed
  store, from (vault, user) to the share row; the laws of the store carry the member loop.
\<close>

section \<open>A keyed store\<close>

text \<open>What a table with an upsert and a deletion by key promises its clients.\<close>

locale keyed_store =
  fixes key :: "'r \<Rightarrow> 'k" and lookup :: "'s \<Rightarrow> 'k \<Rightarrow> 'r option"
    and put :: "'r \<Rightarrow> 's \<Rightarrow> 's" and del :: "'k \<Rightarrow> 's \<Rightarrow> 's"
  assumes lookup_put: "lookup (put r s) = (lookup s)(key r \<mapsto> r)"
    and lookup_del: "lookup (del k s) = (lookup s)(k := None)"
begin

lemma lookup_put_same: "lookup (put r s) (key r) = Some r"
  by (simp add: lookup_put)

lemma lookup_put_other: "k \<noteq> key r \<Longrightarrow> lookup (put r s) k = lookup s k"
  by (simp add: lookup_put)

lemma put_put_same: "key r = key r' \<Longrightarrow> lookup (put r' (put r s)) = lookup (put r' s)"
  by (simp add: lookup_put)

lemma del_put: "lookup (del (key r) (put r s)) = lookup (del (key r) s)"
  by (simp add: lookup_put lookup_del)

lemma lookup_puts:
  "lookup (fold put rs s) k =
     (case map_of (rev (map (\<lambda>r. (key r, r)) rs)) k of None \<Rightarrow> lookup s k | Some r \<Rightarrow> Some r)"
  by (induction rs arbitrary: s) (auto simp: lookup_put map_add_def split: option.split)

end

section \<open>The shares as a keyed store\<close>

definition share_at :: "share_row list \<Rightarrow> uuid \<times> uuid \<Rightarrow> share_row option" where
  "share_at ks = (\<lambda>j. first_row (\<lambda>k. share_key k = j) ks)"

definition put_share :: "share_row \<Rightarrow> share_row list \<Rightarrow> share_row list" where
  "put_share r ks =
     (if share_key r \<in> set (map share_key ks) then update_rows (\<lambda>k. share_key k = share_key r) (\<lambda>_. r) ks
      else ks @ [r])"

definition del_share :: "uuid \<times> uuid \<Rightarrow> share_row list \<Rightarrow> share_row list" where
  "del_share j ks = delete_rows (\<lambda>k. share_key k = j) ks"

lemma share_at_update:
  "share_at (update_rows (\<lambda>k. share_key k = share_key r) (\<lambda>_. r) ks) j =
     (if j = share_key r then (if share_key r \<in> set (map share_key ks) then Some r else None)
      else share_at ks j)"
  by (induction ks) (auto simp: share_at_def first_row_def update_rows_def)

lemma share_at_delete:
  "share_at (delete_rows p ks) j = first_row (\<lambda>k. share_key k = j \<and> \<not> p k) ks"
  by (induction ks) (auto simp: share_at_def first_row_def delete_rows_def)

interpretation share_store: keyed_store share_key share_at put_share del_share
proof
  show "share_at (put_share r s) = (share_at s)(share_key r \<mapsto> r)" for r s
  proof
    fix j
    have "share_at s (share_key r) = None" if "share_key r \<notin> share_key ` set s"
      using that unfolding share_at_def first_row_None by (metis image_eqI)
    then show "share_at (put_share r s) j = ((share_at s)(share_key r \<mapsto> r)) j"
      by (auto simp: put_share_def share_at_update)
         (auto simp: share_at_def first_row_append split: option.split)
  qed
  show "share_at (del_share k s) = (share_at s)(k := None)" for k s
  proof
    fix j
    have "first_row (\<lambda>x. share_key x = k \<and> share_key x \<noteq> k) s = None"
      by (simp add: first_row_None)
    then show "share_at (del_share k s) j = ((share_at s)(k := None)) j"
      unfolding del_share_def share_at_delete
      by (auto simp: share_at_def first_row_def cong: find_cong)
        (metis (mono_tags, lifting) find_cong)
  qed
qed


lemma find_share_at: "first_row (\<lambda>k. k_vault k = vid \<and> k_user k = uid) ks = share_at ks (vid, uid)"
  by (simp add: share_at_def share_key_def)

lemma upsert_share_is_put:
  "upsert_share_row r s = Inr s' \<longleftrightarrow>
     share_check r \<and> share_refs_ok r s \<and> s' = s\<lparr>shares := put_share r (shares s)\<rparr>"
  by (auto simp: upsert_share_row_def put_share_def)

lemma envelope_for_shares:
  assumes "vaults s' = vaults s"
    and "\<And>v. v \<in> set (vaults s) \<Longrightarrow> v_id v = vid \<Longrightarrow> v_owner v \<noteq> uid \<Longrightarrow>
           share_at (shares s') (vid, uid) = share_at (shares s) (vid, uid)"
  shows "envelope_for s' uid vid = envelope_for s uid vid"
  using assms by (auto simp: envelope_for_def find_share_at split: option.split dest: first_row_SomeD)

lemma has_access_shares:
  "has_access s uid vid \<longleftrightarrow>
     (\<exists>v\<in>set (vaults s). v_id v = vid \<and> live v \<and> (v_owner v = uid \<or> share_at (shares s) (vid, uid) \<noteq> None))"
  unfolding has_access_def find_share_at [symmetric] by (auto simp: first_row_None)

text \<open>What an envelope of a share row gives its holder.\<close>

lemma share_row_opens:
  assumes laws: "aead_laws P" and ok: "db_ok s" and v: "v \<in> set (vaults s)" "live v" "v_id v = vid"
    and other: "v_owner v \<noteq> uid" and k: "share_at (shares s) (vid, uid) = Some k"
    and env: "k_envelope k = serialize_vault_key_envelope q" "length (nonce q) = NONCE_LEN"
      "encrypt P (Some (nonce q)) key mk = Inr q"
  shows "(\<exists>t. open_vault_for_user P uid vid mk s = (Inr key, t)) \<and>
         (\<exists>a. vault_get_with_permission uid vid s = (Inr (Some a), s) \<and>
              share_role_to_db (av_role a) = k_role k \<and>
              av_kind a = (case k_team k of None \<Rightarrow> DirectShare | Some _ \<Rightarrow> TeamShare))"
proof -
  have mem: "k \<in> set (shares s)" "k_vault k = vid" "k_user k = uid"
    using first_row_SomeD [OF k [unfolded share_at_def]] by (auto simp: share_key_def)
  have "envelope_for s uid vid = Some (k_envelope k)"
    using live_vault_row(1) [OF ok v] other k by (simp add: envelope_for_def find_share_at)
  moreover have "sealed_as P mk key (k_envelope k)"
    using env by (auto simp: sealed_as_def serialize_vault_key_envelope_def serialize_envelope_def)
  moreover have "uid \<in> set (user_ids s)"
    using db_okD(6) [OF ok] mem by (auto simp: shares_ok_def)
  ultimately have "\<exists>t. open_vault_for_user P uid vid mk s = (Inr key, t)"
    using open_iff_sealed [OF laws ok] by blast
  moreover have row: "access_row s uid vid = Some (share_view v k)"
    by (rule access_row_share [OF ok v other mem])
  obtain a where a: "row_to_accessible_vault (share_view v k) = Inr a"
    using view_parses [OF ok share_row_mem [OF v(1,2) mem(1)]] v(3) mem other by auto
  then have "share_role_to_db (av_role a) = k_role k"
    "av_kind a = (case k_team k of None \<Rightarrow> DirectShare | Some _ \<Rightarrow> TeamShare)"
    using share_role_db.dec_canonical
    by (auto simp: row_to_accessible_vault_def share_view_def access_kind_from_db_def split: option.splits)
  with row a have "\<exists>a. vault_get_with_permission uid vid s = (Inr (Some a), s) \<and>
      share_role_to_db (av_role a) = k_role k \<and>
      av_kind a = (case k_team k of None \<Rightarrow> DirectShare | Some _ \<Rightarrow> TeamShare)"
    by (auto simp: get_with_permission_returns)
  ultimately show ?thesis by blast
qed

section \<open>Granting and revoking\<close>

definition new_share ::
  "timestamp \<Rightarrow> uuid \<Rightarrow> uuid \<Rightarrow> encrypted_payload \<Rightarrow> uuid \<Rightarrow> uuid option \<Rightarrow> vault_share_role \<Rightarrow> share_row" where
  "new_share t vid uid q granter via ro =
     \<lparr> k_vault = vid, k_user = uid, k_envelope = serialize_vault_key_envelope q, k_by = Some granter,
       k_team = via, k_at = t, k_role = share_role_to_db ro \<rparr>"

lemma share_check_of_role: "share_check (new_share t vid uid q g via ro)"
  by (cases ro) (simp_all add: share_check_def new_share_def)

lemma insert_key_share_returns:
  "vault_insert_key_share vid uid (serialize_vault_key_envelope q) (Some g) via ro s = (Inr x, s') \<longleftrightarrow>
     share_refs_ok (new_share (clock s) vid uid q g via ro) s \<and>
     s' = s\<lparr>shares := put_share (new_share (clock s) vid uid q g via ro) (shares s)\<rparr>"
  using share_check_of_role [of "clock s" vid uid q g via ro]
  by (auto simp: vault_insert_key_share_def returns_iff exec_sql_returns upsert_share_is_put new_share_def)

lemma grant_returns:
  "grant_vault_access P rnd granter vid recipient key rmk s = (Inr x, s') \<longleftrightarrow>
     (\<exists>q. encrypt P rnd key rmk = Inr q \<and>
        share_refs_ok (new_share (clock s) vid recipient q granter None ShareWrite) s \<and>
        (\<exists>det. record_event (Some granter) VaultSharedWithUser (Some ''vault'') (Some (TargetId vid)) det
           (s\<lparr>shares := put_share (new_share (clock s) vid recipient q granter None ShareWrite) (shares s)\<rparr>) = (Inr x, s')
         \<and> det = Some [Lit ''{\"recipient\":\"'', IdText recipient, Lit ''\"}'']))"
  unfolding grant_vault_access_def returns_iff insert_key_share_returns by blast

lemma granted_state:
  assumes "grant_vault_access P rnd granter vid recipient key rmk s = (Inr (), s')"
  obtains q where "encrypt P rnd key rmk = Inr q"
    "same_but_audit (s\<lparr>shares := put_share (new_share (clock s) vid recipient q granter None ShareWrite) (shares s)\<rparr>) s'"
  using assms record_event_same unfolding grant_returns by metis

text \<open>C7. After \<open>grant_vault_access\<close> the recipient opens the vault with their own master key and gets
  the vault key that was shared, with a direct share of role \<open>write\<close>; the envelope of every other
  user and vault is the one it was.\<close>

theorem granted_user_opens_with_own_key:
  assumes laws: "aead_laws P" and ok: "db_ok s" and nonce: "length n = NONCE_LEN"
    and v: "v \<in> set (vaults s)" "live v" "v_id v = vid" and other: "v_owner v \<noteq> recipient"
    and run: "grant_vault_access P (Some n) granter vid recipient key rmk s = (Inr (), s')"
  shows "(\<exists>t. open_vault_for_user P recipient vid rmk s' = (Inr key, t)) \<and>
         (\<exists>a. vault_get_with_permission recipient vid s' = (Inr (Some a), s') \<and>
              av_role a = ShareWrite \<and> av_kind a = DirectShare) \<and>
         (\<forall>uid w. (w, uid) \<noteq> (vid, recipient) \<longrightarrow> envelope_for s' uid w = envelope_for s uid w)"
proof -
  from granted_state [OF run] obtain q where q: "encrypt P (Some n) key rmk = Inr q"
    and same: "same_but_audit (s\<lparr>shares := put_share (new_share (clock s) vid recipient q granter None ShareWrite) (shares s)\<rparr>) s'" .
  let ?k = "new_share (clock s) vid recipient q granter None ShareWrite"
  have ok': "db_ok s'" by (rule keeps_run [OF team_service_keeps(5) run ok])
  have st: "vaults s' = vaults s" "shares s' = put_share ?k (shares s)"
    using same by (simp_all add: same_but_audit_def)
  have key: "share_key ?k = (vid, recipient)" by (simp add: share_key_def new_share_def)
  have at: "share_at (shares s') (vid, recipient) = Some ?k"
    using share_store.lookup_put_same [of ?k "shares s"] by (simp add: st key)
  have nq: "nonce q = n" using q by (simp add: encrypt_Inr)
  have "(\<exists>t. open_vault_for_user P recipient vid rmk s' = (Inr key, t)) \<and>
      (\<exists>a. vault_get_with_permission recipient vid s' = (Inr (Some a), s') \<and>
           share_role_to_db (av_role a) = k_role ?k \<and>
           av_kind a = (case k_team ?k of None \<Rightarrow> DirectShare | Some _ \<Rightarrow> TeamShare))"
    by (rule share_row_opens [OF laws ok', where v = v and q = q])
       (use v other at q nq nonce st in \<open>auto simp: new_share_def\<close>)
  moreover have "av_role a = ShareWrite" if "share_role_to_db (av_role a) = ''write''" for a
    using that by (cases "av_role a") simp_all
  moreover have "envelope_for s' uid w = envelope_for s uid w" if "(w, uid) \<noteq> (vid, recipient)" for uid w
    by (rule envelope_for_shares) (use that st key in \<open>simp_all add: share_store.lookup_put_other\<close>)
  ultimately show ?thesis by (auto simp: new_share_def)
qed

text \<open>Neither granting nor revoking asks what rights the acting user has over the vault: for every
  existing user as the actor, with no access to the vault and no admin role, the grant goes through
  as soon as the vault and the recipient exist, and so does the revocation of anyone's share.\<close>

theorem sharing_asks_no_permission_of_the_actor:
  assumes "actor \<in> set (user_ids s)" and "recipient \<in> set (user_ids s)" and "vid \<in> set (vault_ids s)"
    and "encrypt P rnd key rmk = Inr q"
  shows "(\<exists>s'. grant_vault_access P rnd actor vid recipient key rmk s = (Inr (), s')) \<and>
         (\<exists>s'. revoke_vault_access actor vid uid s = (Inr (), s') \<and> share_at (shares s') (vid, uid) = None)"
proof
  let ?s = "s\<lparr>shares := put_share (new_share (clock s) vid recipient q actor None ShareWrite) (shares s)\<rparr>"
  have "share_refs_ok (new_share (clock s) vid recipient q actor None ShareWrite) s"
    using assms by (simp add: share_refs_ok_def new_share_def)
  moreover have "ref_in (Some actor) (user_ids ?s)" using assms(1) by (simp add: user_ids_def)
  then have "\<exists>s'. record_event (Some actor) VaultSharedWithUser (Some ''vault'') (Some (TargetId vid)) det ?s = (Inr (), s')" for det
    by (rule record_event_ok)
  ultimately show "\<exists>s'. grant_vault_access P rnd actor vid recipient key rmk s = (Inr (), s')"
    unfolding grant_returns using assms(4) by blast
next
  let ?t = "s\<lparr>shares := delete_rows (\<lambda>k. k_vault k = vid \<and> k_user k = uid) (shares s)\<rparr>"
  have "ref_in (Some actor) (user_ids ?t)" using assms(1) by (simp add: user_ids_def)
  then obtain s' where run: "record_event (Some actor) VaultAccessRevoked (Some ''vault'') (Some (TargetId vid))
      (Some [Lit ''{\"user_id\":\"'', IdText uid, Lit ''\"}'']) ?t = (Inr (), s')"
    using record_event_ok by blast
  then have "revoke_vault_access actor vid uid s = (Inr (), s')"
    by (simp add: revoke_vault_access_def vault_delete_key_share_def delete_shares_def bindE_run run_simps)
  moreover have "share_at (shares ?t) (vid, uid) = None"
    by (auto simp: share_at_delete first_row_None share_key_def)
  then have "share_at (shares s') (vid, uid) = None"
    using record_event_same [OF run] by (simp add: same_but_audit_def)
  ultimately show "\<exists>s'. revoke_vault_access actor vid uid s = (Inr (), s') \<and> share_at (shares s') (vid, uid) = None"
    by blast
qed

text \<open>A revocation that returned leaves the user without access to the vault unless they own it,
  and takes nobody else's access away.\<close>

theorem revoked_user_has_no_access:
  assumes run: "revoke_vault_access actor vid uid s = (Inr (), s')"
  shows "(has_access s' uid vid \<longleftrightarrow> (\<exists>v\<in>set (vaults s). v_id v = vid \<and> live v \<and> v_owner v = uid)) \<and>
         (\<forall>w x. (x, w) \<noteq> (vid, uid) \<longrightarrow> has_access s' w x = has_access s w x)"
proof -
  let ?t = "s\<lparr>shares := delete_rows (\<lambda>k. k_vault k = vid \<and> k_user k = uid) (shares s)\<rparr>"
  from run have "record_event (Some actor) VaultAccessRevoked (Some ''vault'') (Some (TargetId vid))
      (Some [Lit ''{\"user_id\":\"'', IdText uid, Lit ''\"}'']) ?t = (Inr (), s')"
    by (simp add: revoke_vault_access_def vault_delete_key_share_def delete_shares_def bindE_run run_simps)
  from record_event_same [OF this] have acc: "has_access s' w x = has_access ?t w x" for w x
    by (rule same_but_audit_access(2))
  have "shares ?t = del_share (vid, uid) (shares s)" by (simp add: del_share_def share_key_def)
  then have at: "share_at (shares ?t) = (share_at (shares s))((vid, uid) := None)"
    by (simp only: share_store.lookup_del)
  have "vaults ?t = vaults s" by simp
  then show ?thesis unfolding acc unfolding has_access_shares at by simp
qed

section \<open>Sharing with a team\<close>

text \<open>The master key a member's share is made with, and whether there is one.\<close>

definition effective_key :: "db \<Rightarrow> (uuid \<times> bytes) list \<Rightarrow> uuid \<Rightarrow> bytes option" where
  "effective_key s keys m =
     (case find (\<lambda>(uid, _). uid = m) keys of
        Some (_, key) \<Rightarrow> Some key
      | None \<Rightarrow>
         (case first_row (\<lambda>r. u_id r = m) (users s) of
            None \<Rightarrow> None
          | Some r \<Rightarrow> (case u_password r of
                       None \<Rightarrow> None
                     | Some env \<Rightarrow> ok_of (derive_master_key_from_password_envelope env))))"

lemma resolve_run: "resolve_member_master_key m keys s = (Inr (effective_key s keys m), s)"
  by (auto simp: resolve_member_master_key_def effective_key_def user_get_password_envelope_def
      bindE_run run_simps ok_of_def split: option.split sum.split)

lemma effective_key_shares [simp]: "effective_key (s\<lparr>shares := ks\<rparr>) keys m = effective_key s keys m"
  by (simp add: effective_key_def split: option.split)

text \<open>The share a member with a key gets.\<close>

definition team_share_of ::
  "primitives \<Rightarrow> (uuid \<Rightarrow> bytes option) \<Rightarrow> uuid \<Rightarrow> uuid \<Rightarrow> uuid \<Rightarrow> bytes \<Rightarrow> (uuid \<times> bytes) list \<Rightarrow> db \<Rightarrow>
   uuid \<Rightarrow> share_row option" where
  "team_share_of P nonces granter vid tid key keys s m =
     (case effective_key s keys m of
        None \<Rightarrow> None
      | Some mk \<Rightarrow> (case encrypt P (nonces m) key mk of
            Inl _ \<Rightarrow> None
          | Inr q \<Rightarrow> Some (new_share (clock s) vid m q granter (Some tid) ShareRead)))"

lemma team_share_of_shares [simp]:
  "team_share_of P nonces g vid tid key keys (s\<lparr>shares := ks\<rparr>) m = team_share_of P nonces g vid tid key keys s m"
  by (simp add: team_share_of_def split: option.split sum.split)

lemma insert_team_share_returns:
  "insert_team_key_share P rnd g vid tid m key mk s = (Inr x, s') \<longleftrightarrow>
     (\<exists>q. encrypt P rnd key mk = Inr q \<and>
        share_refs_ok (new_share (clock s) vid m q g (Some tid) ShareRead) s \<and>
        s' = s\<lparr>shares := put_share (new_share (clock s) vid m q g (Some tid) ShareRead) (shares s)\<rparr>)"
  by (simp add: insert_team_key_share_def returns_iff insert_key_share_returns)

lemma share_loop:
  assumes "share_vault_with_members P nonces g vid tid key keys ms i j s = (Inr (granted, skipped), s')"
  shows "s' = s\<lparr>shares := fold put_share (List.map_filter (team_share_of P nonces g vid tid key keys s) ms) (shares s)\<rparr> \<and>
         granted = i + length (filter (\<lambda>m. effective_key s keys m \<noteq> None) ms) \<and>
         skipped = j + length (filter (\<lambda>m. effective_key s keys m = None) ms) \<and>
         (\<forall>m\<in>set ms. effective_key s keys m \<noteq> None \<longrightarrow> team_share_of P nonces g vid tid key keys s m \<noteq> None)"
  using assms
proof (induction ms arbitrary: i j s)
  case Nil
  then show ?case by (simp add: ret_returns map_filter_simps)
next
  case (Cons m ms)
  show ?case
  proof (cases "effective_key s keys m")
    case None
    with Cons.prems have "share_vault_with_members P nonces g vid tid key keys ms i (j + 1) s = (Inr (granted, skipped), s')"
      by (simp add: bindE_run resolve_run)
    from Cons.IH [OF this] None show ?thesis by (simp add: map_filter_simps team_share_of_def)
  next
    case (Some mk)
    with Cons.prems obtain s1 where s1: "insert_team_key_share P (nonces m) g vid tid m key mk s = (Inr (), s1)"
      and rest: "share_vault_with_members P nonces g vid tid key keys ms (i + 1) j s1 = (Inr (granted, skipped), s')"
      by (auto simp: bindE_returns resolve_run)
    from s1 obtain q where q: "encrypt P (nonces m) key mk = Inr q"
      and st: "s1 = s\<lparr>shares := put_share (new_share (clock s) vid m q g (Some tid) ShareRead) (shares s)\<rparr>"
      unfolding insert_team_share_returns by blast
    then have of_m: "team_share_of P nonces g vid tid key keys s m = Some (new_share (clock s) vid m q g (Some tid) ShareRead)"
      using Some by (simp add: team_share_of_def)
    from Cons.IH [OF rest] Some of_m show ?thesis by (simp add: map_filter_simps st)
  qed
qed

lemma team_share_key: "team_share_of P nonces g vid tid key keys s m = Some k \<Longrightarrow> share_key k = (vid, m)"
  by (auto simp: team_share_of_def share_key_def new_share_def split: option.splits sum.splits)

lemma map_of_team_shares:
  "map_of (map (\<lambda>r. (share_key r, r)) (List.map_filter (team_share_of P nonces g vid tid key keys s) ms)) j =
     (if fst j = vid \<and> snd j \<in> set ms then team_share_of P nonces g vid tid key keys s (snd j) else None)"
  by (induction ms) (auto simp: map_filter_simps team_share_key split: option.split)

lemma share_keys_distinct:
  "distinct ms \<Longrightarrow> distinct (map fst (map (\<lambda>r. (share_key r, r)) (List.map_filter (team_share_of P nonces g vid tid key keys s) ms)))"
proof (induction ms)
  case (Cons m ms)
  have "(vid, m) \<notin> share_key ` set (List.map_filter (team_share_of P nonces g vid tid key keys s) ms)"
    using Cons.prems map_of_team_shares [of P nonces g vid tid key keys s ms "(vid, m)"]
    by (auto simp: map_of_eq_None_iff image_image)
  with Cons show ?case by (auto simp: map_filter_simps team_share_key split: option.split)
qed (simp add: map_filter_simps)

lemma fold_team_shares:
  assumes "distinct ms"
  shows "share_at (fold put_share (List.map_filter (team_share_of P nonces g vid tid key keys s) ms) ks) j =
     (if fst j = vid \<and> snd j \<in> set ms \<and> team_share_of P nonces g vid tid key keys s (snd j) \<noteq> None
      then team_share_of P nonces g vid tid key keys s (snd j) else share_at ks j)"
proof -
  let ?al = "map (\<lambda>r. (share_key r, r)) (List.map_filter (team_share_of P nonces g vid tid key keys s) ms)"
  have "map_of (rev ?al) = map_of ?al"
    using share_keys_distinct [OF assms, of P nonces g vid tid key keys s]
    by (subst map_of_inject_set) (auto simp: rev_map [symmetric])
  then show ?thesis
    by (auto simp: share_store.lookup_puts map_of_team_shares split: option.split)
qed

definition team_member_ids :: "db \<Rightarrow> uuid \<Rightarrow> uuid list" where
  "team_member_ids s tid = map m_user (filter (\<lambda>m. m_team m = tid) (members s))"

lemma team_member_ids_distinct: "db_ok s \<Longrightarrow> distinct (team_member_ids s tid)"
proof -
  assume "db_ok s"
  then have "distinct (map member_key (members s))" using db_okD(5) by (simp add: members_ok_def)
  then have "inj_on member_key (set (members s))" and "distinct (members s)" by (simp_all add: distinct_map)
  then show "distinct (team_member_ids s tid)"
    by (auto simp: team_member_ids_def distinct_map inj_on_def member_key_def)
qed

lemma share_with_team_effect:
  assumes ok: "db_ok s" and run: "share_vault_with_team P nonces g vid tid key keys s = (Inr (), s')"
  shows "same_but_audit (s\<lparr>shares := shares s'\<rparr>) s' \<and>
     (\<forall>j. share_at (shares s') j =
        (if fst j = vid \<and> snd j \<in> set (team_member_ids s tid) \<and> team_share_of P nonces g vid tid key keys s (snd j) \<noteq> None
         then team_share_of P nonces g vid tid key keys s (snd j) else share_at (shares s) j)) \<and>
     (\<forall>m\<in>set (team_member_ids s tid). effective_key s keys m \<noteq> None \<longrightarrow>
        team_share_of P nonces g vid tid key keys s m \<noteq> None) \<and>
     (\<exists>m\<in>set (team_member_ids s tid). effective_key s keys m \<noteq> None)"
proof -
  let ?ms = "team_member_ids s tid"
  from run obtain granted skipped s1
    where loop: "share_vault_with_members P nonces g vid tid key keys ?ms 0 0 s = (Inr (granted, skipped), s1)"
      and pos: "granted \<noteq> 0" and ev: "record_team_share_event g vid tid granted skipped s1 = (Inr (), s')"
    by (auto simp: share_vault_with_team_def returns_iff team_get_by_id_def team_list_member_user_ids_def
        run_simps team_member_ids_def split: prod.splits if_splits)
  note st = share_loop [OF loop]
  have same: "same_but_audit s1 s'"
    using ev unfolding record_team_share_event_def by (rule record_event_same)
  then have sh: "shares s' = shares s1" by (simp add: same_but_audit_def)
  have "same_but_audit (s\<lparr>shares := shares s'\<rparr>) s'"
    using same st by (simp add: sh)
  moreover have "share_at (shares s') j =
        (if fst j = vid \<and> snd j \<in> set ?ms \<and> team_share_of P nonces g vid tid key keys s (snd j) \<noteq> None
         then team_share_of P nonces g vid tid key keys s (snd j) else share_at (shares s) j)" for j
    using st fold_team_shares [OF team_member_ids_distinct [OF ok], of P nonces g vid tid key keys s tid "shares s" j]
    by (simp add: sh)
  moreover have "\<exists>m\<in>set ?ms. effective_key s keys m \<noteq> None"
  proof -
    have "filter (\<lambda>m. effective_key s keys m \<noteq> None) ?ms \<noteq> []" using st pos by auto
    then show ?thesis by (meson filter_False)
  qed
  ultimately show ?thesis using st by blast
qed

text \<open>Sharing a vault with a team succeeds only if some member has a key, and gives every member
  whose master key is known (supplied by the caller, or taken from the stored password envelope) a
  share that opens the vault with that key; members without a key and every other share stay as
  they were.\<close>

theorem team_share_opens_for_every_member_with_a_key:
  assumes laws: "aead_laws P" and ok: "db_ok s" and nonces: "\<And>m n. nonces m = Some n \<Longrightarrow> length n = NONCE_LEN"
    and v: "v \<in> set (vaults s)" "live v" "v_id v = vid"
    and run: "share_vault_with_team P nonces g vid tid key keys s = (Inr (), s')"
  shows "(\<exists>m\<in>set (team_member_ids s tid). effective_key s keys m \<noteq> None) \<and>
         (\<forall>m\<in>set (team_member_ids s tid). \<forall>mk. effective_key s keys m = Some mk \<longrightarrow> m \<noteq> v_owner v \<longrightarrow>
            (\<exists>t. open_vault_for_user P m vid mk s' = (Inr key, t))) \<and>
         (\<forall>m x. (x \<noteq> vid \<or> m \<notin> set (team_member_ids s tid) \<or> effective_key s keys m = None) \<longrightarrow>
            share_at (shares s') (x, m) = share_at (shares s) (x, m))"
proof (intro conjI ballI allI impI)
  note eff = share_with_team_effect [OF ok run]
  show "\<exists>m\<in>set (team_member_ids s tid). effective_key s keys m \<noteq> None" using eff by blast
  have ok': "db_ok s'" by (rule keeps_run [OF team_service_keeps(6) run ok])
  have vs: "vaults s' = vaults s" using eff by (simp add: same_but_audit_def)
  {
    fix m mk assume m: "m \<in> set (team_member_ids s tid)" "effective_key s keys m = Some mk" "m \<noteq> v_owner v"
    then obtain q where q: "encrypt P (nonces m) key mk = Inr q"
      "team_share_of P nonces g vid tid key keys s m = Some (new_share (clock s) vid m q g (Some tid) ShareRead)"
      using eff by (fastforce simp: team_share_of_def split: sum.splits)
    then have at: "share_at (shares s') (vid, m) = Some (new_share (clock s) vid m q g (Some tid) ShareRead)"
      using eff m by simp
    have n: "nonces m = Some (nonce q)" using q(1) by (simp add: encrypt_Inr)
    show "\<exists>t. open_vault_for_user P m vid mk s' = (Inr key, t)"
      by (rule share_row_opens [where v = v and q = q, OF laws ok', THEN conjunct1])
         (use v vs m at q n nonces [OF n] in \<open>auto simp: new_share_def\<close>)
  }
  fix m x assume "x \<noteq> vid \<or> m \<notin> set (team_member_ids s tid) \<or> effective_key s keys m = None"
  then show "share_at (shares s') (x, m) = share_at (shares s) (x, m)"
    using eff by (auto simp: team_share_of_def)
qed

section \<open>Leaving and dissolving a team\<close>

definition may_manage :: "db \<Rightarrow> uuid \<Rightarrow> uuid \<Rightarrow> bool" where
  "may_manage s requester tid \<longleftrightarrow>
     (\<exists>u\<in>set (users s). u_id u = requester \<and> u_role u = ''admin'') \<or>
     (\<exists>m\<in>set (members s). m_team m = tid \<and> m_user m = requester \<and> m_role m = ''leader'')"

lemma member_row_found:
  assumes "db_ok s" and "m \<in> set (members s)" and "m_team m = tid" and "m_user m = uid"
  shows "first_row (\<lambda>m. m_team m = tid \<and> m_user m = uid) (members s) = Some m"
proof -
  have d: "distinct (map member_key (members s))" using db_okD(5) [OF assms(1)] by (simp add: members_ok_def)
  show ?thesis
    by (rule first_row_unique [OF d assms(2), where x = "(tid, uid)"])
      (use assms in \<open>auto simp: member_key_def\<close>)
qed

lemma manage_permission_iff:
  assumes ok: "db_ok s"
  shows "require_team_permission requester tid TeamManageMembers s = (Inr (), s') \<longleftrightarrow>
     s' = s \<and> requester \<in> set (user_ids s) \<and> may_manage s requester tid" (is "?l \<longleftrightarrow> ?r")
proof -
  have role: "team_get_member_role tid requester s = (Inr ro, s2) \<longleftrightarrow> s2 = s \<and>
      ro = (case first_row (\<lambda>m. m_team m = tid \<and> m_user m = requester) (members s) of
              None \<Rightarrow> None | Some m \<Rightarrow> Some (if m_role m = ''leader'' then Leader else Member))" for ro s2
  proof (cases "first_row (\<lambda>m. m_team m = tid \<and> m_user m = requester) (members s)")
    case (Some m)
    then have "member_check m" using first_row_SomeD [OF Some] db_okD(5) [OF ok] by (auto simp: members_ok_def)
    with Some show ?thesis
      by (auto simp: team_get_member_role_def bindE_run run_simps parse_member_role_def
          member_role_from_db_def member_check_def)
  qed (auto simp: team_get_member_role_def bindE_run run_simps)
  have leader: "first_row (\<lambda>m. m_team m = tid \<and> m_user m = requester) (members s) = Some m \<and> m_role m = ''leader'' \<longleftrightarrow>
      m \<in> set (members s) \<and> m_team m = tid \<and> m_user m = requester \<and> m_role m = ''leader''" for m
    using member_row_found [OF ok, of m tid requester] first_row_SomeD [of _ "members s" m] by auto
  have admin: "role u = RoleAdmin \<longleftrightarrow> (\<exists>r\<in>set (users s). u_id r = requester \<and> u_role r = ''admin'')"
    if "user_get_by_id requester s = (Inr (Some u), s)" for u by (rule role_admin_iff [OF ok that])
  have check: "check_permission u TeamManageMembers (TeamRes ro) = Inr () \<longleftrightarrow> role u = RoleAdmin \<or> ro = Some Leader" for u ro
    by (simp add: check_permission_def)
  have run: "?l \<longleftrightarrow> (\<exists>u. user_get_by_id requester s = (Inr (Some u), s) \<and> s' = s \<and>
      (role u = RoleAdmin \<or> (\<exists>m. first_row (\<lambda>m. m_team m = tid \<and> m_user m = requester) (members s) = Some m \<and> m_role m = ''leader'')))"
    unfolding require_team_permission_def bindE_returns require_user_returns lift_result_returns check
    by (auto simp: role split: option.split)
  show ?thesis
  proof
    assume ?l
    then obtain u where u: "user_get_by_id requester s = (Inr (Some u), s)" and s': "s' = s"
      and c: "role u = RoleAdmin \<or> (\<exists>m. first_row (\<lambda>m. m_team m = tid \<and> m_user m = requester) (members s) = Some m \<and> m_role m = ''leader'')"
      unfolding run by blast
    have "requester \<in> set (user_ids s)" by (rule user_read_exists [OF u])
    moreover have "may_manage s requester tid"
      using c unfolding may_manage_def leader admin [OF u] by blast
    ultimately show ?r using s' by simp
  next
    assume r: ?r
    then obtain u where u: "user_get_by_id requester s = (Inr (Some u), s)"
      using user_exists_reads [OF ok] by blast
    have "role u = RoleAdmin \<or> (\<exists>m. first_row (\<lambda>m. m_team m = tid \<and> m_user m = requester) (members s) = Some m \<and> m_role m = ''leader'')"
      using r unfolding may_manage_def leader admin [OF u] by blast
    with r u show ?l unfolding run by blast
  qed
qed

lemma removed_state:
  assumes ok: "db_ok s" and run: "remove_member requester tid uid s = (Inr (), s')"
  shows "may_manage s requester tid \<and> (\<exists>m\<in>set (members s). m_team m = tid \<and> m_user m = uid) \<and>
     same_but_audit (s\<lparr>members := delete_rows (\<lambda>m. m_team m = tid \<and> m_user m = uid) (members s),
        shares := delete_rows (\<lambda>k. k_user k = uid \<and> k_team k = Some tid) (shares s)\<rparr>) s'"
proof -
  from run obtain s0 s1 s2 n det
    where p: "require_team_permission requester tid TeamManageMembers s = (Inr (), s0)"
      and r0: "team_remove_member tid uid s0 = (Inr (), s1)"
      and d: "vault_delete_shares_via_team uid tid s1 = (Inr n, s2)"
      and ev: "record_event (Some requester) TeamMemberRemoved (Some ''team'') (Some (TargetId tid)) det s2 = (Inr (), s')"
    by (auto simp: remove_member_def returns_iff)
  have s0: "s0 = s" by (rule reads_only_run [OF team_service_reads(1) p])
  note r = r0 [unfolded s0] and p = p [unfolded s0]
  have s1: "s1 = s\<lparr>members := delete_rows (\<lambda>m. m_team m = tid \<and> m_user m = uid) (members s)\<rparr>"
    and ex: "\<exists>m\<in>set (members s). m_team m = tid \<and> m_user m = uid"
    using r by (auto simp: team_remove_member_def require_rows_def delete_members_def returns_iff table_simps)
  have "s2 = s1\<lparr>shares := delete_rows (\<lambda>k. k_user k = uid \<and> k_team k = Some tid) (shares s1)\<rparr>"
    using d by (simp add: vault_delete_shares_via_team_def delete_shares_def)
  with record_event_same [OF ev] s1 ex p show ?thesis by (simp add: manage_permission_iff [OF ok])
qed

lemma removed_member_closed:
  assumes ok: "db_ok s" and run: "remove_member requester tid uid s = (Inr (), s')"
    and only: "\<forall>k\<in>set (shares s). k_vault k = vid \<and> k_user k = uid \<longrightarrow> k_team k = Some tid"
    and acc: "has_access s' uid vid"
  shows "\<exists>v\<in>set (vaults s). v_id v = vid \<and> v_owner v = uid"
proof -
  have k: "shares s' = delete_rows (\<lambda>k. k_user k = uid \<and> k_team k = Some tid) (shares s)"
    and vs: "vaults s' = vaults s"
    using removed_state [OF ok run] by (simp_all add: same_but_audit_def)
  have none: "\<not> (\<exists>x\<in>set (shares s'). k_vault x = vid \<and> k_user x = uid)"
    using only by (auto simp: k set_delete_rows)
  from acc obtain v where "v \<in> set (vaults s')" "v_id v = vid"
    "v_owner v = uid \<or> (\<exists>x\<in>set (shares s'). k_vault x = vid \<and> k_user x = uid)"
    unfolding has_access_def by blast
  with none vs show ?thesis by auto
qed

text \<open>Removing a member is for admins and leaders of that team, and needs an actual membership;
  afterwards the membership is gone, no share the team gave the user is left, a vault the user
  reached only through the team is closed to them, and every other share is untouched.\<close>

theorem removed_member_loses_team_access:
  assumes ok: "db_ok s" and run: "remove_member requester tid uid s = (Inr (), s')"
  shows "may_manage s requester tid \<and> uid \<notin> set (team_member_ids s' tid) \<and>
         (\<forall>k. \<not> (k \<in> set (shares s') \<and> k_user k = uid \<and> k_team k = Some tid)) \<and>
         (\<forall>k. k_user k = uid \<and> k_team k = Some tid \<or> (k \<in> set (shares s') \<longleftrightarrow> k \<in> set (shares s))) \<and>
         (\<forall>vid. (\<forall>k\<in>set (shares s). k_vault k = vid \<and> k_user k = uid \<longrightarrow> k_team k = Some tid) \<longrightarrow>
                has_access s' uid vid \<longrightarrow> (\<exists>v\<in>set (vaults s). v_id v = vid \<and> v_owner v = uid))"
proof (intro conjI allI impI ballI)
  note st = removed_state [OF ok run]
  have m: "members s' = delete_rows (\<lambda>m. m_team m = tid \<and> m_user m = uid) (members s)"
    and k: "shares s' = delete_rows (\<lambda>k. k_user k = uid \<and> k_team k = Some tid) (shares s)"
    using st by (simp_all add: same_but_audit_def)
  show "may_manage s requester tid" using st by simp
  show "uid \<notin> set (team_member_ids s' tid)" by (auto simp: team_member_ids_def m table_simps)
  show "\<not> (x \<in> set (shares s') \<and> k_user x = uid \<and> k_team x = Some tid)"
    "k_user x = uid \<and> k_team x = Some tid \<or> (x \<in> set (shares s') \<longleftrightarrow> x \<in> set (shares s))" for x
    by (auto simp: k set_delete_rows)
  show "\<exists>v\<in>set (vaults s). v_id v = vid \<and> v_owner v = uid"
    if "\<forall>k\<in>set (shares s). k_vault k = vid \<and> k_user k = uid \<longrightarrow> k_team k = Some tid"
      and "has_access s' uid vid" for vid
    by (rule removed_member_closed [OF ok run that])
qed

text \<open>A user who held a direct share of a vault with any role and is given the vault again through a
  team has a read-only team share from then on; leaving that team then closes the vault to them
  although nobody revoked their own share.\<close>

theorem team_share_replaces_a_direct_share:
  assumes ok: "db_ok s" and v: "v \<in> set (vaults s)" "live v" "v_id v = vid"
    and uid: "uid \<in> set (team_member_ids s tid)" "uid \<noteq> v_owner v" "effective_key s keys uid \<noteq> None"
    and direct: "share_at (shares s) (vid, uid) = Some k" "k_team k = None"
    and share: "share_vault_with_team P nonces g vid tid key keys s = (Inr (), s1)"
    and leave: "remove_member requester tid uid s1 = (Inr (), s2)"
  shows "has_access s uid vid \<and>
         (\<exists>k'. share_at (shares s1) (vid, uid) = Some k' \<and> k_role k' = ''read'' \<and> k_team k' = Some tid) \<and>
         \<not> has_access s2 uid vid"
proof -
  have ok1: "db_ok s1" by (rule keeps_run [OF team_service_keeps(6) share ok])
  note eff = share_with_team_effect [OF ok share]
  have "has_access s uid vid" using v direct by (auto simp: has_access_shares)
  moreover obtain k' where k': "team_share_of P nonces g vid tid key keys s uid = Some k'"
    using eff uid by blast
  then have f: "k_role k' = ''read''" "k_team k' = Some tid"
    by (auto simp: team_share_of_def new_share_def split: option.splits sum.splits)
  moreover have at: "share_at (shares s1) (vid, uid) = Some k'" using eff k' uid by simp
  moreover have "\<not> has_access s2 uid vid"
  proof
    have vs: "vaults s1 = vaults s" using eff by (simp add: same_but_audit_def)
    have dv: "distinct (map v_id (vaults s))" using db_okD(2) [OF ok] by (simp add: vaults_ok_def)
    have "\<forall>x\<in>set (shares s1). k_vault x = vid \<and> k_user x = uid \<longrightarrow> k_team x = Some tid"
      using share_row_found [OF ok1] at f by (auto simp: find_share_at)
    moreover assume "has_access s2 uid vid"
    ultimately have "\<exists>w\<in>set (vaults s1). v_id w = vid \<and> v_owner w = uid"
      using removed_member_closed [OF ok1 leave] by blast
    with vs unique_key_row [OF dv _ v(1)] v(3) uid(2) show False by metis
  qed
  ultimately show ?thesis by blast
qed

text \<open>Deleting a team does not close its vaults: a member who had a vault only through the team
  keeps the share, now counted as a direct one, and opens the vault as before.\<close>

theorem deleted_team_members_keep_their_vaults:
  assumes laws: "aead_laws P" and ok: "db_ok s"
    and v: "v \<in> set (vaults s)" "live v" "v_id v = vid" and uid: "v_owner v \<noteq> uid"
    and k: "share_at (shares s) (vid, uid) = Some k" "k_team k = Some tid" "sealed_as P mk key (k_envelope k)"
    and run: "delete_team requester tid s = (Inr (), s')"
  shows "(\<exists>t. open_vault_for_user P uid vid mk s' = (Inr key, t)) \<and>
         (\<exists>a. vault_get_with_permission uid vid s' = (Inr (Some a), s') \<and> av_kind a = DirectShare \<and>
              share_role_to_db (av_role a) = k_role k)"
proof -
  from run obtain s0 t2 t s1 det where p: "require_team_permission requester tid TeamManageMembers s = (Inr (), s0)"
    and g: "team_get_by_id tid s0 = (Inr t, t2)" and d0: "team_delete tid t2 = (Inr (), s1)"
    and ev: "record_event (Some requester) TeamDeleted (Some ''team'') (Some (TargetId tid)) det s1 = (Inr (), s')"
    by (auto simp: delete_team_def returns_iff)
  have "t2 = s"
    using reads_only_run [OF team_service_reads(1) p] reads_only_run [OF team_queries_read(1) g] by simp
  with d0 have d: "team_delete tid s = (Inr (), s1)" by simp
  have "s1 = delete_team_row tid s" using d by (auto simp: team_delete_def returns_iff run_simps)
  with record_event_same [OF ev] have st: "vaults s' = vaults s"
    "shares s' = update_rows (\<lambda>k. k_team k = Some tid) (\<lambda>k. k\<lparr>k_team := None\<rparr>) (shares s)"
    by (simp_all add: same_but_audit_def delete_team_row_def)
  have ok': "db_ok s'" by (rule keeps_run [OF team_service_keeps(2) run ok])
  have at: "share_at (shares s') (vid, uid) = Some (k\<lparr>k_team := None\<rparr>)"
    using k by (simp add: st share_at_def first_row_update share_key_def)
  obtain q where q: "length (nonce q) = NONCE_LEN" "encrypt P (Some (nonce q)) key mk = Inr q"
    "k_envelope k = serialize_vault_key_envelope q"
    using k(3) by (auto simp: sealed_as_def serialize_vault_key_envelope_def serialize_envelope_def)
  have "(\<exists>t. open_vault_for_user P uid vid mk s' = (Inr key, t)) \<and>
      (\<exists>a. vault_get_with_permission uid vid s' = (Inr (Some a), s') \<and>
           share_role_to_db (av_role a) = k_role (k\<lparr>k_team := None\<rparr>) \<and>
           av_kind a = (case k_team (k\<lparr>k_team := None\<rparr>) of None \<Rightarrow> DirectShare | Some _ \<Rightarrow> TeamShare))"
    by (rule share_row_opens [OF laws ok', where v = v and q = q]) (use v st uid at q in simp_all)
  then show ?thesis by auto
qed

section \<open>Rotation\<close>

definition rotated_share :: "timestamp \<Rightarrow> uuid \<Rightarrow> uuid \<Rightarrow> uuid \<times> bytes \<times> uuid option \<Rightarrow> share_row" where
  "rotated_share t vid actor e =
     (case e of (uid, env, via) \<Rightarrow>
       \<lparr> k_vault = vid, k_user = uid, k_envelope = env, k_by = Some actor, k_team = via, k_at = t,
         k_role = ''read'' \<rparr>)"

lemma rotated_share_fields [simp]:
  "k_vault (rotated_share t vid actor e) = vid" "k_user (rotated_share t vid actor e) = fst e"
  "k_envelope (rotated_share t vid actor e) = fst (snd e)" "k_role (rotated_share t vid actor e) = ''read''"
  "k_team (rotated_share t vid actor e) = snd (snd e)"
  by (simp_all add: rotated_share_def split: prod.split)

lemma insert_share_row_Inr:
  "insert_share_row r s = Inr s' \<longleftrightarrow> share_check r \<and> share_key r \<notin> set (map share_key (shares s)) \<and>
     share_refs_ok r s \<and> s' = s\<lparr>shares := shares s @ [r]\<rparr>"
  by (auto simp: insert_share_row_def)

lemma insert_shares_loop:
  assumes "for_each new_shares (\<lambda>(uid, env, via).
      bindE (gets clock) (\<lambda>t. exec_sql (insert_share_row
        \<lparr> k_vault = vid, k_user = uid, k_envelope = env, k_by = Some actor, k_team = via, k_at = t,
          k_role = ''read'' \<rparr>))) s = (Inr (), s')"
  shows "s' = s\<lparr>shares := shares s @ map (rotated_share (clock s) vid actor) new_shares\<rparr>"
  using assms
proof (induction new_shares arbitrary: s)
  case (Cons e es)
  obtain uid env via where e: "e = (uid, env, via)" by (cases e)
  from Cons.prems obtain s1 where s1: "s1 = s\<lparr>shares := shares s @ [rotated_share (clock s) vid actor e]\<rparr>"
    and rest: "for_each es (\<lambda>(uid, env, via).
      bindE (gets clock) (\<lambda>t. exec_sql (insert_share_row
        \<lparr> k_vault = vid, k_user = uid, k_envelope = env, k_by = Some actor, k_team = via, k_at = t,
          k_role = ''read'' \<rparr>))) s1 = (Inr (), s')"
    by (auto simp: e returns_iff exec_sql_returns insert_share_row_Inr rotated_share_def)
  show ?case using Cons.IH [OF rest] by (simp add: s1)
qed (simp add: ret_returns)

lemma rotated_state:
  assumes "rotate_vault_key kr actor vid env new_shares s = (Inr key, s')"
  shows "kr = Some key \<and> (\<exists>v\<in>set (vaults s). v_id v = vid \<and> live v) \<and>
     same_but_audit (s\<lparr>
       shares := delete_rows (\<lambda>k. k_vault k = vid) (shares s) @ map (rotated_share (clock s) vid actor) new_shares,
       vaults := update_rows (\<lambda>r. v_id r = vid \<and> live r) (\<lambda>r. r\<lparr>v_key := Some env, v_version := v_version r + 1\<rparr>) (vaults s)\<rparr>) s'"
proof -
  from assms obtain s1 s2 where k: "generate_vault_key kr = Inr key"
    and sh: "vault_replace_all_key_shares vid new_shares (Some actor) s = (Inr (), s1)"
    and up: "vault_update_key_envelope vid env s1 = (Inr (), s2)"
    and ev: "record_vault_rotation_event actor vid (length new_shares) s2 = (Inr (), s')"
    by (auto simp: rotate_vault_key_def persist_rotated_vault_keys_def returns_iff)
  have "kr = Some key" using k by (simp add: generate_vault_key_def split: option.splits)
  moreover have s1: "s1 = s\<lparr>shares := delete_rows (\<lambda>k. k_vault k = vid) (shares s) @
      map (rotated_share (clock s) vid actor) new_shares\<rparr>"
    using sh unfolding vault_replace_all_key_shares_def transaction_returns bindE_returns
    by (auto simp: delete_shares_def dest!: insert_shares_loop)
  moreover have "s2 = s1\<lparr>vaults := update_rows (\<lambda>r. v_id r = vid \<and> live r)
      (\<lambda>r. r\<lparr>v_key := Some env, v_version := v_version r + 1\<rparr>) (vaults s1)\<rparr> \<and>
      (\<exists>v\<in>set (vaults s1). v_id v = vid \<and> live v)"
    using up by (auto simp: vault_update_key_envelope_def require_rows_def returns_iff update_vaults_def table_simps)
  moreover have "same_but_audit s2 s'"
    using ev unfolding record_vault_rotation_event_def by (rule record_event_same)
  ultimately show ?thesis by simp
qed

lemma rotated_owner_envelope:
  assumes ok: "db_ok s" and v: "v \<in> set (vaults s)" "live v" "v_id v = vid"
    and vs: "vaults s' = update_rows (\<lambda>r. v_id r = vid \<and> live r) (\<lambda>r. r\<lparr>v_key := Some env, v_version := v_version r + 1\<rparr>) (vaults s)"
  shows "envelope_for s' (v_owner v) vid = Some env"
proof -
  have "first_row (\<lambda>r. v_id r = vid \<and> live r) (vaults s') = Some (v\<lparr>v_key := Some env, v_version := v_version v + 1\<rparr>)"
    unfolding vs using live_vault_row(1) [OF ok v] v(2,3)
    by (subst first_row_update) (simp_all add: live_def)
  then show ?thesis by (simp add: envelope_for_def)
qed

text \<open>C40. A rotation leaves the vault exactly the shares it was handed, all of them with role \<open>read\<close>
  whatever role their holders had, and the owner envelope it was handed.  The key it draws and
  returns is in none of them unless the caller sealed that same key beforehand: the owner opens
  the vault with the returned key just in that case.\<close>

theorem rotation_stores_the_given_envelopes_only:
  assumes laws: "aead_laws P" and ok: "db_ok s" and v: "v \<in> set (vaults s)" "live v" "v_id v = vid"
    and run: "rotate_vault_key (Some drawn) actor vid env new_shares s = (Inr key, s')"
  shows "key = drawn \<and>
         {(k_user k, k_envelope k, k_team k, k_role k) |k. k \<in> set (shares s') \<and> k_vault k = vid} =
           {(uid, e, via, ''read'') |uid e via. (uid, e, via) \<in> set new_shares} \<and>
         filter (\<lambda>k. k_vault k \<noteq> vid) (shares s') = filter (\<lambda>k. k_vault k \<noteq> vid) (shares s) \<and>
         ((\<exists>t. open_vault_for_user P (v_owner v) vid mk s' = (Inr key, t)) \<longleftrightarrow> sealed_as P mk drawn env)"
proof -
  note st = rotated_state [OF run]
  then have key: "key = drawn" and vs: "vaults s' = update_rows (\<lambda>r. v_id r = vid \<and> live r)
      (\<lambda>r. r\<lparr>v_key := Some env, v_version := v_version r + 1\<rparr>) (vaults s)"
    and sh: "shares s' = delete_rows (\<lambda>k. k_vault k = vid) (shares s) @ map (rotated_share (clock s) vid actor) new_shares"
    and us: "users s' = users s"
    by (simp_all add: same_but_audit_def)
  have "k \<in> set (shares s') \<and> k_vault k = vid \<longleftrightarrow> k \<in> rotated_share (clock s) vid actor ` set new_shares" for k
    by (auto simp: sh set_delete_rows)
  then have "{(k_user k, k_envelope k, k_team k, k_role k) |k. k \<in> set (shares s') \<and> k_vault k = vid} =
           {(uid, e, via, ''read'') |uid e via. (uid, e, via) \<in> set new_shares}"
    by (auto simp: image_iff) (metis fst_conv snd_conv rotated_share_fields(2-5))
  moreover have "filter (\<lambda>k. k_vault k \<noteq> vid) (map (rotated_share (clock s) vid actor) new_shares) = []"
    by (simp add: filter_empty_conv)
  then have "filter (\<lambda>k. k_vault k \<noteq> vid) (shares s') = filter (\<lambda>k. k_vault k \<noteq> vid) (shares s)"
    by (simp add: sh delete_rows_def)
  moreover have "(\<exists>t. open_vault_for_user P (v_owner v) vid mk s' = (Inr key, t)) \<longleftrightarrow> sealed_as P mk drawn env"
  proof -
    have "v_owner v \<in> set (user_ids s')"
      using db_okD(2) [OF ok] v(1) us by (auto simp: vaults_ok_def user_ids_def)
    moreover have "db_ok s'" by (rule keeps_run [OF team_service_keeps(8) run ok])
    ultimately show ?thesis
      using open_iff_sealed [OF laws] rotated_owner_envelope [OF ok v vs] key by auto
  qed
  ultimately show ?thesis using key by blast
qed

end
