(* ===== verification/Secret_Repository.thy ===== *)
theory Secret_Repository
  imports Vault_Repository
begin

text \<open>
  \<open>repositories/secret_repository.rs\<close>: reading secret rows, the live and the trash listings, and
  the trash life cycle (\<open>soft_delete\<close>, \<open>restore_secret\<close>, \<open>permanent_delete\<close>, \<open>empty_trash\<close>).
\<close>

section \<open>Rows into items\<close>

definition row_blob :: "blob_storage \<Rightarrow> secret_row \<Rightarrow> app_error + bytes" where
  "row_blob st r =
     (case st of
        Inline \<Rightarrow> (case si_blob r of None \<Rightarrow> Inl (Storage ''missing inline secret_blob in storage'') | Some b \<Rightarrow> Inr b)
      | BlobFile \<Rightarrow> (case si_file r of None \<Rightarrow> Inl (Storage ''missing file blob reference in storage'') | Some b \<Rightarrow> Inr b))"

definition row_to_secret_item :: "secret_row \<Rightarrow> app_error + secret_item" where
  "row_to_secret_item r =
     (if \<not> (0 \<le> si_usage r \<and> si_usage r < 2 ^ 32) then Inl (Database ColumnDecode)
      else case parse_secret_type_db (si_type r) of
        Inl e \<Rightarrow> Inl e
      | Inr ty \<Rightarrow>
         (case parse_blob_storage_db (si_storage r) of
            Inl e \<Rightarrow> Inl e
          | Inr st \<Rightarrow>
             (case row_blob st r of
                Inl e \<Rightarrow> Inl e
              | Inr b \<Rightarrow> Inr
                 \<lparr> secret_id = si_id r, secret_vault = si_vault r, s_type = ty, title = si_title r,
                   metadata_json = si_meta r, tags = si_tags r, expires_at = si_expires r,
                   created_at = Some (si_created r), modified_at = Some (si_modified r),
                   usage_count = word_of_int (si_usage r), storage = st, secret_blob = b,
                   deleted_at = si_deleted r \<rparr>)))"

definition live_secret :: "secret_row \<Rightarrow> bool" where
  "live_secret r \<longleftrightarrow> si_deleted r = None"

section \<open>Queries\<close>

definition secret_get_by_id :: "uuid \<Rightarrow> secret_item option dbm" where
  "secret_get_by_id sid =
     bindE (fetch_optional secrets (\<lambda>r. si_id r = sid \<and> live_secret r)) (\<lambda>row.
     case row of
       None \<Rightarrow> ret None
     | Some r \<Rightarrow> bindE (lift_result (row_to_secret_item r)) (\<lambda>i. ret (Some i)))"

text \<open>\<open>ORDER BY t DESC, id DESC\<close>; the text order of ids is their numeric order.\<close>

definition newest_first :: "(secret_row \<Rightarrow> timestamp) \<Rightarrow> secret_row list \<Rightarrow> secret_row list" where
  "newest_first t rows = rev (sort_key (\<lambda>r. (t r, si_id r)) rows)"

definition items_of :: "secret_row list \<Rightarrow> secret_item list dbm" where
  "items_of rows = lift_result (sequence_results (map row_to_secret_item rows))"

definition secret_list_by_vault :: "uuid \<Rightarrow> secret_item list dbm" where
  "secret_list_by_vault vid =
     bindE (fetch_all secrets (\<lambda>r. si_vault r = vid \<and> live_secret r)) (\<lambda>rows.
     items_of (newest_first si_created rows))"

definition deletion_time :: "secret_row \<Rightarrow> timestamp" where
  "deletion_time r = (case si_deleted r of None \<Rightarrow> 0 | Some t \<Rightarrow> t)"

definition secret_list_trash :: "uuid \<Rightarrow> secret_item list dbm" where
  "secret_list_trash vid =
     bindE (fetch_all secrets (\<lambda>r. si_vault r = vid \<and> \<not> live_secret r)) (\<lambda>rows.
     items_of (newest_first deletion_time rows))"

definition secret_list_trash_by_owner :: "uuid \<Rightarrow> secret_item list dbm" where
  "secret_list_trash_by_owner uid =
     bindE (gets (\<lambda>s. filter (\<lambda>r. \<not> live_secret r \<and>
              (\<exists>v\<in>set (vaults s). v_id v = si_vault r \<and> v_owner v = uid)) (secrets s))) (\<lambda>rows.
     items_of (newest_first deletion_time rows))"

section \<open>Updates\<close>

text \<open>Columns the INSERT does not name: creation and modification are the current time, no use yet.\<close>

definition new_secret_row :: "timestamp \<Rightarrow> secret_item \<Rightarrow> bytes \<Rightarrow> secret_row" where
  "new_secret_row t i blob =
     \<lparr> si_id = secret_id i, si_vault = secret_vault i, si_type = to_secret_type_db (s_type i),
       si_title = title i, si_meta = metadata_json i,
       si_blob = (if storage i = Inline then Some blob else None),
       si_file = (if storage i = BlobFile then Some blob else None),
       si_storage = to_blob_storage_db (storage i), si_tags = tags i, si_expires = expires_at i,
       si_created = t, si_modified = t, si_usage = 0, si_deleted = None \<rparr>"

definition secret_insert_blob :: "secret_item \<Rightarrow> bytes \<Rightarrow> unit dbm" where
  "secret_insert_blob i blob =
     bindE (gets clock) (\<lambda>t. exec_sql (insert_secret_row (new_secret_row t i blob)))"

definition secret_update_metadata ::
  "uuid \<Rightarrow> string option \<Rightarrow> string option \<Rightarrow> string option \<Rightarrow> string option \<Rightarrow> unit dbm" where
  "secret_update_metadata sid ti meta tg ex =
     require_rows
       (update_secrets (\<lambda>r. si_id r = sid \<and> live_secret r)
          (\<lambda>_ r. r\<lparr>si_title := ti, si_meta := meta, si_tags := tg, si_expires := ex\<rparr>))
       (Storage ''secret not found for metadata update'')"

definition store_blob :: "blob_storage \<Rightarrow> bytes \<Rightarrow> secret_row \<Rightarrow> secret_row" where
  "store_blob st blob r =
     (case st of
        Inline \<Rightarrow> r\<lparr>si_blob := Some blob, si_file := None\<rparr>
      | BlobFile \<Rightarrow> r\<lparr>si_file := Some blob, si_blob := None\<rparr>)"

definition secret_update_blob :: "uuid \<Rightarrow> bytes \<Rightarrow> unit dbm" where
  "secret_update_blob sid blob =
     bindE (fetch_optional secrets (\<lambda>r. si_id r = sid \<and> live_secret r)) (\<lambda>row.
     bindE (ok_or (Storage ''secret not found for blob update'') row) (\<lambda>r.
     bindE (lift_result (parse_blob_storage_db (si_storage r))) (\<lambda>st.
     require_rows
       (update_secrets (\<lambda>r. si_id r = sid \<and> live_secret r) (\<lambda>_. store_blob st blob))
       (Storage ''secret not found for blob update''))))"

definition secret_increment_usage :: "uuid \<Rightarrow> unit dbm" where
  "secret_increment_usage sid =
     require_rows
       (update_secrets (\<lambda>r. si_id r = sid \<and> live_secret r)
          (\<lambda>t r. r\<lparr>si_usage := si_usage r + 1, si_modified := t\<rparr>))
       (Storage ''secret not found for usage count increment'')"

definition secret_soft_delete :: "uuid \<Rightarrow> unit dbm" where
  "secret_soft_delete sid =
     require_rows
       (update_secrets (\<lambda>r. si_id r = sid \<and> live_secret r) (\<lambda>t r. r\<lparr>si_deleted := Some t\<rparr>))
       (Storage ''secret not found for delete'')"

text \<open>Restoring a secret also restores its vault when that one is deleted.\<close>

definition secret_restore :: "uuid \<Rightarrow> uuid \<Rightarrow> unit dbm" where
  "secret_restore sid vid =
     transaction
       (bindE (fetch_optional vaults (\<lambda>v. v_id v = vid)) (\<lambda>row.
        bindE (ok_or (Storage ''vault not found for restore'') row) (\<lambda>v.
        bindE (if v_deleted v \<noteq> None
               then bindE (update_vaults (\<lambda>v. v_id v = vid \<and> \<not> live v) (\<lambda>_ v. v\<lparr>v_deleted := None\<rparr>)) (\<lambda>_. ret ())
               else ret ()) (\<lambda>_.
        require_rows
          (update_secrets (\<lambda>r. si_id r = sid \<and> si_vault r = vid \<and> \<not> live_secret r)
             (\<lambda>_ r. r\<lparr>si_deleted := None\<rparr>))
          (Storage ''secret not found in trash'')))))"

definition delete_secrets :: "(secret_row \<Rightarrow> bool) \<Rightarrow> nat dbm" where
  "delete_secrets p = (\<lambda>s. (Inr (affected p (secrets s)), s\<lparr>secrets := delete_rows p (secrets s)\<rparr>))"

definition secret_permanent_delete :: "uuid \<Rightarrow> uuid \<Rightarrow> unit dbm" where
  "secret_permanent_delete sid vid =
     require_rows (delete_secrets (\<lambda>r. si_id r = sid \<and> si_vault r = vid \<and> \<not> live_secret r))
       (Storage ''secret not found for permanent delete'')"

definition secret_empty_trash :: "uuid \<Rightarrow> nat dbm" where
  "secret_empty_trash vid = delete_secrets (\<lambda>r. si_vault r = vid \<and> \<not> live_secret r)"

section \<open>Properties of the repository\<close>

lemma secret_queries_read [step_intros]:
  "reads_only (secret_get_by_id sid)" "reads_only (items_of rows)"
  "reads_only (secret_list_by_vault vid)" "reads_only (secret_list_trash vid)"
  "reads_only (secret_list_trash_by_owner uid)"
  unfolding secret_get_by_id_def secret_list_by_vault_def secret_list_trash_def
    secret_list_trash_by_owner_def items_of_def
  by (intro step_intros)+

lemma delete_secrets_keeps [step_intros]: "keeps db_ok (delete_secrets p)"
proof (rule keepsI)
  fix s assume ok: "db_ok s"
  then have "secrets_ok (vault_ids s) (delete_rows p (secrets s))"
    using db_okD(3) by (auto simp: secrets_ok_def table_simps)
  with ok show "db_ok (snd (delete_secrets p s))" by (simp add: delete_secrets_def one_table_ok)
qed

lemma store_blob_fields [simp]: "si_id (store_blob st b r) = si_id r" "si_vault (store_blob st b r) = si_vault r"
  by (simp_all add: store_blob_def split: blob_storage.split)

lemma secret_updates_keep [step_intros]:
  "keeps db_ok (secret_insert_blob i b)" "keeps db_ok (secret_update_metadata sid ti meta tg ex)"
  "keeps db_ok (secret_update_blob sid b)" "keeps db_ok (secret_increment_usage sid)"
  "keeps db_ok (secret_soft_delete sid)" "keeps db_ok (secret_restore sid vid)"
  "keeps db_ok (secret_permanent_delete sid vid)" "keeps db_ok (secret_empty_trash vid)"
  unfolding secret_insert_blob_def secret_update_metadata_def secret_update_blob_def
    secret_increment_usage_def secret_soft_delete_def secret_restore_def
    secret_permanent_delete_def secret_empty_trash_def
  by (intro step_intros keeps_reads | simp)+

text \<open>The row written for an item reads back as that item, with the blob it was given.\<close>

lemma new_row_reads_back:
  "row_to_secret_item (new_secret_row t i b) =
     Inr (i\<lparr>created_at := Some t, modified_at := Some t, usage_count := 0, secret_blob := b, deleted_at := None\<rparr>)"
proof -
  have "parse_secret_type_db (to_secret_type_db ty) = Inr ty" for ty
    by (cases ty) (simp_all add: parse_secret_type_db_def)
  then show ?thesis
    by (cases i; cases "storage i")
       (simp_all add: row_to_secret_item_def new_secret_row_def row_blob_def parse_blob_storage_db_def)
qed

lemma new_row_check: "secret_check (new_secret_row t i b)"
  by (cases "s_type i"; cases "storage i") (simp_all add: secret_check_def new_secret_row_def)

text \<open>A row that passes the schema's checks and whose counter fits reads back.\<close>

lemma checked_row_reads:
  "secret_check r \<Longrightarrow> 0 \<le> si_usage r \<Longrightarrow> si_usage r < 2 ^ 32 \<Longrightarrow> \<exists>i. row_to_secret_item r = Inr i"
  by (auto simp: secret_check_def row_to_secret_item_def parse_secret_type_db_def
      parse_blob_storage_db_def row_blob_def)

end
