(* ===== verification/Secret_Service.thy ===== *)
theory Secret_Service
  imports Secret_Repository Audit_Log_Service Crypto
begin

text \<open>
  \<open>services/secret_service.rs\<close>: sealing a secret under the vault key, reading it back, and its
  trash life cycle.  The new id and the nonce are arguments.  Only the deletions and the creation
  are audited, without an actor, and a failing audit write is dropped.
\<close>

record decrypted_secret =
  ds_id :: uuid
  ds_vault :: uuid
  ds_type :: secret_type
  ds_storage :: blob_storage
  secret_value :: bytes

definition blob_storage_for_type :: "secret_type \<Rightarrow> blob_storage" where
  "blob_storage_for_type ty = (case ty of SecureDocument \<Rightarrow> BlobFile | _ \<Rightarrow> Inline)"

definition validate_plaintext_secret :: "bytes \<Rightarrow> app_error + unit" where
  "validate_plaintext_secret pt =
     (if pt = [] then Inl (Validation ''secret value must not be empty'') else Inr ())"

definition secret_title_detail :: "string option \<Rightarrow> rich_text" where
  "secret_title_detail ti =
     [Lit ''{\"title\":\"'', Lit (case ti of None \<Rightarrow> ''Sans titre'' | Some t \<Rightarrow> t), Lit ''\"}'']"

definition create_secret ::
  "primitives \<Rightarrow> uuid \<Rightarrow> bytes option \<Rightarrow> uuid \<Rightarrow> secret_type \<Rightarrow> string option \<Rightarrow> string option \<Rightarrow>
   string option \<Rightarrow> string option \<Rightarrow> bytes \<Rightarrow> bytes \<Rightarrow> secret_item dbm" where
  "create_secret P new_id nonce_rnd vid ty ti meta tg ex plaintext vault_key =
     bindE (lift_result (validate_plaintext_secret plaintext)) (\<lambda>_.
     bindE (lift_result (encrypt P nonce_rnd plaintext vault_key)) (\<lambda>payload.
     let blob = serialize_payload payload;
         item = \<lparr> secret_id = new_id, secret_vault = vid, s_type = ty, title = ti, metadata_json = meta,
                  tags = tg, expires_at = ex, created_at = None, modified_at = None, usage_count = 0,
                  storage = blob_storage_for_type ty, secret_blob = blob, deleted_at = None \<rparr> in
     bindE (secret_insert_blob item blob) (\<lambda>_.
     bindE (ignore_error (record_event None SecretCreated (Some ''secret'') (Some (TargetId new_id))
              (Some (secret_title_detail ti)))) (\<lambda>_.
     ret item))))"

definition get_secret :: "primitives \<Rightarrow> uuid \<Rightarrow> bytes \<Rightarrow> decrypted_secret dbm" where
  "get_secret P sid vault_key =
     bindE (secret_get_by_id sid) (\<lambda>i_opt.
     bindE (ok_or (NotFound ''secret not found'') i_opt) (\<lambda>i.
     bindE (lift_result (deserialize_payload (secret_blob i))) (\<lambda>payload.
     bindE (lift_result (decrypt P payload vault_key)) (\<lambda>v.
     ret \<lparr> ds_id = secret_id i, ds_vault = secret_vault i, ds_type = s_type i, ds_storage = storage i,
           secret_value = v \<rparr>))))"

definition update_secret ::
  "primitives \<Rightarrow> bytes option \<Rightarrow> uuid \<Rightarrow> string option \<Rightarrow> string option \<Rightarrow> string option \<Rightarrow>
   string option \<Rightarrow> bytes option \<Rightarrow> bytes \<Rightarrow> unit dbm" where
  "update_secret P nonce_rnd sid ti meta tg ex plaintext_opt vault_key =
     bindE (secret_update_metadata sid ti meta tg ex) (\<lambda>_.
     case plaintext_opt of
       None \<Rightarrow> ret ()
     | Some plaintext \<Rightarrow>
         bindE (lift_result (validate_plaintext_secret plaintext)) (\<lambda>_.
         bindE (lift_result (encrypt P nonce_rnd plaintext vault_key)) (\<lambda>payload.
         secret_update_blob sid (serialize_payload payload))))"

definition list_by_vault :: "uuid \<Rightarrow> secret_item list dbm" where
  "list_by_vault vid = secret_list_by_vault vid"

definition list_trash_by_vault :: "uuid \<Rightarrow> secret_item list dbm" where
  "list_trash_by_vault vid = secret_list_trash vid"

definition list_all_trash_by_user :: "uuid \<Rightarrow> secret_item list dbm" where
  "list_all_trash_by_user uid = secret_list_trash_by_owner uid"

definition record_deletion :: "uuid \<Rightarrow> string \<Rightarrow> unit dbm" where
  "record_deletion sid how =
     ignore_error (record_event None SecretDeleted (Some ''secret'') (Some (TargetId sid)) (Some [Lit how]))"

definition soft_delete :: "uuid \<Rightarrow> unit dbm" where
  "soft_delete sid = bindE (secret_soft_delete sid) (\<lambda>_. record_deletion sid ''soft'')"

definition restore_secret :: "uuid \<Rightarrow> uuid \<Rightarrow> unit dbm" where
  "restore_secret sid vid = secret_restore sid vid"

definition permanent_delete :: "uuid \<Rightarrow> uuid \<Rightarrow> unit dbm" where
  "permanent_delete sid vid = bindE (secret_permanent_delete sid vid) (\<lambda>_. record_deletion sid ''permanent'')"

definition empty_trash :: "uuid \<Rightarrow> nat dbm" where
  "empty_trash vid = secret_empty_trash vid"

definition increment_usage_count :: "uuid \<Rightarrow> unit dbm" where
  "increment_usage_count sid = secret_increment_usage sid"

definition find_duplicate_secrets :: "uuid \<Rightarrow> bytes \<Rightarrow> uuid list dbm" where
  "find_duplicate_secrets vid sv =
     bindE (secret_list_by_vault vid) (\<lambda>items.
     ret (map secret_id (filter (\<lambda>i. secret_blob i = sv) items)))"

text \<open>An audit write whose failure is dropped always returns, and touches the log only.\<close>

lemma dropped_event_same:
  "ignore_error (record_event actor act tty tid det) s = (r, s') \<longleftrightarrow>
     r = Inr () \<and> s' = snd (record_event actor act tty tid det s)"
  "same_but_audit s (snd (record_event actor act tty tid det s))"
  using record_event_same [of actor act tty tid det s "fst (record_event actor act tty tid det s)"]
  by (auto simp: ignore_error_run)

section \<open>Steps along the invariant\<close>

lemma secret_service_reads [step_intros]:
  "reads_only (get_secret P sid key)" "reads_only (list_by_vault vid)" "reads_only (list_trash_by_vault vid)"
  "reads_only (list_all_trash_by_user uid)" "reads_only (find_duplicate_secrets vid sv)"
  unfolding get_secret_def list_by_vault_def list_trash_by_vault_def list_all_trash_by_user_def
    find_duplicate_secrets_def
  by (intro step_intros)+

lemma secret_service_keeps [step_intros]:
  "keeps db_ok (create_secret P i nr vid ty ti meta tg ex pt key)"
  "keeps db_ok (update_secret P nr sid ti meta tg ex po key)"
  "keeps db_ok (soft_delete sid)" "keeps db_ok (restore_secret sid vid)"
  "keeps db_ok (permanent_delete sid vid)" "keeps db_ok (empty_trash vid)"
  "keeps db_ok (increment_usage_count sid)"
  unfolding create_secret_def update_secret_def soft_delete_def restore_secret_def permanent_delete_def
    empty_trash_def increment_usage_count_def record_deletion_def Let_def
  by (intro step_intros)+

end
