(* ===== verification/Secret_Properties.thy ===== *)
theory Secret_Properties
  imports Secret_Service
begin

text \<open>
  What a secret goes through: created it reads back, in the trash it does not, restored it is what
  it was; and what the operations leave alone.  \<open>live_row s sid\<close> is the row a read goes to.
\<close>

definition live_row :: "db \<Rightarrow> uuid \<Rightarrow> secret_row option" where
  "live_row s sid = first_row (\<lambda>r. si_id r = sid \<and> live_secret r) (secrets s)"

definition opened_row :: "primitives \<Rightarrow> bytes \<Rightarrow> secret_row \<Rightarrow> app_error + decrypted_secret" where
  "opened_row P key r =
     (case row_to_secret_item r of
        Inl e \<Rightarrow> Inl e
      | Inr i \<Rightarrow>
         (case deserialize_payload (secret_blob i) of
            Inl e \<Rightarrow> Inl e
          | Inr q \<Rightarrow>
             (case decrypt P q key of
                Inl e \<Rightarrow> Inl e
              | Inr v \<Rightarrow> Inr \<lparr> ds_id = secret_id i, ds_vault = secret_vault i, ds_type = s_type i,
                              ds_storage = storage i, secret_value = v \<rparr>)))"

text \<open>Reading is opening the live row.\<close>

lemma get_secret_run:
  "get_secret P sid key s =
     (case live_row s sid of None \<Rightarrow> Inl (NotFound ''secret not found'') | Some r \<Rightarrow> opened_row P key r, s)"
  by (simp add: get_secret_def secret_get_by_id_def live_row_def opened_row_def bindE_run run_simps
      split: option.split sum.split)

lemma live_rowI:
  assumes "db_ok s" and "r \<in> set (secrets s)" and "live_secret r" and "si_id r = sid"
  shows "live_row s sid = Some r"
proof -
  have d: "distinct (map si_id (secrets s))" using db_okD(3) [OF assms(1)] by (simp add: secrets_ok_def)
  show ?thesis unfolding live_row_def by (rule first_row_unique [OF d assms(2), where x = sid]) (use assms in auto)
qed

lemma live_rowD: "live_row s sid = Some r \<Longrightarrow> r \<in> set (secrets s) \<and> si_id r = sid \<and> live_secret r"
  by (auto simp: live_row_def dest: first_row_SomeD)

lemma id_row_unique:
  "db_ok s \<Longrightarrow> r \<in> set (secrets s) \<Longrightarrow> r' \<in> set (secrets s) \<Longrightarrow> si_id r = si_id r' \<Longrightarrow> r = r'"
  using db_okD(3) unique_key_row unfolding secrets_ok_def by metis

lemma live_row_same: "same_but_audit s s' \<Longrightarrow> live_row s' = live_row s"
  by (auto simp: same_but_audit_def live_row_def)

text \<open>An update of one secret's row, keeping its id, leaves the live rows of the others alone.\<close>

lemma live_row_update_other:
  assumes "secrets s' = update_rows p f (secrets s)" and "\<And>r. p r \<Longrightarrow> si_id r \<noteq> x"
    and "\<And>r. si_id (f r) = si_id r"
  shows "live_row s' x = live_row s x"
proof -
  have "find (\<lambda>r. si_id r = x \<and> live_secret r) (update_rows p f rows) = find (\<lambda>r. si_id r = x \<and> live_secret r) rows" for rows
    using assms(2,3) by (induction rows) (auto simp: update_rows_def)
  then show ?thesis by (simp add: live_row_def first_row_def assms(1))
qed

lemma live_row_update_same:
  assumes "live_row s sid = Some r" and "secrets s' = update_rows (\<lambda>r. si_id r = sid \<and> live_secret r) f (secrets s)"
    and "\<And>r. si_id (f r) = si_id r" and "\<And>r. live_secret (f r) = live_secret r"
  shows "live_row s' sid = Some (f r)"
  using assms live_rowD [OF assms(1)] unfolding live_row_def by (simp add: first_row_update)

lemma opened_sealed:
  assumes "aead_laws P" and "length n = NONCE_LEN" and "encrypt P (Some n) pt key = Inr q"
    and "row_to_secret_item r = Inr i" and "secret_blob i = serialize_payload q"
  shows "opened_row P key r = Inr \<lparr> ds_id = secret_id i, ds_vault = secret_vault i, ds_type = s_type i,
            ds_storage = storage i, secret_value = pt \<rparr>"
proof -
  note so = secret_envelope.seal_open [OF assms(1-3)]
  then have "deserialize_payload (serialize_payload q) = Inr q" by (simp add: ok_of_Some)
  with so assms show ?thesis by (simp add: opened_row_def)
qed

section \<open>Creating and reading\<close>

lemma create_secret_effect:
  assumes "create_secret P new_id nr vid ty ti meta tg ex pt key s = (Inr i, s')"
  obtains q where "pt \<noteq> []" "encrypt P nr pt key = Inr q" "new_id \<notin> set (map si_id (secrets s))"
    "i = \<lparr> secret_id = new_id, secret_vault = vid, s_type = ty, title = ti, metadata_json = meta,
           tags = tg, expires_at = ex, created_at = None, modified_at = None, usage_count = 0,
           storage = blob_storage_for_type ty, secret_blob = serialize_payload q, deleted_at = None \<rparr>"
    "same_but_audit (s\<lparr>secrets := secrets s @ [new_secret_row (clock s) i (serialize_payload q)]\<rparr>) s'"
proof -
  from assms obtain q s1 where pt: "pt \<noteq> []" and q: "encrypt P nr pt key = Inr q"
    and i: "i = \<lparr> secret_id = new_id, secret_vault = vid, s_type = ty, title = ti, metadata_json = meta,
           tags = tg, expires_at = ex, created_at = None, modified_at = None, usage_count = 0,
           storage = blob_storage_for_type ty, secret_blob = serialize_payload q, deleted_at = None \<rparr>"
    and ins: "secret_insert_blob i (serialize_payload q) s = (Inr (), s1)"
    and ev: "s' = snd (record_event None SecretCreated (Some ''secret'') (Some (TargetId new_id)) (Some (secret_title_detail ti)) s1)"
    by (auto simp: create_secret_def Let_def returns_iff validate_plaintext_secret_def dropped_event_same split: if_splits)
  have "s1 = s\<lparr>secrets := secrets s @ [new_secret_row (clock s) i (serialize_payload q)]\<rparr>"
    and fresh: "secret_id i \<notin> set (map si_id (secrets s))"
    using ins by (auto simp: secret_insert_blob_def returns_iff exec_sql_returns insert_secret_row_def
        new_secret_row_def split: if_splits)
  moreover have "same_but_audit s1 s'" unfolding ev by (rule dropped_event_same)
  ultimately show thesis using that [OF pt q _ i] i by simp
qed

text \<open>C12. A secret that \<open>create_secret\<close> returned reads back under the same vault key as the very bytes
  it was created from, with its type and vault; the reading of every other secret is what it was.\<close>

theorem created_secret_reads_back:
  assumes laws: "aead_laws P" and nonce: "length n = NONCE_LEN"
    and run: "create_secret P new_id (Some n) vid ty ti meta tg ex plaintext key s = (Inr i, s')"
  shows "get_secret P new_id key s' =
           (Inr \<lparr> ds_id = new_id, ds_vault = vid, ds_type = ty, ds_storage = blob_storage_for_type ty,
                  secret_value = plaintext \<rparr>, s') \<and>
         (\<forall>x k. x \<noteq> new_id \<longrightarrow> fst (get_secret P x k s') = fst (get_secret P x k s))"
proof -
  from create_secret_effect [OF run] obtain q where q: "encrypt P (Some n) plaintext key = Inr q"
    and fresh: "new_id \<notin> set (map si_id (secrets s))"
    and i: "i = \<lparr> secret_id = new_id, secret_vault = vid, s_type = ty, title = ti, metadata_json = meta,
           tags = tg, expires_at = ex, created_at = None, modified_at = None, usage_count = 0,
           storage = blob_storage_for_type ty, secret_blob = serialize_payload q, deleted_at = None \<rparr>"
    and same: "same_but_audit (s\<lparr>secrets := secrets s @ [new_secret_row (clock s) i (serialize_payload q)]\<rparr>) s'" .
  let ?r = "new_secret_row (clock s) i (serialize_payload q)"
  have secs: "secrets s' = secrets s @ [?r]" using same by (simp add: same_but_audit_def)
  have r: "si_id ?r = new_id" "live_secret ?r" by (simp_all add: new_secret_row_def live_secret_def i)
  have "live_row s new_id = None" using fresh by (auto simp: live_row_def first_row_None)
  then have "live_row s' new_id = Some ?r" using r by (simp add: live_row_def secs first_row_append)
  moreover have "opened_row P key ?r = Inr \<lparr> ds_id = new_id, ds_vault = vid, ds_type = ty,
      ds_storage = blob_storage_for_type ty, secret_value = plaintext \<rparr>"
    using opened_sealed [OF laws nonce q new_row_reads_back] by (simp add: i)
  moreover have "live_row s' x = live_row s x" if "x \<noteq> new_id" for x
    using that r(1) by (simp add: live_row_def secs first_row_append split: option.split)
  ultimately show ?thesis by (simp add: get_secret_run)
qed

section \<open>Updating\<close>

lemma update_secrets_run:
  assumes "db_ok s" and "\<And>r. secret_check r \<Longrightarrow> p r \<Longrightarrow> secret_check (f (clock s) r)"
  shows "update_secrets p f s =
     (Inr (affected p (secrets s)), s\<lparr>secrets := update_rows p (f (clock s)) (secrets s)\<rparr>)"
proof -
  have "\<forall>r\<in>set (secrets s). secret_check r" using db_okD(3) [OF assms(1)] by (simp add: secrets_ok_def)
  then have "\<forall>r\<in>set (update_rows p (f (clock s)) (secrets s)). secret_check r"
    using assms(2) by (auto simp: set_update_rows)
  then show ?thesis by (simp add: update_secrets_def)
qed

lemma affected_live: "live_row s sid = Some r \<Longrightarrow> affected (\<lambda>r. si_id r = sid \<and> live_secret r) (secrets s) \<noteq> 0"
  by (auto simp: affected_0 dest: live_rowD)

definition with_metadata ::
  "string option \<Rightarrow> string option \<Rightarrow> string option \<Rightarrow> string option \<Rightarrow> secret_row \<Rightarrow> secret_row" where
  "with_metadata ti meta tg ex r = r\<lparr>si_title := ti, si_meta := meta, si_tags := tg, si_expires := ex\<rparr>"

lemma with_metadata_simps [simp]:
  "si_id (with_metadata ti meta tg ex r) = si_id r" "live_secret (with_metadata ti meta tg ex r) = live_secret r"
  "si_storage (with_metadata ti meta tg ex r) = si_storage r"
  "secret_check (with_metadata ti meta tg ex r) = secret_check r"
  by (simp_all add: with_metadata_def live_secret_def secret_check_def)

lemma metadata_run:
  assumes "db_ok s" and "live_row s sid = Some r"
  shows "secret_update_metadata sid ti meta tg ex s =
     (Inr (), s\<lparr>secrets := update_rows (\<lambda>r. si_id r = sid \<and> live_secret r) (with_metadata ti meta tg ex) (secrets s)\<rparr>)"
proof -
  have "update_secrets (\<lambda>r. si_id r = sid \<and> live_secret r) (\<lambda>_. with_metadata ti meta tg ex) s =
      (Inr (affected (\<lambda>r. si_id r = sid \<and> live_secret r) (secrets s)),
       s\<lparr>secrets := update_rows (\<lambda>r. si_id r = sid \<and> live_secret r) (with_metadata ti meta tg ex) (secrets s)\<rparr>)"
    by (rule update_secrets_run [OF assms(1)]) simp
  then show ?thesis using affected_live [OF assms(2)]
    by (simp add: secret_update_metadata_def with_metadata_def [abs_def] require_rows_def bindE_run run_simps)
qed

lemma update_blob_returns:
  "secret_update_blob sid b s = (Inr (), s') \<Longrightarrow> live_row s sid = Some r \<Longrightarrow>
     \<exists>st. parse_blob_storage_db (si_storage r) = Inr st \<and>
        s' = s\<lparr>secrets := update_rows (\<lambda>r. si_id r = sid \<and> live_secret r) (store_blob st b) (secrets s)\<rparr>"
  by (auto simp: secret_update_blob_def bindE_run run_simps live_row_def require_rows_def update_secrets_def Let_def
      split: if_splits sum.splits)

lemma stored_blob_reads:
  assumes "row_to_secret_item r = Inr i" and "parse_blob_storage_db (si_storage r) = Inr st"
  shows "row_to_secret_item (store_blob st b (with_metadata ti meta tg ex r)) =
     Inr (i\<lparr>title := ti, metadata_json := meta, tags := tg, expires_at := ex, secret_blob := b\<rparr>)"
  using assms
  by (cases st) (auto simp: row_to_secret_item_def store_blob_def with_metadata_def row_blob_def
      split: if_splits sum.splits option.splits)

text \<open>C13. A completed update of the value of a readable secret reads back under the vault key used, with
  the type and vault unchanged and the new metadata in its row; every other secret reads as before.\<close>

theorem updated_secret_reads_back:
  assumes laws: "aead_laws P" and nonce: "length n = NONCE_LEN" and ok: "db_ok s"
    and before: "get_secret P sid k0 s = (Inr d, s0)"
    and run: "update_secret P (Some n) sid ti meta tg ex (Some plaintext) key s = (Inr (), s')"
  shows "get_secret P sid key s' = (Inr (d\<lparr>secret_value := plaintext\<rparr>), s') \<and>
         (\<exists>r. live_row s' sid = Some r \<and> si_title r = ti \<and> si_meta r = meta \<and> si_tags r = tg \<and> si_expires r = ex) \<and>
         (\<forall>x k. x \<noteq> sid \<longrightarrow> fst (get_secret P x k s') = fst (get_secret P x k s))"
proof -
  let ?m = "with_metadata ti meta tg ex"
  let ?p = "\<lambda>r. si_id r = sid \<and> live_secret r"
  let ?s1 = "s\<lparr>secrets := update_rows ?p ?m (secrets s)\<rparr>"
  from before obtain r i where row: "live_row s sid = Some r" and i: "row_to_secret_item r = Inr i"
    and d: "ds_id d = secret_id i" "ds_vault d = secret_vault i" "ds_type d = s_type i" "ds_storage d = storage i"
    by (auto simp: get_secret_run opened_row_def split: option.splits sum.splits)
  have row1: "live_row ?s1 sid = Some (?m r)" by (rule live_row_update_same [OF row]) simp_all
  from run obtain q where q: "encrypt P (Some n) plaintext key = Inr q"
    and up: "secret_update_blob sid (serialize_payload q) ?s1 = (Inr (), s')"
    by (auto simp: update_secret_def metadata_run [OF ok row] bindE_run run_simps split: sum.splits)
  from update_blob_returns [OF up row1] obtain st where st: "parse_blob_storage_db (si_storage r) = Inr st"
    and s': "s' = ?s1\<lparr>secrets := update_rows ?p (store_blob st (serialize_payload q)) (secrets ?s1)\<rparr>"
    by auto
  let ?r = "store_blob st (serialize_payload q) (?m r)"
  have sl: "live_secret (store_blob st b x) = live_secret x" for b x
    by (cases st) (simp_all add: store_blob_def live_secret_def)
  have row': "live_row s' sid = Some ?r"
    by (rule live_row_update_same [OF row1]) (simp_all add: s' sl)
  moreover have "opened_row P key ?r = Inr (d\<lparr>secret_value := plaintext\<rparr>)"
    using opened_sealed [OF laws nonce q stored_blob_reads [OF i st]] d by (cases d) simp
  moreover have "si_title ?r = ti" "si_meta ?r = meta" "si_tags ?r = tg" "si_expires ?r = ex"
    by (cases st; simp add: store_blob_def with_metadata_def)+
  moreover have "live_row s' x = live_row s x" if "x \<noteq> sid" for x
  proof -
    have "live_row s' x = live_row ?s1 x"
      by (rule live_row_update_other [where p = ?p and f = "store_blob st (serialize_payload q)"])
        (use that in \<open>auto simp: s'\<close>)
    also have "\<dots> = live_row s x"
      by (rule live_row_update_other [where p = ?p and f = ?m]) (use that in auto)
    finally show ?thesis .
  qed
  ultimately show ?thesis by (simp add: get_secret_run)
qed

text \<open>An update is not atomic: with an empty new value it fails, after the metadata of the secret
  has been replaced.\<close>

theorem rejected_update_has_changed_the_metadata:
  assumes "db_ok s" and "live_row s sid = Some r"
  shows "\<exists>s'. update_secret P nr sid ti meta tg ex (Some []) key s =
                (Inl (Validation ''secret value must not be empty''), s') \<and>
              live_row s' sid = Some (with_metadata ti meta tg ex r)"
proof -
  let ?s1 = "s\<lparr>secrets := update_rows (\<lambda>r. si_id r = sid \<and> live_secret r) (with_metadata ti meta tg ex) (secrets s)\<rparr>"
  have "live_row ?s1 sid = Some (with_metadata ti meta tg ex r)"
    by (rule live_row_update_same [OF assms(2)]) simp_all
  then show ?thesis
    by (simp add: update_secret_def metadata_run [OF assms] bindE_run run_simps validate_plaintext_secret_def)
qed

section \<open>The trash\<close>

definition trash_rows :: "db \<Rightarrow> uuid \<Rightarrow> secret_row set" where
  "trash_rows s vid = {r \<in> set (secrets s). si_vault r = vid \<and> \<not> live_secret r}"

lemma soft_delete_run:
  assumes "db_ok s" and "live_row s sid = Some r"
  shows "\<exists>s'. soft_delete sid s = (Inr (), s') \<and>
     same_but_audit (s\<lparr>secrets := update_rows (\<lambda>r. si_id r = sid \<and> live_secret r) (\<lambda>r. r\<lparr>si_deleted := Some (clock s)\<rparr>) (secrets s)\<rparr>) s'"
proof -
  have "update_secrets (\<lambda>r. si_id r = sid \<and> live_secret r) (\<lambda>t r. r\<lparr>si_deleted := Some t\<rparr>) s =
     (Inr (affected (\<lambda>r. si_id r = sid \<and> live_secret r) (secrets s)),
      s\<lparr>secrets := update_rows (\<lambda>r. si_id r = sid \<and> live_secret r) (\<lambda>r. r\<lparr>si_deleted := Some (clock s)\<rparr>) (secrets s)\<rparr>)"
    by (rule update_secrets_run [OF assms(1)]) (simp add: secret_check_def)
  then show ?thesis using affected_live [OF assms(2)] dropped_event_same(2)
    by (simp add: soft_delete_def secret_soft_delete_def record_deletion_def require_rows_def bindE_run run_simps)
qed

lemma restore_returns:
  "restore_secret sid vid s = (Inr (), s') \<longleftrightarrow>
     (\<exists>v. first_row (\<lambda>v. v_id v = vid) (vaults s) = Some v \<and>
      (\<exists>r\<in>set (secrets s). si_id r = sid \<and> si_vault r = vid \<and> \<not> live_secret r) \<and>
      (\<forall>r\<in>set (update_rows (\<lambda>r. si_id r = sid \<and> si_vault r = vid \<and> \<not> live_secret r) (\<lambda>r. r\<lparr>si_deleted := None\<rparr>) (secrets s)).
         secret_check r) \<and>
      s' = s\<lparr>vaults := (if live v then vaults s
               else update_rows (\<lambda>v. v_id v = vid \<and> \<not> live v) (\<lambda>v. v\<lparr>v_deleted := None\<rparr>) (vaults s)),
             secrets := update_rows (\<lambda>r. si_id r = sid \<and> si_vault r = vid \<and> \<not> live_secret r)
               (\<lambda>r. r\<lparr>si_deleted := None\<rparr>) (secrets s)\<rparr>)"
  unfolding restore_secret_def secret_restore_def transaction_returns
  by (auto simp: bindE_run run_simps require_rows_def update_secrets_def update_vaults_def Let_def affected_pos live_def
      split: option.splits if_splits)

text \<open>A live secret moved to the trash is not found by any reading and is listed in the trash of
  its vault; restoring it from there returns, leaves the secrets table exactly as it was before, and
  makes the vault live.  Restoring asks for no user.\<close>

theorem trash_and_restore_is_the_identity:
  assumes ok: "db_ok s" and row: "live_row s sid = Some r"
  shows "\<exists>s1 s2. soft_delete sid s = (Inr (), s1) \<and>
           fst (get_secret P sid key s1) = Inl (NotFound ''secret not found'') \<and>
           r\<lparr>si_deleted := Some (clock s)\<rparr> \<in> trash_rows s1 (si_vault r) \<and>
           restore_secret sid (si_vault r) s1 = (Inr (), s2) \<and> secrets s2 = secrets s \<and>
           (\<forall>v\<in>set (vaults s2). v_id v = si_vault r \<longrightarrow> live v)"
proof -
  let ?p = "\<lambda>r. si_id r = sid \<and> live_secret r"
  let ?d = "\<lambda>r. r\<lparr>si_deleted := Some (clock s)\<rparr>"
  let ?u = "\<lambda>r. r\<lparr>si_deleted := None\<rparr>"
  have r: "r \<in> set (secrets s)" "si_id r = sid" "live_secret r" using live_rowD [OF row] by auto
  have uniq: "x = r" if "x \<in> set (secrets s)" "si_id x = sid" for x
    using id_row_unique [OF ok that(1) r(1)] that r by simp
  from soft_delete_run [OF ok row] obtain s1 where run: "soft_delete sid s = (Inr (), s1)"
    and same: "same_but_audit (s\<lparr>secrets := update_rows ?p ?d (secrets s)\<rparr>) s1" by blast
  then have secs: "secrets s1 = update_rows ?p ?d (secrets s)" and vs: "vaults s1 = vaults s"
    by (simp_all add: same_but_audit_def)
  have gone: "live_row s1 sid = None"
    unfolding live_row_def secs first_row_None
  proof
    fix x assume "x \<in> set (update_rows ?p ?d (secrets s))"
    then show "\<not> ?p x" by (cases rule: update_rowsE) (simp_all add: live_secret_def)
  qed
  have listed: "?d r \<in> set (secrets s1)" using r by (auto simp: secs set_update_rows image_iff)
  have ok1: "db_ok s1" by (rule keeps_run [OF secret_service_keeps(3) run ok])
  have restored: "update_rows (\<lambda>x. si_id x = sid \<and> si_vault x = si_vault r \<and> \<not> live_secret x) ?u (secrets s1) = secrets s"
  proof -
    have "(\<lambda>x. if si_id x = sid \<and> si_vault x = si_vault r \<and> \<not> live_secret x then ?u x else x)
            (if ?p x then ?d x else x) = x" if "x \<in> set (secrets s)" for x
      using uniq [OF that] r(3) by (cases "si_id x = sid") (auto simp: live_secret_def)
    then show ?thesis unfolding secs update_rows_def map_map comp_def by (intro map_idI) auto
  qed
  have "si_vault r \<in> set (vault_ids s1)" using db_okD(3) [OF ok] r(1) vs by (auto simp: secrets_ok_def vault_ids_def)
  then obtain v where v: "first_row (\<lambda>v. v_id v = si_vault r) (vaults s1) = Some v"
    by (cases "first_row (\<lambda>v. v_id v = si_vault r) (vaults s1)") (auto simp: first_row_None vault_ids_def)
  have checks: "\<forall>x\<in>set (secrets s). secret_check x" using db_okD(3) [OF ok] by (simp add: secrets_ok_def)
  let ?s2 = "s1\<lparr>vaults := (if live v then vaults s1
               else update_rows (\<lambda>v. v_id v = si_vault r \<and> \<not> live v) (\<lambda>v. v\<lparr>v_deleted := None\<rparr>) (vaults s1)),
             secrets := secrets s\<rparr>"
  have trashed: "\<exists>x\<in>set (secrets s1). si_id x = sid \<and> si_vault x = si_vault r \<and> \<not> live_secret x"
    using listed r(2) by (intro bexI [of _ "?d r"]) (simp_all add: live_secret_def)
  have rest: "restore_secret sid (si_vault r) s1 = (Inr (), ?s2)"
    unfolding restore_returns restored by (intro exI [of _ v] conjI v checks trashed refl)
  have dv: "distinct (map v_id (vaults s1))" using db_okD(2) [OF ok1] by (simp add: vaults_ok_def)
  have "live w" if "w \<in> set (vaults ?s2)" "v_id w = si_vault r" for w
  proof (cases "live v")
    case True
    with that unique_key_row [OF dv, of w v] first_row_SomeD [OF v] show ?thesis by simp
  qed (use that in \<open>auto simp: set_update_rows live_def split: if_splits\<close>)
  moreover have "?d r \<in> trash_rows s1 (si_vault r)" using listed by (simp add: trash_rows_def live_secret_def)
  moreover have "fst (get_secret P sid key s1) = Inl (NotFound ''secret not found'')"
    by (simp add: get_secret_run gone)
  moreover have "secrets ?s2 = secrets s" by simp
  ultimately show ?thesis by (intro exI [of _ s1] exI [of _ ?s2] conjI ballI impI run rest)
qed

lemma trashed_update:
  "{r \<in> set (update_rows (\<lambda>r. si_id r = sid \<and> si_vault r = vid \<and> \<not> live_secret r) (\<lambda>r. r\<lparr>si_deleted := None\<rparr>) rows).
      si_vault r = vid \<and> \<not> live_secret r} =
   {r \<in> {r \<in> set rows. si_vault r = vid \<and> \<not> live_secret r}. si_id r \<noteq> sid}"
  (is "{r \<in> set (update_rows ?p ?u rows). ?t r} = ?rhs")
proof (intro set_eqI iffI)
  fix x assume "x \<in> {r \<in> set (update_rows ?p ?u rows). ?t r}"
  then have x: "x \<in> set (update_rows ?p ?u rows)" and t: "?t x" by auto
  from x show "x \<in> ?rhs"
  proof (cases rule: update_rowsE)
    case (changed r)
    then have "live_secret x" by (simp add: live_secret_def)
    with t show ?thesis by simp
  qed (use t in simp)
next
  fix x assume x: "x \<in> ?rhs"
  then have "x = (if ?p x then ?u x else x)" by simp
  moreover have "x \<in> set rows" using x by simp
  ultimately have "x \<in> set (update_rows ?p ?u rows)" unfolding set_update_rows by (rule image_eqI)
  with x show "x \<in> {r \<in> set (update_rows ?p ?u rows). ?t r}" by simp
qed

text \<open>Restoring one secret of a deleted vault brings the vault back for everyone who had access to
  it, while its other secrets stay in the trash.\<close>

theorem restoring_one_secret_revives_its_vault:
  assumes ok: "db_ok s" and v: "v \<in> set (vaults s)" "\<not> live v" "v_id v = vid"
    and run: "restore_secret sid vid s = (Inr (), s')"
  shows "\<not> has_access s (v_owner v) vid \<and> has_access s' (v_owner v) vid \<and>
         (\<forall>k\<in>set (shares s). k_vault k = vid \<longrightarrow> has_access s' (k_user k) vid) \<and>
         trash_rows s' vid = {r \<in> trash_rows s vid. si_id r \<noteq> sid}"
proof -
  have dv: "distinct (map v_id (vaults s))" using db_okD(2) [OF ok] by (simp add: vaults_ok_def)
  have first: "first_row (\<lambda>v. v_id v = vid) (vaults s) = Some v"
    by (rule first_row_unique [OF dv v(1), where x = vid]) (use v in auto)
  with run v(2) have s': "vaults s' = update_rows (\<lambda>v. v_id v = vid \<and> \<not> live v) (\<lambda>v. v\<lparr>v_deleted := None\<rparr>) (vaults s)"
    "secrets s' = update_rows (\<lambda>r. si_id r = sid \<and> si_vault r = vid \<and> \<not> live_secret r) (\<lambda>r. r\<lparr>si_deleted := None\<rparr>) (secrets s)"
    "shares s' = shares s"
    by (auto simp: restore_returns)
  have "\<not> has_access s (v_owner v) vid"
    unfolding has_access_def using unique_key_row [OF dv _ v(1)] v(2,3) by metis
  moreover have w: "v\<lparr>v_deleted := None\<rparr> \<in> set (vaults s')" using v by (auto simp: s' set_update_rows image_iff)
  then have "has_access s' (v_owner v) vid" unfolding has_access_def
    by (intro bexI [OF _ w]) (simp add: v(3) live_def)
  moreover have "has_access s' (k_user k) vid" if "k \<in> set (shares s)" "k_vault k = vid" for k
    unfolding has_access_def by (intro bexI [OF _ w]) (use that in \<open>auto simp: v(3) live_def s'\<close>)
  moreover have "trash_rows s' vid = {r \<in> trash_rows s vid. si_id r \<noteq> sid}"
    using trashed_update [of sid vid "secrets s"] by (simp add: trash_rows_def s')
  ultimately show ?thesis by blast
qed

text \<open>C27. Only the trash can be emptied: a permanent deletion that returned found the secret in the trash
  of the vault it names, and removed that row and nothing else; emptying removes exactly the trash of
  the vault and returns the number of its rows.  A live secret is never removed.\<close>

theorem only_trashed_secrets_are_destroyed:
  assumes ok: "db_ok s"
  shows "(\<forall>s'. permanent_delete sid vid s = (Inr (), s') \<longrightarrow>
            (\<exists>r\<in>trash_rows s vid. si_id r = sid) \<and> set (secrets s') = {r \<in> set (secrets s). si_id r \<noteq> sid}) \<and>
         (\<exists>s'. empty_trash vid s = (Inr (card (trash_rows s vid)), s') \<and>
            set (secrets s') = set (secrets s) - trash_rows s vid) \<and>
         (live_row s sid \<noteq> None \<longrightarrow>
            permanent_delete sid vid s = (Inl (Storage ''secret not found for permanent delete''), s))"
proof (intro conjI allI impI)
  fix s' assume run: "permanent_delete sid vid s = (Inr (), s')"
  let ?p = "\<lambda>r. si_id r = sid \<and> si_vault r = vid \<and> \<not> live_secret r"
  from run have ex: "\<exists>r\<in>set (secrets s). ?p r"
    and same: "same_but_audit (s\<lparr>secrets := delete_rows ?p (secrets s)\<rparr>) s'"
    using dropped_event_same(2)
    by (auto simp: permanent_delete_def secret_permanent_delete_def require_rows_def delete_secrets_def
        record_deletion_def bindE_run run_simps affected_pos split: if_splits)
  then show "\<exists>r\<in>trash_rows s vid. si_id r = sid" by (auto simp: trash_rows_def)
  from ex have "?p r" if "r \<in> set (secrets s)" "si_id r = sid" for r
    using id_row_unique [OF ok that(1)] that by blast
  then show "set (secrets s') = {r \<in> set (secrets s). si_id r \<noteq> sid}"
    using same by (auto simp: same_but_audit_def set_delete_rows)
next
  let ?q = "\<lambda>r. si_vault r = vid \<and> \<not> live_secret r"
  have "distinct (secrets s)" using db_okD(3) [OF ok] by (simp add: secrets_ok_def distinct_map)
  then have "affected ?q (secrets s) = card (trash_rows s vid)"
    by (simp add: affected_def trash_rows_def distinct_card [symmetric])
  then show "\<exists>s'. empty_trash vid s = (Inr (card (trash_rows s vid)), s') \<and>
            set (secrets s') = set (secrets s) - trash_rows s vid"
    by (auto simp: empty_trash_def secret_empty_trash_def delete_secrets_def set_delete_rows trash_rows_def)
next
  assume "live_row s sid \<noteq> None"
  then obtain r where r: "r \<in> set (secrets s)" "si_id r = sid" "live_secret r" using live_rowD by blast
  have "\<not> (x \<in> set (secrets s) \<and> si_id x = sid \<and> \<not> live_secret x)" for x
    using id_row_unique [OF ok _ r(1), of x] r by auto
  then have none: "affected (\<lambda>r. si_id r = sid \<and> si_vault r = vid \<and> \<not> live_secret r) (secrets s) = 0"
    "delete_rows (\<lambda>r. si_id r = sid \<and> si_vault r = vid \<and> \<not> live_secret r) (secrets s) = secrets s"
    by (auto simp: affected_0 delete_rows_def intro!: filter_True)
  then show "permanent_delete sid vid s = (Inl (Storage ''secret not found for permanent delete''), s)"
    by (simp add: permanent_delete_def secret_permanent_delete_def require_rows_def delete_secrets_def bindE_run run_simps)
qed

end
