(* ===== verification/Demo.thy ===== *)
theory Demo
  imports Admin_Properties Team_Properties Secret_Properties
begin

text \<open>
  A concrete instance of the parameters and a small concrete database, at which the witnesses apply
  the properties: the cipher appends the key, which decryption checks and removes; the key
  derivation cuts password and salt to 32 bytes.
\<close>

definition demo_encrypt :: "bytes \<Rightarrow> bytes \<Rightarrow> bytes \<Rightarrow> bytes option" where
  "demo_encrypt k n p = Some (p @ k)"

definition demo_decrypt :: "bytes \<Rightarrow> bytes \<Rightarrow> bytes \<Rightarrow> bytes option" where
  "demo_decrypt k n c =
     (let m = length c - length k in
      if length k \<le> length c \<and> drop m c = k then Some (take m c) else None)"

definition demo_kdf :: "kdf_config \<Rightarrow> bytes \<Rightarrow> bytes \<Rightarrow> bytes option" where
  "demo_kdf cfg pw salt = Some (take 32 (pw @ salt @ replicate 32 0))"

definition demo_P :: primitives where
  "demo_P = \<lparr> aes_key = (\<lambda>k. length k = 32), aead_encrypt = demo_encrypt, aead_decrypt = demo_decrypt,
              argon2_params = (\<lambda>_. True), argon2id = demo_kdf \<rparr>"

lemma demo_laws: "aead_laws demo_P"
proof -
  have "p @ k = c" if "demo_decrypt k n c = Some p" for k n p c
  proof -
    from that have "p = take (length c - length k) c" "drop (length c - length k) c = k"
      by (auto simp: demo_decrypt_def Let_def split: if_splits)
    then show ?thesis by (metis append_take_drop_id)
  qed
  moreover have "demo_decrypt k n (p @ k) = Some p" for k n p by (simp add: demo_decrypt_def)
  ultimately show ?thesis by (auto simp: aead_laws_def demo_P_def demo_encrypt_def)
qed

definition demo_cfg :: kdf_config where "demo_cfg = default_kdf_config"
definition demo_nonce :: bytes where "demo_nonce = replicate 12 5"
definition demo_salt :: bytes where "demo_salt = replicate 32 6"
definition demo_key :: bytes where "demo_key = replicate 32 7"
definition ada_pw :: bytes where "ada_pw = str_bytes ''correct horse battery''"
definition bob_pw :: bytes where "bob_pw = str_bytes ''staple and so on''"

definition demo_cred :: "bytes \<Rightarrow> credential" where
  "demo_cred pw = \<lparr> password_salt = demo_salt, password_hash = take 32 (pw @ demo_salt @ replicate 32 0) \<rparr>"

definition ada_key :: bytes where "ada_key = password_hash (demo_cred ada_pw)"
definition bob_key :: bytes where "bob_key = password_hash (demo_cred bob_pw)"

text \<open>Ada (1) is an admin and owns vault 10 with secret 20; Bob (2) leads team 30, of which Cleo (3), a
  second admin, is a member.  Cleo holds a share of the vault through the team.\<close>

definition demo_user :: "uuid \<Rightarrow> string \<Rightarrow> string \<Rightarrow> bytes \<Rightarrow> user_row" where
  "demo_user i n ro pw =
     \<lparr> u_id = i, u_name = n, u_role = ro, u_password = Some (encode_password_envelope (demo_cred pw)),
       u_totp_envelope = None, u_email = None, u_display = None, u_updated = None, u_show = 0,
       u_totp = None, u_lang = ''fr'' \<rparr>"

definition demo_seal :: "bytes \<Rightarrow> bytes \<Rightarrow> bytes" where
  "demo_seal pt k = demo_nonce @ pt @ k"

definition demo_secret :: secret_row where
  "demo_secret =
     \<lparr> si_id = 20, si_vault = 10, si_type = ''password'', si_title = Some ''mail'', si_meta = None,
       si_blob = Some (demo_seal (str_bytes ''hunter2'') demo_key), si_file = None, si_storage = ''inline'',
       si_tags = None, si_expires = None, si_created = 3, si_modified = 3, si_usage = 0, si_deleted = None \<rparr>"

definition demo_share :: share_row where
  "demo_share =
     \<lparr> k_vault = 10, k_user = 3, k_envelope = demo_seal demo_key bob_key, k_by = Some 1, k_team = Some 30,
       k_at = 4, k_role = ''read'' \<rparr>"

definition demo_vault :: vault_row where
  "demo_vault = \<lparr> v_id = 10, v_owner = 1, v_name = ''home'', v_key = Some (demo_seal demo_key ada_key),
     v_version = 2, v_deleted = None \<rparr>"

definition demo_db :: db where
  "demo_db =
     \<lparr> users = [demo_user 1 ''ada'' ''admin'' ada_pw, demo_user 2 ''bob'' ''user'' bob_pw,
                demo_user 3 ''cleo'' ''admin'' bob_pw],
       vaults = [demo_vault],
       secrets = [demo_secret],
       teams = [\<lparr> t_id = 30, t_name = ''family'', t_by = Some 2, t_created = 2 \<rparr>],
       members = [\<lparr> m_team = 30, m_user = 2, m_role = ''leader'', m_joined = 2 \<rparr>,
                  \<lparr> m_team = 30, m_user = 3, m_role = ''member'', m_joined = 3 \<rparr>],
       shares = [demo_share], audits = [], audit_seq = 0, logins = [], login_seq = 0, policies = [], clock = 9 \<rparr>"

definition demo_auth :: auth_state where
  "demo_auth = \<lparr> shutdown_in_progress = False,
     credentials = [''ada'' \<mapsto> demo_cred ada_pw, ''bob'' \<mapsto> demo_cred bob_pw, ''cleo'' \<mapsto> demo_cred bob_pw] \<rparr>"

definition demo_app :: app where
  "demo_app = \<lparr> app_db = demo_db, app_auth = demo_auth \<rparr>"

lemma demo_db_ok: "db_ok demo_db"
  by code_simp

end
