(* ===== verification/Account_Witnesses.thy ===== *)
theory Account_Witnesses
  imports Demo
begin

text \<open>The properties of the accounts and of the authentication service, applied at concrete inputs.\<close>

lemma demo_salt_cred: "key_of demo_P demo_cfg bob_pw demo_salt = Some bob_key"
  by code_simp

theorem registered_password_verifies_witness:
  "\<exists>s'. auth_create_user demo_P demo_cfg (Some demo_salt) ''dora'' bob_pw demo_auth = (Inr (), s') \<and>
        verify_password demo_P demo_cfg ''dora'' bob_pw s' = (Inr True, s')"
proof -
  have run: "auth_create_user demo_P demo_cfg (Some demo_salt) ''dora'' bob_pw demo_auth =
      (Inr (), snd (auth_create_user demo_P demo_cfg (Some demo_salt) ''dora'' bob_pw demo_auth))"
    by (rule run_ok) code_simp
  show ?thesis using run registered_password_verifies [OF run] by blast
qed

theorem created_user_can_log_in_witness:
  "\<exists>res w'. admin_create_user demo_P demo_cfg (Some demo_salt) 4 1 ''  dora '' bob_pw RoleUser demo_app = (Inr res, w') \<and>
        verify_password demo_P demo_cfg ''dora'' bob_pw (app_auth w') = (Inr True, app_auth w')"
proof -
  let ?m = "admin_create_user demo_P demo_cfg (Some demo_salt) 4 1 ''  dora '' bob_pw RoleUser"
  have ok: "db_ok (app_db demo_app)" by (simp add: demo_app_def demo_db_ok)
  have "case fst (?m demo_app) of Inr _ \<Rightarrow> True | Inl _ \<Rightarrow> False" by code_simp
  then obtain res where "fst (?m demo_app) = Inr res" by (auto split: sum.splits)
  then have run: "?m demo_app = (Inr res, snd (?m demo_app))" by (rule run_ok)
  have "trim ''  dora '' = ''dora''" by code_simp
  with created_user_can_log_in [OF ok run] run show ?thesis by auto
qed

theorem password_change_replaces_the_password_witness:
  "\<exists>s'. change_password demo_P demo_cfg (Some demo_nonce) ''bob'' bob_pw ada_pw demo_auth = (Inr (), s') \<and>
        verify_password demo_P demo_cfg ''bob'' ada_pw s' = (Inr True, s')"
proof -
  let ?m = "change_password demo_P demo_cfg (Some demo_nonce) ''bob'' bob_pw ada_pw"
  have run: "?m demo_auth = (Inr (), snd (?m demo_auth))" by (rule run_ok) code_simp
  from password_change_replaces_the_password run show ?thesis by blast
qed

lemma demo_cred_ok: "credential_ok (demo_cred pw)"
  by (simp add: credential_ok_def demo_cred_def demo_salt_def)

theorem password_envelope_round_trip_witness:
  "decode_password_envelope (encode_password_envelope (demo_cred bob_pw)) = Inr (demo_cred bob_pw) \<and>
   derive_master_key_from_password_envelope (encode_password_envelope (demo_cred bob_pw)) = Inr bob_key"
  using password_envelope_round_trip [of "encode_password_envelope (demo_cred bob_pw)" "demo_cred bob_pw"] demo_cred_ok
  by (simp add: bob_key_def)

theorem credentials_survive_restart_witness:
  "\<exists>env t'. get_password_envelope ''bob'' demo_auth = (Inr env, demo_auth) \<and>
     upsert_password_envelope ''bob'' env new_auth_state = (Inr (), t') \<and>
     credentials t' ''bob'' = Some (demo_cred bob_pw)"
proof -
  let ?env = "encode_password_envelope (demo_cred bob_pw)"
  have c: "credentials demo_auth ''bob'' = Some (demo_cred bob_pw)" by (simp add: demo_auth_def)
  have out: "get_password_envelope ''bob'' demo_auth = (Inr ?env, demo_auth)"
    by (simp add: get_envelope_returns c) (simp add: demo_auth_def)
  have into: "upsert_password_envelope ''bob'' ?env new_auth_state = (Inr (), snd (upsert_password_envelope ''bob'' ?env new_auth_state))"
    by (rule run_ok) code_simp
  from credentials_survive_restart [OF c demo_cred_ok out into] out into c show ?thesis by auto
qed

lemma demo_app_ok: "db_ok (app_db demo_app)"
  by (simp add: demo_app_def demo_db_ok)

theorem the_last_admin_stays_witness:
  "admins (app_db (snd (admin_delete_user 1 3 demo_app))) \<noteq> []"
proof -
  have "admins (app_db demo_app) \<noteq> []" by code_simp
  from the_last_admin_stays [OF demo_app_ok this] show ?thesis by blast
qed

theorem deleting_oneself_succeeds_with_an_error_witness:
  "\<exists>w'. admin_delete_user 1 1 demo_app = (Inl (Database ForeignKeyViolation), w') \<and>
        1 \<notin> set (user_ids (app_db w'))"
proof -
  have "demo_user 1 ''ada'' ''admin'' ada_pw \<in> set (admins (app_db demo_app))" by code_simp
  moreover have "u_id (demo_user 1 ''ada'' ''admin'' ada_pw) = 1" by (simp add: demo_user_def)
  moreover have "1 < length (admins (app_db demo_app))" by code_simp
  ultimately show ?thesis using deleting_oneself_succeeds_with_an_error [OF demo_app_ok] by blast
qed

definition blank_app :: app where
  "blank_app = \<lparr> app_db = empty_db 5, app_auth = new_auth_state \<rparr>"

theorem bootstrap_creates_the_only_admin_witness:
  "\<exists>res w'. bootstrap_first_admin demo_P demo_cfg (Some demo_salt) 1 ''ada'' ada_pw blank_app = (Inr res, w') \<and>
     fst (bootstrap_first_admin demo_P demo_cfg (Some demo_salt) 2 ''eve'' bob_pw w') =
       Inl (Conflict ''vault already initialized; use the login form to access your account'')"
proof -
  let ?m = "bootstrap_first_admin demo_P demo_cfg (Some demo_salt) 1 ''ada'' ada_pw"
  have ok: "db_ok (app_db blank_app)" by (simp add: blank_app_def empty_db_ok)
  have "case fst (?m blank_app) of Inr _ \<Rightarrow> True | Inl _ \<Rightarrow> False" by code_simp
  then obtain res where "fst (?m blank_app) = Inr res" by (auto split: sum.splits)
  then have run: "?m blank_app = (Inr res, snd (?m blank_app))" by (rule run_ok)
  from bootstrap_creates_the_only_admin [OF ok run, of "Some demo_salt" 2 "''eve''" bob_pw] run
  show ?thesis by (intro exI [of _ res] exI [of _ "snd (?m blank_app)"]) simp
qed

theorem deleted_username_stays_taken_witness:
  "\<exists>w'. admin_delete_user 1 2 demo_app = (Inr (), w') \<and>
     admin_create_user demo_P demo_cfg (Some demo_salt) 7 1 ''bob'' bob_pw RoleUser w' =
       (Inl (Conflict ''username already exists''), w')"
proof -
  let ?r = "demo_user 2 ''bob'' ''user'' bob_pw"
  have row: "?r \<in> set (users (app_db demo_app))" "u_id ?r = 2" by code_simp+
  have name: "u_name ?r = ''bob''" by (simp add: demo_user_def)
  have tr: "trim (u_name ?r) = u_name ?r" "u_name ?r \<noteq> []" by code_simp+
  have mem: "credentials (app_auth demo_app) (u_name ?r) = Some (demo_cred bob_pw)"
    "\<not> shutdown_in_progress (app_auth demo_app)" by (simp_all add: name demo_app_def demo_auth_def)
  have run: "admin_delete_user 1 2 demo_app = (Inr (), snd (admin_delete_user 1 2 demo_app))" by (rule run_ok) code_simp
  from deleted_username_stays_taken [OF demo_app_ok row tr mem run, of demo_P demo_cfg "Some demo_salt" 7 bob_pw RoleUser] run
  show ?thesis by (intro exI [of _ "snd (admin_delete_user 1 2 demo_app)"]) (simp add: name)
qed

theorem password_change_does_not_rewrap_vaults_witness:
  "\<exists>w'. change_master_password demo_P demo_cfg (Some demo_nonce) 1 ada_pw bob_pw demo_app = (Inr (), w') \<and>
     (\<exists>t. open_vault_for_user demo_P 1 10 ada_key (app_db w') = (Inr demo_key, t))"
proof -
  let ?m = "change_master_password demo_P demo_cfg (Some demo_nonce) 1 ada_pw bob_pw"
  have run: "?m demo_app = (Inr (), snd (?m demo_app))" by (rule run_ok) code_simp
  have "\<exists>t. open_vault_for_user demo_P 1 10 ada_key (app_db demo_app) = (Inr demo_key, t)"
    by (rule exI, rule run_ok) code_simp
  with password_change_does_not_rewrap_vaults [OF demo_laws demo_app_ok run] run show ?thesis by blast
qed

definition mail_update :: "bytes option \<Rightarrow> user_profile_update" where
  "mail_update pw = \<lparr> up_email = Some ''bob@example.org'', up_display_name = None, up_language = None,
     up_show_passwords = None, up_current_password = pw \<rparr>"

theorem email_change_needs_the_password_witness:
  "\<exists>e. update_user_profile demo_P demo_cfg 2 (mail_update None) demo_app = (Inl e, demo_app)"
proof -
  let ?r = "demo_user 2 ''bob'' ''user'' bob_pw"
  have row: "?r \<in> set (users (app_db demo_app))" "u_id ?r = 2" by code_simp+
  have change: "trimmed_or_none (up_email (mail_update None)) \<noteq> u_email ?r" by code_simp
  have "up_current_password (mail_update None) = None" by (simp add: mail_update_def)
  with email_change_needs_the_password [OF demo_app_ok row change, of demo_P demo_cfg] show ?thesis by simp
qed

theorem startup_loads_the_stored_credentials_witness:
  "\<exists>w'. load_password_envelopes_from_db (demo_app\<lparr>app_auth := new_auth_state\<rparr>) = (Inr (), w') \<and>
        credentials (app_auth w') ''bob'' = Some (demo_cred bob_pw)"
proof -
  let ?w = "demo_app\<lparr>app_auth := new_auth_state\<rparr>"
  let ?r = "demo_user 2 ''bob'' ''user'' bob_pw"
  let ?env = "encode_password_envelope (demo_cred bob_pw)"
  have ok: "db_ok (app_db ?w)" by (simp add: demo_app_ok)
  have up: "\<not> shutdown_in_progress (app_auth ?w)" by (simp add: new_auth_state_def)
  have run: "load_password_envelopes_from_db ?w = (Inr (), snd (load_password_envelopes_from_db ?w))"
    by (rule run_ok) code_simp
  have r: "?r \<in> set (users (app_db ?w))" by (simp add: demo_app_def demo_db_def)
  have e: "u_password ?r = Some ?env" "u_name ?r = ''bob''" by (simp_all add: demo_user_def)
  have "credentials (app_auth (snd (load_password_envelopes_from_db ?w))) (u_name ?r) = ok_of (decode_password_envelope ?env)"
    using startup_loads_the_stored_credentials [OF ok up] run r e(1) by blast
  with run e(2) show ?thesis by (auto simp: decode_encode [OF demo_cred_ok])
qed

end
