(* ===== verification/Vault_Witnesses.thy ===== *)
theory Vault_Witnesses
  imports Demo
begin

text \<open>The properties of vaults and secrets, applied at the concrete database.\<close>

lemma demo_sealed:
  assumes "length k = 32"
  shows "sealed_as demo_P k pt (demo_seal pt k)"
proof -
  let ?q = "\<lparr> nonce = demo_nonce, ciphertext = pt @ k \<rparr>"
  have "encrypt demo_P (Some demo_nonce) pt k = Inr ?q"
    using assms by (simp add: encrypt_Inr demo_P_def demo_encrypt_def)
  moreover have "length demo_nonce = NONCE_LEN" by (simp add: demo_nonce_def NONCE_LEN_def)
  moreover have "demo_seal pt k = serialize_envelope ?q" by (simp add: demo_seal_def serialize_envelope_def)
  ultimately show ?thesis unfolding sealed_as_def by (intro exI [of _ ?q]) simp
qed

lemma demo_lengths: "length demo_nonce = NONCE_LEN" "length ada_key = 32" "length bob_key = 32"
  by (simp_all add: demo_nonce_def NONCE_LEN_def ada_key_def bob_key_def demo_cred_def demo_salt_def)

section \<open>Vaults\<close>

theorem open_vault_exactly_the_sealed_key_witness:
  "\<exists>t. open_vault_for_user demo_P 1 10 ada_key demo_db = (Inr demo_key, t)"
proof -
  have user: "1 \<in> set (user_ids demo_db)" by code_simp
  have "envelope_for demo_db 1 10 = Some (demo_seal demo_key ada_key)" by code_simp
  moreover have "sealed_as demo_P ada_key demo_key (demo_seal demo_key ada_key)"
    by (rule demo_sealed) (rule demo_lengths)
  ultimately show ?thesis
    using open_vault_exactly_the_sealed_key [OF demo_laws demo_db_ok user, of 10 ada_key demo_key] by blast
qed

theorem open_vault_denied_without_access_witness:
  "open_vault_for_user demo_P 2 10 ada_key demo_db = (Inl (Authorization VaultAccessDenied), demo_db)"
  by (rule open_vault_denied_without_access [OF demo_db_ok]; code_simp)

theorem created_vault_opens_for_its_owner_only_witness:
  "\<exists>v s'. create_vault demo_P 11 (Some demo_key) (Some demo_nonce) 2 ''work'' bob_key demo_db = (Inr v, s') \<and>
          vault_id v = 11 \<and> (\<exists>t. open_vault_for_user demo_P 2 11 bob_key s' = (Inr demo_key, t)) \<and>
          has_access s' 2 11 \<and> \<not> has_access s' 1 11"
proof -
  let ?m = "create_vault demo_P 11 (Some demo_key) (Some demo_nonce) 2 ''work'' bob_key"
  let ?v = "\<lparr> vault_id = 11, owner_user_id = 2, vault_name = ''work'' \<rparr>"
  have run: "?m demo_db = (Inr ?v, snd (?m demo_db))" by (rule run_ok) code_simp
  from created_vault_opens_for_its_owner_only [OF demo_laws demo_db_ok demo_lengths(1) run] run
  show ?thesis by (intro exI [of _ ?v] exI [of _ "snd (?m demo_db)"]) simp
qed

theorem delete_vault_specification_witness:
  "\<exists>s'. delete_vault 1 10 demo_db = (Inr (), s') \<and> same_but_audit (trash_vault 10 demo_db) s' \<and>
        \<not> has_access s' 1 10 \<and> \<not> has_access s' 3 10"
proof -
  have user: "1 \<in> set (user_ids demo_db)" and may: "may_delete demo_db 1 10" by code_simp+
  obtain r s' where run: "delete_vault 1 10 demo_db = (r, s')" by fastforce
  from delete_vault_specification [OF demo_db_ok user run] may have "r = Inr ()" by simp
  with delete_vault_specification [OF demo_db_ok user run] may run show ?thesis by blast
qed

section \<open>Secrets\<close>

theorem created_secret_reads_back_witness:
  "\<exists>i s'. create_secret demo_P 21 (Some demo_nonce) 10 ApiToken (Some ''ci'') None None None [1, 2, 3] demo_key demo_db = (Inr i, s') \<and>
          get_secret demo_P 21 demo_key s' =
            (Inr \<lparr> ds_id = 21, ds_vault = 10, ds_type = ApiToken, ds_storage = Inline, secret_value = [1, 2, 3] \<rparr>, s') \<and>
          fst (get_secret demo_P 20 demo_key s') = fst (get_secret demo_P 20 demo_key demo_db)"
proof -
  let ?m = "create_secret demo_P 21 (Some demo_nonce) 10 ApiToken (Some ''ci'') None None None [1, 2, 3] demo_key"
  have "case fst (?m demo_db) of Inr _ \<Rightarrow> True | Inl _ \<Rightarrow> False" by code_simp
  then obtain i where "fst (?m demo_db) = Inr i" by (auto split: sum.splits)
  then have run: "?m demo_db = (Inr i, snd (?m demo_db))" by (rule run_ok)
  from created_secret_reads_back [OF demo_laws demo_lengths(1) run] run
  show ?thesis
    by (intro exI [of _ i] exI [of _ "snd (?m demo_db)"]) (simp add: blob_storage_for_type_def)
qed

lemma demo_secret_live: "live_row demo_db 20 = Some demo_secret"
  by (rule live_rowI [OF demo_db_ok]) (simp_all add: demo_db_def demo_secret_def live_secret_def)

theorem updated_secret_reads_back_witness:
  "\<exists>d s'. update_secret demo_P (Some demo_nonce) 20 (Some ''new'') None None None (Some [9]) demo_key demo_db = (Inr (), s') \<and>
          get_secret demo_P 20 demo_key s' = (Inr (d\<lparr>secret_value := [9]\<rparr>), s')"
proof -
  let ?m = "update_secret demo_P (Some demo_nonce) 20 (Some ''new'') None None None (Some [9]) demo_key"
  have run: "?m demo_db = (Inr (), snd (?m demo_db))" by (rule run_ok) code_simp
  have "case fst (get_secret demo_P 20 demo_key demo_db) of Inr _ \<Rightarrow> True | Inl _ \<Rightarrow> False" by code_simp
  then obtain d where "fst (get_secret demo_P 20 demo_key demo_db) = Inr d" by (auto split: sum.splits)
  then have before: "get_secret demo_P 20 demo_key demo_db = (Inr d, snd (get_secret demo_P 20 demo_key demo_db))"
    by (rule run_ok)
  from updated_secret_reads_back [OF demo_laws demo_lengths(1) demo_db_ok before run] run show ?thesis by blast
qed

theorem rejected_update_has_changed_the_metadata_witness:
  "\<exists>s'. update_secret demo_P None 20 (Some ''new'') None None None (Some []) demo_key demo_db =
           (Inl (Validation ''secret value must not be empty''), s') \<and>
        live_row s' 20 = Some (with_metadata (Some ''new'') None None None demo_secret)"
  by (rule rejected_update_has_changed_the_metadata [OF demo_db_ok demo_secret_live])

theorem trash_and_restore_is_the_identity_witness:
  "\<exists>s1 s2. soft_delete 20 demo_db = (Inr (), s1) \<and> restore_secret 20 10 s1 = (Inr (), s2) \<and>
           secrets s2 = secrets demo_db"
  using trash_and_restore_is_the_identity [OF demo_db_ok demo_secret_live, of demo_P demo_key]
  by (auto simp: demo_secret_def)

theorem restoring_one_secret_revives_its_vault_witness:
  "\<exists>s s'. delete_vault 1 10 demo_db = (Inr (), s) \<and> restore_secret 20 10 s = (Inr (), s') \<and>
          \<not> has_access s 1 10 \<and> has_access s' 1 10"
proof -
  let ?d = "snd (delete_vault 1 10 demo_db)"
  let ?v = "demo_vault\<lparr>v_deleted := Some 9\<rparr>"
  have del: "delete_vault 1 10 demo_db = (Inr (), ?d)" by (rule run_ok) code_simp
  have ok: "db_ok ?d" by (rule keepsD [OF vault_service_keeps(4) demo_db_ok])
  have v: "?v \<in> set (vaults ?d)" by code_simp
  have w: "\<not> live ?v" "v_id ?v = 10" "v_owner ?v = 1" by (simp_all add: live_def demo_vault_def)
  have run: "restore_secret 20 10 ?d = (Inr (), snd (restore_secret 20 10 ?d))" by (rule run_ok) code_simp
  note revived = restoring_one_secret_revives_its_vault [OF ok v w(1,2) run, unfolded w(3)]
  show ?thesis
    by (intro exI [of _ ?d] exI [of _ "snd (restore_secret 20 10 ?d)"] conjI del run revived [THEN conjunct1]
        revived [THEN conjunct2, THEN conjunct1])
qed

theorem only_trashed_secrets_are_destroyed_witness:
  "permanent_delete 20 10 demo_db = (Inl (Storage ''secret not found for permanent delete''), demo_db)"
proof -
  have live: "live_row demo_db 20 \<noteq> None" by (simp add: demo_secret_live)
  show ?thesis using only_trashed_secrets_are_destroyed [OF demo_db_ok, of 20 10] live by simp
qed

end
