(* ===== verification/Team_Witnesses.thy ===== *)
theory Team_Witnesses
  imports Vault_Witnesses
begin

text \<open>The properties of sharing and teams, applied at the concrete database.\<close>

lemma demo_vault_row: "demo_vault \<in> set (vaults demo_db)" "live demo_vault" "v_id demo_vault = 10"
  "v_owner demo_vault = 1"
  by (simp_all add: demo_db_def demo_vault_def live_def)

lemma demo_share_row: "share_at (shares demo_db) (10, 3) = Some demo_share"
  by (simp add: demo_db_def demo_share_def share_at_def first_row_def share_key_def)

theorem granted_user_opens_with_own_key_witness:
  "\<exists>s'. grant_vault_access demo_P (Some demo_nonce) 1 10 2 demo_key bob_key demo_db = (Inr (), s') \<and>
        (\<exists>t. open_vault_for_user demo_P 2 10 bob_key s' = (Inr demo_key, t))"
proof -
  let ?m = "grant_vault_access demo_P (Some demo_nonce) 1 10 2 demo_key bob_key"
  have other: "v_owner demo_vault \<noteq> 2" by (simp add: demo_vault_row)
  have run: "?m demo_db = (Inr (), snd (?m demo_db))" by (rule run_ok) code_simp
  from granted_user_opens_with_own_key [OF demo_laws demo_db_ok demo_lengths(1) demo_vault_row(1-3) other run] run
  show ?thesis by blast
qed

theorem sharing_asks_no_permission_of_the_actor_witness:
  "\<not> has_access demo_db 2 10 \<and>
   (\<exists>s'. grant_vault_access demo_P (Some demo_nonce) 2 10 2 demo_key bob_key demo_db = (Inr (), s')) \<and>
   (\<exists>s'. revoke_vault_access 2 10 3 demo_db = (Inr (), s') \<and> share_at (shares s') (10, 3) = None)"
proof -
  have users: "2 \<in> set (user_ids demo_db)" and vault: "10 \<in> set (vault_ids demo_db)" by code_simp+
  have q: "encrypt demo_P (Some demo_nonce) demo_key bob_key = Inr \<lparr> nonce = demo_nonce, ciphertext = demo_key @ bob_key \<rparr>"
    by (simp add: encrypt_Inr demo_P_def demo_encrypt_def demo_lengths)
  have "\<not> has_access demo_db 2 10" by code_simp
  then show ?thesis
    using sharing_asks_no_permission_of_the_actor [OF users users vault q, of 3] by blast
qed

theorem revoked_user_has_no_access_witness:
  "\<exists>s'. has_access demo_db 3 10 \<and> revoke_vault_access 1 10 3 demo_db = (Inr (), s') \<and> \<not> has_access s' 3 10"
proof -
  have run: "revoke_vault_access 1 10 3 demo_db = (Inr (), snd (revoke_vault_access 1 10 3 demo_db))"
    by (rule run_ok) code_simp
  have "has_access demo_db 3 10" by code_simp
  moreover have "\<not> (\<exists>v\<in>set (vaults demo_db). v_id v = 10 \<and> live v \<and> v_owner v = 3)" by code_simp
  ultimately show ?thesis using revoked_user_has_no_access [OF run] run by metis
qed

theorem team_share_opens_for_every_member_with_a_key_witness:
  "\<exists>s'. share_vault_with_team demo_P (\<lambda>_. Some demo_nonce) 1 10 30 demo_key [] demo_db = (Inr (), s') \<and>
        (\<exists>t. open_vault_for_user demo_P 2 10 bob_key s' = (Inr demo_key, t))"
proof -
  let ?m = "share_vault_with_team demo_P (\<lambda>_. Some demo_nonce) 1 10 30 demo_key []"
  have nonces: "\<And>m n. (\<lambda>_::uuid. Some demo_nonce) m = Some n \<Longrightarrow> length n = NONCE_LEN"
    by (auto simp: demo_lengths)
  have run: "?m demo_db = (Inr (), snd (?m demo_db))" by (rule run_ok) code_simp
  have m: "2 \<in> set (team_member_ids demo_db 30)" "effective_key demo_db [] 2 = Some bob_key" by code_simp+
  have "2 \<noteq> v_owner demo_vault" by (simp add: demo_vault_row)
  with team_share_opens_for_every_member_with_a_key [OF demo_laws demo_db_ok nonces demo_vault_row(1-3) run] m run
  show ?thesis by blast
qed

theorem removed_member_loses_team_access_witness:
  "\<exists>s'. has_access demo_db 3 10 \<and> remove_member 2 30 3 demo_db = (Inr (), s') \<and>
        3 \<notin> set (team_member_ids s' 30) \<and> \<not> has_access s' 3 10"
proof -
  let ?s = "snd (remove_member 2 30 3 demo_db)"
  have run: "remove_member 2 30 3 demo_db = (Inr (), ?s)" by (rule run_ok) code_simp
  have pre: "has_access demo_db 3 10" "\<forall>k\<in>set (shares demo_db). k_vault k = 10 \<and> k_user k = 3 \<longrightarrow> k_team k = Some 30"
    "\<not> (\<exists>v\<in>set (vaults demo_db). v_id v = 10 \<and> v_owner v = 3)" by code_simp+
  from removed_member_loses_team_access [OF demo_db_ok run]
  have post: "3 \<notin> set (team_member_ids ?s 30)" "\<not> has_access ?s 3 10" using pre by blast+
  show ?thesis using run pre(1) post by blast
qed

text \<open>Bob first gets a direct share, then the vault again through his team, and leaves the team.\<close>

definition direct_db :: db where
  "direct_db = snd (grant_vault_access demo_P (Some demo_nonce) 1 10 2 demo_key bob_key demo_db)"

theorem team_share_replaces_a_direct_share_witness:
  "\<exists>s1 s2. has_access direct_db 2 10 \<and>
     share_vault_with_team demo_P (\<lambda>_. Some demo_nonce) 1 10 30 demo_key [] direct_db = (Inr (), s1) \<and>
     remove_member 2 30 2 s1 = (Inr (), s2) \<and> \<not> has_access s2 2 10"
proof -
  let ?m = "share_vault_with_team demo_P (\<lambda>_. Some demo_nonce) 1 10 30 demo_key []"
  have run: "grant_vault_access demo_P (Some demo_nonce) 1 10 2 demo_key bob_key demo_db = (Inr (), direct_db)"
    unfolding direct_db_def by (rule run_ok) code_simp
  have ok: "db_ok direct_db" by (rule keeps_run [OF team_service_keeps(5) run demo_db_ok])
  obtain k where k: "share_at (shares direct_db) (10, 2) = Some k" "k_team k = None"
  proof -
    have "(case share_at (shares direct_db) (10, 2) of None \<Rightarrow> False | Some k \<Rightarrow> k_team k = None)" by code_simp
    then show thesis using that by (auto split: option.splits)
  qed
  have v: "demo_vault \<in> set (vaults direct_db)" by code_simp
  have share: "?m direct_db = (Inr (), snd (?m direct_db))" by (rule run_ok) code_simp
  have leave: "remove_member 2 30 2 (snd (?m direct_db)) = (Inr (), snd (remove_member 2 30 2 (snd (?m direct_db))))"
    by (rule run_ok) code_simp
  have uid: "2 \<in> set (team_member_ids direct_db 30)" "2 \<noteq> v_owner demo_vault" "effective_key direct_db [] 2 \<noteq> None"
    by code_simp+
  from team_share_replaces_a_direct_share [OF ok v demo_vault_row(2,3) uid k share leave] share leave
  show ?thesis by blast
qed

theorem deleted_team_members_keep_their_vaults_witness:
  "\<exists>s'. delete_team 2 30 demo_db = (Inr (), s') \<and> (\<exists>t. open_vault_for_user demo_P 3 10 bob_key s' = (Inr demo_key, t))"
proof -
  have run: "delete_team 2 30 demo_db = (Inr (), snd (delete_team 2 30 demo_db))" by (rule run_ok) code_simp
  have other: "v_owner demo_vault \<noteq> 3" by (simp add: demo_vault_row)
  have k: "k_team demo_share = Some 30" "sealed_as demo_P bob_key demo_key (k_envelope demo_share)"
    using demo_sealed [OF demo_lengths(3), of demo_key] by (simp_all add: demo_share_def)
  from deleted_team_members_keep_their_vaults [OF demo_laws demo_db_ok demo_vault_row(1-3) other demo_share_row k run] run
  show ?thesis by blast
qed

theorem rotation_stores_the_given_envelopes_only_witness:
  "\<exists>s'. rotate_vault_key (Some demo_salt) 1 10 (demo_seal demo_key ada_key) [(3, demo_seal demo_key bob_key, Some 30)] demo_db =
          (Inr demo_salt, s') \<and>
        filter (\<lambda>k. k_vault k \<noteq> 10) (shares s') = filter (\<lambda>k. k_vault k \<noteq> 10) (shares demo_db)"
proof -
  let ?m = "rotate_vault_key (Some demo_salt) 1 10 (demo_seal demo_key ada_key) [(3, demo_seal demo_key bob_key, Some 30)]"
  have run: "?m demo_db = (Inr demo_salt, snd (?m demo_db))" by (rule run_ok) code_simp
  from rotation_stores_the_given_envelopes_only [OF demo_laws demo_db_ok demo_vault_row(1-3) run] run
  show ?thesis by blast
qed

end
