(* ===== verification/Totp_Service.thy ===== *)
theory Totp_Service
  imports Admin_Service
begin

text \<open>
  \<open>services/totp_service.rs\<close>: the second factor.  The \<open>totp-rs\<close>, \<open>qrcode\<close> and \<open>image\<close> crates are
  the fields of \<open>totp_crate\<close>; \<open>totp_laws\<close> states what \<open>check_current\<close> documents: a code is accepted
  exactly if it is the code of a time step within the skew of the current one.  The replay guard is
  part of the state, beside the database and the credentials.
\<close>

definition TOTP_DIGITS :: nat where "TOTP_DIGITS = 6"
definition TOTP_STEP :: nat where "TOTP_STEP = 30"
definition TOTP_SKEW :: nat where "TOTP_SKEW = 1"
definition TOTP_REPLAY_TTL_SECS :: int where "TOTP_REPLAY_TTL_SECS = int TOTP_STEP * 3"
definition LEGACY_DEV_MASTER_KEY_BYTE :: byte where "LEGACY_DEV_MASTER_KEY_BYTE = 0x41"
definition LEGACY_DEV_MASTER_KEY_LEN :: nat where "LEGACY_DEV_MASTER_KEY_LEN = 32"

record totp =
  tp_digits :: nat
  tp_skew :: nat
  tp_step :: nat
  tp_secret :: bytes
  tp_issuer :: string
  tp_account :: string

record totp_crate =
  base32_bytes :: "string \<Rightarrow> bytes option"
  totp_accepts :: "totp \<Rightarrow> bool"
  totp_code :: "totp \<Rightarrow> nat \<Rightarrow> string"
  totp_check :: "totp \<Rightarrow> timestamp \<Rightarrow> string \<Rightarrow> bool option"
  totp_url :: "totp \<Rightarrow> string"
  qr_new :: "string \<Rightarrow> bool list list option"
  png_of :: "bool list list \<Rightarrow> bytes option"

definition totp_laws :: "totp_crate \<Rightarrow> bool" where
  "totp_laws C \<longleftrightarrow>
     (\<forall>t now code b. totp_check C t now code = Some b \<longrightarrow>
        (b \<longleftrightarrow> (\<exists>k. now div tp_step t \<le> k + tp_skew t \<and> k \<le> now div tp_step t + tp_skew t \<and>
                    totp_code C t k = code)))"

section \<open>The state\<close>

record runtime =
  rt_app :: app
  rt_replay :: "string \<Rightarrow> int option"

type_synonym 'a rtm = "runtime \<Rightarrow> (app_error + 'a) \<times> runtime"

definition on_app :: "'a appm \<Rightarrow> 'a rtm" where
  "on_app = zoom rt_app (\<lambda>a w. w\<lparr>rt_app := a\<rparr>)"

abbreviation rt_db :: "'a dbm \<Rightarrow> 'a rtm" where
  "rt_db m \<equiv> on_app (on_db m)"

abbreviation rt_auth :: "'a authm \<Rightarrow> 'a rtm" where
  "rt_auth m \<equiv> on_app (on_auth m)"

interpretation app_part: state_part rt_app "\<lambda>a w. w\<lparr>rt_app := a\<rparr>"
  by unfold_locales auto

section \<open>Codes and the replay guard\<close>

definition replay_key :: "string \<Rightarrow> string \<Rightarrow> string" where
  "replay_key name code = name @ '':'' @ code"

definition reject_replay_and_record :: "string \<Rightarrow> string \<Rightarrow> int \<Rightarrow> bool rtm" where
  "reject_replay_and_record name code now =
     bindE (modify (\<lambda>w. w\<lparr>rt_replay := (\<lambda>k. case rt_replay w k of
              None \<Rightarrow> None | Some expires \<Rightarrow> if now < expires then Some expires else None)\<rparr>)) (\<lambda>_.
     bindE (gets (\<lambda>w. rt_replay w (replay_key name code))) (\<lambda>seen.
     if seen \<noteq> None then ret False
     else bindE (modify (\<lambda>w. w\<lparr>rt_replay := (rt_replay w)(replay_key name code \<mapsto> now + TOTP_REPLAY_TTL_SECS)\<rparr>)) (\<lambda>_.
          ret True)))"

definition build_totp :: "totp_crate \<Rightarrow> string \<Rightarrow> string \<Rightarrow> string \<Rightarrow> app_error + totp" where
  "build_totp C issuer account base32 =
     (case base32_bytes C base32 of
        None \<Rightarrow> Inl (Validation ''invalid TOTP secret'')
      | Some b \<Rightarrow>
         (let t = \<lparr> tp_digits = TOTP_DIGITS, tp_skew = TOTP_SKEW, tp_step = TOTP_STEP, tp_secret = b,
                    tp_issuer = issuer, tp_account = account \<rparr> in
          if totp_accepts C t then Inr t else Inl (Validation ''invalid TOTP setup'')))"

definition is_ascii_digit :: "char \<Rightarrow> bool" where
  "is_ascii_digit c \<longleftrightarrow> CHR ''0'' \<le> c \<and> c \<le> CHR ''9''"

definition is_valid_totp_code :: "string \<Rightarrow> bool" where
  "is_valid_totp_code code \<longleftrightarrow> length code = TOTP_DIGITS \<and> list_all is_ascii_digit code"

definition check_current :: "totp_crate \<Rightarrow> string \<Rightarrow> totp \<Rightarrow> string \<Rightarrow> bool rtm" where
  "check_current C msg t code =
     bindE (gets (\<lambda>w. clock (app_db (rt_app w)))) (\<lambda>now. ok_or (Validation msg) (totp_check C t now code))"

section \<open>Stored secrets\<close>

definition serialize_totp_envelope :: "encrypted_payload \<Rightarrow> bytes" where
  "serialize_totp_envelope payload = nonce payload @ ciphertext payload"

definition deserialize_totp_envelope :: "bytes \<Rightarrow> app_error + encrypted_payload" where
  "deserialize_totp_envelope b =
     (if length b \<le> NONCE_LEN then Inl (Storage ''invalid totp_secret payload'')
      else Inr \<lparr> nonce = take NONCE_LEN b, ciphertext = drop NONCE_LEN b \<rparr>)"

definition load_totp_secret_by_username :: "string \<Rightarrow> bytes option rtm" where
  "load_totp_secret_by_username name =
     bindE (rt_db (fetch_optional users (\<lambda>r. u_name r = name))) (\<lambda>row.
     ret (case row of None \<Rightarrow> None | Some r \<Rightarrow> u_totp r))"

definition load_totp_secret_by_user_id :: "uuid \<Rightarrow> bytes option rtm" where
  "load_totp_secret_by_user_id uid =
     bindE (rt_db (fetch_optional users (\<lambda>r. u_id r = uid))) (\<lambda>row.
     ret (case row of None \<Rightarrow> None | Some r \<Rightarrow> u_totp r))"

definition is_totp_enabled_for_user_id :: "uuid \<Rightarrow> bool rtm" where
  "is_totp_enabled_for_user_id uid =
     bindE (load_totp_secret_by_user_id uid) (\<lambda>s. ret (s \<noteq> None))"

definition is_totp_enabled_for_username :: "string \<Rightarrow> bool rtm" where
  "is_totp_enabled_for_username name =
     bindE (load_totp_secret_by_username name) (\<lambda>s. ret (s \<noteq> None))"

section \<open>Setting up\<close>

record totp_setup_payload =
  base32_secret :: string
  otpauth_url :: string
  qr_png :: bytes

text \<open>The generated secret in its encoded form is an argument, \<open>None\<close> if the crate hands back raw bytes.\<close>

definition create_setup_payload ::
  "totp_crate \<Rightarrow> string \<Rightarrow> string option \<Rightarrow> string \<Rightarrow> app_error + totp_setup_payload" where
  "create_setup_payload C issuer encoded account =
     (if trim account = [] then Inl (Validation ''account name is required for TOTP setup'')
      else case encoded of
        None \<Rightarrow> Inl (Validation ''failed to encode TOTP secret'')
      | Some base32 \<Rightarrow>
         (case build_totp C issuer account base32 of
            Inl e \<Rightarrow> Inl e
          | Inr t \<Rightarrow>
             (case qr_new C (totp_url C t) of
                None \<Rightarrow> Inl (Validation ''failed to generate QR'')
              | Some qr \<Rightarrow>
                 (case png_of C qr of
                    None \<Rightarrow> Inl (Validation ''failed to encode QR as PNG'')
                  | Some png \<Rightarrow>
                      Inr \<lparr> base32_secret = base32, otpauth_url = totp_url C t, qr_png = png \<rparr>))))"

definition verify_setup_code :: "totp_crate \<Rightarrow> string \<Rightarrow> string \<Rightarrow> string \<Rightarrow> string \<Rightarrow> bool rtm" where
  "verify_setup_code C issuer account base32 code =
     (if \<not> is_valid_totp_code code then ret False
      else
        bindE (lift_result (build_totp C issuer account base32)) (\<lambda>t.
        check_current C ''failed to verify TOTP code'' t code))"

definition enable_totp ::
  "totp_crate \<Rightarrow> primitives \<Rightarrow> string \<Rightarrow> bytes option \<Rightarrow> uuid \<Rightarrow> string \<Rightarrow> string \<Rightarrow> string \<Rightarrow> unit rtm" where
  "enable_totp C P issuer nonce_rnd uid name base32 code =
     bindE (require (trim name \<noteq> []) (Validation ''username must not be empty'')) (\<lambda>_.
     bindE (rt_auth (get_password_envelope name)) (\<lambda>env.
     bindE (lift_result (derive_key_from_password_envelope env)) (\<lambda>key.
     bindE (verify_setup_code C issuer name base32 code) (\<lambda>code_ok.
     bindE (require code_ok (Authorization InvalidTotpCode)) (\<lambda>_.
     bindE (lift_result (encrypt P nonce_rnd (str_bytes base32) key)) (\<lambda>encrypted.
     rt_db (require_rows
       (update_users (\<lambda>r. u_id r = uid) (\<lambda>_ r. r\<lparr>u_totp := Some (serialize_totp_envelope encrypted)\<rparr>))
       (Storage ''user not found for TOTP activation''))))))))"

definition disable_totp :: "uuid \<Rightarrow> unit rtm" where
  "disable_totp uid =
     rt_db (require_rows (update_users (\<lambda>r. u_id r = uid) (\<lambda>_ r. r\<lparr>u_totp := None\<rparr>))
       (Storage ''user not found for TOTP deactivation''))"

section \<open>The second factor at login\<close>

definition legacy_key :: bytes where
  "legacy_key = replicate LEGACY_DEV_MASTER_KEY_LEN LEGACY_DEV_MASTER_KEY_BYTE"

definition decrypted_secret_text :: "bytes \<Rightarrow> app_error + string" where
  "decrypted_secret_text b =
     (if valid_utf8 b then Inr (bytes_str b) else Inl (Validation ''invalid decrypted TOTP secret''))"

text \<open>A secret that does not open under the user's key is tried with the old development key, and
  sealed anew under the user's key when its code is right; a failure to store it is dropped.\<close>

definition legacy_login_totp ::
  "totp_crate \<Rightarrow> primitives \<Rightarrow> string \<Rightarrow> bytes option \<Rightarrow> string \<Rightarrow> bytes \<Rightarrow> encrypted_payload \<Rightarrow> string \<Rightarrow> bool rtm" where
  "legacy_login_totp C P issuer nonce_rnd name key payload code =
     (case decrypt P payload legacy_key of
        Inl _ \<Rightarrow> ret False
      | Inr legacy_decrypted \<Rightarrow>
          bindE (lift_result (decrypted_secret_text legacy_decrypted)) (\<lambda>legacy_secret.
          bindE (lift_result (build_totp C issuer name legacy_secret)) (\<lambda>t.
          bindE (check_current C ''failed to verify login TOTP code'' t code) (\<lambda>is_valid.
          if is_valid then
            bindE (lift_result (encrypt P nonce_rnd (str_bytes legacy_secret) key)) (\<lambda>q.
            bindE (ignore_error (rt_db (update_users (\<lambda>r. u_name r = name)
                     (\<lambda>_ r. r\<lparr>u_totp := Some (serialize_totp_envelope q)\<rparr>)))) (\<lambda>_.
            ret is_valid))
          else ret is_valid))))"

definition verify_login_totp ::
  "totp_crate \<Rightarrow> primitives \<Rightarrow> kdf_config \<Rightarrow> string \<Rightarrow> bytes option \<Rightarrow> string \<Rightarrow> bytes \<Rightarrow> string \<Rightarrow> bool rtm" where
  "verify_login_totp C P cfg issuer nonce_rnd name password code =
     (if \<not> is_valid_totp_code code then ret False
      else
        bindE (load_totp_secret_by_username name) (\<lambda>secret_opt.
        case secret_opt of
          None \<Rightarrow> ret True
        | Some encrypted_secret \<Rightarrow>
            bindE (rt_auth (derive_key_if_valid P cfg name password)) (\<lambda>key_opt.
            case key_opt of
              None \<Rightarrow> ret False
            | Some key \<Rightarrow>
                bindE (lift_result (deserialize_totp_envelope encrypted_secret)) (\<lambda>payload.
                case decrypt P payload key of
                  Inl _ \<Rightarrow> legacy_login_totp C P issuer nonce_rnd name key payload code
                | Inr decrypted \<Rightarrow>
                    bindE (lift_result (decrypted_secret_text decrypted)) (\<lambda>base32.
                    bindE (lift_result (build_totp C issuer name base32)) (\<lambda>t.
                    bindE (check_current C ''failed to verify login TOTP code'' t code) (\<lambda>is_valid.
                    if \<not> is_valid then ret False
                    else
                      bindE (gets (\<lambda>w. clock (app_db (rt_app w)))) (\<lambda>now.
                      reject_replay_and_record name code (int now)))))))))"

section \<open>Runs\<close>

abbreviation wdb :: "runtime \<Rightarrow> db" where "wdb w \<equiv> app_db (rt_app w)"
abbreviation wauth :: "runtime \<Rightarrow> auth_state" where "wauth w \<equiv> app_auth (rt_app w)"

lemma on_app_returns: "on_app m w = (r, w') \<longleftrightarrow> (\<exists>a. m (rt_app w) = (r, a) \<and> w' = w\<lparr>rt_app := a\<rparr>)"
  unfolding on_app_def by (rule app_part.zoom_returns)

lemma on_app_run: "m (rt_app w) = (r, a) \<Longrightarrow> on_app m w = (r, w\<lparr>rt_app := a\<rparr>)"
  unfolding on_app_def by (rule app_part.zoom_run)

lemma rt_reads [step_intros]: "reads_only m \<Longrightarrow> reads_only (on_app m)"
  unfolding on_app_def by (rule app_part.zoom_reads)

lemma on_app_keeps: "keeps P m \<Longrightarrow> keeps (\<lambda>w. P (rt_app w)) (on_app m)"
  unfolding on_app_def by (rule app_part.zoom_keeps)

lemma rt_reading:
  assumes "reads_only m"
  shows "on_app m w = (fst (m (rt_app w)), w)"
  using rt_reads [OF assms] reads_only_run [of "on_app m" w] on_app_run [of m w "fst (m (rt_app w))"]
  by (metis prod.collapse)

text \<open>The stored second factor of a name.\<close>

definition totp_of :: "db \<Rightarrow> string \<Rightarrow> bytes option" where
  "totp_of d name = (case first_row (\<lambda>r. u_name r = name) (users d) of None \<Rightarrow> None | Some r \<Rightarrow> u_totp r)"

lemma load_totp_run [run_simps]:
  "load_totp_secret_by_username name w = (Inr (totp_of (wdb w) name), w)"
proof -
  have "rt_db (fetch_optional users (\<lambda>r. u_name r = name)) w =
          (Inr (first_row (\<lambda>r. u_name r = name) (users (wdb w))), w)"
    by (simp add: rt_reading [OF on_db_reads [OF fetch_reads(1)]] on_db_run fetch_optional_run)
  then show ?thesis by (simp add: load_totp_secret_by_username_def bindE_run run_simps totp_of_def)
qed

lemma derive_if_valid_reads [step_intros]: "reads_only (derive_key_if_valid P cfg name pw)"
  by (rule reads_onlyI) (metis auth_failure_keeps(4) prod.collapse)

lemma on_auth_reads [step_intros]: "reads_only m \<Longrightarrow> reads_only (on_auth m)"
  unfolding on_auth_def by (rule auth_part.zoom_reads)

lemma rt_derive_run [run_simps]:
  "rt_auth (derive_key_if_valid P cfg name pw) w = (fst (derive_key_if_valid P cfg name pw (wauth w)), w)"
proof -
  let ?m = "derive_key_if_valid P cfg name pw"
  have "?m (wauth w) = (fst (?m (wauth w)), wauth w)"
    using reads_onlyD [OF derive_if_valid_reads] by (metis prod.collapse)
  then have "on_auth ?m (rt_app w) = (fst (?m (wauth w)), (rt_app w)\<lparr>app_auth := wauth w\<rparr>)"
    by (rule on_auth_run)
  then show ?thesis
    by (simp add: rt_reading [OF on_auth_reads [OF derive_if_valid_reads]])
qed

lemma check_current_run [run_simps]:
  "check_current C msg t code w =
     (case totp_check C t (clock (wdb w)) code of None \<Rightarrow> Inl (Validation msg) | Some b \<Rightarrow> Inr b, w)"
  by (simp add: check_current_def bindE_run run_simps)

lemma check_current_returns:
  "check_current C msg t code w = (Inr b, w') \<longleftrightarrow> totp_check C t (clock (wdb w)) code = Some b \<and> w' = w"
  by (auto simp: check_current_run split: option.splits)

section \<open>The replay guard\<close>

text \<open>The keys of the guard name a user and a code.\<close>

lemma replay_key_inj:
  "length c = length c' \<Longrightarrow> replay_key n c = replay_key n' c' \<longleftrightarrow> n = n' \<and> c = c'"
  by (auto simp: replay_key_def)

definition unexpired :: "runtime \<Rightarrow> string \<Rightarrow> int \<Rightarrow> bool" where
  "unexpired w k now \<longleftrightarrow> (\<exists>e. rt_replay w k = Some e \<and> now < e)"

lemma reject_replay_run:
  "fst (reject_replay_and_record name code now w) = Inr (\<not> unexpired w (replay_key name code) now)"
  "rt_app (snd (reject_replay_and_record name code now w)) = rt_app w"
  "rt_replay (snd (reject_replay_and_record name code now w)) k =
     (if k = replay_key name code \<and> \<not> unexpired w k now then Some (now + 90)
      else if unexpired w k now then rt_replay w k else None)"
  by (auto simp: reject_replay_and_record_def bindE_run run_simps unexpired_def TOTP_REPLAY_TTL_SECS_def
      TOTP_STEP_def split: option.splits)

text \<open>What \<open>verify_login_totp\<close> does to the guard: an entry is dropped only when it has expired, and
  nothing but the guard and a legacy secret changes.\<close>

lemma legacy_keeps_guard: "keeps (\<lambda>w. rt_replay w = g) (legacy_login_totp C P issuer rnd name key q code)"
proof -
  have chk: "keeps (\<lambda>w. rt_replay w = g) (check_current C msg t code)" for msg t
    unfolding check_current_def by (intro step_intros)
  have app: "keeps (\<lambda>w. rt_replay w = g) (on_app m)" for m :: "'x appm"
    by (rule keepsI) (simp add: on_app_def zoom_def split: prod.split)
  show ?thesis unfolding legacy_login_totp_def by (intro step_intros chk app)
qed

lemma rejected_entry_kept:
  "rt_replay w k = Some e \<Longrightarrow> now < e \<Longrightarrow>
     rt_replay (snd (reject_replay_and_record name code now w)) k = Some e"
  by (simp add: reject_replay_run unexpired_def)

section \<open>What login accepts\<close>

abbreviation derived_key :: "primitives \<Rightarrow> kdf_config \<Rightarrow> string \<Rightarrow> bytes \<Rightarrow> runtime \<Rightarrow> app_error + bytes option" where
  "derived_key P cfg name pw w \<equiv> fst (derive_key_if_valid P cfg name pw (wauth w))"

text \<open>The stored secret of a name, opened under the key of a password.\<close>

definition opened_totp :: "primitives \<Rightarrow> kdf_config \<Rightarrow> string \<Rightarrow> bytes \<Rightarrow> runtime \<Rightarrow> string \<Rightarrow> bool" where
  "opened_totp P cfg name pw w secret \<longleftrightarrow>
     (\<exists>env key q b. totp_of (wdb w) name = Some env \<and> derived_key P cfg name pw w = Inr (Some key) \<and>
        deserialize_totp_envelope env = Inr q \<and> decrypt P q key = Inr b \<and> decrypted_secret_text b = Inr secret)"

definition accepts_now :: "totp_crate \<Rightarrow> string \<Rightarrow> string \<Rightarrow> runtime \<Rightarrow> string \<Rightarrow> string \<Rightarrow> bool" where
  "accepts_now C issuer name w secret code \<longleftrightarrow>
     is_valid_totp_code code \<and>
     (\<exists>t. build_totp C issuer name secret = Inr t \<and> totp_check C t (clock (wdb w)) code = Some True)"

lemma verify_opened:
  assumes "opened_totp P cfg name pw w secret"
  shows "verify_login_totp C P cfg issuer rnd name pw code w = (Inr True, w') \<longleftrightarrow>
           accepts_now C issuer name w secret code \<and>
           \<not> unexpired w (replay_key name code) (int (clock (wdb w))) \<and>
           w' = snd (reject_replay_and_record name code (int (clock (wdb w))) w)"
proof -
  let ?rej = "reject_replay_and_record name code (int (clock (wdb w))) w"
  obtain env key q b where o: "totp_of (wdb w) name = Some env" "derived_key P cfg name pw w = Inr (Some key)"
    "deserialize_totp_envelope env = Inr q" "decrypt P q key = Inr b" "decrypted_secret_text b = Inr secret"
    using assms unfolding opened_totp_def by blast
  have rej: "?rej = (Inr True, w') \<longleftrightarrow>
      \<not> unexpired w (replay_key name code) (int (clock (wdb w))) \<and> w' = snd ?rej"
    using reject_replay_run(1) [of name code "int (clock (wdb w))" w] by (auto simp: prod_eq_iff)
  show ?thesis
    by (simp add: verify_login_totp_def bindE_run run_simps o rej accepts_now_def
        split: sum.split option.split)
qed

text \<open>Every acceptance, the two unguarded ones included.\<close>

lemma legacy_accepts:
  assumes "legacy_login_totp C P issuer rnd name key q code w = (Inr True, w')"
  shows "\<exists>b secret t. decrypt P q legacy_key = Inr b \<and> decrypted_secret_text b = Inr secret \<and>
           build_totp C issuer name secret = Inr t \<and> totp_check C t (clock (wdb w)) code = Some True"
proof (cases "decrypt P q legacy_key")
  case (Inr b)
  then have "\<exists>secret. decrypted_secret_text b = Inr secret \<and>
      bindE (lift_result (build_totp C issuer name secret)) (\<lambda>t.
      bindE (check_current C ''failed to verify login TOTP code'' t code) (\<lambda>is_valid.
      if is_valid then
        bindE (lift_result (encrypt P rnd (str_bytes secret) key)) (\<lambda>q.
        bindE (ignore_error (rt_db (update_users (\<lambda>r. u_name r = name)
                 (\<lambda>_ r. r\<lparr>u_totp := Some (serialize_totp_envelope q)\<rparr>)))) (\<lambda>_.
        ret is_valid))
      else ret is_valid)) w = (Inr True, w')"
    using assms by (simp add: legacy_login_totp_def) (auto simp: bindE_returns lift_result_returns)
  then obtain secret t where "decrypted_secret_text b = Inr secret" "build_totp C issuer name secret = Inr t"
      "totp_check C t (clock (wdb w)) code = Some True"
    by (auto simp: bindE_returns [where m = "lift_result _"] lift_result_returns bindE_returns [where m = "check_current _ _ _ _"]
        check_current_returns ret_returns split: if_splits)
  with Inr show ?thesis by blast
qed (use assms in \<open>simp add: legacy_login_totp_def ret_run\<close>)

lemma verify_accepts:
  assumes "verify_login_totp C P cfg issuer rnd name pw code w = (Inr True, w')"
    and "totp_of (wdb w) name = Some env"
  obtains key q b secret t where "derived_key P cfg name pw w = Inr (Some key)"
    "deserialize_totp_envelope env = Inr q" "decrypt P q key = Inr b \<or> decrypt P q legacy_key = Inr b"
    "decrypted_secret_text b = Inr secret" "build_totp C issuer name secret = Inr t"
    "totp_check C t (clock (wdb w)) code = Some True"
proof -
  from assms obtain key q where k: "derived_key P cfg name pw w = Inr (Some key)" "deserialize_totp_envelope env = Inr q"
    and rest: "(\<exists>e. decrypt P q key = Inl e \<and> legacy_login_totp C P issuer rnd name key q code w = (Inr True, w')) \<or>
      (\<exists>b secret t. decrypt P q key = Inr b \<and> decrypted_secret_text b = Inr secret \<and>
         build_totp C issuer name secret = Inr t \<and> totp_check C t (clock (wdb w)) code = Some True)"
    by (auto simp: verify_login_totp_def bindE_run run_simps split: if_splits sum.splits option.splits)
  with legacy_accepts that show thesis by blast
qed

text \<open>The time steps whose codes are accepted at a time.\<close>

definition near_step :: "timestamp \<Rightarrow> nat \<Rightarrow> bool" where
  "near_step now k \<longleftrightarrow> now div 30 \<le> k + 1 \<and> k \<le> now div 30 + 1"

lemma build_totp_Inr:
  "build_totp C issuer account base32 = Inr t \<longleftrightarrow>
     (\<exists>b. base32_bytes C base32 = Some b \<and> totp_accepts C t \<and>
        t = \<lparr> tp_digits = 6, tp_skew = 1, tp_step = 30, tp_secret = b, tp_issuer = issuer, tp_account = account \<rparr>)"
  by (auto simp: build_totp_def TOTP_DIGITS_def TOTP_SKEW_def TOTP_STEP_def Let_def split: option.splits)

lemma check_near:
  assumes "totp_laws C" and "build_totp C issuer name secret = Inr t" and "totp_check C t now code = Some True"
  shows "\<exists>k. near_step now k \<and> totp_code C t k = code"
proof -
  have "tp_step t = 30" "tp_skew t = 1" using assms(2) by (auto simp: build_totp_Inr)
  with assms(1,3) show ?thesis unfolding totp_laws_def near_step_def by (metis (full_types))
qed

text \<open>A stored second factor is passed with the user's password and a code that belongs to a time step at
  most one away from the current one, under a secret that opens with the password's key or with the
  old development key.\<close>

definition second_factor ::
  "totp_crate \<Rightarrow> primitives \<Rightarrow> kdf_config \<Rightarrow> string \<Rightarrow> string \<Rightarrow> bytes \<Rightarrow> string \<Rightarrow> runtime \<Rightarrow> bytes \<Rightarrow> bool" where
  "second_factor C P cfg issuer name pw code w env \<longleftrightarrow> is_valid_totp_code code \<and>
     (\<exists>key q b secret t k. derived_key P cfg name pw w = Inr (Some key) \<and>
        deserialize_totp_envelope env = Inr q \<and> (decrypt P q key = Inr b \<or> decrypt P q legacy_key = Inr b) \<and>
        decrypted_secret_text b = Inr secret \<and> build_totp C issuer name secret = Inr t \<and>
        near_step (clock (wdb w)) k \<and> totp_code C t k = code)"

lemma login_second_factor:
  assumes "totp_laws C" and "totp_of (wdb w) name = Some env"
    and "verify_login_totp C P cfg issuer rnd name pw code w = (Inr True, w')"
  shows "second_factor C P cfg issuer name pw code w env"
proof -
  have "is_valid_totp_code code"
    using assms(3) by (auto simp: verify_login_totp_def ret_run split: if_splits)
  moreover obtain key q b secret t where a: "derived_key P cfg name pw w = Inr (Some key)"
    "deserialize_totp_envelope env = Inr q" "decrypt P q key = Inr b \<or> decrypt P q legacy_key = Inr b"
    "decrypted_secret_text b = Inr secret" "build_totp C issuer name secret = Inr t"
    "totp_check C t (clock (wdb w)) code = Some True"
    using verify_accepts [OF assms(3,2)] by blast
  moreover obtain k where "near_step (clock (wdb w)) k \<and> totp_code C t k = code"
    using check_near [OF assms(1) a(5,6)] by blast
  ultimately show ?thesis unfolding second_factor_def by blast
qed

section \<open>A code is accepted once\<close>

text \<open>Anything that may happen between two logins while the program runs: calls of
  \<open>verify_login_totp\<close> for any user, and everything else, which does not touch the guard; the clock
  does not go back.\<close>

inductive totp_run :: "totp_crate \<Rightarrow> primitives \<Rightarrow> kdf_config \<Rightarrow> string \<Rightarrow> runtime \<Rightarrow> runtime \<Rightarrow> bool"
  for C P cfg issuer where
  start: "totp_run C P cfg issuer w w"
| login: "totp_run C P cfg issuer w w1 \<Longrightarrow>
     verify_login_totp C P cfg issuer rnd name pw code w1 = (r, w2) \<Longrightarrow> totp_run C P cfg issuer w w2"
| elsewhere: "totp_run C P cfg issuer w w1 \<Longrightarrow> rt_replay w2 = rt_replay w1 \<Longrightarrow>
     clock (wdb w1) \<le> clock (wdb w2) \<Longrightarrow> totp_run C P cfg issuer w w2"

inductive_cases totp_runE: "totp_run C P cfg issuer w w'"

lemma totp_reads [step_intros]:
  "reads_only (load_totp_secret_by_username name)" "reads_only (load_totp_secret_by_user_id uid)"
  "reads_only (is_totp_enabled_for_user_id uid)" "reads_only (is_totp_enabled_for_username name)"
  "reads_only (check_current C msg t code)" "reads_only (verify_setup_code C issuer account base32 code)"
  "reads_only (rt_auth (derive_key_if_valid P cfg name pw))"
  unfolding load_totp_secret_by_username_def load_totp_secret_by_user_id_def is_totp_enabled_for_user_id_def
    is_totp_enabled_for_username_def check_current_def verify_setup_code_def
  by (intro step_intros rt_reads)+

text \<open>An entry stays in the guard until it expires, and the clock stands still during a call.\<close>

abbreviation guarded :: "nat \<Rightarrow> string \<Rightarrow> int \<Rightarrow> runtime \<Rightarrow> bool" where
  "guarded t k e w \<equiv> clock (wdb w) = t \<and> (int t < e \<longrightarrow> rt_replay w k = Some e)"

lemma update_users_clock: "clock (snd (update_users p f s)) = clock s"
  by (simp add: update_users_def Let_def)

lemma verify_guards: "keeps (guarded t k e) (verify_login_totp C P cfg issuer rnd name pw code)"
proof -
  have rej: "keeps (guarded t k e) (bindE (gets (\<lambda>w. clock (wdb w))) (\<lambda>now. reject_replay_and_record name code (int now)))"
    by (rule keepsI) (simp add: bindE_run run_simps reject_replay_run(2,3) unexpired_def)
  have upd: "keeps (guarded t k e) (rt_db (update_users p f))" for p f
  proof (rule keepsI)
    fix w assume "guarded t k e w"
    then show "guarded t k e (snd (rt_db (update_users p f) w))"
      using update_users_clock [of p f "wdb w"] by (auto simp: on_app_def on_db_def zoom_def split: prod.split)
  qed
  show ?thesis
    unfolding verify_login_totp_def legacy_login_totp_def
    by (intro step_intros rej upd keeps_reads [OF totp_reads(1)] keeps_reads [OF totp_reads(5)]
        keeps_reads [OF totp_reads(7)])
qed

lemma run_guards:
  assumes "totp_run C P cfg issuer w w'" and "rt_replay w k = Some e"
  shows "clock (wdb w) \<le> clock (wdb w') \<and> (int (clock (wdb w')) < e \<longrightarrow> rt_replay w' k = Some e)"
  using assms
proof (induction rule: totp_run.induct)
  case (login w w1 rnd name pw code r w2)
  then have "guarded (clock (wdb w1)) k e w1" by simp
  from keeps_run [OF verify_guards login.hyps(2) this] login show ?case by simp
qed auto

lemma near_steps_apart: "near_step a k \<Longrightarrow> near_step b l \<Longrightarrow> a + 90 \<le> b \<Longrightarrow> k < l"
proof -
  assume k: "near_step a k" and l: "near_step b l" and "a + 90 \<le> b"
  then have "(a + 90) div 30 \<le> b div 30" by (intro div_le_mono)
  moreover have "(a + 90) div 30 = a div 30 + 3" by simp
  ultimately have "a div 30 + 3 \<le> b div 30" by simp
  with k l show "k < l" by (simp add: near_step_def)
qed

text \<open>C10. While the program runs, a code that was accepted for a user is not accepted for that user again
  within 90 seconds, whatever happens in between and even under a new secret; by then every time step
  near the first login is over, so no time step's code serves twice.  This is so for secrets that open
  with the user's key at both logins: the branch for a secret sealed under the legacy key returns before
  the guard and accepts a code twice; and a restart empties the guard.\<close>

theorem a_code_is_accepted_once:
  assumes "opened_totp P cfg name pw w secret" and "opened_totp P cfg name pw' v secret'"
    and first: "verify_login_totp C P cfg issuer rnd name pw code w = (Inr True, w')"
    and "totp_run C P cfg issuer w' v"
    and second: "verify_login_totp C P cfg issuer rnd' name pw' code v = (Inr True, v')"
  shows "clock (wdb w) + 90 \<le> clock (wdb v) \<and>
         (\<forall>k l. near_step (clock (wdb w)) k \<longrightarrow> near_step (clock (wdb v)) l \<longrightarrow> k < l)"
proof -
  let ?k = "replay_key name code" and ?e = "int (clock (wdb w)) + 90"
  from first have "\<not> unexpired w ?k (int (clock (wdb w)))"
    and w': "w' = snd (reject_replay_and_record name code (int (clock (wdb w))) w)"
    unfolding verify_opened [OF assms(1)] by simp_all
  then have "rt_replay w' ?k = Some ?e" and "rt_app w' = rt_app w" by (simp_all add: reject_replay_run)
  with run_guards [OF assms(4)] have "int (clock (wdb v)) < ?e \<longrightarrow> rt_replay v ?k = Some ?e" by blast
  moreover have "\<not> unexpired v ?k (int (clock (wdb v)))"
    using second unfolding verify_opened [OF assms(2)] by simp
  ultimately have "clock (wdb w) + 90 \<le> clock (wdb v)" by (auto simp: unexpired_def)
  then show ?thesis using near_steps_apart by blast
qed

end
