(* ===== verification/Totp_Properties.thy ===== *)
theory Totp_Properties
  imports Totp_Service Admin_Properties
begin

text \<open>
  The second factor through its life: what enabling stores opens at the next login, disabling
  removes it, and a change of the master password makes it unusable.
\<close>

section \<open>The stored secret as a sealed envelope\<close>

text \<open>The decoder refuses a bare nonce, which no sealed text is: a TOTP envelope with a non-empty
  ciphertext is read as it was written.\<close>

abbreviation totp_payload_ok :: "encrypted_payload \<Rightarrow> bool" where
  "totp_payload_ok q \<equiv> length (nonce q) = NONCE_LEN \<and> ciphertext q \<noteq> []"

interpretation totp_envelope: codec totp_payload_ok serialize_totp_envelope
  "\<lambda>b. ok_of (deserialize_totp_envelope b)"
  by unfold_locales
     (auto simp: deserialize_totp_envelope_def serialize_totp_envelope_def split: if_splits)

lemma totp_of_update:
  assumes "distinct (map u_id (users d))" and "r \<in> set (users d)" and "u_id r = uid" and "u_name r = name"
    and "distinct (map u_name (users d))"
  shows "totp_of (d\<lparr>users := update_rows (\<lambda>r. u_id r = uid) (\<lambda>r. r\<lparr>u_totp := v\<rparr>) (users d)\<rparr>) name = v"
proof -
  have "first_row (\<lambda>r. u_name r = name) (users d) = Some r"
    using assms by (intro first_row_unique [where k = u_name and x = name]) auto
  then show ?thesis using assms(3) by (simp add: totp_of_def first_row_update)
qed

lemma update_totp_returns:
  "rt_db (require_rows (update_users (\<lambda>r. u_id r = uid) (\<lambda>_ r. r\<lparr>u_totp := v\<rparr>)) e) w = (Inr x, w') \<Longrightarrow>
     w' = w\<lparr>rt_app := (rt_app w)\<lparr>app_db := (wdb w)\<lparr>users :=
            update_rows (\<lambda>r. u_id r = uid) (\<lambda>r. r\<lparr>u_totp := v\<rparr>) (users (wdb w))\<rparr>\<rparr>\<rparr>"
  by (auto simp: on_app_returns on_db_returns require_rows_def update_users_def returns_iff Let_def split: if_splits)

lemma enable_totp_effect:
  assumes "enable_totp C P issuer rnd uid name base32 code w = (Inr (), w')"
  shows "\<exists>env key q r. credentials (wauth w) name = Some r \<and> env = encode_password_envelope r \<and>
           derive_key_from_password_envelope env = Inr key \<and> encrypt P rnd (str_bytes base32) key = Inr q \<and>
           accepts_now C issuer name w base32 code \<and>
           w' = w\<lparr>rt_app := (rt_app w)\<lparr>app_db := (wdb w)\<lparr>users :=
                  update_rows (\<lambda>r. u_id r = uid) (\<lambda>r. r\<lparr>u_totp := Some (serialize_totp_envelope q)\<rparr>) (users (wdb w))\<rparr>\<rparr>\<rparr>"
proof -
  have env: "rt_auth (get_password_envelope name) w = (Inr env, w1) \<longleftrightarrow>
      w1 = w \<and> \<not> shutdown_in_progress (wauth w) \<and>
      (\<exists>r. credentials (wauth w) name = Some r \<and> env = encode_password_envelope r)" for env w1
    by (auto simp: on_app_returns on_auth_returns get_envelope_returns)
  have ver: "verify_setup_code C issuer name base32 code w = (Inr True, w1) \<longleftrightarrow>
      w1 = w \<and> accepts_now C issuer name w base32 code" for w1
    by (auto simp: verify_setup_code_def accepts_now_def returns_iff check_current_returns ret_returns)
  from assms obtain e key q b w1 where "rt_auth (get_password_envelope name) w = (Inr e, w)"
    and k: "derive_key_from_password_envelope e = Inr key" "encrypt P rnd (str_bytes base32) key = Inr q"
    and "verify_setup_code C issuer name base32 code w = (Inr True, w)"
    and up: "rt_db (require_rows (update_users (\<lambda>r. u_id r = uid)
        (\<lambda>_ r. r\<lparr>u_totp := Some (serialize_totp_envelope q)\<rparr>)) (Storage ''user not found for TOTP activation'')) w = (Inr (), w')"
    unfolding enable_totp_def by (auto simp: returns_iff env ver)
  with update_totp_returns [OF up] show ?thesis unfolding env ver by blast
qed

text \<open>Enabling takes a right code, and from then on the second factor is asked for: the secret that was
  confirmed is the one that opens at login with the password that derives the user's key.  Disabling
  removes it.\<close>

theorem enabled_totp_is_asked_for:
  assumes laws: "aead_laws P" and ok: "db_ok (wdb w)" and nonce: "length n = NONCE_LEN"
    and row: "r \<in> set (users (wdb w))" "u_id r = uid" "u_name r = name"
    and cred: "credentials (wauth w) name = Some c" "credential_ok c"
    and utf8: "valid_utf8 (str_bytes base32)"
    and nonempty: "\<And>q. encrypt P (Some n) (str_bytes base32) (password_hash c) = Inr q \<Longrightarrow> ciphertext q \<noteq> []"
    and run: "enable_totp C P issuer (Some n) uid name base32 code w = (Inr (), w')"
  shows "accepts_now C issuer name w base32 code \<and>
         fst (is_totp_enabled_for_username name w') = Inr True \<and>
         (\<forall>pw. derived_key P cfg name pw w = Inr (Some (password_hash c)) \<longrightarrow> opened_totp P cfg name pw w' base32) \<and>
         (\<forall>w''. disable_totp uid w' = (Inr (), w'') \<longrightarrow> fst (is_totp_enabled_for_username name w'') = Inr False)"
proof -
  obtain q where acc: "accepts_now C issuer name w base32 code"
    and q: "encrypt P (Some n) (str_bytes base32) (password_hash c) = Inr q"
    and w': "w' = w\<lparr>rt_app := (rt_app w)\<lparr>app_db := (wdb w)\<lparr>users :=
                  update_rows (\<lambda>r. u_id r = uid) (\<lambda>r. r\<lparr>u_totp := Some (serialize_totp_envelope q)\<rparr>) (users (wdb w))\<rparr>\<rparr>\<rparr>"
    using enable_totp_effect [OF run] cred password_envelope.dec_enc [OF cred(2)]
    by (auto simp: derive_readers_agree decode_is_master_key ok_of_Some)
  have d: "distinct (map u_id (users (wdb w)))" "distinct (map u_name (users (wdb w)))"
    using db_okD(1) [OF ok] by (simp_all add: users_ok_def)
  have st: "totp_of (wdb w') name = Some (serialize_totp_envelope q)"
    using totp_of_update [OF d(1) row d(2)] by (simp add: w')
  have "totp_payload_ok q" using q nonempty nonce by (auto simp: encrypt_Inr)
  then have de: "deserialize_totp_envelope (serialize_totp_envelope q) = Inr q"
    using totp_envelope.dec_enc [of q] by (simp add: ok_of_Some)
  have dec: "decrypt P q (password_hash c) = Inr (str_bytes base32)"
    by (rule decrypt_encrypt [OF laws nonce q])
  have "opened_totp P cfg name pw w' base32" if "derived_key P cfg name pw w = Inr (Some (password_hash c))" for pw
    unfolding opened_totp_def using that st de dec utf8 by (auto simp: w' decrypted_secret_text_def)
  moreover have "fst (is_totp_enabled_for_username name w') = Inr True"
    by (simp add: is_totp_enabled_for_username_def bindE_run run_simps st)
  moreover have "fst (is_totp_enabled_for_username name w'') = Inr False"
    if "disable_totp uid w' = (Inr (), w'')" for w''
  proof -
    let ?r = "r\<lparr>u_totp := Some (serialize_totp_envelope q)\<rparr>"
    have "?r \<in> set (users (wdb w'))" using row by (auto simp: w' table_simps)
    moreover have "distinct (map u_id (users (wdb w')))" "distinct (map u_name (users (wdb w')))"
      using d by (simp_all add: w' table_simps)
    ultimately have "totp_of (wdb w'') name = None"
      using update_totp_returns [OF that [unfolded disable_totp_def]] row(2,3)
        totp_of_update [of "wdb w'" ?r uid name None] by simp
    then show ?thesis by (simp add: is_totp_enabled_for_username_def bindE_run run_simps)
  qed
  ultimately show ?thesis using acc by blast
qed

section \<open>A change of the master password\<close>

text \<open>Changing the master password locks a user with a second factor out: the stored secret stays sealed
  under the old key, so with the new password, which verifies, every code is refused, provided the
  envelope opens under the old key alone.\<close>

theorem password_change_locks_out_totp:
  assumes ok: "db_ok (wdb w)" and row: "r \<in> set (users (wdb w))" "u_id r = uid" "u_name r = name"
    and run: "change_master_password P cfg rnd uid cur new (rt_app w) = (Inr (), a')"
    and old: "credentials (wauth w) name = Some c" and new: "credentials (app_auth a') name = Some c'"
    and stored: "totp_of (wdb w) name = Some env" "deserialize_totp_envelope env = Inr q"
    and only: "\<And>k b. decrypt P q k = Inr b \<Longrightarrow> k = password_hash c"
    and keys: "password_hash c' \<noteq> password_hash c" "legacy_key \<noteq> password_hash c"
  shows "verify_password P cfg name new (app_auth a') = (Inr True, app_auth a') \<and>
         totp_of (app_db a') name = Some env \<and>
         (\<forall>code. fst (verify_login_totp C P cfg issuer rnd' name new code (w\<lparr>rt_app := a'\<rparr>)) = Inr False)"
proof -
  obtain u e a1 where e: "user_get_by_id uid (wdb w) = (Inr (Some u), wdb w)"
    "change_password P cfg rnd (username u) cur new (wauth w) = (Inr (), a1)" "app_auth a' = a1"
    "app_db a' = (wdb w)\<lparr>users := update_rows (\<lambda>r. u_id r = uid) (\<lambda>r. r\<lparr>u_password := Some e\<rparr>) (users (wdb w))\<rparr>"
    using change_master_effect [OF run] by blast
  have d: "distinct (map u_id (users (wdb w)))" using db_okD(1) [OF ok] by (simp add: users_ok_def)
  have "username u = name"
    using e(1) first_row_unique [of u_id "users (wdb w)" r "\<lambda>r. u_id r = uid" uid] d row
    by (auto simp: user_get_by_id_returns dest: row_to_user_fields)
  with e have run': "change_password P cfg rnd name cur new (wauth w) = (Inr (), app_auth a')" by simp
  then obtain salt hash where s: "\<not> shutdown_in_progress (wauth w)" "valid_utf8 new" "key_of P cfg new salt = Some hash"
    "app_auth a' = (wauth w)\<lparr>credentials := (credentials (wauth w))(name \<mapsto> \<lparr> password_salt = salt, password_hash = hash \<rparr>)\<rparr>"
    unfolding change_password_returns by blast
  then have c': "c' = \<lparr> password_salt = salt, password_hash = hash \<rparr>" using new by simp
  have key: "derive_key_if_valid P cfg name new (app_auth a') = (Inr (Some hash), app_auth a')"
    unfolding derive_if_valid_returns using s by simp
  have ver: "verify_password P cfg name new (app_auth a') = (Inr True, app_auth a')"
    unfolding verify_returns using s by simp
  have st: "totp_of (app_db a') name = Some env"
    using stored(1) by (auto simp: e(4) totp_of_def first_row_update split: option.splits)
  have "\<exists>x. decrypt P q hash = Inl x" "\<exists>x. decrypt P q legacy_key = Inl x"
    using only [of hash] only [of legacy_key] keys c' by (auto split: sum.splits) (metis sum.exhaust)+
  then have "fst (verify_login_totp C P cfg issuer rnd' name new code (w\<lparr>rt_app := a'\<rparr>)) = Inr False" for code
    by (auto simp: verify_login_totp_def bindE_run run_simps st key stored(2) legacy_login_totp_def)
  with ver st show ?thesis by blast
qed

end
