(* ===== verification/Auth_Policy.thy ===== *)
theory Auth_Policy
  imports User_Repository
begin

text \<open>
  \<open>services/auth_policy_service.rs\<close>: failed attempts and the lock-out per user name, and the
  auto-lock delay.  The \<open>i64\<close> values are integers with the saturation and the shift written out;
  the clock of the state is \<open>Utc::now().timestamp()\<close>.
\<close>

section \<open>The lock-out computation\<close>

definition MAX_FAILED_ATTEMPTS :: int where "MAX_FAILED_ATTEMPTS = 5"
definition LOCK_WINDOW_SECS :: int where "LOCK_WINDOW_SECS = 5 * 60"
definition BACKOFF_MAX_SECS :: int where "BACKOFF_MAX_SECS = 30"
definition DEFAULT_AUTO_LOCK_DELAY_MINS :: int where "DEFAULT_AUTO_LOCK_DELAY_MINS = 5"

record auth_policy_state =
  failed_attempts :: int
  remaining_secs :: int

definition is_locked :: "auth_policy_state \<Rightarrow> bool" where
  "is_locked st \<longleftrightarrow> MAX_FAILED_ATTEMPTS \<le> failed_attempts st \<and> 0 < remaining_secs st"

text \<open>\<open>i64::saturating_sub\<close> and \<open>i64::checked_shl\<close>.\<close>

definition saturating_sub_i64 :: "int \<Rightarrow> int \<Rightarrow> int" where
  "saturating_sub_i64 a b = max (- (2 ^ 63)) (min (2 ^ 63 - 1) (a - b))"

definition checked_shl_i64 :: "int \<Rightarrow> nat \<Rightarrow> int option" where
  "checked_shl_i64 a n = (if n < 64 then Some (sint (push_bit n (word_of_int a :: 64 word))) else None)"

definition backoff_delay_secs :: "int \<Rightarrow> int" where
  "backoff_delay_secs failed =
     (if failed \<le> 0 then 0
      else
        let shift = nat (max 0 (min 30 (failed - 1)));
            v = (case checked_shl_i64 1 shift of None \<Rightarrow> BACKOFF_MAX_SECS | Some x \<Rightarrow> x) in
        min v BACKOFF_MAX_SECS)"

definition remaining_lock_secs :: "int \<Rightarrow> int option \<Rightarrow> int \<Rightarrow> int" where
  "remaining_lock_secs failed last_at now =
     (case last_at of
        None \<Rightarrow> 0
      | Some last_ts \<Rightarrow>
          let elapsed = saturating_sub_i64 now last_ts;
              remaining = (if MAX_FAILED_ATTEMPTS \<le> failed \<and> elapsed < LOCK_WINDOW_SECS
                           then LOCK_WINDOW_SECS - elapsed else 0);
              backoff = backoff_delay_secs failed in
          if elapsed < backoff then max remaining (backoff - elapsed) else remaining)"

definition is_allowed_auto_lock_delay :: "int \<Rightarrow> bool" where
  "is_allowed_auto_lock_delay mins \<longleftrightarrow> mins \<in> {0, 1, 5, 10, 15, 30}"

section \<open>The table\<close>

text \<open>\<open>INSERT .. ON CONFLICT(username) DO NOTHING\<close>; the delay column takes its default.\<close>

definition new_policy_row :: "string \<Rightarrow> policy_row" where
  "new_policy_row name = \<lparr> p_user = name, p_failed = 0, p_last = None, p_delay = 5 \<rparr>"

definition ensure_row_exists :: "string \<Rightarrow> unit dbm" where
  "ensure_row_exists name =
     modify (\<lambda>s. if name \<in> set (map p_user (policies s)) then s
                  else s\<lparr>policies := policies s @ [new_policy_row name]\<rparr>)"

text \<open>\<open>fetch_one\<close>, and \<open>UPDATE auth_policy .. WHERE username = ?1\<close>.\<close>

definition policy_of :: "db \<Rightarrow> string \<Rightarrow> policy_row option" where
  "policy_of s name = first_row (\<lambda>p. p_user p = name) (policies s)"

definition fetch_policy :: "string \<Rightarrow> policy_row dbm" where
  "fetch_policy name = bindE (gets (\<lambda>s. policy_of s name)) (ok_or (Database RowNotFound))"

definition update_policy :: "string \<Rightarrow> (timestamp \<Rightarrow> policy_row \<Rightarrow> policy_row) \<Rightarrow> unit dbm" where
  "update_policy name f =
     modify (\<lambda>s. s\<lparr>policies := update_rows (\<lambda>p. p_user p = name) (f (clock s)) (policies s)\<rparr>)"

section \<open>The service\<close>

definition get_state :: "string \<Rightarrow> auth_policy_state dbm" where
  "get_state name =
     (if trim name = [] then ret \<lparr> failed_attempts = 0, remaining_secs = 0 \<rparr>
      else
        bindE (ensure_row_exists name) (\<lambda>_.
        bindE (fetch_policy name) (\<lambda>p.
        bindE (gets clock) (\<lambda>now.
        ret \<lparr> failed_attempts = p_failed p,
              remaining_secs = remaining_lock_secs (p_failed p) (p_last p) (int now) \<rparr>))))"

definition record_failed_attempt :: "string \<Rightarrow> auth_policy_state dbm" where
  "record_failed_attempt name =
     (if trim name = [] then ret \<lparr> failed_attempts = 1, remaining_secs = 0 \<rparr>
      else
        bindE (ensure_row_exists name) (\<lambda>_.
        bindE (update_policy name (\<lambda>now p. p\<lparr>p_failed := p_failed p + 1, p_last := Some (int now)\<rparr>)) (\<lambda>_.
        get_state name)))"

definition reset_failed_attempts :: "string \<Rightarrow> unit dbm" where
  "reset_failed_attempts name =
     (if trim name = [] then ret ()
      else
        bindE (ensure_row_exists name) (\<lambda>_.
        bindE (fetch_policy name) (\<lambda>_.
        update_policy name (\<lambda>_ p. p\<lparr>p_failed := 0, p_last := None\<rparr>))))"

definition get_auto_lock_delay :: "string \<Rightarrow> int dbm" where
  "get_auto_lock_delay name =
     (if trim name = [] then ret DEFAULT_AUTO_LOCK_DELAY_MINS
      else
        bindE (ensure_row_exists name) (\<lambda>_.
        bindE (gets (\<lambda>s. policy_of s name)) (\<lambda>p_opt.
        let delay = (case p_opt of None \<Rightarrow> DEFAULT_AUTO_LOCK_DELAY_MINS | Some p \<Rightarrow> p_delay p) in
        ret (if is_allowed_auto_lock_delay delay then delay else DEFAULT_AUTO_LOCK_DELAY_MINS))))"

definition update_auto_lock_delay :: "string \<Rightarrow> int \<Rightarrow> unit dbm" where
  "update_auto_lock_delay name mins =
     bindE (require (trim name \<noteq> []) (Validation ''username must not be empty for auto-lock settings'')) (\<lambda>_.
     bindE (require (is_allowed_auto_lock_delay mins)
              (Validation ''auto-lock delay must be one of: 0, 1, 5, 10, 15, 30'')) (\<lambda>_.
     bindE (ensure_row_exists name) (\<lambda>_.
     update_policy name (\<lambda>_ p. p\<lparr>p_delay := mins\<rparr>))))"

section \<open>The delays\<close>

lemma shl_one: "n < 63 \<Longrightarrow> checked_shl_i64 1 n = Some (2 ^ n)"
proof -
  assume n: "n < 63"
  have "signed_take_bit 63 (2 ^ n :: int) = 2 ^ n"
  proof (rule signed_take_bit_int_eq_self)
    have "(2::int) ^ n < 2 ^ 63" using n by (intro power_strict_increasing) auto
    then show "(2::int) ^ n < 2 ^ 63" .
    have "- (2 ^ 63) \<le> (0::int)" "(0::int) \<le> 2 ^ n" by simp_all
    then show "- (2 ^ 63) \<le> (2::int) ^ n" by linarith
  qed
  then have "sint (word_of_int (2 ^ n) :: 64 word) = 2 ^ n" unfolding signed_of_int by simp
  moreover have "push_bit n (word_of_int 1 :: 64 word) = word_of_int (2 ^ n)"
    by (simp add: push_bit_eq_mult)
  ultimately show ?thesis using n by (simp add: checked_shl_i64_def)
qed

lemma backoff_value:
  "backoff_delay_secs failed = (if failed \<le> 0 then 0 else if failed \<le> 5 then 2 ^ nat (failed - 1) else 30)"
proof (cases "failed \<le> 0")
  case False
  let ?shift = "nat (max 0 (min 30 (failed - 1)))"
  have v: "backoff_delay_secs failed = min (2 ^ ?shift) 30"
    using False shl_one [of ?shift] by (simp add: backoff_delay_secs_def BACKOFF_MAX_SECS_def)
  show ?thesis
  proof (cases "failed \<le> 5")
    case True
    with False have "failed \<in> {1, 2, 3, 4, 5}" by auto
    with v show ?thesis by auto
  next
    case big: False
    have "(2::int) ^ 5 \<le> 2 ^ ?shift" using big by (intro power_increasing) auto
    with v big show ?thesis by simp
  qed
qed (simp add: backoff_delay_secs_def)

text \<open>For clock values that fit, an account with five failures is locked until the window after the
  last of them is over; the clock standing before the last failure counts as locked.\<close>

definition clock_fits :: "int \<Rightarrow> bool" where
  "clock_fits t \<longleftrightarrow> 0 \<le> t \<and> t < 2 ^ 63"

lemma saturating_sub_exact:
  "clock_fits a \<Longrightarrow> clock_fits b \<Longrightarrow> saturating_sub_i64 a b = a - b"
  by (auto simp: saturating_sub_i64_def clock_fits_def)

lemma remaining_exact:
  assumes "clock_fits now" and "clock_fits t"
  shows "remaining_lock_secs failed (Some t) now =
           (if 5 \<le> failed \<and> now < t + 300 then t + 300 - now
            else max 0 (backoff_delay_secs failed - (now - t)))"
proof -
  have "backoff_delay_secs failed \<le> 30"
  proof (cases "0 < failed \<and> failed \<le> 5")
    case True
    then have "failed \<in> {1, 2, 3, 4, 5}" by auto
    then show ?thesis by (auto simp: backoff_value)
  qed (auto simp: backoff_value)
  then show ?thesis
    using saturating_sub_exact [OF assms]
    by (auto simp: remaining_lock_secs_def MAX_FAILED_ATTEMPTS_def LOCK_WINDOW_SECS_def Let_def)
qed

lemma locked_iff:
  assumes "clock_fits now" and "clock_fits t"
  shows "is_locked \<lparr> failed_attempts = failed, remaining_secs = remaining_lock_secs failed (Some t) now \<rparr> \<longleftrightarrow>
           5 \<le> failed \<and> now < t + 300"
proof (cases "5 \<le> failed")
  case True
  then have "backoff_delay_secs failed \<le> 30" by (auto simp: backoff_value)
  with True assms show ?thesis by (simp add: is_locked_def MAX_FAILED_ATTEMPTS_def remaining_exact)
qed (simp add: is_locked_def MAX_FAILED_ATTEMPTS_def)

section \<open>The counters\<close>

text \<open>What the table says of a name: the failures and the time of the last; a missing row is a fresh one.\<close>

definition counter_of :: "db \<Rightarrow> string \<Rightarrow> int \<times> int option" where
  "counter_of s name = (case policy_of s name of None \<Rightarrow> (0, None) | Some p \<Rightarrow> (p_failed p, p_last p))"

definition same_but_policies :: "db \<Rightarrow> db \<Rightarrow> bool" where
  "same_but_policies s s' \<longleftrightarrow> s' = s\<lparr>policies := policies s'\<rparr>"

lemma policy_in_table: "name \<in> set (map p_user (policies s)) \<longleftrightarrow> policy_of s name \<noteq> None"
  by (auto simp: policy_of_def first_row_None)

lemma policy_after_ensure:
  "policy_of (snd (ensure_row_exists name s)) other =
     (if other = name \<and> policy_of s name = None then Some (new_policy_row name) else policy_of s other)"
  unfolding ensure_row_exists_def modify_run snd_conv policy_in_table
  by (auto simp: policy_of_def first_row_append new_policy_row_def split: option.splits)

lemma ensure_row_run:
  obtains s' where "ensure_row_exists name s = (Inr (), s')" "same_but_policies s s'"
    "policy_of s' name \<noteq> None" "\<And>other. counter_of s' other = counter_of s other"
proof
  let ?s = "snd (ensure_row_exists name s)"
  show "ensure_row_exists name s = (Inr (), ?s)" by (simp add: ensure_row_exists_def run_simps)
  show "same_but_policies s ?s" by (simp add: ensure_row_exists_def run_simps same_but_policies_def)
  show "policy_of ?s name \<noteq> None" by (simp add: policy_after_ensure)
  show "counter_of ?s other = counter_of s other" for other
    by (simp add: counter_of_def policy_after_ensure new_policy_row_def split: option.split)
qed

lemma update_policy_run:
  assumes "\<And>p. p_user (f (clock s) p) = p_user p"
  shows "update_policy name f s = (Inr (), snd (update_policy name f s))"
    and "same_but_policies s (snd (update_policy name f s))"
    and "policy_of (snd (update_policy name f s)) other =
           map_option (\<lambda>p. if other = name then f (clock s) p else p) (policy_of s other)"
proof -
  show "update_policy name f s = (Inr (), snd (update_policy name f s))"
    and "same_but_policies s (snd (update_policy name f s))"
    by (simp_all add: update_policy_def run_simps same_but_policies_def)
  show "policy_of (snd (update_policy name f s)) other =
           map_option (\<lambda>p. if other = name then f (clock s) p else p) (policy_of s other)"
    by (auto simp: update_policy_def run_simps policy_of_def first_row_update assms
        dest: first_row_SomeD intro!: option.map_cong)
qed

lemma fetch_policy_run: "policy_of s name = Some p \<Longrightarrow> fetch_policy name s = (Inr p, s)"
  by (simp add: fetch_policy_def bindE_run run_simps)

section \<open>What the operations do to the counters\<close>

lemma counter_after_update:
  assumes "policy_of s name \<noteq> None" and "\<And>p. p_user (f (clock s) p) = p_user p"
  shows "counter_of (snd (update_policy name f s)) other =
           (if other = name
            then (p_failed (f (clock s) (the (policy_of s name))), p_last (f (clock s) (the (policy_of s name))))
            else counter_of s other)"
  using assms(1) by (auto simp: counter_of_def update_policy_run(3) assms(2) split: option.split)

lemma counter_failed: "policy_of s name = Some p \<Longrightarrow> counter_of s name = (p_failed p, p_last p)"
  by (simp add: counter_of_def)

lemma get_state_run:
  assumes "trim name \<noteq> []"
  obtains s' where "get_state name s =
      (Inr \<lparr> failed_attempts = fst (counter_of s name),
             remaining_secs = remaining_lock_secs (fst (counter_of s name)) (snd (counter_of s name)) (int (clock s)) \<rparr>, s')"
    "same_but_policies s s'" "\<And>other. counter_of s' other = counter_of s other"
proof -
  obtain s' where s': "ensure_row_exists name s = (Inr (), s')" "same_but_policies s s'"
      "policy_of s' name \<noteq> None" "\<And>other. counter_of s' other = counter_of s other"
    using ensure_row_run [of name s] by blast
  then obtain p where p: "policy_of s' name = Some p" by blast
  have "clock s' = clock s" using s'(2) by (metis same_but_policies_def db.select_convs(12) db.update_convs(11) db.surjective)
  moreover have "(p_failed p, p_last p) = counter_of s name" using counter_failed [OF p] s'(4) by simp
  ultimately have "get_state name s =
      (Inr \<lparr> failed_attempts = fst (counter_of s name),
             remaining_secs = remaining_lock_secs (fst (counter_of s name)) (snd (counter_of s name)) (int (clock s)) \<rparr>, s')"
    using assms by (simp add: get_state_def bindE_run run_simps s'(1) fetch_policy_run [OF p])
      (metis fst_conv snd_conv)
  with s'(2,4) that show thesis by blast
qed

lemma same_but_policies_trans: "same_but_policies a b \<Longrightarrow> same_but_policies b c \<Longrightarrow> same_but_policies a c"
  unfolding same_but_policies_def by (cases a; cases b; cases c) simp

lemma same_but_policies_clock: "same_but_policies s s' \<Longrightarrow> clock s' = clock s"
  unfolding same_but_policies_def by (cases s; cases s') simp

lemma record_failed_run:
  assumes "trim name \<noteq> []" and "counter_of s name = (f, l)"
  obtains s' where "record_failed_attempt name s =
      (Inr \<lparr> failed_attempts = f + 1,
             remaining_secs = remaining_lock_secs (f + 1) (Some (int (clock s))) (int (clock s)) \<rparr>, s')"
    "same_but_policies s s'" "counter_of s' name = (f + 1, Some (int (clock s)))"
    "\<And>other. other \<noteq> name \<Longrightarrow> counter_of s' other = counter_of s other"
proof -
  obtain s1 where s1: "ensure_row_exists name s = (Inr (), s1)" "same_but_policies s s1"
      "policy_of s1 name \<noteq> None" "\<And>other. counter_of s1 other = counter_of s other"
    using ensure_row_run [of name s] by blast
  let ?f = "\<lambda>now p. p\<lparr>p_failed := p_failed p + 1, p_last := Some (int now)\<rparr>"
  let ?s2 = "snd (update_policy name ?f s1)"
  note u = update_policy_run [where f = ?f and s = s1 and name = name, simplified]
  have c1: "clock s1 = clock s" by (rule same_but_policies_clock [OF s1(2)])
  from s1(3) obtain p where p: "policy_of s1 name = Some p" by blast
  with s1(4) assms(2) have pf: "p_failed p = f" using counter_failed [OF p] by simp
  have c2: "counter_of ?s2 other = (if other = name then (f + 1, Some (int (clock s))) else counter_of s other)" for other
    using counter_after_update [where f = ?f and other = other, OF s1(3)] p pf c1 s1(4) by simp
  have k2: "clock ?s2 = clock s" using same_but_policies_clock [OF u(2)] c1 by simp
  obtain s3 where s3: "get_state name ?s2 =
      (Inr \<lparr> failed_attempts = fst (counter_of ?s2 name),
             remaining_secs = remaining_lock_secs (fst (counter_of ?s2 name)) (snd (counter_of ?s2 name)) (int (clock ?s2)) \<rparr>, s3)"
    "same_but_policies ?s2 s3" "\<And>other. counter_of s3 other = counter_of ?s2 other"
    using get_state_run [OF assms(1), of ?s2] by blast
  show thesis
  proof (rule that [of s3])
    show "record_failed_attempt name s =
      (Inr \<lparr> failed_attempts = f + 1,
             remaining_secs = remaining_lock_secs (f + 1) (Some (int (clock s))) (int (clock s)) \<rparr>, s3)"
      using s3(1) u(1) assms(1) c2 k2
      by (simp add: record_failed_attempt_def bindE_ok [where m = "ensure_row_exists name", OF s1(1)]
          bindE_ok [where m = "update_policy name ?f" and s = s1, OF u(1)])
    show "same_but_policies s s3"
      by (rule same_but_policies_trans [OF same_but_policies_trans [OF s1(2) u(2)] s3(2)])
    show "counter_of s3 name = (f + 1, Some (int (clock s)))" using s3(3) c2 by simp
    show "counter_of s3 other = counter_of s other" if "other \<noteq> name" for other using s3(3) c2 that by simp
  qed
qed

lemma reset_run:
  assumes "trim name \<noteq> []"
  obtains s' where "reset_failed_attempts name s = (Inr (), s')" "same_but_policies s s'"
    "counter_of s' name = (0, None)" "\<And>other. other \<noteq> name \<Longrightarrow> counter_of s' other = counter_of s other"
proof -
  obtain s1 where s1: "ensure_row_exists name s = (Inr (), s1)" "same_but_policies s s1"
      "policy_of s1 name \<noteq> None" "\<And>other. counter_of s1 other = counter_of s other"
    using ensure_row_run [of name s] by blast
  let ?f = "\<lambda>_ p. p\<lparr>p_failed := 0, p_last := None\<rparr>"
  note u = update_policy_run [where f = ?f and s = s1 and name = name, simplified]
  from s1(3) obtain p where p: "policy_of s1 name = Some p" by blast
  have c: "counter_of (snd (update_policy name ?f s1)) other = (if other = name then (0, None) else counter_of s other)" for other
    using counter_after_update [where f = ?f and other = other, OF s1(3)] s1(4) by simp
  show thesis
  proof (rule that [of "snd (update_policy name ?f s1)"])
    show "reset_failed_attempts name s = (Inr (), snd (update_policy name ?f s1))"
      using assms u(1) by (simp add: reset_failed_attempts_def bindE_ok [where m = "ensure_row_exists name", OF s1(1)]
          bindE_ok [where m = "fetch_policy name", OF fetch_policy_run [OF p]])
    show "same_but_policies s (snd (update_policy name ?f s1))" by (rule same_but_policies_trans [OF s1(2) u(2)])
  qed (use c in simp_all)
qed

section \<open>The lock-out\<close>

lemma update_policy_keeps:
  assumes "\<And>t p. p_user (f t p) = p_user p"
  shows "keeps db_ok (update_policy name f)"
proof -
  have "db_ok (s\<lparr>policies := update_rows (\<lambda>p. p_user p = name) (f (clock s)) (policies s)\<rparr>)" if "db_ok s" for s
    using db_okD(9) [OF that] by (intro one_table_ok(7) [OF that]) (simp add: policies_ok_def table_simps assms)
  then show ?thesis unfolding update_policy_def by (rule keeps_modify)
qed

lemma ensure_row_keeps: "keeps db_ok (ensure_row_exists name)"
proof -
  have "db_ok (s\<lparr>policies := policies s @ [new_policy_row name]\<rparr>)"
    if "db_ok s" "name \<notin> set (map p_user (policies s))" for s
    using db_okD(9) [OF that(1)] that(2)
    by (intro one_table_ok(7) [OF that(1)]) (simp add: policies_ok_def new_policy_row_def)
  then show ?thesis unfolding ensure_row_exists_def by (intro keeps_modify) simp
qed

lemma fetch_policy_reads [step_intros]: "reads_only (fetch_policy name)"
  unfolding fetch_policy_def by (intro step_intros)

lemma auth_policy_keeps [step_intros]:
  "keeps db_ok (get_state name)" "keeps db_ok (record_failed_attempt name)"
  "keeps db_ok (reset_failed_attempts name)" "keeps db_ok (get_auto_lock_delay name)"
  "keeps db_ok (update_auto_lock_delay name mins)"
proof -
  show st: "keeps db_ok (get_state name)"
    unfolding get_state_def by (intro step_intros ensure_row_keeps keeps_reads [OF fetch_policy_reads])
  show "keeps db_ok (record_failed_attempt name)"
    unfolding record_failed_attempt_def by (intro step_intros ensure_row_keeps st update_policy_keeps) simp
  show "keeps db_ok (reset_failed_attempts name)"
    unfolding reset_failed_attempts_def
    by (intro step_intros ensure_row_keeps keeps_reads [OF fetch_policy_reads] update_policy_keeps) simp
  show "keeps db_ok (get_auto_lock_delay name)"
    unfolding get_auto_lock_delay_def Let_def by (intro step_intros ensure_row_keeps)
  show "keeps db_ok (update_auto_lock_delay name mins)"
    unfolding update_auto_lock_delay_def by (intro step_intros ensure_row_keeps update_policy_keeps) simp
qed

text \<open>A failed attempt is counted and dated; the wait it reports is 1, 2, 4 and 8 seconds after the first
  four failures and 300 from the fifth on.  Asked again at any later time, the account is locked
  exactly from the fifth failure on and for less than 300 seconds after the last one; no other
  name's counter moves.\<close>

theorem failed_attempts_lock_the_account:
  assumes "trim name \<noteq> []" and "counter_of s name = (f, l)" and "0 \<le> f" and "clock_fits (int (clock s))"
  shows "\<exists>st s'. record_failed_attempt name s = (Inr st, s') \<and>
           failed_attempts st = f + 1 \<and> remaining_secs st = (if f < 4 then 2 ^ nat f else 300) \<and>
           (\<forall>t. clock_fits (int t) \<longrightarrow>
              (\<exists>st' s''. get_state name (s'\<lparr>clock := t\<rparr>) = (Inr st', s'') \<and>
                 (is_locked st' \<longleftrightarrow> 4 \<le> f \<and> int t < int (clock s) + 300))) \<and>
           (\<forall>other. other \<noteq> name \<longrightarrow> counter_of s' other = counter_of s other)"
proof -
  let ?now = "int (clock s)"
  obtain s' where run: "record_failed_attempt name s =
      (Inr \<lparr> failed_attempts = f + 1, remaining_secs = remaining_lock_secs (f + 1) (Some ?now) ?now \<rparr>, s')"
    and c: "counter_of s' name = (f + 1, Some ?now)"
    and others: "\<And>other. other \<noteq> name \<Longrightarrow> counter_of s' other = counter_of s other"
    using record_failed_run [OF assms(1,2)] by blast
  have rem: "remaining_lock_secs (f + 1) (Some ?now) ?now = (if f < 4 then 2 ^ nat f else 300)"
    using assms(3) by (simp add: remaining_exact [OF assms(4,4)] backoff_value)
  have "\<exists>st' s''. get_state name (s'\<lparr>clock := t\<rparr>) = (Inr st', s'') \<and> (is_locked st' \<longleftrightarrow> 4 \<le> f \<and> int t < ?now + 300)"
    if t: "clock_fits (int t)" for t
  proof -
    have c': "counter_of (s'\<lparr>clock := t\<rparr>) name = (f + 1, Some ?now)"
      using c by (simp add: counter_of_def policy_of_def)
    obtain s'' where "get_state name (s'\<lparr>clock := t\<rparr>) =
        (Inr \<lparr> failed_attempts = f + 1, remaining_secs = remaining_lock_secs (f + 1) (Some ?now) (int t) \<rparr>, s'')"
      using get_state_run [OF assms(1), of "s'\<lparr>clock := t\<rparr>"] c' by auto
    then show ?thesis using locked_iff [OF t assms(4), of "f + 1"] by auto
  qed
  with run rem others show ?thesis by auto
qed

text \<open>The auto-lock delay read back is one of the six allowed values, and the one last stored if any was.\<close>

lemma auto_lock_delay_allowed:
  assumes "get_auto_lock_delay name s = (Inr d, s')"
  shows "is_allowed_auto_lock_delay d"
  using assms
  by (auto simp: get_auto_lock_delay_def returns_iff Let_def DEFAULT_AUTO_LOCK_DELAY_MINS_def
      is_allowed_auto_lock_delay_def split: if_splits)

end
