(* ===== verification/Login.thy ===== *)
theory Login
  imports Totp_Properties Auth_Policy
begin

text \<open>
  The login dialog's two submissions (\<open>login_dialog/parts/new_body.inc\<close> and
  \<open>login_dialog/login_flow.rs\<close>): identifier, lock-out, password, second factor, and the session.
  Modelled is the task each submission runs, not the widgets around it.
\<close>

record authenticated_session =
  as_user_id :: uuid
  as_username :: string
  as_identity_label :: string
  as_master_key :: bytes

datatype login_attempt_outcome =
    LoginSuccess authenticated_session
  | LoginInvalidCredentials int
  | LoginInvalidTotp int
  | LoginLocked int
  | LoginRequiresTotp

definition identity_label :: "user \<Rightarrow> string" where
  "identity_label u =
     (case display_name u of None \<Rightarrow> username u | Some v \<Rightarrow> if trim v = [] then username u else v)"

text \<open>The profile, the reset of the counter and the session; a failure counted and reported.\<close>

definition finish_login :: "string \<Rightarrow> bytes \<Rightarrow> login_attempt_outcome rtm" where
  "finish_login name master_key =
     bindE (on_app (get_user_profile_by_username name)) (\<lambda>u.
     bindE (rt_db (reset_failed_attempts name)) (\<lambda>_.
     ret (LoginSuccess \<lparr> as_user_id = user_id u, as_username = name, as_identity_label = identity_label u,
                          as_master_key = master_key \<rparr>)))"

definition failed_login :: "string \<Rightarrow> (int \<Rightarrow> login_attempt_outcome) \<Rightarrow> login_attempt_outcome rtm" where
  "failed_login name outcome =
     bindE (rt_db (record_failed_attempt name)) (\<lambda>st. ret (outcome (remaining_secs st)))"

definition login_credentials ::
  "primitives \<Rightarrow> kdf_config \<Rightarrow> string \<Rightarrow> bytes \<Rightarrow> login_attempt_outcome rtm" where
  "login_credentials P cfg ident password =
     bindE (on_app (resolve_username_for_login_identifier ident)) (\<lambda>resolved.
     case resolved of
       None \<Rightarrow> ret (LoginInvalidCredentials 0)
     | Some name \<Rightarrow>
         bindE (rt_db (get_state name)) (\<lambda>st.
         if is_locked st then ret (LoginLocked (remaining_secs st))
         else
           bindE (rt_auth (verify_password P cfg name password)) (\<lambda>verified.
           if verified then
             bindE (is_totp_enabled_for_username name) (\<lambda>has_totp.
             if has_totp then ret LoginRequiresTotp
             else
               bindE (rt_auth (derive_key_if_valid P cfg name password)) (\<lambda>key_opt.
               bindE (ok_or (Authorization InvalidCredentials) key_opt) (\<lambda>master_key.
               finish_login name master_key)))
           else failed_login name LoginInvalidCredentials)))"

text \<open>\<open>feedback::is_valid_totp\<close>, checked before the service is asked.\<close>

definition is_valid_totp :: "string \<Rightarrow> bool" where
  "is_valid_totp code \<longleftrightarrow> length code = 6 \<and> list_all is_ascii_digit code"

definition login_totp ::
  "totp_crate \<Rightarrow> primitives \<Rightarrow> kdf_config \<Rightarrow> string \<Rightarrow> bytes option \<Rightarrow> string \<Rightarrow> bytes \<Rightarrow> string \<Rightarrow>
   login_attempt_outcome rtm" where
  "login_totp C P cfg issuer nonce_rnd ident password code =
     bindE (on_app (resolve_username_for_login_identifier ident)) (\<lambda>resolved.
     case resolved of
       None \<Rightarrow> ret (LoginInvalidCredentials 0)
     | Some name \<Rightarrow>
         bindE (rt_db (get_state name)) (\<lambda>st.
         if is_locked st then ret (LoginLocked (remaining_secs st))
         else if \<not> is_valid_totp code then failed_login name LoginInvalidTotp
         else
           bindE (verify_login_totp C P cfg issuer nonce_rnd name password code) (\<lambda>totp_ok.
           if \<not> totp_ok then failed_login name LoginInvalidTotp
           else
             bindE (rt_auth (derive_key_if_valid P cfg name password)) (\<lambda>key_opt.
             case key_opt of
               None \<Rightarrow> failed_login name LoginInvalidCredentials
             | Some master_key \<Rightarrow> finish_login name master_key))))"

section \<open>What a login reads\<close>

definition resolves :: "db \<Rightarrow> string \<Rightarrow> string \<Rightarrow> bool" where
  "resolves d ident name \<longleftrightarrow> fst (user_resolve_login ident d) = Inr (Some name)"

lemma login_resolve_run:
  "resolves (wdb w) ident name \<Longrightarrow>
     on_app (resolve_username_for_login_identifier ident) w = (Inr (Some name), w)"
proof -
  have "fst (resolve_username_for_login_identifier ident (rt_app w)) = fst (user_resolve_login ident (wdb w))"
    by (simp add: resolve_username_for_login_identifier_def on_db_def zoom_def split: prod.split)
  then show "resolves (wdb w) ident name \<Longrightarrow>
     on_app (resolve_username_for_login_identifier ident) w = (Inr (Some name), w)"
    unfolding rt_reading [OF user_found_reads(7)] resolves_def by simp
qed

text \<open>The part of the state the lock-out depends on: the counter of a name, the clock, and who is who.\<close>

definition who_is_who :: "db \<Rightarrow> (string \<times> string option \<times> string option) list" where
  "who_is_who d = map (\<lambda>r. (u_name r, u_email r, u_display r)) (users d)"

definition lock_view :: "string \<Rightarrow> runtime \<Rightarrow> (int \<times> int option) \<times> nat \<times> (string \<times> string option \<times> string option) list" where
  "lock_view name w = (counter_of (wdb w) name, clock (wdb w), who_is_who (wdb w))"

lemma candidates_who:
  assumes "who_is_who d = who_is_who d'"
  shows "login_candidates ident (users d) = login_candidates ident (users d')"
proof -
  define g where "g ps =
     map (\<lambda>p. (1 :: nat, fst p)) (filter (\<lambda>p. sql_fold (fst p) = sql_fold ident) ps)
     @ map (\<lambda>p. (2, fst p)) (filter (\<lambda>p. folded_match ident (fst (snd p))) ps)
     @ map (\<lambda>p. (3, fst p)) (filter (\<lambda>p. folded_match ident (snd (snd p))) ps)"
    for ps :: "(string \<times> string option \<times> string option) list"
  have "login_candidates ident (users d) = g (who_is_who d)" for d
    by (simp add: login_candidates_def g_def who_is_who_def filter_map comp_def)
  with assms show ?thesis by simp
qed

lemma resolves_who: "who_is_who d = who_is_who d' \<Longrightarrow> resolves d ident name = resolves d' ident name"
  unfolding resolves_def user_resolve_login_def Let_def
  by (auto simp: run_simps dest: candidates_who [of d d' "trim ident"])

section \<open>What an attempt does to the lock-out\<close>

lemma zoom_db_keeps: "keeps V m \<Longrightarrow> keeps (\<lambda>w. V (wdb w)) (rt_db m)"
  by (rule on_app_keeps) (rule on_db_keeps)

lemma verify_password_reads [step_intros]: "reads_only (verify_password P cfg name pw)"
  by (rule reads_onlyI) (metis auth_failure_keeps(3) prod.collapse)

lemma update_users_view:
  assumes "\<And>t r. (u_name (f t r), u_email (f t r), u_display (f t r)) = (u_name r, u_email r, u_display r)"
  shows "keeps (\<lambda>d. (counter_of d name, clock d, who_is_who d) = v) (update_users p f)"
  by (rule keepsI)
     (simp add: update_users_def Let_def counter_of_def policy_of_def who_is_who_def table_simps assms)

lemma totp_keeps_view:
  "keeps (\<lambda>w. lock_view name w = v) (verify_login_totp C P cfg issuer rnd name' pw code)"
proof -
  have rej: "keeps (\<lambda>w. lock_view name w = v) (reject_replay_and_record name' code now)" for now
    by (rule keepsI) (simp add: lock_view_def reject_replay_run(2))
  have upd: "keeps (\<lambda>w. lock_view name w = v) (rt_db (update_users (\<lambda>r. u_name r = name')
      (\<lambda>_ r. r\<lparr>u_totp := x\<rparr>)))" for x
    unfolding lock_view_def
    by (rule zoom_db_keeps [where V = "\<lambda>d. (counter_of d name, clock d, who_is_who d) = v"])
       (rule update_users_view, simp)
  show ?thesis
    unfolding verify_login_totp_def legacy_login_totp_def
    by (intro step_intros rej upd keeps_reads [OF totp_reads(1)] keeps_reads [OF totp_reads(5)]
        keeps_reads [OF totp_reads(7)])
qed

text \<open>A locked account answers the same whatever is typed, and nothing changes: its row is there.\<close>

lemma get_state_existing:
  assumes "counter_of s name \<noteq> (0, None)" and "trim name \<noteq> []"
  shows "get_state name s =
      (Inr \<lparr> failed_attempts = fst (counter_of s name),
             remaining_secs = remaining_lock_secs (fst (counter_of s name)) (snd (counter_of s name)) (int (clock s)) \<rparr>, s)"
proof -
  have "policy_of s name \<noteq> None" using assms(1) by (auto simp: counter_of_def split: option.splits)
  then have "ensure_row_exists name s = (Inr (), s)"
    unfolding ensure_row_exists_def modify_run policy_in_table by simp
  moreover obtain p where p: "policy_of s name = Some p" using \<open>policy_of s name \<noteq> None\<close> by blast
  ultimately show ?thesis
    using assms(2) counter_failed [OF p]
    by (simp add: get_state_def bindE_run run_simps fetch_policy_run [OF p])
qed

text \<open>While an account is locked, no password and no code is tried: both submissions answer
  Locked with the seconds that are left, and the state does not change.\<close>

theorem locked_account_is_not_tried:
  assumes "resolves (wdb w) ident name" and "trim name \<noteq> []"
    and c: "counter_of (wdb w) name = (f, Some t)" and "5 \<le> f" and "int (clock (wdb w)) < t + 300"
    and fits: "clock_fits t" "clock_fits (int (clock (wdb w)))"
  shows "login_credentials P cfg ident pw w = (Inr (LoginLocked (t + 300 - int (clock (wdb w)))), w) \<and>
         login_totp C P cfg issuer rnd ident pw code w = (Inr (LoginLocked (t + 300 - int (clock (wdb w)))), w)"
proof -
  let ?now = "int (clock (wdb w))"
  let ?st = "\<lparr> failed_attempts = f, remaining_secs = remaining_lock_secs f (Some t) ?now \<rparr>"
  have "get_state name (wdb w) = (Inr ?st, wdb w)"
    using get_state_existing [of "wdb w" name] assms(2-4) by simp
  then have st: "rt_db (get_state name) w = (Inr ?st, w)"
    by (simp add: on_app_def on_db_def zoom_def)
  have "is_locked ?st" "remaining_secs ?st = t + 300 - ?now"
    using locked_iff [OF fits(2,1), of f] remaining_exact [OF fits(2,1), of f] assms(4,5) by auto
  then show ?thesis
    unfolding login_credentials_def login_totp_def
    by (simp add: bindE_run login_resolve_run [OF assms(1)] st run_simps)
qed

section \<open>How many guesses an account takes\<close>

fun rejected :: "app_error + login_attempt_outcome \<Rightarrow> bool" where
  "rejected (Inr (LoginInvalidCredentials _)) = True"
| "rejected (Inr (LoginInvalidTotp _)) = True"
| "rejected _ = False"

fun admitted :: "app_error + login_attempt_outcome \<Rightarrow> bool" where
  "admitted (Inr (LoginSuccess _)) = True"
| "admitted _ = False"

text \<open>An attempt counts exactly when it is rejected; one that is neither rejected nor admitted leaves
  the counter alone.\<close>

definition counted :: "string \<Rightarrow> (int \<times> int option) \<times> nat \<times> (string \<times> string option \<times> string option) list \<Rightarrow>
    app_error + login_attempt_outcome \<Rightarrow> runtime \<Rightarrow> bool" where
  "counted name v r w' \<longleftrightarrow>
     (rejected r \<longrightarrow> lock_view name w' = ((fst (fst v) + 1, Some (int (fst (snd v)))), snd v)) \<and>
     (\<not> rejected r \<and> \<not> admitted r \<longrightarrow> lock_view name w' = v)"

lemma bindE_post:
  assumes "keeps V m" and "V s" and "\<And>e s'. V s' \<Longrightarrow> Q (Inl e) s'"
    and "\<And>x s'. m s = (Inr x, s') \<Longrightarrow> V s' \<Longrightarrow> Q (fst (f x s')) (snd (f x s'))"
  shows "Q (fst (bindE m f s)) (snd (bindE m f s))"
proof (cases "m s")
  case (Pair r s')
  then have "V s'" using keeps_run assms(1,2) by metis
  with Pair assms(3,4) show ?thesis by (cases r) (auto simp: bindE_run)
qed

lemma counted_err: "lock_view name w = v \<Longrightarrow> counted name v (Inl e) w"
  by (simp add: counted_def)

lemma lock_view_policies:
  "same_but_policies (wdb w) d \<Longrightarrow>
     lock_view name (w\<lparr>rt_app := (rt_app w)\<lparr>app_db := d\<rparr>\<rparr>) = (counter_of d name, clock (wdb w), who_is_who (wdb w))"
  unfolding lock_view_def who_is_who_def same_but_policies_def by (cases d; cases "wdb w") simp

lemma rt_db_run: "m (wdb w) = (r, d) \<Longrightarrow> rt_db m w = (r, w\<lparr>rt_app := (rt_app w)\<lparr>app_db := d\<rparr>\<rparr>)"
  by (simp add: on_app_def on_db_def zoom_def)

lemma failed_counted:
  assumes "lock_view name w = v" and "trim name \<noteq> []" and "\<And>x. rejected (Inr (out x))"
  shows "counted name v (fst (failed_login name out w)) (snd (failed_login name out w))"
proof -
  obtain f l where c: "counter_of (wdb w) name = (f, l)" by (cases "counter_of (wdb w) name")
  obtain d st where d: "record_failed_attempt name (wdb w) = (Inr st, d)"
    "same_but_policies (wdb w) d" "counter_of d name = (f + 1, Some (int (clock (wdb w))))"
    using record_failed_run [OF assms(2) c] by metis
  have "v = ((f, l), clock (wdb w), who_is_who (wdb w))" using assms(1) c by (auto simp: lock_view_def)
  with d assms(3) show ?thesis
    by (simp add: failed_login_def bindE_run run_simps rt_db_run d(1) counted_def lock_view_policies)
qed

lemma finish_counted:
  assumes "lock_view name w = v" and "trim name \<noteq> []"
  shows "counted name v (fst (finish_login name mk w)) (snd (finish_login name mk w))"
  unfolding finish_login_def
proof (rule bindE_post [where V = "\<lambda>w. lock_view name w = v" and Q = "counted name v"])
  show "keeps (\<lambda>w. lock_view name w = v) (on_app (get_user_profile_by_username name))"
    by (intro keeps_reads rt_reads step_intros)
  fix u w1 assume "lock_view name w1 = v"
  obtain d where "reset_failed_attempts name (wdb w1) = (Inr (), d)"
    using reset_run [OF assms(2)] by metis
  then show "counted name v
      (fst (bindE (rt_db (reset_failed_attempts name)) (\<lambda>_. ret (LoginSuccess \<lparr> as_user_id = user_id u,
         as_username = name, as_identity_label = identity_label u, as_master_key = mk \<rparr>)) w1))
      (snd (bindE (rt_db (reset_failed_attempts name)) (\<lambda>_. ret (LoginSuccess \<lparr> as_user_id = user_id u,
         as_username = name, as_identity_label = identity_label u, as_master_key = mk \<rparr>)) w1))"
    by (simp add: bindE_run run_simps rt_db_run counted_def)
qed (use assms in \<open>simp_all add: counted_err\<close>)

lemma get_state_keeps_view:
  assumes "trim name \<noteq> []"
  shows "keeps (\<lambda>w. lock_view name w = v) (rt_db (get_state name))"
proof (rule keepsI)
  fix w assume v: "lock_view name w = v"
  obtain d st where "get_state name (wdb w) = (Inr st, d)" "same_but_policies (wdb w) d"
    "counter_of d name = counter_of (wdb w) name"
    using get_state_run [OF assms] by metis
  then show "lock_view name (snd (rt_db (get_state name) w)) = v"
    using v by (simp add: rt_db_run lock_view_policies) (simp add: lock_view_def)
qed

lemma view_keeping:
  "keeps (\<lambda>w. lock_view name w = v) (rt_auth (verify_password P cfg name' pw))"
  "keeps (\<lambda>w. lock_view name w = v) (rt_auth (derive_key_if_valid P cfg name' pw))"
  "keeps (\<lambda>w. lock_view name w = v) (is_totp_enabled_for_username name')"
  "keeps (\<lambda>w. lock_view name w = v) (ok_or e k)"
  by (intro keeps_reads rt_reads on_auth_reads step_intros totp_reads(4))+

lemma credentials_counted:
  assumes v: "lock_view name w = v" and name: "trim name \<noteq> []" and res: "resolves (wdb w) ident name"
  shows "counted name v (fst (login_credentials P cfg ident pw w)) (snd (login_credentials P cfg ident pw w))"
proof -
  note post = bindE_post [where V = "\<lambda>w. lock_view name w = v" and Q = "counted name v", OF _ _ counted_err]
  have stops: "counted name v (fst (ret out w')) (snd (ret out w'))"
    if "lock_view name w' = v" "\<not> rejected (Inr out)" for out w'
    using that by (simp add: run_simps counted_def)
  have tail: "counted name v
      (fst (bindE (rt_auth (derive_key_if_valid P cfg name pw)) (\<lambda>key_opt.
         bindE (ok_or (Authorization InvalidCredentials) key_opt) (finish_login name)) w'))
      (snd (bindE (rt_auth (derive_key_if_valid P cfg name pw)) (\<lambda>key_opt.
         bindE (ok_or (Authorization InvalidCredentials) key_opt) (finish_login name)) w'))"
    if "lock_view name w' = v" for w'
    by (rule post [OF view_keeping(2) that], assumption, rule post [OF view_keeping(4)], assumption, assumption,
        rule finish_counted [OF _ name])
  show ?thesis
    unfolding login_credentials_def bindE_ok [where m = "on_app (resolve_username_for_login_identifier ident)", OF login_resolve_run [OF res]] option.case
  proof (rule post [OF get_state_keeps_view [OF name] v], assumption, goal_cases)
    case (1 st w1)
    show ?case
    proof (cases "is_locked st")
      case False
      then show ?thesis
        apply (simp only: if_False)
        apply (rule post [OF view_keeping(1) 1(2)], assumption)
        subgoal for verified w2
          apply (cases verified; simp only: if_True if_False)
           apply (rule post [OF view_keeping(3)], assumption, assumption)
          subgoal for has w3
            by (cases has; simp only: if_True if_False) (rule stops, assumption, simp, rule tail)
          by (rule failed_counted [OF _ name], assumption, simp)
        done
    qed (use 1 in \<open>simp add: stops\<close>)
  qed
qed

lemma totp_counted:
  assumes v: "lock_view name w = v" and name: "trim name \<noteq> []" and res: "resolves (wdb w) ident name"
  shows "counted name v (fst (login_totp C P cfg issuer rnd ident pw code w))
           (snd (login_totp C P cfg issuer rnd ident pw code w))"
proof -
  note post = bindE_post [where V = "\<lambda>w. lock_view name w = v" and Q = "counted name v", OF _ _ counted_err]
  show ?thesis
    unfolding login_totp_def bindE_ok [where m = "on_app (resolve_username_for_login_identifier ident)", OF login_resolve_run [OF res]] option.case
  proof (rule post [OF get_state_keeps_view [OF name] v], assumption, goal_cases)
    case (1 st w1)
    then have fails: "counted name v (fst (failed_login name out w1)) (snd (failed_login name out w1))"
      if "\<And>x. rejected (Inr (out x))" for out
      by (intro failed_counted name that) simp
    show ?case
    proof (cases "is_locked st \<or> \<not> is_valid_totp code")
      case False
      then show ?thesis
        apply (simp only: if_False de_Morgan_disj not_not)
        apply (simp only: simp_thms if_False)
        apply (rule post [OF totp_keeps_view 1(2)], assumption)
        subgoal for totp_ok w2
          apply (cases totp_ok; simp only: simp_thms if_True if_False)
           apply (rule post [OF view_keeping(2)], assumption, assumption)
          subgoal for k w3
            by (cases k; simp only: option.case)
               (rule failed_counted [OF _ name], assumption, simp, rule finish_counted [OF _ name])
          by (rule failed_counted [OF _ name], assumption, simp)
        done
    qed (use 1 fails in \<open>auto simp: counted_def run_simps\<close>)
  qed
qed

section \<open>Guessing over time\<close>

text \<open>An attempt: when, with which identifier and password, and the code of the second submission if it
  is that one.  The nonce is drawn afresh by each.\<close>

record login_attempt =
  at_time :: timestamp
  at_ident :: string
  at_password :: bytes
  at_code :: "string option"
  at_nonce :: "bytes option"

definition run_attempt ::
  "totp_crate \<Rightarrow> primitives \<Rightarrow> kdf_config \<Rightarrow> string \<Rightarrow> login_attempt \<Rightarrow> login_attempt_outcome rtm" where
  "run_attempt C P cfg issuer a w =
     (let w' = w\<lparr>rt_app := (rt_app w)\<lparr>app_db := (wdb w)\<lparr>clock := at_time a\<rparr>\<rparr>\<rparr> in
      case at_code a of
        None \<Rightarrow> login_credentials P cfg (at_ident a) (at_password a) w'
      | Some code \<Rightarrow> login_totp C P cfg issuer (at_nonce a) (at_ident a) (at_password a) code w')"

primrec attempts ::
  "totp_crate \<Rightarrow> primitives \<Rightarrow> kdf_config \<Rightarrow> string \<Rightarrow> login_attempt list \<Rightarrow> runtime \<Rightarrow>
   (app_error + login_attempt_outcome) list" where
  "attempts C P cfg issuer [] w = []"
| "attempts C P cfg issuer (a # as) w =
     fst (run_attempt C P cfg issuer a w) # attempts C P cfg issuer as (snd (run_attempt C P cfg issuer a w))"

text \<open>How many rejections are still possible up to time \<open>T\<close>, from a counter and a time.\<close>

definition budget :: "nat \<Rightarrow> int \<times> int option \<Rightarrow> nat \<Rightarrow> int" where
  "budget T c now =
     (case snd c of
        Some t \<Rightarrow> if 5 \<le> fst c then (int T - t) div 300 else 5 - fst c + (int T - int now) div 300
      | None \<Rightarrow> 5 - fst c + (int T - int now) div 300)"

definition counter_fits :: "int \<times> int option \<Rightarrow> nat \<Rightarrow> bool" where
  "counter_fits c now \<longleftrightarrow> 0 \<le> fst c \<and>
     (case snd c of None \<Rightarrow> fst c < 5 | Some t \<Rightarrow> 0 \<le> t \<and> t \<le> int now)"

lemma resolves_clock: "resolves (d\<lparr>clock := t\<rparr>) ident name = resolves d ident name"
  by (rule resolves_who) (simp add: who_is_who_def)

lemma attempt_counted:
  assumes "trim name \<noteq> []" and "resolves (wdb w) (at_ident a) name"
  shows "counted name (counter_of (wdb w) name, at_time a, who_is_who (wdb w))
           (fst (run_attempt C P cfg issuer a w)) (snd (run_attempt C P cfg issuer a w))"
proof -
  let ?w = "w\<lparr>rt_app := (rt_app w)\<lparr>app_db := (wdb w)\<lparr>clock := at_time a\<rparr>\<rparr>\<rparr>"
  have "lock_view name ?w = (counter_of (wdb w) name, at_time a, who_is_who (wdb w))"
    by (simp add: lock_view_def counter_of_def policy_of_def who_is_who_def)
  note counts = credentials_counted [OF this assms(1)] totp_counted [OF this assms(1)]
  have "resolves (wdb ?w) (at_ident a) name" using assms(2) by (simp add: resolves_clock)
  with counts show ?thesis
    unfolding run_attempt_def Let_def by (cases "at_code a"; simp only: option.case)
qed

text \<open>A rejection is only possible outside the window.\<close>

lemma rejected_unlocked:
  assumes "trim name \<noteq> []" and "resolves (wdb w) (at_ident a) name"
    and "rejected (fst (run_attempt C P cfg issuer a w))"
    and "counter_of (wdb w) name = (f, Some t)" and "5 \<le> f"
    and "clock_fits t" and "clock_fits (int (at_time a))"
  shows "t + 300 \<le> int (at_time a)"
proof (rule ccontr)
  let ?w = "w\<lparr>rt_app := (rt_app w)\<lparr>app_db := (wdb w)\<lparr>clock := at_time a\<rparr>\<rparr>\<rparr>"
  assume "\<not> t + 300 \<le> int (at_time a)"
  moreover have "counter_of (wdb ?w) name = (f, Some t)" using assms(4) by (simp add: counter_of_def policy_of_def)
  ultimately have "\<not> rejected (fst (run_attempt C P cfg issuer a w))"
    using locked_account_is_not_tried [of ?w "at_ident a" name f t P cfg "at_password a" C issuer "at_nonce a" "the (at_code a)"] assms
    by (cases "at_code a") (simp_all add: run_attempt_def Let_def resolves_clock)
  with assms(3) show False by simp
qed

lemma budget_step:
  assumes "counter_fits (f, l) now" and "now \<le> \<tau>" and "\<tau> \<le> T"
    and "\<And>t. l = Some t \<Longrightarrow> 5 \<le> f \<Longrightarrow> t + 300 \<le> int \<tau>"
  shows "1 + budget T (f + 1, Some (int \<tau>)) \<tau> \<le> budget T (f, l) now"
proof -
  have mono: "(int T - int \<tau>) div 300 \<le> (int T - int now) div 300"
    using assms(2) by (intro zdiv_mono1) auto
  show ?thesis
  proof (cases "5 \<le> f")
    case True
    with assms(1) obtain t where t: "l = Some t" by (auto simp: counter_fits_def split: option.splits)
    have "(int T - int \<tau>) div 300 \<le> (int T - (t + 300)) div 300"
      using assms(4) [OF t True] by (intro zdiv_mono1) auto
    also have "\<dots> = (int T - t) div 300 - 1" by simp
    finally show ?thesis using True t by (simp add: budget_def)
  next
    case False
    then have "budget T (f, l) now = 5 - f + (int T - int now) div 300"
      by (simp add: budget_def split: option.split)
    with mono False show ?thesis by (simp add: budget_def)
  qed
qed

lemma budget_later:
  assumes "now \<le> \<tau>"
  shows "budget T c \<tau> \<le> budget T c now"
proof -
  have "(int T - int \<tau>) div 300 \<le> (int T - int now) div 300" using assms by (intro zdiv_mono1) auto
  then show ?thesis by (simp add: budget_def split: option.split)
qed

lemma budget_nonneg:
  "counter_fits c now \<Longrightarrow> now \<le> T \<Longrightarrow> 0 \<le> budget T c now"
  by (auto simp: budget_def counter_fits_def split: option.splits intro!: add_nonneg_nonneg pos_imp_zdiv_nonneg_iff [THEN iffD2])

lemma rejections_bounded:
  assumes "trim name \<noteq> []" and "\<forall>a\<in>set as. resolves (wdb w) (at_ident a) name"
    and "\<forall>r\<in>set (attempts C P cfg issuer as w). \<not> admitted r"
    and "sorted (now # map at_time as)" and "\<forall>a\<in>set as. at_time a \<le> T" and "now \<le> T" and "clock_fits (int T)"
    and "counter_fits (counter_of (wdb w) name) now"
  shows "int (length (filter rejected (attempts C P cfg issuer as w))) \<le> budget T (counter_of (wdb w) name) now"
  using assms
proof (induction as arbitrary: w now)
  case Nil
  then show ?case using budget_nonneg by simp
next
  case (Cons a as)
  let ?r = "fst (run_attempt C P cfg issuer a w)" and ?w = "snd (run_attempt C P cfg issuer a w)"
  obtain f l where c: "counter_of (wdb w) name = (f, l)" by (cases "counter_of (wdb w) name")
  have res: "resolves (wdb w) (at_ident a) name" using Cons.prems(2) by simp
  have times: "now \<le> at_time a" "at_time a \<le> T" "sorted (at_time a # map at_time as)"
    using Cons.prems(4,5) by auto
  have fits: "clock_fits (int (at_time a))" using times(2) Cons.prems(7) by (auto simp: clock_fits_def)
  have cf: "counter_fits (f, l) now" using Cons.prems(8) c by simp
  note ct = attempt_counted [OF Cons.prems(1) res, of C P cfg issuer, unfolded c counted_def]
  have na: "\<not> admitted ?r" using Cons.prems(3) by simp
  have who: "who_is_who (wdb ?w) = who_is_who (wdb w)"
    using ct na by (cases "rejected ?r") (auto simp: lock_view_def)
  have rest: "\<forall>b\<in>set as. resolves (wdb ?w) (at_ident b) name"
    using Cons.prems(2) resolves_who [OF who] by simp
  note IH = Cons.IH [of ?w "at_time a", OF Cons.prems(1) rest _ times(3) _ times(2) Cons.prems(7)]
  have others: "\<forall>r\<in>set (attempts C P cfg issuer as ?w). \<not> admitted r" "\<forall>b\<in>set as. at_time b \<le> T"
    using Cons.prems(3,5) by simp_all
  show ?case
  proof (cases "rejected ?r")
    case True
    then have c': "counter_of (wdb ?w) name = (f + 1, Some (int (at_time a)))"
      using ct by (simp add: lock_view_def)
    have unlocked: "t + 300 \<le> int (at_time a)" if "l = Some t" "5 \<le> f" for t
    proof (rule rejected_unlocked [OF Cons.prems(1) res True _ that(2) _ fits])
      show "counter_of (wdb w) name = (f, Some t)" using c that by simp
      show "clock_fits t" using cf that times fits by (auto simp: counter_fits_def clock_fits_def)
    qed
    have "counter_fits (f + 1, Some (int (at_time a))) (at_time a)" using cf by (auto simp: counter_fits_def)
    then have "int (length (filter rejected (attempts C P cfg issuer as ?w))) \<le> budget T (f + 1, Some (int (at_time a))) (at_time a)"
      using IH [OF others] c' by simp
    also have "1 + \<dots> \<le> budget T (f, l) now" by (rule budget_step [OF cf times(1,2) unlocked])
    finally show ?thesis using True c by simp
  next
    case False
    then have c': "counter_of (wdb ?w) name = (f, l)" using ct na by (simp add: lock_view_def)
    have "counter_fits (f, l) (at_time a)" using cf times(1) by (auto simp: counter_fits_def split: option.splits)
    then have "int (length (filter rejected (attempts C P cfg issuer as ?w))) \<le> budget T (f, l) (at_time a)"
      using IH [OF others] c' by simp
    also have "\<dots> \<le> budget T (f, l) now" by (rule budget_later [OF times(1)])
    finally show ?thesis using False c by simp
  qed
qed

text \<open>C9. Whoever guesses passwords or codes for an account, through both submissions, under any identifier that
  leads to it and at times that do not go back, gets at most five answers and then one more per
  300 seconds until one of them is right.\<close>

theorem guesses_are_rate_limited:
  assumes "trim name \<noteq> []" and "\<forall>a\<in>set as. resolves (wdb w) (at_ident a) name"
    and "counter_of (wdb w) name = (0, None)"
    and "sorted (map at_time as)" and "as \<noteq> []" and "clock_fits (int (at_time (last as)))"
    and "\<forall>r\<in>set (attempts C P cfg issuer as w). \<not> admitted r"
  shows "length (filter rejected (attempts C P cfg issuer as w)) \<le>
           5 + (at_time (last as) - at_time (hd as)) div 300"
proof -
  obtain a bs where as: "as = a # bs" using assms(5) by (cases as) auto
  have last: "\<forall>b\<in>set as. at_time b \<le> at_time (last as)"
  proof
    fix b assume "b \<in> set as"
    then obtain i where i: "i < length as" "b = as ! i" by (auto simp: in_set_conv_nth)
    then have "map at_time as ! i \<le> map at_time as ! (length as - 1)"
      using assms(4) by (intro sorted_nth_mono) auto
    with i assms(5) show "at_time b \<le> at_time (last as)" by (simp add: last_conv_nth)
  qed
  have "int (length (filter rejected (attempts C P cfg issuer as w))) \<le>
          budget (at_time (last as)) (0, None) (at_time (hd as))"
    using rejections_bounded [of name as w C P cfg issuer "at_time (hd as)" "at_time (last as)"] assms last
    by (simp add: as counter_fits_def)
  also have "\<dots> = int (5 + (at_time (last as) - at_time (hd as)) div 300)"
    using last assms(5) by (simp add: budget_def zdiv_int of_nat_diff)
  finally show ?thesis by simp
qed

section \<open>What a session proves\<close>

text \<open>What a login leaves alone on its way to the session: the credentials and who has which name.\<close>

definition login_view :: "runtime \<Rightarrow> auth_state \<times> (uuid \<times> string) list" where
  "login_view w = (wauth w, map (\<lambda>r. (u_id r, u_name r)) (users (wdb w)))"

lemma totp_keeps_login_view:
  "keeps (\<lambda>w. login_view w = v) (verify_login_totp C P cfg issuer rnd name pw code)"
proof -
  have rej: "keeps (\<lambda>w. login_view w = v) (reject_replay_and_record name code now)" for now
    by (rule keepsI) (simp add: login_view_def reject_replay_run(2))
  have upd: "keeps (\<lambda>w. login_view w = v) (rt_db (update_users (\<lambda>r. u_name r = name) (\<lambda>_ r. r\<lparr>u_totp := x\<rparr>)))" for x
    by (rule keepsI)
       (auto simp: login_view_def on_app_def on_db_def zoom_def update_users_def Let_def table_simps split: prod.split)
  show ?thesis
    unfolding verify_login_totp_def legacy_login_totp_def
    by (intro step_intros rej upd keeps_reads [OF totp_reads(1)] keeps_reads [OF totp_reads(5)]
        keeps_reads [OF totp_reads(7)])
qed

lemma get_state_policies: "keeps (same_but_policies s) (get_state name)"
proof -
  have "keeps (same_but_policies s) (ensure_row_exists name)"
    unfolding ensure_row_exists_def
  proof (intro keeps_modify)
    fix d assume "same_but_policies s d"
    then show "same_but_policies s (if name \<in> set (map p_user (policies d)) then d
        else d\<lparr>policies := policies d @ [new_policy_row name]\<rparr>)"
      unfolding same_but_policies_def by (cases s; cases d) simp
  qed
  then show ?thesis
    unfolding get_state_def by (intro step_intros keeps_reads [OF fetch_policy_reads])
qed

lemma rt_get_state_same:
  assumes "rt_db (get_state name) w = (r, w1)"
  obtains d where "w1 = w\<lparr>rt_app := (rt_app w)\<lparr>app_db := d\<rparr>\<rparr>" and "d = (wdb w)\<lparr>policies := policies d\<rparr>"
proof -
  obtain d where d: "get_state name (wdb w) = (r, d)" "w1 = w\<lparr>rt_app := (rt_app w)\<lparr>app_db := d\<rparr>\<rparr>"
    using assms by (auto simp: on_app_returns on_db_returns)
  have "same_but_policies (wdb w) (wdb w)" by (simp add: same_but_policies_def)
  with keeps_run [OF get_state_policies d(1)] have "same_but_policies (wdb w) d" by blast
  with d(2) that show thesis by (simp add: same_but_policies_def)
qed

lemma finish_success:
  assumes "finish_login name mk w = (Inr (LoginSuccess ses), w')"
  shows "as_username ses = name \<and> as_master_key ses = mk \<and>
         (\<exists>r\<in>set (users (wdb w)). u_id r = as_user_id ses \<and> u_name r = name)"
proof -
  obtain u w1 where u: "on_app (get_user_profile_by_username name) w = (Inr u, w1)"
    and ses: "as_username ses = name" "as_master_key ses = mk" "as_user_id ses = user_id u"
    using assms by (auto simp: finish_login_def bindE_returns ret_returns)
  from u obtain r where "first_row (\<lambda>r. u_name r = name) (users (wdb w)) = Some r" "row_to_user r = Inr u"
    by (auto simp: on_app_returns get_user_profile_by_username_def returns_iff on_db_returns user_get_by_username_def
        fetch_optional_run optional_user_def split: option.splits)
  then have "r \<in> set (users (wdb w)) \<and> u_name r = name \<and> u_id r = user_id u"
    by (auto dest: first_row_SomeD row_to_user_fields)
  with ses show ?thesis by auto
qed

lemma rt_derive_returns:
  "rt_auth (derive_key_if_valid P cfg name pw) w = (Inr k, w') \<longleftrightarrow> derived_key P cfg name pw w = Inr k \<and> w' = w"
  by (auto simp: rt_derive_run)

lemma second_factor_cong:
  "wauth w1 = wauth w \<Longrightarrow> clock (wdb w1) = clock (wdb w) \<Longrightarrow>
     second_factor C P cfg issuer name pw code w1 env = second_factor C P cfg issuer name pw code w env"
  by (simp add: second_factor_def)

lemma failed_is_no_session: "failed_login name out w = (Inr (LoginSuccess ses), w') \<Longrightarrow> \<exists>x. out x = LoginSuccess ses"
  by (auto simp: failed_login_def returns_iff)

text \<open>The runs that end in a session.\<close>

lemma login_credentials_success:
  assumes "login_credentials P cfg ident pw w = (Inr (LoginSuccess ses), w')"
  obtains name w0 st w1 v w2 w3 key w4 where
    "on_app (resolve_username_for_login_identifier ident) w = (Inr (Some name), w0)"
    "rt_db (get_state name) w0 = (Inr st, w1)"
    "rt_auth (verify_password P cfg name pw) w1 = (Inr v, w2)"
    "is_totp_enabled_for_username name w2 = (Inr False, w3)"
    "rt_auth (derive_key_if_valid P cfg name pw) w3 = (Inr (Some key), w4)"
    "finish_login name key w4 = (Inr (LoginSuccess ses), w')"
proof -
  from assms obtain name w0 st w1 where r: "on_app (resolve_username_for_login_identifier ident) w = (Inr (Some name), w0)"
    and g: "rt_db (get_state name) w0 = (Inr st, w1)" and "\<not> is_locked st"
    and "bindE (rt_auth (verify_password P cfg name pw)) (\<lambda>verified.
           if verified then
             bindE (is_totp_enabled_for_username name) (\<lambda>has_totp.
             if has_totp then ret LoginRequiresTotp
             else
               bindE (rt_auth (derive_key_if_valid P cfg name pw)) (\<lambda>key_opt.
               bindE (ok_or (Authorization InvalidCredentials) key_opt) (\<lambda>master_key.
               finish_login name master_key)))
           else failed_login name LoginInvalidCredentials) w1 = (Inr (LoginSuccess ses), w')"
    unfolding login_credentials_def bindE_returns [where m = "on_app (resolve_username_for_login_identifier _)"]
    by (auto simp: ret_returns bindE_returns [where m = "on_app (on_db (get_state _))"] split: option.split_asm if_split_asm)
  then obtain v w2 where "rt_auth (verify_password P cfg name pw) w1 = (Inr v, w2)"
    and "bindE (is_totp_enabled_for_username name) (\<lambda>has_totp.
             if has_totp then ret LoginRequiresTotp
             else
               bindE (rt_auth (derive_key_if_valid P cfg name pw)) (\<lambda>key_opt.
               bindE (ok_or (Authorization InvalidCredentials) key_opt) (\<lambda>master_key.
               finish_login name master_key))) w2 = (Inr (LoginSuccess ses), w')"
    unfolding bindE_returns [where m = "on_app _"] by (auto dest: failed_is_no_session split: if_split_asm)
  with r g that show thesis
    unfolding bindE_returns by (auto simp: returns_iff split: if_split_asm)
qed

lemma login_totp_success:
  assumes "login_totp C P cfg issuer rnd ident pw code w = (Inr (LoginSuccess ses), w')"
  obtains name w0 st w1 w2 key w3 where
    "on_app (resolve_username_for_login_identifier ident) w = (Inr (Some name), w0)"
    "rt_db (get_state name) w0 = (Inr st, w1)"
    "verify_login_totp C P cfg issuer rnd name pw code w1 = (Inr True, w2)"
    "rt_auth (derive_key_if_valid P cfg name pw) w2 = (Inr (Some key), w3)"
    "finish_login name key w3 = (Inr (LoginSuccess ses), w')"
proof -
  from assms obtain name w0 st w1 where r: "on_app (resolve_username_for_login_identifier ident) w = (Inr (Some name), w0)"
    and g: "rt_db (get_state name) w0 = (Inr st, w1)"
    and "bindE (verify_login_totp C P cfg issuer rnd name pw code) (\<lambda>totp_ok.
           if \<not> totp_ok then failed_login name LoginInvalidTotp
           else
             bindE (rt_auth (derive_key_if_valid P cfg name pw)) (\<lambda>key_opt.
             case key_opt of
               None \<Rightarrow> failed_login name LoginInvalidCredentials
             | Some master_key \<Rightarrow> finish_login name master_key)) w1 = (Inr (LoginSuccess ses), w')"
    unfolding login_totp_def bindE_returns [where m = "on_app (resolve_username_for_login_identifier _)"]
    by (auto simp: ret_returns bindE_returns [where m = "on_app (on_db (get_state _))"]
        dest: failed_is_no_session split: option.split_asm if_split_asm)
  then obtain w2 where "verify_login_totp C P cfg issuer rnd name pw code w1 = (Inr True, w2)"
    and "bindE (rt_auth (derive_key_if_valid P cfg name pw)) (\<lambda>key_opt.
             case key_opt of
               None \<Rightarrow> failed_login name LoginInvalidCredentials
             | Some master_key \<Rightarrow> finish_login name master_key) w2 = (Inr (LoginSuccess ses), w')"
    unfolding bindE_returns [where m = "verify_login_totp _ _ _ _ _ _ _ _"]
    by (auto dest: failed_is_no_session split: if_split_asm)
  with r g that show thesis
    unfolding bindE_returns by (auto dest: failed_is_no_session split: option.split_asm)
qed

lemma resolve_returns:
  "on_app (resolve_username_for_login_identifier ident) w = (Inr (Some name), w1) \<Longrightarrow>
     w1 = w \<and> resolves (wdb w) ident name"
  using reads_only_run [OF rt_reads [OF user_found_reads(7)], of ident w "Inr (Some name)" w1]
  by (auto simp: resolves_def on_app_returns on_db_returns resolve_username_for_login_identifier_def)

lemma session_by_credentials:
  assumes "login_credentials P cfg ident pw w = (Inr (LoginSuccess ses), w')"
  shows "resolves (wdb w) ident (as_username ses) \<and>
         derived_key P cfg (as_username ses) pw w = Inr (Some (as_master_key ses)) \<and>
         (\<exists>r\<in>set (users (wdb w)). u_id r = as_user_id ses \<and> u_name r = as_username ses) \<and>
         totp_of (wdb w) (as_username ses) = None"
proof -
  from assms obtain name w0 st w1 v w2 w3 key w4 where
    r: "on_app (resolve_username_for_login_identifier ident) w = (Inr (Some name), w0)"
    and g: "rt_db (get_state name) w0 = (Inr st, w1)"
    and v: "rt_auth (verify_password P cfg name pw) w1 = (Inr v, w2)"
    and h: "is_totp_enabled_for_username name w2 = (Inr False, w3)"
    and k: "rt_auth (derive_key_if_valid P cfg name pw) w3 = (Inr (Some key), w4)"
    and f: "finish_login name key w4 = (Inr (LoginSuccess ses), w')"
    by (rule login_credentials_success)
  have w0: "w0 = w" "resolves (wdb w) ident name" using resolve_returns [OF r] by auto
  obtain d where d: "w1 = w\<lparr>rt_app := (rt_app w)\<lparr>app_db := d\<rparr>\<rparr>" "d = (wdb w)\<lparr>policies := policies d\<rparr>"
    using rt_get_state_same [OF g [unfolded w0]] by blast
  have "w2 = w1" by (rule reads_only_run [OF rt_reads [OF on_auth_reads [OF verify_password_reads]] v])
  moreover have "w3 = w2" by (rule reads_only_run [OF totp_reads(4) h])
  ultimately have k': "derived_key P cfg name pw w1 = Inr (Some key)" "w4 = w1" and h': "totp_of (wdb w1) name = None"
    using k h by (auto simp: rt_derive_returns is_totp_enabled_for_username_def bindE_run run_simps)
  have "users d = users (wdb w)" using d(2) by (metis db.select_convs(1) db.surjective db.update_convs(11))
  then show ?thesis
    using finish_success [OF f] k' h' w0 d(1) by (auto simp: totp_of_def)
qed

lemma session_by_totp:
  assumes "totp_laws C" and "login_totp C P cfg issuer rnd ident pw code w = (Inr (LoginSuccess ses), w')"
  shows "resolves (wdb w) ident (as_username ses) \<and>
         derived_key P cfg (as_username ses) pw w = Inr (Some (as_master_key ses)) \<and>
         (\<exists>r\<in>set (users (wdb w)). u_id r = as_user_id ses \<and> u_name r = as_username ses) \<and>
         (\<forall>env. totp_of (wdb w) (as_username ses) = Some env \<longrightarrow>
            second_factor C P cfg issuer (as_username ses) pw code w env)"
proof -
  from assms(2) obtain name w0 st w1 w2 key w3 where
    r: "on_app (resolve_username_for_login_identifier ident) w = (Inr (Some name), w0)"
    and g: "rt_db (get_state name) w0 = (Inr st, w1)"
    and v: "verify_login_totp C P cfg issuer rnd name pw code w1 = (Inr True, w2)"
    and k: "rt_auth (derive_key_if_valid P cfg name pw) w2 = (Inr (Some key), w3)"
    and f: "finish_login name key w3 = (Inr (LoginSuccess ses), w')"
    by (rule login_totp_success)
  have w0: "w0 = w" "resolves (wdb w) ident name" using resolve_returns [OF r] by auto
  obtain d where d: "w1 = w\<lparr>rt_app := (rt_app w)\<lparr>app_db := d\<rparr>\<rparr>" "d = (wdb w)\<lparr>policies := policies d\<rparr>"
    using rt_get_state_same [OF g [unfolded w0]] by blast
  have same: "users d = users (wdb w)" "clock d = clock (wdb w)"
    using d(2) by (metis db.select_convs(1,12) db.surjective db.update_convs(11))+
  have view: "login_view w2 = login_view w1" by (rule keeps_run [OF totp_keeps_login_view v refl])
  have k': "derived_key P cfg name pw w = Inr (Some key)" "w3 = w2"
    using k view d(1) by (auto simp: rt_derive_returns login_view_def)
  have "set (map (\<lambda>r. (u_id r, u_name r)) (users (wdb w2))) = set (map (\<lambda>r. (u_id r, u_name r)) (users (wdb w)))"
    using view d(1) same by (simp add: login_view_def)
  then have id: "\<exists>r\<in>set (users (wdb w)). u_id r = as_user_id ses \<and> u_name r = name"
    using finish_success [OF f] k'(2) by auto (metis (mono_tags, lifting) image_eqI image_iff prod.inject)
  have "second_factor C P cfg issuer name pw code w env" if "totp_of (wdb w) name = Some env" for env
  proof -
    have "totp_of (wdb w1) name = Some env" using that d(1) same(1) by (simp add: totp_of_def)
    note factor = login_second_factor [OF assms(1) this v]
    have "wauth w1 = wauth w" "clock (wdb w1) = clock (wdb w)" using d(1) same by simp_all
    from second_factor_cong [OF this] factor show ?thesis by blast
  qed
  with finish_success [OF f] k'(1) w0(2) id show ?thesis by auto
qed

text \<open>C4. A session is opened only for the user the identifier leads to, by a password that derives the
  stored key, which becomes the session's master key; with a second factor stored it takes the second submission
  and a code of the current time under the stored secret.\<close>

theorem session_needs_both_factors:
  assumes "totp_laws C"
  shows "(login_credentials P cfg ident pw w = (Inr (LoginSuccess ses), w') \<longrightarrow>
            resolves (wdb w) ident (as_username ses) \<and>
            derived_key P cfg (as_username ses) pw w = Inr (Some (as_master_key ses)) \<and>
            (\<exists>r\<in>set (users (wdb w)). u_id r = as_user_id ses \<and> u_name r = as_username ses) \<and>
            totp_of (wdb w) (as_username ses) = None) \<and>
         (login_totp C P cfg issuer rnd ident pw code w = (Inr (LoginSuccess ses), w') \<longrightarrow>
            resolves (wdb w) ident (as_username ses) \<and>
            derived_key P cfg (as_username ses) pw w = Inr (Some (as_master_key ses)) \<and>
            (\<exists>r\<in>set (users (wdb w)). u_id r = as_user_id ses \<and> u_name r = as_username ses) \<and>
            (\<forall>env. totp_of (wdb w) (as_username ses) = Some env \<longrightarrow>
               second_factor C P cfg issuer (as_username ses) pw code w env))"
  using session_by_credentials session_by_totp [OF assms] by blast

end
