(* ===== verification/Login_Witnesses.thy ===== *)
theory Login_Witnesses
  imports Login Demo
begin

text \<open>The properties of the lock-out, the second factor and the login, applied at concrete inputs.\<close>

definition demo_code :: "nat \<Rightarrow> string" where
  "demo_code k = (if even k then ''123456'' else ''654321'')"

definition demo_C :: totp_crate where
  "demo_C = \<lparr> base32_bytes = (\<lambda>s. Some (str_bytes s)), totp_accepts = (\<lambda>_. True),
     totp_code = (\<lambda>t k. demo_code k),
     totp_check = (\<lambda>t now code. Some (list_ex (\<lambda>k. demo_code k = code)
        [now div tp_step t - tp_skew t ..< now div tp_step t + tp_skew t + 1])),
     totp_url = (\<lambda>t. ''otpauth''), qr_new = (\<lambda>_. Some []), png_of = (\<lambda>_. Some []) \<rparr>"

text \<open>The demonstration state with a second factor for Ada, at time 1000.\<close>

definition totp_db :: "timestamp \<Rightarrow> db" where
  "totp_db t = demo_db\<lparr>users :=
     [(demo_user 1 ''ada'' ''admin'' ada_pw)\<lparr>u_totp := Some (demo_seal (str_bytes ''SEED'') ada_key)\<rparr>,
      demo_user 2 ''bob'' ''user'' bob_pw, demo_user 3 ''cleo'' ''admin'' bob_pw], clock := t\<rparr>"

definition demo_rt :: runtime where
  "demo_rt = \<lparr> rt_app = demo_app, rt_replay = Map.empty \<rparr>"

definition totp_rt :: "timestamp \<Rightarrow> runtime" where
  "totp_rt t = \<lparr> rt_app = demo_app\<lparr>app_db := totp_db t\<rparr>, rt_replay = Map.empty \<rparr>"

theorem failed_attempts_lock_the_account_witness:
  "\<exists>st s'. record_failed_attempt ''ada'' demo_db = (Inr st, s') \<and> failed_attempts st = 1 \<and> remaining_secs st = 1"
proof -
  have "trim ''ada'' \<noteq> []" "counter_of demo_db ''ada'' = (0, None)" "clock_fits (int (clock demo_db))"
    by code_simp+
  from failed_attempts_lock_the_account [OF this(1,2) _ this(3)] show ?thesis by auto
qed

lemma totp_run_ada:
  "fst (verify_login_totp demo_C demo_P demo_cfg ''hv'' None ''ada'' ada_pw ''123456'' (totp_rt 1000)) = Inr True"
  by code_simp

lemma ada_totp: "totp_of (totp_db t) ''ada'' = Some (demo_seal (str_bytes ''SEED'') ada_key)"
  by (simp add: totp_of_def totp_db_def first_row_def demo_user_def)

lemma ada_derived: "derive_key_if_valid demo_P demo_cfg ''ada'' ada_pw demo_auth = (Inr (Some ada_key), demo_auth)"
proof -
  have "credentials demo_auth ''ada'' = Some (demo_cred ada_pw)" by (simp add: demo_auth_def)
  moreover have "valid_utf8 ada_pw" "key_of demo_P demo_cfg ada_pw demo_salt = Some ada_key"
    by code_simp+
  moreover have "password_salt (demo_cred ada_pw) = demo_salt" "password_hash (demo_cred ada_pw) = ada_key"
    "\<not> shutdown_in_progress demo_auth"
    by (simp_all add: demo_cred_def ada_key_def demo_auth_def)
  ultimately show ?thesis by (simp add: derive_if_valid_returns)
qed

lemma seed_opens:
  "deserialize_totp_envelope (demo_seal (str_bytes ''SEED'') ada_key) =
     Inr \<lparr> nonce = demo_nonce, ciphertext = str_bytes ''SEED'' @ ada_key \<rparr>"
  "decrypt demo_P \<lparr> nonce = demo_nonce, ciphertext = str_bytes ''SEED'' @ ada_key \<rparr> ada_key = Inr (str_bytes ''SEED'')"
  "decrypted_secret_text (str_bytes ''SEED'') = Inr ''SEED''"
  by code_simp+

lemma opened_ada:
  assumes "wdb w = totp_db t" and "wauth w = demo_auth"
  shows "opened_totp demo_P demo_cfg ''ada'' ada_pw w ''SEED''"
proof -
  have "totp_of (wdb w) ''ada'' = Some (demo_seal (str_bytes ''SEED'') ada_key)"
    "derived_key demo_P demo_cfg ''ada'' ada_pw w = Inr (Some ada_key)"
    by (simp_all add: assms ada_totp ada_derived)
  with seed_opens show ?thesis unfolding opened_totp_def by blast
qed

theorem a_code_is_accepted_once_witness:
  "clock (wdb (totp_rt 1000)) + 90 \<le> clock (totp_db 1090)"
proof -
  let ?w = "totp_rt 1000"
  let ?run = "verify_login_totp demo_C demo_P demo_cfg ''hv'' None ''ada'' ada_pw ''123456''"
  let ?w' = "snd (?run ?w)"
  let ?v = "?w'\<lparr>rt_app := demo_app\<lparr>app_db := totp_db 1090\<rparr>\<rparr>"
  have first: "?run ?w = (Inr True, ?w')" by (metis totp_run_ada prod.collapse)
  have o: "opened_totp demo_P demo_cfg ''ada'' ada_pw ?w ''SEED''"
    by (rule opened_ada [of _ 1000]) (simp_all add: totp_rt_def demo_app_def)
  have o': "opened_totp demo_P demo_cfg ''ada'' ada_pw ?v ''SEED''"
    by (rule opened_ada [of _ 1090]) (simp_all add: demo_app_def)
  have "?w' = snd (reject_replay_and_record ''ada'' ''123456'' (int (clock (wdb ?w))) ?w)"
    using first unfolding verify_opened [OF o] by simp
  then have "clock (wdb ?w') = 1000" by (simp add: reject_replay_run(2)) (simp add: totp_rt_def totp_db_def)
  then have "totp_run demo_C demo_P demo_cfg ''hv'' ?w' ?v"
    by (intro totp_run.elsewhere [OF totp_run.start]) (simp_all add: totp_db_def)
  moreover have "fst (?run ?v) = Inr True" by code_simp
  then have "?run ?v = (Inr True, snd (?run ?v))" by (metis prod.collapse)
  ultimately have "clock (wdb ?w) + 90 \<le> clock (wdb ?v)"
    using a_code_is_accepted_once [OF o o' first] by blast
  then show ?thesis by simp
qed

theorem enabled_totp_is_asked_for_witness:
  "\<exists>w'. enable_totp demo_C demo_P ''hv'' (Some demo_nonce) 1 ''ada'' ''SEED'' ''123456'' demo_rt = (Inr (), w') \<and>
        fst (is_totp_enabled_for_username ''ada'' w') = Inr True \<and>
        opened_totp demo_P demo_cfg ''ada'' ada_pw w' ''SEED''"
proof -
  let ?run = "enable_totp demo_C demo_P ''hv'' (Some demo_nonce) 1 ''ada'' ''SEED'' ''123456'' demo_rt"
  have "fst ?run = Inr ()" by code_simp
  then have run: "?run = (Inr (), snd ?run)" by (metis prod.collapse)
  have ok: "db_ok (wdb demo_rt)" by (simp add: demo_rt_def demo_app_def demo_db_ok)
  have row: "demo_user 1 ''ada'' ''admin'' ada_pw \<in> set (users (wdb demo_rt))"
    "u_id (demo_user 1 ''ada'' ''admin'' ada_pw) = 1" "u_name (demo_user 1 ''ada'' ''admin'' ada_pw) = ''ada''"
    by (simp_all add: demo_rt_def demo_app_def demo_db_def demo_user_def)
  have cred: "credentials (wauth demo_rt) ''ada'' = Some (demo_cred ada_pw)"
    by (simp add: demo_rt_def demo_app_def demo_auth_def)
  have cok: "credential_ok (demo_cred ada_pw)" "length demo_nonce = NONCE_LEN"
    by (simp_all add: credential_ok_def demo_cred_def demo_salt_def demo_nonce_def NONCE_LEN_def)
  have utf8: "valid_utf8 (str_bytes ''SEED'')" by code_simp
  have ne: "ciphertext q \<noteq> []" if "encrypt demo_P (Some demo_nonce) (str_bytes ''SEED'') (password_hash (demo_cred ada_pw)) = Inr q" for q
    using that by (auto simp: encrypt_Inr demo_P_def demo_encrypt_def str_bytes_def)
  have der: "derived_key demo_P demo_cfg ''ada'' ada_pw demo_rt = Inr (Some (password_hash (demo_cred ada_pw)))"
    using ada_derived by (simp add: demo_rt_def demo_app_def ada_key_def)
  show ?thesis
    using enabled_totp_is_asked_for [OF demo_laws ok cok(2) row cred cok(1) utf8 ne run] der run by blast
qed

theorem password_change_locks_out_totp_witness:
  "\<exists>a'. change_master_password demo_P demo_cfg (Some demo_salt) 1 ada_pw bob_pw (rt_app (totp_rt 1000)) = (Inr (), a') \<and>
        verify_password demo_P demo_cfg ''ada'' bob_pw (app_auth a') = (Inr True, app_auth a') \<and>
        fst (verify_login_totp demo_C demo_P demo_cfg ''hv'' None ''ada'' bob_pw ''123456''
               ((totp_rt 1000)\<lparr>rt_app := a'\<rparr>)) = Inr False"
proof -
  let ?w = "totp_rt 1000" and ?q = "\<lparr> nonce = demo_nonce, ciphertext = str_bytes ''SEED'' @ ada_key \<rparr>"
  let ?run = "change_master_password demo_P demo_cfg (Some demo_salt) 1 ada_pw bob_pw (rt_app ?w)"
  let ?r = "(demo_user 1 ''ada'' ''admin'' ada_pw)\<lparr>u_totp := Some (demo_seal (str_bytes ''SEED'') ada_key)\<rparr>"
  have "fst ?run = Inr ()" by code_simp
  then have run: "?run = (Inr (), snd ?run)" by (metis prod.collapse)
  have ok: "db_ok (wdb ?w)" by (simp add: totp_rt_def) code_simp
  have row: "?r \<in> set (users (wdb ?w))" "u_id ?r = 1" "u_name ?r = ''ada''"
    by (simp_all add: totp_rt_def totp_db_def demo_user_def)
  have old: "credentials (wauth ?w) ''ada'' = Some (demo_cred ada_pw)"
    by (simp add: totp_rt_def demo_app_def demo_auth_def)
  have "map_option password_hash (credentials (app_auth (snd ?run)) ''ada'') = Some bob_key" by code_simp
  then obtain c' where new: "credentials (app_auth (snd ?run)) ''ada'' = Some c'" "password_hash c' = bob_key" by auto
  have st: "totp_of (wdb ?w) ''ada'' = Some (demo_seal (str_bytes ''SEED'') ada_key)"
    by (simp add: totp_rt_def ada_totp)
  have len: "length ada_key = 32" by code_simp
  have only: "k = password_hash (demo_cred ada_pw)" if "decrypt demo_P ?q k = Inr b" for k b
  proof -
    from that have "length k = 32" "drop (length (str_bytes ''SEED'' @ ada_key) - length k) (str_bytes ''SEED'' @ ada_key) = k"
      by (auto simp: decrypt_Inr demo_P_def demo_decrypt_def Let_def split: if_splits)
    with len show ?thesis by (simp add: ada_key_def)
  qed
  have keys: "password_hash c' \<noteq> password_hash (demo_cred ada_pw)" "legacy_key \<noteq> password_hash (demo_cred ada_pw)"
    unfolding new(2) by code_simp+
  have "verify_password demo_P demo_cfg ''ada'' bob_pw (app_auth (snd ?run)) = (Inr True, app_auth (snd ?run)) \<and>
      totp_of (app_db (snd ?run)) ''ada'' = Some (demo_seal (str_bytes ''SEED'') ada_key) \<and>
      (\<forall>code. fst (verify_login_totp demo_C demo_P demo_cfg ''hv'' None ''ada'' bob_pw code
                 (?w\<lparr>rt_app := snd ?run\<rparr>)) = Inr False)"
    by (rule password_change_locks_out_totp [OF ok row run old new(1) st seed_opens(1) _ keys]) (rule only)
  with run show ?thesis by blast
qed

lemma ada_resolves: "resolves (demo_db\<lparr>policies := ps, clock := t\<rparr>) '' Ada '' ''ada''"
proof -
  have "fst (user_resolve_login '' Ada '' demo_db) = Inr (Some ''ada'')" by code_simp
  then have "resolves demo_db '' Ada '' ''ada''" by (simp add: resolves_def)
  then show ?thesis using resolves_who [of "demo_db\<lparr>policies := ps, clock := t\<rparr>" demo_db] by (simp add: who_is_who_def)
qed

definition locked_rt :: runtime where
  "locked_rt = \<lparr> rt_app = demo_app\<lparr>app_db := demo_db\<lparr>policies :=
       [\<lparr> p_user = ''ada'', p_failed = 5, p_last = Some 800, p_delay = 5 \<rparr>], clock := 1000\<rparr>\<rparr>,
     rt_replay = Map.empty \<rparr>"

lemma ada_name: "trim ''ada'' \<noteq> []"
  by code_simp

theorem locked_account_is_not_tried_witness:
  "login_credentials demo_P demo_cfg '' Ada '' ada_pw locked_rt = (Inr (LoginLocked 100), locked_rt)"
proof -
  have res: "resolves (wdb locked_rt) '' Ada '' ''ada''" by (simp add: locked_rt_def ada_resolves)
  have c: "counter_of (wdb locked_rt) ''ada'' = (5, Some 800)" "clock (wdb locked_rt) = 1000"
    by (simp_all add: locked_rt_def counter_of_def policy_of_def first_row_def)
  have fits: "clock_fits 800" "clock_fits 1000" by (simp_all add: clock_fits_def)
  have "int (clock (wdb locked_rt)) < 800 + 300" "clock_fits (int (clock (wdb locked_rt)))"
    using fits by (simp_all add: c(2))
  from locked_account_is_not_tried [OF res ada_name c(1) _ this(1) fits(1) this(2)] show ?thesis
    by (simp add: c(2))
qed

definition two_guesses :: "login_attempt list" where
  "two_guesses =
     [\<lparr> at_time = 1000, at_ident = '' Ada '', at_password = bob_pw, at_code = None, at_nonce = None \<rparr>,
      \<lparr> at_time = 1700, at_ident = '' Ada '', at_password = bob_pw, at_code = Some ''123456'', at_nonce = None \<rparr>]"

theorem guesses_are_rate_limited_witness:
  "length (filter rejected (attempts demo_C demo_P demo_cfg ''hv'' two_guesses demo_rt)) \<le> 7"
proof -
  have res: "\<forall>a\<in>set two_guesses. resolves (wdb demo_rt) (at_ident a) ''ada''"
    using ada_resolves [of "clock demo_db" "policies demo_db"] by (simp add: two_guesses_def demo_rt_def demo_app_def)
  have c: "counter_of (wdb demo_rt) ''ada'' = (0, None)"
    by (simp add: demo_rt_def demo_app_def counter_of_def policy_of_def first_row_def demo_db_def)
  have t: "sorted (map at_time two_guesses)" "two_guesses \<noteq> []" "clock_fits (int (at_time (last two_guesses)))"
    "at_time (last two_guesses) - at_time (hd two_guesses) = 700"
    by (simp_all add: two_guesses_def clock_fits_def)
  have "list_all (\<lambda>r. \<not> admitted r) (attempts demo_C demo_P demo_cfg ''hv'' two_guesses demo_rt)"
    by code_simp
  then have none: "\<forall>r\<in>set (attempts demo_C demo_P demo_cfg ''hv'' two_guesses demo_rt). \<not> admitted r"
    by (simp only: list_all_iff)
  from guesses_are_rate_limited [OF ada_name res c t(1-3) none] show ?thesis by (simp add: t(4))
qed

theorem session_needs_both_factors_witness:
  "\<exists>ses w'. login_credentials demo_P demo_cfg '' Ada '' ada_pw demo_rt = (Inr (LoginSuccess ses), w') \<and>
            derived_key demo_P demo_cfg (as_username ses) ada_pw demo_rt = Inr (Some (as_master_key ses))"
proof -
  have range: "k \<in> set [q - s ..< Suc (q + s)] \<longleftrightarrow> q \<le> k + s \<and> k \<le> q + s" for q s k :: nat by auto
  have laws: "totp_laws demo_C"
    unfolding totp_laws_def demo_C_def
    by (simp add: list_ex_iff Bex_def range conj_assoc del: set_upt upt_Suc)
  have "admitted (fst (login_credentials demo_P demo_cfg '' Ada '' ada_pw demo_rt))" by code_simp
  then obtain ses where "fst (login_credentials demo_P demo_cfg '' Ada '' ada_pw demo_rt) = Inr (LoginSuccess ses)"
    by (cases "fst (login_credentials demo_P demo_cfg '' Ada '' ada_pw demo_rt)" rule: admitted.cases) auto
  then have "login_credentials demo_P demo_cfg '' Ada '' ada_pw demo_rt =
      (Inr (LoginSuccess ses), snd (login_credentials demo_P demo_cfg '' Ada '' ada_pw demo_rt))"
    by (metis prod.collapse)
  with session_needs_both_factors [OF laws, of demo_P demo_cfg "'' Ada ''" ada_pw demo_rt ses] show ?thesis by blast
qed

end
