(* ===== verification/File_System.thy ===== *)
theory File_System
  imports Models
begin

text \<open>
  The part of the operating system the program writes to: paths, files with a mode, and the
  operations of \<open>std::fs\<close> the backup and license services call.  Every one of them may fail: an oracle,
  a parameter of the state, says which, and what a failed write leaves behind.
\<close>

section \<open>Files\<close>

text \<open>A path is its parent, empty when there is none, and its file name.\<close>

datatype path = Path (path_parent: string) (file_name: string)

record disk_file =
  content :: bytes
  owner_only :: bool

datatype io_op =
    OpRead path | OpWrite path | OpRename path path | OpRemove path | OpCreateDir string | OpSetMode path | OpStat path
  | OpCreate path

text \<open>The oracle is asked with the number of operations already made, so that any operation of a
  call may be the one that fails.  \<open>torn\<close> is what a failed write leaves at the path.\<close>

record host =
  files :: "path \<Rightarrow> disk_file option"
  ticks :: nat
  denies :: "nat \<Rightarrow> io_op \<Rightarrow> bool"
  torn :: "nat \<Rightarrow> path \<Rightarrow> disk_file option"

type_synonym 'a iom = "host \<Rightarrow> (app_error + 'a) \<times> host"

definition put_file :: "path \<Rightarrow> disk_file option \<Rightarrow> host \<Rightarrow> host" where
  "put_file p f_opt = files_update (\<lambda>fs. fs(p := f_opt))"

definition fs_attempt :: "io_op \<Rightarrow> bool iom" where
  "fs_attempt op = (\<lambda>h. (Inr (\<not> denies h (ticks h) op), h\<lparr>ticks := Suc (ticks h)\<rparr>))"

definition permitted :: "io_op \<Rightarrow> unit iom" where
  "permitted op = bindE (fs_attempt op) (\<lambda>ok. require ok (Io ''operation failed''))"

definition existing_file :: "path \<Rightarrow> disk_file iom" where
  "existing_file p = bindE (gets (\<lambda>h. files h p)) (\<lambda>f_opt. ok_or (Io ''no such file'') f_opt)"

definition fs_read :: "path \<Rightarrow> bytes iom" where
  "fs_read p =
     bindE (permitted (OpRead p)) (\<lambda>_. bindE (existing_file p) (\<lambda>f. ret (content f)))"

text \<open>A write creates the file or replaces its content and keeps its mode.\<close>

definition written :: "disk_file option \<Rightarrow> bytes \<Rightarrow> disk_file" where
  "written f_opt b =
     \<lparr> content = b, owner_only = (case f_opt of None \<Rightarrow> False | Some f \<Rightarrow> owner_only f) \<rparr>"

definition fs_write :: "path \<Rightarrow> bytes \<Rightarrow> unit iom" where
  "fs_write p b =
     bindE (gets (\<lambda>h. torn h (ticks h) p)) (\<lambda>half.
     bindE (fs_attempt (OpWrite p)) (\<lambda>ok.
     if ok then modify (\<lambda>h. put_file p (Some (written (files h p) b)) h)
     else bindE (modify (put_file p half)) (\<lambda>_. fail (Io ''operation failed''))))"

definition fs_rename :: "path \<Rightarrow> path \<Rightarrow> unit iom" where
  "fs_rename p q =
     bindE (permitted (OpRename p q)) (\<lambda>_.
     bindE (existing_file p) (\<lambda>f. modify (put_file q (Some f) \<circ> put_file p None)))"

definition fs_remove :: "path \<Rightarrow> unit iom" where
  "fs_remove p =
     bindE (permitted (OpRemove p)) (\<lambda>_.
     bindE (existing_file p) (\<lambda>_. modify (put_file p None)))"

text \<open>\<open>Path::exists\<close> answers \<open>false\<close> when the query fails.\<close>

definition fs_exists :: "path \<Rightarrow> bool iom" where
  "fs_exists p =
     bindE (fs_attempt (OpStat p)) (\<lambda>ok. if ok then gets (\<lambda>h. files h p \<noteq> None) else ret False)"

definition set_owner_only_file_permissions :: "path \<Rightarrow> unit iom" where
  "set_owner_only_file_permissions p =
     bindE (permitted (OpSetMode p)) (\<lambda>_.
     bindE (existing_file p) (\<lambda>f. modify (put_file p (Some (f\<lparr>owner_only := True\<rparr>)))))"

text \<open>\<open>OpenOptions::create_new\<close>: the file must not exist, and is then empty.\<close>

definition already_exists :: app_error where
  "already_exists = Io ''file already exists''"

definition fs_create_new :: "path \<Rightarrow> unit iom" where
  "fs_create_new p =
     bindE (permitted (OpCreate p)) (\<lambda>_.
     bindE (gets (\<lambda>h. files h p)) (\<lambda>f_opt.
     bindE (require (f_opt = None) already_exists) (\<lambda>_.
     modify (put_file p (Some \<lparr> content = [], owner_only = False \<rparr>)))))"

definition ensure_parent_exists :: "path \<Rightarrow> unit iom" where
  "ensure_parent_exists p =
     (if path_parent p \<noteq> [] then permitted (OpCreateDir (path_parent p)) else ret ())"

text \<open>\<open>Path::with_extension(\"old\")\<close>: from the last dot of the file name on, unless the dot is its first
  character.\<close>

definition file_stem :: "string \<Rightarrow> string" where
  "file_stem n =
     (let before = rev (drop 1 (dropWhile (\<lambda>c. c \<noteq> CHR ''.'') (rev n))) in
      if CHR ''.'' \<in> set n \<and> before \<noteq> [] then before else n)"

definition old_path :: "path \<Rightarrow> path" where
  "old_path p = Path (path_parent p) (file_stem (file_name p) @ ''.old'')"

section \<open>What an operation does to the disk\<close>

text \<open>A call that touches only the paths of a set; the oracle of failures never changes.\<close>

definition touches :: "path set \<Rightarrow> host \<Rightarrow> host \<Rightarrow> bool" where
  "touches X h h' \<longleftrightarrow> (\<forall>q. q \<notin> X \<longrightarrow> files h' q = files h q) \<and> denies h' = denies h"

interpretation disk: step_order "touches X"
  by unfold_locales (auto simp: touches_def)

lemmas disk_intros =
  disk.moves_bindE disk.moves_pure disk.moves_cond disk.moves_option disk.moves_sum disk.moves_pair

lemma touches_modify: "p \<in> X \<Longrightarrow> moves (touches X) (modify (put_file p v))"
  by (auto simp: moves_def run_simps touches_def put_file_def)

lemma touches_attempt: "moves (touches X) (fs_attempt op)"
  by (simp add: moves_def fs_attempt_def touches_def)

lemma touches_permitted: "moves (touches X) (permitted op)"
  unfolding permitted_def by (intro disk_intros touches_attempt)

lemma touches_existing: "moves (touches X) (existing_file p)"
  unfolding existing_file_def by (intro disk_intros)

lemma touches_read: "moves (touches X) (fs_read p)"
  unfolding fs_read_def by (intro disk_intros touches_permitted touches_existing)

lemma touches_exists: "moves (touches X) (fs_exists p)"
  unfolding fs_exists_def by (intro disk_intros touches_attempt)

lemma touches_write: "p \<in> X \<Longrightarrow> moves (touches X) (fs_write p b)"
  unfolding fs_write_def
  by (intro disk_intros touches_attempt touches_modify)
     (auto simp: moves_def run_simps touches_def put_file_def)

lemma touches_chmod: "p \<in> X \<Longrightarrow> moves (touches X) (set_owner_only_file_permissions p)"
  unfolding set_owner_only_file_permissions_def
  by (intro disk_intros touches_permitted touches_existing touches_modify)

lemma touches_remove: "p \<in> X \<Longrightarrow> moves (touches X) (fs_remove p)"
  unfolding fs_remove_def by (intro disk_intros touches_permitted touches_existing touches_modify)

lemma touches_rename: "p \<in> X \<Longrightarrow> q \<in> X \<Longrightarrow> moves (touches X) (fs_rename p q)"
  unfolding fs_rename_def
  by (intro disk_intros touches_permitted touches_existing)
     (auto simp: moves_def run_simps touches_def put_file_def)

lemma touches_create: "p \<in> X \<Longrightarrow> moves (touches X) (fs_create_new p)"
  unfolding fs_create_new_def by (intro disk_intros touches_permitted touches_modify)

lemma touches_parent: "moves (touches X) (ensure_parent_exists p)"
  unfolding ensure_parent_exists_def by (intro disk_intros touches_permitted)

lemmas disk_steps =
  disk_intros touches_read touches_exists touches_write touches_chmod touches_remove
  touches_rename touches_create touches_permitted touches_parent

lemma moves_run: "moves R m \<Longrightarrow> m s = (r, s') \<Longrightarrow> R s s'"
  unfolding moves_def by (metis snd_conv)

lemma post_moves:
  assumes "moves R m" and "\<And>s'. R s s' \<Longrightarrow> Q s'"
    and "\<And>x s'. R s s' \<Longrightarrow> m s = (Inr x, s') \<Longrightarrow> Q (snd (f x s'))"
  shows "Q (snd (bindE m f s))"
  by (rule post_bindE) (use assms moves_run [OF assms(1)] in blast)+

section \<open>Operations that return\<close>

abbreviation tick :: "host \<Rightarrow> host" where
  "tick h \<equiv> h\<lparr>ticks := Suc (ticks h)\<rparr>"

lemma fs_read_returns:
  "fs_read p h = (Inr b, h') \<longleftrightarrow>
     \<not> denies h (ticks h) (OpRead p) \<and> (\<exists>f. files h p = Some f \<and> b = content f) \<and> h' = tick h"
  by (auto simp: fs_read_def permitted_def existing_file_def fs_attempt_def bindE_run run_simps
      split: option.splits)

definition calm :: "host \<Rightarrow> bool" where
  "calm h \<longleftrightarrow> (\<forall>n op. \<not> denies h n op)"

lemma calm_moves: "touches X h h' \<Longrightarrow> calm h \<Longrightarrow> calm h'"
  by (simp add: touches_def calm_def)

lemma fs_read_calm: "calm h \<Longrightarrow> files h p = Some f \<Longrightarrow> fs_read p h = (Inr (content f), tick h)"
  by (auto simp: fs_read_returns calm_def)

lemma fs_exists_calm: "calm h \<Longrightarrow> fs_exists p h = (Inr (files h p \<noteq> None), tick h)"
  by (simp add: fs_exists_def fs_attempt_def bindE_run run_simps calm_def)

lemma ensure_parent_calm:
  "calm h \<Longrightarrow> ensure_parent_exists p h = (Inr (), if path_parent p \<noteq> [] then tick h else h)"
  by (simp add: ensure_parent_exists_def permitted_def fs_attempt_def bindE_run run_simps calm_def)

lemma fs_write_calm: "calm h \<Longrightarrow> fs_write p b h = (Inr (), put_file p (Some (written (files h p) b)) (tick h))"
  by (simp add: fs_write_def fs_attempt_def bindE_run run_simps calm_def)

lemma fs_chmod_calm:
  "calm h \<Longrightarrow> files h p = Some f \<Longrightarrow>
     set_owner_only_file_permissions p h = (Inr (), put_file p (Some (f\<lparr>owner_only := True\<rparr>)) (tick h))"
  by (simp add: set_owner_only_file_permissions_def permitted_def existing_file_def fs_attempt_def
      bindE_run run_simps calm_def)

lemma fs_remove_calm:
  "calm h \<Longrightarrow> files h p = Some f \<Longrightarrow> fs_remove p h = (Inr (), put_file p None (tick h))"
  by (simp add: fs_remove_def permitted_def existing_file_def fs_attempt_def bindE_run run_simps calm_def)

lemma fs_rename_calm:
  "calm h \<Longrightarrow> files h p = Some f \<Longrightarrow>
     fs_rename p q h = (Inr (), put_file q (Some f) (put_file p None (tick h)))"
  by (simp add: fs_rename_def permitted_def existing_file_def fs_attempt_def bindE_run run_simps calm_def)

lemma fs_create_calm:
  "calm h \<Longrightarrow> files h p = None \<Longrightarrow>
     fs_create_new p h = (Inr (), put_file p (Some \<lparr> content = [], owner_only = False \<rparr>) (tick h))"
  by (simp add: fs_create_new_def permitted_def fs_attempt_def bindE_run run_simps calm_def)

lemmas calm_runs =
  fs_create_calm fs_read_calm fs_exists_calm fs_write_calm fs_chmod_calm fs_remove_calm fs_rename_calm

lemma host_updates [simp]:
  "files (put_file p v h) = (files h)(p := v)" "ticks (put_file p v h) = ticks h"
  "denies (put_file p v h) = denies h" "calm (put_file p v h) \<longleftrightarrow> calm h" "calm (h\<lparr>ticks := n\<rparr>) \<longleftrightarrow> calm h"
  by (simp_all add: put_file_def calm_def)

end
