(* ===== verification/Backup_Service.thy ===== *)
theory Backup_Service
  imports File_System Admin_Service
begin

text \<open>
  \<open>services/backup_service.rs\<close> and \<open>services/backup_application_service.rs\<close>: encrypted copies of the
  database file, in the \<open>.hvb\<close> format (JSON, a recovery phrase) and in the raw format (a key), their
  restoration, and the permission check in front of both.
  SHA-256, base64, BIP-39 and the JSON codec of the payload are the fields of \<open>backup_crates\<close>.
\<close>

section \<open>Sealing the database\<close>

definition BACKUP_MAGIC :: bytes where "BACKUP_MAGIC = str_bytes ''HVBK1''"
definition SHA256_HEX_LEN :: nat where "SHA256_HEX_LEN = 64"
definition BACKUP_NONCE_LEN :: nat where "BACKUP_NONCE_LEN = 12"
definition SQLITE_HEADER :: bytes where "SQLITE_HEADER = str_bytes ''SQLite format 3'' @ [0]"
definition RECOVERY_SALT_LEN :: nat where "RECOVERY_SALT_LEN = 32"

record hvb_payload =
  hvb_version :: byte
  hvb_kdf :: string
  salt_b64 :: string
  nonce_b64 :: string
  ciphertext_b64 :: string
  hvb_sha256_hex :: string
  hvb_plaintext_size :: nat

record backup_metadata =
  sha256_hex :: string
  plaintext_size :: nat

record backup_crates =
  checksum_available :: bool
  checksum :: "bytes \<Rightarrow> string option"
  b64_encode :: "bytes \<Rightarrow> string"
  b64_decode :: "string \<Rightarrow> bytes option"
  mnemonic_from_entropy :: "bytes \<Rightarrow> string option"
  mnemonic_parses :: "string \<Rightarrow> bool"
  hvb_to_json :: "hvb_payload \<Rightarrow> bytes option"
  hvb_from_json :: "bytes \<Rightarrow> hvb_payload option"

text \<open>What the crates document: decoding inverts encoding, and a SHA-256 digest is 64 hexadecimal digits.\<close>

definition is_ascii_hexdigit :: "byte \<Rightarrow> bool" where
  "is_ascii_hexdigit b \<longleftrightarrow> (0x30 \<le> b \<and> b \<le> 0x39) \<or> (0x41 \<le> b \<and> b \<le> 0x46) \<or> (0x61 \<le> b \<and> b \<le> 0x66)"

definition backup_laws :: "backup_crates \<Rightarrow> bool" where
  "backup_laws B \<longleftrightarrow>
     (\<forall>b. b64_decode B (b64_encode B b) = Some b) \<and>
     (\<forall>p j. hvb_to_json B p = Some j \<longrightarrow> hvb_from_json B j = Some p) \<and>
     (\<forall>b d. checksum B b = Some d \<longrightarrow> length d = 64 \<and> list_all is_ascii_hexdigit (str_bytes d))"

definition generate_recovery_key :: "backup_crates \<Rightarrow> bytes option \<Rightarrow> app_error + string" where
  "generate_recovery_key B rnd =
     (case rnd of
        None \<Rightarrow> Inl (Crypto ''failed to gather recovery entropy'')
      | Some entropy \<Rightarrow>
         (case mnemonic_from_entropy B entropy of
            None \<Rightarrow> Inl (Crypto ''failed to generate bip39 mnemonic'')
          | Some phrase \<Rightarrow> Inr phrase))"

definition validate_backup_key :: "bytes \<Rightarrow> app_error + unit" where
  "validate_backup_key key =
     (if length key \<noteq> AES_256_KEY_LEN then Inl (Validation ''backup key must be 32 bytes'') else Inr ())"

definition validate_sqlite_bytes :: "bytes \<Rightarrow> app_error + unit" where
  "validate_sqlite_bytes b =
     (if length b < length SQLITE_HEADER \<or> take (length SQLITE_HEADER) b \<noteq> SQLITE_HEADER
      then Inl (Validation ''input is not a valid SQLite file header'') else Inr ())"

definition sha256_hex_of :: "backup_crates \<Rightarrow> bytes \<Rightarrow> app_error + string" where
  "sha256_hex_of B b =
     (if \<not> checksum_available B then Inl (Validation ''failed to initialize SHA-256'')
      else case checksum B b of None \<Rightarrow> Inl (Validation ''failed to finalize SHA-256'') | Some d \<Rightarrow> Inr d)"

definition generate_backup_nonce :: "bytes option \<Rightarrow> app_error + bytes" where
  "generate_backup_nonce rnd =
     (case rnd of None \<Rightarrow> Inl (Crypto ''backup nonce generation failed'') | Some n \<Rightarrow> Inr n)"

definition generate_recovery_salt :: "bytes option \<Rightarrow> app_error + bytes" where
  "generate_recovery_salt rnd =
     (case rnd of None \<Rightarrow> Inl (Crypto ''recovery salt generation failed'') | Some s \<Rightarrow> Inr s)"

definition derive_backup_key_from_recovery :: "primitives \<Rightarrow> string \<Rightarrow> bytes \<Rightarrow> app_error + bytes" where
  "derive_backup_key_from_recovery P phrase salt =
     (if salt = [] then Inl (Validation ''recovery salt must not be empty'')
      else if \<not> argon2_params P default_kdf_config then Inl (Crypto ''invalid argon2 params'')
      else case argon2id P default_kdf_config (str_bytes phrase) salt of
          None \<Rightarrow> Inl (Crypto ''argon2id recovery derivation failed'')
        | Some key \<Rightarrow> Inr key)"


definition parse_hvb_payload :: "backup_crates \<Rightarrow> bytes \<Rightarrow> app_error + hvb_payload" where
  "parse_hvb_payload B b =
     (case hvb_from_json B b of None \<Rightarrow> Inl (Validation ''invalid .hvb json payload'') | Some p \<Rightarrow> Inr p)"

text \<open>A key slice the cipher accepts, and the checks around it.\<close>

definition encrypt_bytes ::
  "primitives \<Rightarrow> backup_crates \<Rightarrow> bytes option \<Rightarrow> bytes \<Rightarrow> bytes \<Rightarrow>
   (app_error, 's, string \<times> bytes \<times> bytes) act" where
  "encrypt_bytes P B nonce_rnd plaintext key =
     bindE (lift_result (validate_backup_key key)) (\<lambda>_.
     bindE (lift_result (validate_sqlite_bytes plaintext)) (\<lambda>_.
     bindE (lift_result (sha256_hex_of B plaintext)) (\<lambda>digest.
     bindE (lift_result (generate_backup_nonce nonce_rnd)) (\<lambda>n.
     bindE (require (aes_key P key) (Crypto ''invalid backup key'')) (\<lambda>_.
     bindE (ok_or (Crypto ''backup encryption failed'') (aead_encrypt P key n plaintext)) (\<lambda>c.
     ret (digest, n, c)))))))"

definition decrypt_bytes ::
  "primitives \<Rightarrow> backup_crates \<Rightarrow> string \<Rightarrow> bytes \<Rightarrow> bytes \<Rightarrow> bytes \<Rightarrow>
   (app_error, 's, bytes) act" where
  "decrypt_bytes P B digest n c key =
     bindE (lift_result (validate_backup_key key)) (\<lambda>_.
     bindE (require (aes_key P key) (Crypto ''invalid backup key'')) (\<lambda>_.
     bindE (ok_or (Crypto ''backup decryption failed'') (aead_decrypt P key n c)) (\<lambda>plaintext.
     bindE (lift_result (validate_sqlite_bytes plaintext)) (\<lambda>_.
     bindE (lift_result (sha256_hex_of B plaintext)) (\<lambda>actual.
     bindE (require (actual = digest)
              (Validation ''backup integrity verification failed before restore'')) (\<lambda>_.
     ret plaintext))))))"

section \<open>The raw format\<close>

definition serialize_backup :: "string \<Rightarrow> bytes \<Rightarrow> bytes \<Rightarrow> app_error + bytes" where
  "serialize_backup digest n c =
     (if length digest \<noteq> SHA256_HEX_LEN then Inl (Validation ''backup SHA-256 digest has invalid length'')
      else Inr (BACKUP_MAGIC @ str_bytes digest @ n @ c))"

definition parse_backup :: "bytes \<Rightarrow> app_error + string \<times> bytes \<times> bytes" where
  "parse_backup b =
     (let magic_len = length BACKUP_MAGIC; digest_end = magic_len + SHA256_HEX_LEN;
          nonce_end = digest_end + BACKUP_NONCE_LEN in
      if length b < nonce_end + 1 then Inl (Validation ''backup file is too short'')
      else if take magic_len b \<noteq> BACKUP_MAGIC then Inl (Validation ''backup file has an invalid header'')
      else
        let digest = drop magic_len (take digest_end b) in
        if \<not> valid_utf8 digest then Inl (Validation ''backup digest is not valid UTF-8'')
        else if \<not> list_all is_ascii_hexdigit digest
          then Inl (Validation ''backup digest is not valid hexadecimal'')
        else if drop nonce_end b = [] then Inl (Validation ''backup file does not contain ciphertext'')
        else Inr (bytes_str digest, drop digest_end (take nonce_end b), drop nonce_end b))"

section \<open>The backup service\<close>

abbreviation argon2id_name :: string where
  "argon2id_name \<equiv> ''argon2id''"

definition replace_existing_database :: "path \<Rightarrow> bytes \<Rightarrow> unit iom" where
  "replace_existing_database target plaintext =
     bindE (ensure_parent_exists target) (\<lambda>_.
     bindE (fs_exists target) (\<lambda>present.
     bindE (if present
            then bindE (fs_exists (old_path target)) (\<lambda>stale.
                 bindE (if stale then fs_remove (old_path target) else ret ()) (\<lambda>_.
                 fs_rename target (old_path target)))
            else ret ()) (\<lambda>_.
     bindE (fs_write target plaintext) (\<lambda>_.
     set_owner_only_file_permissions target))))"

text \<open>Opening a parsed payload: shared by the restoration and the self-check of the export, which
  word their errors differently.\<close>

definition open_hvb ::
  "primitives \<Rightarrow> backup_crates \<Rightarrow> string \<Rightarrow> (string \<Rightarrow> string) \<Rightarrow> string \<Rightarrow> string \<Rightarrow>
   hvb_payload \<Rightarrow>
   (app_error, 's, bytes) act" where
  "open_hvb P B unsupported bad bad_len phrase q =
     bindE (require (hvb_version q = 1 \<and> hvb_kdf q = argon2id_name) (Validation unsupported)) (\<lambda>_.
     bindE (ok_or (Validation (bad ''salt'')) (b64_decode B (salt_b64 q))) (\<lambda>salt.
     bindE (ok_or (Validation (bad ''nonce'')) (b64_decode B (nonce_b64 q))) (\<lambda>n.
     bindE (ok_or (Validation (bad ''ciphertext'')) (b64_decode B (ciphertext_b64 q))) (\<lambda>c.
     bindE (require (length n = BACKUP_NONCE_LEN) (Validation bad_len)) (\<lambda>_.
     bindE (lift_result (derive_backup_key_from_recovery P phrase salt)) (\<lambda>key.
     decrypt_bytes P B (hvb_sha256_hex q) n c key))))))"

definition export_hvb_with_recovery_key ::
  "primitives \<Rightarrow> backup_crates \<Rightarrow> bytes option \<Rightarrow> bytes option \<Rightarrow> path \<Rightarrow> path \<Rightarrow> string \<Rightarrow>
   backup_metadata iom" where
  "export_hvb_with_recovery_key P B salt_rnd nonce_rnd db backup phrase =
     bindE (fs_read db) (\<lambda>sqlite_bytes.
     bindE (lift_result (validate_sqlite_bytes sqlite_bytes)) (\<lambda>_.
     bindE (lift_result (generate_recovery_salt salt_rnd)) (\<lambda>salt.
     bindE (lift_result (derive_backup_key_from_recovery P phrase salt)) (\<lambda>key.
     bindE (encrypt_bytes P B nonce_rnd sqlite_bytes key) (\<lambda>(digest, n, c).
     bindE (ok_or (Storage ''failed to serialize hvb payload'')
              (hvb_to_json B \<lparr> hvb_version = 1, hvb_kdf = argon2id_name, salt_b64 = b64_encode B salt,
                 nonce_b64 = b64_encode B n, ciphertext_b64 = b64_encode B c,
                 hvb_sha256_hex = digest, hvb_plaintext_size = length sqlite_bytes \<rparr>)) (\<lambda>json.
     bindE (ensure_parent_exists backup) (\<lambda>_.
     bindE (fs_write backup json) (\<lambda>_.
     bindE (set_owner_only_file_permissions backup) (\<lambda>_.
     bindE (fs_read backup) (\<lambda>written_bytes.
     bindE (lift_result (parse_hvb_payload B written_bytes)) (\<lambda>written_payload.
     bindE (open_hvb P B ''written .hvb payload failed format self-check''
              (\<lambda>part. ''written .hvb '' @ part @ '' is invalid'')
              ''written .hvb nonce has invalid length'' phrase written_payload) (\<lambda>restored.
     bindE (require (length restored = length sqlite_bytes)
              (Validation ''written .hvb self-check failed: plaintext size mismatch'')) (\<lambda>_.
     bindE (require (restored = sqlite_bytes)
              (Validation ''written .hvb self-check failed: plaintext mismatch'')) (\<lambda>_.
     ret \<lparr> sha256_hex = digest, plaintext_size = length sqlite_bytes \<rparr>))))))))))))))"

definition import_hvb_with_recovery_key ::
  "primitives \<Rightarrow> backup_crates \<Rightarrow> path \<Rightarrow> string \<Rightarrow> path \<Rightarrow> backup_metadata iom" where
  "import_hvb_with_recovery_key P B backup phrase target =
     bindE (require (mnemonic_parses B phrase) (Validation ''invalid recovery phrase'')) (\<lambda>_.
     bindE (fs_read backup) (\<lambda>backup_bytes.
     bindE (lift_result (parse_hvb_payload B backup_bytes)) (\<lambda>q.
     bindE (open_hvb P B ''unsupported .hvb backup format'' (\<lambda>part. ''invalid .hvb '' @ part)
              ''invalid .hvb nonce length'' phrase q) (\<lambda>plaintext.
     bindE (replace_existing_database target plaintext) (\<lambda>_.
     ret \<lparr> sha256_hex = hvb_sha256_hex q, plaintext_size = length plaintext \<rparr>)))))"

definition export_backup ::
  "primitives \<Rightarrow> backup_crates \<Rightarrow> bytes option \<Rightarrow> path \<Rightarrow> path \<Rightarrow> bytes \<Rightarrow> backup_metadata iom" where
  "export_backup P B nonce_rnd db backup key =
     bindE (fs_read db) (\<lambda>sqlite_bytes.
     bindE (encrypt_bytes P B nonce_rnd sqlite_bytes key) (\<lambda>(digest, n, c).
     bindE (lift_result (serialize_backup digest n c)) (\<lambda>backup_bytes.
     bindE (ensure_parent_exists backup) (\<lambda>_.
     bindE (fs_write backup backup_bytes) (\<lambda>_.
     bindE (set_owner_only_file_permissions backup) (\<lambda>_.
     bindE (lift_result (sha256_hex_of B sqlite_bytes)) (\<lambda>exported.
     bindE (require (exported = digest)
              (Validation ''backup integrity verification failed after export'')) (\<lambda>_.
     ret \<lparr> sha256_hex = digest, plaintext_size = length sqlite_bytes \<rparr>))))))))"

definition import_backup ::
  "primitives \<Rightarrow> backup_crates \<Rightarrow> path \<Rightarrow> path \<Rightarrow> bytes \<Rightarrow> backup_metadata iom" where
  "import_backup P B backup target key =
     bindE (fs_read backup) (\<lambda>backup_bytes.
     bindE (lift_result (parse_backup backup_bytes)) (\<lambda>(digest, n, c).
     bindE (decrypt_bytes P B digest n c key) (\<lambda>plaintext.
     bindE (ensure_parent_exists target) (\<lambda>_.
     bindE (fs_write target plaintext) (\<lambda>_.
     bindE (set_owner_only_file_permissions target) (\<lambda>_.
     bindE (fs_read target) (\<lambda>restored.
     bindE (lift_result (sha256_hex_of B restored)) (\<lambda>restored_digest.
     bindE (require (restored_digest = digest)
              (Validation ''backup integrity verification failed after restore'')) (\<lambda>_.
     ret \<lparr> sha256_hex = digest, plaintext_size = length restored \<rparr>)))))))))"

section \<open>The permission check in front\<close>

text \<open>The state of a secured call: the database of the users and the file system.\<close>

record site =
  site_db :: db
  site_host :: host

type_synonym 'a sitem = "site \<Rightarrow> (app_error + 'a) \<times> site"

interpretation site_db: state_part site_db "\<lambda>d w. w\<lparr>site_db := d\<rparr>"
  by unfold_locales simp_all

interpretation site_host: state_part site_host "\<lambda>h w. w\<lparr>site_host := h\<rparr>"
  by unfold_locales simp_all

definition backup_actor :: "action \<Rightarrow> uuid \<Rightarrow> unit sitem" where
  "backup_actor a actor =
     bindE (zoom site_db (\<lambda>d w. w\<lparr>site_db := d\<rparr>) (user_get_by_id actor)) (\<lambda>u_opt.
     bindE (ok_or (NotFound ''actor user not found'') u_opt) (\<lambda>u.
     lift_result (check_permission u a Global)))"

definition export_backup_secured ::
  "primitives \<Rightarrow> backup_crates \<Rightarrow> bytes option \<Rightarrow> bytes option \<Rightarrow> uuid \<Rightarrow> path \<Rightarrow> path \<Rightarrow> string \<Rightarrow>
   backup_metadata sitem" where
  "export_backup_secured P B salt_rnd nonce_rnd actor db backup phrase =
     bindE (backup_actor BackupExport actor) (\<lambda>_.
     zoom site_host (\<lambda>h w. w\<lparr>site_host := h\<rparr>)
       (export_hvb_with_recovery_key P B salt_rnd nonce_rnd db backup phrase))"

definition restore_backup_secured ::
  "primitives \<Rightarrow> backup_crates \<Rightarrow> uuid \<Rightarrow> path \<Rightarrow> string \<Rightarrow> path \<Rightarrow> backup_metadata sitem" where
  "restore_backup_secured P B actor backup phrase target =
     bindE (backup_actor BackupRestore actor) (\<lambda>_.
     zoom site_host (\<lambda>h w. w\<lparr>site_host := h\<rparr>)
       (import_hvb_with_recovery_key P B backup phrase target))"

end
