(* ===== verification/Backup_Properties.thy ===== *)
theory Backup_Properties
  imports Backup_Service
begin

text \<open>
  What the backup service promises: an export that reports success can be restored, a failed
  restoration leaves the previous database on the disk, nothing but an authenticated backup is
  restored, the raw format is a codec, and only administrators get that far.
\<close>

section \<open>Opening a backup\<close>

text \<open>The crypto calls do not touch the state, and return exactly when every check passed.\<close>

definition unseals :: "primitives \<Rightarrow> backup_crates \<Rightarrow> string \<Rightarrow> bytes \<Rightarrow> bytes \<Rightarrow> bytes \<Rightarrow> bytes \<Rightarrow> bool" where
  "unseals P B digest n c key pt \<longleftrightarrow>
     length key = AES_256_KEY_LEN \<and> aes_key P key \<and> aead_decrypt P key n c = Some pt \<and>
     validate_sqlite_bytes pt = Inr () \<and> sha256_hex_of B pt = Inr digest"

lemma validate_backup_key_ok: "validate_backup_key key = Inr u \<longleftrightarrow> length key = AES_256_KEY_LEN"
  by (simp add: validate_backup_key_def)

lemma decrypt_bytes_returns:
  "decrypt_bytes P B d n c key s = (Inr pt, s') \<longleftrightarrow> unseals P B d n c key pt \<and> s' = s"
  unfolding decrypt_bytes_def unseals_def by (auto simp: returns_iff validate_backup_key_ok)

lemma decrypt_bytes_reads [step_intros]: "reads_only (decrypt_bytes P B d n c key)"
  unfolding decrypt_bytes_def by (intro step_intros)

lemma encrypt_bytes_returns:
  "encrypt_bytes P B rnd pt key s = (Inr (d, n, c), s') \<longleftrightarrow>
     length key = AES_256_KEY_LEN \<and> aes_key P key \<and> rnd = Some n \<and>
     validate_sqlite_bytes pt = Inr () \<and> sha256_hex_of B pt = Inr d \<and>
     aead_encrypt P key n pt = Some c \<and> s' = s"
  unfolding encrypt_bytes_def
  by (auto simp: returns_iff validate_backup_key_ok generate_backup_nonce_def split: option.splits)

definition hvb_opens :: "primitives \<Rightarrow> backup_crates \<Rightarrow> string \<Rightarrow> hvb_payload \<Rightarrow> bytes \<Rightarrow> bytes \<Rightarrow> bytes \<Rightarrow> bytes \<Rightarrow> bool" where
  "hvb_opens P B phrase q n c key pt \<longleftrightarrow>
     hvb_version q = 1 \<and> hvb_kdf q = argon2id_name \<and>
     (\<exists>salt. b64_decode B (salt_b64 q) = Some salt \<and> derive_backup_key_from_recovery P phrase salt = Inr key) \<and>
     b64_decode B (nonce_b64 q) = Some n \<and> length n = BACKUP_NONCE_LEN \<and>
     b64_decode B (ciphertext_b64 q) = Some c \<and> unseals P B (hvb_sha256_hex q) n c key pt"

lemma open_hvb_returns:
  "open_hvb P B u bad len phrase q s = (Inr pt, s') \<longleftrightarrow>
     (\<exists>n c key. hvb_opens P B phrase q n c key pt) \<and> s' = s"
  unfolding open_hvb_def hvb_opens_def by (auto simp: returns_iff decrypt_bytes_returns)

lemma open_hvb_reads [step_intros]: "reads_only (open_hvb P B u bad len phrase q)"
  unfolding open_hvb_def by (intro step_intros)

lemma parse_hvb_payload_ok: "parse_hvb_payload B b = Inr q \<longleftrightarrow> hvb_from_json B b = Some q"
  by (simp add: parse_hvb_payload_def split: option.split)

section \<open>Replacing the database\<close>

text \<open>The previous file is moved aside: on every branch it is at the target or beside it.\<close>

definition survives :: "disk_file \<Rightarrow> path \<Rightarrow> host \<Rightarrow> bool" where
  "survives f target h \<longleftrightarrow> files h target = Some f \<or> files h (old_path target) = Some f"

lemma survives_moves:
  "touches X h h' \<Longrightarrow> survives f t h \<Longrightarrow> t \<notin> X \<Longrightarrow> old_path t \<notin> X \<Longrightarrow> survives f t h'"
  by (simp add: touches_def survives_def)

definition move_aside :: "path \<Rightarrow> unit iom" where
  "move_aside target =
     bindE (fs_exists (old_path target)) (\<lambda>stale.
     bindE (if stale then fs_remove (old_path target) else ret ()) (\<lambda>_.
     fs_rename target (old_path target)))"

lemma replace_unfold:
  "replace_existing_database target plaintext =
     bindE (ensure_parent_exists target) (\<lambda>_.
     bindE (fs_exists target) (\<lambda>present.
     bindE (if present then move_aside target else ret ()) (\<lambda>_.
     bindE (fs_write target plaintext) (\<lambda>_.
     set_owner_only_file_permissions target))))"
  unfolding replace_existing_database_def move_aside_def ..

lemma rename_survives:
  assumes "files h t = Some f"
  shows "survives f t (snd (fs_rename t (old_path t) h)) \<and>
         (fst (fs_rename t (old_path t) h) = Inr () \<longrightarrow>
            files (snd (fs_rename t (old_path t) h)) (old_path t) = Some f)"
  using assms
  by (auto simp: fs_rename_def permitted_def existing_file_def fs_attempt_def bindE_run run_simps
      survives_def)

lemma move_aside_survives:
  assumes "files h t = Some f" and "old_path t \<noteq> t"
  shows "survives f t (snd (move_aside t h)) \<and>
         (fst (move_aside t h) = Inr () \<longrightarrow> files (snd (move_aside t h)) (old_path t) = Some f)"
proof -
  have pre: "moves (touches {old_path t})
      (bindE (fs_exists (old_path t)) (\<lambda>stale. if stale then fs_remove (old_path t) else ret ()))"
    (is "moves _ ?m") by (intro disk_steps) simp_all
  have split: "move_aside t = bindE ?m (\<lambda>_. fs_rename t (old_path t))"
    unfolding move_aside_def by (rule ext) (simp add: bindE_def split: prod.split sum.split)
  obtain r h' where run: "?m h = (r, h')" by (cases "?m h")
  have "files h' t = Some f"
    using moves_run [OF pre run] assms by (simp add: touches_def)
  then have kept: "survives f t h'" by (simp add: survives_def)
  note renamed = rename_survives [OF \<open>files h' t = Some f\<close>]
  show ?thesis
  proof (cases r)
    case (Inl e)
    with kept show ?thesis by (simp add: split bindE_err [where m = ?m, OF run [unfolded Inl]])
  next
    case (Inr u)
    with renamed show ?thesis by (simp add: split bindE_ok [where m = ?m, OF run [unfolded Inr]])
  qed
qed

lemma replace_survives:
  assumes "files h t = Some f" and "old_path t \<noteq> t" and "\<And>n. \<not> denies h n (OpStat t)"
  shows "survives f t (snd (replace_existing_database t pt h))"
  unfolding replace_unfold
proof (rule post_moves [OF touches_parent [where X = "{}"]])
  fix h' assume "touches {} h h'"
  then show "survives f t h'" using assms(1) by (simp add: touches_def survives_def)
next
  fix x h1 assume "touches {} h h1"
  then have h1: "files h1 t = Some f" "\<not> denies h1 n (OpStat t)" for n
    using assms by (simp_all add: touches_def)
  then have seen: "fs_exists t h1 = (Inr True, tick h1)"
    by (simp add: fs_exists_def fs_attempt_def bindE_run run_simps)
  have here: "files (tick h1) t = Some f" using h1(1) by simp
  note aside = move_aside_survives [OF here assms(2)]
  have after: "survives f t (snd (bindE (fs_write t pt) (\<lambda>_. set_owner_only_file_permissions t) h2))"
    if "files h2 (old_path t) = Some f" for h2
  proof -
    have "moves (touches {t}) (bindE (fs_write t pt) (\<lambda>_. set_owner_only_file_permissions t))"
      by (intro disk_steps) simp_all
    then show ?thesis using that assms(2) unfolding moves_def touches_def survives_def by simp
  qed
  show "survives f t (snd (bindE (fs_exists t)
         (\<lambda>present. bindE (if present then move_aside t else ret ())
           (\<lambda>_. bindE (fs_write t pt) (\<lambda>_. set_owner_only_file_permissions t))) h1))"
    unfolding bindE_ok [where m = "fs_exists t", OF seen] if_True
    using aside after by (cases "move_aside t (tick h1)"; cases "fst (move_aside t (tick h1))")
      (auto simp: bindE_run)
qed

text \<open>Nothing is written before the backup has been opened.\<close>

lemma import_hvb_post:
  assumes same: "\<And>h'. touches {} h h' \<Longrightarrow> Q h'"
    and restored: "\<And>h' f q n c key pt. touches {} h h' \<Longrightarrow> files h backup = Some f \<Longrightarrow>
        hvb_from_json B (content f) = Some q \<Longrightarrow> hvb_opens P B phrase q n c key pt \<Longrightarrow>
        Q (snd (replace_existing_database target pt h'))"
  shows "Q (snd (import_hvb_with_recovery_key P B backup phrase target h))"
  unfolding import_hvb_with_recovery_key_def
proof (rule post_moves [OF disk.moves_pure(4) [where X = "{}"]], erule same)
  fix x h1
  assume "touches {} h h1" "require (mnemonic_parses B phrase) (Validation ''invalid recovery phrase'') h = (Inr x, h1)"
  then have [simp]: "h1 = h" by (simp add: returns_iff)
  show "Q (snd (bindE (fs_read backup) (\<lambda>backup_bytes.
     bindE (lift_result (parse_hvb_payload B backup_bytes)) (\<lambda>q.
     bindE (open_hvb P B ''unsupported .hvb backup format'' (\<lambda>part. ''invalid .hvb '' @ part)
              ''invalid .hvb nonce length'' phrase q) (\<lambda>plaintext.
     bindE (replace_existing_database target plaintext) (\<lambda>_.
     ret \<lparr> sha256_hex = hvb_sha256_hex q, plaintext_size = length plaintext \<rparr>)))) h1))"
  proof (rule post_moves [OF touches_read [where X = "{}"]])
    show "Q s'" if "touches {} h1 s'" for s' using that by (simp add: same)
  next
    fix b h2 assume h2: "touches {} h1 h2" "fs_read backup h1 = (Inr b, h2)"
    then obtain f where f: "files h backup = Some f" "b = content f" by (auto simp: fs_read_returns)
    show "Q (snd (bindE (lift_result (parse_hvb_payload B b)) (\<lambda>q.
       bindE (open_hvb P B ''unsupported .hvb backup format'' (\<lambda>part. ''invalid .hvb '' @ part)
                ''invalid .hvb nonce length'' phrase q) (\<lambda>plaintext.
       bindE (replace_existing_database target plaintext) (\<lambda>_.
       ret \<lparr> sha256_hex = hvb_sha256_hex q, plaintext_size = length plaintext \<rparr>))) h2))"
    proof (rule post_reads)
      fix q assume "lift_result (parse_hvb_payload B b) h2 = (Inr q, h2)"
      then have q: "hvb_from_json B (content f) = Some q" by (simp add: returns_iff parse_hvb_payload_ok f)
      show "Q (snd (bindE (open_hvb P B ''unsupported .hvb backup format'' (\<lambda>part. ''invalid .hvb '' @ part)
                ''invalid .hvb nonce length'' phrase q) (\<lambda>plaintext.
         bindE (replace_existing_database target plaintext) (\<lambda>_.
         ret \<lparr> sha256_hex = hvb_sha256_hex q, plaintext_size = length plaintext \<rparr>)) h2))"
      proof (rule post_reads)
        fix pt assume "open_hvb P B ''unsupported .hvb backup format'' (\<lambda>part. ''invalid .hvb '' @ part)
                ''invalid .hvb nonce length'' phrase q h2 = (Inr pt, h2)"
        then obtain n c key where opened: "hvb_opens P B phrase q n c key pt" by (auto simp: open_hvb_returns)
        from restored [OF _ f(1) q opened] h2(1) have "Q (snd (replace_existing_database target pt h2))" by simp
        moreover have "snd (bindE m (\<lambda>_. ret v) s) = snd (m s)" for m :: "unit iom" and v :: backup_metadata and s
          by (auto simp: bindE_def ret_def split: prod.split sum.split)
        ultimately show "Q (snd (bindE (replace_existing_database target pt) (\<lambda>_.
           ret \<lparr> sha256_hex = hvb_sha256_hex q, plaintext_size = length pt \<rparr>) h2))" by simp
      qed (use h2 same in \<open>simp_all add: open_hvb_reads\<close>)
    qed (use h2 same in \<open>auto intro: step_intros\<close>)
  qed
qed

section \<open>Properties\<close>

text \<open>Whatever operation fails and whatever the backup holds, a restoration never loses the database
  it was to replace: after it, the previous file is either still at the target or next to it under the
  \<open>.old\<close> name.  This needs a target whose own name does not end in \<open>.old\<close> and whose existence can be
  queried.\<close>

theorem restoration_never_loses_the_database:
  assumes "files h target = Some f" and "old_path target \<noteq> target"
    and "\<And>n. \<not> denies h n (OpStat target)"
  shows "let h' = snd (import_hvb_with_recovery_key P B backup phrase target h) in
           files h' target = Some f \<or> files h' (old_path target) = Some f"
  unfolding Let_def survives_def [symmetric]
proof (rule import_hvb_post)
  show "survives f target h'" if "touches {} h h'" for h'
    using survives_moves [OF that, of f target] assms(1) by (simp add: survives_def)
next
  fix h' pt assume "touches {} h h'"
  then show "survives f target (snd (replace_existing_database target pt h'))"
    using assms by (intro replace_survives) (auto simp: touches_def)
qed

lemma length_SQLITE_HEADER: "length SQLITE_HEADER = 16"
  by (simp add: SQLITE_HEADER_def)

text \<open>C31. Only an authentic backup is ever restored: when a restoration changes anything on the disk, the
  backup file holds a payload whose ciphertext is the AES-GCM encryption, under the key Argon2id derives
  from the given phrase and the stored salt, of an SQLite database with the stored digest.  A backup that
  was altered, cut or sealed under another phrase changes no file.\<close>

theorem only_authentic_backups_are_restored:
  assumes "aead_laws P"
    and "files (snd (import_hvb_with_recovery_key P B backup phrase target h)) \<noteq> files h"
  shows "\<exists>f q salt n c key pt. files h backup = Some f \<and> hvb_from_json B (content f) = Some q \<and>
           b64_decode B (salt_b64 q) = Some salt \<and> b64_decode B (nonce_b64 q) = Some n \<and>
           b64_decode B (ciphertext_b64 q) = Some c \<and>
           derive_backup_key_from_recovery P phrase salt = Inr key \<and>
           aead_encrypt P key n pt = Some c \<and> take 16 pt = SQLITE_HEADER \<and>
           checksum B pt = Some (hvb_sha256_hex q)" (is ?authentic)
proof (rule ccontr)
  assume none: "\<not> ?authentic"
  have "files (snd (import_hvb_with_recovery_key P B backup phrase target h)) = files h"
  proof (rule import_hvb_post)
    show "files h' = files h" if "touches {} h h'" for h' using that by (auto simp: touches_def)
  next
    fix h' f q n c key pt
    assume "files h backup = Some f" "hvb_from_json B (content f) = Some q"
      and opened: "hvb_opens P B phrase q n c key pt"
    moreover from opened aead_lawsD(3) [OF assms(1), of key n c pt]
    have "aead_encrypt P key n pt = Some c"
      by (simp add: hvb_opens_def unseals_def AES_256_KEY_LEN_def BACKUP_NONCE_LEN_def)
    moreover from opened have "take 16 pt = SQLITE_HEADER" "checksum B pt = Some (hvb_sha256_hex q)"
      by (auto simp: hvb_opens_def unseals_def validate_sqlite_bytes_def sha256_hex_of_def
          length_SQLITE_HEADER split: if_splits option.splits)
    ultimately have ?authentic unfolding hvb_opens_def by blast
    with none show "files (snd (replace_existing_database target pt h')) = files h" by blast
  qed
  with assms(2) show False by contradiction
qed

lemma export_hvb_opens:
  assumes "export_hvb_with_recovery_key P B salt_rnd nonce_rnd db backup phrase h = (Inr md, h1)"
  shows "\<exists>f g q n c key. files h db = Some f \<and> files h1 backup = Some g \<and> hvb_from_json B (content g) = Some q \<and>
           hvb_opens P B phrase q n c key (content f) \<and> touches {backup} h h1 \<and>
           plaintext_size md = length (content f) \<and> sha256_hex_of B (content f) = Inr (sha256_hex md) \<and>
           owner_only g"
proof -
  have "moves (touches {backup}) (export_hvb_with_recovery_key P B salt_rnd nonce_rnd db backup phrase)"
    unfolding export_hvb_with_recovery_key_def encrypt_bytes_def
    by (intro disk_steps disk.moves_of_reads open_hvb_reads) simp_all
  from moves_run [OF this assms] have frame: "touches {backup} h h1" .
  from assms obtain f d h3 h2 g q n c key where f: "files h db = Some f"
    and enc: "sha256_hex_of B (content f) = Inr d"
    and chmod: "set_owner_only_file_permissions backup h3 = (Inr (), h2)"
    and g: "files h2 backup = Some g" "h1 = tick h2"
    and opened: "hvb_from_json B (content g) = Some q" "hvb_opens P B phrase q n c key (content f)"
    and md: "md = \<lparr> sha256_hex = d, plaintext_size = length (content f) \<rparr>"
    unfolding export_hvb_with_recovery_key_def
    by (auto simp: returns_iff fs_read_returns encrypt_bytes_returns open_hvb_returns parse_hvb_payload_ok
        split: prod.splits)
  from chmod g(1) have "owner_only g"
    by (auto simp: set_owner_only_file_permissions_def permitted_def existing_file_def fs_attempt_def
        bindE_run run_simps split: option.splits if_splits)
  with f enc g opened md frame show ?thesis by auto
qed

lemma replace_calm:
  assumes "calm h" and "old_path t \<noteq> t"
  shows "\<exists>h' g. replace_existing_database t pt h = (Inr (), h') \<and> files h' t = Some g \<and> content g = pt \<and>
           owner_only g \<and> (\<forall>f. files h t = Some f \<longrightarrow> files h' (old_path t) = Some f)"
proof -
  let ?m = "bindE (fs_write t pt) (\<lambda>_. set_owner_only_file_permissions t)"
  have tail: "\<exists>h' g. ?m h2 = (Inr (), h') \<and> files h' t = Some g \<and> content g = pt \<and> owner_only g \<and>
      files h' (old_path t) = files h2 (old_path t)" if "calm h2" for h2
    using that assms(2) by (simp add: bindE_ok [where m = "fs_write p b" for p b, OF fs_write_calm] fs_chmod_calm written_def)
  have aside: "\<exists>h2. move_aside t h1 = (Inr (), h2) \<and> calm h2 \<and> files h2 (old_path t) = Some f"
    if "calm h1" "files h1 t = Some f" for h1 f
    using that assms(2) unfolding move_aside_def
    by (cases "files h1 (old_path t)")
       (simp_all add: bindE_ok [where m = "fs_exists p" for p, OF fs_exists_calm] bindE_ok [where m = "ret v" for v, OF ret_run] bindE_ok [where m = "fs_remove p" for p, OF fs_remove_calm]
         fs_rename_calm)
  obtain h1 where parent: "ensure_parent_exists t h = (Inr (), h1)" "calm h1" "files h1 = files h"
    using assms(1) by (cases "path_parent t = []") (simp_all add: ensure_parent_calm)
  show ?thesis
  proof (cases "files h t")
    case None
    with parent tail [of "tick h1"] show ?thesis unfolding replace_unfold
      by (auto simp: bindE_ok [where m = "ensure_parent_exists t", OF parent(1)] bindE_ok [where m = "fs_exists p" for p, OF fs_exists_calm] bindE_ok [where m = "ret v" for v, OF ret_run])
  next
    case (Some f)
    with parent aside [of "tick h1" f] obtain h2 where h2: "move_aside t (tick h1) = (Inr (), h2)"
      "calm h2" "files h2 (old_path t) = Some f" by auto
    with Some parent tail [of h2] show ?thesis unfolding replace_unfold
      by (simp add: bindE_ok [where m = "ensure_parent_exists t", OF parent(1)] bindE_ok [where m = "fs_exists p" for p, OF fs_exists_calm] bindE_ok [where m = "move_aside t", OF h2(1)])
  qed
qed

text \<open>A backup the export reports as written can be restored: if the export succeeds, restoring that file
  with the same phrase puts back exactly the bytes of the exported database, readable by its owner only,
  reports the metadata of the export, and leaves the database it replaces beside it.  Nothing is assumed
  of the cipher, the key derivation or the codecs: the export has checked the file it wrote.  The phrase
  must be a BIP-39 phrase, which the export does not check.\<close>

theorem a_reported_export_can_be_restored:
  assumes "export_hvb_with_recovery_key P B salt_rnd nonce_rnd db backup phrase h = (Inr md, h1)"
    and "calm h" and "mnemonic_parses B phrase" and "old_path target \<noteq> target"
  shows "\<exists>f g h2. files h db = Some f \<and>
           import_hvb_with_recovery_key P B backup phrase target h1 = (Inr md, h2) \<and>
           files h2 target = Some g \<and> content g = content f \<and> owner_only g \<and>
           (\<forall>f'. files h1 target = Some f' \<longrightarrow> files h2 (old_path target) = Some f')"
proof -
  from export_hvb_opens [OF assms(1)] obtain f g q n c key where
    f: "files h db = Some f" and g: "files h1 backup = Some g" and q: "hvb_from_json B (content g) = Some q"
    and opened: "hvb_opens P B phrase q n c key (content f)" and frame: "touches {backup} h h1"
    and md: "plaintext_size md = length (content f)" "sha256_hex_of B (content f) = Inr (sha256_hex md)"
    by blast
  from opened md have same: "md = \<lparr> sha256_hex = hvb_sha256_hex q, plaintext_size = length (content f) \<rparr>"
    by (cases md) (simp add: hvb_opens_def unseals_def)
  from frame assms(2) have "calm h1" by (rule calm_moves)
  with replace_calm [of "tick h1" target "content f"] assms(4) obtain h2 g' where
    put: "replace_existing_database target (content f) (tick h1) = (Inr (), h2)"
      "files h2 target = Some g'" "content g' = content f" "owner_only g'"
      "\<forall>f'. files h1 target = Some f' \<longrightarrow> files h2 (old_path target) = Some f'" by auto
  have "import_hvb_with_recovery_key P B backup phrase target h1 = (Inr md, h2)"
    unfolding import_hvb_with_recovery_key_def
    using assms(3) g q opened put(1) \<open>calm h1\<close> same
    by (auto simp: returns_iff parse_hvb_payload_ok open_hvb_returns fs_read_calm)
  with f put show ?thesis by blast
qed

section \<open>The raw format\<close>

abbreviation raw_good :: "string \<times> bytes \<times> bytes \<Rightarrow> bool" where
  "raw_good r \<equiv> (case r of (d, n, c) \<Rightarrow>
     length d = SHA256_HEX_LEN \<and> list_all is_ascii_hexdigit (str_bytes d) \<and> length n = BACKUP_NONCE_LEN \<and> c \<noteq> [])"

lemma hexdigit_ascii: "is_ascii_hexdigit b \<Longrightarrow> in_range 0 127 b"
  by (auto simp: is_ascii_hexdigit_def in_range_def word_le_nat_alt)

lemma hexdigits_utf8: "list_all is_ascii_hexdigit bs \<Longrightarrow> valid_utf8 bs"
  by (rule valid_utf8_ascii) (auto simp: list_all_iff hexdigit_ascii)

lemma length_BACKUP_MAGIC: "length BACKUP_MAGIC = 5"
  by (simp add: BACKUP_MAGIC_def)

lemmas raw_lengths = length_BACKUP_MAGIC SHA256_HEX_LEN_def BACKUP_NONCE_LEN_def

lemma parse_backup_cases:
  "parse_backup b = Inr (d, n, c) \<longleftrightarrow>
     82 \<le> length b \<and> take 5 b = BACKUP_MAGIC \<and> list_all is_ascii_hexdigit (drop 5 (take 69 b)) \<and>
     d = bytes_str (drop 5 (take 69 b)) \<and> n = drop 69 (take 81 b) \<and> c = drop 81 b"
  by (auto simp: parse_backup_def raw_lengths Let_def hexdigits_utf8)

lemma take_then: "i \<le> j \<Longrightarrow> take i b @ drop i (take j b) = take j b"
  by (metis append_take_drop_id min.absorb1 take_take)

interpretation raw_backup: codec raw_good "\<lambda>(d, n, c). BACKUP_MAGIC @ str_bytes d @ n @ c" "\<lambda>b. ok_of (parse_backup b)"
proof
  fix x assume "raw_good x"
  then show "ok_of (parse_backup (case x of (d, n, c) \<Rightarrow> BACKUP_MAGIC @ str_bytes d @ n @ c)) = Some x"
    by (cases x) (auto simp: ok_of_Some parse_backup_cases raw_lengths Suc_le_eq)
next
  fix b x assume parsed: "ok_of (parse_backup b) = Some x"
  obtain d n c where x: "x = (d, n, c)" by (cases x)
  note parts = parsed [unfolded ok_of_Some x parse_backup_cases]
  then show "raw_good x" by (simp add: x raw_lengths)
  have "take 5 b @ drop 5 (take 69 b) @ drop 69 (take 81 b) @ drop 81 b = b"
    by (simp add: take_then [of 5 69] take_then [of 69 81] flip: append_assoc)
  with parts show "(case x of (d, n, c) \<Rightarrow> BACKUP_MAGIC @ str_bytes d @ n @ c) = b" by (simp add: x)
qed

text \<open>The raw backup file is a codec: a file parses to a digest, a nonce and a ciphertext exactly when it
  is what the writer serializes for them, the digest is hexadecimal, the nonce has its 12 bytes and the
  ciphertext is not empty.  No other file is accepted, and no file has two readings.\<close>

theorem raw_backup_format_is_a_codec:
  "parse_backup b = Inr (d, n, c) \<longleftrightarrow>
     serialize_backup d n c = Inr b \<and> list_all is_ascii_hexdigit (str_bytes d) \<and>
     length n = BACKUP_NONCE_LEN \<and> c \<noteq> []"
  using raw_backup.dec_iff [of b "(d, n, c)"]
  by (auto simp: ok_of_Some serialize_backup_def)

section \<open>Who may back up\<close>

lemma backup_actor_reads: "reads_only (backup_actor a actor)"
  unfolding backup_actor_def
  by (intro step_intros site_db.zoom_reads)

lemma backup_actor_ok:
  assumes "backup_actor a actor w = (Inr (), w')" and "a = BackupExport \<or> a = BackupRestore"
  shows "\<exists>r\<in>set (users (site_db w)). u_id r = actor \<and> u_role r = format_role RoleAdmin"
proof -
  from assms(1) obtain u d where u: "user_get_by_id actor (site_db w) = (Inr (Some u), d)"
    and "check_permission u a Global = Inr ()"
    unfolding backup_actor_def by (auto simp: returns_iff site_db.zoom_returns)
  with assms(2) have "role u = RoleAdmin" by (auto simp: check_permission_def split: if_splits)
  with u show ?thesis
    by (auto simp: user_get_by_id_returns simp del: format_role.simps dest!: first_row_SomeD row_to_user_fields
        intro!: bexI)
qed

text \<open>Backups are for administrators: if a secured export or restoration succeeds, or changes the file
  system in any way, then the actor is a user stored in the database with the administrator role; and
  neither call changes the database of the users.\<close>

theorem backups_are_for_administrators:
  assumes "call = export_backup_secured P B salt_rnd nonce_rnd actor db_file backup phrase \<or>
           call = restore_backup_secured P B actor backup phrase db_file"
    and "(\<exists>md. fst (call w) = Inr md) \<or> site_host (snd (call w)) \<noteq> site_host w"
  shows "(\<exists>r\<in>set (users (site_db w)). u_id r = actor \<and> u_role r = format_role RoleAdmin) \<and>
         site_db (snd (call w)) = site_db w"
proof -
  obtain a m where call: "call = bindE (backup_actor a actor) (\<lambda>_. zoom site_host (\<lambda>h w. w\<lparr>site_host := h\<rparr>) m)"
    and a: "a = BackupExport \<or> a = BackupRestore"
    using assms(1) unfolding export_backup_secured_def restore_backup_secured_def by metis
  obtain r where r: "backup_actor a actor w = (r, w)"
    using reads_only_run [OF backup_actor_reads] by (metis prod.collapse)
  show ?thesis
  proof (cases r)
    case (Inl e)
    with r assms(2) show ?thesis by (simp add: call bindE_err)
  next
    case (Inr u)
    with backup_actor_ok [OF _ a] r show ?thesis
      by (auto simp: call bindE_ok [where m = "backup_actor a actor", OF r [unfolded Inr]] zoom_def
          split: prod.split)
  qed
qed

end
