(* ===== verification/Backup_Witnesses.thy ===== *)
theory Backup_Witnesses
  imports Backup_Properties Demo
begin

text \<open>The properties of the backup service, applied at a concrete file system and concrete crates.\<close>

definition demo_payload :: hvb_payload where
  "demo_payload = \<lparr> hvb_version = 1, hvb_kdf = argon2id_name, salt_b64 = bytes_str demo_salt,
     nonce_b64 = bytes_str demo_nonce, ciphertext_b64 = bytes_str (SQLITE_HEADER @ demo_salt),
     hvb_sha256_hex = replicate 64 CHR ''0'', hvb_plaintext_size = 16 \<rparr>"

text \<open>Base64 is the identity, and the JSON codec knows one payload: the one the export below writes.\<close>

definition demo_B :: backup_crates where
  "demo_B = \<lparr> checksum_available = True, checksum = (\<lambda>_. Some (replicate 64 CHR ''0'')),
     b64_encode = bytes_str, b64_decode = (\<lambda>s. Some (str_bytes s)),
     mnemonic_from_entropy = (\<lambda>_. Some ''''), mnemonic_parses = (\<lambda>_. True),
     hvb_to_json = (\<lambda>_. Some [1]), hvb_from_json = (\<lambda>_. Some demo_payload) \<rparr>"

definition db_path :: path where "db_path = Path ''/srv'' ''heelon.db''"
definition hvb_path :: path where "hvb_path = Path '''' ''today.hvb''"

definition demo_host :: host where
  "demo_host = \<lparr> files = [db_path \<mapsto> \<lparr> content = SQLITE_HEADER, owner_only = True \<rparr>],
     ticks = 0, denies = (\<lambda>_ _. False), torn = (\<lambda>_ _. None) \<rparr>"

definition exported :: host where
  "exported = snd (export_hvb_with_recovery_key demo_P demo_B (Some demo_salt) (Some demo_nonce)
     db_path hvb_path '''' demo_host)"

lemma demo_paths: "old_path db_path \<noteq> db_path" "db_path \<noteq> hvb_path"
  by code_simp+

lemma demo_export:
  "fst (export_hvb_with_recovery_key demo_P demo_B (Some demo_salt) (Some demo_nonce)
     db_path hvb_path '''' demo_host) = Inr \<lparr> sha256_hex = replicate 64 CHR ''0'', plaintext_size = 16 \<rparr>"
  by code_simp

theorem a_reported_export_can_be_restored_witness:
  "\<exists>f g h2. files demo_host db_path = Some f \<and>
     import_hvb_with_recovery_key demo_P demo_B hvb_path '''' db_path exported =
       (Inr \<lparr> sha256_hex = replicate 64 CHR ''0'', plaintext_size = 16 \<rparr>, h2) \<and>
     files h2 db_path = Some g \<and> content g = content f \<and> owner_only g \<and>
     files h2 (old_path db_path) = Some \<lparr> content = SQLITE_HEADER, owner_only = True \<rparr>"
proof -
  have run: "export_hvb_with_recovery_key demo_P demo_B (Some demo_salt) (Some demo_nonce)
      db_path hvb_path '''' demo_host = (Inr \<lparr> sha256_hex = replicate 64 CHR ''0'', plaintext_size = 16 \<rparr>, exported)"
    unfolding exported_def demo_export [symmetric] by simp
  have "files exported db_path = Some \<lparr> content = SQLITE_HEADER, owner_only = True \<rparr>" by code_simp
  moreover have "calm demo_host" "mnemonic_parses demo_B ''''" by (simp_all add: calm_def demo_host_def demo_B_def)
  note a_reported_export_can_be_restored [OF run this demo_paths(1)]
  ultimately show ?thesis by blast
qed

text \<open>The write of the restored database fails half-way: the previous database is beside it.\<close>

definition failing_host :: host where
  "failing_host = exported\<lparr>denies := (\<lambda>_ op. op = OpWrite db_path)\<rparr>"

lemma failing_db: "files failing_host db_path = Some \<lparr> content = SQLITE_HEADER, owner_only = True \<rparr>"
  by code_simp

theorem restoration_never_loses_the_database_witness:
  "(\<exists>e. fst (import_hvb_with_recovery_key demo_P demo_B hvb_path '''' db_path failing_host) = Inl e) \<and>
   (let h' = snd (import_hvb_with_recovery_key demo_P demo_B hvb_path '''' db_path failing_host) in
      files h' db_path = Some \<lparr> content = SQLITE_HEADER, owner_only = True \<rparr> \<or>
      files h' (old_path db_path) = Some \<lparr> content = SQLITE_HEADER, owner_only = True \<rparr>)"
proof
  have "fst (import_hvb_with_recovery_key demo_P demo_B hvb_path '''' db_path failing_host) =
          Inl (Io ''operation failed'')"
    by code_simp
  then show "\<exists>e. fst (import_hvb_with_recovery_key demo_P demo_B hvb_path '''' db_path failing_host) = Inl e"
    by blast
qed (rule restoration_never_loses_the_database [OF failing_db demo_paths(1)],
     simp add: failing_host_def)

theorem only_authentic_backups_are_restored_witness:
  "\<exists>f q salt n c key pt. files exported hvb_path = Some f \<and> hvb_from_json demo_B (content f) = Some q \<and>
     b64_decode demo_B (salt_b64 q) = Some salt \<and> b64_decode demo_B (nonce_b64 q) = Some n \<and>
     b64_decode demo_B (ciphertext_b64 q) = Some c \<and>
     derive_backup_key_from_recovery demo_P '''' salt = Inr key \<and>
     aead_encrypt demo_P key n pt = Some c \<and> take 16 pt = SQLITE_HEADER \<and>
     checksum demo_B pt = Some (hvb_sha256_hex q)"
proof (rule only_authentic_backups_are_restored [OF demo_laws, where target = "old_path db_path"])
  have "files (snd (import_hvb_with_recovery_key demo_P demo_B hvb_path '''' (old_path db_path) exported))
          (old_path db_path) \<noteq> files exported (old_path db_path)"
    by code_simp
  then show "files (snd (import_hvb_with_recovery_key demo_P demo_B hvb_path '''' (old_path db_path) exported))
      \<noteq> files exported" by metis
qed

definition demo_site :: site where
  "demo_site = \<lparr> site_db = demo_db, site_host = demo_host \<rparr>"

theorem backups_are_for_administrators_witness:
  "(\<exists>r\<in>set (users demo_db). u_id r = 1 \<and> u_role r = format_role RoleAdmin) \<and>
   site_db (snd (export_backup_secured demo_P demo_B (Some demo_salt) (Some demo_nonce) 1
     db_path hvb_path '''' demo_site)) = demo_db"
proof -
  have "fst (export_backup_secured demo_P demo_B (Some demo_salt) (Some demo_nonce) 1 db_path hvb_path ''''
      demo_site) = Inr \<lparr> sha256_hex = replicate 64 CHR ''0'', plaintext_size = 16 \<rparr>"
    by code_simp
  then have ok: "\<exists>md. fst (export_backup_secured demo_P demo_B (Some demo_salt) (Some demo_nonce) 1
      db_path hvb_path '''' demo_site) = Inr md" by blast
  have "site_db demo_site = demo_db" by (simp add: demo_site_def)
  with backups_are_for_administrators [OF disjI1 [OF refl] disjI1 [OF ok]] show ?thesis by simp
qed

end
