(* ===== verification/Import_Service.thy ===== *)
theory Import_Service
  imports Secret_Properties Vault_Service
begin

text \<open>
  \<open>services/import_service.rs\<close>: the import of a CSV file into a vault.  What the \<open>csv\<close> crate makes of
  the file is the parameter \<open>csv_file\<close>: its size, its headers and its records, each of them possibly an
  error; \<open>Url::parse\<close> and the JSON serialization are the fields of \<open>import_crates\<close>.  The ids and nonces
  drawn for the secrets are functions of the position of the row.
\<close>

definition MAX_CSV_FILE_SIZE_BYTES :: nat where "MAX_CSV_FILE_SIZE_BYTES = 10 * 1024 * 1024"
definition MAX_CSV_ROWS :: nat where "MAX_CSV_ROWS = 10000"
definition MAX_FIELD_LEN :: nat where "MAX_FIELD_LEN = 2048"

record csv_row =
  csv_name :: string
  csv_url :: string
  csv_username :: string
  csv_password :: string
  csv_notes :: string

record csv_import_metadata =
  cm_login :: string
  cm_url :: string
  cm_notes :: string
  cm_source :: string

record csv_file =
  csv_size :: "nat option"
  csv_opens :: bool
  csv_headers :: "string list option"
  csv_records :: "string list option list"

record import_crates =
  url_scheme :: "string \<Rightarrow> string option"
  csv_metadata_json :: "csv_import_metadata \<Rightarrow> string option"

text \<open>Evaluation compares with the limits as integers.\<close>

lemma limits_code [code_unfold]:
  "n > MAX_CSV_FILE_SIZE_BYTES \<longleftrightarrow> int n > 10485760"
  "m < MAX_CSV_ROWS \<longleftrightarrow> int m < 10000"
  "k > MAX_FIELD_LEN \<longleftrightarrow> int k > 2048"
  by (auto simp: MAX_CSV_FILE_SIZE_BYTES_def MAX_CSV_ROWS_def MAX_FIELD_LEN_def)

section \<open>Reading the file\<close>

definition validate_csv_file_size :: "csv_file \<Rightarrow> app_error + unit" where
  "validate_csv_file_size f =
     (case csv_size f of
        None \<Rightarrow> Inl (Storage ''failed to stat csv file'')
      | Some n \<Rightarrow> if n > MAX_CSV_FILE_SIZE_BYTES then Inl (Validation ''csv file is too large'') else Inr ())"

definition validate_field_length :: "string \<Rightarrow> string \<Rightarrow> app_error + unit" where
  "validate_field_length name v =
     (if length v > MAX_FIELD_LEN
      then Inl (Validation (''csv field '' @ name @ '' exceeds maximum length of 2048'')) else Inr ())"

definition validate_optional_url :: "import_crates \<Rightarrow> string \<Rightarrow> app_error + unit" where
  "validate_optional_url C v =
     (if v = [] then Inr ()
      else case url_scheme C v of
          None \<Rightarrow> Inl (Validation ''invalid url format in csv'')
        | Some scheme \<Rightarrow>
           if scheme = ''http'' \<or> scheme = ''https'' then Inr ()
           else Inl (Validation ''url must start with http:// or https://''))"

definition eq_ignore_ascii_case :: "string \<Rightarrow> string \<Rightarrow> bool" where
  "eq_ignore_ascii_case a b \<longleftrightarrow> ascii_lower a = ascii_lower b"

text \<open>The position of a column, and of the first header with its name.\<close>

fun position :: "('a \<Rightarrow> bool) \<Rightarrow> 'a list \<Rightarrow> nat option" where
  "position p [] = None"
| "position p (x # xs) = (if p x then Some 0 else map_option Suc (position p xs))"

definition column :: "string list \<Rightarrow> string \<Rightarrow> app_error + nat" where
  "column headers name =
     (case position (\<lambda>h. eq_ignore_ascii_case h name) headers of
        None \<Rightarrow> Inl (Validation (''csv is missing required column: '' @ name))
      | Some i \<Rightarrow> Inr i)"

definition required_field :: "string list \<Rightarrow> nat \<Rightarrow> string \<Rightarrow> app_error + string" where
  "required_field record i name =
     (if i < length record then Inr (trim (record ! i))
      else Inl (Validation (''csv row is missing required field: '' @ name)))"

text \<open>The fields of a record and their validation, in the order of the loop body.\<close>

definition read_row :: "import_crates \<Rightarrow> nat \<times> nat \<times> nat \<times> nat \<times> nat \<Rightarrow> string list \<Rightarrow> 's \<Rightarrow> (app_error + csv_row) \<times> 's" where
  "read_row C idx record =
     (case idx of (name_idx, url_idx, username_idx, password_idx, notes_idx) \<Rightarrow>
      bindE (lift_result (required_field record name_idx ''name'')) (\<lambda>name.
      bindE (lift_result (required_field record url_idx ''url'')) (\<lambda>url.
      bindE (lift_result (required_field record username_idx ''username'')) (\<lambda>user_name.
      bindE (lift_result (required_field record password_idx ''password'')) (\<lambda>password.
      bindE (lift_result (required_field record notes_idx ''notes'')) (\<lambda>notes.
      bindE (lift_result (validate_field_length ''name'' name)) (\<lambda>_.
      bindE (lift_result (validate_field_length ''url'' url)) (\<lambda>_.
      bindE (lift_result (validate_field_length ''username'' user_name)) (\<lambda>_.
      bindE (lift_result (validate_field_length ''password'' password)) (\<lambda>_.
      bindE (lift_result (validate_field_length ''notes'' notes)) (\<lambda>_.
      bindE (lift_result (validate_optional_url C url)) (\<lambda>_.
      ret \<lparr> csv_name = name, csv_url = url, csv_username = user_name, csv_password = password,
            csv_notes = notes \<rparr>))))))))))))"

fun parse_records ::
  "import_crates \<Rightarrow> nat \<times> nat \<times> nat \<times> nat \<times> nat \<Rightarrow> string list option list \<Rightarrow> csv_row list \<Rightarrow>
   's \<Rightarrow> (app_error + csv_row list) \<times> 's" where
  "parse_records C idx [] rows = ret rows"
| "parse_records C idx (r # rs) rows =
     bindE (ok_or (Validation ''invalid csv record'') r) (\<lambda>record.
     bindE (require (length rows < MAX_CSV_ROWS) (Validation ''csv contains too many rows'')) (\<lambda>_.
     bindE (read_row C idx record) (\<lambda>row.
     if csv_password row = [] then parse_records C idx rs rows
     else parse_records C idx rs (rows @ [row]))))"

definition parse_csv_rows :: "import_crates \<Rightarrow> csv_file \<Rightarrow> 's \<Rightarrow> (app_error + csv_row list) \<times> 's" where
  "parse_csv_rows C f =
     bindE (lift_result (validate_csv_file_size f)) (\<lambda>_.
     bindE (require (csv_opens f) (Storage ''failed to open csv file'')) (\<lambda>_.
     bindE (ok_or (Validation ''failed to read csv headers'') (csv_headers f)) (\<lambda>headers.
     bindE (lift_result (column headers ''name'')) (\<lambda>name_idx.
     bindE (lift_result (column headers ''url'')) (\<lambda>url_idx.
     bindE (lift_result (column headers ''username'')) (\<lambda>username_idx.
     bindE (lift_result (column headers ''password'')) (\<lambda>password_idx.
     bindE (lift_result (column headers ''notes'')) (\<lambda>notes_idx.
     parse_records C (name_idx, url_idx, username_idx, password_idx, notes_idx) (csv_records f) []))))))))"

section \<open>Storing the rows\<close>

definition import_title :: "csv_row \<Rightarrow> string" where
  "import_title row = (if csv_name row = [] then ''Imported secret'' else csv_name row)"

definition import_row ::
  "primitives \<Rightarrow> import_crates \<Rightarrow> uuid \<Rightarrow> bytes option \<Rightarrow> uuid \<Rightarrow> bytes \<Rightarrow> csv_row \<Rightarrow> unit dbm" where
  "import_row P C new_id nonce_rnd vid vault_key row =
     bindE (ok_or (Validation ''failed to serialize csv metadata'')
              (csv_metadata_json C \<lparr> cm_login = csv_username row, cm_url = csv_url row,
                 cm_notes = csv_notes row, cm_source = ''csv_import'' \<rparr>)) (\<lambda>meta.
     bindE (create_secret P new_id nonce_rnd vid Password (Some (import_title row)) (Some meta)
              (Some ''import,csv'') None (str_bytes (csv_password row)) vault_key) (\<lambda>_. ret ()))"

text \<open>The loop over the rows, with the number already imported.\<close>

fun import_rows ::
  "primitives \<Rightarrow> import_crates \<Rightarrow> (nat \<Rightarrow> uuid) \<Rightarrow> (nat \<Rightarrow> bytes option) \<Rightarrow> uuid \<Rightarrow> bytes \<Rightarrow>
   csv_row list \<Rightarrow> nat \<Rightarrow> nat dbm" where
  "import_rows P C ids nonces vid vault_key [] imported_count = ret imported_count"
| "import_rows P C ids nonces vid vault_key (row # rows) imported_count =
     bindE (import_row P C (ids imported_count) (nonces imported_count) vid vault_key row) (\<lambda>_.
     import_rows P C ids nonces vid vault_key rows (imported_count + 1))"

definition import_csv ::
  "primitives \<Rightarrow> import_crates \<Rightarrow> (nat \<Rightarrow> uuid) \<Rightarrow> (nat \<Rightarrow> bytes option) \<Rightarrow> csv_file \<Rightarrow> uuid \<Rightarrow> bytes \<Rightarrow>
   nat dbm" where
  "import_csv P C ids nonces f admin_id admin_key =
     bindE (parse_csv_rows C f) (\<lambda>rows.
     if rows = [] then ret 0
     else
       bindE (list_user_vaults admin_id) (\<lambda>vaults.
       bindE (ok_or (NotFound ''no vault found for csv import'')
                (case vaults of [] \<Rightarrow> None | v # _ \<Rightarrow> Some v)) (\<lambda>first_vault.
       bindE (open_vault P (vault_id first_vault) admin_key) (\<lambda>vault_key.
       import_rows P C ids nonces (vault_id first_vault) vault_key rows 0))))"

end
