(* ===== verification/Import_Properties.thy ===== *)
theory Import_Properties
  imports Import_Service Vault_Properties
begin

text \<open>What the CSV import reads and what it stores, the interrupted imports included.\<close>

section \<open>The rows of a file\<close>

definition row_in_bounds :: "import_crates \<Rightarrow> csv_row \<Rightarrow> bool" where
  "row_in_bounds C row \<longleftrightarrow>
     list_all (\<lambda>v. length v \<le> 2048) [csv_name row, csv_url row, csv_username row, csv_password row, csv_notes row] \<and>
     (csv_url row = [] \<or> url_scheme C (csv_url row) = Some ''http'' \<or> url_scheme C (csv_url row) = Some ''https'')"

text \<open>The row a record stands for, by its columns.\<close>

definition row_of :: "nat \<times> nat \<times> nat \<times> nat \<times> nat \<Rightarrow> string list \<Rightarrow> csv_row" where
  "row_of idx record =
     (case idx of (n, u, l, p, t) \<Rightarrow>
        \<lparr> csv_name = trim (record ! n), csv_url = trim (record ! u), csv_username = trim (record ! l),
          csv_password = trim (record ! p), csv_notes = trim (record ! t) \<rparr>)"

lemma field_ok: "required_field record i name = Inr v \<longleftrightarrow> i < length record \<and> v = trim (record ! i)"
  by (auto simp: required_field_def)

lemma length_ok: "validate_field_length name v = Inr u \<longleftrightarrow> length v \<le> 2048"
  by (auto simp: validate_field_length_def MAX_FIELD_LEN_def)

lemma url_ok: "validate_optional_url C v = Inr u \<longleftrightarrow>
    v = [] \<or> url_scheme C v = Some ''http'' \<or> url_scheme C v = Some ''https''"
  by (auto simp: validate_optional_url_def split: option.splits)

lemma read_row_returns:
  "read_row C idx record s = (Inr row, s') \<Longrightarrow>
     s' = s \<and> row = row_of idx record \<and> row_in_bounds C row"
  unfolding read_row_def
  by (cases idx) (auto simp: returns_iff field_ok length_ok url_ok row_of_def row_in_bounds_def)

lemma parse_records_returns:
  assumes "parse_records C idx records acc s = (Inr rows, s')"
  shows "s' = s \<and> (\<exists>recs. records = map Some recs \<and>
           rows = acc @ filter (\<lambda>r. csv_password r \<noteq> []) (map (row_of idx) recs) \<and>
           list_all (row_in_bounds C) (map (row_of idx) recs)) \<and>
         (length acc \<le> MAX_CSV_ROWS \<longrightarrow> length rows \<le> MAX_CSV_ROWS)"
  using assms
proof (induction records arbitrary: acc)
  case Nil
  then show ?case by (simp add: returns_iff)
next
  case (Cons r records)
  from Cons(2) obtain rec row s1 where r: "r = Some rec" and room: "length acc < MAX_CSV_ROWS"
    and row: "read_row C idx rec s = (Inr row, s1)"
    and rest: "parse_records C idx records (if csv_password row = [] then acc else acc @ [row]) s1 = (Inr rows, s')"
    by (auto simp: returns_iff split: if_splits)
  from read_row_returns [OF row] have "s1 = s" "row = row_of idx rec" "row_in_bounds C row" by blast+
  note row = this
  from Cons(1) [OF rest [unfolded row(1)]] obtain recs where recs: "s' = s" "records = map Some recs"
    "rows = (if csv_password row = [] then acc else acc @ [row]) @
       filter (\<lambda>r. csv_password r \<noteq> []) (map (row_of idx) recs)"
    "list_all (row_in_bounds C) (map (row_of idx) recs)" and len: "length rows \<le> MAX_CSV_ROWS"
    using room by (auto split: if_splits)
  have "r # records = map Some (rec # recs)" using r recs(2) by simp
  moreover have "rows = acc @ filter (\<lambda>r. csv_password r \<noteq> []) (map (row_of idx) (rec # recs))"
    using recs(3) row(2) by auto
  moreover have "list_all (row_in_bounds C) (map (row_of idx) (rec # recs))" using recs(4) row(2,3) by simp
  ultimately show ?case using recs(1) len by (intro conjI impI exI [of _ "rec # recs"])
qed

lemma position_first:
  "position p xs = Some i \<longleftrightarrow> i < length xs \<and> p (xs ! i) \<and> (\<forall>j<i. \<not> p (xs ! j))"
proof (induction xs arbitrary: i)
  case Nil
  show ?case by simp
next
  case (Cons x xs)
  show ?case by (cases i) (auto simp: Cons less_Suc_eq_0_disj split: option.split)
qed

lemma parse_csv_rows_returns:
  assumes "parse_csv_rows C f s = (Inr rows, s')"
  shows "s' = s \<and> length rows \<le> 10000 \<and>
         (\<exists>headers recs n u l p t. csv_headers f = Some headers \<and> csv_records f = map Some recs \<and>
            column headers ''name'' = Inr n \<and> column headers ''url'' = Inr u \<and>
            column headers ''username'' = Inr l \<and> column headers ''password'' = Inr p \<and>
            column headers ''notes'' = Inr t \<and>
            rows = filter (\<lambda>r. csv_password r \<noteq> []) (map (row_of (n, u, l, p, t)) recs) \<and>
            list_all (row_in_bounds C) rows)"
proof -
  from assms obtain headers n u l p t where h: "csv_headers f = Some headers" "column headers ''name'' = Inr n"
    "column headers ''url'' = Inr u" "column headers ''username'' = Inr l" "column headers ''password'' = Inr p"
    "column headers ''notes'' = Inr t" and parse: "parse_records C (n, u, l, p, t) (csv_records f) [] s = (Inr rows, s')"
    unfolding parse_csv_rows_def by (auto simp: returns_iff)
  from parse_records_returns [OF parse] obtain recs where recs: "s' = s" "csv_records f = map Some recs"
    "rows = filter (\<lambda>r. csv_password r \<noteq> []) (map (row_of (n, u, l, p, t)) recs)"
    "list_all (row_in_bounds C) (map (row_of (n, u, l, p, t)) recs)" "length rows \<le> MAX_CSV_ROWS" by auto
  have "list_all (row_in_bounds C) rows" using recs(4) unfolding recs(3) by (auto simp: list_all_iff)
  with h recs show ?thesis by (auto simp: MAX_CSV_ROWS_def)
qed

section \<open>What is stored\<close>

text \<open>The secret a row is stored as: every column the import fills, and the password it opens to.\<close>

definition imported :: "primitives \<Rightarrow> import_crates \<Rightarrow> bytes \<Rightarrow> uuid \<Rightarrow> csv_row \<Rightarrow> secret_row \<Rightarrow> bool" where
  "imported P C key vid row r \<longleftrightarrow>
     si_vault r = vid \<and> si_type r = ''password'' \<and>
     si_title r = Some (if csv_name row = [] then ''Imported secret'' else csv_name row) \<and>
     csv_metadata_json C \<lparr> cm_login = csv_username row, cm_url = csv_url row,
       cm_notes = csv_notes row, cm_source = ''csv_import'' \<rparr> = si_meta r \<and> si_meta r \<noteq> None \<and>
     si_tags r = Some ''import,csv'' \<and> si_expires r = None \<and> si_usage r = 0 \<and> si_deleted r = None \<and>
     (\<exists>d. opened_row P key r = Inr d \<and> secret_value d = str_bytes (csv_password row))"

lemma insert_blob_fails: "secret_insert_blob i b s = (Inl e, s') \<Longrightarrow> s' = s"
  by (cases "insert_secret_row (new_secret_row (clock s) i b) s")
     (auto simp: secret_insert_blob_def bindE_run gets_run exec_sql_def)

lemma create_secret_fails:
  assumes "create_secret P new_id nr vid ty ti meta tg ex pt key s = (Inl e, s')"
  shows "s' = s"
  using assms unfolding create_secret_def Let_def
  by (auto simp: bindE_fails lift_result_run returns_iff ignore_error_run ret_run dest: insert_blob_fails)

lemma import_row_effect:
  assumes "aead_laws P" and "\<forall>n. nonce_rnd = Some n \<longrightarrow> length n = NONCE_LEN"
    and run: "import_row P C new_id nonce_rnd vid key row s = (r, s')"
  shows "(\<exists>e. r = Inl e \<and> s' = s) \<or>
         (\<exists>x. r = Inr () \<and> imported P C key vid row x \<and>
            same_but_audit (s\<lparr>secrets := secrets s @ [x]\<rparr>) s')"
proof (cases r)
  case (Inl e)
  with run show ?thesis unfolding import_row_def
    by (auto simp: bindE_fails ok_or_run ret_run returns_iff split: option.splits dest: create_secret_fails)
next
  case (Inr u)
  with run obtain meta i where meta: "csv_metadata_json C \<lparr> cm_login = csv_username row, cm_url = csv_url row,
      cm_notes = csv_notes row, cm_source = ''csv_import'' \<rparr> = Some meta" and
    "create_secret P new_id nonce_rnd vid Password (Some (import_title row)) (Some meta)
      (Some ''import,csv'') None (str_bytes (csv_password row)) key s = (Inr i, s')"
    unfolding import_row_def by (auto simp: returns_iff)
  from create_secret_effect [OF this(2)] obtain q where
    q: "encrypt P nonce_rnd (str_bytes (csv_password row)) key = Inr q"
    and i: "i = \<lparr> secret_id = new_id, secret_vault = vid, s_type = Password, title = Some (import_title row),
      metadata_json = Some meta, tags = Some ''import,csv'', expires_at = None, created_at = None,
      modified_at = None, usage_count = 0, storage = blob_storage_for_type Password,
      secret_blob = serialize_payload q, deleted_at = None \<rparr>"
    and same: "same_but_audit (s\<lparr>secrets := secrets s @ [new_secret_row (clock s) i (serialize_payload q)]\<rparr>) s'" .
  obtain n where n: "nonce_rnd = Some n" "length n = NONCE_LEN"
    using q assms(2) by (auto simp: encrypt_Inr)
  let ?x = "new_secret_row (clock s) i (serialize_payload q)"
  have "opened_row P key ?x = Inr \<lparr> ds_id = new_id, ds_vault = vid, ds_type = Password,
      ds_storage = blob_storage_for_type Password, secret_value = str_bytes (csv_password row) \<rparr>"
    using opened_sealed [OF assms(1) n(2) q [unfolded n(1)] new_row_reads_back] by (simp add: i)
  then have "imported P C key vid row ?x"
    using meta by (simp add: imported_def new_secret_row_def i import_title_def)
  with same Inr show ?thesis by auto
qed

lemma import_rows_effect:
  assumes "aead_laws P" and nonces: "\<forall>i n. nonces i = Some n \<longrightarrow> length n = NONCE_LEN"
    and "import_rows P C ids nonces vid key rows k s = (r, s')"
  shows "\<exists>new. same_but_audit (s\<lparr>secrets := secrets s @ new\<rparr>) s' \<and> length new \<le> length rows \<and>
           list_all2 (imported P C key vid) (take (length new) rows) new \<and>
           (case r of Inl _ \<Rightarrow> length new < length rows | Inr n \<Rightarrow> length new = length rows \<and> n = k + length rows)"
  using assms(3)
proof (induction rows arbitrary: k s)
  case Nil
  then show ?case by (auto simp: ret_run same_but_audit_def intro!: exI [of _ "[]"])
next
  case (Cons row rows)
  let ?m = "import_row P C (ids k) (nonces k) vid key row"
  obtain r1 s1 where first: "?m s = (r1, s1)" by (cases "?m s")
  have nonce: "\<forall>n. nonces k = Some n \<longrightarrow> length n = NONCE_LEN" using nonces by blast
  from import_row_effect [OF assms(1) nonce first]
  show ?case
  proof (elim disjE exE conjE)
    fix e assume "r1 = Inl e" "s1 = s"
    with Cons(2) first have "r = Inl e" "s' = s" by (simp_all add: bindE_err [where m = ?m])
    then show ?thesis by (auto simp: same_but_audit_def intro!: exI [of _ "[]"])
  next
    fix x assume ok: "r1 = Inr ()" "imported P C key vid row x" "same_but_audit (s\<lparr>secrets := secrets s @ [x]\<rparr>) s1"
    with Cons(2) first have "import_rows P C ids nonces vid key rows (k + 1) s1 = (r, s')"
      by (simp add: bindE_ok [where m = ?m])
    from Cons(1) [OF this] obtain new where new: "same_but_audit (s1\<lparr>secrets := secrets s1 @ new\<rparr>) s'"
      "length new \<le> length rows" "list_all2 (imported P C key vid) (take (length new) rows) new"
      "case r of Inl _ \<Rightarrow> length new < length rows | Inr n \<Rightarrow> length new = length rows \<and> n = k + 1 + length rows"
      by blast
    have "same_but_audit (s\<lparr>secrets := secrets s @ x # new\<rparr>) s'"
      using ok(3) new(1) by (simp add: same_but_audit_def)
    with new ok(2) show ?thesis by (intro exI [of _ "x # new"]) (auto split: sum.splits)
  qed
qed

lemma open_vault_same: "open_vault P vid mk s = (r, s') \<Longrightarrow> same_but_audit s s'"
proof -
  have "moves same_but_audit (open_vault P vid mk)"
    unfolding open_vault_def open_vault_for_user_def record_event_def
    by (intro audit_only.moves_bindE audit_only.moves_pure audit_append_only audit_only.moves_of_reads step_intros)
  then show "open_vault P vid mk s = (r, s') \<Longrightarrow> same_but_audit s s'"
    by (metis moves_def snd_conv)
qed

text \<open>C38. An import stores a prefix of the rows of the file and touches nothing else but the audit log: whatever
  the call returns, the new secrets are, in the order of the file, one for each of the first rows, in the
  first vault listed for the user; each opens, under the key that opening this vault with the given
  master key returns, to the password of its row, and its title, metadata and tags are those of the
  row.  If the call returns, all rows are stored and their number is the result; if it fails, at least
  one row is missing, and the rows before it stay.  The rows are the records with a password, read by the
  case-insensitive names of the columns, at most 10,000, within the length limit and with an empty or
  http(s) address.\<close>

theorem csv_import_stores_a_prefix_of_the_rows:
  assumes "aead_laws P" and nonces: "\<forall>i n. nonces i = Some n \<longrightarrow> length n = NONCE_LEN"
    and parse: "parse_csv_rows C f s = (Inr rows, s)"
    and run: "import_csv P C ids nonces f admin key s = (r, s')"
  shows "(\<exists>new. same_but_audit (s\<lparr>secrets := secrets s @ new\<rparr>) s' \<and>
            (new \<noteq> [] \<longrightarrow> (\<exists>first_vault others vault_key opened.
               list_user_vaults admin s = (Inr (first_vault # others), s) \<and>
               open_vault P (vault_id first_vault) key s = (Inr vault_key, opened) \<and>
               list_all2 (imported P C vault_key (vault_id first_vault)) (take (length new) rows) new)) \<and>
            (case r of Inl _ \<Rightarrow> length new < length rows | Inr n \<Rightarrow> length new = length rows \<and> n = length rows)) \<and>
         length rows \<le> 10000 \<and> list_all (row_in_bounds C) rows \<and>
         (\<exists>headers recs n u l p t. csv_headers f = Some headers \<and> csv_records f = map Some recs \<and>
            column headers ''name'' = Inr n \<and> column headers ''url'' = Inr u \<and>
            column headers ''username'' = Inr l \<and> column headers ''password'' = Inr p \<and>
            column headers ''notes'' = Inr t \<and>
            rows = filter (\<lambda>r. csv_password r \<noteq> []) (map (row_of (n, u, l, p, t)) recs))"
proof -
  let ?count = "\<lambda>new :: secret_row list.
    case r of Inl _ \<Rightarrow> length new < length rows | Inr n \<Rightarrow> length new = length rows \<and> n = length rows"
  let ?store = "\<lambda>new. same_but_audit (s\<lparr>secrets := secrets s @ new\<rparr>) s' \<and>
    (new \<noteq> [] \<longrightarrow> (\<exists>v vs vk opened. list_user_vaults admin s = (Inr (v # vs), s) \<and>
       open_vault P (vault_id v) key s = (Inr vk, opened) \<and>
       list_all2 (imported P C vk (vault_id v)) (take (length new) rows) new)) \<and> ?count new"
  have none: "?store []" if "same_but_audit s s'" "rows \<noteq> []" "r = Inl e" for e
    using that by (simp add: same_but_audit_def)
  define rest where "rest = bindE (list_user_vaults admin) (\<lambda>vaults.
       bindE (ok_or (NotFound ''no vault found for csv import'')
                (case vaults of [] \<Rightarrow> None | v # _ \<Rightarrow> Some v)) (\<lambda>first_vault.
       bindE (open_vault P (vault_id first_vault) key) (\<lambda>vault_key.
       import_rows P C ids nonces (vault_id first_vault) vault_key rows 0)))"
  have split: "(if rows = [] then ret 0 else rest) s = (r, s')"
    using run unfolding import_csv_def bindE_ok [where m = "parse_csv_rows C f", OF parse] rest_def .
  have "\<exists>new. ?store new"
  proof (cases "rows = []")
    case True
    with split have "?store []" by (auto simp: ret_run same_but_audit_def)
    then show ?thesis by blast
  next
    case False
    obtain vr s1 where v: "list_user_vaults admin s = (vr, s1)" by (cases "list_user_vaults admin s")
    from reads_only_run [OF vault_service_reads(1) v] have [simp]: "s1 = s" .
    show ?thesis
    proof (cases "\<exists>e. r = Inl e \<and> same_but_audit s s'")
      case True
      with none False show ?thesis by blast
    next
      case failed: False
      have ran: "rest s = (r, s')" using split False by simp
      from failed ran v obtain v1 vs where vs: "vr = Inr (v1 # vs)"
        by (cases vr; cases "ok_of vr = Some []")
           (auto simp: rest_def bindE_run run_simps same_but_audit_def split: list.splits)
      obtain kr s2 where k: "open_vault P (vault_id v1) key s = (kr, s2)" by (cases "open_vault P (vault_id v1) key s")
      from open_vault_same [OF k] have same: "same_but_audit s s2" .
      from failed ran v vs k same obtain vk where vk: "kr = Inr vk"
        by (cases kr) (auto simp: rest_def bindE_run run_simps)
      have "import_rows P C ids nonces (vault_id v1) vk rows 0 s2 = (r, s')"
        using ran v vs k vk by (simp add: rest_def bindE_run run_simps)
      from import_rows_effect [OF assms(1) nonces this] obtain new where
        new: "same_but_audit (s2\<lparr>secrets := secrets s2 @ new\<rparr>) s'"
        "list_all2 (imported P C vk (vault_id v1)) (take (length new) rows) new"
        "case r of Inl _ \<Rightarrow> length new < length rows | Inr n \<Rightarrow> length new = length rows \<and> n = 0 + length rows"
        by blast
      have "same_but_audit (s\<lparr>secrets := secrets s @ new\<rparr>) s'"
        using new(1) same by (simp add: same_but_audit_def)
      then show ?thesis using new(2,3) v [unfolded vs] k [unfolded vk] unfolding add_0 by auto
    qed
  qed
  with parse_csv_rows_returns [OF parse] show ?thesis by auto
qed

end
