(* ===== verification/Import_Witnesses.thy ===== *)
theory Import_Witnesses
  imports Import_Properties Demo
begin

text \<open>An import of two rows into Ada's vault, the second of which draws an id that is taken.\<close>

definition demo_csv :: csv_file where
  "demo_csv = \<lparr> csv_size = Some 100, csv_opens = True,
     csv_headers = Some [''Name'', ''URL'', ''username'', ''password'', ''notes''],
     csv_records = [Some [''mail'', '''', ''ada'', '' secret '', ''''],
                    Some [''empty'', '''', '''', '''', ''''],
                    Some ['''', ''https://a'', ''ada'', ''other'', '''']] \<rparr>"

definition demo_import :: import_crates where
  "demo_import = \<lparr> url_scheme = (\<lambda>_. Some ''https''), csv_metadata_json = (\<lambda>_. Some ''{}'') \<rparr>"

definition demo_ids :: "nat \<Rightarrow> uuid" where
  "demo_ids i = (if i = 0 then 77 else 20)"

definition demo_rows :: "csv_row list" where
  "demo_rows =
     [\<lparr> csv_name = ''mail'', csv_url = '''', csv_username = ''ada'', csv_password = ''secret'', csv_notes = '''' \<rparr>,
      \<lparr> csv_name = '''', csv_url = ''https://a'', csv_username = ''ada'', csv_password = ''other'', csv_notes = '''' \<rparr>]"

lemma demo_parse: "fst (parse_csv_rows demo_import demo_csv demo_db) = Inr demo_rows"
  by code_simp

definition demo_imported :: "app_error + nat" where
  "demo_imported = fst (import_csv demo_P demo_import demo_ids (\<lambda>_. Some demo_nonce) demo_csv 1 ada_key demo_db)"

lemma demo_import_stops: "demo_imported = Inl (Database UniqueViolation)"
  by code_simp

definition demo_after :: db where
  "demo_after = snd (import_csv demo_P demo_import demo_ids (\<lambda>_. Some demo_nonce) demo_csv 1 ada_key demo_db)"

lemma demo_stored: "length (secrets demo_after) = 1 + length (secrets demo_db)"
  by code_simp

theorem csv_import_stores_a_prefix_of_the_rows_witness:
  "\<exists>x first_vault others vault_key opened. same_but_audit (demo_db\<lparr>secrets := secrets demo_db @ [x]\<rparr>) demo_after \<and>
     list_user_vaults 1 demo_db = (Inr (first_vault # others), demo_db) \<and>
     open_vault demo_P (vault_id first_vault) ada_key demo_db = (Inr vault_key, opened) \<and>
     imported demo_P demo_import vault_key (vault_id first_vault) (hd demo_rows) x"
proof -
  have "fst (parse_csv_rows demo_import demo_csv demo_db) = Inr demo_rows" by (rule demo_parse)
  then have "parse_csv_rows demo_import demo_csv demo_db =
      (Inr demo_rows, snd (parse_csv_rows demo_import demo_csv demo_db))"
    by (metis prod.collapse)
  with parse_csv_rows_returns have parse: "parse_csv_rows demo_import demo_csv demo_db = (Inr demo_rows, demo_db)"
    by metis
  have nonces: "\<forall>i n. Some demo_nonce = Some n \<longrightarrow> length n = NONCE_LEN"
    by (simp add: demo_nonce_def NONCE_LEN_def)
  have "import_csv demo_P demo_import demo_ids (\<lambda>_. Some demo_nonce) demo_csv 1 ada_key demo_db =
      (Inl (Database UniqueViolation), demo_after)"
    unfolding demo_after_def demo_import_stops [symmetric] demo_imported_def by simp
  from csv_import_stores_a_prefix_of_the_rows [OF demo_laws nonces parse this] obtain new where
    new: "same_but_audit (demo_db\<lparr>secrets := secrets demo_db @ new\<rparr>) demo_after"
      "new \<noteq> [] \<longrightarrow> (\<exists>first_vault others vault_key opened.
         list_user_vaults 1 demo_db = (Inr (first_vault # others), demo_db) \<and>
         open_vault demo_P (vault_id first_vault) ada_key demo_db = (Inr vault_key, opened) \<and>
         list_all2 (imported demo_P demo_import vault_key (vault_id first_vault)) (take (length new) demo_rows) new)"
    by blast
  have "length new = 1" using new(1) demo_stored by (simp add: same_but_audit_def)
  then obtain x where x: "new = [x]" by (auto simp: length_Suc_conv)
  with new show ?thesis by (auto simp: demo_rows_def)
qed

end
