(* ===== verification/License_Service.thy ===== *)
theory License_Service
  imports File_System Admin_Service Import_Service
begin

text \<open>
  \<open>services/license_service.rs\<close> and \<open>models/license.rs\<close>: loading and verifying a license, and the key
  that signs audit reports: where it is looked for, how it is created, read and used.  Ed25519, hex,
  base64 and the JSON and date parsers are the fields of \<open>license_crates\<close>; the process environment and
  the clock are arguments.  A parsed JSON object is a value of the type \<open>'j\<close> of the JSON crate.
\<close>

datatype license_tier = Community | Professional

record license =
  lic_id :: string
  customer_name :: string
  slots_count :: "32 word"
  expiration_date :: string
  features :: "string list"
  tier :: license_tier

datatype 'j license_payload = JsonString string | JsonObject 'j

record 'j signed_license_envelope =
  payload :: "'j license_payload"
  signature :: string

datatype audit_signing_error = LicenseRequired | MissingKey string | InvalidKey string

datatype audit_key_provisioning_outcome = Existing | Generated

record certification_status =
  is_certified_license :: bool
  signing_key_present :: bool
  signing_key_auto_generated :: bool

record 'j license_crates =
  envelope_from_json :: "string \<Rightarrow> 'j signed_license_envelope option"
  license_from_json :: "string \<Rightarrow> license option"
  license_from_value :: "'j \<Rightarrow> license option"
  value_to_json :: "'j \<Rightarrow> string option"
  hex_decode :: "string \<Rightarrow> bytes option"
  base64_decode :: "string \<Rightarrow> bytes option"
  base64_encode :: "bytes \<Rightarrow> string"
  verifying_key_ok :: "bytes \<Rightarrow> bool"
  signature_ok :: "bytes \<Rightarrow> bool"
  verify_strict :: "bytes \<Rightarrow> bytes \<Rightarrow> bytes \<Rightarrow> bool"
  ed25519_sign :: "bytes \<Rightarrow> bytes \<Rightarrow> bytes"
  rfc3339 :: "string \<Rightarrow> int option"

record environment =
  current_exe :: "string option"
  env_var :: "string \<Rightarrow> string option"
  config_dir :: "string option"

record license_state =
  cached_license :: "license option"
  audit_key_auto_generated :: bool
  lic_host :: host

type_synonym 'a licm = "license_state \<Rightarrow> (audit_signing_error + 'a) \<times> license_state"

definition LICENSE_SIGNING_PUBLIC_KEY :: string where
  "LICENSE_SIGNING_PUBLIC_KEY = ''0c00513e16abc701916dd3e8fbd9ae8cacd7f73f3cc09cfac12c91de2bd3177d''"

definition AUDIT_SIGNING_KEY_ENV :: string where "AUDIT_SIGNING_KEY_ENV = ''HEELONVAULT_AUDIT_SIGNING_KEY''"
definition AUDIT_SIGNING_KEY_PATH_ENV :: string where
  "AUDIT_SIGNING_KEY_PATH_ENV = ''HEELONVAULT_AUDIT_SIGNING_KEY_PATH''"
definition AUDIT_SIGNING_KEY_FILENAME :: string where "AUDIT_SIGNING_KEY_FILENAME = ''audit.key''"
definition LEGACY_AUDIT_SIGNING_KEY_FILENAME :: string where
  "LEGACY_AUDIT_SIGNING_KEY_FILENAME = ''audit-signing.key''"
definition AUTO_GENERATED_AUDIT_KEY_MARKER :: string where
  "AUTO_GENERATED_AUDIT_KEY_MARKER = ''# origin: auto-generated''"

section \<open>Text\<close>

text \<open>All white space out of a text.\<close>

function remove_white :: "string \<Rightarrow> string" where
  "remove_white s =
     (case s of
        [] \<Rightarrow> []
      | c # cs \<Rightarrow> (case take_prefix_of white_space s of Some r \<Rightarrow> remove_white r | None \<Rightarrow> c # remove_white cs))"
  by pat_completeness auto
termination remove_white
  by (relation "measure length") (auto dest: take_prefix_of_shorter)

declare remove_white.simps [simp del]

definition sanitize_hex_input :: "string \<Rightarrow> string" where
  "sanitize_hex_input input =
     (let trimmed = trim input in
      remove_white (if take 2 trimmed = ''0x'' \<or> take 2 trimmed = ''0X'' then drop 2 trimmed else trimmed))"

text \<open>\<open>str::lines\<close>: without the line feed and a carriage return before it; no line after a final one.\<close>

definition newline :: char where "newline = CHR 0x0A"

definition strip_cr :: "string \<Rightarrow> string" where
  "strip_cr l = (if l \<noteq> [] \<and> last l = CHR 0x0D then butlast l else l)"

function lines :: "string \<Rightarrow> string list" where
  "lines s =
     (if s = [] then []
      else if newline \<in> set s
      then strip_cr (takeWhile (\<lambda>c. c \<noteq> newline) s) # lines (drop 1 (dropWhile (\<lambda>c. c \<noteq> newline) s))
      else [s])"
  by pat_completeness auto
termination lines
proof (relation "measure length")
  fix s :: string assume "s \<noteq> []"
  then show "(drop 1 (dropWhile (\<lambda>c. c \<noteq> newline) s), s) \<in> measure length"
    using length_dropWhile_le [of "\<lambda>c. c \<noteq> newline" s] by (cases s) auto
qed simp

declare lines.simps [simp del]

section \<open>Paths\<close>

definition contains_text :: "string \<Rightarrow> string \<Rightarrow> bool" where
  "contains_text needle hay = list_ex (\<lambda>i. take (length needle) (drop i hay) = needle) [0..<Suc (length hay)]"

text \<open>\<open>PathBuf::from\<close>: the name after the last slash, and what is before it.\<close>

definition path_of :: "string \<Rightarrow> path" where
  "path_of s =
     (let name = rev (takeWhile (\<lambda>c. c \<noteq> CHR ''/'') (rev s));
          dir = take (length s - length name) s in
      Path (if dir = ''/'' then dir else butlast dir) name)"

definition nonempty_trimmed :: "string option \<Rightarrow> string option" where
  "nonempty_trimmed v =
     (case v of None \<Rightarrow> None | Some s \<Rightarrow> if trim s = [] then None else Some (trim s))"

text \<open>On Linux.\<close>

definition get_license_path :: "environment \<Rightarrow> path" where
  "get_license_path E =
     (let production = Path ''/etc/heelonvault'' ''license.hvl'' in
      case current_exe E of
        None \<Rightarrow> production
      | Some exe \<Rightarrow>
         if contains_text ''target/debug'' exe \<or> contains_text ''target/release'' exe
         then (case env_var E ''HOME'' of
                 None \<Rightarrow> production
               | Some home \<Rightarrow> Path (home @ ''/.config/heelonvault'') ''license.hvl'')
         else production)"

definition primary_audit_key_path :: "environment \<Rightarrow> path" where
  "primary_audit_key_path E =
     (case nonempty_trimmed (env_var E AUDIT_SIGNING_KEY_PATH_ENV) of
        Some p \<Rightarrow> path_of p
      | None \<Rightarrow>
         (case config_dir E of
            Some dir \<Rightarrow> Path (dir @ ''/heelonvault'') AUDIT_SIGNING_KEY_FILENAME
          | None \<Rightarrow>
             (case env_var E ''HOME'' of
                Some home \<Rightarrow> Path (home @ ''/.config/heelonvault'') AUDIT_SIGNING_KEY_FILENAME
              | None \<Rightarrow> Path '''' AUDIT_SIGNING_KEY_FILENAME)))"

definition legacy_audit_key_path :: "environment \<Rightarrow> path" where
  "legacy_audit_key_path E = Path (path_parent (get_license_path E)) LEGACY_AUDIT_SIGNING_KEY_FILENAME"

section \<open>The license\<close>

definition is_valid :: "'j license_crates \<Rightarrow> int \<Rightarrow> license \<Rightarrow> bool" where
  "is_valid C now l = (case rfc3339 C (expiration_date l) of None \<Rightarrow> False | Some t \<Rightarrow> now \<le> t)"

definition license_has_capacity :: "license \<Rightarrow> 32 word \<Rightarrow> bool" where
  "license_has_capacity l current_slots \<longleftrightarrow> current_slots < slots_count l"

definition create_community_license :: "string \<Rightarrow> license" where
  "create_community_license new_id =
     \<lparr> lic_id = new_id, customer_name = ''Community Edition'', slots_count = 1,
       expiration_date = ''9999-12-31T23:59:59Z'', features = [''audit_log''], tier = Community \<rparr>"

definition signature_bytes :: "'j license_crates \<Rightarrow> string \<Rightarrow> string + bytes" where
  "signature_bytes C sig =
     (case hex_decode C (sanitize_hex_input sig) of
        Some b \<Rightarrow> Inr b
      | None \<Rightarrow>
         (case base64_decode C sig of
            Some b \<Rightarrow> Inr b
          | None \<Rightarrow> Inl ''invalid signature format (hex/base64)''))"

definition signed_payload :: "'j license_crates \<Rightarrow> 'j license_payload \<Rightarrow> string + string \<times> license" where
  "signed_payload C p =
     (case p of
        JsonString raw \<Rightarrow>
          (case license_from_json C raw of
             None \<Rightarrow> Inl ''invalid license payload JSON''
           | Some l \<Rightarrow> Inr (raw, l))
      | JsonObject v \<Rightarrow>
          (case value_to_json C v of
             None \<Rightarrow> Inl ''invalid embedded payload JSON''
           | Some j \<Rightarrow>
              (case license_from_value C v of
                 None \<Rightarrow> Inl ''invalid embedded license payload''
               | Some l \<Rightarrow> Inr (j, l))))"

definition verify_and_parse_license :: "'j license_crates \<Rightarrow> int \<Rightarrow> string \<Rightarrow> 's \<Rightarrow> (string + license) \<times> 's" where
  "verify_and_parse_license C now signed_content =
     bindE (ok_or ''invalid license JSON format'' (envelope_from_json C signed_content)) (\<lambda>signed.
     bindE (lift_result (signed_payload C (payload signed))) (\<lambda>(payload_to_verify, l).
     bindE (ok_or ''invalid public key format'' (hex_decode C (sanitize_hex_input LICENSE_SIGNING_PUBLIC_KEY))) (\<lambda>pubkey.
     bindE (require (length pubkey = 32) ''invalid public key format'') (\<lambda>_.
     bindE (require (verifying_key_ok C pubkey) ''failed to construct verifying key'') (\<lambda>_.
     bindE (lift_result (signature_bytes C (signature signed))) (\<lambda>sig.
     bindE (require (length sig = 64) ''invalid signature length'') (\<lambda>_.
     bindE (require (signature_ok C sig) ''failed to parse signature'') (\<lambda>_.
     bindE (require (verify_strict C pubkey (str_bytes payload_to_verify) sig)
              ''signature verification failed'') (\<lambda>_.
     bindE (require (is_valid C now l) ''license has expired'') (\<lambda>_.
     ret l))))))))))"

section \<open>The audit signing key\<close>

definition on_host :: "'a iom \<Rightarrow> (app_error, license_state, 'a) act" where
  "on_host = zoom lic_host (\<lambda>h w. w\<lparr>lic_host := h\<rparr>)"

definition map_err :: "('e \<Rightarrow> 'f) \<Rightarrow> ('e, 's, 'a) act \<Rightarrow> ('f, 's, 'a) act" where
  "map_err f m = (\<lambda>s. case m s of (Inl e, s') \<Rightarrow> (Inl (f e), s') | (Inr x, s') \<Rightarrow> (Inr x, s'))"

text \<open>\<open>match call\<close> and \<open>let _ = call\<close>, where the error type of the call is not the caller's.\<close>

definition caught :: "('e, 's, 'a) act \<Rightarrow> ('f, 's, 'e + 'a) act" where
  "caught m = (\<lambda>s. case m s of (r, s') \<Rightarrow> (Inr r, s'))"

definition discard :: "('e, 's, 'a) act \<Rightarrow> ('f, 's, unit) act" where
  "discard m = (\<lambda>s. (Inr (), snd (m s)))"

definition read_to_string :: "path \<Rightarrow> string iom" where
  "read_to_string p =
     bindE (fs_read p) (\<lambda>b.
     bindE (require (valid_utf8 b) (Io ''stream did not contain valid UTF-8'')) (\<lambda>_. ret (bytes_str b)))"

text \<open>The first line that is neither empty nor a comment; a comment may mark the key as generated.\<close>

fun scan_audit_key :: "string list \<Rightarrow> bool \<Rightarrow> string option \<times> bool" where
  "scan_audit_key [] auto = (None, auto)"
| "scan_audit_key (l # ls) auto =
     (let trimmed = trim l in
      if trimmed = [] then scan_audit_key ls auto
      else if hd trimmed = CHR ''#''
      then scan_audit_key ls (auto \<or> eq_ignore_ascii_case trimmed AUTO_GENERATED_AUDIT_KEY_MARKER)
      else (Some trimmed, auto))"

definition parse_audit_key_file :: "string \<Rightarrow> audit_signing_error + string \<times> bool" where
  "parse_audit_key_file text_content =
     (case scan_audit_key (lines text_content) False of
        (Some key, auto) \<Rightarrow> Inr (key, auto)
      | (None, _) \<Rightarrow> Inl (MissingKey ''audit signing key file is empty''))"

definition unreadable :: "app_error \<Rightarrow> audit_signing_error" where
  "unreadable e = InvalidKey ''unable to read audit signing key''"

definition key_file :: "path \<Rightarrow> (string \<times> bool) option licm" where
  "key_file p =
     bindE (map_err unreadable (on_host (read_to_string p))) (\<lambda>c.
     bindE (lift_result (parse_audit_key_file c)) (\<lambda>k. ret (Some k)))"

definition find_existing_audit_key_file :: "environment \<Rightarrow> (string \<times> bool) option licm" where
  "find_existing_audit_key_file E =
     bindE (map_err unreadable (on_host (fs_exists (primary_audit_key_path E)))) (\<lambda>present.
     if present then key_file (primary_audit_key_path E)
     else if nonempty_trimmed (env_var E AUDIT_SIGNING_KEY_PATH_ENV) \<noteq> None then ret None
     else
       bindE (map_err unreadable (on_host (fs_exists (legacy_audit_key_path E)))) (\<lambda>legacy.
       if legacy then key_file (legacy_audit_key_path E) else ret None))"

definition set_auto_generated :: "bool \<Rightarrow> unit licm" where
  "set_auto_generated b = modify (\<lambda>w. w\<lparr>audit_key_auto_generated := b\<rparr>)"

definition has_certified_license :: "license_state \<Rightarrow> bool" where
  "has_certified_license w = (case cached_license w of None \<Rightarrow> False | Some l \<Rightarrow> tier l = Professional)"

definition audit_key_text :: "'j license_crates \<Rightarrow> bytes \<Rightarrow> string" where
  "audit_key_text C seed =
     ''# HeelonVault audit signing key'' @ [newline] @ AUTO_GENERATED_AUDIT_KEY_MARKER @ [newline] @
     base64_encode C seed @ [newline]"

text \<open>The end of \<open>ensure_audit_key_exists\<close>: creating the file, and writing it.\<close>

definition existing_key :: "environment \<Rightarrow> (unit \<Rightarrow> audit_key_provisioning_outcome licm) \<Rightarrow> audit_key_provisioning_outcome licm" where
  "existing_key E otherwise =
     bindE (find_existing_audit_key_file E) (\<lambda>found.
     case found of
       Some (_, auto) \<Rightarrow> bindE (set_auto_generated auto) (\<lambda>_. ret Existing)
     | None \<Rightarrow> otherwise ())"

definition create_audit_key :: "'j license_crates \<Rightarrow> environment \<Rightarrow> path \<Rightarrow> bytes \<Rightarrow> audit_key_provisioning_outcome licm" where
  "create_audit_key C E target seed =
     bindE (caught (on_host (fs_create_new target))) (\<lambda>created.
     case created of
       Inr _ \<Rightarrow>
         bindE (discard (on_host (set_owner_only_file_permissions target))) (\<lambda>_.
         bindE (map_err (\<lambda>_. InvalidKey ''unable to write audit signing key'')
                  (on_host (fs_write target (str_bytes (audit_key_text C seed))))) (\<lambda>_.
         bindE (set_auto_generated True) (\<lambda>_. ret Generated)))
     | Inl e \<Rightarrow>
         if e = already_exists
         then existing_key E (\<lambda>_. fail (MissingKey ''audit signing key creation raced and no readable key was found''))
         else fail (InvalidKey ''unable to create audit signing key''))"

definition ensure_audit_key_exists ::
  "'j license_crates \<Rightarrow> environment \<Rightarrow> bytes option \<Rightarrow> audit_key_provisioning_outcome licm" where
  "ensure_audit_key_exists C E seed_rnd =
     bindE (gets has_certified_license) (\<lambda>certified.
     bindE (require certified LicenseRequired) (\<lambda>_.
     if nonempty_trimmed (env_var E AUDIT_SIGNING_KEY_ENV) \<noteq> None
     then bindE (set_auto_generated False) (\<lambda>_. ret Existing)
     else existing_key E (\<lambda>_.
       let target = primary_audit_key_path E in
       bindE (map_err (\<lambda>_. InvalidKey ''unable to create audit signing key directory'')
                (on_host (permitted (OpCreateDir (path_parent target))))) (\<lambda>_.
       bindE (discard (on_host (permitted (OpSetMode (Path (path_parent target) ''''))))) (\<lambda>_.
       bindE (ok_or (InvalidKey ''unable to generate audit signing key material'') seed_rnd) (\<lambda>seed.
       create_audit_key C E target seed))))))"

definition resolve_audit_signing_key_material :: "environment \<Rightarrow> string licm" where
  "resolve_audit_signing_key_material E =
     (case nonempty_trimmed (env_var E AUDIT_SIGNING_KEY_ENV) of
        Some key \<Rightarrow> ret key
      | None \<Rightarrow>
         bindE (find_existing_audit_key_file E) (\<lambda>found.
         case found of
           Some (key, auto) \<Rightarrow> bindE (set_auto_generated auto) (\<lambda>_. ret key)
         | None \<Rightarrow> fail (MissingKey ''audit signing key not found'')))"

definition decode_key_material :: "'j license_crates \<Rightarrow> string \<Rightarrow> string + bytes" where
  "decode_key_material C input =
     (let hex = sanitize_hex_input input; as_base64 =
            (case base64_decode C (trim input) of None \<Rightarrow> Inl ''invalid signing key format'' | Some b \<Rightarrow> Inr b) in
      if even (length hex)
      then (case hex_decode C hex of Some b \<Rightarrow> Inr b | None \<Rightarrow> as_base64)
      else as_base64)"

definition sign_audit_hash :: "'j license_crates \<Rightarrow> environment \<Rightarrow> bytes option \<Rightarrow> bytes \<Rightarrow> string licm" where
  "sign_audit_hash C E seed_rnd h =
     bindE (gets cached_license) (\<lambda>l_opt.
     bindE (ok_or LicenseRequired l_opt) (\<lambda>l.
     bindE (require (tier l \<noteq> Community) LicenseRequired) (\<lambda>_.
     bindE (ensure_audit_key_exists C E seed_rnd) (\<lambda>_.
     bindE (resolve_audit_signing_key_material E) (\<lambda>raw.
     bindE (map_err InvalidKey (lift_result (decode_key_material C raw))) (\<lambda>key_bytes.
     bindE (require (length key_bytes = 32 \<or> length key_bytes = 64) (InvalidKey ''invalid signing key length'')) (\<lambda>_.
     ret (base64_encode C (ed25519_sign C (take 32 key_bytes) h)))))))))"

definition is_audit_key_auto_generated :: "environment \<Rightarrow> (audit_signing_error, license_state, bool) act" where
  "is_audit_key_auto_generated E =
     bindE (gets audit_key_auto_generated) (\<lambda>flag.
     if flag then ret True
     else bindE (caught (find_existing_audit_key_file E)) (\<lambda>found.
       ret (case found of Inr (Some (_, auto)) \<Rightarrow> auto | _ \<Rightarrow> False)))"

definition audit_certification_status :: "environment \<Rightarrow> certification_status licm" where
  "audit_certification_status E =
     bindE (caught (resolve_audit_signing_key_material E)) (\<lambda>material.
     let present = (case material of Inr _ \<Rightarrow> True | Inl _ \<Rightarrow> False) in
     bindE (gets has_certified_license) (\<lambda>certified.
     bindE (if present then is_audit_key_auto_generated E else ret False) (\<lambda>auto.
     ret \<lparr> is_certified_license = certified, signing_key_present = present,
           signing_key_auto_generated = auto \<rparr>)))"

definition license_service_has_capacity :: "license_state \<Rightarrow> 32 word \<Rightarrow> bool" where
  "license_service_has_capacity w slots =
     (case cached_license w of None \<Rightarrow> True | Some l \<Rightarrow> license_has_capacity l slots)"

definition load_license ::
  "'j license_crates \<Rightarrow> environment \<Rightarrow> int \<Rightarrow> string \<Rightarrow> bytes option \<Rightarrow> license licm" where
  "load_license C E now new_id seed_rnd =
     bindE (gets cached_license) (\<lambda>cached_opt.
     case cached_opt of
       Some cached \<Rightarrow> ret cached
     | None \<Rightarrow>
         bindE (caught (on_host (read_to_string (get_license_path E)))) (\<lambda>file_text.
         bindE (caught (case file_text of
                   Inl _ \<Rightarrow> fail ''no license file''
                 | Inr c \<Rightarrow> verify_and_parse_license C now c)) (\<lambda>verified.
         case verified of
           Inr l \<Rightarrow>
             bindE (modify (\<lambda>w. w\<lparr>cached_license := Some l\<rparr>)) (\<lambda>_.
             bindE (if tier l = Professional then discard (ensure_audit_key_exists C E seed_rnd) else ret ()) (\<lambda>_.
             ret l))
         | Inl _ \<Rightarrow>
             let community = create_community_license new_id in
             bindE (modify (\<lambda>w. w\<lparr>cached_license := Some community\<rparr>)) (\<lambda>_. ret community))))"

end
