(* ===== verification/License_Properties.thy ===== *)
theory License_Properties
  imports License_Service
begin

text \<open>
  Licenses come from a verified signature or are the community one; provisioning the key of the
  audit signatures never touches a file that exists, and a generated key signs from then on.
\<close>

section \<open>Running on the host\<close>

interpretation lic_host: state_part lic_host "\<lambda>h w. w\<lparr>lic_host := h\<rparr>"
  by unfold_locales simp_all

lemma caught_run [run_simps]: "caught m s = (Inr (fst (m s)), snd (m s))"
  by (simp add: caught_def split: prod.split)

lemma discard_run [run_simps]: "discard m s = (Inr (), snd (m s))"
  by (simp add: discard_def)

lemma map_err_returns: "map_err f m s = (Inr x, s') \<longleftrightarrow> m s = (Inr x, s')"
  by (auto simp: map_err_def split: prod.splits sum.splits)

lemma map_err_ok: "m s = (Inr x, s') \<Longrightarrow> map_err f m s = (Inr x, s')"
  by (simp add: map_err_returns)

lemma on_host_returns: "on_host m w = (r, w') \<longleftrightarrow> (\<exists>h. m (lic_host w) = (r, h) \<and> w' = w\<lparr>lic_host := h\<rparr>)"
  unfolding on_host_def by (rule lic_host.zoom_returns)

lemma on_host_run: "m (lic_host w) = (r, h) \<Longrightarrow> on_host m w = (r, w\<lparr>lic_host := h\<rparr>)"
  unfolding on_host_def by (rule lic_host.zoom_run)

text \<open>Files that exist are kept, the license and the oracle too.\<close>

definition no_file_lost :: "license_state \<Rightarrow> license_state \<Rightarrow> bool" where
  "no_file_lost w w' \<longleftrightarrow> (\<forall>p f. files (lic_host w) p = Some f \<longrightarrow> files (lic_host w') p = Some f)"

interpretation nfl: step_order no_file_lost
  by unfold_locales (auto simp: no_file_lost_def)

lemma moves_caught: "moves R m \<Longrightarrow> moves R (caught m)" "moves R m \<Longrightarrow> moves R (discard m)"
  "moves R m \<Longrightarrow> moves R (map_err f m)"
  by (auto simp: moves_def run_simps map_err_def split: prod.split sum.split) (metis snd_conv)+

definition host_touches :: "path set \<Rightarrow> license_state \<Rightarrow> license_state \<Rightarrow> bool" where
  "host_touches X w w' \<longleftrightarrow> touches X (lic_host w) (lic_host w') \<and> cached_license w' = cached_license w"

interpretation ht: step_order "host_touches X"
  by unfold_locales (auto simp: host_touches_def intro: disk.R_refl disk.R_trans)

lemma ht_host: "moves (touches X) m \<Longrightarrow> moves (host_touches X) (on_host m)"
  by (auto simp: moves_def on_host_def zoom_def host_touches_def split: prod.split) (metis snd_conv)

lemma ht_auto: "moves (host_touches X) (set_auto_generated b)"
  by (simp add: moves_def set_auto_generated_def run_simps host_touches_def disk.R_refl)

lemmas ht_intros =
  ht.moves_bindE ht.moves_pure ht.moves_cond ht.moves_option ht.moves_sum ht.moves_pair
  moves_caught ht_host ht_auto

lemma nfl_modify: "(\<And>w. lic_host (f w) = lic_host w) \<Longrightarrow> moves no_file_lost (modify f)"
  by (simp add: moves_def run_simps no_file_lost_def)

lemma nfl_host: "moves (touches {}) m \<Longrightarrow> moves no_file_lost (on_host m)"
  by (auto simp: moves_def on_host_def zoom_def no_file_lost_def touches_def split: prod.split)
     (metis snd_conv)

lemmas nfl_intros =
  nfl.moves_bindE nfl.moves_pure nfl.moves_cond nfl.moves_option nfl.moves_sum nfl.moves_pair
  moves_caught nfl_modify nfl_host touches_permitted touches_exists

lemma nfl_read: "moves no_file_lost (on_host (read_to_string p))"
  by (rule nfl_host) (simp add: read_to_string_def disk_steps)

lemma nfl_auto: "moves no_file_lost (set_auto_generated b)"
  unfolding set_auto_generated_def by (rule nfl_modify) simp

lemma nfl_find: "moves no_file_lost (find_existing_audit_key_file E)"
  unfolding find_existing_audit_key_file_def key_file_def by (intro nfl_intros nfl_read)

lemma nfl_existing: "(\<And>u. moves no_file_lost (m u)) \<Longrightarrow> moves no_file_lost (existing_key E m)"
  unfolding existing_key_def by (intro nfl_intros nfl_find nfl_auto)

lemma nfl_resolve: "moves no_file_lost (resolve_audit_signing_key_material E)"
  unfolding resolve_audit_signing_key_material_def by (intro nfl_intros nfl_find nfl_auto)

text \<open>The file is written only when this very call has created it.\<close>

lemma nfl_create: "moves no_file_lost (create_audit_key C E target seed)"
  unfolding moves_def
proof
  fix w
  define w1 where "w1 = snd (on_host (fs_create_new target) w)"
  let ?rest = "bindE (discard (on_host (set_owner_only_file_permissions target))) (\<lambda>_.
     bindE (map_err (\<lambda>_. InvalidKey ''unable to write audit signing key'')
              (on_host (fs_write target (str_bytes (audit_key_text C seed))))) (\<lambda>_.
     bindE (set_auto_generated True) (\<lambda>_. ret Generated)))"
  have created: "moves (touches {target}) (fs_create_new target)" by (intro disk_steps) simp
  show "no_file_lost w (snd (create_audit_key C E target seed w))"
  proof (cases "fst (on_host (fs_create_new target) w)")
    case (Inl e)
    have "no_file_lost w w1"
      using Inl unfolding w1_def on_host_def zoom_def fs_create_new_def permitted_def fs_attempt_def
      by (auto simp: bindE_run run_simps no_file_lost_def split: if_splits)
    moreover have "no_file_lost w1 (snd ((if e = already_exists
         then existing_key E (\<lambda>_. fail (MissingKey ''audit signing key creation raced and no readable key was found''))
         else fail (InvalidKey ''unable to create audit signing key'')) w1))"
      using nfl_existing [of "\<lambda>_. fail _" E] nfl.moves_pure(2) unfolding moves_def
      by (auto simp: run_simps nfl.R_refl)
    ultimately show ?thesis
      using Inl unfolding create_audit_key_def
      by (auto simp: bindE_run caught_run w1_def intro: nfl.R_trans)
  next
    case (Inr u)
    then have free: "files (lic_host w) target = None"
      unfolding on_host_def zoom_def fs_create_new_def permitted_def fs_attempt_def
      by (auto simp: bindE_run run_simps split: if_splits prod.splits)
    have "touches {target} (lic_host w) (lic_host w1)"
      using created unfolding w1_def on_host_def zoom_def moves_def by (auto split: prod.split) (metis snd_conv)
    moreover have "moves (host_touches {target}) ?rest"
      by (intro ht_intros touches_chmod touches_write) simp_all
    then have "touches {target} (lic_host w1) (lic_host (snd (?rest w1)))"
      by (simp add: moves_def host_touches_def)
    ultimately have "touches {target} (lic_host w) (lic_host (snd (?rest w1)))" by (rule disk.R_trans)
    then have "no_file_lost w (snd (?rest w1))"
      using free unfolding no_file_lost_def touches_def by (metis option.distinct(1) singletonD)
    then show ?thesis
      using Inr unfolding create_audit_key_def by (simp add: bindE_run caught_run w1_def)
  qed
qed

lemma nfl_ensure: "moves no_file_lost (ensure_audit_key_exists C E seed_rnd)"
  unfolding ensure_audit_key_exists_def Let_def
  by (intro nfl_intros nfl_auto nfl_existing nfl_create)

text \<open>Looking for, creating, reading or using the key of the audit signatures, and loading the license, never
  change or remove a file that exists: every file is afterwards what it was, whatever operation fails.
  In particular a key that signed a report is never replaced by a new one.\<close>

theorem audit_key_provisioning_keeps_every_file:
  assumes "call = (\<lambda>w. snd (ensure_audit_key_exists C E seed_rnd w)) \<or>
           call = (\<lambda>w. snd (sign_audit_hash C E seed_rnd h w)) \<or>
           call = (\<lambda>w. snd (audit_certification_status E w)) \<or>
           call = (\<lambda>w. snd (load_license C E now new_id seed_rnd w))"
    and "files (lic_host w) p = Some f"
  shows "files (lic_host (call w)) p = Some f"
proof -
  have auto: "moves no_file_lost (is_audit_key_auto_generated E)"
    unfolding is_audit_key_auto_generated_def by (intro nfl_intros nfl_find)
  have "moves no_file_lost (sign_audit_hash C E seed_rnd h)"
    unfolding sign_audit_hash_def by (intro nfl_intros nfl_ensure nfl_resolve)
  moreover have "moves no_file_lost (audit_certification_status E)"
    unfolding audit_certification_status_def Let_def by (intro nfl_intros nfl_resolve auto)
  moreover have "moves no_file_lost (verify_and_parse_license C now c)" for c
    unfolding verify_and_parse_license_def by (intro nfl_intros)
  then have "moves no_file_lost (load_license C E now new_id seed_rnd)"
    unfolding load_license_def Let_def
    by (intro nfl_intros nfl_ensure nfl_read) simp_all
  ultimately have "no_file_lost w (call w)"
    using assms(1) nfl_ensure [of C E seed_rnd] unfolding moves_def by auto
  with assms(2) show ?thesis by (simp add: no_file_lost_def)
qed

section \<open>Licenses\<close>

definition genuine :: "'j license_crates \<Rightarrow> int \<Rightarrow> string \<Rightarrow> license \<Rightarrow> bool" where
  "genuine C now c l \<longleftrightarrow>
     (\<exists>env raw pk sig. envelope_from_json C c = Some env \<and> signed_payload C (payload env) = Inr (raw, l) \<and>
        hex_decode C (sanitize_hex_input LICENSE_SIGNING_PUBLIC_KEY) = Some pk \<and> length pk = 32 \<and>
        verifying_key_ok C pk \<and> signature_bytes C (signature env) = Inr sig \<and> length sig = 64 \<and>
        signature_ok C sig \<and> verify_strict C pk (str_bytes raw) sig \<and> is_valid C now l)"

lemma license_verify_returns: "verify_and_parse_license C now c s = (Inr l, s') \<longleftrightarrow> genuine C now c l \<and> s' = s"
  unfolding verify_and_parse_license_def genuine_def by (auto simp: returns_iff split: prod.splits)

lemma read_to_string_returns:
  "read_to_string p h = (Inr c, h') \<longleftrightarrow>
     (\<exists>b. fs_read p h = (Inr b, h') \<and> valid_utf8 b \<and> c = bytes_str b)"
  unfolding read_to_string_def by (auto simp: returns_iff)

lemma ht_existing:
  "(\<And>u. moves (host_touches X) (m u)) \<Longrightarrow> moves (host_touches X) (existing_key E m)"
  unfolding existing_key_def find_existing_audit_key_file_def key_file_def read_to_string_def
  by (intro ht_intros disk_steps)

text \<open>Provisioning leaves the remembered license alone.\<close>

lemma ht_ensure: "moves (host_touches UNIV) (ensure_audit_key_exists C E seed_rnd)"
  unfolding ensure_audit_key_exists_def create_audit_key_def Let_def
  by (intro ht_intros ht_existing disk_steps UNIV_I)

text \<open>C39. Loading the license never fails, and what it returns is remembered: it is the community license unless the
  license file of the platform was read as UTF-8 text and holds a payload with a 64-byte signature that
  the built-in public key verifies, and a license that has not expired at the time of the call.
  A genuine license that could be read is returned.  From then on every call returns the same license, at
  any time and whatever the file holds: its expiry is not looked at again.\<close>

theorem licenses_are_signed_or_community:
  assumes "cached_license w = None"
  shows "\<exists>l w'. load_license C E now new_id seed_rnd w = (Inr l, w') \<and> cached_license w' = Some l \<and>
           (l = create_community_license new_id \<or>
            (\<exists>f. files (lic_host w) (get_license_path E) = Some f \<and> valid_utf8 (content f) \<and>
                 genuine C now (bytes_str (content f)) l)) \<and>
           (\<forall>b h. fs_read (get_license_path E) (lic_host w) = (Inr b, h) \<longrightarrow> valid_utf8 b \<longrightarrow>
              (\<exists>l'. genuine C now (bytes_str b) l') \<longrightarrow> genuine C now (bytes_str b) l) \<and>
           (\<forall>C' E' now' id' rnd' v. cached_license v = Some l \<longrightarrow>
              load_license C' E' now' id' rnd' v = (Inr l, v))"
proof -
  let ?read = "on_host (read_to_string (get_license_path E))"
  obtain fr w1 where fr: "?read w = (fr, w1)" by (cases "?read w")
  define verify :: "license_state \<Rightarrow> (string + license) \<times> license_state" where "verify = (case fr of Inl _ \<Rightarrow> fail ''no license file''
    | Inr c \<Rightarrow> verify_and_parse_license C now c)"
  obtain vr w2 where vr: "verify w1 = (vr, w2)" by (cases "verify w1")
  have again: "load_license C' E' now' id' rnd' v = (Inr l, v)" if "cached_license v = Some l" for C' E' now' id' rnd' v l
    using that by (simp add: load_license_def bindE_run run_simps)
  have from_file: "\<exists>f. files (lic_host w) (get_license_path E) = Some f \<and> valid_utf8 (content f) \<and>
      genuine C now (bytes_str (content f)) l" if "vr = Inr l" for l
    using that vr fr unfolding verify_def
    by (auto simp: run_simps on_host_returns read_to_string_returns fs_read_returns license_verify_returns
        split: sum.splits)
  have complete: "\<exists>l. vr = Inr l \<and> genuine C now (bytes_str b) l"
    if "fs_read (get_license_path E) (lic_host w) = (Inr b, h)" "valid_utf8 b" "genuine C now (bytes_str b) l'" for b h l'
  proof -
    from that(1,2) have "fr = Inr (bytes_str b)"
      using fr by (auto simp: on_host_returns read_to_string_def bindE_run run_simps)
    with that(3) vr license_verify_returns [of C now "bytes_str b" w1] show ?thesis
      by (cases vr) (auto simp: verify_def)
  qed
  show ?thesis
  proof (cases vr)
    case (Inl e)
    then have "load_license C E now new_id seed_rnd w =
        (Inr (create_community_license new_id), w2\<lparr>cached_license := Some (create_community_license new_id)\<rparr>)"
      using assms fr vr by (simp add: load_license_def bindE_run run_simps verify_def Let_def)
    with again complete Inl show ?thesis by fastforce
  next
    case (Inr l)
    let ?w3 = "w2\<lparr>cached_license := Some l\<rparr>"
    have "cached_license (snd (ensure_audit_key_exists C E seed_rnd ?w3)) = Some l"
      using ht_ensure [of C E seed_rnd] by (simp add: moves_def host_touches_def)
    moreover have "load_license C E now new_id seed_rnd w =
        (Inr l, if tier l = Professional then snd (ensure_audit_key_exists C E seed_rnd ?w3) else ?w3)"
      using assms fr vr Inr by (simp add: load_license_def bindE_run run_simps verify_def)
    ultimately show ?thesis using again complete from_file [OF Inr] Inr by (auto split: if_splits)
  qed
qed

section \<open>The key file reads back\<close>

definition graphic :: "char \<Rightarrow> bool" where
  "graphic c \<longleftrightarrow> 33 \<le> (of_char c :: nat) \<and> (of_char c :: nat) \<le> 126"

lemma white_not_graphic: "list_all (\<lambda>p. p \<noteq> [] \<and> \<not> graphic (hd p) \<and> \<not> graphic (last p)) white_space"
  by code_simp

lemma no_prefix:
  assumes "list_all (\<lambda>p. p \<noteq> [] \<and> \<not> graphic (hd p)) ps" and "s = [] \<or> graphic (hd s)"
  shows "take_prefix_of ps s = None"
proof -
  have "\<not> (p \<noteq> [] \<and> take (length p) s = p)" if "p \<in> set ps" for p
  proof
    assume p: "p \<noteq> [] \<and> take (length p) s = p"
    then have "s \<noteq> []" by auto
    moreover have "hd p = hd s" using p by (metis hd_take length_greater_0_conv)
    moreover have "\<not> graphic (hd p)" using assms(1) that by (simp add: list_all_iff)
    ultimately show False using assms(2) by simp
  qed
  then show ?thesis by (auto simp: take_prefix_of_def find_None_iff)
qed

lemma strip_none: "take_prefix_of ps s = None \<Longrightarrow> strip_prefixes ps s = s"
  by (subst strip_prefixes.simps) simp

lemma trim_graphic:
  assumes "s \<noteq> []" and "graphic (hd s)" and "graphic (last s)"
  shows "trim s = s"
proof -
  have ws: "list_all (\<lambda>p. p \<noteq> [] \<and> \<not> graphic (hd p)) white_space"
    "list_all (\<lambda>p. p \<noteq> [] \<and> \<not> graphic (hd p)) (map rev white_space)"
    using white_not_graphic by (auto simp: list_all_iff hd_rev)
  have "trim_start s = s" unfolding trim_start_def using assms by (intro strip_none no_prefix [OF ws(1)]) simp
  moreover have "strip_prefixes (map rev white_space) (rev s) = rev s"
    using assms by (intro strip_none no_prefix [OF ws(2)]) (simp add: hd_rev)
  ultimately show ?thesis by (simp add: trim_def trim_end_def)
qed

lemma remove_white_graphic: "list_all graphic s \<Longrightarrow> remove_white s = s"
proof (induction s)
  case Nil
  show ?case by (subst remove_white.simps) simp
next
  case (Cons c s)
  have "list_all (\<lambda>p. p \<noteq> [] \<and> \<not> graphic (hd p)) white_space"
    using white_not_graphic by (simp add: list_all_iff)
  with Cons have "take_prefix_of white_space (c # s) = None" by (intro no_prefix) simp_all
  with Cons show ?case by (subst remove_white.simps) simp
qed

lemma lines_step:
  assumes "newline \<notin> set a" and "a = [] \<or> last a \<noteq> CHR 0x0D"
  shows "lines (a @ newline # rest) = a # lines rest"
proof -
  have "\<forall>c\<in>set a. c \<noteq> newline" using assms(1) by metis
  then have "takeWhile (\<lambda>c. c \<noteq> newline) (a @ newline # rest) = a"
    "dropWhile (\<lambda>c. c \<noteq> newline) (a @ newline # rest) = newline # rest" by simp_all
  with assms(2) show ?thesis by (subst lines.simps) (auto simp: strip_cr_def)
qed

text \<open>What the hex and base64 crates document: base64 inverts, its text is over its alphabet, padded with an
  equals sign unless the length is a multiple of three; hex decoding takes no such sign.\<close>

definition base64_char :: "char \<Rightarrow> bool" where
  "base64_char c \<longleftrightarrow> graphic c \<and> c \<noteq> CHR ''#''"

definition key_codec_laws :: "'j license_crates \<Rightarrow> bool" where
  "key_codec_laws C \<longleftrightarrow>
     (\<forall>b. base64_decode C (base64_encode C b) = Some b \<and> list_all base64_char (base64_encode C b)) \<and>
     (\<forall>b. length b mod 3 \<noteq> 0 \<longrightarrow> CHR ''='' \<in> set (base64_encode C b)) \<and>
     (\<forall>s b. hex_decode C s = Some b \<longrightarrow> CHR ''='' \<notin> set s)"

lemma key_text:
  assumes "key_codec_laws C" and "length seed = 32"
  shows "trim (base64_encode C seed) = base64_encode C seed" and "base64_encode C seed \<noteq> []"
    and "hd (base64_encode C seed) \<noteq> CHR ''#''" and "list_all graphic (base64_encode C seed)"
    and "CHR ''='' \<in> set (base64_encode C seed)" and "base64_decode C (base64_encode C seed) = Some seed"
proof -
  let ?k = "base64_encode C seed"
  have all: "list_all base64_char ?k" and pad: "CHR ''='' \<in> set ?k"
    using assms unfolding key_codec_laws_def by auto
  then have ne: "?k \<noteq> []" by auto
  from all ne have "base64_char (hd ?k)" "base64_char (last ?k)" by (simp_all add: list_all_iff)
  then show "trim ?k = ?k" "hd ?k \<noteq> CHR ''#''" using ne by (auto simp: base64_char_def intro: trim_graphic)
  show "list_all graphic ?k" using all by (auto simp: base64_char_def list_all_iff)
  show "?k \<noteq> []" "CHR ''='' \<in> set ?k" by (fact ne, fact pad)
  show "base64_decode C ?k = Some seed" using assms(1) by (simp add: key_codec_laws_def)
qed

lemma generated_key_decodes:
  assumes "key_codec_laws C" and "length seed = 32"
  shows "decode_key_material C (base64_encode C seed) = Inr seed"
proof -
  let ?k = "base64_encode C seed"
  note k = key_text [OF assms]
  define t where "t = (if take 2 ?k = ''0x'' \<or> take 2 ?k = ''0X'' then drop 2 ?k else ?k)"
  have "set ?k = set (take 2 ?k) \<union> set (drop 2 ?k)" by (metis append_take_drop_id set_append)
  with k(5) have "CHR ''='' \<in> set t" by (auto simp: t_def)
  moreover have "list_all graphic t" using k(4) by (auto simp: t_def list_all_iff dest: in_set_dropD)
  then have "sanitize_hex_input ?k = t"
    unfolding sanitize_hex_input_def k(1) Let_def t_def [symmetric] by (rule remove_white_graphic)
  ultimately have "hex_decode C (sanitize_hex_input ?k) = None"
    using assms(1) unfolding key_codec_laws_def by (metis option.exhaust)
  then show ?thesis by (simp add: decode_key_material_def Let_def k)
qed

lemma generated_file_parses:
  assumes "key_codec_laws C" and "length seed = 32"
  shows "parse_audit_key_file (audit_key_text C seed) = Inr (base64_encode C seed, True)"
    and "valid_utf8 (str_bytes (audit_key_text C seed))"
proof -
  let ?k = "base64_encode C seed"
  let ?title = "''# HeelonVault audit signing key''"
  note k = key_text [OF assms]
  have "graphic (last ?k)" using k(2,4) by (simp add: list_all_iff)
  moreover have "\<not> graphic newline" "\<not> graphic (CHR 0x0D)" by (simp_all add: graphic_def newline_def)
  ultimately have "newline \<notin> set ?k" "last ?k \<noteq> CHR 0x0D"
    using k(4) unfolding list_all_iff by metis+
  moreover have "lines [] = []" by (subst lines.simps) simp
  ultimately have key_line: "lines (?k @ [newline]) = [?k]" using lines_step [of ?k "[]"] by simp
  have fixed: "newline \<notin> set ?title" "last ?title \<noteq> CHR 0x0D" "trim ?title = ?title"
    "\<not> eq_ignore_ascii_case ?title AUTO_GENERATED_AUDIT_KEY_MARKER" "newline \<notin> set AUTO_GENERATED_AUDIT_KEY_MARKER"
    "last AUTO_GENERATED_AUDIT_KEY_MARKER \<noteq> CHR 0x0D"
    "trim AUTO_GENERATED_AUDIT_KEY_MARKER = AUTO_GENERATED_AUDIT_KEY_MARKER"
    "hd AUTO_GENERATED_AUDIT_KEY_MARKER = CHR ''#''" "AUTO_GENERATED_AUDIT_KEY_MARKER \<noteq> []"
    by code_simp+
  have "audit_key_text C seed = ?title @ newline # (AUTO_GENERATED_AUDIT_KEY_MARKER @ newline # (?k @ [newline]))"
    by (simp add: audit_key_text_def)
  then have "lines (audit_key_text C seed) = [?title, AUTO_GENERATED_AUDIT_KEY_MARKER, ?k]"
    by (simp only: lines_step [OF fixed(1) disjI2 [OF fixed(2)]] lines_step [OF fixed(5) disjI2 [OF fixed(6)]] key_line)
  moreover have "scan_audit_key [?title, AUTO_GENERATED_AUDIT_KEY_MARKER, ?k] False = (Some ?k, True)"
    using fixed k(1-3) by (simp add: Let_def eq_ignore_ascii_case_def)
  ultimately show "parse_audit_key_file (audit_key_text C seed) = Inr (?k, True)"
    by (simp add: parse_audit_key_file_def)
  have "\<forall>c\<in>set (audit_key_text C seed). (of_char c :: nat) \<le> 127"
    using k(4) by (auto simp: audit_key_text_def AUTO_GENERATED_AUDIT_KEY_MARKER_def newline_def list_all_iff graphic_def)
  then show "valid_utf8 (str_bytes (audit_key_text C seed))"
    by (intro valid_utf8_ascii) (auto simp: str_bytes_def in_range_def unat_of_nat)
qed

section \<open>A generated key signs\<close>

text \<open>A host that differs in the number of operations made.\<close>

definition later :: "license_state \<Rightarrow> nat \<Rightarrow> license_state" where
  "later w n = w\<lparr>lic_host := (lic_host w)\<lparr>ticks := n\<rparr>\<rparr>"

lemma on_host_exists:
  "calm (lic_host w) \<Longrightarrow>
     on_host (fs_exists p) w = (Inr (files (lic_host w) p \<noteq> None), later w (Suc (ticks (lic_host w))))"
  by (simp add: on_host_run [OF fs_exists_calm] later_def)

lemma on_host_reads:
  assumes "calm (lic_host w)" and "files (lic_host w) p = Some f" and "valid_utf8 (content f)"
  shows "on_host (read_to_string p) w = (Inr (bytes_str (content f)), later w (Suc (ticks (lic_host w))))"
proof -
  have "read_to_string p (lic_host w) = (Inr (bytes_str (content f)), tick (lic_host w))"
    unfolding read_to_string_def using assms
    by (simp add: bindE_run run_simps fs_read_calm)
  then show ?thesis by (simp add: on_host_run later_def)
qed

lemma later_simps [simp]:
  "cached_license (later w n) = cached_license w" "files (lic_host (later w n)) = files (lic_host w)"
  "calm (lic_host (later w n)) \<longleftrightarrow> calm (lic_host w)" "has_certified_license (later w n) = has_certified_license w"
  by (simp_all add: later_def has_certified_license_def)

definition keyed :: "'j license_crates \<Rightarrow> environment \<Rightarrow> bytes \<Rightarrow> license_state \<Rightarrow> bool" where
  "keyed C E seed w \<longleftrightarrow> calm (lic_host w) \<and> has_certified_license w \<and>
     (\<exists>f. files (lic_host w) (primary_audit_key_path E) = Some f \<and> content f = str_bytes (audit_key_text C seed))"

lemma find_keyed:
  assumes "key_codec_laws C" and "length seed = 32" and "keyed C E seed w"
  shows "\<exists>n. find_existing_audit_key_file E w = (Inr (Some (base64_encode C seed, True)), later w n)"
proof -
  obtain f where f: "calm (lic_host w)" "files (lic_host w) (primary_audit_key_path E) = Some f"
    "content f = str_bytes (audit_key_text C seed)" using assms(3) by (auto simp: keyed_def)
  let ?w1 = "later w (Suc (ticks (lic_host w)))"
  have "on_host (read_to_string (primary_audit_key_path E)) ?w1 =
      (Inr (audit_key_text C seed), later ?w1 (Suc (ticks (lic_host ?w1))))"
    using on_host_reads [of ?w1 "primary_audit_key_path E" f] f generated_file_parses(2) [OF assms(1,2)] by simp
  then have "key_file (primary_audit_key_path E) ?w1 =
      (Inr (Some (base64_encode C seed, True)), later ?w1 (Suc (ticks (lic_host ?w1))))"
    unfolding key_file_def
    by (simp add: bindE_run run_simps map_err_ok generated_file_parses(1) [OF assms(1,2)])
  moreover have "later ?w1 k = later w k" for k by (simp add: later_def)
  ultimately show ?thesis
    unfolding find_existing_audit_key_file_def
    using f by (auto simp: bindE_run map_err_ok [OF on_host_exists])
qed

lemma keyed_later: "keyed C E seed (later w n) \<longleftrightarrow> keyed C E seed w"
  by (simp add: keyed_def)

lemma keyed_auto: "keyed C E seed (w\<lparr>audit_key_auto_generated := b\<rparr>) \<longleftrightarrow> keyed C E seed w"
  by (simp add: keyed_def has_certified_license_def)

lemma resolve_keyed:
  assumes "key_codec_laws C" and "length seed = 32" and "keyed C E seed w"
    and "nonempty_trimmed (env_var E AUDIT_SIGNING_KEY_ENV) = None"
  shows "\<exists>w'. resolve_audit_signing_key_material E w = (Inr (base64_encode C seed), w') \<and>
           files (lic_host w') = files (lic_host w) \<and> keyed C E seed w'"
proof -
  obtain n where found: "find_existing_audit_key_file E w = (Inr (Some (base64_encode C seed, True)), later w n)"
    using find_keyed [OF assms(1-3)] by blast
  show ?thesis unfolding resolve_audit_signing_key_material_def assms(4)
    by (simp add: found set_auto_generated_def bindE_run run_simps keyed_later keyed_auto assms(3))
qed

lemma ensure_keyed:
  assumes "key_codec_laws C" and "length seed = 32" and "keyed C E seed w"
    and "nonempty_trimmed (env_var E AUDIT_SIGNING_KEY_ENV) = None"
  shows "\<exists>w'. ensure_audit_key_exists C E rnd w = (Inr Existing, w') \<and> keyed C E seed w' \<and>
           files (lic_host w') = files (lic_host w)"
proof -
  obtain n where found: "find_existing_audit_key_file E w = (Inr (Some (base64_encode C seed, True)), later w n)"
    using find_keyed [OF assms(1-3)] by blast
  have "has_certified_license w" using assms(3) by (simp add: keyed_def)
  then show ?thesis unfolding ensure_audit_key_exists_def existing_key_def assms(4)
    by (simp add: found set_auto_generated_def bindE_run run_simps keyed_later keyed_auto assms(3))
qed

lemma sign_after_ensure:
  assumes "key_codec_laws C" and "length seed = 32"
    and "nonempty_trimmed (env_var E AUDIT_SIGNING_KEY_ENV) = None"
    and "ensure_audit_key_exists C E rnd w = (Inr out, w1)" and "keyed C E seed w1" and "has_certified_license w"
  shows "\<exists>w'. sign_audit_hash C E rnd h w = (Inr (base64_encode C (ed25519_sign C seed h)), w') \<and>
           files (lic_host w') = files (lic_host w1) \<and> keyed C E seed w'"
proof -
  obtain l where l: "cached_license w = Some l" "tier l = Professional"
    using assms(6) by (auto simp: has_certified_license_def split: option.splits)
  obtain w' where w': "resolve_audit_signing_key_material E w1 = (Inr (base64_encode C seed), w')"
    "files (lic_host w') = files (lic_host w1)" "keyed C E seed w'"
    using resolve_keyed [OF assms(1,2,5,3)] by blast
  have dec: "map_err InvalidKey (lift_result (decode_key_material C (base64_encode C seed))) w' = (Inr seed, w')"
    by (rule map_err_ok) (simp add: run_simps generated_key_decodes [OF assms(1,2)])
  show ?thesis unfolding sign_audit_hash_def
    using w' l assms(2)
    by (simp add: bindE_run run_simps assms(4) dec)
qed

lemma find_nothing:
  assumes "calm (lic_host w)" and "files (lic_host w) (primary_audit_key_path E) = None"
    and "nonempty_trimmed (env_var E AUDIT_SIGNING_KEY_PATH_ENV) \<noteq> None \<or>
         files (lic_host w) (legacy_audit_key_path E) = None"
  shows "\<exists>n. find_existing_audit_key_file E w = (Inr None, later w n)"
proof -
  have "later (later w m) k = later w k" for m k by (simp add: later_def)
  then show ?thesis
    unfolding find_existing_audit_key_file_def
    using assms by (auto simp: bindE_run run_simps map_err_ok [OF on_host_exists])
qed

lemma existing_none:
  "find_existing_audit_key_file E w = (Inr None, w1) \<Longrightarrow> existing_key E k w = k () w1"
  by (simp add: existing_key_def bindE_run)

lemma create_calm:
  assumes "calm (lic_host w)" and "files (lic_host w) target = None"
  shows "\<exists>h. create_audit_key C E target seed w =
           (Inr Generated, w\<lparr>lic_host := h, audit_key_auto_generated := True\<rparr>) \<and> calm h \<and>
         files h target = Some \<lparr> content = str_bytes (audit_key_text C seed), owner_only = True \<rparr>"
proof -
  let ?h1 = "put_file target (Some \<lparr> content = [], owner_only = False \<rparr>) (tick (lic_host w))"
  let ?h2 = "put_file target (Some \<lparr> content = [], owner_only = True \<rparr>) (tick ?h1)"
  let ?h3 = "put_file target (Some \<lparr> content = str_bytes (audit_key_text C seed), owner_only = True \<rparr>) (tick ?h2)"
  have "on_host (fs_create_new target) w = (Inr (), w\<lparr>lic_host := ?h1\<rparr>)"
    using assms by (simp add: on_host_run fs_create_calm)
  moreover have "on_host (set_owner_only_file_permissions target) (w\<lparr>lic_host := ?h1\<rparr>) = (Inr (), w\<lparr>lic_host := ?h2\<rparr>)"
    using assms(1) by (simp add: on_host_run fs_chmod_calm)
  moreover have "on_host (fs_write target (str_bytes (audit_key_text C seed))) (w\<lparr>lic_host := ?h2\<rparr>) =
      (Inr (), w\<lparr>lic_host := ?h3\<rparr>)"
    using assms(1) by (simp add: on_host_run fs_write_calm written_def)
  ultimately have "create_audit_key C E target seed w = (Inr Generated, w\<lparr>lic_host := ?h3, audit_key_auto_generated := True\<rparr>)"
    by (simp add: create_audit_key_def bindE_run run_simps map_err_ok set_auto_generated_def)
  moreover have "calm ?h3" using assms(1) by simp
  ultimately show ?thesis by (intro exI [of _ ?h3]) simp
qed

text \<open>Under a professional license, with no key in the environment and no key file yet, the first signature creates
  the key file from the drawn seed, readable by its owner only, and is the Ed25519 signature of the hash
  under that seed; and every later signature, whatever would be drawn then, is made with the same seed:
  the key file reads back, through its comments, its lines and the choice between hex and base64.\<close>

theorem generated_audit_key_signs_from_then_on:
  assumes "key_codec_laws C" and "length seed = 32" and "calm (lic_host w)" and "has_certified_license w"
    and "nonempty_trimmed (env_var E AUDIT_SIGNING_KEY_ENV) = None"
    and "files (lic_host w) (primary_audit_key_path E) = None"
    and "nonempty_trimmed (env_var E AUDIT_SIGNING_KEY_PATH_ENV) \<noteq> None \<or>
         files (lic_host w) (legacy_audit_key_path E) = None"
  shows "\<exists>w' f. sign_audit_hash C E (Some seed) h w = (Inr (base64_encode C (ed25519_sign C seed h)), w') \<and>
           files (lic_host w') (primary_audit_key_path E) = Some f \<and> owner_only f \<and>
           (\<forall>rnd h'. fst (sign_audit_hash C E rnd h' w') = Inr (base64_encode C (ed25519_sign C seed h')))"
proof -
  let ?p = "primary_audit_key_path E"
  obtain n where absent: "find_existing_audit_key_file E w = (Inr None, later w n)"
    using find_nothing [OF assms(3,6,7)] by blast
  let ?dir = "on_host (permitted (OpCreateDir (path_parent ?p)))"
  let ?mode = "on_host (permitted (OpSetMode (Path (path_parent ?p) '''')))"
  have ticks: "on_host (permitted op) (later w k) = (Inr (), later w (Suc k))" for op k
    using assms(3) by (simp add: on_host_def zoom_def permitted_def fs_attempt_def bindE_run run_simps later_def calm_def)
  obtain h1 where create: "create_audit_key C E ?p seed (later w (Suc (Suc n))) =
      (Inr Generated, (later w (Suc (Suc n)))\<lparr>lic_host := h1, audit_key_auto_generated := True\<rparr>)" and "calm h1"
    and created: "files h1 ?p = Some \<lparr> content = str_bytes (audit_key_text C seed), owner_only = True \<rparr>"
    using create_calm [of "later w (Suc (Suc n))" ?p C E seed] assms(3,6) by auto
  define w1 where "w1 = (later w (Suc (Suc n)))\<lparr>lic_host := h1, audit_key_auto_generated := True\<rparr>"
  have ensure: "ensure_audit_key_exists C E (Some seed) w = (Inr Generated, w1)"
  proof -
    have skip: "existing_key E k w = k () (later w n)" for k by (rule existing_none [OF absent])
    have "ensure_audit_key_exists C E (Some seed) w = existing_key E (\<lambda>_.
       bindE (map_err (\<lambda>_. InvalidKey ''unable to create audit signing key directory'') ?dir) (\<lambda>_.
       bindE (discard ?mode) (\<lambda>_.
       bindE (ok_or (InvalidKey ''unable to generate audit signing key material'') (Some seed)) (\<lambda>seed.
       create_audit_key C E ?p seed)))) w"
      unfolding ensure_audit_key_exists_def assms(5) using assms(4) by (simp add: bindE_run run_simps Let_def)
    also have "\<dots> = (Inr Generated, w1)"
      unfolding skip using create by (simp add: bindE_run run_simps ticks map_err_ok w1_def)
    finally show ?thesis .
  qed
  have keyed: "keyed C E seed w1"
    using \<open>calm h1\<close> created assms(4) by (simp add: keyed_def w1_def has_certified_license_def later_def)
  from sign_after_ensure [OF assms(1,2,5) ensure keyed assms(4)] obtain w' where
    w': "sign_audit_hash C E (Some seed) h w = (Inr (base64_encode C (ed25519_sign C seed h)), w')"
    "files (lic_host w') = files (lic_host w1)" "keyed C E seed w'" by blast
  then have again: "fst (sign_audit_hash C E rnd h' w') = Inr (base64_encode C (ed25519_sign C seed h'))" for rnd h'
    using ensure_keyed [OF assms(1,2) _ assms(5), of w' rnd] sign_after_ensure [OF assms(1,2,5), of rnd w' Existing _ h']
    by (metis fst_conv keyed_def)
  have "files (lic_host w') ?p = Some \<lparr> content = str_bytes (audit_key_text C seed), owner_only = True \<rparr>"
    unfolding w'(2) by (simp add: w1_def created)
  with w'(1) again show ?thesis by auto
qed

end
