(* ===== verification/License_Witnesses.thy ===== *)
theory License_Witnesses
  imports License_Properties
begin

text \<open>A concrete platform with a license file, and the properties of the license service there.\<close>

definition nibbles :: "byte \<Rightarrow> string" where
  "nibbles b = [char_of (65 + unat b div 16), char_of (65 + unat b mod 16)]"

fun from_nibbles :: "string \<Rightarrow> bytes option" where
  "from_nibbles [e] = Some []"
| "from_nibbles (h # l # s) =
     map_option (\<lambda>b. word_of_nat ((of_char h - 65) * 16 + (of_char l - 65)) # b) (from_nibbles s)"
| "from_nibbles [] = None"

definition padded :: "bytes \<Rightarrow> string" where
  "padded b = concat (map nibbles b) @ ''=''"

lemma unat_byte: "unat (b :: byte) < 256"
  using unsigned_less [of b] by simp

lemma nibbles_byte:
  "(of_char (char_of (65 + unat b div 16) :: char) - 65) * 16 +
     (of_char (char_of (65 + unat b mod 16) :: char) - 65) = unat (b :: byte)"
  using unat_byte [of b] by (simp add: less_mult_imp_div_less)

lemma from_padded: "from_nibbles (padded b) = Some b"
proof (induction b)
  case Nil
  show ?case by (simp add: padded_def)
next
  case (Cons b bs)
  have "from_nibbles (concat (map nibbles bs) @ ''='') = Some bs" using Cons by (simp add: padded_def)
  then show ?case
    using nibbles_byte [of b] by (simp add: padded_def nibbles_def del: of_char_of)
qed

lemma padded_chars: "list_all base64_char (padded b)"
proof -
  have "base64_char (char_of (65 + k))" if "k < 16" for k :: nat
  proof -
    have code: "(of_char (char_of (65 + k) :: char) :: nat) = 65 + k" using that by simp
    have "(of_char CHR ''#'' :: nat) = 35" by simp
    then have "char_of (65 + k) \<noteq> CHR ''#''" using code by (auto dest!: arg_cong [of _ _ "of_char :: char \<Rightarrow> nat"])
    with code that show ?thesis by (simp add: base64_char_def graphic_def)
  qed
  moreover have "unat w div 16 < 16" for w :: byte using unat_byte [of w] by (simp add: less_mult_imp_div_less)
  moreover have "base64_char CHR ''=''" by (simp add: base64_char_def graphic_def)
  ultimately show ?thesis by (auto simp: padded_def nibbles_def list_all_iff)
qed

definition demo_license :: license where
  "demo_license = \<lparr> lic_id = ''1'', customer_name = ''Lab'', slots_count = 3, expiration_date = ''2030'',
     features = [], tier = Professional \<rparr>"

definition demo_L :: "unit license_crates" where
  "demo_L = \<lparr> envelope_from_json = (\<lambda>c. Some \<lparr> payload = JsonString c, signature = '''' \<rparr>),
     license_from_json = (\<lambda>_. Some demo_license), license_from_value = (\<lambda>_. None), value_to_json = (\<lambda>_. None),
     hex_decode = (\<lambda>s. if CHR ''='' \<in> set s then None else Some (replicate (if s = [] then 64 else 32) 0)),
     base64_decode = from_nibbles, base64_encode = padded, verifying_key_ok = (\<lambda>_. True),
     signature_ok = (\<lambda>_. True), verify_strict = (\<lambda>_ _ _. True), ed25519_sign = (\<lambda>k m. k @ m),
     rfc3339 = (\<lambda>_. Some 100) \<rparr>"

lemma demo_L_laws: "key_codec_laws demo_L"
  by (auto simp: key_codec_laws_def demo_L_def from_padded padded_chars) (auto simp: padded_def split: if_splits)

definition demo_E :: environment where
  "demo_E = \<lparr> current_exe = None, env_var = (\<lambda>_. None), config_dir = Some ''/home/ada/.config'' \<rparr>"

definition lic_path :: path where "lic_path = Path ''/etc/heelonvault'' ''license.hvl''"

definition licensed :: "license option \<Rightarrow> license_state" where
  "licensed l = \<lparr> cached_license = l, audit_key_auto_generated = False,
     lic_host = \<lparr> files = [lic_path \<mapsto> \<lparr> content = str_bytes ''{}'', owner_only = False \<rparr>],
       ticks = 0, denies = (\<lambda>_ _. False), torn = (\<lambda>_ _. None) \<rparr> \<rparr>"

theorem audit_key_provisioning_keeps_every_file_witness:
  "files (lic_host (snd (ensure_audit_key_exists demo_L demo_E (Some (replicate 32 9)) (licensed (Some demo_license))))) lic_path =
     Some \<lparr> content = str_bytes ''{}'', owner_only = False \<rparr>"
  by (rule audit_key_provisioning_keeps_every_file [OF disjI1 [OF refl]]) (simp add: licensed_def)

lemma lic_paths: "get_license_path demo_E = lic_path"
  "primary_audit_key_path demo_E = Path ''/home/ada/.config/heelonvault'' ''audit.key''"
  "legacy_audit_key_path demo_E = Path ''/etc/heelonvault'' ''audit-signing.key''"
  by code_simp+

lemma demo_genuine: "genuine demo_L 50 ''{}'' demo_license"
proof -
  have "sanitize_hex_input LICENSE_SIGNING_PUBLIC_KEY = LICENSE_SIGNING_PUBLIC_KEY" "sanitize_hex_input '''' = ''''"
    by code_simp+
  moreover have "CHR ''='' \<notin> set LICENSE_SIGNING_PUBLIC_KEY" "LICENSE_SIGNING_PUBLIC_KEY \<noteq> []"
    by code_simp+
  ultimately show ?thesis
    unfolding genuine_def by (simp add: demo_L_def signed_payload_def signature_bytes_def is_valid_def)
qed

theorem licenses_are_signed_or_community_witness:
  "\<exists>l w'. load_license demo_L demo_E 50 ''7'' None (licensed None) = (Inr l, w') \<and> cached_license w' = Some l \<and>
     genuine demo_L 50 ''{}'' l"
proof -
  have "fs_read (get_license_path demo_E) (lic_host (licensed None)) =
      (Inr (str_bytes ''{}''), tick (lic_host (licensed None)))"
    unfolding lic_paths by (rule fs_read_calm [of _ _ "\<lparr> content = str_bytes ''{}'', owner_only = False \<rparr>", simplified])
      (simp_all add: licensed_def calm_def)
  moreover have "valid_utf8 (str_bytes ''{}'')" by code_simp
  moreover have "cached_license (licensed None) = None" by (simp add: licensed_def)
  from licenses_are_signed_or_community [OF this, of demo_L demo_E 50 "''7''" None] obtain l w' where
    "load_license demo_L demo_E 50 ''7'' None (licensed None) = (Inr l, w')" "cached_license w' = Some l"
    "\<forall>b h. fs_read (get_license_path demo_E) (lic_host (licensed None)) = (Inr b, h) \<longrightarrow> valid_utf8 b \<longrightarrow>
       (\<exists>l'. genuine demo_L 50 (bytes_str b) l') \<longrightarrow> genuine demo_L 50 (bytes_str b) l" by blast
  ultimately show ?thesis using demo_genuine by (metis bytes_str_str_bytes)
qed

theorem generated_audit_key_signs_from_then_on_witness:
  "\<exists>w' f. sign_audit_hash demo_L demo_E (Some (replicate 32 9)) [1, 2] (licensed (Some demo_license)) =
       (Inr (padded (replicate 32 9 @ [1, 2])), w') \<and>
     files (lic_host w') (primary_audit_key_path demo_E) = Some f \<and> owner_only f \<and>
     (\<forall>rnd h'. fst (sign_audit_hash demo_L demo_E rnd h' w') = Inr (padded (replicate 32 9 @ h')))"
proof -
  have "calm (lic_host (licensed (Some demo_license)))" by (simp add: licensed_def calm_def)
  moreover have "has_certified_license (licensed (Some demo_license))"
    by (simp add: has_certified_license_def licensed_def demo_license_def)
  moreover have "nonempty_trimmed (env_var demo_E AUDIT_SIGNING_KEY_ENV) = None"
    by (simp add: nonempty_trimmed_def demo_E_def)
  moreover have "files (lic_host (licensed (Some demo_license))) (primary_audit_key_path demo_E) = None"
    "files (lic_host (licensed (Some demo_license))) (legacy_audit_key_path demo_E) = None"
    unfolding lic_paths by (simp_all add: licensed_def lic_path_def)
  ultimately show ?thesis
    using generated_audit_key_signs_from_then_on [OF demo_L_laws, of "replicate 32 9" "licensed (Some demo_license)" demo_E "[1, 2]"]
    by (simp add: demo_L_def)
qed

end
