(* ===== verification/Password_Service.thy ===== *)
theory Password_Service
  imports Models "HOL-Library.Multiset"
begin

text \<open>
  \<open>services/password_service.rs\<close>: the password policy, the strength score and the generator.  The
  system random source is a parameter: a sequence of 32-bit draws, \<open>None\<close> where \<open>getrandom\<close> fails,
  and a position in it is the state.  The rejection loop of \<open>random_index\<close> may run for ever, so a
  call is a partial function: \<open>None\<close> is a call that does not return.
\<close>

definition MIN_PASSWORD_LENGTH :: nat where "MIN_PASSWORD_LENGTH = 16"
definition MAX_PASSWORD_LENGTH :: nat where "MAX_PASSWORD_LENGTH = 128"
definition DEFAULT_GENERATED_PASSWORD_LENGTH :: nat where "DEFAULT_GENERATED_PASSWORD_LENGTH = 24"
definition PASSWORD_STRENGTH_MAX :: "8 word" where "PASSWORD_STRENGTH_MAX = 100"

definition LOWERCASE_CHARSET :: bytes where "LOWERCASE_CHARSET = str_bytes ''abcdefghijkmnopqrstuvwxyz''"
definition UPPERCASE_CHARSET :: bytes where "UPPERCASE_CHARSET = str_bytes ''ABCDEFGHJKLMNPQRSTUVWXYZ''"
definition DIGIT_CHARSET :: bytes where "DIGIT_CHARSET = str_bytes ''23456789''"
definition SYMBOL_CHARSET :: bytes where "SYMBOL_CHARSET = str_bytes ''!@#$%^&*()-_=+[]{}:;,.?/''"

section \<open>Policy and score\<close>

definition is_ascii_lowercase :: "byte \<Rightarrow> bool" where "is_ascii_lowercase b \<longleftrightarrow> 97 \<le> b \<and> b \<le> 122"
definition is_ascii_uppercase :: "byte \<Rightarrow> bool" where "is_ascii_uppercase b \<longleftrightarrow> 65 \<le> b \<and> b \<le> 90"
definition is_ascii_digit_byte :: "byte \<Rightarrow> bool" where "is_ascii_digit_byte b \<longleftrightarrow> 48 \<le> b \<and> b \<le> 57"

text \<open>\<open>u8::is_ascii_whitespace\<close>: tab, line feed, form feed, carriage return and space.\<close>

definition is_ascii_whitespace :: "byte \<Rightarrow> bool" where
  "is_ascii_whitespace b \<longleftrightarrow> b \<in> {9, 10, 12, 13, 32}"

definition is_ascii_alphanumeric :: "byte \<Rightarrow> bool" where
  "is_ascii_alphanumeric b \<longleftrightarrow> is_ascii_lowercase b \<or> is_ascii_uppercase b \<or> is_ascii_digit_byte b"

definition is_symbol :: "byte \<Rightarrow> bool" where
  "is_symbol b \<longleftrightarrow> \<not> is_ascii_alphanumeric b \<and> \<not> is_ascii_whitespace b"

definition has_lowercase :: "bytes \<Rightarrow> bool" where "has_lowercase pw = list_ex is_ascii_lowercase pw"
definition has_uppercase :: "bytes \<Rightarrow> bool" where "has_uppercase pw = list_ex is_ascii_uppercase pw"
definition has_digit :: "bytes \<Rightarrow> bool" where "has_digit pw = list_ex is_ascii_digit_byte pw"
definition has_symbol :: "bytes \<Rightarrow> bool" where "has_symbol pw = list_ex is_symbol pw"
definition has_whitespace :: "bytes \<Rightarrow> bool" where "has_whitespace pw = list_ex is_ascii_whitespace pw"

definition validate_length :: "nat \<Rightarrow> app_error + unit" where
  "validate_length n =
     (if n < MIN_PASSWORD_LENGTH then Inl (Validation ''password length must be at least 16 characters'')
      else if n > MAX_PASSWORD_LENGTH then Inl (Validation ''password length must not exceed 128 characters'')
      else Inr ())"

definition validate_password_policy :: "bytes \<Rightarrow> app_error + unit" where
  "validate_password_policy pw =
     (case validate_length (length pw) of
        Inl e \<Rightarrow> Inl e
      | Inr _ \<Rightarrow>
         if has_whitespace pw then Inl (Validation ''password must not contain whitespace'')
         else if \<not> has_lowercase pw then Inl (Validation ''password must contain at least one lowercase character'')
         else if \<not> has_uppercase pw then Inl (Validation ''password must contain at least one uppercase character'')
         else if \<not> has_digit pw then Inl (Validation ''password must contain at least one digit'')
         else if \<not> has_symbol pw then Inl (Validation ''password must contain at least one symbol'')
         else Inr ())"

text \<open>The table of bytes seen and the number of different ones, as the loop of the score keeps them.\<close>

fun count_unique :: "bytes \<Rightarrow> (byte \<Rightarrow> bool) \<Rightarrow> 16 word \<Rightarrow> 16 word" where
  "count_unique [] seen n = n"
| "count_unique (b # bs) seen n =
     (if \<not> seen b then count_unique bs (seen(b := True)) (n + 1) else count_unique bs seen n)"

definition saturating_double :: "16 word \<Rightarrow> 16 word" where
  "saturating_double n = (if 2 * unat n < 2 ^ 16 then n * 2 else - 1)"

definition points :: "bool \<Rightarrow> 16 word \<Rightarrow> 16 word \<Rightarrow> 16 word" where
  "points b k score = (if b then score + k else score)"

definition score_password_strength :: "bytes \<Rightarrow> app_error + 8 word" where
  "score_password_strength pw =
     (if pw = [] then Inl (Validation ''password must not be empty'')
      else
        let s1 = points (8 \<le> length pw) 10 0;
            s2 = points (12 \<le> length pw) 15 s1;
            s3 = points (MIN_PASSWORD_LENGTH \<le> length pw) 20 s2;
            s4 = points (24 \<le> length pw) 15 s3;
            s5 = points (has_lowercase pw) 10 s4;
            s6 = points (has_uppercase pw) 10 s5;
            s7 = points (has_digit pw) 10 s6;
            s8 = points (has_symbol pw) 10 s7;
            unique_count = count_unique pw (\<lambda>_. False) 0 in
        if length pw \<ge> 2 ^ 16 then Inl (Validation ''password length exceeds supported size'')
        else
          let s9 = points (saturating_double unique_count \<ge> word_of_nat (length pw)) 10 s8;
              s10 = (if has_whitespace pw \<and> s9 \<ge> 10 then s9 - 10 else s9) in
          Inr (ucast (min s10 (ucast PASSWORD_STRENGTH_MAX))))"

section \<open>The generator\<close>

type_synonym source = "nat \<Rightarrow> 32 word option"
type_synonym 'a draw = "nat \<Rightarrow> ((app_error + 'a) \<times> nat) option"

definition bindD :: "'a draw \<Rightarrow> ('a \<Rightarrow> 'b draw) \<Rightarrow> 'b draw" where
  "bindD m f = (\<lambda>i. case m i of
       None \<Rightarrow> None
     | Some (Inl e, j) \<Rightarrow> Some (Inl e, j)
     | Some (Inr x, j) \<Rightarrow> f x j)"

definition retD :: "'a \<Rightarrow> 'a draw" where
  "retD x = (\<lambda>i. Some (Inr x, i))"

definition resultD :: "app_error + 'a \<Rightarrow> 'a draw" where
  "resultD r = (\<lambda>i. Some (r, i))"

partial_function (option) draw_below :: "source \<Rightarrow> 32 word \<Rightarrow> nat \<Rightarrow> ((app_error + 32 word) \<times> nat) option" where
  "draw_below src zone i =
     (case src i of
        None \<Rightarrow> Some (Inl (Validation ''random generation failed''), Suc i)
      | Some candidate \<Rightarrow>
         if candidate < zone then Some (Inr candidate, Suc i) else draw_below src zone (Suc i))"

definition zone_of :: "32 word \<Rightarrow> 32 word" where
  "zone_of bound = - 1 - (- 1) mod bound"

definition random_index :: "source \<Rightarrow> nat \<Rightarrow> nat draw" where
  "random_index src bound =
     (if bound = 0 then resultD (Inl (Validation ''random selection bound must be greater than zero''))
      else if bound \<ge> 2 ^ 32 then resultD (Inl (Validation ''random selection bound exceeds supported size''))
      else bindD (draw_below src (zone_of (word_of_nat bound))) (\<lambda>candidate.
           retD (unat (candidate mod word_of_nat bound))))"

definition sample_from_charset :: "source \<Rightarrow> bytes \<Rightarrow> byte draw" where
  "sample_from_charset src charset =
     bindD (random_index src (length charset)) (\<lambda>index. retD (charset ! index))"

text \<open>The loop that fills up to the requested length, by the number of bytes still missing.\<close>

primrec fill_up :: "source \<Rightarrow> bytes \<Rightarrow> nat \<Rightarrow> bytes \<Rightarrow> bytes draw" where
  "fill_up src charset 0 pw = retD pw"
| "fill_up src charset (Suc n) pw =
     bindD (sample_from_charset src charset) (\<lambda>b. fill_up src charset n (pw @ [b]))"

definition swap_at :: "nat \<Rightarrow> nat \<Rightarrow> 'a list \<Rightarrow> 'a list" where
  "swap_at i j xs = xs[i := xs ! j, j := xs ! i]"

text \<open>The shuffle, from \<open>index\<close> down to 1.\<close>

fun shuffle :: "source \<Rightarrow> nat \<Rightarrow> bytes \<Rightarrow> bytes draw" where
  "shuffle src index pw =
     (if index > 1
      then bindD (random_index src index) (\<lambda>swap_index.
           shuffle src (index - 1) (swap_at (index - 1) swap_index pw))
      else retD pw)"

declare shuffle.simps [simp del]

definition generate_password :: "source \<Rightarrow> nat \<Rightarrow> bytes draw" where
  "generate_password src len =
     (let requested_length = (if len = 0 then DEFAULT_GENERATED_PASSWORD_LENGTH else len);
          combined_charset = LOWERCASE_CHARSET @ UPPERCASE_CHARSET @ DIGIT_CHARSET @ SYMBOL_CHARSET in
      bindD (resultD (validate_length requested_length)) (\<lambda>_.
      bindD (sample_from_charset src LOWERCASE_CHARSET) (\<lambda>a.
      bindD (sample_from_charset src UPPERCASE_CHARSET) (\<lambda>b.
      bindD (sample_from_charset src DIGIT_CHARSET) (\<lambda>c.
      bindD (sample_from_charset src SYMBOL_CHARSET) (\<lambda>d.
      bindD (fill_up src combined_charset (requested_length - 4) [a, b, c, d]) (\<lambda>filled.
      bindD (shuffle src (length filled) filled) (\<lambda>pw.
      bindD (resultD (validate_password_policy pw)) (\<lambda>_. retD pw)))))))))"

section \<open>Drawing\<close>

lemma bindD_ok: "m i = Some (Inr x, j) \<Longrightarrow> bindD m f i = f x j"
  by (simp add: bindD_def)

lemma resultD_ok [simp]: "bindD (resultD (Inr x)) f = f x"
  by (rule ext) (simp add: bindD_def resultD_def)

lemma retD_ok [simp]: "bindD (retD x) f = f x"
  by (rule ext) (simp add: bindD_def retD_def)

text \<open>A source that never fails, and that again and again draws a value below any zone in use.\<close>

definition fair :: "source \<Rightarrow> bool" where
  "fair src \<longleftrightarrow> (\<forall>i. src i \<noteq> None) \<and> (\<forall>i. \<exists>j\<ge>i. \<exists>c. src j = Some c \<and> c < 0x80000000)"

lemma draw_below_ends:
  assumes total: "\<forall>k. src k \<noteq> None" and hit: "i \<le> j" "src j = Some c" "c < zone"
  shows "\<exists>d k. draw_below src zone i = Some (Inr d, k) \<and> d < zone"
  using hit(1)
proof (induction "j - i" arbitrary: i)
  case 0
  with hit show ?case by (simp add: draw_below.simps)
next
  case (Suc n)
  from total obtain x where x: "src i = Some x" by blast
  show ?case
  proof (cases "x < zone")
    case True
    with x show ?thesis by (simp add: draw_below.simps)
  next
    case False
    from Suc(2,3) have "n = j - Suc i" "Suc i \<le> j" by simp_all
    from Suc(1) [OF this] x False show ?thesis by (subst draw_below.simps) simp
  qed
qed

lemma unat_zone:
  assumes "0 < bound" "bound < 2 ^ 32"
  shows "unat (zone_of (word_of_nat bound)) = (2 ^ 32 - 1) - (2 ^ 32 - 1) mod bound"
proof -
  have b: "unat (word_of_nat bound :: 32 word) = bound"
    using assms by (simp add: unat_of_nat)
  have top: "unat (- 1 :: 32 word) = 2 ^ 32 - 1" by (simp add: unsigned_minus_1_eq_mask mask_eq_exp_minus_1)
  have "unat ((- 1 :: 32 word) mod word_of_nat bound) = (2 ^ 32 - 1) mod bound"
    by (simp only: unat_mod b top)
  moreover have "(- 1 :: 32 word) mod word_of_nat bound \<le> - 1" by (simp add: word_le_nat_alt top unat_mod b)
  ultimately show ?thesis unfolding zone_of_def by (simp only: unat_sub top)
qed

section \<open>The draws are unbiased\<close>

lemma card_residues:
  assumes "(r::nat) < b"
  shows "card {n. n < b * q \<and> n mod b = r} = q"
proof -
  have "{n. n < b * q \<and> n mod b = r} = (\<lambda>k. k * b + r) ` {..<q}"
  proof (intro set_eqI iffI)
    fix n assume "n \<in> {n. n < b * q \<and> n mod b = r}"
    then have n: "n < b * q" "n = n div b * b + r" by auto
    from n(1) have "n div b < q" by (simp add: less_mult_imp_div_less mult.commute)
    with n(2) show "n \<in> (\<lambda>k. k * b + r) ` {..<q}" by blast
  next
    fix n assume "n \<in> (\<lambda>k. k * b + r) ` {..<q}"
    then obtain k where k: "k < q" "n = k * b + r" by blast
    then have "Suc k * b \<le> q * b" by (simp only: mult_le_mono1 Suc_leI)
    with k assms show "n \<in> {n. n < b * q \<and> n mod b = r}" by (simp add: mult.commute)
  qed
  moreover have "inj_on (\<lambda>k. k * b + r) {..<q}" using assms by (auto intro: inj_onI)
  ultimately show ?thesis by (simp add: card_image)
qed

text \<open>The rejection sampling of the generator is unbiased: a draw is kept when it is below the zone, and
  for every index below the bound exactly the same number of kept 32-bit draws leads to it.  The index a
  call returns is always below the bound.\<close>

theorem random_index_is_unbiased:
  assumes "0 < bound" "bound < 2 ^ 32" "r < bound"
  shows "card {c. c < zone_of (word_of_nat bound) \<and> unat (c mod word_of_nat bound) = r} =
           (2 ^ 32 - 1) div bound \<and>
         (\<forall>src i x j. random_index src bound i = Some (Inr x, j) \<longrightarrow> x < bound)"
proof
  let ?z = "zone_of (word_of_nat bound)"
  have b: "unat (word_of_nat bound :: 32 word) = bound" using assms by (simp add: unat_of_nat)
  have z: "unat ?z = bound * ((2 ^ 32 - 1) div bound)"
    by (simp only: unat_zone [OF assms(1,2)] minus_mod_eq_mult_div)
  have img: "unat ` {c. c < ?z \<and> unat (c mod word_of_nat bound) = r} =
      {n. n < bound * ((2 ^ 32 - 1) div bound) \<and> n mod bound = r}" (is "?L = ?R")
  proof (intro set_eqI iffI)
    fix n assume "n \<in> ?L"
    then show "n \<in> ?R" by (auto simp: word_less_nat_alt z unat_mod b)
  next
    fix n assume n: "n \<in> ?R"
    then have "n < bound * ((2 ^ 32 - 1) div bound)" by simp
    also have "\<dots> \<le> 2 ^ 32 - 1" by (rule times_div_less_eq_dividend)
    finally have "unat (word_of_nat n :: 32 word) = n" by (simp add: unat_of_nat)
    with n show "n \<in> ?L"
      by (intro image_eqI [of _ _ "word_of_nat n"]) (auto simp: word_less_nat_alt z unat_mod b)
  qed
  have "card {c. c < ?z \<and> unat (c mod word_of_nat bound) = r} = card ?L"
    by (rule card_image [OF inj_on_subset [OF inj_unsigned subset_UNIV], symmetric])
  then show "card {c. c < ?z \<and> unat (c mod word_of_nat bound) = r} = (2 ^ 32 - 1) div bound"
    unfolding img card_residues [OF assms(3)] .
  have "unat (c mod word_of_nat bound) < bound" for c :: "32 word"
    using assms(1) by (simp add: unat_mod b)
  then show "\<forall>src i x j. random_index src bound i = Some (Inr x, j) \<longrightarrow> x < bound"
    using assms(1,2)
    by (auto simp: random_index_def bindD_def retD_def split: option.splits sum.splits prod.splits)
qed

section \<open>The generator returns\<close>

definition yields :: "('a \<Rightarrow> bool) \<Rightarrow> 'a draw \<Rightarrow> bool" where
  "yields P m \<longleftrightarrow> (\<forall>i. \<exists>x j. m i = Some (Inr x, j) \<and> P x)"

lemma yields_bind:
  assumes "yields P m" and "\<And>x. P x \<Longrightarrow> yields Q (f x)"
  shows "yields Q (bindD m f)"
  unfolding yields_def
proof
  fix i
  from assms(1) obtain x j where "m i = Some (Inr x, j)" "P x" unfolding yields_def by blast
  with assms(2) show "\<exists>y k. bindD m f i = Some (Inr y, k) \<and> Q y"
    by (simp add: bindD_ok yields_def)
qed

lemma yields_weaken: "yields P m \<Longrightarrow> (\<And>x. P x \<Longrightarrow> Q x) \<Longrightarrow> yields Q m"
  unfolding yields_def by meson

lemma yields_ret: "P x \<Longrightarrow> yields P (retD x)"
  by (simp add: yields_def retD_def)

lemma random_index_yields:
  assumes "fair src" and "0 < bound" and "bound \<le> 2 ^ 31"
  shows "yields (\<lambda>x. x < bound) (random_index src bound)"
  unfolding yields_def
proof
  fix i
  have b: "bound < 2 ^ 32" using assms(3) by simp
  have "(2 ^ 32 - 1) mod bound < 2 ^ 31"
    using mod_less_divisor [OF assms(2), of "2 ^ 32 - 1"] assms(3) by (rule less_le_trans)
  then have wide: "(0x80000000 :: 32 word) \<le> zone_of (word_of_nat bound)"
    unfolding word_le_nat_alt unat_zone [OF assms(2) b] by simp
  from assms(1) obtain j c where hit: "i \<le> j" "src j = Some c" "c < 0x80000000" unfolding fair_def by blast
  then have "c < zone_of (word_of_nat bound)" using wide by (simp add: less_le_trans)
  with draw_below_ends [of src i j c] hit assms(1) obtain d k where
    "draw_below src (zone_of (word_of_nat bound)) i = Some (Inr d, k)" unfolding fair_def by blast
  moreover have "unat (d mod word_of_nat bound) < bound"
    using assms(2) b by (simp add: unat_mod unat_of_nat)
  ultimately show "\<exists>x j. random_index src bound i = Some (Inr x, j) \<and> x < bound"
    using assms(2) b by (simp add: random_index_def bindD_ok retD_def)
qed

lemma sample_yields:
  assumes "fair src" and "charset \<noteq> []" and "length charset \<le> 2 ^ 31"
  shows "yields (\<lambda>b. b \<in> set charset) (sample_from_charset src charset)"
  unfolding sample_from_charset_def
  by (rule yields_bind [OF random_index_yields]) (use assms in \<open>auto intro: yields_ret\<close>)

lemma fill_up_yields:
  assumes "yields (\<lambda>b. b \<in> S) (sample_from_charset src charset)"
  shows "yields (\<lambda>out. set pw \<subseteq> set out \<and> set out \<subseteq> set pw \<union> S \<and> length out = length pw + n)
           (fill_up src charset n pw)"
proof (induction n arbitrary: pw)
  case 0
  show ?case by (auto intro: yields_ret)
next
  case (Suc n)
  have "yields (\<lambda>out. set pw \<subseteq> set out \<and> set out \<subseteq> set pw \<union> S \<and> length out = length pw + Suc n)
      (fill_up src charset n (pw @ [b]))" if "b \<in> S" for b
    using that by (intro yields_weaken [OF Suc [of "pw @ [b]"]]) auto
  then show ?case unfolding fill_up.simps by (rule yields_bind [OF assms])
qed

lemma mset_swap_at: "i < length xs \<Longrightarrow> j < length xs \<Longrightarrow> mset (swap_at i j xs) = mset xs"
  by (simp add: swap_at_def mset_swap)

lemma shuffle_yields:
  assumes "fair src" and "n \<le> length pw" and "length pw \<le> 2 ^ 31"
  shows "yields (\<lambda>out. mset out = mset pw) (shuffle src n pw)"
  using assms(2,3)
proof (induction n arbitrary: pw)
  case 0
  show ?case by (subst shuffle.simps) (simp add: yields_ret)
next
  case (Suc n)
  show ?case
  proof (cases "n = 0")
    case True
    then show ?thesis by (subst shuffle.simps) (simp add: yields_ret)
  next
    case False
    have next_step: "yields (\<lambda>out. mset out = mset pw) (shuffle src n (swap_at n j pw))" if "j < Suc n" for j
    proof -
      have "mset (swap_at n j pw) = mset pw" using that Suc(2) by (simp add: mset_swap_at)
      with Suc(1) [of "swap_at n j pw"] Suc(2,3) show ?thesis by (simp add: swap_at_def)
    qed
    from Suc(2,3) have "Suc n \<le> 2 ^ 31" by simp
    with False show ?thesis
      by (subst shuffle.simps) (simp add: yields_bind [OF random_index_yields [OF assms(1)] next_step])
  qed
qed

lemma policy_ok:
  "validate_password_policy pw = Inr () \<longleftrightarrow>
     16 \<le> length pw \<and> length pw \<le> 128 \<and> \<not> has_whitespace pw \<and>
     has_lowercase pw \<and> has_uppercase pw \<and> has_digit pw \<and> has_symbol pw"
  by (simp add: validate_password_policy_def validate_length_def MIN_PASSWORD_LENGTH_def
      MAX_PASSWORD_LENGTH_def)

lemmas charset_defs =
  LOWERCASE_CHARSET_def UPPERCASE_CHARSET_def DIGIT_CHARSET_def SYMBOL_CHARSET_def

definition combined :: bytes where
  "combined = LOWERCASE_CHARSET @ UPPERCASE_CHARSET @ DIGIT_CHARSET @ SYMBOL_CHARSET"

lemma charset_kinds:
  "list_all is_ascii_lowercase LOWERCASE_CHARSET" "list_all is_ascii_uppercase UPPERCASE_CHARSET"
  "list_all is_ascii_digit_byte DIGIT_CHARSET" "list_all is_symbol SYMBOL_CHARSET"
  "list_all (\<lambda>b. \<not> is_ascii_whitespace b) combined" "length combined = 81"
  "length LOWERCASE_CHARSET = 25" "length UPPERCASE_CHARSET = 24" "length DIGIT_CHARSET = 8"
  "length SYMBOL_CHARSET = 24"
  by code_simp+

lemma set_kinds:
  "b \<in> set LOWERCASE_CHARSET \<Longrightarrow> is_ascii_lowercase b" "b \<in> set UPPERCASE_CHARSET \<Longrightarrow> is_ascii_uppercase b"
  "b \<in> set DIGIT_CHARSET \<Longrightarrow> is_ascii_digit_byte b" "b \<in> set SYMBOL_CHARSET \<Longrightarrow> is_symbol b"
  "b \<in> set combined \<Longrightarrow> \<not> is_ascii_whitespace b"
  using charset_kinds(1-5) unfolding list_all_iff by blast+

lemma charset_sample:
  assumes "fair src"
  shows "yields (\<lambda>b. b \<in> set LOWERCASE_CHARSET) (sample_from_charset src LOWERCASE_CHARSET)"
    "yields (\<lambda>b. b \<in> set UPPERCASE_CHARSET) (sample_from_charset src UPPERCASE_CHARSET)"
    "yields (\<lambda>b. b \<in> set DIGIT_CHARSET) (sample_from_charset src DIGIT_CHARSET)"
    "yields (\<lambda>b. b \<in> set SYMBOL_CHARSET) (sample_from_charset src SYMBOL_CHARSET)"
    "yields (\<lambda>b. b \<in> set combined) (sample_from_charset src combined)"
  by (rule sample_yields [OF assms]; use charset_kinds in force)+

lemma four_kinds_policy:
  assumes "a \<in> set LOWERCASE_CHARSET" "b \<in> set UPPERCASE_CHARSET" "c \<in> set DIGIT_CHARSET" "d \<in> set SYMBOL_CHARSET"
    and "set pw \<subseteq> set combined" "{a, b, c, d} \<subseteq> set pw" "16 \<le> length pw" "length pw \<le> 128"
  shows "validate_password_policy pw = Inr ()"
  unfolding policy_ok
proof (intro conjI)
  show "has_lowercase pw" "has_uppercase pw" "has_digit pw" "has_symbol pw" "\<not> has_whitespace pw"
    unfolding has_lowercase_def has_uppercase_def has_digit_def has_symbol_def has_whitespace_def list_ex_iff
    using set_kinds(1) [OF assms(1)] set_kinds(2) [OF assms(2)] set_kinds(3) [OF assms(3)]
      set_kinds(4) [OF assms(4)] set_kinds(5) assms(5,6) by blast+
qed (use assms in simp_all)

text \<open>C36. With a random source that never fails and that again and again draws a value below half its range,
  the generator returns for every length from 16 to 128, and for 0, which stands for 24: a password of
  exactly that length, over the four character sets, that meets the password policy.  The policy check
  that ends the generator never fails, because the shuffle keeps the four bytes drawn one from each set.\<close>

theorem generated_passwords_meet_the_policy:
  assumes "fair src" and "len = 0 \<or> 16 \<le> len \<and> len \<le> 128"
  shows "\<exists>pw j. generate_password src len i = Some (Inr pw, j) \<and> validate_password_policy pw = Inr () \<and>
           length pw = (if len = 0 then 24 else len) \<and>
           set pw \<subseteq> set (LOWERCASE_CHARSET @ UPPERCASE_CHARSET @ DIGIT_CHARSET @ SYMBOL_CHARSET)"
proof -
  define n where "n = (if len = 0 then 24 else len)"
  have n: "16 \<le> n" "n \<le> 128" using assms(2) by (auto simp: n_def)
  then have "validate_length n = Inr ()"
    by (simp add: validate_length_def MIN_PASSWORD_LENGTH_def MAX_PASSWORD_LENGTH_def)
  then have gen: "generate_password src len =
      bindD (sample_from_charset src LOWERCASE_CHARSET) (\<lambda>a.
      bindD (sample_from_charset src UPPERCASE_CHARSET) (\<lambda>b.
      bindD (sample_from_charset src DIGIT_CHARSET) (\<lambda>c.
      bindD (sample_from_charset src SYMBOL_CHARSET) (\<lambda>d.
      bindD (fill_up src combined (n - 4) [a, b, c, d]) (\<lambda>filled.
      bindD (shuffle src (length filled) filled) (\<lambda>pw.
      bindD (resultD (validate_password_policy pw)) (\<lambda>_. retD pw)))))))"
    unfolding generate_password_def Let_def combined_def n_def [symmetric] DEFAULT_GENERATED_PASSWORD_LENGTH_def
    by simp
  let ?good = "\<lambda>pw. validate_password_policy pw = Inr () \<and> length pw = n \<and> set pw \<subseteq> set combined"
  have "yields ?good (generate_password src len)"
    unfolding gen
  proof (intro yields_bind [OF charset_sample(1) [OF assms(1)]] yields_bind [OF charset_sample(2) [OF assms(1)]]
      yields_bind [OF charset_sample(3) [OF assms(1)]] yields_bind [OF charset_sample(4) [OF assms(1)]])
    fix a b c d
    assume abcd: "a \<in> set LOWERCASE_CHARSET" "b \<in> set UPPERCASE_CHARSET" "c \<in> set DIGIT_CHARSET" "d \<in> set SYMBOL_CHARSET"
    then have within: "{a, b, c, d} \<subseteq> set combined" by (auto simp: combined_def)
    show "yields ?good (bindD (fill_up src combined (n - 4) [a, b, c, d]) (\<lambda>filled.
        bindD (shuffle src (length filled) filled) (\<lambda>pw.
        bindD (resultD (validate_password_policy pw)) (\<lambda>_. retD pw))))"
    proof (rule yields_bind [OF fill_up_yields [OF charset_sample(5) [OF assms(1)]]])
      fix filled assume filled: "set [a, b, c, d] \<subseteq> set filled \<and> set filled \<subseteq> set [a, b, c, d] \<union> set combined \<and>
          length filled = length [a, b, c, d] + (n - 4)"
      then have "length filled = n" "length filled \<le> 2 ^ 31" "{a, b, c, d} \<subseteq> set filled"
        "set filled \<subseteq> set combined" using n within by auto
      note filled = this
      show "yields ?good (bindD (shuffle src (length filled) filled) (\<lambda>pw.
          bindD (resultD (validate_password_policy pw)) (\<lambda>_. retD pw)))"
      proof (rule yields_bind [OF shuffle_yields [OF assms(1) order_refl filled(2)]])
        fix pw assume same: "mset pw = mset filled"
        then have "set pw = set filled" "length pw = length filled" by (rule mset_eq_setD, rule mset_eq_length)
        with filled have pw: "set pw \<subseteq> set combined" "{a, b, c, d} \<subseteq> set pw" "length pw = n" by simp_all
        with four_kinds_policy [OF abcd pw(1,2)] n have "?good pw" by simp
        then show "yields ?good (bindD (resultD (validate_password_policy pw)) (\<lambda>_. retD pw))"
          by (simp add: yields_ret)
      qed
    qed
  qed
  then show ?thesis unfolding yields_def n_def combined_def by blast
qed

section \<open>The score in plain arithmetic\<close>

definition bonus :: "bool \<Rightarrow> nat \<Rightarrow> nat" where
  "bonus b k = (if b then k else 0)"

definition reference_score :: "bytes \<Rightarrow> nat" where
  "reference_score pw =
     (let l = length pw;
          base = bonus (8 \<le> l) 10 + bonus (12 \<le> l) 15 + bonus (16 \<le> l) 20 + bonus (24 \<le> l) 15
            + bonus (has_lowercase pw) 10 + bonus (has_uppercase pw) 10 + bonus (has_digit pw) 10
            + bonus (has_symbol pw) 10 + bonus (l \<le> 2 * card (set pw)) 10 in
      min 100 (if has_whitespace pw then base - 10 else base))"

lemma points_add: "points b k s = s + (if b then k else 0)"
  by (simp add: points_def)

lemma of_bonus: "word_of_nat (bonus b (numeral k)) = (if b then numeral k else 0)"
  by (simp add: bonus_def)

lemma count_unique_card:
  "count_unique bs seen (word_of_nat n) = word_of_nat (n + card (set bs - {b. seen b}))"
proof (induction bs arbitrary: seen n)
  case Nil
  show ?case by simp
next
  case (Cons b bs)
  show ?case
  proof (cases "seen b")
    case True
    then have "set (b # bs) - {b. seen b} = set bs - {b. seen b}" by auto
    with True Cons show ?thesis by simp
  next
    case False
    let ?rest = "set bs - {x. (seen(b := True)) x}"
    have "set (b # bs) - {x. seen x} = insert b ?rest" using False by auto
    moreover have "b \<notin> ?rest" by simp
    ultimately have "card (set (b # bs) - {x. seen x}) = Suc (card ?rest)" by simp
    then have grown: "n + card (set (b # bs) - {x. seen x}) = Suc n + card ?rest" by simp
    have "count_unique (b # bs) seen (word_of_nat n) = count_unique bs (seen(b := True)) (word_of_nat (Suc n))"
      using False by (simp add: add.commute)
    also have "\<dots> = word_of_nat (Suc n + card ?rest)" by (rule Cons)
    finally show ?thesis unfolding grown .
  qed
qed

lemma card_bytes: "card (set (pw :: bytes)) \<le> 256"
  using card_mono [of "UNIV :: byte set" "set pw"] by (simp add: card_word)

lemma bonus_le: "bonus b k \<le> k"
  by (simp add: bonus_def)

lemma gap_bonus: "10 \<le> k \<Longrightarrow> 10 \<le> bonus b k \<or> bonus b k = 0"
  by (simp add: bonus_def)

lemma gap_add: "10 \<le> a \<or> a = 0 \<Longrightarrow> 10 \<le> b \<or> b = 0 \<Longrightarrow> 10 \<le> a + b \<or> a + b = (0::nat)"
  by auto

lemma half_unique:
  assumes "length (pw :: bytes) < 2 ^ 16"
  shows "word_of_nat (length pw) \<le> saturating_double (count_unique pw (\<lambda>_. False) 0) \<longleftrightarrow>
           length pw \<le> 2 * card (set pw)"
proof -
  have c: "count_unique pw (\<lambda>_. False) 0 = word_of_nat (card (set pw))"
    using count_unique_card [of pw "\<lambda>_. False" 0] by simp
  have small: "2 * card (set pw) < 2 ^ 16" using card_bytes [of pw] by simp
  then have "unat (word_of_nat (card (set pw)) :: 16 word) = card (set pw)" by (simp add: unat_of_nat)
  with small have d: "saturating_double (word_of_nat (card (set pw))) = word_of_nat (2 * card (set pw))"
    unfolding saturating_double_def by simp
  have "unat (word_of_nat (2 * card (set pw)) :: 16 word) = 2 * card (set pw)"
    "unat (word_of_nat (length pw) :: 16 word) = length pw"
    using small assms by (simp_all only: unat_of_nat len_num1 len_bit0 mod_less, simp_all)
  then show ?thesis unfolding c d word_le_nat_alt by (simp only:)
qed

lemma capped_score:
  assumes "n \<le> 110" and gap: "10 \<le> n \<or> n = 0"
  shows "(ucast (min (if ws \<and> 10 \<le> (word_of_nat n :: 16 word) then word_of_nat n - 10 else word_of_nat n :: 16 word)
           (ucast PASSWORD_STRENGTH_MAX)) :: 8 word) = word_of_nat (min 100 (if ws then n - 10 else n))"
proof -
  define m where "m = (if ws then n - 10 else n)"
  have m: "m \<le> 110" using assms by (auto simp: m_def)
  have u: "unat (word_of_nat k :: 16 word) = k" if "k \<le> 110" for k using that by (simp add: unat_of_nat)
  have "(if ws \<and> 10 \<le> (word_of_nat n :: 16 word) then word_of_nat n - 10 else word_of_nat n :: 16 word) = word_of_nat m"
    using gap by (auto simp: m_def word_le_nat_alt u [OF assms(1)] of_nat_diff)
  moreover have "(ucast PASSWORD_STRENGTH_MAX :: 16 word) = word_of_nat 100"
    by (simp add: PASSWORD_STRENGTH_MAX_def)
  moreover have "min (word_of_nat m) (word_of_nat 100 :: 16 word) = word_of_nat (min 100 m)"
    unfolding min_def word_le_nat_alt u [OF m] u [of 100, simplified] by auto
  moreover have "(ucast (word_of_nat (min 100 m) :: 16 word) :: 8 word) = word_of_nat (min 100 m)"
    by (simp add: unsigned_of_nat take_bit_nat_eq_self)
  ultimately show ?thesis unfolding m_def by simp
qed

text \<open>The strength score is computed for every password that is not empty and shorter than 65,536 bytes, and
  no addition, doubling or cast in it wraps around or saturates: it is the plain sum of the bonuses for
  length, for the four kinds of character and for at least half of the bytes being different, less 10
  for white space, cut at 100.  A password that meets the policy scores at least 85.\<close>

theorem strength_score_is_exact:
  "((\<exists>s. score_password_strength pw = Inr s) \<longleftrightarrow> pw \<noteq> [] \<and> length pw < 2 ^ 16) \<and>
   (\<forall>s. score_password_strength pw = Inr s \<longrightarrow> unat s = reference_score pw \<and> unat s \<le> 100) \<and>
   (validate_password_policy pw = Inr () \<longrightarrow>
      (\<exists>s. score_password_strength pw = Inr s \<and> 85 \<le> unat s))"
proof -
  have exact: "score_password_strength pw = Inr (word_of_nat (reference_score pw))"
    if "pw \<noteq> []" "length pw < 2 ^ 16"
  proof -
    let ?base = "bonus (8 \<le> length pw) 10 + bonus (12 \<le> length pw) 15 + bonus (16 \<le> length pw) 20
      + bonus (24 \<le> length pw) 15 + bonus (has_lowercase pw) 10 + bonus (has_uppercase pw) 10
      + bonus (has_digit pw) 10 + bonus (has_symbol pw) 10 + bonus (length pw \<le> 2 * card (set pw)) 10"
    have "10 \<le> ?base \<or> ?base = 0" by (intro gap_add gap_bonus) simp_all
    moreover have "?base \<le> 10 + 15 + 20 + 15 + 10 + 10 + 10 + 10 + 10" by (intro add_le_mono bonus_le)
    then have "?base \<le> 110" by simp
    ultimately have "10 \<le> ?base \<or> ?base = 0" "?base \<le> 110" .
    note cap = capped_score [OF this(2,1), of "has_whitespace pw"]
    have "points (word_of_nat (length pw) \<le> saturating_double (count_unique pw (\<lambda>_. False) 0)) 10
        (points (has_symbol pw) 10 (points (has_digit pw) 10 (points (has_uppercase pw) 10
        (points (has_lowercase pw) 10 (points (24 \<le> length pw) 15 (points (MIN_PASSWORD_LENGTH \<le> length pw) 20
        (points (12 \<le> length pw) 15 (points (8 \<le> length pw) 10 0)))))))) = word_of_nat ?base"
      by (simp only: half_unique [OF that(2)] MIN_PASSWORD_LENGTH_def points_add of_nat_add of_bonus add_ac add_0)
    then show ?thesis
      using that unfolding score_password_strength_def reference_score_def Let_def
      by (simp only: if_False linorder_not_le [symmetric] not_not cap)
  qed
  have "reference_score pw \<le> 100" by (simp add: reference_score_def Let_def)
  then have fits: "unat (word_of_nat (reference_score pw) :: 8 word) = reference_score pw"
    by (simp add: unat_of_nat)
  have policy: "85 \<le> reference_score pw \<and> pw \<noteq> [] \<and> length pw < 2 ^ 16" if "validate_password_policy pw = Inr ()"
    using that unfolding policy_ok by (auto simp: reference_score_def Let_def bonus_def)
  show ?thesis
  proof (cases "pw \<noteq> [] \<and> length pw < 2 ^ 16")
    case True
    then show ?thesis using exact fits policy \<open>reference_score pw \<le> 100\<close> by auto
  next
    case False
    then have "\<nexists>s. score_password_strength pw = Inr s"
      by (auto simp: score_password_strength_def Let_def split: if_splits)
    with False policy show ?thesis by auto
  qed
qed

section \<open>Concrete inputs\<close>

theorem random_index_is_unbiased_witness:
  "card {c. c < zone_of (word_of_nat 25) \<and> unat (c mod word_of_nat 25) = 7} = (2 ^ 32 - 1) div 25"
  using random_index_is_unbiased [of 25 7] by simp

definition steady :: source where
  "steady = (\<lambda>i. if even i then Some 0xFFFFFFFF else Some (word_of_nat i mod 1024))"

lemma steady_fair: "fair steady"
proof -
  have "\<exists>j\<ge>i. \<exists>c. steady j = Some c \<and> c < 0x80000000" for i
  proof (intro exI conjI)
    show "i \<le> 2 * i + 1" by simp
    show "steady (2 * i + 1) = Some (word_of_nat (2 * i + 1) mod 1024)" by (simp add: steady_def)
    have "unat (word_of_nat (2 * i + 1) mod 1024 :: 32 word) < 1024" by (simp only: unat_mod) simp
    then show "(word_of_nat (2 * i + 1) mod 1024 :: 32 word) < 0x80000000"
      unfolding word_less_nat_alt by simp
  qed
  moreover have "steady i \<noteq> None" for i by (simp add: steady_def)
  ultimately show ?thesis unfolding fair_def by blast
qed

theorem generated_passwords_meet_the_policy_witness:
  "\<exists>pw j. generate_password steady 0 3 = Some (Inr pw, j) \<and> validate_password_policy pw = Inr () \<and>
     length pw = 24 \<and>
     set pw \<subseteq> set (LOWERCASE_CHARSET @ UPPERCASE_CHARSET @ DIGIT_CHARSET @ SYMBOL_CHARSET)"
  using generated_passwords_meet_the_policy [OF steady_fair disjI1 [OF refl], of 3] by simp

theorem strength_score_is_exact_witness:
  "\<exists>s. score_password_strength (str_bytes ''aB3!aB3!aB3!aB3!'') = Inr s \<and> 85 \<le> unat s"
proof -
  have "validate_password_policy (str_bytes ''aB3!aB3!aB3!aB3!'') = Inr ()" by code_simp
  then show ?thesis using strength_score_is_exact [of "str_bytes ''aB3!aB3!aB3!aB3!''"] by simp
qed

end
