(* ===== verification/System.thy ===== *)
theory System
  imports Totp_Service Auth_Policy Import_Service Team_Service Secret_Service Admin_Properties
begin

text \<open>
  The services together: one call of any operation that writes to the database as a value, a run as
  a sequence of calls, restarts and the passing of time, and what holds in every state a run reaches.
  What an operation does to the database is composed of few statements; the locale
  \<open>statement_order\<close> carries a step order from the statements to the calls.
\<close>

section \<open>Calls\<close>

text \<open>The arguments of a constructor are those of the operation, random draws included.\<close>

datatype db_call =
    CallCreateVault uuid "bytes option" "bytes option" uuid string bytes
  | CallOpenVault uuid uuid bytes
  | CallOpenOwnVault uuid bytes
  | CallDeleteVault uuid uuid
  | CallCreateTeam uuid uuid string
  | CallDeleteTeam uuid uuid
  | CallAddMember uuid uuid uuid team_member_role
  | CallRemoveMember uuid uuid uuid
  | CallGrantAccess "bytes option" uuid uuid uuid bytes bytes
  | CallShareWithTeam "uuid \<Rightarrow> bytes option" uuid uuid uuid bytes "(uuid \<times> bytes) list"
  | CallRevokeAccess uuid uuid uuid
  | CallRotateKey "bytes option" uuid uuid bytes "(uuid \<times> bytes \<times> uuid option) list"
  | CallCreateSecret uuid "bytes option" uuid secret_type "string option" "string option" "string option"
      "string option" bytes bytes
  | CallUpdateSecret "bytes option" uuid "string option" "string option" "string option" "string option"
      "bytes option" bytes
  | CallSoftDelete uuid
  | CallRestoreSecret uuid uuid
  | CallPermanentDelete uuid uuid
  | CallEmptyTrash uuid
  | CallCountUse uuid
  | CallImportCsv import_crates "nat \<Rightarrow> uuid" "nat \<Rightarrow> bytes option" csv_file uuid bytes
  | CallRecordLogin uuid "string option" "string option"
  | CallFailedAttempt string
  | CallResetAttempts string
  | CallLockState string
  | CallAutoLockDelay string int

definition quiet :: "('e, 's, 'a) act \<Rightarrow> ('e, 's, unit) act" where
  "quiet m = bindE m (\<lambda>_. ret ())"

primrec perform :: "primitives \<Rightarrow> db_call \<Rightarrow> unit dbm" where
  "perform P (CallCreateVault i kr nr owner name mk) = quiet (create_vault P i kr nr owner name mk)"
| "perform P (CallOpenVault uid vid mk) = quiet (open_vault_for_user P uid vid mk)"
| "perform P (CallOpenOwnVault vid mk) = quiet (open_vault P vid mk)"
| "perform P (CallDeleteVault uid vid) = delete_vault uid vid"
| "perform P (CallCreateTeam i creator name) = quiet (create_team i creator name)"
| "perform P (CallDeleteTeam uid tid) = delete_team uid tid"
| "perform P (CallAddMember by_user tid uid ro) = add_member by_user tid uid ro"
| "perform P (CallRemoveMember by_user tid uid) = remove_member by_user tid uid"
| "perform P (CallGrantAccess nr by_user vid uid key mk) = grant_vault_access P nr by_user vid uid key mk"
| "perform P (CallShareWithTeam nrs by_user vid tid key keys) = share_vault_with_team P nrs by_user vid tid key keys"
| "perform P (CallRevokeAccess by_user vid uid) = revoke_vault_access by_user vid uid"
| "perform P (CallRotateKey kr by_user vid env envs) = quiet (rotate_vault_key kr by_user vid env envs)"
| "perform P (CallCreateSecret i nr vid ty ti meta tg ex pt key) =
     quiet (create_secret P i nr vid ty ti meta tg ex pt key)"
| "perform P (CallUpdateSecret nr sid ti meta tg ex pt key) = update_secret P nr sid ti meta tg ex pt key"
| "perform P (CallSoftDelete sid) = soft_delete sid"
| "perform P (CallRestoreSecret sid vid) = restore_secret sid vid"
| "perform P (CallPermanentDelete sid vid) = permanent_delete sid vid"
| "perform P (CallEmptyTrash vid) = quiet (empty_trash vid)"
| "perform P (CallCountUse sid) = increment_usage_count sid"
| "perform P (CallImportCsv C ids nrs f uid mk) = quiet (import_csv P C ids nrs f uid mk)"
| "perform P (CallRecordLogin uid ip dev) = record_successful_login uid ip dev"
| "perform P (CallFailedAttempt name) = quiet (record_failed_attempt name)"
| "perform P (CallResetAttempts name) = reset_failed_attempts name"
| "perform P (CallLockState name) = quiet (get_state name)"
| "perform P (CallAutoLockDelay name mins) = update_auto_lock_delay name mins"

text \<open>The calls that reach the credentials in memory and the replay guard as well.\<close>

datatype call =
    DbCall db_call
  | CallBootstrap "bytes option" uuid string bytes
  | CallCreateUser "bytes option" uuid uuid string bytes user_role
  | CallDeleteUser uuid uuid
  | CallChangeRole uuid uuid user_role
  | CallResetPassword "bytes option" uuid uuid bytes
  | CallUpdateProfile uuid user_profile_update
  | CallChangePassword "bytes option" uuid bytes bytes
  | CallShowPasswords uuid bool
  | CallEnableTotp "bytes option" uuid string string string
  | CallDisableTotp uuid
  | CallVerifyTotp "bytes option" string bytes string

record setting =
  set_totp :: totp_crate
  set_primitives :: primitives
  set_kdf :: kdf_config
  set_issuer :: string

primrec run_call :: "setting \<Rightarrow> call \<Rightarrow> unit rtm" where
  "run_call S (DbCall c) = rt_db (perform (set_primitives S) c)"
| "run_call S (CallBootstrap rnd i name pw) =
     on_app (quiet (bootstrap_first_admin (set_primitives S) (set_kdf S) rnd i name pw))"
| "run_call S (CallCreateUser rnd i actor name pw ro) =
     on_app (quiet (admin_create_user (set_primitives S) (set_kdf S) rnd i actor name pw ro))"
| "run_call S (CallDeleteUser actor uid) = on_app (admin_delete_user actor uid)"
| "run_call S (CallChangeRole actor uid ro) = on_app (admin_update_user_role actor uid ro)"
| "run_call S (CallResetPassword rnd actor uid pw) =
     on_app (quiet (admin_reset_user_password (set_primitives S) (set_kdf S) rnd actor uid pw))"
| "run_call S (CallUpdateProfile uid upd) =
     on_app (quiet (update_user_profile (set_primitives S) (set_kdf S) uid upd))"
| "run_call S (CallChangePassword rnd uid pw pw') =
     on_app (change_master_password (set_primitives S) (set_kdf S) rnd uid pw pw')"
| "run_call S (CallShowPasswords uid b) = on_app (quiet (update_show_passwords_in_edit uid b))"
| "run_call S (CallEnableTotp rnd uid name b32 code) =
     enable_totp (set_totp S) (set_primitives S) (set_issuer S) rnd uid name b32 code"
| "run_call S (CallDisableTotp uid) = disable_totp uid"
| "run_call S (CallVerifyTotp rnd name pw code) =
     quiet (verify_login_totp (set_totp S) (set_primitives S) (set_kdf S) (set_issuer S) rnd name pw code)"

text \<open>The calls that write to the vaults or to their shares.\<close>

fun access_call :: "db_call \<Rightarrow> bool" where
  "access_call (CallCreateVault i kr nr owner name mk) = True"
| "access_call (CallDeleteVault uid vid) = True"
| "access_call (CallDeleteTeam uid tid) = True"
| "access_call (CallRemoveMember by_user tid uid) = True"
| "access_call (CallGrantAccess nr by_user vid uid key mk) = True"
| "access_call (CallShareWithTeam nrs by_user vid tid key keys) = True"
| "access_call (CallRevokeAccess by_user vid uid) = True"
| "access_call (CallRotateKey kr by_user vid env envs) = True"
| "access_call (CallRestoreSecret sid vid) = True"
| "access_call c = False"

section \<open>Step orders over the statements\<close>

lemma read_row_reads [step_intros]: "reads_only (read_row C idx r)"
  by (cases idx) (simp add: read_row_def, intro step_intros)

lemma parse_records_reads [step_intros]: "reads_only (parse_records C idx rs rows)"
  by (induction C idx rs rows rule: parse_records.induct) (auto intro!: step_intros split: option.split)

lemma parse_csv_reads [step_intros]: "reads_only (parse_csv_rows C csv)"
  unfolding parse_csv_rows_def by (intro step_intros)

text \<open>The statements that touch neither the vaults nor the shares, and the calls made of them.  The
  order assumes nothing of the insertion and deletion of users and of role changes.\<close>

locale plain_order = step_order R for R :: "db \<Rightarrow> db \<Rightarrow> bool" +
  assumes st_users: "(\<And>t r. u_id (f t r) = u_id r \<and> u_role (f t r) = u_role r) \<Longrightarrow> moves R (update_users p f)"
    and st_secret: "moves R (exec_sql (insert_secret_row (new_secret_row now i blob)))"
    and st_secrets: "(\<And>t r. si_id (fs t r) = si_id r \<and> si_vault (fs t r) = si_vault r \<and> si_usage r \<le> si_usage (fs t r)) \<Longrightarrow>
      moves R (update_secrets ps fs)"
      "moves R (delete_secrets ps)"
    and st_team: "moves R (exec_sql (insert_team_row t))"
    and st_members: "moves R (exec_sql (upsert_member_row m))" "moves R (delete_members pm)"
    and st_audit: "moves R (audit_append actor act tty tref det)"
    and st_login: "moves R (record_successful_login uid ip dev)"
    and st_policies: "moves R (ensure_row_exists name)"
      "(\<And>t r. p_user (fp t r) = p_user r) \<Longrightarrow> moves R (update_policy name fp)"
begin

lemmas st_intros = moves_bindE moves_catch moves_transaction moves_for_each moves_map_each moves_pure
  moves_cond moves_option moves_sum moves_pair

lemma st_queries:
  "moves R (user_get_by_id uid)" "moves R (require_user uid msg)" "moves R (require_access uid vid)"
  "moves R (load_envelope uid vid a)" "moves R (vault_get_by_id vid)" "moves R (team_get_by_id tid)"
  "moves R (team_list_member_user_ids tid)" "moves R (require_team_permission uid tid a2)"
  "moves R (resolve_member_master_key uid keys)" "moves R (fetch_optional tbl q)" "moves R (list_user_vaults uid)"
  "moves R (fetch_policy name)" "moves R (parse_csv_rows C csv)"
  by (intro moves_of_reads step_intros)+

lemma st_rows: "moves R m \<Longrightarrow> moves R (require_rows m e)"
  unfolding require_rows_def by (intro st_intros)

lemma st_event: "moves R (record_event actor act tty tref det)"
  unfolding record_event_def by (rule st_audit)

lemma store_blob_usage [simp]: "si_usage (store_blob st b r) = si_usage r"
  by (simp add: store_blob_def split: blob_storage.split)

lemmas st_steps = st_intros st_queries st_rows st_event st_policies st_secret st_secrets st_team st_members
  st_audit st_login

lemma st_members_repository:
  "moves R (team_create tid name by_user)" "moves R (team_add_member tid uid ro)" "moves R (team_remove_member tid uid)"
  unfolding team_create_def team_add_member_def team_remove_member_def
  by (intro st_steps)+

lemma st_secret_repository:
  "moves R (secret_insert_blob i b)" "moves R (secret_update_metadata sid ti meta tg ex)"
  "moves R (secret_update_blob sid b)" "moves R (secret_increment_usage sid)" "moves R (secret_soft_delete sid)"
  "moves R (secret_permanent_delete sid vid)" "moves R (secret_empty_trash vid)"
  unfolding secret_insert_blob_def secret_update_metadata_def secret_update_blob_def secret_increment_usage_def
    secret_soft_delete_def secret_permanent_delete_def secret_empty_trash_def
  by (intro st_steps | simp)+

lemma st_plain_service:
  "moves R (open_vault_for_user P uid vid mk)" "moves R (open_vault P vid mk)"
  "moves R (create_team i creator name)" "moves R (add_member by_user tid uid ro)"
  unfolding open_vault_def open_vault_for_user_def create_team_def add_member_def
  by (intro st_steps st_members_repository)+

lemma st_secret_service:
  "moves R (create_secret P i nr vid ty ti meta tg ex pt key)"
  "moves R (update_secret P nr sid ti meta tg ex po key)" "moves R (soft_delete sid)"
  "moves R (permanent_delete sid vid)" "moves R (empty_trash vid)" "moves R (increment_usage_count sid)"
  unfolding create_secret_def update_secret_def soft_delete_def permanent_delete_def
    empty_trash_def increment_usage_count_def record_deletion_def Let_def
  by (intro st_steps st_secret_repository)+

lemma st_import_rows: "moves R (import_rows P C ids nrs vid key rows n)"
  by (induction rows arbitrary: n)
     (auto simp: import_row_def intro!: st_intros st_secret_service)

lemma st_import: "moves R (import_csv P C ids nrs f uid mk)"
  unfolding import_csv_def by (intro st_steps st_plain_service st_import_rows)

lemma st_policy_service:
  "moves R (get_state name)" "moves R (record_failed_attempt name)" "moves R (reset_failed_attempts name)"
  "moves R (update_auto_lock_delay name mins)"
  unfolding get_state_def record_failed_attempt_def reset_failed_attempts_def update_auto_lock_delay_def
  by (intro st_steps | simp)+

lemma st_quiet: "moves R m \<Longrightarrow> moves R (quiet m)"
  unfolding quiet_def by (intro st_intros)

lemma st_perform_plain: "\<not> access_call c \<Longrightarrow> moves R (perform P c)"
  by (cases c) (simp_all add: st_quiet st_plain_service st_secret_service st_import st_policy_service st_login)

lemma st_user_updates:
  "moves R (user_update_profile uid mail disp lang show_pw)" "moves R (user_update_password_envelope uid env)"
  "moves R (user_update_show_passwords uid b)"
  unfolding user_update_profile_def user_update_password_envelope_def user_update_show_passwords_def
  by (intro st_rows st_users; simp)+

end

text \<open>The statements on vaults and shares as well, and with them every call.\<close>

locale statement_order = plain_order +
  assumes st_vault: "moves R (exec_sql (insert_vault_row v))"
    and st_vaults: "(\<And>t r. v_id (fv t r) = v_id r \<and> v_owner (fv t r) = v_owner r) \<Longrightarrow> moves R (update_vaults pv fv)"
    and st_delete_team: "R s (delete_team_row tid s)"
    and st_shares: "moves R (exec_sql (insert_share_row k))" "moves R (exec_sql (upsert_share_row k))"
      "moves R (delete_shares pk)"
begin

lemma st_modified: "moves R (modify (delete_team_row tid))"
  by (simp add: moves_def run_simps st_delete_team)

lemmas st_access_steps = st_steps st_modified st_vault st_vaults st_shares

lemma st_vault_repository:
  "moves R (vault_create v)" "moves R (vault_delete vid)" "moves R (vault_update_key_envelope vid env)"
  "moves R (vault_insert_key_share vid uid env by_user via ro)" "moves R (vault_delete_key_share vid uid)"
  "moves R (vault_replace_all_key_shares vid new_shares actor)" "moves R (vault_delete_shares_via_team uid tid)"
  unfolding vault_create_def vault_delete_def vault_update_key_envelope_def vault_insert_key_share_def
    vault_delete_key_share_def vault_replace_all_key_shares_def vault_delete_shares_via_team_def
  by (intro st_access_steps | simp)+

lemma st_other_repository: "moves R (team_delete tid)" "moves R (secret_restore sid vid)"
  unfolding team_delete_def secret_restore_def
  by (intro st_access_steps | simp)+

lemma st_share_members: "moves R (share_vault_with_members P nrs by_user vid tid key keys ms g k)"
  by (induction ms arbitrary: g k)
     (auto simp: insert_team_key_share_def intro!: st_steps st_vault_repository)

lemma st_access_service:
  "moves R (create_vault P i kr nr owner name mk)" "moves R (delete_vault uid vid)"
  "moves R (delete_team uid tid)" "moves R (remove_member by_user tid uid)"
  "moves R (grant_vault_access P nr by_user vid uid key mk)"
  "moves R (share_vault_with_team P nrs by_user vid tid key keys)" "moves R (revoke_vault_access by_user vid uid)"
  "moves R (rotate_vault_key kr by_user vid env envs)" "moves R (restore_secret sid vid)"
  unfolding create_vault_def delete_vault_def delete_team_def remove_member_def grant_vault_access_def
    share_vault_with_team_def revoke_vault_access_def rotate_vault_key_def record_team_share_event_def
    persist_rotated_vault_keys_def record_vault_rotation_event_def restore_secret_def Let_def
  by (intro st_steps st_vault_repository st_members_repository st_other_repository st_share_members)+

theorem st_perform: "moves R (perform P c)"
proof (cases "access_call c")
  case True
  then show ?thesis by (cases c) (simp_all add: st_quiet st_access_service)
next
  case False
  then show ?thesis by (rule st_perform_plain)
qed

end

section \<open>Calls along a step order\<close>

lemma on_db_moves: "moves R m \<Longrightarrow> moves (\<lambda>w w'. R (app_db w) (app_db w')) (on_db m)"
  by (auto simp: moves_def on_db_def zoom_def split: prod.split) (metis snd_conv)

lemma on_auth_moves: "(\<And>s. R s s) \<Longrightarrow> moves (\<lambda>w w'. R (app_db w) (app_db w')) (on_auth m)"
  by (auto simp: moves_def on_auth_def zoom_def split: prod.split)

lemma on_app_moves: "moves (\<lambda>w w'. R (app_db w) (app_db w')) m \<Longrightarrow> moves (\<lambda>w w'. R (wdb w) (wdb w')) (on_app m)"
  by (auto simp: moves_def on_app_def zoom_def split: prod.split) (metis snd_conv)

text \<open>The calls that create or delete an account or change a role.\<close>

fun account_call :: "call \<Rightarrow> bool" where
  "account_call (CallBootstrap rnd i name pw) = True"
| "account_call (CallCreateUser rnd i actor name pw ro) = True"
| "account_call (CallDeleteUser actor uid) = True"
| "account_call (CallChangeRole actor uid ro) = True"
| "account_call c = False"

sublocale plain_order < app_order: step_order "\<lambda>w w'. R (app_db w) (app_db w')"
  by unfold_locales (auto intro: R_refl R_trans)

sublocale plain_order < run_order: step_order "\<lambda>w w'. R (wdb w) (wdb w')"
  by unfold_locales (auto intro: R_refl R_trans)

context plain_order
begin

lemmas app_st_intros = app_order.moves_bindE app_order.moves_pure app_order.moves_cond app_order.moves_option
  app_order.moves_sum app_order.moves_pair on_auth_moves [where R = R, OF R_refl] on_db_moves [where R = R]

lemma app_st_reads: "moves (\<lambda>w w'. R (app_db w) (app_db w')) (user_found msg uid)"
  "moves (\<lambda>w w'. R (app_db w) (app_db w')) (require_admin actor)"
  "moves (\<lambda>w w'. R (app_db w) (app_db w')) admin_count"
  "moves (\<lambda>w w'. R (app_db w) (app_db w')) (on_db user_list_all)"
  by (intro app_order.moves_of_reads step_intros)+

lemma app_st_quiet: "moves (\<lambda>w w'. R (app_db w) (app_db w')) m \<Longrightarrow> moves (\<lambda>w w'. R (app_db w) (app_db w')) (quiet m)"
  unfolding quiet_def by (intro app_st_intros)

lemma st_account_service:
  "moves (\<lambda>w w'. R (app_db w) (app_db w')) (admin_reset_user_password P cfg rnd actor uid pw)"
  "moves (\<lambda>w w'. R (app_db w) (app_db w')) (update_user_profile P cfg uid upd)"
  "moves (\<lambda>w w'. R (app_db w) (app_db w')) (change_master_password P cfg rnd uid pw pw')"
  "moves (\<lambda>w w'. R (app_db w) (app_db w')) (update_show_passwords_in_edit uid b)"
  unfolding admin_reset_user_password_def update_user_profile_def change_master_password_def
    update_show_passwords_in_edit_def Let_def
  by (intro app_st_intros app_st_reads st_user_updates st_event)+

lemmas run_st_intros = run_order.moves_bindE run_order.moves_pure run_order.moves_cond run_order.moves_option
  run_order.moves_sum run_order.moves_pair run_order.moves_catch

lemma run_st_parts:
  "moves (\<lambda>w w'. R (wdb w) (wdb w')) (rt_auth ma)"
  "moves (\<lambda>w w'. R (wdb w) (wdb w')) (check_current C msg t code)"
  "moves (\<lambda>w w'. R (wdb w) (wdb w')) (load_totp_secret_by_username name)"
  "moves (\<lambda>w w'. R (wdb w) (wdb w')) (reject_replay_and_record name code now)"
  by (rule on_app_moves [where R = R, OF on_auth_moves [where R = R, OF R_refl]])
     (simp_all add: moves_def run_simps reject_replay_run R_refl)

lemma run_st_totp:
  "moves (\<lambda>w w'. R (wdb w) (wdb w')) (rt_db (update_users p (\<lambda>t r. r\<lparr>u_totp := x\<rparr>)))"
  "moves (\<lambda>w w'. R (wdb w) (wdb w')) (rt_db (require_rows (update_users p (\<lambda>t r. r\<lparr>u_totp := x\<rparr>)) e))"
  by (rule on_app_moves [where R = R], rule on_db_moves [where R = R], intro st_rows st_users; simp)+

lemma run_st_login:
  "moves (\<lambda>w w'. R (wdb w) (wdb w')) (verify_login_totp C P cfg issuer rnd name pw code)"
  "moves (\<lambda>w w'. R (wdb w) (wdb w')) (enable_totp C P issuer rnd uid name b32 code)"
  "moves (\<lambda>w w'. R (wdb w) (wdb w')) (disable_totp uid)"
  unfolding verify_login_totp_def legacy_login_totp_def enable_totp_def disable_totp_def verify_setup_code_def
  by (intro run_st_intros run_st_parts run_st_totp)+

lemma run_st_quiet: "moves (\<lambda>w w'. R (wdb w) (wdb w')) m \<Longrightarrow> moves (\<lambda>w w'. R (wdb w) (wdb w')) (quiet m)"
  unfolding quiet_def by (intro run_st_intros)

theorem st_service_call:
  "\<not> account_call c \<Longrightarrow> (\<And>d. c = DbCall d \<Longrightarrow> moves R (perform (set_primitives S) d)) \<Longrightarrow>
     moves (\<lambda>w w'. R (wdb w) (wdb w')) (run_call S c)"
  by (cases c) (simp_all add: on_app_moves [where R = R] on_db_moves [where R = R] app_st_quiet
      st_account_service run_st_quiet run_st_login)

end

context statement_order
begin

theorem st_run_call: "\<not> account_call c \<Longrightarrow> moves (\<lambda>w w'. R (wdb w) (wdb w')) (run_call S c)"
  by (rule st_service_call) (simp_all add: st_perform)

end

section \<open>The audit trail\<close>

text \<open>A row without the reference that the deletion of its author clears.\<close>

definition anonymous :: "audit_row \<Rightarrow> audit_row" where
  "anonymous a = a\<lparr>a_actor := None\<rparr>"

definition same_entry :: "audit_row \<Rightarrow> audit_row \<Rightarrow> bool" where
  "same_entry a b \<longleftrightarrow> b = a \<or> b = anonymous a"

definition extends_trail :: "db \<Rightarrow> db \<Rightarrow> bool" where
  "extends_trail s s' \<longleftrightarrow> (\<exists>old new. audits s' = old @ new \<and> list_all2 same_entry (audits s) old)"

definition appends_entries :: "db \<Rightarrow> db \<Rightarrow> bool" where
  "appends_entries s s' \<longleftrightarrow> (\<exists>new. audits s' = audits s @ new)"

lemma same_entry_refl [simp]: "same_entry a a"
  by (simp add: same_entry_def)

lemma same_entry_trans: "same_entry a b \<Longrightarrow> same_entry b c \<Longrightarrow> same_entry a c"
  by (auto simp: same_entry_def anonymous_def)

lemma extends_trail_append: "audits s' = audits s @ new \<Longrightarrow> extends_trail s s'"
  unfolding extends_trail_def by (intro exI conjI) (simp, rule list.rel_refl, simp)

lemma extends_trail_same: "audits s' = audits s \<Longrightarrow> extends_trail s s'"
  by (rule extends_trail_append [where new = "[]"]) simp

lemma extends_trail_trans:
  assumes "extends_trail a b" and "extends_trail b c"
  shows "extends_trail a c"
proof -
  obtain old new where b: "audits b = old @ new" "list_all2 same_entry (audits a) old"
    using assms(1) by (auto simp: extends_trail_def)
  obtain old' new' where c: "audits c = old' @ new'" "list_all2 same_entry (old @ new) old'"
    using assms(2) b(1) by (auto simp: extends_trail_def)
  then obtain xs ys where xs: "old' = xs @ ys" "list_all2 same_entry old xs" by (auto simp: list_all2_append1)
  have "list_all2 same_entry (audits a) xs" by (rule list_all2_trans [OF same_entry_trans b(2) xs(2)])
  with c(1) xs(1) show ?thesis by (auto simp: extends_trail_def)
qed

lemmas statement_defs = moves_def exec_sql_def update_users_def insert_vault_row_def update_vaults_def
  insert_secret_row_def update_secrets_def delete_secrets_def insert_team_row_def delete_team_row_def
  upsert_member_row_def delete_members_def insert_share_row_def upsert_share_row_def delete_shares_def
  audit_append_def insert_audit_row_def record_successful_login_def insert_login_row_def ensure_row_exists_def
  update_policy_def bindE_run run_simps Let_def

interpretation audit_trail: statement_order extends_trail
  by unfold_locales
    (auto simp: statement_defs intro: extends_trail_same extends_trail_append extends_trail_trans split: sum.split option.split)

interpretation trail: statement_order appends_entries
  by unfold_locales (auto simp: statement_defs appends_entries_def split: sum.split option.split)

section \<open>Who is an administrator\<close>

definition roles_of :: "db \<Rightarrow> (uuid \<times> string) list" where
  "roles_of s = map (\<lambda>r. (u_id r, u_role r)) (users s)"

interpretation same_roles: statement_order "\<lambda>s s'. roles_of s' = roles_of s"
  by unfold_locales (auto simp: statement_defs roles_of_def update_rows_def)

text \<open>There is no user yet, or one of them is an administrator.\<close>

definition staffed :: "db \<Rightarrow> bool" where
  "staffed s \<longleftrightarrow> users s = [] \<or> admins s \<noteq> []"

lemma staffed_roles: "staffed s \<longleftrightarrow> roles_of s = [] \<or> ''admin'' \<in> snd ` set (roles_of s)"
  by (force simp: staffed_def roles_of_def admins_def filter_empty_conv)

section \<open>The constraints\<close>

interpretation well_formed: statement_order "\<lambda>s s'. db_ok s \<longrightarrow> db_ok s'"
proof (unfold_locales, fold keeps_def)
qed (auto intro!: step_intros delete_team_ok update_policy_keeps ensure_row_keeps)

section \<open>Accounts\<close>

text \<open>The account a call deletes.\<close>

fun deleted_account :: "call \<Rightarrow> uuid option" where
  "deleted_account (CallDeleteUser actor uid) = Some uid"
| "deleted_account c = None"

text \<open>An order that the insertion of a user and a change of role move along as well.\<close>

locale staff_order = plain_order +
  assumes ac_user: "moves R (exec_sql (insert_user_row (new_user_row i name ro)))"
    and ac_role: "moves R (user_update_role uid ro)"
begin

lemma ac_staff_service:
  "moves (\<lambda>w w'. R (app_db w) (app_db w')) (bootstrap_first_admin P cfg rnd i name pw)"
  "moves (\<lambda>w w'. R (app_db w) (app_db w')) (admin_create_user P cfg rnd i actor name pw ro)"
  "moves (\<lambda>w w'. R (app_db w) (app_db w')) (admin_update_user_role actor uid ro)"
  unfolding bootstrap_first_admin_def admin_create_user_def admin_update_user_role_def Let_def user_create_db_def
  by (intro app_st_intros app_st_reads app_order.moves_of_reads [OF on_db_reads [OF user_queries_read(1)]]
      st_user_updates st_event ac_user ac_role)+

theorem ac_staff_call:
  "deleted_account c = None \<Longrightarrow> (\<And>d. c = DbCall d \<Longrightarrow> moves R (perform (set_primitives S) d)) \<Longrightarrow>
     moves (\<lambda>w w'. R (wdb w) (wdb w')) (run_call S c)"
proof (cases "account_call c")
  case True
  moreover assume "deleted_account c = None"
  ultimately show ?thesis
    by (cases c) (simp_all add: on_app_moves [where R = R] app_st_quiet ac_staff_service)
next
  case False
  moreover assume "\<And>d. c = DbCall d \<Longrightarrow> moves R (perform (set_primitives S) d)"
  ultimately show ?thesis by (rule st_service_call)
qed

end

text \<open>An order that the deletion of a user moves along as well holds over every call.\<close>

locale account_order = statement_order R + staff_order R for R :: "db \<Rightarrow> db \<Rightarrow> bool" +
  assumes ac_delete: "moves R (user_delete uid)"
begin

lemma ac_delete_service: "moves (\<lambda>w w'. R (app_db w) (app_db w')) (admin_delete_user actor uid)"
  unfolding admin_delete_user_def
  by (intro app_st_intros app_st_reads st_event ac_delete)+

theorem ac_run_call: "moves (\<lambda>w w'. R (wdb w) (wdb w')) (run_call S c)"
proof (cases "deleted_account c")
  case (Some uid)
  then show ?thesis by (cases c) (simp_all add: on_app_moves [where R = R] ac_delete_service)
qed (rule ac_staff_call, simp_all add: st_perform)

end

lemma forgotten_entries: "list_all2 same_entry as (update_rows (\<lambda>a. a_actor a = Some uid) (\<lambda>a. a\<lparr>a_actor := None\<rparr>) as)"
  by (simp add: update_rows_def list_all2_map2 list_all2_same same_entry_def anonymous_def)

interpretation audit_trail: account_order extends_trail
proof
  show "moves extends_trail (user_delete uid)" for uid
  proof -
    have "extends_trail s (cascade_user uid (delete_logins_of uid s))" for s
      unfolding extends_trail_def using forgotten_entries
      by (intro exI [of _ "audits (cascade_user uid (delete_logins_of uid s))"] exI [of _ "[]"])
         (simp add: cascade_user_def delete_logins_of_def)
    then show ?thesis
      by (auto simp: moves_def user_delete_def transaction_def exec_sql_def delete_user_row_def bindE_run run_simps
          extends_trail_same delete_logins_of_def split: sum.split)
  qed
qed (auto simp: moves_def user_update_role_def require_rows_def statement_defs insert_user_row_def
    intro: extends_trail_same split: sum.split)

interpretation trail: staff_order appends_entries
  by unfold_locales (auto simp: user_update_role_def require_rows_def statement_defs insert_user_row_def
      appends_entries_def split: sum.split)

interpretation well_formed: account_order "\<lambda>s s'. db_ok s \<longrightarrow> db_ok s'"
  by (unfold_locales, fold keeps_def) (auto intro!: step_intros)

section \<open>An administrator remains\<close>

lemma no_users_no_admin:
  assumes "users (app_db w) = []"
  shows "\<exists>e. require_admin actor w = (Inl e, w)"
  using assms
  by (simp add: require_admin_def user_found_def bindE_run on_db_run run_simps user_get_by_id_def fetch_optional_def
      optional_user_def first_row_def)

lemma staffed_by_admins:
  assumes "keeps (\<lambda>w. admins (app_db w) \<noteq> []) m"
    and "\<And>w. users (app_db w) = [] \<Longrightarrow> snd (m w) = w"
  shows "keeps (\<lambda>w. staffed (app_db w)) m"
  using assms by (fastforce simp: staffed_def keeps_def moves_def)

text \<open>Inserting a user keeps the administrators there are, and an administrator is one.\<close>

lemma user_create_users:
  "users (snd (user_create_db i name ro s)) = users s \<or>
   users (snd (user_create_db i name ro s)) = users s @ [new_user_row i name ro]"
  by (simp add: user_create_db_def exec_sql_def insert_user_row_def)

lemma insert_user_admins:
  "keeps (\<lambda>s. admins s \<noteq> []) (user_create_db i name ro)"
  "keeps staffed (user_create_db i name RoleAdmin)"
proof -
  have adm: "admins s' \<noteq> []" if "users s' = users s \<or> users s' = users s @ [r]" "admins s \<noteq> []" for s s' :: db and r
    using that by (auto simp: admins_def)
  show "keeps (\<lambda>s. admins s \<noteq> []) (user_create_db i name ro)"
    by (rule keepsI) (rule adm [OF user_create_users])
  have stf: "staffed s'" if "users s' = users s \<or> users s' = users s @ [new_user_row i name RoleAdmin]" "staffed s"
    for s s' :: db
    using that by (auto simp: admins_def staffed_def new_user_row_def)
  show "keeps staffed (user_create_db i name RoleAdmin)"
    by (rule keepsI) (rule stf [OF user_create_users])
qed

lemma same_roles_admins: "roles_of s' = roles_of s \<Longrightarrow> (admins s' \<noteq> []) = (admins s \<noteq> [])"
proof -
  have "(admins s \<noteq> []) = (''admin'' \<in> snd ` set (roles_of s))" for s
    by (force simp: roles_of_def admins_def filter_empty_conv)
  then show "roles_of s' = roles_of s \<Longrightarrow> (admins s' \<noteq> []) = (admins s \<noteq> [])" by simp
qed

lemma keeps_along_roles:
  assumes "moves (\<lambda>s s'. roles_of s' = roles_of s) m"
  shows "keeps (\<lambda>s. admins s \<noteq> []) m" "keeps staffed m"
proof -
  have same: "roles_of (snd (m s)) = roles_of s" for s using assms by (simp add: moves_def)
  show "keeps (\<lambda>s. admins s \<noteq> []) m"
    by (rule keepsI) (simp add: same_roles_admins [OF same])
  show "keeps staffed m"
    by (rule keepsI) (simp only: staffed_roles same)
qed

lemma bootstrap_staffed: "keeps (\<lambda>w. staffed (app_db w)) (bootstrap_first_admin P cfg rnd i name pw)"
  unfolding bootstrap_first_admin_def Let_def
  by (intro keeps_intros on_auth_keeps_db app_part_keeps on_db_keeps insert_user_admins
      keeps_along_roles same_roles.st_user_updates)+

lemma create_user_admins:
  "keeps (\<lambda>w. admins (app_db w) \<noteq> []) (admin_create_user P cfg rnd i actor name pw ro)"
  unfolding admin_create_user_def Let_def
  by (intro keeps_intros on_auth_keeps_db app_part_keeps on_db_keeps insert_user_admins
      keeps_along_roles same_roles.st_user_updates same_roles.st_event)+

lemma create_user_staffed: "keeps (\<lambda>w. staffed (app_db w)) (admin_create_user P cfg rnd i actor name pw ro)"
proof (rule staffed_by_admins [OF create_user_admins])
  fix w :: app assume "users (app_db w) = []"
  then obtain e where "require_admin actor w = (Inl e, w)" using no_users_no_admin by blast
  then show "snd (admin_create_user P cfg rnd i actor name pw ro w) = w"
    by (simp add: admin_create_user_def bindE_run)
qed

text \<open>Every call keeps an administrator.\<close>

lemma guarded_calls_staffed:
  assumes ok: "db_ok (app_db w)" and st: "staffed (app_db w)"
  shows "staffed (app_db (snd (admin_delete_user actor uid w)))"
    "staffed (app_db (snd (admin_update_user_role actor uid ro w)))"
proof -
  have "snd (admin_delete_user actor uid w) = w \<and> snd (admin_update_user_role actor uid ro w) = w"
    if "users (app_db w) = []"
  proof -
    obtain e where "require_admin actor w = (Inl e, w)" using no_users_no_admin \<open>users (app_db w) = []\<close> by blast
    then show ?thesis by (simp add: admin_delete_user_def admin_update_user_role_def bindE_run)
  qed
  then show "staffed (app_db (snd (admin_delete_user actor uid w)))"
    "staffed (app_db (snd (admin_update_user_role actor uid ro w)))"
    using st delete_keeps_an_admin [OF ok] role_change_keeps_an_admin [OF ok] by (auto simp: staffed_def)
qed

lemma on_app_post: "wdb (snd (on_app m w)) = app_db (snd (m (rt_app w)))"
  by (simp add: on_app_def zoom_def split: prod.split)

lemma quiet_post: "snd (quiet m w) = snd (m w)"
  by (cases "m w"; cases "fst (m w)") (simp_all add: quiet_def bindE_run run_simps)

theorem run_call_staffed:
  assumes ok: "db_ok (wdb w)" and st: "staffed (wdb w)"
  shows "staffed (wdb (snd (run_call S c w)))"
proof (cases "account_call c")
  case False
  from same_roles.st_run_call [OF this] have "roles_of (wdb (snd (run_call S c w))) = roles_of (wdb w)"
    by (simp add: moves_def)
  with st show ?thesis by (simp add: staffed_roles)
next
  case True
  then show ?thesis using guarded_calls_staffed [OF ok st] st
    by (cases c) (simp_all add: on_app_post quiet_post keepsD [OF bootstrap_staffed] keepsD [OF create_user_staffed])
qed

section \<open>Runs\<close>

definition set_clock :: "timestamp \<Rightarrow> runtime \<Rightarrow> runtime" where
  "set_clock t w = w\<lparr>rt_app := (rt_app w)\<lparr>app_db := (wdb w)\<lparr>clock := t\<rparr>\<rparr>\<rparr>"

text \<open>A process starts with no credentials and an empty replay guard, and fills the credentials from
  the database.\<close>

definition restart :: "runtime \<Rightarrow> runtime" where
  "restart w = snd (on_app start_services \<lparr> rt_app = (rt_app w)\<lparr>app_auth := new_auth_state\<rparr>, rt_replay = (\<lambda>_. None) \<rparr>)"

definition first_start :: "timestamp \<Rightarrow> runtime" where
  "first_start t = \<lparr> rt_app = \<lparr> app_db = empty_db t, app_auth = new_auth_state \<rparr>, rt_replay = (\<lambda>_. None) \<rparr>"

inductive run :: "setting \<Rightarrow> runtime \<Rightarrow> runtime \<Rightarrow> bool" for S where
  run_start: "run S w w"
| run_step: "run S w w' \<Longrightarrow> run S w (snd (run_call S c w'))"
| run_time: "run S w w' \<Longrightarrow> clock (wdb w') \<le> t \<Longrightarrow> run S w (set_clock t w')"
| run_restart: "run S w w' \<Longrightarrow> run S w (restart w')"

inductive_cases runE: "run S w w'"

lemma start_services_db: "keeps (\<lambda>w. app_db w = d) start_services"
proof -
  note part = startup_keeps [where P = "\<lambda>x. x = d"]
  show ?thesis
    unfolding start_services_def
    by (intro keeps_intros part) (auto intro!: keeps_intros part split: app_error.split)
qed

lemma restart_db: "wdb (restart w) = wdb w"
  using keepsD [OF start_services_db, of "(rt_app w)\<lparr>app_auth := new_auth_state\<rparr>" "wdb w"]
  by (simp add: restart_def on_app_post)

lemma run_order_along:
  assumes "run S w w'" and "\<And>c. moves (\<lambda>w w'. R (wdb w) (wdb w')) (run_call S c)"
    and "\<And>s. R s s" and "\<And>a b c. R a b \<Longrightarrow> R b c \<Longrightarrow> R a c" and "\<And>s t. R s (s\<lparr>clock := t\<rparr>)"
  shows "R (wdb w) (wdb w')"
  using assms(1)
proof (induction rule: run.induct)
  case (run_step w w' c)
  then show ?case using assms(2,4) unfolding moves_def by blast
next
  case (run_time w w' t)
  then show ?case using assms(4,5) by (simp add: set_clock_def)
qed (simp_all add: assms(3) restart_db)

section \<open>What holds in every state\<close>

text \<open>Every stored usage counter is at least 0.\<close>

definition counted_uses :: "db \<Rightarrow> bool" where
  "counted_uses s \<longleftrightarrow> (\<forall>i\<in>set (secrets s). 0 \<le> si_usage i)"

lemma counted_rows: "secrets s' = secrets s \<Longrightarrow> counted_uses s \<longrightarrow> counted_uses s'"
  by (simp add: counted_uses_def)

interpretation uses: account_order "\<lambda>s s'. counted_uses s \<longrightarrow> counted_uses s'"
proof unfold_locales
  fix fs :: "timestamp \<Rightarrow> secret_row \<Rightarrow> secret_row" and ps
  assume "\<And>t r. si_id (fs t r) = si_id r \<and> si_vault (fs t r) = si_vault r \<and> si_usage r \<le> si_usage (fs t r)"
  then have "0 \<le> si_usage (fs t r)" if "0 \<le> si_usage r" for t r using that order_trans by blast
  then show "moves (\<lambda>s s'. counted_uses s \<longrightarrow> counted_uses s') (update_secrets ps fs)"
    by (auto simp: moves_def update_secrets_def counted_uses_def Let_def set_update_rows)
next
  show "moves (\<lambda>s s'. counted_uses s \<longrightarrow> counted_uses s') (user_delete uid)" for uid
    by (auto simp: moves_def user_delete_def transaction_def exec_sql_def delete_user_row_def delete_logins_of_def
        cascade_user_def bindE_run run_simps counted_uses_def delete_rows_def split: sum.split)
qed (auto simp: user_update_role_def require_rows_def statement_defs insert_user_row_def counted_uses_def
    new_secret_row_def delete_rows_def split: sum.split)

lemma run_sound:
  assumes "run S w w'"
  shows "db_ok (wdb w) \<Longrightarrow> db_ok (wdb w')" "counted_uses (wdb w) \<Longrightarrow> counted_uses (wdb w')"
    "extends_trail (wdb w) (wdb w')"
proof -
  have "db_ok (wdb w) \<longrightarrow> db_ok (wdb w')"
    by (rule run_order_along [where R = "\<lambda>s s'. db_ok s \<longrightarrow> db_ok s'", OF assms well_formed.ac_run_call])
       (blast intro: one_table_ok(10))+
  then show "db_ok (wdb w) \<Longrightarrow> db_ok (wdb w')" by (rule mp)
  have "counted_uses (wdb w) \<longrightarrow> counted_uses (wdb w')"
    by (rule run_order_along [where R = "\<lambda>s s'. counted_uses s \<longrightarrow> counted_uses s'", OF assms uses.ac_run_call])
       (simp_all add: counted_rows)
  then show "counted_uses (wdb w) \<Longrightarrow> counted_uses (wdb w')" by (rule mp)
  show "extends_trail (wdb w) (wdb w')"
    by (rule run_order_along [OF assms audit_trail.ac_run_call])
       (auto intro: extends_trail_trans extends_trail_same)
qed

lemma run_staffed: "run S w w' \<Longrightarrow> db_ok (wdb w) \<Longrightarrow> staffed (wdb w) \<Longrightarrow> staffed (wdb w')"
proof (induction rule: run.induct)
  case (run_step w w' c)
  then show ?case by (intro run_call_staffed run_sound(1) [OF run_step.hyps]) simp_all
next
  case (run_time w w' t)
  then show ?case by (simp add: set_clock_def staffed_def admins_def)
qed (simp_all add: restart_db)

lemma first_start_sound: "db_ok (wdb (first_start t))" "staffed (wdb (first_start t))" "counted_uses (wdb (first_start t))"
  using empty_db_ok [of t] by (simp_all add: first_start_def staffed_def counted_uses_def empty_db_def)

text \<open>C2. Whatever operations of the services are called in whatever order and with whatever arguments,
  failed calls, restarts and the passing of time included, the database of an installation satisfies
  every constraint of the schema (unique keys, existing references, admitted values), and as soon as
  it has a user it has an administrator.\<close>

theorem reachable_databases_are_sound:
  assumes "run S (first_start t) w"
  shows "db_ok (wdb w) \<and> (users (wdb w) = [] \<or> (\<exists>u\<in>set (users (wdb w)). u_role u = ''admin''))"
  using run_sound(1) [OF assms first_start_sound(1)] run_staffed [OF assms first_start_sound(1,2)]
  by (auto simp: staffed_def admins_def filter_empty_conv)

text \<open>What the deletion of an account does to the database: nothing, or the deletion of the user with
  all that depends on it and then at most an entry.\<close>

lemma user_delete_state:
  "user_delete uid s = (r, s') \<Longrightarrow> s' = s \<or> uid \<in> set (user_ids s) \<and> s' = cascade_user uid (delete_logins_of uid s)"
  by (auto simp: user_delete_def transaction_def exec_sql_def delete_user_row_def bindE_run run_simps require_def
      user_ids_def delete_logins_of_def affected_pos split: if_splits sum.splits)

lemma delete_account_state:
  "\<exists>s'. (s' = app_db w \<or> uid \<in> set (user_ids (app_db w)) \<and> s' = cascade_user uid (delete_logins_of uid (app_db w))) \<and>
     same_but_audit s' (app_db (snd (admin_delete_user actor uid w))) \<and>
     appends_entries s' (app_db (snd (admin_delete_user actor uid w)))"
    (is "?Q (snd (admin_delete_user actor uid w))")
proof -
  have here: "?Q w" by (auto simp: same_but_audit_def appends_entries_def)
  show ?thesis
    unfolding admin_delete_user_def
  proof (rule post_reads [where Q = ?Q, OF user_found_reads(2) here],
      rule post_reads [where Q = ?Q, OF user_found_reads(1) here], rule post_reads [where Q = ?Q, OF _ here])
    fix t x
    let ?rec = "record_event (Some actor) UserDeleted (Some ''user'') (Some (TargetId uid))
              (Some [Lit ''{\"username\":\"'', Lit (username t), Lit ''\"}''])"
    obtain r s1 where d: "user_delete uid (app_db w) = (r, s1)" by (cases "user_delete uid (app_db w)")
    obtain q s2 where e: "?rec s1 = (q, s2)" by (cases "?rec s1")
    have "appends_entries s1 s2" using trail.st_event e unfolding moves_def by (metis snd_conv)
    with user_delete_state [OF d] record_event_same [OF e]
    show "?Q (snd (bindE (on_db (user_delete uid)) (\<lambda>_. on_db ?rec) w))"
      by (cases r) (auto simp: bindE_run on_db_run d e same_but_audit_def appends_entries_def)
  qed (intro step_intros)
qed

definition forget_author :: "uuid \<Rightarrow> audit_row \<Rightarrow> audit_row" where
  "forget_author uid a = (if a_actor a = Some uid then a\<lparr>a_actor := None\<rparr> else a)"

lemma deletion_log:
  "appends_entries (app_db w) (app_db (snd (admin_delete_user actor uid w))) \<or>
   uid \<notin> set (user_ids (app_db (snd (admin_delete_user actor uid w)))) \<and>
   (\<exists>new. audits (app_db (snd (admin_delete_user actor uid w))) = map (forget_author uid) (audits (app_db w)) @ new)"
proof -
  have gone: "audits (cascade_user uid (delete_logins_of uid s)) = map (forget_author uid) (audits s)" for s
    by (simp add: cascade_user_def delete_logins_of_def update_rows_def forget_author_def)
  have ids: "user_ids t = user_ids s" if "same_but_audit s t" for s t using that by (simp add: same_but_audit_def user_ids_def)
  show ?thesis
    using delete_account_state [of w uid actor]
    by (auto simp: appends_entries_def gone user_ids_cascade dest: ids)
qed

text \<open>C24. The audit log is append-only: along any run the entries that were there stay, in their place and
  with all their contents, except that an author may have been cleared, and only to nobody.  And any
  call, returning or failing, leaves every entry with its author, unless it is the deletion of an
  account: that one clears the author of exactly the entries of the account, which is gone then.\<close>

theorem audit_log_is_append_only:
  assumes "run S w w'"
  shows "(\<exists>old new. audits (wdb w') = old @ new \<and>
      list_all2 (\<lambda>a b. b = a \<or> b = a\<lparr>a_actor := None\<rparr>) (audits (wdb w)) old) \<and>
    (let w'' = snd (run_call S c w') in
      (\<exists>new. audits (wdb w'') = audits (wdb w') @ new) \<or>
      (\<exists>uid new. deleted_account c = Some uid \<and> uid \<notin> set (user_ids (wdb w'')) \<and>
        audits (wdb w'') = map (forget_author uid) (audits (wdb w')) @ new))"
proof -
  have "\<exists>old new. audits (wdb w') = old @ new \<and> list_all2 same_entry (audits (wdb w)) old"
    using run_sound(3) [OF assms] by (simp add: extends_trail_def)
  moreover have "appends_entries (wdb w') (wdb (snd (run_call S c w')))" if "deleted_account c = None"
    using trail.ac_staff_call [OF that trail.st_perform] by (simp add: moves_def)
  moreover have "appends_entries (wdb w') (wdb (snd (run_call S c w'))) \<or>
      uid \<notin> set (user_ids (wdb (snd (run_call S c w')))) \<and>
      (\<exists>new. audits (wdb (snd (run_call S c w'))) = map (forget_author uid) (audits (wdb w')) @ new)"
    if "deleted_account c = Some uid" for uid
    using that deletion_log by (cases c) (simp_all add: on_app_post)
  ultimately show ?thesis
    unfolding same_entry_def anonymous_def Let_def appends_entries_def by (cases "deleted_account c") auto
qed

section \<open>Stored values parse\<close>

definition returns :: "('e, 's, 'a) act \<Rightarrow> 's \<Rightarrow> bool" where
  "returns m s \<longleftrightarrow> (\<exists>x. fst (m s) = Inr x)"

lemma sequence_returns:
  assumes "\<And>r. r \<in> set rows \<Longrightarrow> \<exists>x. f r = Inr x"
  shows "\<exists>xs. sequence_results (map f rows) = Inr xs"
proof -
  obtain g where "\<forall>r\<in>set rows. f r = Inr (g r)" using assms by metis
  then have "sequence_results (map f rows) = Inr (map g rows)" by simp
  then show ?thesis ..
qed

lemma optional_returns:
  assumes "\<And>r. r \<in> set (tbl s) \<Longrightarrow> \<exists>x. f r = Inr x"
  shows "returns (bindE (fetch_optional tbl p) (\<lambda>row. case row of None \<Rightarrow> ret None
           | Some r \<Rightarrow> bindE (lift_result (f r)) (\<lambda>x. ret (Some x)))) s"
proof (cases "first_row p (tbl s)")
  case None
  then show ?thesis by (simp add: returns_def bindE_run run_simps)
next
  case (Some r)
  then obtain x where "f r = Inr x" using assms first_row_SomeD by metis
  with Some show ?thesis by (simp add: returns_def bindE_run run_simps)
qed

lemma member_row_parses: "member_check m \<Longrightarrow> \<exists>x. row_to_member m = Inr x \<and> (\<exists>ro. parse_member_role (m_role m) = Inr ro)"
  by (auto simp: member_check_def row_to_member_def parse_member_role_def member_role_from_db_def)

lemma view_row_parses:
  assumes ok: "shares_ok uids vids tids (shares s)" and r: "r \<in> set (accessible_vaults s)"
  shows "\<exists>a. row_to_accessible_vault r = Inr a"
proof -
  have "w_role r \<in> {''read'', ''write'', ''admin''}"
    using ok r by (auto simp: accessible_row_iff shares_ok_def share_check_def owner_view_def share_view_def)
  moreover have "w_kind r \<in> {''owner'', ''direct_share'', ''team_share''}"
    using r by (auto simp: accessible_row_iff owner_view_def share_view_def split: option.splits)
  ultimately show ?thesis
    by (auto simp: row_to_accessible_vault_def share_role_from_db_def access_kind_from_db_def)
qed

text \<open>A stored secret reads back exactly while its counter fits \<open>u32\<close>.\<close>

lemma checked_row_iff: "secret_check r \<Longrightarrow> 0 \<le> si_usage r \<Longrightarrow> (\<exists>i. row_to_secret_item r = Inr i) \<longleftrightarrow> si_usage r < 2 ^ 32"
  using checked_row_reads [of r] by (auto simp: row_to_secret_item_def split: if_splits)

lemma items_return:
  assumes "secrets_ok vids (secrets s)" and "counted_uses s" and "set rows \<subseteq> set (secrets s)"
  shows "returns (items_of (newest_first k rows)) s \<longleftrightarrow> (\<forall>i\<in>set rows. si_usage i < 2 ^ 32)"
proof -
  have "(\<exists>xs. map row_to_secret_item (newest_first k rows) = map Inr xs) \<longleftrightarrow>
      (\<forall>r\<in>set rows. \<exists>i. row_to_secret_item r = Inr i)" (is "?l \<longleftrightarrow> ?r")
  proof
    assume ?l
    then obtain xs where xs: "map row_to_secret_item (newest_first k rows) = map Inr xs" by blast
    have "row_to_secret_item r \<in> Inr ` set xs" if "r \<in> set rows" for r
      using that arg_cong [OF xs, of set] by (auto simp: newest_first_def)
    then show ?r by blast
  next
    assume ?r
    then have "\<exists>xs. sequence_results (map row_to_secret_item (newest_first k rows)) = Inr xs"
      by (intro sequence_returns) (simp add: newest_first_def)
    then show ?l by simp
  qed
  moreover have "(\<exists>i. row_to_secret_item r = Inr i) \<longleftrightarrow> si_usage r < 2 ^ 32" if "r \<in> set rows" for r
    using assms that by (intro checked_row_iff) (auto simp: secrets_ok_def counted_uses_def)
  ultimately show ?thesis
    by (auto simp: returns_def items_of_def run_simps)
qed

lemma secret_queries_return:
  assumes ok: "db_ok s" and uses: "counted_uses s"
  shows "returns (secret_get_by_id sid) s \<longleftrightarrow>
      (\<forall>i\<in>set (secrets s). si_id i = sid \<and> live_secret i \<longrightarrow> si_usage i < 2 ^ 32)"
    "returns (secret_list_by_vault vid) s \<longleftrightarrow>
      (\<forall>i\<in>set (secrets s). si_vault i = vid \<and> live_secret i \<longrightarrow> si_usage i < 2 ^ 32)"
    "returns (secret_list_trash vid) s \<longleftrightarrow>
      (\<forall>i\<in>set (secrets s). si_vault i = vid \<and> \<not> live_secret i \<longrightarrow> si_usage i < 2 ^ 32)"
    "returns (secret_list_trash_by_owner uid) s \<longleftrightarrow>
      (\<forall>i\<in>set (secrets s). \<not> live_secret i \<and> (\<exists>v\<in>set (vaults s). v_id v = si_vault i \<and> v_owner v = uid) \<longrightarrow>
         si_usage i < 2 ^ 32)"
proof -
  note items = items_return [OF db_okD(3) [OF ok] uses]
  have row: "(\<exists>i. row_to_secret_item r = Inr i) \<longleftrightarrow> si_usage r < 2 ^ 32" if "r \<in> set (secrets s)" for r
    using that uses db_okD(3) [OF ok] by (intro checked_row_iff) (auto simp: secrets_ok_def counted_uses_def)
  have one: "r' = r" if "r \<in> set (secrets s)" "r' \<in> set (secrets s)" "si_id r' = si_id r" for r r'
    using that db_okD(3) [OF ok] unique_key_row [of si_id "secrets s" r' r] by (simp add: secrets_ok_def)
  show "returns (secret_get_by_id sid) s \<longleftrightarrow>
      (\<forall>i\<in>set (secrets s). si_id i = sid \<and> live_secret i \<longrightarrow> si_usage i < 2 ^ 32)"
  proof (cases "first_row (\<lambda>r. si_id r = sid \<and> live_secret r) (secrets s)")
    case None
    then have "returns (secret_get_by_id sid) s" by (simp add: secret_get_by_id_def returns_def bindE_run run_simps)
    with None show ?thesis by (auto simp: first_row_None)
  next
    case (Some r)
    then have r: "r \<in> set (secrets s)" "si_id r = sid" "live_secret r" by (auto dest: first_row_SomeD)
    have "returns (secret_get_by_id sid) s \<longleftrightarrow> (\<exists>i. row_to_secret_item r = Inr i)"
      by (cases "row_to_secret_item r") (simp_all add: secret_get_by_id_def returns_def bindE_run run_simps Some)
    with row [OF r(1)] one [OF r(1)] r show ?thesis by metis
  qed
  show "returns (secret_list_by_vault vid) s \<longleftrightarrow>
      (\<forall>i\<in>set (secrets s). si_vault i = vid \<and> live_secret i \<longrightarrow> si_usage i < 2 ^ 32)"
    "returns (secret_list_trash vid) s \<longleftrightarrow>
      (\<forall>i\<in>set (secrets s). si_vault i = vid \<and> \<not> live_secret i \<longrightarrow> si_usage i < 2 ^ 32)"
    "returns (secret_list_trash_by_owner uid) s \<longleftrightarrow>
      (\<forall>i\<in>set (secrets s). \<not> live_secret i \<and> (\<exists>v\<in>set (vaults s). v_id v = si_vault i \<and> v_owner v = uid) \<longrightarrow>
         si_usage i < 2 ^ 32)"
    using items [of "filter p (secrets s)" for p]
    by (auto simp: returns_def secret_list_by_vault_def secret_list_trash_def
        secret_list_trash_by_owner_def bindE_run run_simps)
qed

lemma user_queries_return:
  assumes "db_ok s"
  shows "returns (user_get_by_id uid) s" "returns (user_get_by_username name) s" "returns user_list_all s"
proof -
  have "\<exists>u. row_to_user r = Inr u" if "r \<in> set (users s)" for r
    using db_okD(1) [OF assms] that row_to_user_ok by (simp add: users_ok_def)
  then show "returns (user_get_by_id uid) s" "returns (user_get_by_username name) s"
    unfolding user_get_by_id_def user_get_by_username_def optional_user_def [abs_def]
    by (rule optional_returns, blast)+
  show "returns user_list_all s" using user_list_all_total [OF assms] by (auto simp: returns_def)
qed

lemma access_queries_return:
  assumes "db_ok s"
  shows "returns (vault_get_accessible uid) s" "returns (vault_get_with_permission uid vid) s"
    "returns (team_list_members tid) s" "returns (team_get_member_role tid uid) s"
proof -
  note view = view_row_parses [OF db_okD(6) [OF assms]]
  have "\<exists>xs. sequence_results (map row_to_accessible_vault (sort_key w_name (filter (\<lambda>w. w_user w = uid) (accessible_vaults s)))) = Inr xs"
    by (rule sequence_returns) (use view in auto)
  then show "returns (vault_get_accessible uid) s"
    by (auto simp: returns_def vault_get_accessible_def bindE_run run_simps)
  show "returns (vault_get_with_permission uid vid) s"
    unfolding vault_get_with_permission_def by (rule optional_returns) (rule view)
  have mem: "\<exists>x. row_to_member m = Inr x" "\<exists>ro. parse_member_role (m_role m) = Inr ro" if "m \<in> set (members s)" for m
    using db_okD(5) [OF assms] that member_row_parses by (auto simp: members_ok_def)
  have "\<exists>xs. sequence_results (map row_to_member (sort_key m_joined (filter (\<lambda>m. m_team m = tid) (members s)))) = Inr xs"
    by (rule sequence_returns) (use mem in auto)
  then show "returns (team_list_members tid) s"
    by (auto simp: returns_def team_list_members_def bindE_run run_simps)
  show "returns (team_get_member_role tid uid) s"
    unfolding team_get_member_role_def by (rule optional_returns) (rule mem(2))
qed

text \<open>C25. Stored values are well typed: in every state an installation reaches, every query of the
  repositories on users, vaults, shares and teams that parses what it reads (roles, kinds of access)
  returns, and a query on secrets returns exactly when the usage counter of every secret it reads is
  below \<open>2 ^ 32\<close>: types, storage and contents never fail to parse, and the one way a row can become
  unreadable is a counter that the 64-bit column holds and \<open>u32\<close> does not.\<close>

theorem stored_values_parse:
  assumes "run S (first_start t) w" and "s = wdb w"
  shows "returns (user_get_by_id uid) s \<and> returns (user_get_by_username name) s \<and>
    returns user_list_all s \<and> returns (vault_get_accessible uid) s \<and>
    returns (vault_get_with_permission uid vid) s \<and> returns (team_list_members tid) s \<and>
    returns (team_get_member_role tid uid) s \<and>
    (returns (secret_get_by_id sid) s \<longleftrightarrow>
      (\<forall>i\<in>set (secrets s). si_id i = sid \<and> live_secret i \<longrightarrow> si_usage i < 2 ^ 32)) \<and>
    (returns (secret_list_by_vault vid) s \<longleftrightarrow>
      (\<forall>i\<in>set (secrets s). si_vault i = vid \<and> live_secret i \<longrightarrow> si_usage i < 2 ^ 32)) \<and>
    (returns (secret_list_trash vid) s \<longleftrightarrow>
      (\<forall>i\<in>set (secrets s). si_vault i = vid \<and> \<not> live_secret i \<longrightarrow> si_usage i < 2 ^ 32)) \<and>
    (returns (secret_list_trash_by_owner uid) s \<longleftrightarrow>
      (\<forall>i\<in>set (secrets s). \<not> live_secret i \<and> (\<exists>v\<in>set (vaults s). v_id v = si_vault i \<and> v_owner v = uid) \<longrightarrow>
         si_usage i < 2 ^ 32))"
proof -
  note s = run_sound(1) [OF assms(1) first_start_sound(1)] run_sound(2) [OF assms(1) first_start_sound(3)]
  show ?thesis
    unfolding assms(2) by (intro conjI user_queries_return access_queries_return secret_queries_return s)
qed

end
