(* ===== verification/Failures.thy ===== *)
theory Failures
  imports System
begin

text \<open>
  What a failed call leaves behind.  Outside a transaction an error keeps the writes before it, so
  whether a call is all or nothing depends on where it can still fail.
\<close>

section \<open>All or nothing\<close>

definition clean :: "('e, 's, 'a) act \<Rightarrow> 's \<Rightarrow> bool" where
  "clean m s \<longleftrightarrow> (\<forall>e s'. m s = (Inl e, s') \<longrightarrow> s' = s)"

named_theorems clean_intros \<open>a failed operation has changed nothing\<close>

lemma cleanD: "clean m s \<Longrightarrow> m s = (Inl e, s') \<Longrightarrow> s' = s"
  by (simp add: clean_def)

lemma clean_of_reads: "reads_only m \<Longrightarrow> clean m s"
  unfolding clean_def using reads_only_run by metis

lemma clean_of_returns: "returns m s \<Longrightarrow> clean m s"
  by (auto simp: clean_def returns_def)

lemma clean_transaction [clean_intros]: "clean (transaction m) s"
  unfolding clean_def using transaction_atomic by metis

lemma clean_exec [clean_intros]: "clean (exec_sql f) s"
  by (auto simp: clean_def exec_sql_def split: sum.splits)

lemma clean_pure [clean_intros]:
  "clean (ret x) s" "clean (fail e) s" "clean (require b e) s" "clean (lift_result r) s" "clean (ok_or e v) s"
  by (auto simp: clean_def run_simps)

text \<open>Reading first, and writing last.\<close>

lemma clean_after_reading:
  assumes "reads_only m" and "\<And>x. m s = (Inr x, s) \<Longrightarrow> clean (f x) s"
  shows "clean (bindE m f) s"
  unfolding clean_def
proof (intro allI impI)
  fix e s' assume "bindE m f s = (Inl e, s')"
  then consider "m s = (Inl e, s')" | x s1 where "m s = (Inr x, s1)" "f x s1 = (Inl e, s')"
    by (auto simp: bindE_fails)
  then show "s' = s"
  proof cases
    case 1
    then show ?thesis by (rule reads_only_run [OF assms(1)])
  next
    case 2
    moreover have "s1 = s" by (rule reads_only_run [OF assms(1) 2(1)])
    ultimately show ?thesis using cleanD [OF assms(2)] by simp
  qed
qed

lemma clean_before_sure:
  assumes "clean m s" and "\<And>x s'. m s = (Inr x, s') \<Longrightarrow> returns (f x) s'"
  shows "clean (bindE m f) s"
  using assms unfolding clean_def returns_def bindE_fails by (metis fst_conv sum.distinct(1))

lemma returns_bindE:
  assumes "returns m s" and "\<And>x s'. m s = (Inr x, s') \<Longrightarrow> returns (f x) s'"
  shows "returns (bindE m f) s"
proof -
  obtain x s' where "m s = (Inr x, s')" using assms(1) by (metis returns_def prod.collapse)
  with assms(2) show ?thesis by (simp add: returns_def bindE_run)
qed

lemma returns_simps [simp]:
  "returns (ret x) s" "returns (gets g) s" "returns (ignore_error m) s" "returns (modify f) s"
  by (simp_all add: returns_def run_simps)

lemma quiet_clean [clean_intros]: "clean m s \<Longrightarrow> clean (quiet m) s"
  unfolding quiet_def by (rule clean_before_sure) simp_all

text \<open>An update that finds no row changes none.\<close>

lemma no_rows_affected: "affected p rows = 0 \<Longrightarrow> update_rows p f rows = rows" "affected p rows = 0 \<Longrightarrow> delete_rows p rows = rows"
  by (simp_all add: affected_0 update_rows_def delete_rows_def map_idI filter_id_conv)

lemma clean_required_rows [clean_intros]:
  "clean (require_rows (update_secrets p f) e) s" "clean (require_rows (delete_secrets p) e) s"
  "clean (require_rows (delete_members pm) e) s" "clean (require_rows (update_vaults pv fv) e) s"
  by (auto simp: clean_def require_rows_def update_secrets_def delete_secrets_def delete_members_def update_vaults_def
      bindE_run run_simps no_rows_affected Let_def split: if_splits)

lemma event_returns: "ref_in actor (user_ids s) \<Longrightarrow> returns (record_event actor act tty tref det) s"
  by (simp add: returns_def record_event_def audit_append_run)

lemma event_clean [clean_intros]: "clean (record_event actor act tty tref det) s"
  unfolding record_event_def audit_append_def by (rule clean_after_reading) (intro step_intros clean_exec)+

section \<open>Vaults and secrets\<close>

lemma user_read: "require_user uid msg s = (Inr u, s') \<Longrightarrow> uid \<in> set (user_ids s)"
  by (auto simp: require_user_returns dest: user_read_exists)

lemma created_row_updates:
  assumes "vault_create v s = (Inr x, s1)"
  shows "returns (vault_update_key_envelope (vault_id v) env) s1"
    "user_ids (snd (vault_update_key_envelope (vault_id v) env s1)) = user_ids s"
proof -
  have s1: "s1 = s\<lparr>vaults := vaults s @ [new_vault_row v]\<rparr>"
    using assms by (auto simp: vault_create_def exec_sql_returns insert_vault_row_def split: if_splits)
  have "0 < affected (\<lambda>r. v_id r = vault_id v \<and> live r) (vaults s1)"
    unfolding affected_pos s1 by (rule bexI [of _ "new_vault_row v"]) (simp_all add: new_vault_row_def live_def)
  then show "returns (vault_update_key_envelope (vault_id v) env) s1"
    "user_ids (snd (vault_update_key_envelope (vault_id v) env s1)) = user_ids s"
    by (simp_all add: returns_def vault_update_key_envelope_def require_rows_def update_vaults_def bindE_run run_simps
        user_ids_def s1)
qed

lemma created_vault_completes:
  assumes "owner \<in> set (user_ids s)" and "vault_create v s = (Inr x, s1)"
  shows "returns (bindE (vault_update_key_envelope (vault_id v) env) (\<lambda>_.
      bindE (record_event (Some owner) act tty tref det) (\<lambda>_. ret r))) s1"
proof (rule returns_bindE [OF created_row_updates(1) [OF assms(2)]])
  fix y s2 assume "vault_update_key_envelope (vault_id v) env s1 = (Inr y, s2)"
  then have "user_ids s2 = user_ids s" using created_row_updates(2) [OF assms(2), of env] by simp
  then show "returns (bindE (record_event (Some owner) act tty tref det) (\<lambda>_. ret r)) s2"
    using assms(1) by (intro returns_bindE event_returns) simp_all
qed

lemma create_vault_clean: "clean (create_vault P i kr nr owner name mk) s"
proof (cases "trim name = ''''")
  case True
  then show ?thesis by (simp add: create_vault_def clean_pure)
next
  case False
  let ?v = "\<lparr> vault_id = i, owner_user_id = owner, vault_name = name \<rparr>"
  have ins: "clean (vault_create ?v) s" by (simp add: vault_create_def clean_exec)
  note completes = created_vault_completes [where v = ?v, unfolded vault.simps]
  show ?thesis
    unfolding create_vault_def if_not_P [OF False] Let_def
    by ((rule clean_after_reading, (intro step_intros; fail))+, rule clean_before_sure [OF ins], rule completes)
       (erule user_read, assumption)
qed

lemma open_vault_clean: "clean (open_vault_for_user P uid vid mk) s" "clean (open_vault P vid mk) s"
proof -
  show o: "clean (open_vault_for_user P uid vid mk) s" for uid
    unfolding open_vault_for_user_def
    by ((rule clean_after_reading, intro step_intros)+, rule clean_before_sure [OF event_clean]) simp
  show "clean (open_vault P vid mk) s"
    unfolding open_vault_def by ((rule clean_after_reading, intro step_intros)+, rule o)
qed

lemma delete_vault_clean: "clean (delete_vault uid vid) s"
  unfolding delete_vault_def vault_delete_def
  by ((rule clean_after_reading, (intro step_intros; fail))+, rule clean_before_sure [OF clean_transaction]) simp

lemma secret_calls_clean:
  "clean (create_secret P i nr vid ty ti meta tg ex pt key) s" "clean (soft_delete sid) s"
  "clean (restore_secret sid vid) s" "clean (permanent_delete sid vid) s" "clean (empty_trash vid) s"
  "clean (increment_usage_count sid) s"
proof -
  have ins: "clean (secret_insert_blob it b) s" for it b
    unfolding secret_insert_blob_def by (rule clean_after_reading) (intro step_intros clean_exec)+
  show "clean (create_secret P i nr vid ty ti meta tg ex pt key) s"
    unfolding create_secret_def Let_def
    by ((rule clean_after_reading, intro step_intros)+, rule clean_before_sure [OF ins])
       (intro returns_bindE; simp)
  show "clean (soft_delete sid) s" "clean (permanent_delete sid vid) s"
    unfolding soft_delete_def permanent_delete_def secret_soft_delete_def secret_permanent_delete_def record_deletion_def
    by (rule clean_before_sure [OF clean_required_rows(1)], simp)
       (rule clean_before_sure [OF clean_required_rows(2)], simp)
  show "clean (restore_secret sid vid) s" by (simp add: restore_secret_def secret_restore_def clean_transaction)
  show "clean (empty_trash vid) s"
    by (simp add: empty_trash_def secret_empty_trash_def delete_secrets_def clean_def)
  show "clean (increment_usage_count sid) s"
    by (simp add: increment_usage_count_def secret_increment_usage_def clean_required_rows)
qed

section \<open>Teams, logins and the lock-out\<close>

lemma team_permission_user:
  "require_team_permission requester tid act s = (Inr u, s') \<Longrightarrow> requester \<in> set (user_ids s)"
  by (auto simp: require_team_permission_def returns_iff dest: user_read)

lemma created_team_completes:
  assumes "team_create i name (Some creator) s = (Inr t, s1)" and "creator \<in> set (user_ids s)"
  shows "returns (bindE (team_add_member i creator ro) (\<lambda>_. bindE (record_event (Some creator) act tty tref det) (\<lambda>_. ret t))) s1"
proof (rule returns_bindE)
  have s1: "i \<in> set (team_ids s1)" "user_ids s1 = user_ids s"
    using assms(1) by (auto simp: team_create_def returns_iff exec_sql_returns insert_team_row_def team_ids_def
        user_ids_def fetch_optional_run split: if_splits)
  have "member_check \<lparr> m_team = i, m_user = creator, m_role = member_role_to_db ro, m_joined = clock s1 \<rparr>"
    by (cases ro) (simp_all add: member_check_def)
  with s1 assms(2) show "returns (team_add_member i creator ro) s1"
    by (auto simp: returns_def team_add_member_def bindE_run run_simps exec_sql_def upsert_member_row_def)
  fix y s2 assume "team_add_member i creator ro s1 = (Inr y, s2)"
  then have "user_ids s2 = user_ids s1"
    by (auto simp: team_add_member_def returns_iff exec_sql_returns upsert_member_row_def user_ids_def split: if_splits)
  with s1(2) assms(2) show "returns (bindE (record_event (Some creator) act tty tref det) (\<lambda>_. ret t)) s2"
    by (intro returns_bindE event_returns) simp_all
qed

lemma team_create_clean: "clean (team_create i name (Some creator)) s"
proof (cases "trim name = ''''")
  case False
  have "returns (bindE (fetch_optional teams (\<lambda>r. t_id r = i)) (\<lambda>row. bindE (ok_or e row) (\<lambda>r. ret (row_to_team r)))) s1"
    if "exec_sql (insert_team_row \<lparr> t_id = i, t_name = name, t_by = by_user, t_created = t \<rparr>) s = (Inr x, s1)"
    for t x s1 by_user and e :: app_error
    using that by (auto simp: exec_sql_returns insert_team_row_def returns_def bindE_run run_simps first_row_append
        split: if_splits option.split)
  with False show ?thesis
    unfolding team_create_def if_not_P [OF False]
    by (intro clean_after_reading clean_before_sure clean_exec) (auto intro: step_intros)
qed (simp add: team_create_def clean_pure)

lemma create_team_clean: "clean (create_team i creator name) s"
  unfolding create_team_def
  by (rule clean_after_reading [OF require_user_reads], rule clean_before_sure [OF team_create_clean])
     (rule created_team_completes, assumption, erule user_read)

text \<open>A change of memberships or of teams leaves the users alone, so the entry can be written.\<close>

lemma team_statements_users:
  "user_ids (snd (team_add_member tid uid ro s)) = user_ids s" "user_ids (snd (team_remove_member tid uid s)) = user_ids s"
  "user_ids (snd (vault_delete_shares_via_team uid tid s)) = user_ids s" "user_ids (snd (team_delete tid s)) = user_ids s"
  by (auto simp: team_add_member_def team_remove_member_def vault_delete_shares_via_team_def team_delete_def
      require_rows_def delete_members_def delete_shares_def delete_team_row_def exec_sql_def upsert_member_row_def
      bindE_run run_simps user_ids_def split: sum.split)

lemma event_after:
  assumes "m s = (Inr x, s1)" and "user_ids (snd (m s)) = user_ids s" and "requester \<in> set (user_ids s)"
  shows "returns (record_event (Some requester) act tty tref det) s1"
  using assms by (intro event_returns) simp

lemma existing_team_deleted:
  "team_get_by_id tid s = (Inr (Some t), s') \<Longrightarrow> returns (team_delete tid) s'"
  by (auto simp: team_get_by_id_def returns_iff fetch_optional_run returns_def team_delete_def bindE_run run_simps
      affected_0 dest!: first_row_SomeD)

lemma team_calls_clean:
  "clean (delete_team requester tid) s" "clean (add_member requester tid uid ro) s"
  "clean (remove_member requester tid uid) s"
proof -
  have add: "clean (team_add_member tid uid ro) s"
    unfolding team_add_member_def by (rule clean_after_reading) (intro step_intros clean_exec)+
  show "clean (add_member requester tid uid ro) s"
    unfolding add_member_def
    by ((rule clean_after_reading, (intro step_intros; fail))+, rule clean_before_sure [OF add])
       (rule event_after [where m = "team_add_member tid uid ro", OF _ team_statements_users(1) team_permission_user])
  have rem: "clean (team_remove_member tid uid) s"
    unfolding team_remove_member_def by (rule clean_required_rows)
  show "clean (remove_member requester tid uid) s"
    unfolding remove_member_def
  proof (rule clean_after_reading [OF team_service_reads(1)], rule clean_before_sure [OF rem], rule returns_bindE)
    fix u x s1 y s2
    assume perm: "require_team_permission requester tid TeamManageMembers s = (Inr u, s)"
      and r: "team_remove_member tid uid s = (Inr x, s1)"
    show "returns (vault_delete_shares_via_team uid tid) s1"
      by (simp add: vault_delete_shares_via_team_def delete_shares_def returns_def)
    assume d: "vault_delete_shares_via_team uid tid s1 = (Inr y, s2)"
    have "user_ids s1 = user_ids s" using team_statements_users(2) [of tid uid s] r by simp
    with perm d show "returns (record_event (Some requester) TeamMemberRemoved (Some ''team'') (Some (TargetId tid))
       (Some [Lit ''{\"user_id\":\"'', IdText uid, Lit ''\",\"purged_shares\":'', NatText y, Lit ''}''])) s2"
      using team_statements_users(3) [of uid tid s1]
      by (intro event_returns) (simp add: team_permission_user)
  qed
  show "clean (delete_team requester tid) s"
    unfolding delete_team_def
  proof (rule clean_after_reading [OF team_service_reads(1)], rule clean_after_reading [OF team_queries_read(1)],
      rule clean_after_reading, intro step_intros, rule clean_of_returns, rule returns_bindE)
    fix u to t y s1
    assume perm: "require_team_permission requester tid TeamManageMembers s = (Inr u, s)"
      and t: "team_get_by_id tid s = (Inr to, s)" "ok_or (NotFound ''team not found'') to s = (Inr t, s)"
    show "returns (team_delete tid) s" using t existing_team_deleted by (auto simp: ok_or_returns)
    assume "team_delete tid s = (Inr y, s1)"
    then show "returns (record_event (Some requester) TeamDeleted (Some ''team'') (Some (TargetId tid))
       (Some (name_detail (team_name t)))) s1"
      by (rule event_after [where m = "team_delete tid", OF _ team_statements_users(4) team_permission_user [OF perm]])
  qed
qed

lemma policy_present: "returns (fetch_policy name) (snd (ensure_row_exists name s))"
  by (auto simp: returns_def fetch_policy_def bindE_run run_simps ensure_row_exists_def policy_of_def
      first_row_append first_row_None new_policy_row_def split: option.splits)

lemma policy_calls_return:
  "returns (get_state name) s" "returns (record_failed_attempt name) s" "returns (reset_failed_attempts name) s"
proof -
  have ens: "returns (ensure_row_exists name) s" for s by (simp add: ensure_row_exists_def)
  have pol: "returns (fetch_policy name) s1" if "ensure_row_exists name s = (Inr x, s1)" for s s1 x
    using policy_present [of name s] that by simp
  show st: "returns (get_state name) s" for s
    unfolding get_state_def by (cases "trim name = []") (auto intro!: returns_bindE ens intro: pol)
  show "returns (record_failed_attempt name) s"
    unfolding record_failed_attempt_def update_policy_def by (auto intro!: returns_bindE ens st)
  show "returns (reset_failed_attempts name) s"
    unfolding reset_failed_attempts_def update_policy_def by (auto intro!: returns_bindE ens pol)
qed

lemma auto_lock_delay_clean: "clean (update_auto_lock_delay name mins) s"
  unfolding update_auto_lock_delay_def
  by ((rule clean_after_reading, (intro step_intros; fail))+, rule clean_of_returns, rule returns_bindE)
     (simp_all add: ensure_row_exists_def update_policy_def)

lemma login_clean: "clean (record_successful_login uid ip dev) s"
  unfolding record_successful_login_def by (rule clean_after_reading) (intro step_intros clean_exec)+

section \<open>Which calls are all or nothing\<close>

text \<open>The calls that can fail after their first write.\<close>

fun writes_before_failing :: "db_call \<Rightarrow> bool" where
  "writes_before_failing (CallGrantAccess nr by_user vid uid key mk) = True"
| "writes_before_failing (CallShareWithTeam nrs by_user vid tid key keys) = True"
| "writes_before_failing (CallRevokeAccess by_user vid uid) = True"
| "writes_before_failing (CallRotateKey kr by_user vid env envs) = True"
| "writes_before_failing (CallUpdateSecret nr sid ti meta tg ex po key) = True"
| "writes_before_failing (CallImportCsv C ids nrs f uid mk) = True"
| "writes_before_failing c = False"

lemma perform_clean: "\<not> writes_before_failing c \<Longrightarrow> clean (perform P c) s"
  by (cases c) (simp_all add: quiet_clean create_vault_clean open_vault_clean delete_vault_clean create_team_clean
      team_calls_clean secret_calls_clean login_clean clean_of_returns policy_calls_return auto_lock_delay_clean)

section \<open>Accounts and the second factor\<close>

text \<open>The same for the part of a larger state.\<close>

definition clean_on :: "('s \<Rightarrow> 'd) \<Rightarrow> ('e, 's, 'a) act \<Rightarrow> 's \<Rightarrow> bool" where
  "clean_on f m s \<longleftrightarrow> (\<forall>e s'. m s = (Inl e, s') \<longrightarrow> f s' = f s)"

lemma clean_on_same: "moves (\<lambda>s s'. f s' = f s) m \<Longrightarrow> clean_on f m s"
  unfolding clean_on_def moves_def by (metis snd_conv)

lemma clean_on_step:
  assumes "moves (\<lambda>s s'. f s' = f s) m" and "\<And>x s'. m s = (Inr x, s') \<Longrightarrow> f s' = f s \<Longrightarrow> clean_on f (g x) s'"
  shows "clean_on f (bindE m g) s"
  using assms unfolding clean_on_def moves_def bindE_fails by (metis snd_conv)

lemma clean_on_reads:
  assumes "reads_only m" and "\<And>x. m s = (Inr x, s) \<Longrightarrow> clean_on f (g x) s"
  shows "clean_on f (bindE m g) s"
  unfolding clean_on_def bindE_fails
  using assms reads_only_run [OF assms(1)] by (metis clean_on_def)

lemma clean_on_sure:
  assumes "clean_on f m s" and "\<And>x s'. m s = (Inr x, s') \<Longrightarrow> returns (g x) s'"
  shows "clean_on f (bindE m g) s"
  using assms unfolding clean_on_def returns_def bindE_fails by (metis fst_conv sum.distinct(1))

lemma clean_on_pure [simp]: "clean_on f (ret x) s" "clean_on f (fail e) s"
  by (simp_all add: clean_on_def run_simps)

lemma clean_on_quiet: "clean_on f m s \<Longrightarrow> clean_on f (quiet m) s"
  unfolding quiet_def by (rule clean_on_sure) simp_all

lemma on_auth_same: "moves (\<lambda>w w'. app_db w' = app_db w) (on_auth m)"
  by (rule on_auth_moves [where R = "\<lambda>d d'. d' = d"]) simp

lemma clean_on_auth [simp]: "clean_on app_db (on_auth m) w"
  by (rule clean_on_same [OF on_auth_same])

lemma clean_on_db:
  assumes "clean m (app_db w)"
  shows "clean_on app_db (on_db m) w"
  using assms unfolding clean_on_def clean_def by (cases "m (app_db w)") (simp add: on_db_run)

lemma clean_on_app:
  assumes "clean_on app_db m (rt_app w)"
  shows "clean_on (\<lambda>w. wdb w) (on_app m) w"
  using assms unfolding clean_on_def on_app_def zoom_def by (cases "m (rt_app w)") simp

lemma returns_on_db:
  assumes "returns m (app_db w)"
  shows "returns (on_db m) w"
  using assms unfolding returns_def by (cases "m (app_db w)") (simp add: on_db_run)

lemma clean_users [clean_intros]: "clean (require_rows (update_users p f) e) s"
  by (auto simp: clean_def require_rows_def update_users_def bindE_run run_simps no_rows_affected Let_def split: if_splits)

lemma user_updates_clean [clean_intros]:
  "clean (user_update_profile uid mail disp lang show_pw) s" "clean (user_update_password_envelope uid env) s"
  "clean (user_update_show_passwords uid b) s" "clean (user_update_role uid ro) s" "clean (user_delete uid) s"
  unfolding user_update_profile_def user_update_password_envelope_def user_update_show_passwords_def
    user_update_role_def user_delete_def
  by (intro clean_intros clean_after_reading step_intros)+

text \<open>A user that is there is found, so what follows the last statement returns.\<close>

lemma user_get_present:
  assumes "db_ok s" and "uid \<in> set (user_ids s)"
  shows "\<exists>u. user_get_by_id uid s = (Inr (Some u), s)"
proof -
  obtain r where r: "r \<in> set (users s)" "u_id r = uid" using assms(2) by (auto simp: user_ids_def)
  then obtain u where "row_to_user r = Inr u" using db_okD(1) [OF assms(1)] row_to_user_ok by (auto simp: users_ok_def)
  from user_get_by_id_some [OF assms(1) r this] show ?thesis by blast
qed

lemma user_found_sure: "db_ok (app_db w) \<Longrightarrow> uid \<in> set (user_ids (app_db w)) \<Longrightarrow> returns (user_found msg uid) w"
  using user_get_present [of "app_db w" uid] user_found_returns [of msg uid w] unfolding returns_def by (metis fst_conv)

lemma required_admin: "require_admin actor w = (Inr u, w') \<Longrightarrow> actor \<in> set (user_ids (app_db w))"
  by (auto simp: require_admin_def returns_iff user_found_returns dest: user_read_exists)

lemma required_rows_users:
  assumes "require_rows (update_users (\<lambda>r. u_id r = uid) f) e s = (Inr x, s')" and "\<And>t r. u_id (f t r) = u_id r"
  shows "user_ids s' = user_ids s \<and> uid \<in> set (user_ids s)"
  using assms by (auto simp: require_rows_def update_users_def returns_iff Let_def user_ids_def table_simps affected_pos
      split: if_splits)

lemma updated_users:
  "user_update_profile uid mail disp lang show_pw s = (Inr x, s') \<Longrightarrow> user_ids s' = user_ids s \<and> uid \<in> set (user_ids s)"
  "user_update_show_passwords uid b s = (Inr x, s') \<Longrightarrow> user_ids s' = user_ids s \<and> uid \<in> set (user_ids s)"
  "user_update_role uid ro s = (Inr x, s') \<Longrightarrow> user_ids s' = user_ids s \<and> uid \<in> set (user_ids s)"
  unfolding user_update_profile_def user_update_show_passwords_def user_update_role_def
  by (erule required_rows_users, simp)+

lemma created_user:
  assumes ok: "db_ok s" and run: "user_create_db i name ro s = (Inr x, s1)"
  shows "\<exists>s2. user_update_password_envelope i env s1 = (Inr (), s2) \<and> db_ok s2 \<and> i \<in> set (user_ids s2) \<and>
    set (user_ids s) \<subseteq> set (user_ids s2)"
proof -
  have s1: "s1 = s\<lparr>users := users s @ [new_user_row i name ro]\<rparr>"
    using run insert_user_Inr by (auto simp: user_create_returns)
  have ok1: "db_ok s1" by (rule keeps_run [OF user_updates_keep(6) run ok])
  let ?us = "update_rows (\<lambda>r. u_id r = i) (\<lambda>r. r\<lparr>u_password := Some env\<rparr>) (users s1)"
  have "affected (\<lambda>r. u_id r = i) (users s1) \<noteq> 0" by (auto simp: s1 affected_0 new_user_row_def)
  moreover have "\<forall>u\<in>set ?us. role_check u" "distinct (map u_name ?us)" "distinct (emails ?us)"
    using db_okD(1) [OF ok1] by (auto simp: users_ok_def table_simps role_check_def)
  ultimately have "user_update_password_envelope i env s1 = (Inr (), s1\<lparr>users := ?us\<rparr>)"
    by (simp add: user_update_password_envelope_def require_rows_def update_users_def bindE_run run_simps Let_def)
  moreover from this have "db_ok (s1\<lparr>users := ?us\<rparr>)" by (rule keeps_run [OF user_updates_keep(2) _ ok1])
  ultimately show ?thesis by (auto simp: s1 user_ids_def table_simps new_user_row_def)
qed

lemma account_statement_then_event:
  assumes "clean m s" and "\<And>x s'. m s = (Inr x, s') \<Longrightarrow> actor \<in> set (user_ids s')" and "s = app_db w"
  shows "clean_on app_db (bindE (on_db m) (\<lambda>_. on_db (record_event (Some actor) act tty tref det))) w"
  by (rule clean_on_sure, rule clean_on_db)
     (use assms in \<open>auto simp: on_db_returns intro!: returns_on_db event_returns\<close>)

text \<open>The part before the first statement leaves the database alone.\<close>

lemma reads_same: "reads_only m \<Longrightarrow> moves (\<lambda>w w'. f w' = f w) m"
  unfolding reads_only_def moves_def by simp

lemma clean_with_admin:
  assumes "\<And>u. actor \<in> set (user_ids (app_db w)) \<Longrightarrow> clean_on app_db (g u) w"
  shows "clean_on app_db (bindE (require_admin actor) g) w"
  by (rule clean_on_reads [OF user_found_reads(2)]) (rule assms, erule required_admin)

text \<open>A new account: once the user is inserted, the rest returns.\<close>

lemma inserted_account:
  assumes run: "on_db (user_create_db i name ro) w1 = (Inr x, w2)" and ok: "db_ok (app_db w1)"
  shows "returns (bindE (on_db (user_update_password_envelope i env)) (\<lambda>_. ret r)) w2"
    "actor \<in> set (user_ids (app_db w1)) \<Longrightarrow>
       returns (bindE (on_db (user_update_password_envelope i env)) (\<lambda>_.
         bindE (on_db (user_get_by_id i)) (\<lambda>u_opt. bindE (ok_or Internal u_opt) (\<lambda>u.
         bindE (on_db (record_event (Some actor) act tty tref det)) (\<lambda>_. ret (r' u)))))) w2"
proof -
  obtain d where d: "user_create_db i name ro (app_db w1) = (Inr x, d)" "w2 = w1\<lparr>app_db := d\<rparr>"
    using run by (auto simp: on_db_returns)
  from created_user [OF ok d(1)] obtain s2 where s2: "user_update_password_envelope i env d = (Inr (), s2)" "db_ok s2"
    "i \<in> set (user_ids s2)" "set (user_ids (app_db w1)) \<subseteq> set (user_ids s2)" by blast
  show "returns (bindE (on_db (user_update_password_envelope i env)) (\<lambda>_. ret r)) w2"
    using s2(1) by (simp add: returns_def bindE_run on_db_run d(2) run_simps)
  assume "actor \<in> set (user_ids (app_db w1))"
  with s2(4) have "returns (record_event (Some actor) act tty tref det) s2" by (intro event_returns) auto
  then obtain y s3 where ev: "record_event (Some actor) act tty tref det s2 = (Inr y, s3)"
    unfolding returns_def by (metis prod.collapse)
  obtain u where "user_get_by_id i s2 = (Inr (Some u), s2)" using user_get_present [OF s2(2,3)] by blast
  with s2(1) ev show "returns (bindE (on_db (user_update_password_envelope i env)) (\<lambda>_.
         bindE (on_db (user_get_by_id i)) (\<lambda>u_opt. bindE (ok_or Internal u_opt) (\<lambda>u.
         bindE (on_db (record_event (Some actor) act tty tref det)) (\<lambda>_. ret (r' u)))))) w2"
    by (simp add: returns_def bindE_run on_db_run d(2) run_simps)
qed

lemma new_account_clean:
  assumes ok: "db_ok (app_db w)"
  shows "clean_on app_db (bootstrap_first_admin P cfg rnd i name pw) w"
    "clean_on app_db (admin_create_user P cfg rnd i actor name pw ro) w"
proof -
  have ins: "clean_on app_db (on_db (user_create_db i nm r)) w" for nm r w
    by (rule clean_on_db) (simp add: user_create_db_def clean_exec)
  show "clean_on app_db (bootstrap_first_admin P cfg rnd i name pw) w"
    unfolding bootstrap_first_admin_def Let_def
    by ((rule clean_on_step, (rule on_auth_same | rule reads_same, intro step_intros; fail))+,
        rule clean_on_sure [OF ins], rule inserted_account(1)) (assumption, simp add: ok)
  show "clean_on app_db (admin_create_user P cfg rnd i actor name pw ro) w"
    unfolding admin_create_user_def Let_def
    by (rule clean_with_admin,
        (rule clean_on_step, (rule on_auth_same | rule reads_same, intro step_intros; fail))+,
        rule clean_on_sure [OF ins], rule inserted_account(2)) (assumption, simp add: ok, simp)
qed

text \<open>Of an administrator who deletes another account, the author of the last entry is still there.\<close>

lemma staff_calls_clean:
  assumes ok: "db_ok (app_db w)"
  shows "actor \<noteq> uid \<Longrightarrow> clean_on app_db (admin_delete_user actor uid) w"
    "clean_on app_db (admin_update_user_role actor uid ro) w"
proof -
  assume other: "actor \<noteq> uid"
  have gone: "actor \<in> set (user_ids s')" if "user_delete uid s = (Inr x, s')" "actor \<in> set (user_ids s)" for s s' x
  proof -
    have "user_ids (delete_logins_of uid s) = user_ids s" by (simp add: delete_logins_of_def user_ids_def)
    then show ?thesis using user_delete_state [OF that(1)] that(2) other by (auto simp: user_ids_cascade)
  qed
  show "clean_on app_db (admin_delete_user actor uid) w"
    unfolding admin_delete_user_def
    by (rule clean_with_admin, (rule clean_on_step, (rule reads_same, intro step_intros; fail))+,
        rule account_statement_then_event [OF user_updates_clean(5) _ refl], erule gone) simp
next
  show "clean_on app_db (admin_update_user_role actor uid ro) w"
    unfolding admin_update_user_role_def
    by (rule clean_with_admin, (rule clean_on_step, (rule reads_same, intro step_intros; fail))+,
        rule account_statement_then_event [OF user_updates_clean(4) _ refl], drule updated_users(3)) simp
qed

interpretation same_db: step_order "\<lambda>w w'. app_db w' = app_db w"
  by unfold_locales simp_all

interpretation same_wdb: step_order "\<lambda>w w'. wdb w' = wdb w"
  by unfold_locales simp_all

lemma own_account_clean:
  assumes ok: "db_ok (app_db w)"
  shows "clean_on app_db (update_user_profile P cfg uid upd) w"
    "clean_on app_db (change_master_password P cfg rnd uid pw pw') w"
    "clean_on app_db (update_show_passwords_in_edit uid b) w"
proof -
  have found: "returns (user_found msg uid) w2"
    if "on_db m w1 = (Inr x, w2)" "\<And>x s'. m (app_db w1) = (Inr x, s') \<Longrightarrow> user_ids s' = user_ids (app_db w1) \<and> uid \<in> set (user_ids (app_db w1))"
      "keeps db_ok m" "db_ok (app_db w1)" for m :: "unit dbm" and msg x w1 w2
    using that(1) that(2) keeps_run [OF that(3) _ that(4)]
    by (intro user_found_sure) (auto simp: on_db_returns)
  show "clean_on app_db (update_user_profile P cfg uid upd) w"
    unfolding update_user_profile_def Let_def
    by (rule clean_on_reads [OF user_found_reads(1)], rule clean_on_step,
        (intro same_db.moves_bindE same_db.moves_pure same_db.moves_cond on_auth_same; fail),
        rule clean_on_sure [OF clean_on_db [OF user_updates_clean(1)]], erule found)
       (simp_all add: updated_users(1) user_updates_keep ok)
  show "clean_on app_db (change_master_password P cfg rnd uid pw pw') w"
    unfolding change_master_password_def
    by ((rule clean_on_step, (rule on_auth_same | rule reads_same, intro step_intros; fail))+,
        rule clean_on_db [OF user_updates_clean(2)])
  show "clean_on app_db (update_show_passwords_in_edit uid b) w"
    unfolding update_show_passwords_in_edit_def
    by (rule clean_on_sure [OF clean_on_db [OF user_updates_clean(3)]], erule found)
       (simp_all add: updated_users(2) user_updates_keep ok)
qed

lemma rt_same:
  "moves (\<lambda>w w'. wdb w' = wdb w) (rt_auth ma)"
  "moves (\<lambda>w w'. wdb w' = wdb w) (check_current C msg t code)"
  "moves (\<lambda>w w'. wdb w' = wdb w) (load_totp_secret_by_username name)"
  "moves (\<lambda>w w'. wdb w' = wdb w) (reject_replay_and_record name code now)"
  by (rule on_app_moves [where R = "\<lambda>d d'. d' = d", OF on_auth_same])
     (simp_all add: moves_def run_simps reject_replay_run)

lemma clean_on_app_users: "clean_on (\<lambda>w. wdb w) (rt_db (require_rows (update_users p f) e)) w"
  by (rule clean_on_app, rule clean_on_db, rule clean_users)

lemma second_factor_clean:
  "clean_on (\<lambda>w. wdb w) (disable_totp uid) w"
  "clean_on (\<lambda>w. wdb w) (enable_totp C P issuer rnd uid name b32 code) w"
  "clean_on (\<lambda>w. wdb w) (verify_login_totp C P cfg issuer rnd name pw code) w"
proof -
  note same = same_wdb.moves_bindE same_wdb.moves_pure same_wdb.moves_cond same_wdb.moves_option same_wdb.moves_sum rt_same
  show "clean_on (\<lambda>w. wdb w) (disable_totp uid) w"
    unfolding disable_totp_def by (rule clean_on_app_users)
  show "clean_on (\<lambda>w. wdb w) (enable_totp C P issuer rnd uid name b32 code) w"
    unfolding enable_totp_def verify_setup_code_def
    by ((rule clean_on_step, (intro same; fail))+, rule clean_on_app_users)
  have legacy: "clean_on (\<lambda>w. wdb w) (legacy_login_totp C P issuer rnd name key payload code) w" for key payload w
  proof (cases "decrypt P payload legacy_key")
    case (Inr b)
    have tail: "clean_on (\<lambda>w. wdb w) (bindE (lift_result r) (\<lambda>q. bindE (ignore_error (g q)) (\<lambda>_. ret v))) w"
      for r and g :: "_ \<Rightarrow> 'z rtm" and v :: bool and w
      by (rule clean_on_step, intro same) (simp add: clean_on_def bindE_run run_simps)
    show ?thesis
      unfolding legacy_login_totp_def Inr sum.case
      by ((rule clean_on_step, (intro same; fail))+) (simp add: tail)
  qed (simp add: legacy_login_totp_def)
  show "clean_on (\<lambda>w. wdb w) (verify_login_totp C P cfg issuer rnd name pw code) w"
    unfolding verify_login_totp_def
    by (auto intro!: clean_on_step [OF rt_same(1)] clean_on_step [OF rt_same(2)] clean_on_step [OF rt_same(3)]
        clean_on_step [OF same_wdb.moves_pure(6)] clean_on_step [OF same_wdb.moves_pure(3)] legacy
        clean_on_same [OF rt_same(4)] split: option.split sum.split)
qed

section \<open>Every call\<close>

text \<open>The calls on accounts that can fail after their first write: an administrator who deletes their own
  account, and the reset of a password, which derives the new key after it has stored the envelope.\<close>

fun partial_call :: "call \<Rightarrow> bool" where
  "partial_call (DbCall c) = writes_before_failing c"
| "partial_call (CallDeleteUser actor uid) = (actor = uid)"
| "partial_call (CallResetPassword rnd actor uid pw) = True"
| "partial_call c = False"

text \<open>C8. A failed call leaves no trace: on a well-formed database, when an operation on vaults, teams,
  secrets, logins, the lock-out, accounts or the second factor fails, the whole database is what it was
  before the call, the audit log included.  The exceptions are eight: granting, sharing with a team,
  revoking, rotating, updating a secret, importing, the reset of a password, and the deletion of an
  administrator's own account, which fails with the account gone.  A failure is an error the code raises
  or a violated constraint: that SQLite itself fails in the middle of a call is not modelled, and the
  credentials in memory are not part of the database.\<close>

theorem failed_calls_leave_no_trace:
  assumes "db_ok (wdb w)" and "\<not> partial_call c" and "run_call S c w = (Inl e, w')"
  shows "wdb w' = wdb w"
proof -
  have "clean_on (\<lambda>w. wdb w) (run_call S c) w"
    using assms(2) new_account_clean [OF assms(1)] staff_calls_clean [OF assms(1)] own_account_clean [OF assms(1)]
    by (cases c) (simp_all add: clean_on_quiet clean_on_app clean_on_db perform_clean second_factor_clean)
  with assms(3) show ?thesis by (simp add: clean_on_def)
qed

end
