(* ===== verification/Keyring.thy ===== *)
theory Keyring
  imports Failures Team_Properties Secret_Properties
begin

text \<open>
  What the tables of vaults and shares stand for: a keyring, a map from vaults to their owner and
  whether they are open, and a map from vault and user to the role of a share and the team it came
  through.  Every call of the services, those on accounts included, refines a step on the keyring, and
  what a failed call can leave behind is part of that step.
\<close>

section \<open>The abstract state\<close>

record keyring =
  kr_vaults :: "uuid \<rightharpoonup> uuid \<times> bool"
  kr_shares :: "uuid \<times> uuid \<rightharpoonup> string \<times> uuid option"

definition vault_entry :: "vault_row \<Rightarrow> uuid \<times> bool" where
  "vault_entry v = (v_owner v, live v)"

definition share_entry :: "share_row \<Rightarrow> string \<times> uuid option" where
  "share_entry k = (k_role k, k_team k)"

definition vault_at :: "vault_row list \<Rightarrow> uuid \<Rightarrow> vault_row option" where
  "vault_at vs vid = first_row (\<lambda>v. v_id v = vid) vs"

definition keyring_of :: "db \<Rightarrow> keyring" where
  "keyring_of s =
     \<lparr> kr_vaults = (\<lambda>vid. map_option vault_entry (vault_at (vaults s) vid)),
       kr_shares = (\<lambda>j. map_option share_entry (share_at (shares s) j)) \<rparr>"

definition may_open :: "keyring \<Rightarrow> uuid \<Rightarrow> uuid \<Rightarrow> bool" where
  "may_open r uid vid \<longleftrightarrow>
     (case kr_vaults r vid of
        Some (owner, True) \<Rightarrow> owner = uid \<or> kr_shares r (vid, uid) \<noteq> None
      | _ \<Rightarrow> False)"

section \<open>The abstract steps\<close>

definition set_open :: "uuid \<Rightarrow> bool \<Rightarrow> keyring \<Rightarrow> keyring" where
  "set_open vid b r = r\<lparr>kr_vaults := (kr_vaults r)(vid := map_option (\<lambda>(w, _). (w, b)) (kr_vaults r vid))\<rparr>"

definition forget_team :: "uuid \<Rightarrow> string \<times> uuid option \<Rightarrow> string \<times> uuid option" where
  "forget_team tid e = (if snd e = Some tid then (fst e, None) else e)"

text \<open>What a call that returned does to the keyring, given the members of a team that have a key.\<close>

fun keyring_step :: "(uuid \<Rightarrow> (uuid \<times> bytes) list \<Rightarrow> uuid set) \<Rightarrow> db_call \<Rightarrow> keyring \<Rightarrow> keyring" where
  "keyring_step M (CallCreateVault i kr nr owner name mk) r = r\<lparr>kr_vaults := (kr_vaults r)(i \<mapsto> (owner, True))\<rparr>"
| "keyring_step M (CallDeleteVault uid vid) r = set_open vid False r"
| "keyring_step M (CallRestoreSecret sid vid) r = set_open vid True r"
| "keyring_step M (CallGrantAccess nr g vid uid key mk) r =
     r\<lparr>kr_shares := (kr_shares r)((vid, uid) \<mapsto> (''write'', None))\<rparr>"
| "keyring_step M (CallShareWithTeam nrs g vid tid key keys) r =
     r\<lparr>kr_shares := (\<lambda>(v, u). if v = vid \<and> u \<in> M tid keys then Some (''read'', Some tid) else kr_shares r (v, u))\<rparr>"
| "keyring_step M (CallRevokeAccess a vid uid) r = r\<lparr>kr_shares := (kr_shares r)((vid, uid) := None)\<rparr>"
| "keyring_step M (CallRemoveMember a tid uid) r =
     r\<lparr>kr_shares := (\<lambda>(v, u). case kr_shares r (v, u) of
         None \<Rightarrow> None | Some e \<Rightarrow> if u = uid \<and> snd e = Some tid then None else Some e)\<rparr>"
| "keyring_step M (CallDeleteTeam a tid) r = r\<lparr>kr_shares := map_option (forget_team tid) \<circ> kr_shares r\<rparr>"
| "keyring_step M (CallRotateKey kr a vid env envs) r =
     r\<lparr>kr_shares := (\<lambda>(v, u). if v = vid then map_of (map (\<lambda>(w, _, via). (w, (''read'', via))) envs) u
                             else kr_shares r (v, u))\<rparr>"
| "keyring_step M c r = r"

text \<open>The deletion of an account takes the vaults of the user, the shares of these vaults and the shares the
  user holds.  No other call on accounts has a part in the keyring.\<close>

definition without_user :: "uuid \<Rightarrow> keyring \<Rightarrow> keyring" where
  "without_user uid r =
     \<lparr> kr_vaults = (\<lambda>vid. case kr_vaults r vid of None \<Rightarrow> None | Some e \<Rightarrow> if fst e = uid then None else Some e),
       kr_shares = (\<lambda>(vid, u). if u = uid \<or> (\<exists>b. kr_vaults r vid = Some (uid, b)) then None else kr_shares r (vid, u)) \<rparr>"

fun call_step :: "(uuid \<Rightarrow> (uuid \<times> bytes) list \<Rightarrow> uuid set) \<Rightarrow> call \<Rightarrow> keyring \<Rightarrow> keyring" where
  "call_step M (DbCall c) r = keyring_step M c r"
| "call_step M (CallDeleteUser actor uid) r = without_user uid r"
| "call_step M c r = r"

definition keyed_members :: "db \<Rightarrow> uuid \<Rightarrow> (uuid \<times> bytes) list \<Rightarrow> uuid set" where
  "keyed_members s tid keys = {m \<in> set (team_member_ids s tid). effective_key s keys m \<noteq> None}"

section \<open>The abstraction\<close>

lemma keyring_eqI:
  assumes "\<And>vid. map_option vault_entry (vault_at (vaults s') vid) = kr_vaults r vid"
    and "\<And>v u. map_option share_entry (share_at (shares s') (v, u)) = kr_shares r (v, u)"
  shows "keyring_of s' = r"
  using assms by (cases r) (auto simp: keyring_of_def)

lemma keyring_of_tables: "vaults s' = vaults s \<Longrightarrow> shares s' = shares s \<Longrightarrow> keyring_of s' = keyring_of s"
  by (simp add: keyring_of_def)

lemma keyring_of_maps [simp]:
  "kr_vaults (keyring_of s) vid = map_option vault_entry (vault_at (vaults s) vid)"
  "kr_shares (keyring_of s) j = map_option share_entry (share_at (shares s) j)"
  by (simp_all add: keyring_of_def)

lemma keyring_same [simp]: "(keyring_of s)\<lparr>kr_shares := \<lambda>j. map_option share_entry (share_at (shares s) j)\<rparr> = keyring_of s"
  by (simp add: keyring_of_def)

lemma share_at_SomeD: "share_at ks j = Some k \<Longrightarrow> k \<in> set ks \<and> share_key k = j"
  unfolding share_at_def by (drule first_row_SomeD) simp

lemma vault_at_SomeD: "vault_at vs vid = Some v \<Longrightarrow> v \<in> set vs \<and> v_id v = vid"
  unfolding vault_at_def by (drule first_row_SomeD) simp

lemma may_open_has_access:
  assumes ok: "db_ok s"
  shows "may_open (keyring_of s) uid vid \<longleftrightarrow> has_access s uid vid"
proof (cases "vault_at (vaults s) vid")
  case None
  then have "\<forall>v\<in>set (vaults s). v_id v \<noteq> vid" by (simp add: vault_at_def first_row_None)
  with None show ?thesis by (auto simp: may_open_def has_access_def)
next
  case (Some v)
  have d: "distinct (map v_id (vaults s))" using db_okD(2) [OF ok] by (simp add: vaults_ok_def)
  have v: "v \<in> set (vaults s)" "v_id v = vid" using first_row_SomeD [OF Some [unfolded vault_at_def]] by simp_all
  then have "w = v" if "w \<in> set (vaults s)" "v_id w = vid" for w using unique_key_row [OF d that(1) v(1)] that(2) by simp
  with v have "has_access s uid vid \<longleftrightarrow> live v \<and> (v_owner v = uid \<or> share_at (shares s) (vid, uid) \<noteq> None)"
    unfolding has_access_shares by blast
  then show ?thesis by (auto simp: may_open_def Some vault_entry_def split: bool.split)
qed

lemma vault_at_update:
  assumes "\<And>r. v_id (f r) = v_id r" and "\<And>r. p r \<Longrightarrow> v_id r = vid"
  shows "vault_at (update_rows p f vs) w =
    (if w = vid then map_option (\<lambda>r. if p r then f r else r) (vault_at vs vid) else vault_at vs w)"
proof -
  have "vault_at (update_rows p f vs) w = map_option (\<lambda>r. if p r then f r else r) (vault_at vs w)"
    unfolding vault_at_def by (rule first_row_update) (simp add: assms(1))
  moreover have "map_option (\<lambda>r. if p r then f r else r) (vault_at vs w) = vault_at vs w" if "w \<noteq> vid"
    using that assms(2) by (cases "vault_at vs w") (auto simp: vault_at_def dest: first_row_SomeD)
  ultimately show ?thesis by simp
qed

lemma vault_at_append:
  "vault_at (vs @ [v]) w = (case vault_at vs w of Some r \<Rightarrow> Some r | None \<Rightarrow> if v_id v = w then Some v else None)"
  by (simp add: vault_at_def first_row_append)

lemma set_open_update:
  assumes "\<And>r. v_id (f r) = v_id r" "\<And>r. p r \<Longrightarrow> v_id r = vid"
    and "\<And>r. v_id r = vid \<Longrightarrow> vault_entry (if p r then f r else r) = (v_owner r, b)"
    and "vaults s' = update_rows p f (vaults s)" "shares s' = shares s"
  shows "keyring_of s' = set_open vid b (keyring_of s)"
proof (rule keyring_eqI)
  show "map_option vault_entry (vault_at (vaults s') w) = kr_vaults (set_open vid b (keyring_of s)) w" for w
  proof -
    have "vault_at (vaults s') w =
        (if w = vid then map_option (\<lambda>r. if p r then f r else r) (vault_at (vaults s) vid) else vault_at (vaults s) w)"
      unfolding assms(4) by (rule vault_at_update) (simp add: assms(1), rule assms(2))
    then show ?thesis
      using assms(3) by (cases "vault_at (vaults s) vid") (auto simp: set_open_def vault_at_SomeD vault_entry_def)
  qed
qed (simp add: set_open_def assms(5))

section \<open>The calls refine the steps\<close>

text \<open>The calls that touch neither vaults nor shares leave the keyring alone.\<close>

interpretation same_access: staff_order "\<lambda>s s'. vaults s' = vaults s \<and> shares s' = shares s"
  by unfold_locales
     (auto simp: statement_defs insert_user_row_def user_update_role_def require_rows_def split: sum.split option.split)

lemma plain_call_keyring:
  assumes "\<not> access_call c"
  shows "keyring_of (snd (perform P c s)) = keyring_of s"
  using same_access.st_perform_plain [OF assms, of P] unfolding moves_def by (metis keyring_of_tables)

lemma event_keyring: "keyring_of (snd (record_event actor act tty tref det s)) = keyring_of s"
  using same_access.st_event unfolding moves_def by (metis keyring_of_tables)

lemma created_keyring:
  assumes "create_vault P i kr nr owner name mk s = (Inr v, s')"
  shows "keyring_of s' = (keyring_of s)\<lparr>kr_vaults := (kr_vaults (keyring_of s))(i \<mapsto> (owner, True))\<rparr>"
proof -
  from create_vault_effect [OF assms] obtain q where new: "i \<notin> set (vault_ids s)"
    and same: "same_but_audit (s\<lparr>vaults := vaults s @ [created_row i owner name (serialize_envelope q)]\<rparr>) s'" by blast
  let ?env = "serialize_envelope q"
  have st: "vaults s' = vaults s @ [created_row i owner name ?env]" "shares s' = shares s"
    using same by (simp_all add: same_but_audit_def)
  have none: "vault_at (vaults s) i = None"
    using new by (auto simp: vault_at_def first_row_None vault_ids_def)
  show ?thesis
  proof (rule keyring_eqI)
    show "map_option vault_entry (vault_at (vaults s') vid) =
        kr_vaults ((keyring_of s)\<lparr>kr_vaults := (kr_vaults (keyring_of s))(i \<mapsto> (owner, True))\<rparr>) vid" for vid
      using none by (cases "vid = i") (simp_all add: st vault_at_append created_row_def vault_entry_def live_def
          split: option.split)
  qed (simp add: st)
qed

lemma deleted_keyring:
  assumes ok: "db_ok s" and run: "delete_vault uid vid s = (Inr (), s')"
  shows "keyring_of s' = set_open vid False (keyring_of s)"
proof -
  let ?ev = "record_event (Some uid) VaultDeleted (Some ''vault'') (Some (TargetId vid)) None"
  from run obtain s1 where d: "vault_delete vid s = (Inr (), s1)" and ev: "ignore_error ?ev s1 = (Inr (), s')"
    by (auto simp: delete_vault_def returns_iff require_user_returns require_access_returns)
  have s1: "s1 = trash_vault vid s" using d by (simp add: vault_delete_run [OF ok] split: if_splits)
  have "s' = snd (?ev s1)" using ev by (simp add: ignore_error_run)
  then have "same_but_audit s1 s'" by (metis record_event_same prod.collapse)
  then have st: "vaults s' = update_rows (\<lambda>r. v_id r = vid \<and> live r) (\<lambda>r. r\<lparr>v_deleted := Some (clock s)\<rparr>) (vaults s)"
    "shares s' = shares s"
    by (simp_all add: s1 trash_vault_def same_but_audit_def)
  show ?thesis
    by (rule set_open_update [OF _ _ _ st]) (auto simp: vault_entry_def live_def)
qed

lemma restored_keyring:
  assumes "restore_secret sid vid s = (Inr (), s')"
  shows "keyring_of s' = set_open vid True (keyring_of s)"
proof -
  obtain v where v: "first_row (\<lambda>v. v_id v = vid) (vaults s) = Some v"
    and s': "s' = s\<lparr>vaults := (if live v then vaults s
          else update_rows (\<lambda>v. v_id v = vid \<and> \<not> live v) (\<lambda>v. v\<lparr>v_deleted := None\<rparr>) (vaults s)),
        secrets := update_rows (\<lambda>r. si_id r = sid \<and> si_vault r = vid \<and> \<not> live_secret r)
          (\<lambda>r. r\<lparr>si_deleted := None\<rparr>) (secrets s)\<rparr>"
    using assms unfolding restore_returns by (elim exE conjE)
  have st: "vaults s' = (if live v then vaults s
        else update_rows (\<lambda>v. v_id v = vid \<and> \<not> live v) (\<lambda>v. v\<lparr>v_deleted := None\<rparr>) (vaults s))" "shares s' = shares s"
    by (simp_all add: s')
  show ?thesis
  proof (cases "live v")
    case True
    show ?thesis
    proof (rule keyring_eqI)
      show "map_option vault_entry (vault_at (vaults s') w) = kr_vaults (set_open vid True (keyring_of s)) w" for w
        by (cases "w = vid") (simp_all add: v True st set_open_def vault_entry_def vault_at_def)
    qed (simp add: set_open_def st)
  next
    case False
    show ?thesis
      by (rule set_open_update [OF _ _ _ st(1) [unfolded if_not_P [OF False]] st(2)]) (auto simp: vault_entry_def live_def)
  qed
qed

lemma share_changes:
  assumes "vaults s' = vaults s" and "\<And>v u. map_option share_entry (share_at (shares s') (v, u)) = f (v, u)"
  shows "keyring_of s' = (keyring_of s)\<lparr>kr_shares := f\<rparr>"
  by (rule keyring_eqI) (simp_all add: assms)

lemma granted_keyring:
  assumes "grant_vault_access P nr g vid uid key mk s = (Inr (), s')"
  shows "keyring_of s' = (keyring_of s)\<lparr>kr_shares := (kr_shares (keyring_of s))((vid, uid) \<mapsto> (''write'', None))\<rparr>"
proof -
  from granted_state [OF assms] obtain q
    where same: "same_but_audit (s\<lparr>shares := put_share (new_share (clock s) vid uid q g None ShareWrite) (shares s)\<rparr>) s'" .
  then show ?thesis
    by (intro share_changes)
       (simp_all add: same_but_audit_def share_store.lookup_put share_key_def new_share_def share_entry_def)
qed

lemma shared_keyring:
  assumes ok: "db_ok s" and run: "share_vault_with_team P nrs g vid tid key keys s = (Inr (), s')"
  shows "keyring_of s' = (keyring_of s)\<lparr>kr_shares := (\<lambda>(v, u).
      if v = vid \<and> u \<in> keyed_members s tid keys then Some (''read'', Some tid) else kr_shares (keyring_of s) (v, u))\<rparr>"
proof (rule share_changes)
  note eff = share_with_team_effect [OF ok run]
  then show "vaults s' = vaults s" by (simp add: same_but_audit_def)
  let ?new = "team_share_of P nrs g vid tid key keys s"
  have entry: "share_entry k = (''read'', Some tid)" if "?new u = Some k" for u k
    using that by (auto simp: team_share_of_def new_share_def share_entry_def split: option.splits sum.splits)
  have some: "?new u \<noteq> None \<longleftrightarrow> effective_key s keys u \<noteq> None" if "u \<in> set (team_member_ids s tid)" for u
    using eff that by (auto simp: team_share_of_def split: option.splits)
  show "map_option share_entry (share_at (shares s') (v, u)) = (case (v, u) of (v, u) \<Rightarrow>
      if v = vid \<and> u \<in> keyed_members s tid keys then Some (''read'', Some tid) else kr_shares (keyring_of s) (v, u))" for v u
    using eff some [of u] entry [of u] by (cases "?new u") (auto simp: keyed_members_def)
qed

lemma revoked_keyring:
  assumes "revoke_vault_access a vid uid s = (Inr (), s')"
  shows "keyring_of s' = (keyring_of s)\<lparr>kr_shares := (kr_shares (keyring_of s))((vid, uid) := None)\<rparr>"
proof -
  from assms obtain s1 where s1: "s1 = s\<lparr>shares := del_share (vid, uid) (shares s)\<rparr>"
    and "same_but_audit s1 s'"
    by (auto simp: revoke_vault_access_def returns_iff vault_delete_key_share_def delete_shares_def del_share_def
        share_key_def dest: record_event_same)
  then show ?thesis by (intro share_changes) (simp_all add: same_but_audit_def share_store.lookup_del)
qed

lemma left_keyring:
  assumes ok: "db_ok s" and run: "remove_member a tid uid s = (Inr (), s')"
  shows "keyring_of s' = (keyring_of s)\<lparr>kr_shares := (\<lambda>(v, u). case kr_shares (keyring_of s) (v, u) of
         None \<Rightarrow> None | Some e \<Rightarrow> if u = uid \<and> snd e = Some tid then None else Some e)\<rparr>"
proof (rule share_changes)
  have st: "vaults s' = vaults s" "shares s' = delete_rows (\<lambda>k. k_user k = uid \<and> k_team k = Some tid) (shares s)"
    using removed_state [OF ok run] by (simp_all add: same_but_audit_def)
  have d: "distinct (map share_key (shares s))" using db_okD(6) [OF ok] by (simp add: shares_ok_def)
  show "vaults s' = vaults s" by (rule st(1))
  show "map_option share_entry (share_at (shares s') (v, u)) =
      (case (v, u) of (v, u) \<Rightarrow> case kr_shares (keyring_of s) (v, u) of
         None \<Rightarrow> None | Some e \<Rightarrow> if u = uid \<and> snd e = Some tid then None else Some e)" for v u
  proof (cases "share_at (shares s) (v, u)")
    case None
    then have "share_at (shares s') (v, u) = None"
      by (auto simp: st share_at_def first_row_None set_delete_rows)
    with None show ?thesis by simp
  next
    case (Some k)
    then have k: "k \<in> set (shares s)" "share_key k = (v, u)" by (simp_all add: share_at_SomeD)
    have "share_at (shares s') (v, u) = (if k_user k = uid \<and> k_team k = Some tid then None else Some k)"
    proof (cases "k_user k = uid \<and> k_team k = Some tid")
      case True
      have "x = k" if "x \<in> set (shares s)" "share_key x = (v, u)" for x
        using unique_key_row [OF d that(1) k(1)] that(2) k(2) by simp
      with True show ?thesis by (auto simp: st share_at_delete first_row_None)
    next
      case False
      have "first_row (\<lambda>x. share_key x = (v, u) \<and> \<not> (k_user x = uid \<and> k_team x = Some tid)) (shares s) = Some k"
        by (rule first_row_unique [OF d k(1)]) (use False k in auto)
      with False show ?thesis by (simp add: st share_at_delete)
    qed
    with Some k show ?thesis by (auto simp: share_entry_def share_key_def)
  qed
qed

lemma team_deleted:
  assumes "delete_team a tid s = (Inr (), s')"
  shows "vaults s' = vaults s"
    "shares s' = update_rows (\<lambda>k. k_team k = Some tid) (\<lambda>k. k\<lparr>k_team := None\<rparr>) (shares s)"
proof -
  from assms obtain s0 t2 t s1 det where p: "require_team_permission a tid TeamManageMembers s = (Inr (), s0)"
    and g: "team_get_by_id tid s0 = (Inr t, t2)" and d: "team_delete tid t2 = (Inr (), s1)"
    and ev: "record_event (Some a) TeamDeleted (Some ''team'') (Some (TargetId tid)) det s1 = (Inr (), s')"
    by (auto simp: delete_team_def returns_iff)
  have "t2 = s" using reads_only_run [OF team_service_reads(1) p] reads_only_run [OF team_queries_read(1) g] by simp
  with d have "s1 = delete_team_row tid s" by (auto simp: team_delete_def returns_iff run_simps)
  with record_event_same [OF ev] show "vaults s' = vaults s"
    "shares s' = update_rows (\<lambda>k. k_team k = Some tid) (\<lambda>k. k\<lparr>k_team := None\<rparr>) (shares s)"
    by (simp_all add: same_but_audit_def delete_team_row_def)
qed

lemma disbanded_keyring:
  assumes "delete_team a tid s = (Inr (), s')"
  shows "keyring_of s' = (keyring_of s)\<lparr>kr_shares := map_option (forget_team tid) \<circ> kr_shares (keyring_of s)\<rparr>"
proof (rule share_changes)
  show "vaults s' = vaults s" by (rule team_deleted(1) [OF assms])
  have "share_at (shares s') j =
      map_option (\<lambda>k. if k_team k = Some tid then k\<lparr>k_team := None\<rparr> else k) (share_at (shares s) j)" for j
    unfolding team_deleted(2) [OF assms] share_at_def by (rule first_row_update) (simp add: share_key_def)
  then show "map_option share_entry (share_at (shares s') (v, u)) =
      (map_option (forget_team tid) \<circ> kr_shares (keyring_of s)) (v, u)" for v u
    by (cases "share_at (shares s) (v, u)") (simp_all add: forget_team_def share_entry_def)
qed

lemma rotated_shares_at:
  "map_option share_entry (share_at (map (rotated_share t vid a) envs) (vid, u)) =
     map_of (map (\<lambda>(w, _, via). (w, (''read'', via))) envs) u"
  by (induction envs) (auto simp: share_at_def first_row_def share_key_def share_entry_def)

lemma replaced_keyring:
  assumes sh: "shares s' = delete_rows (\<lambda>k. k_vault k = vid) (shares s) @ map (rotated_share t vid a) envs"
    and vs: "\<And>w. map_option vault_entry (vault_at (vaults s') w) = map_option vault_entry (vault_at (vaults s) w)"
  shows "keyring_of s' = (keyring_of s)\<lparr>kr_shares := (\<lambda>(v, u).
      if v = vid then map_of (map (\<lambda>(w, _, via). (w, (''read'', via))) envs) u else kr_shares (keyring_of s) (v, u))\<rparr>"
    (is "_ = ?r")
proof (rule keyring_eqI)
  show "map_option vault_entry (vault_at (vaults s') w) = kr_vaults ?r w" for w by (simp add: vs)
  have old: "share_at (delete_rows (\<lambda>k. k_vault k = vid) (shares s)) (v, u) =
      (if v = vid then None else share_at (shares s) (v, u))" for v u
  proof (cases "v = vid")
    case True
    then show ?thesis by (auto simp: share_at_delete first_row_None share_key_def)
  next
    case False
    then have "(\<lambda>k. share_key k = (v, u) \<and> \<not> k_vault k = vid) = (\<lambda>k. share_key k = (v, u))"
      by (auto simp: share_key_def)
    with False show ?thesis unfolding share_at_delete by (simp add: share_at_def)
  qed
  have new: "share_at (map (rotated_share t vid a) envs) (v, u) = None" if "v \<noteq> vid" for v u
    using that by (auto simp: share_at_def first_row_None share_key_def)
  have app: "share_at (xs @ ys) j = (case share_at xs j of None \<Rightarrow> share_at ys j | Some k \<Rightarrow> Some k)" for xs ys j
    by (induction xs) (simp_all add: share_at_def first_row_def)
  show "map_option share_entry (share_at (shares s') (v, u)) = kr_shares ?r (v, u)" for v u
    using rotated_shares_at [of t vid a envs u]
    by (cases "v = vid") (simp_all add: sh app old new split: option.split)
qed

lemma entries_after_key_update:
  "map_option vault_entry (vault_at (update_rows (\<lambda>r. v_id r = vid \<and> live r)
     (\<lambda>r. r\<lparr>v_key := Some env, v_version := v_version r + 1\<rparr>) vs) w) = map_option vault_entry (vault_at vs w)"
proof -
  have "vault_at (update_rows (\<lambda>r. v_id r = vid \<and> live r) (\<lambda>r. r\<lparr>v_key := Some env, v_version := v_version r + 1\<rparr>) vs) w =
      map_option (\<lambda>r. if v_id r = vid \<and> live r then r\<lparr>v_key := Some env, v_version := v_version r + 1\<rparr> else r) (vault_at vs w)"
    unfolding vault_at_def by (rule first_row_update) simp
  then show ?thesis by (cases "vault_at vs w") (simp_all add: vault_entry_def live_def)
qed

lemma rotated_keyring:
  assumes "rotate_vault_key kr a vid env envs s = (Inr key, s')"
  shows "keyring_of s' = (keyring_of s)\<lparr>kr_shares := (\<lambda>(v, u).
      if v = vid then map_of (map (\<lambda>(w, _, via). (w, (''read'', via))) envs) u else kr_shares (keyring_of s) (v, u))\<rparr>"
proof (rule replaced_keyring)
  show "shares s' = delete_rows (\<lambda>k. k_vault k = vid) (shares s) @ map (rotated_share (clock s) vid a) envs"
    "map_option vault_entry (vault_at (vaults s') w) = map_option vault_entry (vault_at (vaults s) w)" for w
    using rotated_state [OF assms] entries_after_key_update by (simp_all add: same_but_audit_def)
qed

section \<open>The refinement\<close>

lemma quiet_returns: "quiet m s = (Inr x, s') \<longleftrightarrow> (\<exists>y. m s = (Inr y, s'))"
  by (auto simp: quiet_def returns_iff)

text \<open>The deletion of an account, whether it returns or not.\<close>

lemma first_row_delete:
  "distinct (map k rows) \<Longrightarrow> first_row (\<lambda>r. k r = x) (delete_rows p rows) =
     (case first_row (\<lambda>r. k r = x) rows of None \<Rightarrow> None | Some r \<Rightarrow> if p r then None else Some r)"
proof (induction rows)
  case (Cons r rows)
  have "first_row (\<lambda>r. k r = x) (delete_rows p rows) = None" if "k r = x"
    using that Cons.prems unfolding first_row_None by (auto simp: delete_rows_def intro: rev_image_eqI)
  with Cons show ?case by (auto simp: first_row_def delete_rows_def)
qed (simp add: first_row_def delete_rows_def)

lemma cascade_keyring:
  assumes ok: "db_ok s" and s': "s' = cascade_user uid (delete_logins_of uid s)"
  shows "keyring_of s' = without_user uid (keyring_of s)"
proof (rule keyring_eqI)
  have dv: "distinct (map v_id (vaults s))" and ds: "distinct (map share_key (shares s))"
    using db_okD(2,6) [OF ok] by (simp_all add: vaults_ok_def shares_ok_def)
  have vs: "vaults s' = delete_rows (\<lambda>v. v_owner v = uid) (vaults s)"
    and sh: "shares s' = delete_rows (\<lambda>k. k_user k = uid \<or> k_vault k \<in> set (owned_vault_ids uid s)) (shares s)"
    by (simp_all add: s' cascade_user_def delete_logins_of_def owned_vault_ids_def)
  show "map_option vault_entry (vault_at (vaults s') vid) = kr_vaults (without_user uid (keyring_of s)) vid" for vid
    using first_row_delete [OF dv, of vid "\<lambda>v. v_owner v = uid"]
    by (simp add: without_user_def vs vault_at_def vault_entry_def split: option.split)
  have owned: "vid \<in> set (owned_vault_ids uid s) \<longleftrightarrow> (\<exists>v. vault_at (vaults s) vid = Some v \<and> v_owner v = uid)" for vid
  proof -
    have "first_row (\<lambda>v. v_id v = v_id r) (vaults s) = Some r" if "r \<in> set (vaults s)" for r
      by (rule first_row_unique [OF dv that]) simp_all
    then show ?thesis by (auto simp: owned_vault_ids_def vault_at_def dest: first_row_SomeD)
  qed
  show "map_option share_entry (share_at (shares s') (v, u)) = kr_shares (without_user uid (keyring_of s)) (v, u)" for v u
    using first_row_delete [OF ds, of "(v, u)" "\<lambda>k. k_user k = uid \<or> k_vault k \<in> set (owned_vault_ids uid s)"]
    by (auto simp: without_user_def sh share_at_def share_entry_def share_key_def owned vault_entry_def
        dest: first_row_SomeD split: option.split)
qed

lemma deletion_keyring:
  assumes "db_ok (app_db w)"
  shows "keyring_of (app_db (snd (admin_delete_user actor uid w))) \<in>
    {keyring_of (app_db w), without_user uid (keyring_of (app_db w))}"
  using delete_account_state [of w uid actor] cascade_keyring [OF assms, of _ uid]
  by (auto simp: same_but_audit_def intro: keyring_of_tables dest: keyring_of_tables)

text \<open>What a call leaves behind when it fails: the keyring as it was, or its own step, with fewer members of
  the team served.\<close>

definition stepped :: "db \<Rightarrow> db_call \<Rightarrow> db \<Rightarrow> bool" where
  "stepped s c s' \<longleftrightarrow> keyring_of s' = keyring_of s \<or>
     (\<exists>M. (\<forall>tid keys. M tid keys \<subseteq> keyed_members s tid keys) \<and> keyring_of s' = keyring_step M c (keyring_of s))"

lemma steppedI: "keyring_of s' = keyring_step (keyed_members s) c (keyring_of s) \<Longrightarrow> stepped s c s'"
  unfolding stepped_def by blast

lemma stepped_refl [simp]: "stepped s c s"
  by (simp add: stepped_def)

lemma stepped_event: "stepped s c s' \<Longrightarrow> stepped s c (snd (record_event actor act tty tref det s'))"
  by (simp add: stepped_def event_keyring)

lemma inserted_share:
  "vault_insert_key_share vid uid env by_user via ro s = (Inl e, s') \<Longrightarrow> s' = s"
  "vault_insert_key_share vid uid (serialize_vault_key_envelope q) (Some g) via ro s = (Inr x, s') \<Longrightarrow>
     keyring_of s' = (keyring_of s)\<lparr>kr_shares := (kr_shares (keyring_of s))((vid, uid) \<mapsto> (share_role_to_db ro, via))\<rparr>"
proof -
  show "vault_insert_key_share vid uid env by_user via ro s = (Inl e, s') \<Longrightarrow> s' = s"
    by (auto simp: vault_insert_key_share_def bindE_fails exec_sql_def run_simps split: sum.splits)
  assume "vault_insert_key_share vid uid (serialize_vault_key_envelope q) (Some g) via ro s = (Inr x, s')"
  then have "s' = s\<lparr>shares := put_share (new_share (clock s) vid uid q g via ro) (shares s)\<rparr>"
    by (simp add: insert_key_share_returns)
  then show "keyring_of s' = (keyring_of s)\<lparr>kr_shares := (kr_shares (keyring_of s))((vid, uid) \<mapsto> (share_role_to_db ro, via))\<rparr>"
    by (intro share_changes)
       (simp_all add: share_store.lookup_put share_key_def new_share_def share_entry_def)
qed

lemma grant_stepped: "stepped s (CallGrantAccess nr g vid uid key mk) (snd (grant_vault_access P nr g vid uid key mk s))"
  (is "?Q (snd (grant_vault_access P nr g vid uid key mk s))")
  unfolding grant_vault_access_def
proof (rule post_reads [where Q = ?Q, OF _ stepped_refl], (intro step_intros; fail), rule post_bindE [where Q = ?Q])
  fix q s' x
  assume "vault_insert_key_share vid uid (serialize_vault_key_envelope q) (Some g) None ShareWrite s = (Inr x, s')"
  from inserted_share(2) [OF this] have "?Q s'" by (intro steppedI) simp
  then show "?Q (snd (record_event (Some g) VaultSharedWithUser (Some ''vault'') (Some (TargetId vid))
       (Some [Lit ''{\"recipient\":\"'', IdText uid, Lit ''\"}'']) s'))" by (rule stepped_event)
qed (auto dest: inserted_share(1))

lemma revoke_stepped: "stepped s (CallRevokeAccess a vid uid) (snd (revoke_vault_access a vid uid s))"
  (is "?Q (snd (revoke_vault_access a vid uid s))")
  unfolding revoke_vault_access_def
proof (rule post_bindE [where Q = ?Q])
  fix s' x
  assume "vault_delete_key_share vid uid s = (Inr x, s')"
  then have "s' = s\<lparr>shares := del_share (vid, uid) (shares s)\<rparr>"
    by (auto simp: vault_delete_key_share_def delete_shares_def del_share_def share_key_def bindE_run run_simps)
  then have "keyring_of s' = (keyring_of s)\<lparr>kr_shares := (kr_shares (keyring_of s))((vid, uid) := None)\<rparr>"
    by (intro share_changes) (simp_all add: share_store.lookup_del)
  then have "?Q s'" by (intro steppedI) simp
  then show "?Q (snd (record_event (Some a) VaultAccessRevoked (Some ''vault'') (Some (TargetId vid))
       (Some [Lit ''{\"user_id\":\"'', IdText uid, Lit ''\"}'']) s'))" by (rule stepped_event)
qed (auto simp: vault_delete_key_share_def delete_shares_def bindE_run run_simps)

lemma key_update_keyring: "keyring_of (snd (vault_update_key_envelope vid env s)) = keyring_of s"
  by (rule keyring_eqI)
     (simp_all add: vault_update_key_envelope_def require_rows_def update_vaults_def bindE_run run_simps
       entries_after_key_update)

lemma rotate_stepped: "stepped s (CallRotateKey kr a vid env envs) (snd (rotate_vault_key kr a vid env envs s))"
  (is "?Q (snd (rotate_vault_key kr a vid env envs s))")
proof -
  have rep: "?Q s1" if "vault_replace_all_key_shares vid envs (Some a) s = (Inr x, s1)" for x s1
  proof -
    have "s1 = s\<lparr>shares := delete_rows (\<lambda>k. k_vault k = vid) (shares s) @ map (rotated_share (clock s) vid a) envs\<rparr>"
      using that unfolding vault_replace_all_key_shares_def transaction_returns bindE_returns
      by (auto simp: delete_shares_def dest!: insert_shares_loop)
    then show ?thesis by (intro steppedI) (simp add: replaced_keyring)
  qed
  have "?Q (snd (persist_rotated_vault_keys a vid env envs s))"
    unfolding persist_rotated_vault_keys_def
  proof (rule post_bindE [where Q = ?Q])
    fix e s1 assume "vault_replace_all_key_shares vid envs (Some a) s = (Inl e, s1)"
    then have "s1 = s" unfolding vault_replace_all_key_shares_def by (rule transaction_atomic)
    then show "?Q s1" by simp
  next
    fix x s1 assume "vault_replace_all_key_shares vid envs (Some a) s = (Inr x, s1)"
    from rep [OF this] show "?Q (snd (vault_update_key_envelope vid env s1))"
      by (simp add: stepped_def key_update_keyring)
  qed
  then have persisted: "?Q s1" if "persist_rotated_vault_keys a vid env envs s = (r, s1)" for r s1
    using that by simp
  show ?thesis
    unfolding rotate_vault_key_def record_vault_rotation_event_def
    by (rule post_reads [where Q = ?Q, OF _ stepped_refl], intro step_intros)
       (intro post_bindE [where Q = ?Q]; auto simp: run_simps dest: persisted; metis stepped_event persisted snd_conv)
qed

lemma shares_updateI: "f = g \<Longrightarrow> r\<lparr>kr_shares := f\<rparr> = r\<lparr>kr_shares := g\<rparr>"
  by simp

lemma members_stepped:
  "\<exists>U \<subseteq> {m \<in> set ms. effective_key s keys m \<noteq> None}.
     keyring_of (snd (share_vault_with_members P nrs g vid tid key keys ms n k s)) =
       (keyring_of s)\<lparr>kr_shares := (\<lambda>(v, u). if v = vid \<and> u \<in> U then Some (''read'', Some tid) else kr_shares (keyring_of s) (v, u))\<rparr>"
    (is "\<exists>U \<subseteq> ?A ms s. ?K ms n k s = ?r s U")
proof (induction ms arbitrary: s n k)
  case Nil
  show ?case by (intro exI [of _ "{}"]) (simp add: run_simps)
next
  case (Cons m ms)
  have stay: "\<exists>U \<subseteq> ?A (m # ms) s. keyring_of s = ?r s U" by (intro exI [of _ "{}"]) simp
  show ?case
  proof (cases "effective_key s keys m")
    case None
    with Cons.IH [of s n "k + 1"] show ?thesis by (auto simp: bindE_run resolve_run)
  next
    case (Some mk)
    let ?ins = "insert_team_key_share P (nrs m) g vid tid m key mk"
    show ?thesis
    proof (cases "?ins s")
      case (Pair r s1)
      show ?thesis
      proof (cases r)
        case (Inl e)
        then have "s1 = s"
          using Pair inserted_share(1) by (auto simp: insert_team_key_share_def bindE_fails run_simps split: sum.splits)
        with Inl Pair Some stay show ?thesis by (simp add: bindE_run resolve_run)
      next
        case (Inr x)
        then obtain q where ins: "vault_insert_key_share vid m (serialize_vault_key_envelope q) (Some g) (Some tid) ShareRead s = (Inr x, s1)"
          using Pair by (auto simp: insert_team_key_share_def returns_iff)
        have kr: "keyring_of s1 = ?r s {m}" using inserted_share(2) [OF ins] by (auto simp: fun_eq_iff)
        have "effective_key s1 keys u = effective_key s keys u" for u using ins by (simp add: insert_key_share_returns)
        with Cons.IH [of s1 "n + 1" k] obtain U where U: "U \<subseteq> ?A ms s" "?K ms (n + 1) k s1 = ?r s1 U" by auto
        have "?K (m # ms) n k s = ?r s (insert m U)"
        proof -
          have "?r s1 U = ?r s (insert m U)" unfolding kr by (auto intro!: shares_updateI simp: fun_eq_iff)
          then show ?thesis using U(2) Some Pair Inr by (simp add: bindE_run resolve_run)
        qed
        moreover have "insert m U \<subseteq> ?A (m # ms) s" using U(1) Some by auto
        ultimately show ?thesis by blast
      qed
    qed
  qed
qed

lemma share_stepped:
  "stepped s (CallShareWithTeam nrs g vid tid key keys) (snd (share_vault_with_team P nrs g vid tid key keys s))"
  (is "?Q (snd (share_vault_with_team P nrs g vid tid key keys s))")
proof -
  let ?loop = "share_vault_with_members P nrs g vid tid key keys (team_member_ids s tid) 0 0"
  have loop: "?Q s1" if "?loop s = (r, s1)" for r s1
  proof -
    have s1: "snd (?loop s) = s1" using that by simp
    from members_stepped [of "team_member_ids s tid" s keys P nrs g vid tid key 0 0, unfolded s1]
    obtain U where U: "U \<subseteq> {m \<in> set (team_member_ids s tid). effective_key s keys m \<noteq> None}"
      "keyring_of s1 = (keyring_of s)\<lparr>kr_shares := (\<lambda>(v, u). if v = vid \<and> u \<in> U then Some (''read'', Some tid)
         else kr_shares (keyring_of s) (v, u))\<rparr>" by (elim exE conjE)
    let ?M = "\<lambda>t ks. if t = tid \<and> ks = keys then U else {}"
    have "keyring_of s1 = keyring_step ?M (CallShareWithTeam nrs g vid tid key keys) (keyring_of s)" using U(2) by simp
    moreover have "\<forall>t ks. ?M t ks \<subseteq> keyed_members s t ks" using U(1) by (auto simp: keyed_members_def)
    ultimately show ?thesis unfolding stepped_def by (intro disjI2 exI [of _ ?M] conjI)
  qed
  show ?thesis
    unfolding share_vault_with_team_def record_team_share_event_def
  proof (rule post_reads [where Q = ?Q, OF team_queries_read(1) stepped_refl],
      rule post_reads [where Q = ?Q, OF _ stepped_refl], (intro step_intros; fail),
      rule post_reads [where Q = ?Q, OF _ stepped_refl], (intro step_intros; fail))
    fix ms assume "team_list_member_user_ids tid s = (Inr ms, s)"
    then have ms: "ms = team_member_ids s tid"
      by (auto simp: team_list_member_user_ids_def team_member_ids_def returns_iff fetch_all_run)
    show "?Q (snd (bindE (share_vault_with_members P nrs g vid tid key keys ms 0 0) (\<lambda>(granted, skipped).
        bindE (require (granted \<noteq> 0) (Validation ''team share failed: no member received a vault key'')) (\<lambda>_.
        record_event (Some g) VaultSharedWithTeam (Some ''vault'') (Some (TargetId vid))
          (Some [Lit ''{\"team_id\":\"'', IdText tid, Lit ''\",\"members_granted\":'', NatText granted,
              Lit '',\"members_skipped\":'', NatText skipped, Lit ''}'']))) s))"
      unfolding ms
    proof (rule post_bindE [where Q = ?Q])
      fix x s1 assume l: "?loop s = (Inr x, s1)"
      obtain a b where x: "x = (a, b)" by (cases x)
      show "?Q (snd ((case x of (granted, skipped) \<Rightarrow>
          bindE (require (granted \<noteq> 0) (Validation ''team share failed: no member received a vault key'')) (\<lambda>_.
          record_event (Some g) VaultSharedWithTeam (Some ''vault'') (Some (TargetId vid))
            (Some [Lit ''{\"team_id\":\"'', IdText tid, Lit ''\",\"members_granted\":'', NatText granted,
                Lit '',\"members_skipped\":'', NatText skipped, Lit ''}'']))) s1))"
        unfolding x prod.case
        by (rule post_reads [where Q = ?Q, OF _ loop [OF l]], intro step_intros, rule stepped_event [OF loop [OF l]])
    qed (rule loop)
  qed
qed

lemma returned_stepped:
  assumes ok: "db_ok s" and run: "perform P c s = (Inr (), s')"
  shows "keyring_of s' = keyring_step (keyed_members s) c (keyring_of s)"
proof (cases "access_call c")
  case True
  then show ?thesis using assms
    by (cases c)
      (auto simp: quiet_returns created_keyring deleted_keyring restored_keyring granted_keyring
        shared_keyring revoked_keyring left_keyring disbanded_keyring rotated_keyring)
next
  case False
  with plain_call_keyring [OF False, of P s] run show ?thesis by (cases c) simp_all
qed

lemma perform_stepped:
  assumes ok: "db_ok s"
  shows "stepped s c (snd (perform P c s))"
proof (cases "fst (perform P c s)")
  case (Inr x)
  then have "perform P c s = (Inr (), snd (perform P c s))" by (simp add: prod_eq_iff)
  from returned_stepped [OF ok this] show ?thesis by (rule steppedI)
next
  case (Inl e)
  then have run: "perform P c s = (Inl e, snd (perform P c s))" by (simp add: prod_eq_iff)
  show ?thesis
  proof (cases "access_call c \<and> writes_before_failing c")
    case True
    then show ?thesis
      by (cases c) (simp_all add: quiet_post grant_stepped share_stepped revoke_stepped rotate_stepped)
  next
    case False
    then have "keyring_of (snd (perform P c s)) = keyring_of s"
      using plain_call_keyring [of c P s] cleanD [OF perform_clean run] by metis
    then show ?thesis by (simp add: stepped_def)
  qed
qed

lemma deleted_account_keyring:
  assumes ok: "db_ok (app_db w)" and run: "admin_delete_user actor uid w = (Inr (), w')"
  shows "keyring_of (app_db w') = without_user uid (keyring_of (app_db w))"
proof -
  obtain w1 w2 det where d: "on_db (user_delete uid) w1 = (Inr (), w2)" "w1 = w"
    and ev: "on_db (record_event (Some actor) UserDeleted (Some ''user'') (Some (TargetId uid)) det) w2 = (Inr (), w')"
    using run by (auto simp: admin_delete_user_def returns_iff user_found_returns require_admin_returns [OF ok]
        admin_count_run [OF ok] split: if_splits)
  obtain s1 where s1: "user_delete uid (app_db w) = (Inr (), s1)" "app_db w2 = s1" using d by (auto simp: on_db_returns)
  then have "uid \<in> set (user_ids (app_db w))"
    by (auto simp: user_delete_def returns_iff affected_pos user_ids_def)
  from user_delete_run [OF ok this] s1 cascade_keyring [OF ok refl, of uid]
  have "keyring_of (app_db w2) = without_user uid (keyring_of (app_db w))" by simp
  moreover have "keyring_of (app_db w') = keyring_of (app_db w2)"
    using ev event_keyring by (auto simp: on_db_returns) (metis snd_conv)
  ultimately show ?thesis by simp
qed

text \<open>C3. The access rights are a keyring: on a well-formed database, a call of any operation of the services,
  those on accounts and the second factor included, that returned did to the keyring the tables stand
  for exactly the step of that operation (the deletion of an account takes the vaults of the user and
  the shares on them or for the user; a call that has no step leaves the keyring alone).  A call that
  failed left the keyring as it was or did its step, in the one case of a share with a team for only
  some of the members.  And who may open what is read off the keyring in either case.\<close>

theorem access_rights_refine_a_keyring:
  assumes "db_ok (wdb w)" and "run_call S c w = (r, w')"
  shows "(r = Inr () \<longrightarrow> keyring_of (wdb w') = call_step (keyed_members (wdb w)) c (keyring_of (wdb w))) \<and>
    (\<exists>M. (\<forall>tid keys. M tid keys \<subseteq> keyed_members (wdb w) tid keys) \<and>
       keyring_of (wdb w') \<in> {keyring_of (wdb w), call_step M c (keyring_of (wdb w))}) \<and>
    (\<forall>uid vid. has_access (wdb w') uid vid \<longleftrightarrow> may_open (keyring_of (wdb w')) uid vid)"
proof (intro conjI)
  have w': "w' = snd (run_call S c w)" using assms(2) by simp
  have "db_ok (wdb w')" using well_formed.ac_run_call [of S c] assms(1) unfolding moves_def w' by blast
  then show "\<forall>uid vid. has_access (wdb w') uid vid \<longleftrightarrow> may_open (keyring_of (wdb w')) uid vid"
    using may_open_has_access by blast
  have other: "keyring_of (wdb w') = keyring_of (wdb w)" if "deleted_account c = None" "\<And>d. c \<noteq> DbCall d"
    using same_access.ac_staff_call [of c S] that unfolding moves_def w' by (metis keyring_of_tables)
  show "r = Inr () \<longrightarrow> keyring_of (wdb w') = call_step (keyed_members (wdb w)) c (keyring_of (wdb w))"
    using assms(2) returned_stepped [OF assms(1)] deleted_account_keyring [OF assms(1)] other
    by (cases c) (auto simp: on_app_returns on_db_returns)
  show "\<exists>M. (\<forall>tid keys. M tid keys \<subseteq> keyed_members (wdb w) tid keys) \<and>
       keyring_of (wdb w') \<in> {keyring_of (wdb w), call_step M c (keyring_of (wdb w))}"
  proof (cases "\<exists>d. c = DbCall d")
    case True
    then obtain d where c: "c = DbCall d" by blast
    have "wdb w' = snd (perform (set_primitives S) d (wdb w))"
      unfolding w' c by (simp add: on_app_post on_db_def zoom_def split: prod.split)
    then show ?thesis
      using perform_stepped [OF assms(1), of d "set_primitives S"] unfolding stepped_def c by auto
  next
    case False
    then show ?thesis
      using other deletion_keyring [OF assms(1)] unfolding w'
      by (intro exI [of _ "keyed_members (wdb w)"]) (cases c; simp add: on_app_post)
  qed
qed

end
