(* ===== verification/System_Witnesses.thy ===== *)
theory System_Witnesses
  imports System Failures Keyring Login_Witnesses
begin

text \<open>The properties of the services together, applied at concrete runs and calls.\<close>

definition demo_setting :: setting where
  "demo_setting = \<lparr> set_totp = demo_C, set_primitives = demo_P, set_kdf = demo_cfg, set_issuer = ''HeelonVault'' \<rparr>"

text \<open>A fresh installation, whose first administrator then creates a vault.\<close>

definition first_calls :: "call list" where
  "first_calls =
     [CallBootstrap (Some demo_salt) 1 ''ada'' ada_pw,
      DbCall (CallCreateVault 10 (Some demo_key) (Some demo_nonce) 1 ''home'' ada_key)]"

definition first_state :: runtime where
  "first_state = fold (\<lambda>c w. snd (run_call demo_setting c w)) first_calls (first_start 5)"

lemma run_calls: "run S w (fold (\<lambda>c w. snd (run_call S c w)) cs w)"
  by (induction cs rule: rev_induct) (simp_all add: run_start run_step)

lemma first_run: "run demo_setting (first_start 5) first_state"
  unfolding first_state_def by (rule run_calls)

theorem reachable_databases_are_sound_witness:
  "db_ok (wdb first_state) \<and> users (wdb first_state) \<noteq> [] \<and> (\<exists>u\<in>set (users (wdb first_state)). u_role u = ''admin'')"
proof -
  have "users (wdb first_state) \<noteq> []" by code_simp
  with reachable_databases_are_sound [OF first_run] show ?thesis by blast
qed

text \<open>A second user, who creates a vault and is then deleted by the administrator.\<close>

definition second_calls :: "call list" where
  "second_calls =
     [CallCreateUser (Some demo_salt) 2 1 ''bob'' ada_pw RoleUser,
      DbCall (CallCreateVault 11 (Some demo_key) (Some demo_nonce) 2 ''work'' ada_key)]"

definition second_state :: runtime where
  "second_state = fold (\<lambda>c w. snd (run_call demo_setting c w)) second_calls first_state"

lemma second_run: "run demo_setting first_state second_state"
  unfolding second_state_def by (rule run_calls)

definition third_state :: runtime where
  "third_state = snd (run_call demo_setting (CallDeleteUser 1 2) second_state)"

theorem audit_log_is_append_only_witness:
  "map a_actor (audits (wdb first_state)) = [Some 1] \<and> map a_actor (audits (wdb second_state)) = [Some 1, Some 1, Some 2] \<and>
   (\<exists>old new. audits (wdb second_state) = old @ new \<and>
      list_all2 (\<lambda>a b. b = a \<or> b = a\<lparr>a_actor := None\<rparr>) (audits (wdb first_state)) old) \<and>
   (\<exists>new. audits (wdb third_state) = map (forget_author 2) (audits (wdb second_state)) @ new)"
proof -
  let ?c = "CallDeleteUser 1 2"
  have actors: "map a_actor (audits (wdb first_state)) = [Some 1]"
    "map a_actor (audits (wdb second_state)) = [Some 1, Some 1, Some 2]"
    "map a_actor (audits (wdb third_state)) = [Some 1, Some 1, None, Some 1]" by code_simp+
  have "audits (wdb third_state) \<noteq> audits (wdb second_state) @ new" for new
    using arg_cong [where f = "\<lambda>as. map a_actor as ! 2"] actors(2,3)
    by (metis append_Cons map_append nth_Cons_0 nth_Cons_numeral numeral_2_eq_2 nth_Cons_Suc option.distinct(1))
  with audit_log_is_append_only [OF second_run, of ?c] actors(1,2) show ?thesis
    by (auto simp: Let_def third_state_def)
qed

theorem stored_values_parse_witness:
  "returns user_list_all (wdb first_state) \<and> returns (secret_list_by_vault 10) (wdb first_state)"
proof -
  have "\<forall>i\<in>set (secrets (wdb first_state)). si_usage i < 2 ^ 32" by code_simp
  with stored_values_parse [where vid = 10, OF first_run refl] show ?thesis by blast
qed

definition demo_runtime :: runtime where
  "demo_runtime = \<lparr> rt_app = \<lparr> app_db = demo_db, app_auth = new_auth_state \<rparr>, rt_replay = (\<lambda>_. None) \<rparr>"

lemma demo_runtime_ok: "db_ok (wdb demo_runtime)"
  by (simp add: demo_runtime_def demo_db_ok)

theorem failed_calls_leave_no_trace_witness:
  "\<exists>e w'. run_call demo_setting (DbCall (CallDeleteVault 2 10)) demo_runtime = (Inl e, w') \<and> wdb w' = demo_db"
proof -
  let ?c = "DbCall (CallDeleteVault 2 10)" and ?r = "run_call demo_setting (DbCall (CallDeleteVault 2 10)) demo_runtime"
  have "case fst ?r of Inl _ \<Rightarrow> True | Inr _ \<Rightarrow> False" by code_simp
  then obtain e where "fst ?r = Inl e" by (auto split: sum.splits)
  then have run: "?r = (Inl e, snd ?r)" by (simp add: prod_eq_iff)
  have "\<not> partial_call ?c" by simp
  from failed_calls_leave_no_trace [OF demo_runtime_ok this run] have "wdb (snd ?r) = demo_db"
    by (simp add: demo_runtime_def)
  with run show ?thesis by blast
qed

theorem access_rights_refine_a_keyring_witness:
  "\<exists>w'. run_call demo_setting (DbCall (CallRemoveMember 2 30 3)) demo_runtime = (Inr (), w') \<and>
     kr_shares (keyring_of demo_db) (10, 3) = Some (''read'', Some 30) \<and> kr_shares (keyring_of (wdb w')) (10, 3) = None"
proof -
  let ?c = "CallRemoveMember 2 30 3" and ?r = "run_call demo_setting (DbCall (CallRemoveMember 2 30 3)) demo_runtime"
  have run: "?r = (Inr (), snd ?r)" by (rule run_ok) code_simp
  have before: "kr_shares (keyring_of demo_db) (10, 3) = Some (''read'', Some 30)" by code_simp
  have db: "wdb demo_runtime = demo_db" by (simp add: demo_runtime_def)
  have "keyring_of (wdb (snd ?r)) = keyring_step (keyed_members demo_db) ?c (keyring_of demo_db)"
    using access_rights_refine_a_keyring [OF demo_runtime_ok run] by (simp add: db)
  then have "kr_shares (keyring_of (wdb (snd ?r))) (10, 3) =
      kr_shares (keyring_step (keyed_members demo_db) ?c (keyring_of demo_db)) (10, 3)" by (rule arg_cong)
  also have "\<dots> = None" using before by (auto split: option.splits)
  finally show ?thesis using run before by blast
qed

end
