(* ===== verification/Auto_Lock.thy ===== *)
theory Auto_Lock
  imports Models
begin

text \<open>
  The lock of an unattended session: \<open>ui/windows/main_window/auto_lock.rs\<close>, the session methods of
  \<open>impl_post.rs\<close>, the delay of the profile page and the callbacks \<open>main.rs\<close> installs after a login.  Of
  the GLib main loop the state keeps the pending one-shot timers: adding one gives a fresh source id,
  removing one that is not pending panics, a timer is dispatched when it is due and is gone afterwards.
  Beside the key of the session the state keeps the copies of it the window hands out
  (\<open>snapshot_session_master_key\<close>): to the loads of the list that are under way, to the trash button of
  every card and the deletions it started (\<open>secret_flow.rs\<close>), to the inline editor, which also holds the
  password it shows, and to the trash windows (\<open>new_body.inc\<close>).  The answer of a load or of a deletion
  may arrive at any time, also when the window is hidden.
\<close>

record session_window =
  sw_now :: nat
  sw_timers :: "nat \<rightharpoonup> nat"
  sw_next_id :: nat
  sw_visible :: bool
  sw_cards :: "(uuid \<times> bytes) list"
  sw_loads :: "bytes list"
  sw_deletes :: "bytes list"
  sw_editor :: "(bytes \<times> string) option"
  sw_trash :: "bytes list"
  sw_timeout :: "64 word"
  sw_source :: "nat option"
  sw_armed :: bool
  sw_key :: bytes
  sw_on_auto_lock :: bool
  sw_on_logout :: bool
  sw_logins :: nat

datatype panic = SourceNotFound

type_synonym 'a window_act = "(panic, session_window, 'a) act"

section \<open>The timers of the main loop\<close>

definition timeout_add_once :: "64 word \<Rightarrow> nat window_act" where
  "timeout_add_once secs = (\<lambda>w.
     (Inr (sw_next_id w),
      w\<lparr>sw_timers := (sw_timers w)(sw_next_id w \<mapsto> sw_now w + unat secs), sw_next_id := sw_next_id w + 1\<rparr>))"

definition source_remove :: "nat \<Rightarrow> unit window_act" where
  "source_remove i = (\<lambda>w.
     if sw_timers w i = None then (Inl SourceNotFound, w) else (Inr (), w\<lparr>sw_timers := (sw_timers w)(i := None)\<rparr>))"

section \<open>The auto-lock\<close>

definition take_source :: "unit window_act" where
  "take_source =
     bindE (gets sw_source) (\<lambda>src.
     bindE (modify (\<lambda>w. w\<lparr>sw_source := None\<rparr>)) (\<lambda>_.
     case src of None \<Rightarrow> ret () | Some i \<Rightarrow> source_remove i))"

definition deactivate_auto_lock :: "unit window_act" where
  "deactivate_auto_lock = bindE (modify (\<lambda>w. w\<lparr>sw_armed := False\<rparr>)) (\<lambda>_. take_source)"

definition reset_auto_lock_timer :: "unit window_act" where
  "reset_auto_lock_timer =
     bindE (gets id) (\<lambda>w.
     if \<not> sw_armed w \<or> \<not> sw_visible w \<or> sw_timeout w = 0 then ret ()
     else
       bindE take_source (\<lambda>_.
       bindE (timeout_add_once (sw_timeout w)) (\<lambda>i.
       modify (\<lambda>w. w\<lparr>sw_source := Some i\<rparr>))))"

definition activate_auto_lock :: "unit window_act" where
  "activate_auto_lock =
     bindE (gets sw_timeout) (\<lambda>t.
     if t = 0 then modify (\<lambda>w. w\<lparr>sw_armed := False\<rparr>)
     else bindE (modify (\<lambda>w. w\<lparr>sw_armed := True\<rparr>)) (\<lambda>_. reset_auto_lock_timer))"

definition minutes :: "64 word \<Rightarrow> 64 word" where
  "minutes m = (if unat m * 60 < 2 ^ 64 then m * 60 else - 1)"

definition allowed_delay :: "64 word \<Rightarrow> 64 word" where
  "allowed_delay m = (if m \<in> {0, 1, 5, 10, 15, 30} then m else 5)"

definition set_auto_lock_timeout :: "64 word \<Rightarrow> unit window_act" where
  "set_auto_lock_timeout m =
     (let mins = allowed_delay m in
      bindE (modify (\<lambda>w. w\<lparr>sw_timeout := minutes mins\<rparr>)) (\<lambda>_.
      if mins = 0 then deactivate_auto_lock
      else bindE (gets sw_armed) (\<lambda>armed. if armed then reset_auto_lock_timer else ret ())))"

text \<open>What the profile page does once the new delay is stored.\<close>

definition apply_updated_delay :: "64 word \<Rightarrow> unit window_act" where
  "apply_updated_delay mins =
     bindE (modify (\<lambda>w. w\<lparr>sw_timeout := minutes mins\<rparr>)) (\<lambda>_.
     if mins = 0 then bindE (modify (\<lambda>w. w\<lparr>sw_armed := False\<rparr>)) (\<lambda>_. take_source)
     else bindE (gets sw_armed) (\<lambda>armed. if armed then reset_auto_lock_timer else ret ()))"

section \<open>The session\<close>

definition snapshot_session_master_key :: "bytes option window_act" where
  "snapshot_session_master_key = bindE (gets sw_key) (\<lambda>k. ret (if k = [] then None else Some k))"

definition clear_sensitive_session :: "unit window_act" where
  "clear_sensitive_session =
     bindE deactivate_auto_lock (\<lambda>_.
     bindE (modify (\<lambda>w. w\<lparr>sw_key := []\<rparr>)) (\<lambda>_.
     modify (\<lambda>w. w\<lparr>sw_cards := []\<rparr>)))"

text \<open>The logout callback of \<open>main.rs\<close>: the session is cleared, the window hidden and the login shown.\<close>

definition logout_callback :: "unit window_act" where
  "logout_callback =
     bindE clear_sensitive_session (\<lambda>_.
     modify (\<lambda>w. w\<lparr>sw_visible := False, sw_logins := sw_logins w + 1\<rparr>))"

definition trigger_logout :: "unit window_act" where
  "trigger_logout = bindE (gets sw_on_logout) (\<lambda>set. if set then logout_callback else ret ())"

definition auto_lock_fires :: "unit window_act" where
  "auto_lock_fires =
     bindE (gets sw_armed) (\<lambda>armed.
     if \<not> armed then ret ()
     else
       bindE take_source (\<lambda>_.
       bindE (modify (\<lambda>w. w\<lparr>sw_armed := False\<rparr>)) (\<lambda>_.
       bindE (modify (\<lambda>w. w\<lparr>sw_key := []\<rparr>)) (\<lambda>_.
       bindE (gets sw_on_auto_lock) (\<lambda>set. if set then trigger_logout else ret ())))))"

text \<open>The main loop runs the callback of a timer and drops it.\<close>

definition dispatch :: "nat \<Rightarrow> unit window_act" where
  "dispatch i = bindE auto_lock_fires (\<lambda>_. modify (\<lambda>w. w\<lparr>sw_timers := (sw_timers w)(i := None)\<rparr>))"

definition DEFAULT_AUTO_LOCK_TIMEOUT_SECS :: "64 word" where
  "DEFAULT_AUTO_LOCK_TIMEOUT_SECS = 5 * 60"

definition new_window :: "nat \<Rightarrow> bytes \<Rightarrow> session_window" where
  "new_window now key =
     \<lparr> sw_now = now, sw_timers = Map.empty, sw_next_id = 1, sw_visible = False, sw_cards = [],
       sw_loads = [], sw_deletes = [], sw_editor = None, sw_trash = [],
       sw_timeout = DEFAULT_AUTO_LOCK_TIMEOUT_SECS, sw_source = None, sw_armed = False, sw_key = key,
       sw_on_auto_lock = False, sw_on_logout = False, sw_logins = 0 \<rparr>"

text \<open>After a login \<open>main.rs\<close> sets the callbacks, shows the window and activates the lock.\<close>

definition show_session :: "unit window_act" where
  "show_session =
     bindE (modify (\<lambda>w. w\<lparr>sw_on_logout := True, sw_on_auto_lock := True\<rparr>)) (\<lambda>_.
     bindE (modify (\<lambda>w. w\<lparr>sw_visible := True\<rparr>)) (\<lambda>_.
     activate_auto_lock))"

section \<open>The copies of the key\<close>

definition without :: "nat \<Rightarrow> 'a list \<Rightarrow> 'a list" where
  "without i xs = take i xs @ drop (Suc i) xs"

text \<open>A load of the list takes a copy of the key along.  Its answer replaces the cards when it lists a
  vault (\<open>Some\<close>); no selection, no access and an error leave them (\<open>None\<close>).\<close>

definition refresh_secret_flow :: "bytes \<Rightarrow> unit window_act" where
  "refresh_secret_flow key = modify (\<lambda>w. w\<lparr>sw_loads := sw_loads w @ [key]\<rparr>)"

definition secrets_loaded :: "nat \<Rightarrow> uuid list option \<Rightarrow> unit window_act" where
  "secrets_loaded i answer =
     modify (\<lambda>w. w\<lparr>sw_loads := without i (sw_loads w),
       sw_cards := (case answer of None \<Rightarrow> sw_cards w | Some ids \<Rightarrow> map (\<lambda>c. (c, sw_loads w ! i)) ids)\<rparr>)"

definition with_session_key :: "(bytes \<Rightarrow> unit window_act) \<Rightarrow> unit window_act" where
  "with_session_key f =
     bindE snapshot_session_master_key (\<lambda>k. case k of None \<Rightarrow> ret () | Some key \<Rightarrow> f key)"

definition refresh_secrets :: "unit window_act" where
  "refresh_secrets = with_session_key refresh_secret_flow"

text \<open>The trash button of a card deletes with the services and, when that worked, loads the list again
  with the copy of the card.\<close>

definition trash_clicked :: "nat \<Rightarrow> unit window_act" where
  "trash_clicked i = modify (\<lambda>w. w\<lparr>sw_deletes := sw_deletes w @ [snd (sw_cards w ! i)]\<rparr>)"

definition secret_deleted :: "nat \<Rightarrow> bool \<Rightarrow> unit window_act" where
  "secret_deleted i ok =
     bindE (gets (\<lambda>w. sw_deletes w ! i)) (\<lambda>key.
     bindE (modify (\<lambda>w. w\<lparr>sw_deletes := without i (sw_deletes w)\<rparr>)) (\<lambda>_.
     if ok then refresh_secret_flow key else ret ()))"

text \<open>The inline editor replaces the one before it; Cancel only turns the page, so it stays until then.\<close>

definition open_editor :: "unit window_act" where
  "open_editor = with_session_key (\<lambda>key. modify (\<lambda>w. w\<lparr>sw_editor := Some (key, [])\<rparr>))"

definition entry_loaded :: "string \<Rightarrow> unit window_act" where
  "entry_loaded password = modify (\<lambda>w. w\<lparr>sw_editor := map_option (\<lambda>(key, _). (key, password)) (sw_editor w)\<rparr>)"

definition open_trash :: "unit window_act" where
  "open_trash = with_session_key (\<lambda>key. modify (\<lambda>w. w\<lparr>sw_trash := sw_trash w @ [key]\<rparr>))"

definition close_trash :: "nat \<Rightarrow> unit window_act" where
  "close_trash i = modify (\<lambda>w. w\<lparr>sw_trash := without i (sw_trash w)\<rparr>)"

section \<open>Runs\<close>

text \<open>A key press or a motion of the pointer resets the timer; time passes only while no timer is due.
  An answer arrives only for a load or a deletion that is under way, and only a window that is shown has
  cards to click.  Everything else may happen at any time.\<close>

datatype window_event =
    Activity
  | LoadedDelay "64 word"
  | UpdatedDelay "64 word"
  | Refresh
  | SecretsLoaded nat "uuid list option"
  | TrashClicked nat
  | SecretDeleted nat bool
  | OpenEditor
  | EntryLoaded string
  | OpenTrash
  | CloseTrash nat
  | Logout
  | Second
  | Fires nat

primrec handle :: "window_event \<Rightarrow> unit window_act" where
  "handle Activity = reset_auto_lock_timer"
| "handle (LoadedDelay m) = set_auto_lock_timeout m"
| "handle (UpdatedDelay m) = apply_updated_delay m"
| "handle Refresh = refresh_secrets"
| "handle (SecretsLoaded i answer) = secrets_loaded i answer"
| "handle (TrashClicked i) = trash_clicked i"
| "handle (SecretDeleted i ok) = secret_deleted i ok"
| "handle OpenEditor = open_editor"
| "handle (EntryLoaded password) = entry_loaded password"
| "handle OpenTrash = open_trash"
| "handle (CloseTrash i) = close_trash i"
| "handle Logout = trigger_logout"
| "handle Second = modify (\<lambda>w. w\<lparr>sw_now := sw_now w + 1\<rparr>)"
| "handle (Fires i) = dispatch i"

fun enabled :: "window_event \<Rightarrow> session_window \<Rightarrow> bool" where
  "enabled Second w =
     list_all (\<lambda>i. case sw_timers w i of None \<Rightarrow> True | Some d \<Rightarrow> sw_now w < d) [0 ..< sw_next_id w]"
| "enabled (Fires i) w = (case sw_timers w i of None \<Rightarrow> False | Some d \<Rightarrow> d \<le> sw_now w)"
| "enabled (SecretsLoaded i answer) w = (i < length (sw_loads w))"
| "enabled (TrashClicked i) w = (sw_visible w \<and> i < length (sw_cards w))"
| "enabled (SecretDeleted i ok) w = (i < length (sw_deletes w))"
| "enabled (EntryLoaded password) w = (sw_editor w \<noteq> None)"
| "enabled (CloseTrash i) w = (i < length (sw_trash w))"
| "enabled e w = True"

inductive session :: "session_window \<Rightarrow> window_event list \<Rightarrow> session_window \<Rightarrow> bool" where
  session_start: "session w [] w"
| session_step: "session w es w' \<Longrightarrow> enabled e w' \<Longrightarrow> session w (es @ [e]) (snd (handle e w'))"

inductive_cases sessionE: "session w es w'"

section \<open>The invariant\<close>

text \<open>At most one timer is pending, the one the window remembers, and just while the lock is armed; it
  is due within the delay.  A hidden window has no key and no timer.\<close>

definition lock_ok :: "session_window \<Rightarrow> bool" where
  "lock_ok w \<longleftrightarrow>
     (case sw_source w of
        None \<Rightarrow> sw_timers w = Map.empty \<and> \<not> sw_armed w
      | Some i \<Rightarrow> i < sw_next_id w \<and> sw_armed w \<and>
          (\<exists>d. sw_timers w = [i \<mapsto> d] \<and> sw_now w \<le> d \<and> d \<le> sw_now w + unat (sw_timeout w))) \<and>
     (\<not> sw_visible w \<longrightarrow> sw_key w = [] \<and> sw_source w = None) \<and>
     (sw_armed w \<longrightarrow> sw_timeout w \<noteq> 0) \<and> sw_on_auto_lock w \<and> sw_on_logout w"

lemma minutes_0: "minutes m = 0 \<longleftrightarrow> m = 0"
proof -
  have "m * 60 \<noteq> 0" if "unat m * 60 < 2 ^ 64" "m \<noteq> 0"
  proof -
    have "unat (m * 60) = unat m * 60" using that(1) by (subst unat_mult_lem [THEN iffD1]) simp_all
    then show ?thesis using that(2) by (metis mult_eq_0_iff unat_0 unat_eq_zero zero_neq_numeral)
  qed
  then show ?thesis by (auto simp: minutes_def)
qed

lemmas lock_runs = bindE_run run_simps take_source_def source_remove_def timeout_add_once_def
  deactivate_auto_lock_def reset_auto_lock_timer_def

lemma lock_okE:
  assumes "lock_ok w"
  obtains (idle) "sw_source w = None" "sw_timers w = Map.empty" "\<not> sw_armed w"
  | (armed) i d where "sw_source w = Some i" "i < sw_next_id w" "sw_armed w" "sw_visible w"
      "sw_timers w = [i \<mapsto> d]" "sw_now w \<le> d" "d \<le> sw_now w + unat (sw_timeout w)"
  using assms by (auto simp: lock_ok_def split: option.splits)

lemma pending:
  assumes "lock_ok w" and t: "sw_timers w = [i \<mapsto> d]"
  shows "i < sw_next_id w" "sw_now w \<le> d"
proof -
  have at: "sw_timers w i = Some d" using t by simp
  from assms(1) show "i < sw_next_id w" by (cases rule: lock_okE) (use at in \<open>auto split: if_splits\<close>)
  from assms(1) show "sw_now w \<le> d" by (cases rule: lock_okE) (use at in \<open>auto split: if_splits\<close>)
qed

lemma take_source_run:
  assumes "lock_ok w"
  shows "take_source w = (Inr (), w\<lparr>sw_source := None, sw_timers := Map.empty\<rparr>)"
  using assms
proof (cases rule: lock_okE)
  case idle
  then show ?thesis by (cases w) (simp add: lock_runs)
next
  case (armed i d)
  then show ?thesis by (cases w) (simp add: lock_runs)
qed

text \<open>What a reset does when the lock is armed and the window shown.\<close>

definition restarted :: "session_window \<Rightarrow> session_window" where
  "restarted w = w\<lparr>sw_source := Some (sw_next_id w), sw_next_id := sw_next_id w + 1,
     sw_timers := [sw_next_id w \<mapsto> sw_now w + unat (sw_timeout w)]\<rparr>"

lemma take_source_cong:
  "sw_source w' = sw_source w \<Longrightarrow> sw_timers w' = sw_timers w \<Longrightarrow> lock_ok w \<Longrightarrow>
     take_source w' = (Inr (), w'\<lparr>sw_source := None, sw_timers := Map.empty\<rparr>)"
  using take_source_run [of w] by (cases w; cases w') (auto simp: lock_runs split: option.splits if_splits)

lemma reset_timer_run:
  assumes "lock_ok w" and "sw_source w' = sw_source w" "sw_timers w' = sw_timers w"
  shows "reset_auto_lock_timer w' =
    (Inr (), if \<not> sw_armed w' \<or> \<not> sw_visible w' \<or> sw_timeout w' = 0 then w' else restarted w')"
  using take_source_cong [OF assms(2,3,1)]
  by (simp add: reset_auto_lock_timer_def bindE_run run_simps timeout_add_once_def restarted_def)

lemma deactivate_run:
  assumes "lock_ok w" and "sw_source w' = sw_source w" "sw_timers w' = sw_timers w"
  shows "deactivate_auto_lock w' = (Inr (), w'\<lparr>sw_armed := False, sw_source := None, sw_timers := Map.empty\<rparr>)"
  using take_source_cong [of "w'\<lparr>sw_armed := False\<rparr>" w] assms
  by (simp add: deactivate_auto_lock_def bindE_run run_simps)

definition delayed :: "64 word \<Rightarrow> session_window \<Rightarrow> session_window" where
  "delayed m w =
     (let v = w\<lparr>sw_timeout := minutes m\<rparr> in
      if m = 0 then v\<lparr>sw_armed := False, sw_source := None, sw_timers := Map.empty\<rparr>
      else if sw_armed w then restarted v else v)"

lemma delay_run:
  assumes ok: "lock_ok w"
  shows "apply_updated_delay m w = (Inr (), delayed m w)"
    "set_auto_lock_timeout m w = (Inr (), delayed (allowed_delay m) w)"
proof -
  have shown: "sw_armed w \<Longrightarrow> sw_visible w" using ok by (cases rule: lock_okE) simp_all
  show upd: "apply_updated_delay m w = (Inr (), delayed m w)" for m
    using deactivate_run [OF ok, of "w\<lparr>sw_timeout := minutes m\<rparr>"] reset_timer_run [OF ok, of "w\<lparr>sw_timeout := minutes m\<rparr>"] shown
    by (auto simp: apply_updated_delay_def deactivate_auto_lock_def [symmetric] delayed_def Let_def minutes_0
        bindE_run [of "modify _"] bindE_run [of "gets _"] run_simps)
  have "set_auto_lock_timeout m = apply_updated_delay (allowed_delay m)"
    by (simp add: set_auto_lock_timeout_def apply_updated_delay_def deactivate_auto_lock_def Let_def)
  then show "set_auto_lock_timeout m w = (Inr (), delayed (allowed_delay m) w)" by (simp add: upd)
qed

definition locked :: "session_window \<Rightarrow> session_window" where
  "locked w = w\<lparr>sw_armed := False, sw_source := None, sw_timers := Map.empty, sw_key := [], sw_cards := [],
     sw_visible := False, sw_logins := sw_logins w + 1\<rparr>"

lemma logout_run:
  assumes "lock_ok w" and "sw_source w' = sw_source w" "sw_timers w' = sw_timers w" and "sw_on_logout w'"
  shows "trigger_logout w' = (Inr (), locked w')"
  using deactivate_run [OF assms(1-3)] assms(4)
  by (simp add: trigger_logout_def logout_callback_def clear_sensitive_session_def bindE_run run_simps locked_def)

lemma dispatch_run:
  assumes ok: "lock_ok w" and i: "sw_timers w i \<noteq> None"
  shows "dispatch i w = (Inr (), locked w)"
  using ok
proof (cases rule: lock_okE)
  case (armed j d)
  let ?w = "w\<lparr>sw_source := None, sw_timers := Map.empty, sw_armed := False, sw_key := []\<rparr>"
  have set: "sw_on_auto_lock w" "sw_on_logout w" using ok by (simp_all add: lock_ok_def)
  have empty: "lock_ok (?w\<lparr>sw_visible := True\<rparr>)" using set by (simp add: lock_ok_def)
  have "trigger_logout ?w = (Inr (), locked ?w)"
    by (rule logout_run [OF empty]) (simp_all add: set)
  then show ?thesis
    using take_source_run [OF ok] armed set
    by (simp add: dispatch_def auto_lock_fires_def bindE_run run_simps locked_def)
qed (use i in simp)

lemma lock_ok_results:
  assumes "lock_ok w"
  shows "lock_ok (locked w)" "sw_visible w \<Longrightarrow> sw_armed w \<Longrightarrow> lock_ok (restarted w)"
    "lock_ok (delayed m w)"
  using assms by (auto simp: lock_ok_def locked_def restarted_def delayed_def Let_def minutes_0 split: option.splits)

lemma without_length [simp]: "i < length xs \<Longrightarrow> length (without i xs) = length xs - 1"
  by (simp add: without_def)

lemmas copy_runs = bindE_run run_simps refresh_secret_flow_def secrets_loaded_def with_session_key_def
  snapshot_session_master_key_def refresh_secrets_def trash_clicked_def secret_deleted_def open_editor_def
  entry_loaded_def open_trash_def close_trash_def

text \<open>Every event in one place.\<close>

lemma handled:
  assumes ok: "lock_ok w" and e: "enabled e w"
  shows "\<exists>w'. handle e w = (Inr (), w') \<and> lock_ok w'"
proof -
  have shown: "sw_armed w \<Longrightarrow> sw_visible w" using ok by (cases rule: lock_okE) simp_all
  show ?thesis
  proof (cases e)
    case Activity
    then show ?thesis using reset_timer_run [OF ok refl refl] lock_ok_results(2) [OF ok] ok by auto
  next
    case (LoadedDelay m)
    then show ?thesis using delay_run(2) [OF ok, of m] lock_ok_results(3) [OF ok] by simp
  next
    case (UpdatedDelay m)
    then show ?thesis using delay_run(1) [OF ok, of m] lock_ok_results(3) [OF ok] by simp
  next
    case Logout
    then show ?thesis using logout_run [OF ok refl refl] lock_ok_results(1) [OF ok] ok by (simp add: lock_ok_def)
  next
    case (Fires i)
    then show ?thesis using e dispatch_run [OF ok, of i] lock_ok_results(1) [OF ok] by (auto split: option.splits)
  next
    case Second
    from ok have "lock_ok (w\<lparr>sw_now := sw_now w + 1\<rparr>)"
    proof (cases rule: lock_okE)
      case idle
      with ok show ?thesis by (simp add: lock_ok_def)
    next
      case (armed i d)
      from e Second have
        "\<forall>k\<in>{0..<sw_next_id w}. case sw_timers w k of None \<Rightarrow> True | Some d \<Rightarrow> sw_now w < d"
        by (simp add: list_all_iff)
      from bspec [OF this, of i] armed have "sw_now w < d" by simp
      with armed ok show ?thesis by (auto simp: lock_ok_def intro!: exI [of _ d])
    qed
    then show ?thesis by (simp add: Second run_simps)
  qed (use e ok in \<open>auto simp: copy_runs lock_ok_def split: option.splits\<close>)
qed

lemma session_ok: "session w es w' \<Longrightarrow> lock_ok w \<Longrightarrow> lock_ok w'"
proof (induction rule: session.induct)
  case (session_step w es w' e)
  then show ?case using handled [of w' e] by auto
qed

lemma shown_session:
  "show_session (new_window now key) = (Inr (),
     restarted ((new_window now key)\<lparr>sw_on_logout := True, sw_on_auto_lock := True, sw_visible := True, sw_armed := True\<rparr>))"
  by (simp add: show_session_def activate_auto_lock_def lock_runs new_window_def restarted_def
      DEFAULT_AUTO_LOCK_TIMEOUT_SECS_def)

lemma lock_ok_fresh:
  "sw_visible w \<Longrightarrow> sw_armed w \<Longrightarrow> sw_timeout w \<noteq> 0 \<Longrightarrow> sw_on_auto_lock w \<Longrightarrow> sw_on_logout w \<Longrightarrow> lock_ok (restarted w)"
  unfolding lock_ok_def restarted_def by (auto intro!: exI [of _ "sw_now w + unat (sw_timeout w)"])

lemma shown_session_ok: "lock_ok (snd (show_session (new_window now key)))"
  unfolding shown_session snd_conv
  by (rule lock_ok_fresh) (simp_all add: new_window_def DEFAULT_AUTO_LOCK_TIMEOUT_SECS_def)

section \<open>What the lock guarantees\<close>

text \<open>The answers still to come: a load gives one, a deletion its own and that of the load it starts.\<close>

definition under_way :: "session_window \<Rightarrow> nat" where
  "under_way w = length (sw_loads w) + 2 * length (sw_deletes w)"

text \<open>What an event does to a window that is hidden: nothing is shown, no copy of the key is handed out,
  and only an answer that is still to come can bring cards.\<close>

lemma hidden_step:
  assumes ok: "lock_ok w" and e: "enabled e w" and hidden: "\<not> sw_visible w" and w': "w' = snd (handle e w)"
  shows "\<not> sw_visible w' \<and> under_way w' \<le> under_way w \<and>
    (under_way w' = under_way w \<longrightarrow> sw_cards w' = sw_cards w \<or> sw_cards w' = []) \<and>
    map_option fst (sw_editor w') = map_option fst (sw_editor w) \<and> length (sw_trash w') \<le> length (sw_trash w)"
proof -
  have idle: "sw_key w = []" "sw_source w = None" "sw_timers w = Map.empty" "\<not> sw_armed w"
    using ok hidden by (auto simp: lock_ok_def)
  have set: "sw_on_logout w" using ok by (simp add: lock_ok_def)
  show ?thesis
    using e idle hidden set reset_timer_run [OF ok refl refl] delay_run [OF ok] logout_run [OF ok refl refl]
    unfolding w'
    by (cases e) (auto simp: copy_runs under_way_def locked_def delayed_def Let_def map_option.compositionality
        option.map_comp comp_def case_prod_beta split: option.splits)
qed

text \<open>C34. The lock never fails: after a login, whatever events the window goes through in whatever order, no
  handler panics by removing a timer that is gone.  A window that is hidden holds no key in the session
  and no timer, stays hidden and hands out no further copy of the key, neither to a load of the list nor
  to an editor or a trash window: only the answer of a load or a deletion that was already under way
  changes its cards, and each such answer leaves fewer to come.\<close>

theorem the_lock_never_panics:
  assumes "session (snd (show_session (new_window now key))) es w" and "enabled e w" and "w' = snd (handle e w)"
  shows "fst (handle e w) = Inr () \<and>
    (\<not> sw_visible w \<longrightarrow> sw_key w = [] \<and> sw_timers w = Map.empty \<and> \<not> sw_visible w' \<and> sw_key w' = [] \<and>
       under_way w' \<le> under_way w \<and>
       (under_way w' = under_way w \<longrightarrow> sw_cards w' = sw_cards w \<or> sw_cards w' = []) \<and>
       map_option fst (sw_editor w') = map_option fst (sw_editor w) \<and> length (sw_trash w') \<le> length (sw_trash w))"
proof -
  have ok: "lock_ok w" by (rule session_ok [OF assms(1) shown_session_ok])
  then have "fst (handle e w) = Inr ()" "lock_ok w'" using handled [OF ok assms(2)] assms(3) by auto
  moreover have "\<not> sw_visible v \<Longrightarrow> sw_key v = [] \<and> sw_timers v = Map.empty" if "lock_ok v" for v
    using that by (auto simp: lock_ok_def)
  ultimately show ?thesis using hidden_step [OF ok assms(2) _ assms(3)] ok by blast
qed

text \<open>The events of a session nobody attends to: loads and deletions may answer, lists may be loaded
  again, but there is no key press, no motion and no new delay.\<close>

fun unattended :: "window_event \<Rightarrow> bool" where
  "unattended Activity = False"
| "unattended (LoadedDelay m) = False"
| "unattended (UpdatedDelay m) = False"
| "unattended e = True"

definition shut :: "session_window \<Rightarrow> bool" where
  "shut w \<longleftrightarrow> \<not> sw_visible w \<and> sw_key w = []"

definition wiped :: "session_window \<Rightarrow> bool" where
  "wiped w \<longleftrightarrow> shut w \<and> sw_cards w = []"

lemma locked_wiped [simp]: "wiped (locked w)"
  by (simp add: wiped_def shut_def locked_def)

text \<open>A window wiped while nothing was under way stays wiped.\<close>

lemma wiped_stays:
  assumes "session w es w'" and "lock_ok w" "wiped w" "under_way w = 0"
  shows "wiped w' \<and> under_way w' = 0 \<and> lock_ok w'"
  using assms
proof (induction rule: session.induct)
  case (session_step w es w' e)
  then have ok: "lock_ok w'" and was: "wiped w'" "under_way w' = 0" by simp_all
  obtain v where v: "handle e w' = (Inr (), v)" "lock_ok v" using handled [OF ok session_step.hyps(2)] by blast
  have hidden: "\<not> sw_visible w'" using was(1) by (simp add: wiped_def shut_def)
  from hidden_step [OF ok session_step.hyps(2) hidden, of v] v was show ?case
    by (auto simp: wiped_def shut_def lock_ok_def)
qed simp

lemma unattended_run:
  assumes "session w es w'" and "lock_ok w" and "sw_timers w = [i \<mapsto> d]" and "list_all unattended es"
  shows "shut w' \<or> sw_timers w' = [i \<mapsto> d]"
  using assms
proof (induction rule: session.induct)
  case (session_step w es w' e)
  then have ok: "lock_ok w'" and es: "list_all unattended es" and ue: "unattended e"
    by (simp_all add: session_ok)
  obtain v where v: "handle e w' = (Inr (), v)" "lock_ok v" using handled [OF ok session_step.hyps(2)] by blast
  from session_step.IH [OF session_step.prems(1,2) es] show ?case
  proof
    assume "shut w'"
    then have "\<not> sw_visible w'" by (simp add: shut_def)
    from hidden_step [OF ok session_step.hyps(2) this, of v] v show ?thesis by (simp add: shut_def lock_ok_def)
  next
    assume t: "sw_timers w' = [i \<mapsto> d]"
    have "sw_on_logout w'" using ok by (simp add: lock_ok_def)
    with t ue session_step.hyps(2) show ?thesis
      using logout_run [OF ok refl refl] dispatch_run [OF ok, of i]
      by (cases e) (auto simp: shut_def locked_def copy_runs split: if_splits option.splits)
  qed
qed simp

text \<open>C18. An unattended session locks itself in time: from the last key press or motion on, as long as
  nobody attends to the window, either no more time than the delay has passed or the master key of the
  session is erased and the window hidden; and at the end of the delay the lock is what happens next,
  since its timer is ready and time does not pass before it.  The lock takes the cards with the opened
  secrets away, and unless a load of the list or a deletion was under way just then, no later event
  brings any back (an answer that comes after the lock does, see \<open>a_late_answer_undoes_the_wipe\<close>; the
  copies of the editor and of the trash windows are not touched).\<close>

theorem unattended_session_is_locked:
  assumes start: "session (snd (show_session (new_window now key))) es w" and armed: "sw_armed w"
    and idle: "session (snd (handle Activity w)) es' w'" "list_all unattended es'"
  shows "(shut w' \<or> sw_now w' \<le> sw_now w + unat (sw_timeout w)) \<and>
    (sw_now w' = sw_now w + unat (sw_timeout w) \<longrightarrow> shut w' \<or>
      \<not> enabled Second w' \<and> (\<exists>i. enabled (Fires i) w')) \<and>
    (\<forall>i. enabled (Fires i) w' \<longrightarrow> wiped (snd (handle (Fires i) w')) \<and>
      (under_way w' = 0 \<longrightarrow> (\<forall>es'' w''. session (snd (handle (Fires i) w')) es'' w'' \<longrightarrow> wiped w'')))"
proof -
  have ok: "lock_ok w" by (rule session_ok [OF start shown_session_ok])
  from ok armed have vis: "sw_visible w" by (cases rule: lock_okE) simp_all
  have pos: "sw_timeout w \<noteq> 0" using ok armed by (simp add: lock_ok_def)
  let ?i = "sw_next_id w" and ?d = "sw_now w + unat (sw_timeout w)"
  have act: "snd (handle Activity w) = restarted w" using reset_timer_run [OF ok refl refl] armed vis pos by simp
  have ok1: "lock_ok (restarted w)" by (rule lock_ok_results(2) [OF ok vis armed])
  have ok': "lock_ok w'" by (rule session_ok [OF idle(1) [unfolded act] ok1])
  have fires: "handle (Fires i) w' = (Inr (), locked w')" if "enabled (Fires i) w'" for i
    using dispatch_run [OF ok', of i] that by (simp split: option.splits)
  have gone: "wiped w''" if "enabled (Fires i) w'" "under_way w' = 0" "session (snd (handle (Fires i) w')) es'' w''"
    for i es'' w''
    using wiped_stays [OF that(3)] fires [OF that(1)] lock_ok_results(1) [OF ok'] that(2)
    by (simp add: under_way_def locked_def wiped_def shut_def)
  have "sw_timers (restarted w) = [?i \<mapsto> ?d]" by (simp add: restarted_def)
  from unattended_run [OF idle(1) [unfolded act] ok1 this idle(2)]
  have "(shut w' \<or> sw_now w' \<le> ?d) \<and> (sw_now w' = ?d \<longrightarrow> shut w' \<or> \<not> enabled Second w' \<and> (\<exists>i. enabled (Fires i) w'))"
  proof
    assume t: "sw_timers w' = [?i \<mapsto> ?d]"
    from pending [OF ok' this] t show ?thesis by (auto simp: list_all_iff intro: exI [of _ ?i])
  qed simp
  then show ?thesis using fires gone by simp
qed

text \<open>The answer of a load that was under way at the lock puts the opened secrets back into the hidden
  window, each card with a copy of the master key: \<open>refresh_secret_flow\<close> asks neither whether the window
  is shown nor whether the session is still open.\<close>

theorem a_late_answer_undoes_the_wipe:
  assumes "lock_ok w" and "enabled (Fires i) w" and "sw_loads w = key # loads"
    and "w' = snd (handle (SecretsLoaded 0 (Some ids)) (snd (handle (Fires i) w)))"
  shows "enabled (SecretsLoaded 0 (Some ids)) (snd (handle (Fires i) w)) \<and> shut w' \<and>
    sw_cards w' = map (\<lambda>c. (c, key)) ids"
  using assms dispatch_run [OF assms(1), of i] by (auto simp: copy_runs locked_def shut_def split: option.splits)

text \<open>Neither the lock nor a logout touches the inline editor and the trash windows.\<close>

theorem the_lock_forgets_the_editor:
  assumes "lock_ok w" and "enabled (Fires i) w"
  shows "sw_editor (snd (handle (Fires i) w)) = sw_editor w \<and> sw_trash (snd (handle (Fires i) w)) = sw_trash w"
  using assms dispatch_run [OF assms(1), of i] by (auto simp: locked_def split: option.splits)

text \<open>A delay of 0 is for good: once the lock is disarmed, no later event arms it again, whatever delay
  is chosen, and without a logout the window stays open with its key.\<close>

theorem a_delay_of_zero_stays:
  assumes "lock_ok w" and "session (snd (handle (UpdatedDelay 0) w)) es w'"
  shows "\<not> sw_armed w' \<and> sw_timers w' = Map.empty \<and> (Logout \<notin> set es \<longrightarrow> sw_visible w' = sw_visible w)"
proof -
  let ?v = "delayed 0 w"
  have v: "snd (handle (UpdatedDelay 0) w) = ?v" "lock_ok ?v" "\<not> sw_armed ?v" "sw_visible ?v = sw_visible w"
    using delay_run(1) [OF assms(1), of 0] lock_ok_results(3) [OF assms(1), of 0] by (simp_all add: delayed_def Let_def)
  from assms(2) [unfolded v(1)] v(2,3)
  have "lock_ok w' \<and> \<not> sw_armed w' \<and> (Logout \<notin> set es \<longrightarrow> sw_visible w' = sw_visible ?v)"
  proof (induction rule: session.induct)
    case (session_step w es w' e)
    then have ok: "lock_ok w'" and off: "\<not> sw_armed w'" by simp_all
    then have "sw_timers w' = Map.empty" by (cases rule: lock_okE) simp_all
    with session_step.hyps(2) off
    have "\<not> sw_armed (snd (handle e w')) \<and> (e \<noteq> Logout \<longrightarrow> sw_visible (snd (handle e w')) = sw_visible w')"
      using reset_timer_run [OF ok refl refl] logout_run [OF ok refl refl] delay_run [OF ok] ok
      by (cases e) (auto simp: locked_def delayed_def Let_def copy_runs lock_ok_def split: option.splits)
    with handled [OF ok session_step.hyps(2)] session_step show ?case by auto
  qed simp
  then show ?thesis using v(4) by (auto simp: lock_ok_def split: option.splits)
qed

end
