(* ===== verification/Search.thy ===== *)
theory Search
  imports Prelude "HOL-Library.Sublist"
begin

text \<open>
  \<open>ui/windows/main_window/search_filter.rs\<close>: how the secret list is searched, filtered, sorted and
  counted.  This code works on \<open>chars()\<close>, so a text is here the list of its Unicode scalar values.
\<close>

type_synonym chars = "nat list"

definition lit :: "string \<Rightarrow> chars" where
  "lit s = map of_char s"

section \<open>Scalar values and words\<close>

text \<open>\<open>char::is_whitespace\<close>: the Unicode property White_Space.\<close>

definition is_whitespace :: "nat \<Rightarrow> bool" where
  "is_whitespace c \<longleftrightarrow>
     9 \<le> c \<and> c \<le> 13 \<or> 0x2000 \<le> c \<and> c \<le> 0x200A \<or>
     c \<in> {0x20, 0x85, 0xA0, 0x1680, 0x2028, 0x2029, 0x202F, 0x205F, 0x3000}"

function split_whitespace :: "chars \<Rightarrow> chars list" where
  "split_whitespace s =
     (let t = dropWhile is_whitespace s in
      if t = [] then []
      else takeWhile (\<lambda>c. \<not> is_whitespace c) t # split_whitespace (dropWhile (\<lambda>c. \<not> is_whitespace c) t))"
  by pat_completeness auto

lemma dropWhile_shorter: "dropWhile is_whitespace s \<noteq> [] \<Longrightarrow>
  length (dropWhile (\<lambda>c. \<not> is_whitespace c) (dropWhile is_whitespace s)) < length s"
proof -
  assume ne: "dropWhile is_whitespace s \<noteq> []"
  then have "\<not> is_whitespace (hd (dropWhile is_whitespace s))" by (rule hd_dropWhile)
  with ne obtain c t where "dropWhile is_whitespace s = c # t" "\<not> is_whitespace c"
    by (cases "dropWhile is_whitespace s") auto
  moreover have "length (dropWhile is_whitespace s) \<le> length s" by (rule length_dropWhile_le)
  moreover have "length (dropWhile (\<lambda>c. \<not> is_whitespace c) t) \<le> length t" by (rule length_dropWhile_le)
  ultimately show ?thesis by simp
qed

termination split_whitespace
  by (relation "measure length") (simp_all add: dropWhile_shorter)

declare split_whitespace.simps [simp del]

definition join_spaces :: "chars list \<Rightarrow> chars" where
  "join_spaces ws = concat (case ws of [] \<Rightarrow> [] | w # r \<Rightarrow> w # map (\<lambda>v. 0x20 # v) r)"

text \<open>\<open>split_once(':')\<close>.\<close>

definition split_once_colon :: "chars \<Rightarrow> (chars \<times> chars) option" where
  "split_once_colon s =
     (if 58 \<in> set s then Some (takeWhile (\<lambda>c. c \<noteq> 58) s, tl (dropWhile (\<lambda>c. c \<noteq> 58) s)) else None)"

section \<open>Normalisation\<close>

text \<open>\<open>normalize_search_text\<close>: letters lose case and accents, separators become blanks, anything else
  is dropped.\<close>

definition fold_char :: "nat \<Rightarrow> nat option" where
  "fold_char c =
     (if 97 \<le> c \<and> c \<le> 122 \<or> 48 \<le> c \<and> c \<le> 57 then Some c
      else if 65 \<le> c \<and> c \<le> 90 then Some (c + 32)
      else if 0xC0 \<le> c \<and> c \<le> 0xC5 \<or> 0xE0 \<le> c \<and> c \<le> 0xE5 then Some 97
      else if c \<in> {0xC7, 0xE7} then Some 99
      else if 0xC8 \<le> c \<and> c \<le> 0xCB \<or> 0xE8 \<le> c \<and> c \<le> 0xEB then Some 101
      else if 0xCC \<le> c \<and> c \<le> 0xCF \<or> 0xEC \<le> c \<and> c \<le> 0xEF then Some 105
      else if c \<in> {0xD1, 0xF1} then Some 110
      else if 0xD2 \<le> c \<and> c \<le> 0xD6 \<or> 0xF2 \<le> c \<and> c \<le> 0xF6 \<or> c \<in> {0xD8, 0xF8} then Some 111
      else if 0xD9 \<le> c \<and> c \<le> 0xDC \<or> 0xF9 \<le> c \<and> c \<le> 0xFC then Some 117
      else if c \<in> {0xDD, 0x178, 0xFD, 0xFF} then Some 121
      else if c \<in> {0xC6, 0xE6} then Some 97
      else if c \<in> {0x152, 0x153} then Some 111
      else if is_whitespace c \<or> c \<in> {45, 95, 46, 64} then Some 0x20
      else None)"

definition normalize_search_text :: "chars \<Rightarrow> chars" where
  "normalize_search_text raw = join_spaces (split_whitespace (List.map_filter fold_char raw))"

section \<open>Fuzzy matching\<close>

text \<open>\<open>within_one_edit\<close>: the loop over both words with its two positions and the \<open>u8\<close> counter, which
  never passes 2.\<close>

function edit_loop :: "chars \<Rightarrow> chars \<Rightarrow> nat \<Rightarrow> nat \<Rightarrow> nat \<Rightarrow> bool" where
  "edit_loop l r i j edits =
     (if i < length l \<and> j < length r then
        if l ! i = r ! j then edit_loop l r (i + 1) (j + 1) edits
        else if edits + 1 > 1 then False
        else if length l > length r then edit_loop l r (i + 1) j (edits + 1)
        else if length r > length l then edit_loop l r i (j + 1) (edits + 1)
        else edit_loop l r (i + 1) (j + 1) (edits + 1)
      else (if i < length l \<or> j < length r then edits + 1 else edits) \<le> 1)"
  by pat_completeness auto
termination edit_loop
  by (relation "measure (\<lambda>(l, r, i, j, e). (length l - i) + (length r - j))") auto

declare edit_loop.simps [simp del]

definition within_one_edit :: "chars \<Rightarrow> chars \<Rightarrow> bool" where
  "within_one_edit l r =
     (if length l - length r > 1 \<or> length r - length l > 1 then False else edit_loop l r 0 0 0)"

definition token_matches_haystack :: "chars \<Rightarrow> chars \<Rightarrow> bool" where
  "token_matches_haystack token haystack =
     (if token = [] then True
      else if sublist token haystack then True
      else if length token < 4 then False
      else list_ex (within_one_edit token) (split_whitespace haystack))"

section \<open>Queries\<close>

definition search_key :: "chars \<Rightarrow> string option" where
  "search_key k =
     (if k \<in> set (map lit [''title'', ''titre'', ''name'', ''nom'']) then Some ''title''
      else if k \<in> set (map lit [''login'', ''user'', ''username'', ''identifiant'']) then Some ''login''
      else if k \<in> set (map lit [''email'', ''mail'']) then Some ''email''
      else if k \<in> set (map lit [''url'', ''site'', ''domaine'', ''domain'']) then Some ''url''
      else if k \<in> set (map lit [''note'', ''notes'']) then Some ''notes''
      else if k \<in> set (map lit [''category'', ''categorie'', ''cat'']) then Some ''category''
      else if k \<in> set (map lit [''tag'', ''tags'']) then Some ''tags''
      else if k \<in> set (map lit [''type'', ''kind'']) then Some ''type''
      else None)"

definition plain_term :: "chars \<Rightarrow> (string option \<times> chars) option" where
  "plain_term w = (let token = normalize_search_text w in if token = [] then None else Some (None, token))"

definition parse_term :: "chars \<Rightarrow> (string option \<times> chars) option" where
  "parse_term w =
     (case split_once_colon w of
        None \<Rightarrow> plain_term w
      | Some (raw_key, raw_value) \<Rightarrow>
          if raw_key = [] \<or> raw_value = [] then plain_term w
          else let v = normalize_search_text raw_value in
            if v = [] then None
            else (case search_key (normalize_search_text raw_key) of
                    None \<Rightarrow> Some (None, normalize_search_text w)
                  | Some k \<Rightarrow> Some (Some k, v)))"

definition parse_search_terms :: "chars \<Rightarrow> (string option \<times> chars) list" where
  "parse_search_terms query =
     filter (\<lambda>(_, v). v \<noteq> []) (List.map_filter parse_term (split_whitespace query))"

datatype secret_kind = KindPassword | KindApiToken | KindSshKey | KindSecureDocument

record secret_filter_meta =
  searchable_text :: chars
  title_text :: chars
  login_text :: chars
  email_text :: chars
  url_text :: chars
  notes_text :: chars
  category_text :: chars
  tags_text :: chars
  type_text :: chars
  meta_kind :: secret_kind
  original_rank :: nat
  is_weak :: bool
  is_duplicate :: bool

definition matches_search_term :: "secret_filter_meta \<Rightarrow> string option \<times> chars \<Rightarrow> bool" where
  "matches_search_term meta t =
     (let v = snd t; k = fst t in
      if v = [] then True
      else token_matches_haystack v
        (if k = Some ''title'' then title_text meta
         else if k = Some ''login'' then login_text meta
         else if k = Some ''email'' then email_text meta
         else if k = Some ''url'' then url_text meta
         else if k = Some ''notes'' then notes_text meta
         else if k = Some ''category'' then category_text meta
         else if k = Some ''tags'' then tags_text meta
         else if k = Some ''type'' then type_text meta
         else searchable_text meta))"

section \<open>The filter and the order of the list\<close>

datatype category_filter = AnyCategory | CategoryPassword | CategoryApiToken | CategorySshKey | CategorySecureDocument
datatype audit_filter = AnyAudit | AuditWeak | AuditDuplicate
datatype sort_mode = SortRecent | SortTitle | SortRisk

fun matches_category :: "category_filter \<Rightarrow> secret_kind \<Rightarrow> bool" where
  "matches_category AnyCategory k = True"
| "matches_category CategoryPassword k = (k = KindPassword)"
| "matches_category CategoryApiToken k = (k = KindApiToken)"
| "matches_category CategorySshKey k = (k = KindSshKey)"
| "matches_category CategorySecureDocument k = (k = KindSecureDocument)"

fun matches_audit :: "audit_filter \<Rightarrow> secret_filter_meta \<Rightarrow> bool" where
  "matches_audit AnyAudit m = True"
| "matches_audit AuditWeak m = is_weak m"
| "matches_audit AuditDuplicate m = is_duplicate m"

definition card_visible :: "chars \<Rightarrow> category_filter \<Rightarrow> audit_filter \<Rightarrow> secret_filter_meta \<Rightarrow> bool" where
  "card_visible query category audit meta \<longleftrightarrow>
     list_all (matches_search_term meta) (parse_search_terms query) \<and>
     matches_category category (meta_kind meta) \<and> matches_audit audit meta"

datatype ordering = Less | Equal | Greater

definition cmp :: "'a::linorder \<Rightarrow> 'a \<Rightarrow> ordering" where
  "cmp a b = (if a < b then Less else if a = b then Equal else Greater)"

fun and_then :: "ordering \<Rightarrow> ordering \<Rightarrow> ordering" where
  "and_then Equal r = r"
| "and_then q r = q"

text \<open>\<open>str::cmp\<close> compares the UTF-8 bytes, which order like the scalar values.\<close>

fun cmp_chars :: "chars \<Rightarrow> chars \<Rightarrow> ordering" where
  "cmp_chars [] [] = Equal"
| "cmp_chars [] (y # ys) = Less"
| "cmp_chars (x # xs) [] = Greater"
| "cmp_chars (x # xs) (y # ys) = and_then (cmp x y) (cmp_chars xs ys)"

definition risk_score :: "secret_filter_meta \<Rightarrow> nat" where
  "risk_score m = of_bool (is_weak m) + of_bool (is_duplicate m)"

fun cmp_cards :: "sort_mode \<Rightarrow> secret_filter_meta \<Rightarrow> secret_filter_meta \<Rightarrow> ordering" where
  "cmp_cards SortRecent a b = cmp (original_rank a) (original_rank b)"
| "cmp_cards SortTitle a b =
     and_then (cmp_chars (title_text a) (title_text b)) (cmp (original_rank a) (original_rank b))"
| "cmp_cards SortRisk a b =
     and_then (and_then (cmp (risk_score b) (risk_score a)) (cmp_chars (title_text a) (title_text b)))
       (cmp (original_rank a) (original_rank b))"

text \<open>The five counters \<open>apply_filters\<close> shows: all, weak, duplicate, all again, not compliant.\<close>

definition badge_counts :: "secret_filter_meta list \<Rightarrow> nat \<times> nat \<times> nat \<times> nat \<times> nat" where
  "badge_counts metas =
     (length metas, length (filter is_weak metas), length (filter is_duplicate metas), length metas,
      length (filter (\<lambda>m. is_weak m \<or> is_duplicate m) metas))"

end
