(* ===== verification/Secret_List.thy ===== *)
theory Secret_List
  imports Search Auth_Service Vault_Service Secret_Service
begin

text \<open>
  The list of the secrets of a vault: the loader of \<open>ui/windows/main_window/secret_flow.rs\<close> over the
  services, the cards it shows and what it hands to the search.  The translations (the Fluent bundle
  behind \<open>tr!\<close>), the JSON reader, the rendering of a time and the Unicode tables of the standard library
  are the fields of \<open>ui_crates\<close>.
\<close>

record ui_crates =
  tr :: "string \<Rightarrow> string"
  json_str :: "string \<Rightarrow> string \<Rightarrow> string option"
  show_time :: "timestamp \<Rightarrow> string"
  char_upper :: "nat \<Rightarrow> bool"
  char_lower :: "nat \<Rightarrow> bool"
  char_numeric :: "nat \<Rightarrow> bool"
  char_alnum :: "nat \<Rightarrow> bool"
  lowercased :: "string \<Rightarrow> string"

section \<open>Characters\<close>

text \<open>\<open>str::chars\<close> on a well-formed UTF-8 sequence.\<close>

function utf8_chars :: "nat list \<Rightarrow> chars" where
  "utf8_chars bs =
     (case bs of
        [] \<Rightarrow> []
      | b # r \<Rightarrow>
          if b < 0x80 then b # utf8_chars r
          else if b < 0xE0 \<and> 1 \<le> length r then ((b - 0xC0) * 0x40 + (r ! 0 - 0x80)) # utf8_chars (drop 1 r)
          else if b < 0xF0 \<and> 2 \<le> length r then
            ((b - 0xE0) * 0x1000 + (r ! 0 - 0x80) * 0x40 + (r ! 1 - 0x80)) # utf8_chars (drop 2 r)
          else if 3 \<le> length r then
            ((b - 0xF0) * 0x40000 + (r ! 0 - 0x80) * 0x1000 + (r ! 1 - 0x80) * 0x40 + (r ! 2 - 0x80)) # utf8_chars (drop 3 r)
          else [])"
  by pat_completeness auto
termination utf8_chars by (relation "measure length") auto

declare utf8_chars.simps [simp del]

definition chars_of :: "string \<Rightarrow> chars" where
  "chars_of s = utf8_chars (map of_char s)"

section \<open>Strength\<close>

definition main_strength_strong :: string where "main_strength_strong = ''main-strength-strong''"
definition main_strength_weak :: string where "main_strength_weak = ''main-strength-weak''"

definition strong_value :: "ui_crates \<Rightarrow> string \<Rightarrow> bool" where
  "strong_value U value \<longleftrightarrow>
     12 \<le> length value \<and>
     (let cs = chars_of value in
      3 \<le> length (filter id [list_ex (char_upper U) cs, list_ex (char_lower U) cs, list_ex (char_numeric U) cs,
                             list_ex (\<lambda>c. \<not> char_alnum U c) cs]))"

definition evaluate_password_strength_label :: "ui_crates \<Rightarrow> string \<Rightarrow> string" where
  "evaluate_password_strength_label U value =
     (if strong_value U value then tr U main_strength_strong else tr U main_strength_weak)"

text \<open>The service has the same rule on bytes (\<open>evaluate_password_strength\<close> of \<open>secret_service.rs\<close>, which nothing
  calls); \<open>from_utf8_lossy\<close> is the argument \<open>lossy\<close>.\<close>

definition evaluate_password_strength :: "ui_crates \<Rightarrow> (bytes \<Rightarrow> string) \<Rightarrow> bytes \<Rightarrow> string" where
  "evaluate_password_strength U lossy value =
     (if 12 \<le> length value then
        (let cs = chars_of (lossy value);
             complexity = length (filter id [list_ex (char_upper U) cs, list_ex (char_lower U) cs, list_ex (char_numeric U) cs,
                                             list_ex (\<lambda>c. \<not> char_alnum U c) cs]) in
         if 3 \<le> complexity then ''Robuste'' else ''Faible'')
      else ''Faible'')"

lemma service_strength_is_the_list_strength:
  "lossy (str_bytes v) = v \<Longrightarrow>
     evaluate_password_strength U lossy (str_bytes v) = (if strong_value U v then ''Robuste'' else ''Faible'')"
  by (simp add: evaluate_password_strength_def strong_value_def Let_def)

section \<open>The rows\<close>

record secret_row_view =
  rv_id :: uuid
  rv_icon :: string
  rv_type_label :: string
  rv_title :: string
  rv_created :: string
  rv_login :: string
  rv_email :: string
  rv_url :: string
  rv_notes :: string
  rv_category :: string
  rv_tags :: string
  rv_value :: string
  rv_kind :: secret_kind
  rv_color :: string
  rv_health :: string
  rv_usage :: "32 word"

fun type_icon :: "secret_type \<Rightarrow> string \<times> string" where
  "type_icon Password = (''dialog-password-symbolic'', ''secret-type-password'')"
| "type_icon ApiToken = (''dialog-key-symbolic'', ''secret-type-api-token'')"
| "type_icon SshKey = (''network-wired-symbolic'', ''secret-type-ssh-key'')"
| "type_icon SecureDocument = (''folder-documents-symbolic'', ''secret-type-secure-document'')"

fun type_color :: "secret_type \<Rightarrow> string \<times> secret_kind" where
  "type_color Password = (''secret-type-password'', KindPassword)"
| "type_color ApiToken = (''secret-type-token'', KindApiToken)"
| "type_color SshKey = (''secret-type-ssh'', KindSshKey)"
| "type_color SecureDocument = (''secret-type-document'', KindSecureDocument)"

definition unwrap_or :: "'a \<Rightarrow> 'a option \<Rightarrow> 'a" where
  "unwrap_or d v = (case v of None \<Rightarrow> d | Some x \<Rightarrow> x)"

text \<open>A field of the metadata; metadata that are not JSON have none.\<close>

definition meta_field :: "ui_crates \<Rightarrow> secret_item \<Rightarrow> string \<Rightarrow> string" where
  "meta_field U i name = (case metadata_json i of None \<Rightarrow> [] | Some raw \<Rightarrow> unwrap_or [] (json_str U raw name))"

text \<open>The value shown: nothing when the secret does not open or is not UTF-8.\<close>

definition shown_value :: "app_error + decrypted_secret \<Rightarrow> string" where
  "shown_value r =
     (case r of
        Inl _ \<Rightarrow> []
      | Inr d \<Rightarrow> if valid_utf8 (secret_value d) then bytes_str (secret_value d) else [])"

definition row_view :: "ui_crates \<Rightarrow> secret_item \<Rightarrow> app_error + decrypted_secret \<Rightarrow> secret_row_view" where
  "row_view U i r =
     (let v = shown_value r; label = tr U (snd (type_icon (s_type i))) in
      \<lparr> rv_id = secret_id i, rv_icon = fst (type_icon (s_type i)), rv_type_label = label,
        rv_title = unwrap_or label (title i),
        rv_created = unwrap_or (tr U ''login-history-unavailable'') (map_option (show_time U) (created_at i)),
        rv_login = meta_field U i ''login'', rv_email = meta_field U i ''email'', rv_url = meta_field U i ''url'',
        rv_notes = meta_field U i ''notes'', rv_category = meta_field U i ''category'',
        rv_tags = unwrap_or [] (tags i), rv_value = v, rv_kind = snd (type_color (s_type i)),
        rv_color = fst (type_color (s_type i)), rv_health = evaluate_password_strength_label U v,
        rv_usage = usage_count i \<rparr>)"

section \<open>The loader\<close>

record vault_view =
  vw_id :: uuid
  vw_shared :: bool
  vw_write :: bool
  vw_admin :: bool

definition load_rows :: "primitives \<Rightarrow> ui_crates \<Rightarrow> uuid \<Rightarrow> bytes \<Rightarrow> vault \<Rightarrow> (vault_view \<times> secret_row_view list) dbm" where
  "load_rows P U uid mk v =
     bindE (get_vault_access_for_user uid (vault_id v)) (\<lambda>a_opt.
     bindE (ok_or (Authorization VaultAccessDenied) a_opt) (\<lambda>a.
     bindE (open_vault_for_user P uid (vault_id v) mk) (\<lambda>key.
     bindE (list_by_vault (vault_id v)) (\<lambda>items.
     bindE (map_each items (\<lambda>i.
       bindE (attempt (get_secret P (secret_id i) key)) (\<lambda>r. ret (row_view U i r)))) (\<lambda>rows.
     ret (\<lparr> vw_id = vault_id v, vw_shared = (owner_user_id v \<noteq> uid), vw_write = can_write (av_role a),
            vw_admin = can_admin (av_role a) \<rparr>, rows))))))"

datatype list_view =
    NoVault
  | VaultGone
  | Listed vault_view "secret_row_view list"

definition load_secret_list :: "primitives \<Rightarrow> ui_crates \<Rightarrow> uuid \<Rightarrow> bytes \<Rightarrow> uuid option \<Rightarrow> list_view dbm" where
  "load_secret_list P U uid mk selected =
     bindE (list_user_vaults uid) (\<lambda>vs.
     case (case selected of Some i \<Rightarrow> Some i | None \<Rightarrow> map_option vault_id (first_row (\<lambda>_. True) vs)) of
       None \<Rightarrow> ret NoVault
     | Some sid \<Rightarrow>
        (case find (\<lambda>v. vault_id v = sid) vs of
           None \<Rightarrow> ret VaultGone
         | Some v \<Rightarrow> bindE (load_rows P U uid mk v) (\<lambda>(w, rows). ret (Listed w rows))))"

section \<open>The cards\<close>

text \<open>\<open>duplicate_counts\<close>: how often a value other than the empty one occurs.\<close>

definition count_value :: "secret_row_view list \<Rightarrow> string \<Rightarrow> nat" where
  "count_value rows v =
     fold (\<lambda>r n. if rv_value r \<noteq> [] \<and> rv_value r = v then n + 1 else n) rows 0"

record card =
  card_id :: uuid
  card_duplicate :: bool
  card_shared :: bool
  card_editable :: bool
  card_deletable :: bool
  card_copies :: "string option"
  card_health_class :: string

definition card_of :: "ui_crates \<Rightarrow> vault_view \<Rightarrow> secret_row_view list \<Rightarrow> secret_row_view \<Rightarrow> card" where
  "card_of U w rows r =
     (let copied = (if rv_value r \<noteq> [] then rv_value r else rv_login r) in
      \<lparr> card_id = rv_id r, card_duplicate = (1 < count_value rows (rv_value r)), card_shared = vw_shared w,
        card_editable = (\<not> vw_shared w \<or> vw_write w), card_deletable = (\<not> vw_shared w \<or> vw_admin w),
        card_copies = (if copied = [] then None else Some copied),
        card_health_class = (if sublist ''faible'' (lowercased U (rv_health r)) then ''badge-weak'' else ''badge-strong'') \<rparr>)"

fun kind_words :: "secret_kind \<Rightarrow> string" where
  "kind_words KindPassword = ''password motdepasse mdp''"
| "kind_words KindApiToken = ''token api acces''"
| "kind_words KindSshKey = ''ssh cle key''"
| "kind_words KindSecureDocument = ''document fichier''"

definition searched_fields :: "secret_row_view \<Rightarrow> string list" where
  "searched_fields r =
     [rv_title r, rv_type_label r, rv_login r, rv_email r, rv_url r, rv_notes r, rv_category r, rv_tags r,
      rv_created r, rv_health r]"

definition meta_of :: "ui_crates \<Rightarrow> secret_row_view list \<Rightarrow> nat \<Rightarrow> secret_row_view \<Rightarrow> secret_filter_meta" where
  "meta_of U rows rank r =
     (let norm = (\<lambda>s. normalize_search_text (chars_of s)) in
      \<lparr> searchable_text = normalize_search_text (join_spaces (map chars_of (searched_fields r))),
        title_text = norm (rv_title r), login_text = norm (rv_login r), email_text = norm (rv_email r),
        url_text = norm (rv_url r), notes_text = norm (rv_notes r), category_text = norm (rv_category r),
        tags_text = norm (rv_tags r),
        type_text = normalize_search_text (join_spaces [chars_of (rv_type_label r), chars_of (kind_words (rv_kind r))]),
        meta_kind = rv_kind r, original_rank = rank, is_weak = (rv_health r = tr U main_strength_weak),
        is_duplicate = (1 < count_value rows (rv_value r)) \<rparr>)"

definition list_metas :: "ui_crates \<Rightarrow> secret_row_view list \<Rightarrow> secret_filter_meta list" where
  "list_metas U rows = map (\<lambda>(rank, r). meta_of U rows rank r) (List.enumerate 0 rows)"

end
