(* ===== verification/Search_Properties.thy ===== *)
theory Search_Properties
  imports Search
begin

text \<open>What the search finds: the fuzzy match is the edit distance, normalisation is idempotent and respects
  words, and the order of the list is total.\<close>

section \<open>One edit\<close>

text \<open>The edit distance of Levenshtein, as the reference.\<close>

fun edit_distance :: "'a list \<Rightarrow> 'a list \<Rightarrow> nat" where
  "edit_distance [] ys = length ys"
| "edit_distance xs [] = length xs"
| "edit_distance (x # xs) (y # ys) =
     min (edit_distance xs ys + of_bool (x \<noteq> y))
       (1 + min (edit_distance xs (y # ys)) (edit_distance (x # xs) ys))"

lemma edit_distance_Nil [simp]: "edit_distance xs [] = length xs"
  by (cases xs) simp_all

lemma edit_distance_0: "edit_distance xs ys = 0 \<longleftrightarrow> xs = ys"
  by (induction xs ys rule: edit_distance.induct) auto

lemma edit_distance_insert: "edit_distance xs (x # xs) \<le> 1" "edit_distance (x # xs) xs \<le> 1"
proof -
  have z: "edit_distance xs xs = 0" by (simp add: edit_distance_0)
  show "edit_distance xs (x # xs) \<le> 1" using z by (cases xs) (simp_all add: min_def)
  show "edit_distance (x # xs) xs \<le> 1" using z by (cases xs) (simp_all add: min_def)
qed

lemma edit_distance_1_Cons:
  "edit_distance (x # xs) (y # ys) \<le> 1 \<longleftrightarrow>
     (if x = y then edit_distance xs ys \<le> 1 else xs = ys \<or> xs = y # ys \<or> x # xs = ys)"
proof -
  have le: "min a (1 + min b c) \<le> 1 \<longleftrightarrow> a \<le> 1 \<or> b = 0 \<or> c = 0" for a b c :: nat by auto
  have "edit_distance (x # xs) (y # ys) \<le> 1 \<longleftrightarrow>
      edit_distance xs ys + of_bool (x \<noteq> y) \<le> 1 \<or> xs = y # ys \<or> x # xs = ys"
    unfolding edit_distance.simps(3) le edit_distance_0 ..
  moreover have "edit_distance xs ys + 1 \<le> 1 \<longleftrightarrow> xs = ys" by (simp add: edit_distance_0)
  ultimately show ?thesis using edit_distance_insert by (cases "x = y") auto
qed

lemma loop_after_edit:
  assumes "length l - i = length r - j" and "i \<le> length l" "j \<le> length r"
  shows "edit_loop l r i j 1 \<longleftrightarrow> drop i l = drop j r"
  using assms
proof (induction "length l - i" arbitrary: i j)
  case 0
  then show ?case by (simp add: edit_loop.simps [of l r i j])
next
  case (Suc n)
  then have "i < length l" "j < length r" by linarith+
  then have d: "drop i l = l ! i # drop (i + 1) l" "drop j r = r ! j # drop (j + 1) r"
    by (simp_all add: Cons_nth_drop_Suc)
  have "edit_loop l r (i + 1) (j + 1) 1 \<longleftrightarrow> drop (i + 1) l = drop (j + 1) r"
    by (rule Suc.hyps(1)) (use Suc.hyps(2) Suc.prems \<open>i < length l\<close> \<open>j < length r\<close> in linarith)+
  then show ?case
    using \<open>i < length l\<close> \<open>j < length r\<close> d by (simp add: edit_loop.simps [of l r i j])
qed

lemma loop_before_edit:
  assumes "length l - length r \<le> 1" "length r - length l \<le> 1" and "i \<le> length l" "i \<le> length r"
  shows "edit_loop l r i i 0 \<longleftrightarrow> edit_distance (drop i l) (drop i r) \<le> 1"
  using assms(3,4)
proof (induction "length l - i" arbitrary: i)
  case 0
  then show ?case using assms(1,2) by (auto simp: edit_loop.simps [of l r i i])
next
  case (Suc n)
  show ?case
  proof (cases "i < length r")
    case False
    with Suc.prems have "i = length r" by simp
    with assms(1,2) Suc.prems show ?thesis by (auto simp: edit_loop.simps [of l r "length r" "length r"])
  next
    case True
    have l: "i < length l" using Suc.hyps(2) by linarith
    have d: "drop i l = l ! i # drop (i + 1) l" "drop i r = r ! i # drop (i + 1) r"
      using l True by (simp_all add: Cons_nth_drop_Suc)
    have ih: "edit_loop l r (i + 1) (i + 1) 0 \<longleftrightarrow> edit_distance (drop (i + 1) l) (drop (i + 1) r) \<le> 1"
      by (rule Suc.hyps(1)) (use Suc.hyps(2) l True in linarith)+
    have len: "length (drop (i + 1) l) = length l - i - 1" "length (drop (i + 1) r) = length r - i - 1" by simp_all
    have neq: "length a \<noteq> length b \<Longrightarrow> a \<noteq> b" for a b :: chars by auto
    consider "length l > length r" | "length r > length l" | "length l = length r" by linarith
    then show ?thesis
    proof cases
      case 1
      then have "edit_loop l r (i + 1) i 1 \<longleftrightarrow> drop (i + 1) l = drop i r"
        using assms l True by (intro loop_after_edit) linarith+
      moreover have "drop (i + 1) l \<noteq> drop (i + 1) r" "l ! i # drop (i + 1) l \<noteq> drop (i + 1) r"
        using 1 l True by (intro neq; simp; linarith)+
      ultimately show ?thesis
        using 1 l True ih unfolding d edit_distance_1_Cons by (simp add: edit_loop.simps [of l r i i])
    next
      case 2
      then have "edit_loop l r i (i + 1) 1 \<longleftrightarrow> drop i l = drop (i + 1) r"
        using assms l True by (intro loop_after_edit) linarith+
      moreover have "drop (i + 1) l \<noteq> drop (i + 1) r" "drop (i + 1) l \<noteq> r ! i # drop (i + 1) r"
        using 2 l True by (intro neq; simp; linarith)+
      ultimately show ?thesis
        using 2 l True ih unfolding d edit_distance_1_Cons by (simp add: edit_loop.simps [of l r i i])
    next
      case 3
      then have "edit_loop l r (i + 1) (i + 1) 1 \<longleftrightarrow> drop (i + 1) l = drop (i + 1) r"
        using l True by (intro loop_after_edit) linarith+
      moreover have "drop (i + 1) l \<noteq> r ! i # drop (i + 1) r" "l ! i # drop (i + 1) l \<noteq> drop (i + 1) r"
        using 3 l True by (intro neq; simp; linarith)+
      ultimately show ?thesis
        using 3 l True ih unfolding d edit_distance_1_Cons by (simp add: edit_loop.simps [of l r i i])
    qed
  qed
qed

text \<open>C32. The fuzzy match of the search is exactly Levenshtein's distance: the loop of \<open>within_one_edit\<close> ends
  and answers yes for two words just when one insertion, deletion or substitution at most turns one
  into the other.\<close>

theorem within_one_edit_is_edit_distance:
  "within_one_edit l r \<longleftrightarrow> edit_distance l r \<le> 1"
proof -
  have diff: "length l - length r \<le> edit_distance l r" "length r - length l \<le> edit_distance l r"
    by (induction l r rule: edit_distance.induct) (auto simp: min_def)
  show ?thesis
  proof (cases "length l - length r > 1 \<or> length r - length l > 1")
    case True
    with diff show ?thesis by (auto simp: within_one_edit_def)
  next
    case False
    then have "edit_loop l r 0 0 0 \<longleftrightarrow> edit_distance (drop 0 l) (drop 0 r) \<le> 1"
      by (intro loop_before_edit) simp_all
    with False show ?thesis by (simp add: within_one_edit_def)
  qed
qed

section \<open>Words\<close>

lemma split_whitespace_Nil: "dropWhile is_whitespace s = [] \<Longrightarrow> split_whitespace s = []"
  by (subst split_whitespace.simps) (simp only: Let_def if_True simp_thms)

lemma split_whitespace_Cons:
  "dropWhile is_whitespace s = t \<Longrightarrow> t \<noteq> [] \<Longrightarrow>
     split_whitespace s = takeWhile (\<lambda>c. \<not> is_whitespace c) t # split_whitespace (dropWhile (\<lambda>c. \<not> is_whitespace c) t)"
  by (subst split_whitespace.simps) (simp only: Let_def if_False simp_thms)

lemma split_whitespace_append:
  assumes c: "is_whitespace c"
  shows "split_whitespace (a @ c # b) = split_whitespace a @ split_whitespace b"
proof (induction a rule: split_whitespace.induct)
  case (1 a)
  let ?t = "dropWhile is_whitespace a" and ?ws = "\<lambda>c. \<not> is_whitespace c"
  show ?case
  proof (cases "?t = []")
    case True
    then have "dropWhile is_whitespace (a @ c # b) = dropWhile is_whitespace b"
      using c by (simp add: dropWhile_append)
    then have "split_whitespace (a @ c # b) = split_whitespace b"
      by (subst (1 2) split_whitespace.simps) simp
    with split_whitespace_Nil [OF True] show ?thesis by simp
  next
    case False
    then have d: "dropWhile is_whitespace (a @ c # b) = ?t @ c # b" by (auto simp: dropWhile_append)
    have stop: "takeWhile ?ws (t @ c # b) = takeWhile ?ws t" "dropWhile ?ws (t @ c # b) = dropWhile ?ws t @ c # b" for t
      using c by (induction t) simp_all
    have "split_whitespace (dropWhile ?ws ?t @ c # b) = split_whitespace (dropWhile ?ws ?t) @ split_whitespace b"
      by (rule 1 [OF refl False])
    then show ?thesis
      using split_whitespace_Cons [OF d] unfolding split_whitespace_Cons [OF refl False] stop by simp
  qed
qed

definition is_word :: "chars \<Rightarrow> bool" where
  "is_word w \<longleftrightarrow> w \<noteq> [] \<and> (\<forall>c\<in>set w. \<not> is_whitespace c)"

lemma split_whitespace_words: "w \<in> set (split_whitespace s) \<Longrightarrow> is_word w \<and> set w \<subseteq> set s"
proof (induction s rule: split_whitespace.induct)
  case (1 s)
  let ?t = "dropWhile is_whitespace s" and ?ws = "\<lambda>c. \<not> is_whitespace c"
  have t: "?t \<noteq> []"
  proof
    assume "?t = []"
    from split_whitespace_Nil [OF this] 1(2) show False by simp
  qed
  have sub: "set ?t \<subseteq> set s" "set (dropWhile ?ws ?t) \<subseteq> set ?t" by (auto dest: set_dropWhileD)
  from 1(2) t consider "w = takeWhile ?ws ?t" | "w \<in> set (split_whitespace (dropWhile ?ws ?t))"
    unfolding split_whitespace_Cons [OF refl t] by (meson set_ConsD)
  then show ?case
  proof cases
    case 1
    have "\<not> is_whitespace (hd ?t)" using t by (rule hd_dropWhile)
    with t 1 have "w \<noteq> []" by (cases ?t) auto
    with 1 sub show ?thesis by (auto simp: is_word_def dest: set_takeWhileD)
  next
    case 2
    with "1.IH" [OF refl t] sub show ?thesis by blast
  qed
qed

lemma split_whitespace_word: "is_word w \<Longrightarrow> split_whitespace w = [w]"
proof -
  assume w: "is_word w"
  then have d: "dropWhile is_whitespace w = w" by (cases w) (auto simp: is_word_def)
  have "takeWhile (\<lambda>c. \<not> is_whitespace c) w = w" "dropWhile (\<lambda>c. \<not> is_whitespace c) w = []"
    using w by (auto simp: is_word_def takeWhile_eq_all_conv dropWhile_eq_Nil_conv)
  moreover have "split_whitespace [] = []" by (simp add: split_whitespace.simps)
  moreover have "w \<noteq> []" using w by (simp add: is_word_def)
  ultimately show ?thesis using split_whitespace_Cons [OF d] by (simp only: simp_thms)
qed

lemma blank_is_whitespace [simp]: "is_whitespace 32"
  by (simp add: is_whitespace_def)

lemma join_spaces_simps [simp]:
  "join_spaces [] = []" "join_spaces [w] = w" "join_spaces (w # v # ws) = w @ 32 # join_spaces (v # ws)"
  by (simp_all add: join_spaces_def)

lemma join_spaces_append:
  "a \<noteq> [] \<Longrightarrow> b \<noteq> [] \<Longrightarrow> join_spaces (a @ b) = join_spaces a @ 32 # join_spaces b"
proof (induction a)
  case (Cons w a)
  then show ?case by (cases a; cases b) simp_all
qed simp

lemma split_join_spaces: "\<forall>w\<in>set ws. is_word w \<Longrightarrow> split_whitespace (join_spaces ws) = ws"
proof (induction ws rule: induct_list012)
  case 1
  then show ?case by (simp add: split_whitespace.simps)
next
  case (3 w v ws)
  then show ?case by (simp add: split_whitespace_append split_whitespace_word)
qed (simp add: split_whitespace_word)

lemma join_spaces_sublist:
  assumes "sublist xs ys"
  shows "sublist (join_spaces xs) (join_spaces ys)"
proof -
  from assms obtain a b where ys: "ys = a @ xs @ b" by (auto simp: sublist_def)
  show ?thesis
  proof (cases "xs = []")
    case False
    have "\<exists>p. join_spaces (a @ xs @ b) = p @ join_spaces (xs @ b)"
      using False join_spaces_append [of a "xs @ b"] by (cases "a = []") auto
    moreover have "\<exists>q. join_spaces (xs @ b) = join_spaces xs @ q"
      using False join_spaces_append [of xs b] by (cases "b = []") auto
    ultimately show ?thesis unfolding ys by (metis sublist_appendI append.assoc)
  qed simp
qed

section \<open>Normalised texts\<close>

definition norm_words :: "chars \<Rightarrow> chars list" where
  "norm_words s = split_whitespace (List.map_filter fold_char s)"

lemma normalize_norm_words: "normalize_search_text s = join_spaces (norm_words s)"
  by (simp add: normalize_search_text_def norm_words_def)

lemma fold_whitespace: "is_whitespace c \<Longrightarrow> fold_char c = Some 32"
proof -
  assume ws: "is_whitespace c"
  then consider "c < 48" | "c = 0x85" | "c = 0xA0" | "0x1680 \<le> c" unfolding is_whitespace_def by fastforce
  then show ?thesis by cases (simp_all add: fold_char_def ws, simp_all add: is_whitespace_def)
qed

lemma fold_output: "fold_char c = Some d \<Longrightarrow> 97 \<le> d \<and> d \<le> 122 \<or> 48 \<le> d \<and> d \<le> 57 \<or> d = 32"
  by (auto simp: fold_char_def split: if_splits)

lemma fold_output_fixed: "fold_char c = Some d \<Longrightarrow> fold_char d = Some d"
proof -
  have "97 \<le> d \<and> d \<le> 122 \<or> 48 \<le> d \<and> d \<le> 57 \<Longrightarrow> fold_char d = Some d" unfolding fold_char_def by (rule if_P)
  moreover have "fold_char 32 = Some 32" by (simp add: fold_whitespace is_whitespace_def)
  ultimately show "fold_char c = Some d \<Longrightarrow> fold_char d = Some d" using fold_output [of c d] by blast
qed

lemma map_filter_append: "List.map_filter f (a @ b) = List.map_filter f a @ List.map_filter f b"
  by (simp add: List.map_filter_def)

lemma norm_words_append:
  assumes "is_whitespace c"
  shows "norm_words (a @ c # b) = norm_words a @ norm_words b"
proof -
  have "List.map_filter fold_char (a @ c # b) =
      List.map_filter fold_char a @ 32 # List.map_filter fold_char b"
    using fold_whitespace [OF assms] by (simp add: map_filter_append List.map_filter_simps)
  then show ?thesis by (simp add: norm_words_def split_whitespace_append)
qed

lemma norm_words_Nil [simp]: "norm_words [] = []"
  by (simp add: norm_words_def List.map_filter_simps split_whitespace_Nil)

lemma norm_words_whitespace: "is_whitespace c \<Longrightarrow> norm_words (c # b) = norm_words b"
  using norm_words_append [of c "[]" b] by simp

lemma norm_words_skip: "norm_words s = norm_words (dropWhile is_whitespace s)"
  by (induction s) (simp_all add: norm_words_whitespace)

lemma norm_words_take_drop:
  "norm_words t = norm_words (takeWhile (\<lambda>c. \<not> is_whitespace c) t) @ norm_words (dropWhile (\<lambda>c. \<not> is_whitespace c) t)"
proof (cases "dropWhile (\<lambda>c. \<not> is_whitespace c) t")
  case Nil
  then have "takeWhile (\<lambda>c. \<not> is_whitespace c) t = t" by (metis takeWhile_dropWhile_id append_Nil2)
  then show ?thesis by (simp only: Nil norm_words_Nil append_Nil2)
next
  case (Cons c r)
  then have c: "is_whitespace c" using hd_dropWhile [of "\<lambda>c. \<not> is_whitespace c" t] by simp
  have "norm_words t = norm_words (takeWhile (\<lambda>c. \<not> is_whitespace c) t @ c # r)"
    using takeWhile_dropWhile_id [of "\<lambda>c. \<not> is_whitespace c" t] Cons by simp
  then show ?thesis by (simp add: norm_words_append [OF c] Cons norm_words_whitespace [OF c])
qed

lemma norm_words_split: "norm_words s = concat (map norm_words (split_whitespace s))"
proof (induction s rule: split_whitespace.induct)
  case (1 s)
  let ?t = "dropWhile is_whitespace s" and ?ws = "\<lambda>c. \<not> is_whitespace c"
  show ?case
  proof (cases "?t = []")
    case True
    have "norm_words s = []" unfolding norm_words_skip [of s] True by simp
    then show ?thesis using split_whitespace_Nil [OF True] by simp
  next
    case False
    show ?thesis
      unfolding split_whitespace_Cons [OF refl False] norm_words_skip [of s] norm_words_take_drop [of ?t]
      using 1 [OF refl False] by simp
  qed
qed

lemma norm_words_join: "norm_words (join_spaces fs) = concat (map norm_words fs)"
proof (induction fs rule: induct_list012)
  case (3 f g fs)
  then show ?case by (simp add: norm_words_append)
qed simp_all

lemma sublist_of_concat: "x \<in> set xs \<Longrightarrow> sublist (f x) (concat (map f xs))"
  by (auto dest!: split_list)

lemma word_in_joined:
  assumes "w \<in> set (split_whitespace f)" and "f \<in> set fs"
  shows "sublist (normalize_search_text w) (normalize_search_text (join_spaces fs))"
proof -
  have "sublist (norm_words w) (norm_words f)"
    using sublist_of_concat [OF assms(1)] by (simp add: norm_words_split [of f])
  moreover have "sublist (norm_words f) (norm_words (join_spaces fs))"
    using sublist_of_concat [OF assms(2)] by (simp add: norm_words_join)
  ultimately show ?thesis
    unfolding normalize_norm_words by (intro join_spaces_sublist) (rule sublist_order.order_trans)
qed

lemma norm_words_words: "\<forall>w\<in>set (norm_words s). is_word w \<and> (\<forall>d\<in>set w. fold_char d = Some d)"
proof (intro ballI conjI)
  fix w assume "w \<in> set (norm_words s)"
  then have w: "is_word w" "set w \<subseteq> set (List.map_filter fold_char s)"
    using split_whitespace_words by (auto simp: norm_words_def)
  show "is_word w" by (rule w(1))
  fix d assume "d \<in> set w"
  with w(2) obtain c where "fold_char c = Some d" by (auto simp: List.map_filter_def)
  then show "fold_char d = Some d" by (rule fold_output_fixed)
qed

lemma map_filter_fixed: "\<forall>x\<in>set xs. f x = Some x \<Longrightarrow> List.map_filter f xs = xs"
  by (induction xs) (simp_all add: List.map_filter_simps)

lemma join_spaces_fixed:
  "\<forall>w\<in>set ws. \<forall>d\<in>set w. fold_char d = Some d \<Longrightarrow> List.map_filter fold_char (join_spaces ws) = join_spaces ws"
proof (induction ws rule: induct_list012)
  case (3 w v ws)
  then show ?case using fold_whitespace [OF blank_is_whitespace]
    by (simp add: map_filter_append List.map_filter_simps map_filter_fixed)
qed (simp_all add: List.map_filter_simps map_filter_fixed)

text \<open>A normalised text is words of lower-case letters and digits, with single blanks between them; it
  normalises to itself.\<close>

theorem normalisation_is_idempotent:
  "normalize_search_text (normalize_search_text s) = normalize_search_text s \<and>
   set (normalize_search_text s) \<subseteq> {32} \<union> {48..57} \<union> {97..122} \<and>
   split_whitespace (normalize_search_text s) = norm_words s"
proof (intro conjI)
  note ws = norm_words_words [of s]
  show words: "split_whitespace (normalize_search_text s) = norm_words s"
    unfolding normalize_norm_words by (rule split_join_spaces) (use ws in blast)
  have fixed: "List.map_filter fold_char (normalize_search_text s) = normalize_search_text s"
    unfolding normalize_norm_words by (rule join_spaces_fixed) (use ws in blast)
  show "normalize_search_text (normalize_search_text s) = normalize_search_text s"
    unfolding normalize_norm_words [of "normalize_search_text s"] norm_words_def [of "normalize_search_text s"] fixed words
    by (simp only: normalize_norm_words [of s])
  have "fold_char d = Some d \<or> d = 32" if "d \<in> set (join_spaces vs)"
    and "\<forall>w\<in>set vs. \<forall>d\<in>set w. fold_char d = Some d" for vs d
    using that by (induction vs rule: induct_list012) auto
  with ws have "fold_char d = Some d \<or> d = 32" if "d \<in> set (normalize_search_text s)" for d
    using that unfolding normalize_norm_words by blast
  then show "set (normalize_search_text s) \<subseteq> {32} \<union> {48..57} \<union> {97..122}"
    using fold_output by fastforce
qed

section \<open>What a query finds\<close>

text \<open>A word of a query that restricts the search to one field.\<close>

definition reads_as_filter :: "chars \<Rightarrow> bool" where
  "reads_as_filter w \<longleftrightarrow>
     (case split_once_colon w of None \<Rightarrow> False | Some (k, _) \<Rightarrow> search_key (normalize_search_text k) \<noteq> None)"

lemma parse_plain_word:
  "\<not> reads_as_filter w \<Longrightarrow> parse_term w = Some t \<Longrightarrow> t = (None, normalize_search_text w)"
  by (auto simp: parse_term_def plain_term_def reads_as_filter_def Let_def split: option.splits prod.splits if_splits)

lemma parsed_terms:
  "t \<in> set (parse_search_terms q) \<longleftrightarrow> snd t \<noteq> [] \<and> (\<exists>w\<in>set (split_whitespace q). parse_term w = Some t)"
  by (force simp: parse_search_terms_def List.map_filter_def image_iff)

lemma field_is_found:
  assumes m: "searchable_text m = normalize_search_text (join_spaces fs)" and f: "f \<in> set fs"
    and plain: "\<forall>w\<in>set (split_whitespace f). \<not> reads_as_filter w"
  shows "list_all (matches_search_term m) (parse_search_terms f)"
proof -
  have "matches_search_term m t" if t: "t \<in> set (parse_search_terms f)" for t
  proof -
    from t obtain w where w: "w \<in> set (split_whitespace f)" "parse_term w = Some t" by (auto simp: parsed_terms)
    then have "t = (None, normalize_search_text w)" using plain parse_plain_word by blast
    then show ?thesis
      using word_in_joined [OF w(1) f] by (simp add: matches_search_term_def Let_def token_matches_haystack_def m)
  qed
  then show ?thesis by (simp add: list_all_iff)
qed

text \<open>Words of a query narrow the list: what a query with one more word shows, the query shows.\<close>

theorem words_narrow_the_search:
  "card_visible (q @ 32 # q') category audit m \<Longrightarrow> card_visible q category audit m \<and> card_visible [] category audit m"
  by (auto simp: card_visible_def parse_search_terms_def split_whitespace_append List.map_filter_def split_whitespace_Nil)

section \<open>The order of the list\<close>

lemma cmp_facts [simp]:
  "cmp a b = Less \<longleftrightarrow> a < b" "cmp a b = Equal \<longleftrightarrow> a = b" "cmp a b = Greater \<longleftrightarrow> b < a"
  by (auto simp: cmp_def)

lemma and_then_facts [simp]:
  "and_then p q = Less \<longleftrightarrow> p = Less \<or> p = Equal \<and> q = Less"
  "and_then p q = Equal \<longleftrightarrow> p = Equal \<and> q = Equal"
  "and_then p q = Greater \<longleftrightarrow> p = Greater \<or> p = Equal \<and> q = Greater"
  by (cases p; simp)+

lemma cmp_chars_facts:
  "cmp_chars a b = Equal \<longleftrightarrow> a = b" "cmp_chars a b = Greater \<longleftrightarrow> cmp_chars b a = Less"
  "cmp_chars a b = Less \<Longrightarrow> cmp_chars b c = Less \<Longrightarrow> cmp_chars a c = Less"
proof -
  show "cmp_chars a b = Equal \<longleftrightarrow> a = b" by (induction a b rule: cmp_chars.induct) auto
  show "cmp_chars a b = Greater \<longleftrightarrow> cmp_chars b a = Less" by (induction a b rule: cmp_chars.induct) auto
  show "cmp_chars a b = Less \<Longrightarrow> cmp_chars b c = Less \<Longrightarrow> cmp_chars a c = Less"
  proof (induction a b arbitrary: c rule: cmp_chars.induct)
    case (4 x xs y ys)
    then show ?case by (cases c) auto
  next
    case (2 y ys)
    then show ?case by (cases c) auto
  qed simp_all
qed

text \<open>Each of the three orders is a strict total order on entries of different ranks.\<close>

theorem list_order_is_total:
  "(cmp_cards mode a b = Greater \<longleftrightarrow> cmp_cards mode b a = Less) \<and>
   (cmp_cards mode a b = Equal \<longrightarrow> original_rank a = original_rank b) \<and>
   (cmp_cards mode a b = Less \<longrightarrow> cmp_cards mode b c = Less \<longrightarrow> cmp_cards mode a c = Less)"
  by (cases mode) (auto simp: cmp_chars_facts dest: cmp_chars_facts(3))

end
