(* ===== verification/Secret_List_Properties.thy ===== *)
theory Secret_List_Properties
  imports Secret_List Search_Properties Secret_Properties Vault_Properties
begin

text \<open>
  What the list of secrets shows: the live secrets of a vault the user may open, opened with the key of
  that vault; which entries are reported as duplicates; and that every entry can be found.
\<close>

section \<open>The loader\<close>

lemma map_each_reads_run:
  assumes "\<And>x. f x s = (Inr (g x), s)"
  shows "map_each xs f s = (Inr (map g xs), s)"
  by (induction xs) (simp_all add: bindE_run run_simps assms)

lemma listed_items:
  "secret_list_by_vault vid s = (Inr items, s') \<longleftrightarrow>
     s' = s \<and> map row_to_secret_item (newest_first si_created (filter (\<lambda>r. si_vault r = vid \<and> live_secret r) (secrets s))) =
       map Inr items"
  by (auto simp: secret_list_by_vault_def items_of_def bindE_run run_simps sequence_results_Inr split: sum.splits)

lemma item_id: "row_to_secret_item r = Inr i \<Longrightarrow> secret_id i = si_id r"
  by (auto simp: row_to_secret_item_def split: option.splits sum.splits if_splits)

lemma opener_exists: "open_vault_for_user P uid vid mk s = (Inr key, s') \<Longrightarrow> uid \<in> set (user_ids s)"
  by (auto simp: open_vault_for_user_def returns_iff require_user_returns dest: user_read_exists)

lemma loaded_rows:
  assumes "map_each items (\<lambda>i. bindE (attempt (get_secret P (secret_id i) key)) (\<lambda>r. ret (row_view U i r))) s = (Inr rows, s')"
  shows "s' = s \<and> rows = map (\<lambda>i. row_view U i (fst (get_secret P (secret_id i) key s))) items"
proof -
  have "bindE (attempt (get_secret P (secret_id i) key)) (\<lambda>r. ret (row_view U i r)) s =
      (Inr (row_view U i (fst (get_secret P (secret_id i) key s))), s)" for i
    by (simp add: bindE_run run_simps get_secret_run attempt_def)
  from map_each_reads_run [where f = "\<lambda>i. bindE (attempt (get_secret P (secret_id i) key)) (\<lambda>r. ret (row_view U i r))",
      OF this, of items] assms show ?thesis by simp
qed

text \<open>The rows of the listing, read one by one.\<close>

lemma listed_rows_open:
  assumes ok: "db_ok s" and items: "secret_list_by_vault vid s = (Inr items, s1)"
  shows "map (\<lambda>i. (secret_id i, shown_value (fst (get_secret P (secret_id i) key s)))) items =
    map (\<lambda>x. (si_id x, shown_value (opened_row P key x)))
      (newest_first si_created (filter (\<lambda>x. si_vault x = vid \<and> live_secret x) (secrets s)))"
proof -
  let ?xs = "newest_first si_created (filter (\<lambda>x. si_vault x = vid \<and> live_secret x) (secrets s))"
  have m: "map row_to_secret_item ?xs = map Inr items" using items by (simp add: listed_items)
  have parsed: "\<exists>i. row_to_secret_item x = Inr i" if "x \<in> set ?xs" for x
  proof -
    have "row_to_secret_item x \<in> set (map Inr items)" unfolding m [symmetric] using that by simp
    then show ?thesis by auto
  qed
  have items: "items = map (\<lambda>x. projr (row_to_secret_item x)) ?xs"
    using arg_cong [OF m, of "map projr"] by (simp add: comp_def)
  have "secret_id (projr (row_to_secret_item x)) = si_id x" "live_row s (si_id x) = Some x" if x: "x \<in> set ?xs" for x
  proof -
    show "secret_id (projr (row_to_secret_item x)) = si_id x" using parsed [OF x] item_id by auto
    have "x \<in> set (secrets s)" "live_secret x" using x by (auto simp: newest_first_def)
    then show "live_row s (si_id x) = Some x" using live_rowI [OF ok] by simp
  qed
  then show ?thesis unfolding items map_map by (intro map_cong refl) (simp add: get_secret_run)
qed

text \<open>C26. The list of secrets shows a vault as it is: a listing that is shown is of a vault the user has
  access to (the selected one, if one was), holds exactly its live secrets, newest first, each with
  what its payload decrypts to under the key sealed for that user, and has changed nothing but the
  audit log.\<close>

theorem the_list_shows_the_vault:
  assumes laws: "aead_laws P" and ok: "db_ok s"
    and run: "load_secret_list P U uid mk selected s = (Inr (Listed w rows), s')"
  shows "(selected = None \<or> selected = Some (vw_id w)) \<and> has_access s uid (vw_id w) \<and> same_but_audit s s' \<and>
    (\<exists>key env. envelope_for s uid (vw_id w) = Some env \<and> sealed_as P mk key env \<and>
       map (\<lambda>r. (rv_id r, rv_value r)) rows =
         map (\<lambda>x. (si_id x, shown_value (opened_row P key x)))
           (newest_first si_created (filter (\<lambda>x. si_vault x = vw_id w \<and> live_secret x) (secrets s))))"
proof -
  from run obtain vs s0 where vs: "list_user_vaults uid s = (Inr vs, s0)"
    and rest: "(case (case selected of Some i \<Rightarrow> Some i | None \<Rightarrow> map_option vault_id (first_row (\<lambda>_. True) vs)) of
       None \<Rightarrow> ret NoVault
     | Some sid \<Rightarrow>
        (case find (\<lambda>v. vault_id v = sid) vs of
           None \<Rightarrow> ret VaultGone
         | Some v \<Rightarrow> bindE (load_rows P U uid mk v) (\<lambda>(w, rows). ret (Listed w rows)))) s0 = (Inr (Listed w rows), s')"
    unfolding load_secret_list_def bindE_returns by blast
  obtain sid where t: "(case selected of Some i \<Rightarrow> Some i | None \<Rightarrow> map_option vault_id (first_row (\<lambda>_. True) vs)) = Some sid"
    using rest by (auto simp: ret_returns split: option.splits)
  then have sel: "selected = None \<or> selected = Some sid" by (auto split: option.splits)
  obtain v where v: "find (\<lambda>v. vault_id v = sid) vs = Some v"
    and load: "load_rows P U uid mk v s0 = (Inr (w, rows), s')"
    using rest unfolding t by (auto simp: returns_iff split: option.splits)
  have s0: "s0 = s" by (rule reads_only_run [OF vault_service_reads(1) vs])
  have vid: "vault_id v = sid" using v by (auto simp: find_Some_iff)
  from load obtain ao s1 key s2 items s3 where acc: "get_vault_access_for_user uid sid s0 = (Inr ao, s1)"
    and key: "open_vault_for_user P uid sid mk s1 = (Inr key, s2)"
    and items: "list_by_vault sid s2 = (Inr items, s3)"
    and rows: "map_each items (\<lambda>i. bindE (attempt (get_secret P (secret_id i) key)) (\<lambda>r. ret (row_view U i r))) s3 = (Inr rows, s')"
    and w: "vw_id w = sid"
    by (auto simp: load_rows_def returns_iff vid)
  have s1: "s1 = s" using reads_only_run [OF vault_service_reads(2) acc] s0 by simp
  have same: "same_but_audit s s2" using open_state [OF key] s1 by simp
  have s3: "s3 = s2" using items by (simp add: list_by_vault_def listed_items)
  have ok2: "db_ok s2" by (rule keeps_run [OF vault_service_keeps(2) key]) (simp add: s1 ok)
  obtain env where env: "envelope_for s uid sid = Some env" "sealed_as P mk key env"
    using open_iff_sealed [OF laws ok opener_exists [OF key [unfolded s1]]] key s1 by blast
  have "map (\<lambda>r. (rv_id r, rv_value r)) rows =
      map (\<lambda>i. (secret_id i, shown_value (fst (get_secret P (secret_id i) key s2)))) items"
    using loaded_rows [OF rows] by (simp add: s3 row_view_def Let_def)
  also have "\<dots> = map (\<lambda>x. (si_id x, shown_value (opened_row P key x)))
      (newest_first si_created (filter (\<lambda>x. si_vault x = sid \<and> live_secret x) (secrets s2)))"
    by (rule listed_rows_open [OF ok2]) (use items in \<open>simp add: list_by_vault_def\<close>)
  finally show ?thesis
    using sel env same envelope_for_access [OF ok env(1)] loaded_rows [OF rows] s3 w
    by (intro conjI exI [of _ key] exI [of _ env]) (simp_all add: same_but_audit_def)
qed

section \<open>Duplicates\<close>

lemma count_value_filter: "count_value rows v = (if v = [] then 0 else length (filter (\<lambda>r. rv_value r = v) rows))"
proof -
  have "fold (\<lambda>r n. if rv_value r \<noteq> [] \<and> rv_value r = v then n + 1 else n) rows m =
      m + (if v = [] then 0 else length (filter (\<lambda>r. rv_value r = v) rows))" for m
    by (induction rows arbitrary: m) auto
  then show ?thesis by (simp add: count_value_def)
qed

lemma two_in_filter:
  assumes "i < length xs" and "p (xs ! i)"
  shows "1 < length (filter p xs) \<longleftrightarrow> (\<exists>j<length xs. j \<noteq> i \<and> p (xs ! j))"
proof -
  have "length (filter p xs) = card {j. j < length xs \<and> p (xs ! j)}" by (rule length_filter_conv_card)
  also have "{j. j < length xs \<and> p (xs ! j)} = insert i {j. j < length xs \<and> j \<noteq> i \<and> p (xs ! j)}"
    using assms by auto
  finally have "length (filter p xs) = Suc (card {j. j < length xs \<and> j \<noteq> i \<and> p (xs ! j)})" by simp
  moreover have "0 < card {j. j < length xs \<and> j \<noteq> i \<and> p (xs ! j)} \<longleftrightarrow> (\<exists>j<length xs. j \<noteq> i \<and> p (xs ! j))"
    by (auto simp: card_gt_0_iff)
  ultimately show ?thesis by simp
qed

lemma nth_metas: "i < length rows \<Longrightarrow> list_metas U rows ! i = meta_of U rows i (rows ! i)"
  by (simp add: list_metas_def nth_enumerate_eq)

text \<open>An entry is reported as a duplicate just when its value is not empty and another entry of the list
  has the same one.\<close>

theorem duplicates_are_the_shared_values:
  assumes "i < length rows"
  shows "is_duplicate (list_metas U rows ! i) \<longleftrightarrow>
    rv_value (rows ! i) \<noteq> [] \<and> (\<exists>j<length rows. j \<noteq> i \<and> rv_value (rows ! j) = rv_value (rows ! i))"
  using two_in_filter [of i rows "\<lambda>r. rv_value r = rv_value (rows ! i)"] assms
  by (simp add: nth_metas meta_of_def Let_def count_value_filter)

section \<open>Finding an entry\<close>

text \<open>C33. Every entry is found by the whole contents of any field it is searched by (title, type, login,
  address, URL, notes, category, tags, date, strength): the query shows it, unless a word of the
  query reads as a filter on one field such as \<open>tag:x\<close>.\<close>

theorem entries_are_found_by_their_fields:
  assumes "i < length rows" and "f \<in> set (searched_fields (rows ! i))"
    and "\<forall>w\<in>set (split_whitespace (chars_of f)). \<not> reads_as_filter w"
  shows "card_visible (chars_of f) AnyCategory AnyAudit (list_metas U rows ! i)"
proof -
  have "list_all (matches_search_term (list_metas U rows ! i)) (parse_search_terms (chars_of f))"
    by (rule field_is_found [where fs = "map chars_of (searched_fields (rows ! i))"])
       (use assms in \<open>auto simp: nth_metas meta_of_def Let_def\<close>)
  then show ?thesis by (simp add: card_visible_def)
qed

text \<open>The style of the strength badge looks for a French word in the translated label: with any
  translation of the label that has no such word, a weak entry is styled as a strong one.\<close>

theorem weak_badge_needs_french:
  assumes "\<not> sublist ''faible'' (lowercased U (tr U main_strength_weak))" and "\<not> strong_value U (rv_value r)"
    and "rv_health r = evaluate_password_strength_label U (rv_value r)"
  shows "card_health_class (card_of U w rows r) = ''badge-strong'' \<and> is_weak (meta_of U rows rank r)"
  using assms by (simp add: card_of_def meta_of_def Let_def evaluate_password_strength_label_def)

end
