(* ===== verification/Window_Witnesses.thy ===== *)
theory Window_Witnesses
  imports Auto_Lock Secret_List_Properties Demo
begin

text \<open>The properties of the main window, applied at concrete inputs.\<close>

definition demo_U :: ui_crates where
  "demo_U = \<lparr> tr = (\<lambda>k. k), json_str = (\<lambda>_ _. None), show_time = (\<lambda>_. ''2026-01-01''),
     char_upper = (\<lambda>c. 65 \<le> c \<and> c \<le> 90), char_lower = (\<lambda>c. 97 \<le> c \<and> c \<le> 122),
     char_numeric = (\<lambda>c. 48 \<le> c \<and> c \<le> 57),
     char_alnum = (\<lambda>c. 65 \<le> c \<and> c \<le> 90 \<or> 97 \<le> c \<and> c \<le> 122 \<or> 48 \<le> c \<and> c \<le> 57), lowercased = ascii_lower \<rparr>"

theorem the_list_shows_the_vault_witness:
  "\<exists>w rows s'. load_secret_list demo_P demo_U 1 ada_key None demo_db = (Inr (Listed w rows), s') \<and>
     vw_id w = 10 \<and> map (\<lambda>r. (rv_id r, rv_value r)) rows = [(20, ''hunter2'')] \<and> has_access demo_db 1 10"
proof -
  let ?m = "load_secret_list demo_P demo_U 1 ada_key None"
  have "case fst (?m demo_db) of Inr (Listed w rows) \<Rightarrow>
      vw_id w = 10 \<and> map (\<lambda>r. (rv_id r, rv_value r)) rows = [(20, ''hunter2'')] | _ \<Rightarrow> False" by code_simp
  then obtain w rows where r: "fst (?m demo_db) = Inr (Listed w rows)" "vw_id w = 10"
    "map (\<lambda>r. (rv_id r, rv_value r)) rows = [(20, ''hunter2'')]" by (auto split: sum.splits list_view.splits)
  then have run: "?m demo_db = (Inr (Listed w rows), snd (?m demo_db))" by (simp add: prod_eq_iff)
  from the_list_shows_the_vault [OF demo_laws demo_db_ok run] r run show ?thesis by metis
qed

definition demo_rows :: "secret_row_view list" where
  "demo_rows =
     [row_view demo_U \<lparr> secret_id = 20, secret_vault = 10, s_type = Password, title = Some ''Mail (perso)'',
        metadata_json = None, tags = Some ''travail'', expires_at = None, created_at = None, modified_at = None,
        usage_count = 0, storage = Inline, secret_blob = [], deleted_at = None \<rparr> (Inl (NotFound []))]"

theorem entries_are_found_by_their_fields_witness:
  "card_visible (chars_of ''Mail (perso)'') AnyCategory AnyAudit (list_metas demo_U demo_rows ! 0)"
proof (rule entries_are_found_by_their_fields)
  show "0 < length demo_rows" by (simp add: demo_rows_def)
  show "''Mail (perso)'' \<in> set (searched_fields (demo_rows ! 0))" by code_simp
  have "chars_of ''Mail (perso)'' = [77, 97, 105, 108, 32, 40, 112, 101, 114, 115, 111, 41]"
    by (simp add: chars_of_def utf8_chars.simps)
  then show "\<forall>w\<in>set (split_whitespace (chars_of ''Mail (perso)'')). \<not> reads_as_filter w"
    by (simp add: split_whitespace.simps is_whitespace_def reads_as_filter_def split_once_colon_def)
qed

text \<open>A window left alone after a login while its list is loaded, and what its timer then does.\<close>

definition fresh_session :: session_window where
  "fresh_session = snd (show_session (new_window 0 [1]))"

definition loading_session :: session_window where
  "loading_session = snd (handle Refresh fresh_session)"

lemma fresh_start: "session (snd (show_session (new_window 0 [1]))) [] fresh_session"
  unfolding fresh_session_def by (rule session_start)

text \<open>The list is loading when the user logs out: the answer that comes later is the only event that
  changes what the hidden window shows.\<close>

theorem the_lock_never_panics_witness:
  "\<exists>es w. session fresh_session es w \<and> \<not> sw_visible w \<and> under_way w = 1 \<and>
     sw_key w = [] \<and> \<not> sw_visible (snd (handle (SecretsLoaded 0 (Some [20])) w)) \<and>
     sw_cards (snd (handle (SecretsLoaded 0 (Some [20])) w)) = [(20, [1])]"
proof -
  let ?w = "snd (handle Logout loading_session)" and ?e = "SecretsLoaded 0 (Some [20])"
  have "enabled Logout loading_session" by simp
  moreover have "session fresh_session ([] @ [Refresh]) loading_session"
    unfolding loading_session_def by (rule session_step [OF session_start]) simp
  ultimately have run: "session fresh_session (([] @ [Refresh]) @ [Logout]) ?w" by (rule session_step [rotated])
  have "enabled ?e ?w" "\<not> sw_visible ?w" "under_way ?w = 1" "sw_cards (snd (handle ?e ?w)) = [(20, [1])]"
    by code_simp+
  with the_lock_never_panics [OF run [unfolded fresh_session_def] this(1) refl] run show ?thesis by blast
qed

theorem unattended_session_is_locked_witness:
  "\<exists>w'. session (snd (handle Activity loading_session)) [SecretsLoaded 0 (Some [20, 21])] w' \<and> sw_cards w' \<noteq> [] \<and>
     sw_now w' \<le> sw_now loading_session + unat (sw_timeout loading_session) \<and>
     (\<forall>i. enabled (Fires i) w' \<longrightarrow> wiped (snd (handle (Fires i) w')))"
proof -
  let ?v = "snd (handle Activity loading_session)" and ?e = "SecretsLoaded 0 (Some [20, 21])"
  let ?w = "snd (handle ?e ?v)"
  have start: "session (snd (show_session (new_window 0 [1]))) ([] @ [Refresh]) loading_session"
    unfolding loading_session_def by (rule session_step [OF fresh_start]) simp
  have armed: "sw_armed loading_session" by code_simp
  have "enabled ?e ?v" by code_simp
  then have run: "session ?v ([] @ [?e]) ?w" by (rule session_step [OF session_start])
  have vis: "\<not> shut ?w" "sw_cards ?w \<noteq> []" by code_simp+
  have "list_all unattended ([] @ [?e])" by simp
  from unattended_session_is_locked [OF start armed run this] run vis show ?thesis
    by (intro exI [of _ ?w]) simp
qed

end
