(* ===== verification/Entry_Editor.thy ===== *)
theory Entry_Editor
  imports Secret_List
begin

text \<open>
  \<open>ui/dialogs/add_edit_dialog.rs\<close>: the form in which an entry is created and edited.  What the save
  button makes of the fields, the task that stores it, and the task that fills the form with an
  existing entry.  The JSON and date crates are parameters; a text field holds a string.
\<close>

section \<open>The form\<close>

datatype dialog_mode = ModeCreate | ModeCreateInVault uuid | ModeEdit uuid

fun is_edit :: "dialog_mode \<Rightarrow> bool" where
  "is_edit (ModeEdit _) = True"
| "is_edit _ = False"

record entry_form =
  fm_title :: string
  fm_category :: string
  fm_tags :: string
  fm_type :: "32 word"
  fm_password :: string
  fm_token :: string
  fm_provider :: string
  fm_ssh_private :: string
  fm_ssh_public :: string
  fm_ssh_passphrase :: string
  fm_document :: string
  fm_mime :: string
  fm_login :: string
  fm_url :: string
  fm_notes :: string
  fm_unlimited :: bool
  fm_days :: int

text \<open>The spin button holds a number of days from 1 to 3650.\<close>

definition spin_days :: "int \<Rightarrow> int" where
  "spin_days d = max 1 (min 3650 d)"

definition blank_form :: entry_form where
  "blank_form = \<lparr> fm_title = [], fm_category = [], fm_tags = [], fm_type = dropdown_index Password, fm_password = [],
     fm_token = [], fm_provider = [], fm_ssh_private = [], fm_ssh_public = [], fm_ssh_passphrase = [], fm_document = [],
     fm_mime = [], fm_login = [], fm_url = [], fm_notes = [], fm_unlimited = False, fm_days = 90 \<rparr>"

fun stack_name_for_secret_type :: "secret_type \<Rightarrow> string" where
  "stack_name_for_secret_type Password = ''password''"
| "stack_name_for_secret_type ApiToken = ''api_token''"
| "stack_name_for_secret_type SshKey = ''ssh_key''"
| "stack_name_for_secret_type SecureDocument = ''secure_document''"

section \<open>The metadata\<close>

datatype json_value = JsonText string | JsonBool bool | JsonInt int

text \<open>\<open>object_text\<close> prints a JSON object; \<open>json_valid\<close>, \<open>json_bool\<close> and \<open>json_i64\<close> parse a text and look a key
  up in it, as \<open>json_str\<close> does.  \<open>expiry_text n\<close> is the date \<open>n\<close> days from now.\<close>

record editor_crates =
  ed_ui :: ui_crates
  object_text :: "(string \<times> json_value) list \<Rightarrow> string"
  json_valid :: "string \<Rightarrow> bool"
  json_bool :: "string \<Rightarrow> string \<Rightarrow> bool option"
  json_i64 :: "string \<Rightarrow> string \<Rightarrow> int option"
  expiry_text :: "int \<Rightarrow> string option"

text \<open>What the JSON crate documents: a printed object parses, and its keys have the values they were given.\<close>

definition json_laws :: "editor_crates \<Rightarrow> bool" where
  "json_laws E \<longleftrightarrow> (\<forall>m. distinct (map fst m) \<longrightarrow> json_valid E (object_text E m) \<and>
     (\<forall>k. json_str (ed_ui E) (object_text E m) k = (case map_of m k of Some (JsonText t) \<Rightarrow> Some t | _ \<Rightarrow> None) \<and>
          json_bool E (object_text E m) k = (case map_of m k of Some (JsonBool b) \<Rightarrow> Some b | _ \<Rightarrow> None) \<and>
          json_i64 E (object_text E m) k = (case map_of m k of Some (JsonInt n) \<Rightarrow> Some n | _ \<Rightarrow> None)))"

definition form_metadata :: "secret_type \<Rightarrow> entry_form \<Rightarrow> (string \<times> json_value) list" where
  "form_metadata ty f =
     [(''category'', JsonText (trim (fm_category f))), (''notes'', JsonText (fm_notes f)),
      (''login'', JsonText (trim (fm_login f))), (''url'', JsonText (trim (fm_url f))),
      (''validity_unlimited'', JsonBool (fm_unlimited f)), (''validity_days'', JsonInt (fm_days f))] @
     (case ty of
        ApiToken \<Rightarrow> [(''provider'', JsonText (trim (fm_provider f)))]
      | SshKey \<Rightarrow> [(''ssh_public_key'', JsonText (trim (fm_ssh_public f))),
                   (''ssh_passphrase'', JsonText (trim (fm_ssh_passphrase f)))]
      | SecureDocument \<Rightarrow> [(''document_mime'', JsonText (trim (fm_mime f)))]
      | Password \<Rightarrow> [])"

section \<open>Saving\<close>

record save_request =
  sq_title :: string
  sq_type :: secret_type
  sq_metadata :: string
  sq_tags :: "string option"
  sq_expires :: "string option"
  sq_payload :: bytes

datatype form_error = TitleRequired | UnknownType | SecretRequired

fun form_secret :: "secret_type \<Rightarrow> entry_form \<Rightarrow> string" where
  "form_secret Password f = fm_password f"
| "form_secret ApiToken f = fm_token f"
| "form_secret SshKey f = fm_ssh_private f"
| "form_secret SecureDocument f = fm_document f"

definition form_expiry :: "editor_crates \<Rightarrow> entry_form \<Rightarrow> string option" where
  "form_expiry E f = (if fm_unlimited f then None else if fm_days f \<le> 0 then None else expiry_text E (fm_days f))"

text \<open>\<open>snapshot\<close> is the password the form was filled with, which saved unchanged stands for no new value.\<close>

definition new_secret_text :: "dialog_mode \<Rightarrow> string option \<Rightarrow> secret_type \<Rightarrow> entry_form \<Rightarrow> string" where
  "new_secret_text mode snapshot ty f =
     (let raw = form_secret ty f in
      if is_edit mode \<and> ty = Password then
        (case snapshot of
           Some v \<Rightarrow> if trim raw = trim v then [] else raw
         | None \<Rightarrow> raw)
      else raw)"

definition read_form ::
  "editor_crates \<Rightarrow> dialog_mode \<Rightarrow> string option \<Rightarrow> entry_form \<Rightarrow> form_error + save_request" where
  "read_form E mode snapshot f =
     (if trim (fm_title f) = [] then Inl TitleRequired
      else case from_dropdown_index (fm_type f) of
        None \<Rightarrow> Inl UnknownType
      | Some ty \<Rightarrow>
         (let secret = new_secret_text mode snapshot ty f; tg = trim (fm_tags f) in
          if \<not> is_edit mode \<and> trim secret = [] then Inl SecretRequired
          else Inr \<lparr> sq_title = trim (fm_title f), sq_type = ty, sq_metadata = object_text E (form_metadata ty f),
                     sq_tags = (if tg = [] then None else Some tg), sq_expires = form_expiry E f,
                     sq_payload = str_bytes secret \<rparr>))"

text \<open>The vault among those of the user that lists the entry.\<close>

fun holding_vault :: "uuid \<Rightarrow> vault list \<Rightarrow> (uuid \<times> secret_item) option dbm" where
  "holding_vault sid [] = ret None"
| "holding_vault sid (v # vs) =
     bindE (list_by_vault (vault_id v)) (\<lambda>items.
     case find (\<lambda>i. secret_id i = sid) items of
       Some i \<Rightarrow> ret (Some (vault_id v, i))
     | None \<Rightarrow> holding_vault sid vs)"

fun target_vault :: "uuid \<Rightarrow> dialog_mode \<Rightarrow> uuid dbm" where
  "target_vault uid (ModeCreateInVault vid) = ret vid"
| "target_vault uid ModeCreate =
     bindE (list_user_vaults uid) (\<lambda>vs.
     bindE (ok_or (NotFound ''vault not found'') (first_row (\<lambda>_. True) vs)) (\<lambda>v. ret (vault_id v)))"
| "target_vault uid (ModeEdit sid) =
     bindE (list_user_vaults uid) (\<lambda>vs.
     bindE (holding_vault sid vs) (\<lambda>found.
     bindE (ok_or (NotFound ''secret not found'') found) (\<lambda>(vid, _). ret vid)))"

definition store_entry :: "primitives \<Rightarrow> dialog_mode \<Rightarrow> uuid \<Rightarrow> bytes option \<Rightarrow> uuid \<Rightarrow> save_request \<Rightarrow> bytes \<Rightarrow> unit dbm" where
  "store_entry P mode new_id nonce_rnd vid q vault_key =
     (case mode of
        ModeEdit sid \<Rightarrow>
          update_secret P nonce_rnd sid (Some (sq_title q)) (Some (sq_metadata q)) (sq_tags q) (sq_expires q)
            (if sq_payload q = [] then None else Some (sq_payload q)) vault_key
      | _ \<Rightarrow>
          bindE (create_secret P new_id nonce_rnd vid (sq_type q) (Some (sq_title q)) (Some (sq_metadata q))
                   (sq_tags q) (sq_expires q) (sq_payload q) vault_key) (\<lambda>_. ret ()))"

definition save_entry ::
  "primitives \<Rightarrow> uuid \<Rightarrow> bytes \<Rightarrow> dialog_mode \<Rightarrow> uuid \<Rightarrow> bytes option \<Rightarrow> save_request \<Rightarrow> unit dbm" where
  "save_entry P uid mk mode new_id nonce_rnd q =
     bindE (target_vault uid mode) (\<lambda>vid.
     bindE (get_vault_access_for_user uid vid) (\<lambda>a_opt.
     bindE (ok_or (Authorization VaultAccessDenied) a_opt) (\<lambda>a.
     bindE (require (is_edit mode \<or> owner_user_id (av_vault a) = uid \<or> can_admin (av_role a))
              (Authorization VaultSharedCreateDenied)) (\<lambda>_.
     bindE (open_vault_for_user P uid vid mk) (\<lambda>vault_key.
     store_entry P mode new_id nonce_rnd vid q vault_key)))))"

text \<open>The save button is sensitive for these contents of the form; \<open>last_score\<close> is that of the strength bar.\<close>

definition can_save :: "dialog_mode \<Rightarrow> string option \<Rightarrow> int \<Rightarrow> entry_form \<Rightarrow> bool" where
  "can_save mode snapshot last_score f =
     (let is_password = (from_dropdown_index (fm_type f) = Some Password); raw = trim (fm_password f);
          filled = (raw \<noteq> []); unchanged = (is_edit mode \<and> snapshot = Some raw) in
      if is_password \<and> filled \<and> \<not> unchanged then 4 \<le> last_score
      else if is_password \<and> \<not> filled \<and> is_edit mode then True
      else if is_password \<and> unchanged \<and> is_edit mode then True
      else if is_password \<and> \<not> filled \<and> \<not> is_edit mode then False
      else True)"

section \<open>Filling the form\<close>

definition load_entry :: "primitives \<Rightarrow> uuid \<Rightarrow> bytes \<Rightarrow> bool \<Rightarrow> uuid \<Rightarrow> (secret_item \<times> string option) dbm" where
  "load_entry P uid mk show_passwords sid =
     bindE (list_user_vaults uid) (\<lambda>vs.
     bindE (holding_vault sid vs) (\<lambda>found.
     bindE (ok_or (NotFound ''secret not found'') found) (\<lambda>(vid, item).
     if show_passwords \<and> s_type item = Password then
       bindE (open_vault_for_user P uid vid mk) (\<lambda>vault_key.
       bindE (get_secret P sid vault_key) (\<lambda>d.
       ret (item, Some (if valid_utf8 (secret_value d) then bytes_str (secret_value d) else []))))
     else ret (item, None))))"

definition fill_metadata :: "editor_crates \<Rightarrow> secret_item \<Rightarrow> string \<Rightarrow> entry_form \<Rightarrow> entry_form" where
  "fill_metadata E item raw f =
     (let s = (\<lambda>k. unwrap_or [] (json_str (ed_ui E) raw k)) in
      f\<lparr>fm_category := s ''category'', fm_login := s ''login'', fm_url := s ''url'', fm_notes := s ''notes'',
        fm_provider := s ''provider'', fm_ssh_public := s ''ssh_public_key'',
        fm_ssh_passphrase := s ''ssh_passphrase'', fm_mime := s ''document_mime'',
        fm_unlimited := unwrap_or (expires_at item = None) (json_bool E raw ''validity_unlimited''),
        fm_days := (case json_i64 E raw ''validity_days'' of
                      Some d \<Rightarrow> if d > 0 then spin_days d else fm_days f
                    | None \<Rightarrow> fm_days f)\<rparr>)"

definition setup_for_edit :: "editor_crates \<Rightarrow> secret_item \<Rightarrow> string option \<Rightarrow> entry_form \<Rightarrow> entry_form" where
  "setup_for_edit E item existing f =
     (let f = f\<lparr>fm_title := unwrap_or [] (title item), fm_tags := unwrap_or [] (tags item),
                fm_type := dropdown_index (s_type item)\<rparr>;
          f = (case metadata_json item of
                 Some raw \<Rightarrow> if json_valid E raw then fill_metadata E item raw f else f
               | None \<Rightarrow> f\<lparr>fm_unlimited := (expires_at item = None)\<rparr>) in
      case existing of
        Some v \<Rightarrow> f\<lparr>fm_password := v\<rparr>
      | None \<Rightarrow> f)"

end
