(* ===== verification/Trimming.thy ===== *)
theory Trimming
  imports Prelude
begin

text \<open>\<open>str::trim\<close> removes what it can from both ends: trimming a trimmed string changes nothing.\<close>

lemma strip_fixed: "take_prefix_of ps (strip_prefixes ps s) = None"
proof (induction ps s rule: strip_prefixes.induct)
  case (1 ps s)
  then show ?case by (cases "take_prefix_of ps s") (simp_all add: strip_prefixes.simps [of ps s])
qed

lemma strip_drops: "\<exists>k. strip_prefixes ps s = drop k s"
proof (induction ps s rule: strip_prefixes.induct)
  case (1 ps s)
  show ?case
  proof (cases "take_prefix_of ps s")
    case None
    then show ?thesis by (simp add: strip_prefixes.simps [of ps s]) (metis drop0)
  next
    case (Some r)
    then obtain n where "r = drop n s" by (auto simp: take_prefix_of_def)
    with 1 [OF Some] Some show ?thesis by (auto simp: strip_prefixes.simps [of ps s])
  qed
qed

lemma take_prefix_none: "take_prefix_of ps s = None \<longleftrightarrow> (\<forall>p\<in>set ps. p \<noteq> [] \<longrightarrow> take (length p) s \<noteq> p)"
  by (auto simp: take_prefix_of_def find_None_iff)

lemma strip_none_fixed: "take_prefix_of ps s = None \<Longrightarrow> strip_prefixes ps s = s"
  by (simp add: strip_prefixes.simps [of ps s])

lemma take_prefix_of_take: "take_prefix_of ps s = None \<Longrightarrow> take_prefix_of ps (take m s) = None"
  unfolding take_prefix_none by (metis length_take min.absorb4 min.cobounded1 nle_le take_all take_take)

lemma trim_trim [simp]: "trim (trim s) = trim s"
proof -
  let ?t = "strip_prefixes white_space s"
  obtain k where "strip_prefixes (map rev white_space) (rev ?t) = drop k (rev ?t)" using strip_drops by blast
  then have e: "trim s = take (length ?t - k) ?t"
    by (simp add: trim_def trim_end_def trim_start_def rev_drop)
  have "take_prefix_of white_space (trim s) = None"
    unfolding e by (rule take_prefix_of_take) (rule strip_fixed)
  then have "trim_start (trim s) = trim s" by (simp add: trim_start_def strip_none_fixed)
  moreover have "trim_end (trim s) = trim s"
    by (simp add: trim_def trim_end_def strip_none_fixed strip_fixed)
  ultimately show ?thesis by (simp add: trim_def)
qed

end
