(* ===== verification/Entry_Editor_Properties.thy ===== *)
theory Entry_Editor_Properties
  imports Entry_Editor Trimming System Secret_List_Properties
begin

text \<open>
  What the form of an entry achieves over the services: an entry saved from it is filled into it again as
  it was typed, and saving it unchanged leaves the secret alone.
\<close>

section \<open>Finding the entry among the vaults\<close>

lemma listing_user_same:
  assumes "listing_user uid s = (Inr u, s1)" and "users s' = users s"
  shows "listing_user uid s' = (Inr u, s')"
  using assms
proof -
  have read: "user_get_by_id uid s = (Inr (Some u), s) \<Longrightarrow> user_get_by_id uid s' = (Inr (Some u), s')" for u
    using assms(2)
    by (auto simp: user_get_by_id_def fetch_optional_def bindE_run run_simps optional_user_def split: option.splits sum.splits)
  show ?thesis
    using assms(1) read unfolding listing_user_def returns_iff require_user_returns by blast
qed

lemma accessible_listed:
  assumes "db_ok s" and "has_access s uid vid"
  obtains recs where "vault_get_accessible uid s = (Inr recs, s)" "vid \<in> vault_id ` av_vault ` set recs"
proof -
  from access_queries_return(1) [OF assms(1), of uid] obtain recs where
    recs: "map row_to_accessible_vault (sort_key w_name (filter (\<lambda>w. w_user w = uid) (accessible_vaults s))) = map Inr recs"
    by (auto simp: returns_def vault_get_accessible_def bindE_run run_simps)
  from assms(2) obtain w where w: "w \<in> set (accessible_vaults s)" "w_user w = uid" "w_vault w = vid"
    using accessible_iff_has_access by metis
  then have "row_to_accessible_vault w \<in> set (map Inr recs)" unfolding recs [symmetric] by simp
  then obtain a where "a \<in> set recs" "row_to_accessible_vault w = Inr a" by auto
  then have "vid \<in> vault_id ` av_vault ` set recs"
    using w(3) by (force simp: row_to_accessible_vault_def image_iff split: option.splits)
  with that recs show thesis by (simp add: vault_get_accessible_def bindE_run run_simps)
qed

lemma holding_found:
  assumes "\<And>v. v \<in> set vs \<Longrightarrow> \<exists>items. list_by_vault (vault_id v) s = (Inr items, s) \<and>
      find (\<lambda>i. secret_id i = sid) items = (if vault_id v = vid then Some item else None)"
    and "vid \<in> vault_id ` set vs"
  shows "holding_vault sid vs s = (Inr (Some (vid, item)), s)"
  using assms
proof (induction vs)
  case (Cons v vs)
  from Cons.prems(1) [of v] obtain items where "list_by_vault (vault_id v) s = (Inr items, s)"
    "find (\<lambda>i. secret_id i = sid) items = (if vault_id v = vid then Some item else None)" by auto
  with Cons show ?case by (auto simp: bindE_run run_simps)
qed simp

lemma find_listed:
  assumes ok: "db_ok s" and r: "r \<in> set (secrets s)" "live_secret r" "row_to_secret_item r = Inr item"
    and items: "secret_list_by_vault v s = (Inr items, s)"
  shows "find (\<lambda>i. secret_id i = si_id r) items = (if v = si_vault r then Some item else None)"
proof -
  let ?rows = "newest_first si_created (filter (\<lambda>r. si_vault r = v \<and> live_secret r) (secrets s))"
  have m: "map row_to_secret_item ?rows = map Inr items" using items by (simp add: listed_items)
  have mem: "x \<in> set ?rows \<longleftrightarrow> x \<in> set (secrets s) \<and> si_vault x = v \<and> live_secret x" for x
    by (auto simp: newest_first_def)
  have from_row: "\<exists>x\<in>set ?rows. row_to_secret_item x = Inr i" if "i \<in> set items" for i
  proof -
    have "Inr i \<in> set (map row_to_secret_item ?rows)" unfolding m using that by simp
    then show ?thesis by auto
  qed
  have only: "i = item \<and> si_vault r = v" if "i \<in> set items" "secret_id i = si_id r" for i
  proof -
    from from_row [OF that(1)] obtain x where x: "x \<in> set ?rows" "row_to_secret_item x = Inr i" by blast
    then have "x = r" using id_row_unique [OF ok _ r(1)] that(2) item_id [OF x(2)] mem by simp
    with x mem r(3) show ?thesis by simp
  qed
  show ?thesis
  proof (cases "find (\<lambda>i. secret_id i = si_id r) items")
    case None
    have "v \<noteq> si_vault r"
    proof
      assume "v = si_vault r"
      then have "r \<in> set ?rows" using r mem by blast
      then have "row_to_secret_item r \<in> set (map Inr items)" unfolding m [symmetric] by simp
      then have "item \<in> set items" using r(3) by auto
      with None item_id [OF r(3)] show False by (simp add: find_None_iff)
    qed
    with None show ?thesis by simp
  next
    case (Some i)
    then have "i \<in> set items" "secret_id i = si_id r" by (auto simp: find_Some_iff)
    with only [OF this] Some show ?thesis by simp
  qed
qed

section \<open>Saving and loading\<close>

lemma envelope_same: "vaults s' = vaults s \<Longrightarrow> shares s' = shares s \<Longrightarrow> envelope_for s' uid vid = envelope_for s uid vid"
  unfolding envelope_for_def by presburger

lemma holding_reads: "reads_only (holding_vault sid vs)"
proof (induction vs)
  case (Cons v vs)
  then show ?case unfolding holding_vault.simps list_by_vault_def
    by (intro step_intros) (auto intro!: step_intros split: option.split)
qed (simp add: step_intros)

lemma target_reads: "reads_only (target_vault uid mode)"
  by (cases mode) (auto intro!: step_intros holding_reads split: prod.split)

lemma save_entry_keeps: "keeps db_ok (save_entry P uid mk mode new_id nr q)"
  unfolding save_entry_def store_entry_def
  by (intro step_intros keeps_reads [OF target_reads] keeps_reads [OF vault_service_reads(2)]) (auto intro!: step_intros split: dialog_mode.split)

text \<open>A save that returns has found a vault of the user whose envelope opens under the master key.\<close>

lemma save_opens:
  assumes laws: "aead_laws P" and ok: "db_ok s"
    and run: "save_entry P uid mk mode new_id nr q s = (Inr (), s')"
  obtains vid key env s1 u where "same_but_audit s s1" "db_ok s1" "envelope_for s uid vid = Some env"
    "sealed_as P mk key env" "listing_user uid s = (Inr u, s)" "uid \<in> set (user_ids s)"
    "store_entry P mode new_id nr vid q key s1 = (Inr (), s')"
proof -
  from run obtain vid t ao t1 t2 t3 t4 a key where target: "target_vault uid mode s = (Inr vid, t)"
    and acc: "get_vault_access_for_user uid vid t = (Inr ao, t1)"
    and pure: "ok_or (Authorization VaultAccessDenied) ao t1 = (Inr a, t2)"
    "require (is_edit mode \<or> owner_user_id (av_vault a) = uid \<or> can_admin (av_role a))
              (Authorization VaultSharedCreateDenied) t2 = (Inr (), t3)"
    and open_run: "open_vault_for_user P uid vid mk t3 = (Inr key, t4)"
    and step: "store_entry P mode new_id nr vid q key t4 = (Inr (), s')"
    unfolding save_entry_def bindE_returns by auto
  have t: "t = s" by (rule reads_only_run [OF target_reads target])
  with reads_only_run [OF vault_service_reads(2) acc] have "t1 = s" by simp
  with pure have t3: "t3 = s" by (auto simp: run_simps split: option.splits if_splits)
  obtain u t0 where lu: "listing_user uid s = (Inr u, t0)"
    using acc t unfolding get_vault_access_for_user_def bindE_returns by blast
  have "t0 = s" using reads_only_run [OF vault_service_helpers_read(3) lu] .
  have user: "uid \<in> set (user_ids s)" using opener_exists open_run t3 by blast
  obtain env where "envelope_for s uid vid = Some env" "sealed_as P mk key env"
    using open_iff_sealed [OF laws ok user] open_run t3 by blast
  moreover have "db_ok t4" by (rule keeps_run [OF vault_service_keeps(2) open_run]) (simp add: t3 ok)
  moreover have "same_but_audit s t4" using open_state [OF open_run] t3 by simp
  ultimately show thesis using that lu step user \<open>t0 = s\<close> by blast
qed

text \<open>An entry whose vault opens for the user is found and opened.\<close>

lemma load_entry_run:
  assumes laws: "aead_laws P" and ok: "db_ok s" and uses: "counted_uses s" "\<forall>i\<in>set (secrets s). si_usage i < 2 ^ 32"
    and user: "listing_user uid s = (Inr u, s)" "uid \<in> set (user_ids s)"
    and r: "live_row s sid = Some r" "row_to_secret_item r = Inr item"
    and env: "envelope_for s uid (si_vault r) = Some env" "sealed_as P mk key env"
    and d: "opened_row P key r = Inr d"
  shows "\<exists>s'. same_but_audit s s' \<and> load_entry P uid mk show_pw sid s =
    (Inr (item, if show_pw \<and> s_type item = Password
                then Some (if valid_utf8 (secret_value d) then bytes_str (secret_value d) else []) else None), s')"
proof -
  note row = live_rowD [OF r(1)]
  obtain recs where recs: "vault_get_accessible uid s = (Inr recs, s)" "si_vault r \<in> vault_id ` av_vault ` set recs"
    by (rule accessible_listed [OF ok envelope_for_access [OF ok env(1)]])
  have vs: "list_user_vaults uid s = (Inr (map av_vault recs), s)"
    using user(1) recs(1) by (simp add: list_user_vaults_def bindE_run run_simps)
  have found: "holding_vault sid (map av_vault recs) s = (Inr (Some (si_vault r, item)), s)"
  proof (rule holding_found)
    fix v
    obtain items where "fst (secret_list_by_vault (vault_id v) s) = Inr items"
      using secret_queries_return(2) [OF ok uses(1)] uses(2) unfolding returns_def by blast
    then have items: "secret_list_by_vault (vault_id v) s = (Inr items, s)"
      using run_ok [of "secret_list_by_vault (vault_id v)" s] listed_items by metis
    show "\<exists>items. list_by_vault (vault_id v) s = (Inr items, s) \<and>
        find (\<lambda>i. secret_id i = sid) items = (if vault_id v = si_vault r then Some item else None)"
      using items find_listed [OF ok _ _ r(2) items] row by (auto simp: list_by_vault_def)
  qed (use recs(2) in auto)
  obtain s' where o: "open_vault_for_user P uid (si_vault r) mk s = (Inr key, s')"
    using open_iff_sealed [OF laws ok user(2)] env by blast
  have same: "same_but_audit s s'" by (rule open_state [OF o])
  then have "get_secret P sid key s' = (Inr d, s')" using r(1) d by (simp add: get_secret_run live_row_same)
  then show ?thesis using same o
    by (auto simp: load_entry_def vs found bindE_run run_simps same_but_audit_def)
qed

section \<open>The round trip of an entry\<close>

text \<open>What the form shows of an entry that was typed as \<open>f\<close>: the fields that are stored trimmed are
  trimmed, those of the other types are blank, and so are the secret values other than a password.\<close>

definition reopened :: "entry_form \<Rightarrow> entry_form" where
  "reopened f =
     (let ty = from_dropdown_index (fm_type f); for = (\<lambda>t v. if ty = Some t then trim v else []) in
      f\<lparr>fm_title := trim (fm_title f), fm_category := trim (fm_category f), fm_tags := trim (fm_tags f),
        fm_login := trim (fm_login f), fm_url := trim (fm_url f),
        fm_password := (if ty = Some Password then fm_password f else []),
        fm_token := [], fm_ssh_private := [], fm_document := [],
        fm_provider := for ApiToken (fm_provider f), fm_ssh_public := for SshKey (fm_ssh_public f),
        fm_ssh_passphrase := for SshKey (fm_ssh_passphrase f), fm_mime := for SecureDocument (fm_mime f)\<rparr>)"

text \<open>The password is shown only if the preference of the user says so, which is off at first.\<close>

definition shown_form :: "bool \<Rightarrow> entry_form \<Rightarrow> entry_form" where
  "shown_form show_pw f = (if show_pw then reopened f else (reopened f)\<lparr>fm_password := []\<rparr>)"

lemma form_keys: "distinct (map fst (form_metadata ty f))"
  by (cases ty) (simp_all add: form_metadata_def)

lemma spin_in_range: "1 \<le> d \<Longrightarrow> d \<le> 3650 \<Longrightarrow> spin_days d = d"
  by (simp add: spin_days_def)

lemma read_form_request:
  assumes "read_form E mode snapshot f = Inr q"
  obtains ty where "from_dropdown_index (fm_type f) = Some ty" "trim (fm_title f) \<noteq> []"
    "q = \<lparr> sq_title = trim (fm_title f), sq_type = ty, sq_metadata = object_text E (form_metadata ty f),
           sq_tags = (if trim (fm_tags f) = [] then None else Some (trim (fm_tags f))),
           sq_expires = form_expiry E f, sq_payload = str_bytes (new_secret_text mode snapshot ty f) \<rparr>"
    "is_edit mode \<or> trim (new_secret_text mode snapshot ty f) \<noteq> []"
  using assms by (auto simp: read_form_def Let_def split: if_splits option.splits)

lemma metadata_read_back:
  assumes "json_laws E"
  shows "json_valid E (object_text E (form_metadata ty f))"
    "json_str (ed_ui E) (object_text E (form_metadata ty f)) k =
       (case map_of (form_metadata ty f) k of Some (JsonText t) \<Rightarrow> Some t | _ \<Rightarrow> None)"
    "json_bool E (object_text E (form_metadata ty f)) k =
       (case map_of (form_metadata ty f) k of Some (JsonBool b) \<Rightarrow> Some b | _ \<Rightarrow> None)"
    "json_i64 E (object_text E (form_metadata ty f)) k =
       (case map_of (form_metadata ty f) k of Some (JsonInt n) \<Rightarrow> Some n | _ \<Rightarrow> None)"
  using assms form_keys unfolding json_laws_def by blast+

lemma form_read_back:
  assumes laws: "json_laws E" and days: "1 \<le> fm_days f" "fm_days f \<le> 3650"
    and ty: "from_dropdown_index (fm_type f) = Some ty"
    and item: "s_type item = ty" "title item = Some (trim (fm_title f))"
      "metadata_json item = Some (object_text E (form_metadata ty f))"
      "tags item = (if trim (fm_tags f) = [] then None else Some (trim (fm_tags f)))"
  shows "setup_for_edit E item (if show_pw \<and> ty = Password then Some (fm_password f) else None) blank_form = shown_form show_pw f"
proof -
  have "dropdown_index ty = fm_type f" by (rule dropdown.dec_canonical [OF ty])
  then show ?thesis
    using ty days
    unfolding setup_for_edit_def Let_def item option.case if_P [OF metadata_read_back(1) [OF laws]]
      fill_metadata_def metadata_read_back(2-) [OF laws]
    by (cases f; cases ty; cases show_pw)
       (simp_all add: shown_form_def reopened_def Let_def form_metadata_def unwrap_or_def spin_in_range blank_form_def)
qed

text \<open>C14. An entry saved from the form is filled into the form again as it was typed: when the save of a new
  entry returns, and no usage counter has outgrown \<open>u32\<close>, the task that loads it finds it among the vaults of
  the user and fills a fresh form with every field of the type that was chosen (trimmed, but for the notes).
  The password is given back to the byte if the user lets passwords be shown, and left blank if not, as the
  token, the private key and the document always are; and in either case the stored secret opens with the
  key of its vault to what was typed, to the byte.\<close>

theorem saved_entry_reopens_as_typed:
  assumes laws: "aead_laws P" "json_laws E" and nonce: "length n = NONCE_LEN" and ok: "db_ok s"
    and uses: "counted_uses s" "\<forall>i\<in>set (secrets s). si_usage i < 2 ^ 32"
    and form: "\<not> is_edit mode" "read_form E mode None f = Inr q"
    and typed: "1 \<le> fm_days f" "fm_days f \<le> 3650" "valid_utf8 (str_bytes (fm_password f))"
    and run: "save_entry P uid mk mode new_id (Some n) q s = (Inr (), s')"
  shows "\<exists>item pw s'' key t d. load_entry P uid mk show_pw new_id s' = (Inr (item, pw), s'') \<and>
     setup_for_edit E item pw blank_form = shown_form show_pw f \<and>
     open_vault_for_user P uid (secret_vault item) mk s' = (Inr key, t) \<and> get_secret P new_id key t = (Inr d, t) \<and>
     secret_value d = str_bytes (form_secret (s_type item) f)"
proof -
  from read_form_request [OF form(2)] obtain ty where ty: "from_dropdown_index (fm_type f) = Some ty"
    and q: "q = \<lparr> sq_title = trim (fm_title f), sq_type = ty, sq_metadata = object_text E (form_metadata ty f),
           sq_tags = (if trim (fm_tags f) = [] then None else Some (trim (fm_tags f))),
           sq_expires = form_expiry E f, sq_payload = str_bytes (form_secret ty f) \<rparr>"
    using form(1) by (auto simp: new_secret_text_def Let_def)
  obtain vid key env s1 u where s1: "same_but_audit s s1" "db_ok s1" and env: "envelope_for s uid vid = Some env"
    "sealed_as P mk key env" and user: "listing_user uid s = (Inr u, s)" "uid \<in> set (user_ids s)"
    and stored: "store_entry P mode new_id (Some n) vid q key s1 = (Inr (), s')"
    by (rule save_opens [OF laws(1) ok run])
  from stored form(1) obtain i where cr: "create_secret P new_id (Some n) vid ty (Some (sq_title q)) (Some (sq_metadata q))
      (sq_tags q) (sq_expires q) (sq_payload q) key s1 = (Inr i, s')"
    by (cases mode) (auto simp: store_entry_def returns_iff q)
  from create_secret_effect [OF cr] obtain p where p: "encrypt P (Some n) (sq_payload q) key = Inr p"
    and i: "i = \<lparr> secret_id = new_id, secret_vault = vid, s_type = ty, title = Some (sq_title q),
           metadata_json = Some (sq_metadata q), tags = sq_tags q, expires_at = sq_expires q, created_at = None,
           modified_at = None, usage_count = 0, storage = blob_storage_for_type ty,
           secret_blob = serialize_payload p, deleted_at = None \<rparr>"
    and same: "same_but_audit (s1\<lparr>secrets := secrets s1 @ [new_secret_row (clock s1) i (serialize_payload p)]\<rparr>) s'" .
  let ?r = "new_secret_row (clock s1) i (serialize_payload p)"
  have secs: "secrets s' = secrets s @ [?r]" and tables: "users s' = users s" "vaults s' = vaults s" "shares s' = shares s"
    using same s1(1) by (auto simp: same_but_audit_def)
  have ok': "db_ok s'" by (rule keeps_run [OF secret_service_keeps(1) cr s1(2)])
  have r: "si_id ?r = new_id" "live_secret ?r" "si_usage ?r = 0" "si_vault ?r = vid"
    by (simp_all add: new_secret_row_def live_secret_def i)
  have d: "opened_row P key ?r = Inr \<lparr> ds_id = new_id, ds_vault = vid, ds_type = ty,
      ds_storage = blob_storage_for_type ty, secret_value = sq_payload q \<rparr>"
    using opened_sealed [OF laws(1) nonce p new_row_reads_back] by (simp add: i)
  have uses': "counted_uses s'" "\<forall>i\<in>set (secrets s'). si_usage i < 2 ^ 32"
    using uses r(3) by (auto simp: secs counted_uses_def)
  have env': "envelope_for s' uid (si_vault ?r) = Some env" and user': "uid \<in> set (user_ids s')"
    using env(1) user(2) by (simp_all add: r(4) envelope_same [OF tables(2,3)] user_ids_def tables(1))
  have row: "live_row s' new_id = Some ?r" by (rule live_rowI [OF ok' _ r(2,1)]) (simp add: secs)
  let ?item = "i\<lparr>created_at := Some (clock s1), modified_at := Some (clock s1)\<rparr>"
  let ?pw = "if show_pw \<and> ty = Password then Some (fm_password f) else None"
  from load_entry_run [OF laws(1) ok' uses' listing_user_same [OF user(1) tables(1)] user' row new_row_reads_back env' env(2) d,
      of show_pw]
  obtain s'' where load: "load_entry P uid mk show_pw new_id s' = (Inr (?item, ?pw), s'')"
    using typed(3) by (cases ty) (auto simp: i q)
  have fill: "setup_for_edit E ?item ?pw blank_form = shown_form show_pw f"
    by (rule form_read_back [OF laws(2) typed(1,2) ty]) (simp_all add: i q)
  have "\<exists>t. open_vault_for_user P uid vid mk s' = (Inr key, t)"
    unfolding open_iff_sealed [OF laws(1) ok' user'] using env' env(2) r(4) by simp
  then obtain t where o: "open_vault_for_user P uid (secret_vault ?item) mk s' = (Inr key, t)" by (auto simp: i)
  have "get_secret P new_id key t = (Inr \<lparr> ds_id = new_id, ds_vault = vid, ds_type = ty,
      ds_storage = blob_storage_for_type ty, secret_value = sq_payload q \<rparr>, t)"
    using row d live_row_same [OF open_state [OF o]] by (simp add: get_secret_run)
  moreover have "sq_payload q = str_bytes (form_secret (s_type ?item) f)" by (simp add: i q)
  ultimately show ?thesis using load fill o
    by (intro exI conjI) (assumption | simp)+
qed

lemma reopened_fields:
  "fm_title (reopened f) = trim (fm_title f)" "fm_tags (reopened f) = trim (fm_tags f)" "fm_type (reopened f) = fm_type f"
  "fm_unlimited (reopened f) = fm_unlimited f" "fm_days (reopened f) = fm_days f"
  by (simp_all add: reopened_def Let_def)

text \<open>The form of an entry that was opened, whatever its row holds.\<close>

lemma opened_form:
  "fm_title (setup_for_edit E item pw blank_form) = unwrap_or [] (title item)"
  "fm_tags (setup_for_edit E item pw blank_form) = unwrap_or [] (tags item)"
  "fm_type (setup_for_edit E item pw blank_form) = dropdown_index (s_type item)"
  "fm_token (setup_for_edit E item pw blank_form) = []" "fm_ssh_private (setup_for_edit E item pw blank_form) = []"
  "fm_document (setup_for_edit E item pw blank_form) = []"
  "fm_password (setup_for_edit E item pw blank_form) = unwrap_or [] pw"
  "setup_for_edit E item pw blank_form = (setup_for_edit E item None blank_form)\<lparr>fm_password := unwrap_or [] pw\<rparr>"
  by (auto simp: setup_for_edit_def fill_metadata_def Let_def blank_form_def unwrap_or_def split: option.split)

lemma unchanged_secret:
  assumes "pw = (if show_pw \<and> ty = Password then Some v else None)" and "ty = s_type item"
  shows "new_secret_text (ModeEdit sid) pw ty (setup_for_edit E item pw blank_form) = []"
  using assms by (cases ty) (auto simp: new_secret_text_def opened_form(1-7) unwrap_or_def)

lemma item_texts: "row_to_secret_item r = Inr i \<Longrightarrow> title i = si_title r \<and> metadata_json i = si_meta r \<and> tags i = si_tags r"
  by (auto simp: row_to_secret_item_def split: if_splits sum.splits)

lemma json_laws_later [simp]: "json_laws (E\<lparr>expiry_text := later\<rparr>) = json_laws E"
  by (simp add: json_laws_def)

text \<open>C15. Saving an entry that was opened in the form and left as it was encrypts nothing anew: whatever its row
  holds, the secret stays as it is, and the save stores the title and the tags trimmed, the metadata the form
  shows, and an expiry counted from now.  Of a row that holds what the form stores (that of any entry saved
  from the form) nothing changes but the expiry: the number of days in the form is counted again from the
  day of the save.\<close>

theorem saving_unchanged_only_renews_the_expiry:
  assumes laws: "aead_laws P" "json_laws E" and ok: "db_ok s"
    and row: "live_row s sid = Some r" "row_to_secret_item r = Inr item"
    and opened: "pw = (if show_pw \<and> s_type item = Password then Some v else None)"
    and again: "read_form E (ModeEdit sid) pw (setup_for_edit E item pw blank_form) = Inr q"
    and run: "save_entry P uid mk (ModeEdit sid) new_id nr q s = (Inr (), s')"
  shows "same_but_audit (s\<lparr>secrets := update_rows (\<lambda>x. x = r)
       (\<lambda>x. x\<lparr>si_title := Some (sq_title q), si_meta := Some (sq_metadata q), si_tags := sq_tags q, si_expires := sq_expires q\<rparr>)
       (secrets s)\<rparr>) s' \<and>
     sq_title q = trim (unwrap_or [] (si_title r)) \<and> unwrap_or [] (sq_tags q) = trim (unwrap_or [] (si_tags r)) \<and>
     (\<forall>mode f q0 earlier. \<not> is_edit mode \<and> read_form (E\<lparr>expiry_text := earlier\<rparr>) mode None f = Inr q0 \<and>
        1 \<le> fm_days f \<and> fm_days f \<le> 3650 \<and> sq_type q0 = s_type item \<and>
        si_title r = Some (sq_title q0) \<and> si_meta r = Some (sq_metadata q0) \<and> si_tags r = sq_tags q0 \<longrightarrow>
        same_but_audit (s\<lparr>secrets := update_rows (\<lambda>x. x = r) (\<lambda>x. x\<lparr>si_expires := form_expiry E f\<rparr>) (secrets s)\<rparr>) s')"
proof (intro conjI allI impI)
  let ?g = "setup_for_edit E item pw blank_form" and ?ty = "s_type item"
  have ty: "from_dropdown_index (fm_type ?g) = Some ?ty" by (simp add: opened_form(3) dropdown.dec_enc)
  obtain ty' where "from_dropdown_index (fm_type ?g) = Some ty'" and
    "q = \<lparr> sq_title = trim (fm_title ?g), sq_type = ty', sq_metadata = object_text E (form_metadata ty' ?g),
           sq_tags = (if trim (fm_tags ?g) = [] then None else Some (trim (fm_tags ?g))),
           sq_expires = form_expiry E ?g, sq_payload = str_bytes (new_secret_text (ModeEdit sid) pw ty' ?g) \<rparr>"
    by (rule read_form_request [OF again])
  with ty unchanged_secret [OF opened refl, of sid E] have q: "q = \<lparr> sq_title = trim (fm_title ?g), sq_type = ?ty,
      sq_metadata = object_text E (form_metadata ?ty ?g), sq_tags = (if trim (fm_tags ?g) = [] then None else Some (trim (fm_tags ?g))),
      sq_expires = form_expiry E ?g, sq_payload = [] \<rparr>"
    by (simp add: str_bytes_code)
  show "sq_title q = trim (unwrap_or [] (si_title r))" "unwrap_or [] (sq_tags q) = trim (unwrap_or [] (si_tags r))"
    using item_texts [OF row(2)] by (auto simp: q opened_form(1,2) unwrap_or_def)
  let ?set = "\<lambda>x. x\<lparr>si_title := Some (sq_title q), si_meta := Some (sq_metadata q), si_tags := sq_tags q, si_expires := sq_expires q\<rparr>"
  obtain vid key s1 where s1: "same_but_audit s s1" "db_ok s1"
    and stored: "store_entry P (ModeEdit sid) new_id nr vid q key s1 = (Inr (), s')"
    by (rule save_opens [OF laws(1) ok run])
  have "live_row s1 sid = Some r" using row(1) live_row_same [OF s1(1)] by simp
  moreover have "sq_payload q = []" by (simp add: q)
  ultimately have s': "s' = s1\<lparr>secrets := update_rows (\<lambda>x. si_id x = sid \<and> live_secret x)
      (with_metadata (Some (sq_title q)) (Some (sq_metadata q)) (sq_tags q) (sq_expires q)) (secrets s1)\<rparr>"
    using stored by (simp add: store_entry_def update_secret_def metadata_run [OF s1(2)] bindE_run run_simps)
  have only: "si_id x = sid \<and> live_secret x \<longleftrightarrow> x = r" if "x \<in> set (secrets s)" for x
    using id_row_unique [OF ok that, of r] live_rowD [OF row(1)] by metis
  have "update_rows (\<lambda>x. si_id x = sid \<and> live_secret x)
      (with_metadata (Some (sq_title q)) (Some (sq_metadata q)) (sq_tags q) (sq_expires q)) (secrets s) =
    update_rows (\<lambda>x. x = r) ?set (secrets s)"
    unfolding update_rows_def with_metadata_def using only by (intro map_cong refl) auto
  with s1(1) show frame: "same_but_audit (s\<lparr>secrets := update_rows (\<lambda>x. x = r) ?set (secrets s)\<rparr>) s'"
    by (simp add: s' same_but_audit_def)
  fix mode f q0 earlier
  assume "\<not> is_edit mode \<and> read_form (E\<lparr>expiry_text := earlier\<rparr>) mode None f = Inr q0 \<and>
        1 \<le> fm_days f \<and> fm_days f \<le> 3650 \<and> sq_type q0 = ?ty \<and>
        si_title r = Some (sq_title q0) \<and> si_meta r = Some (sq_metadata q0) \<and> si_tags r = sq_tags q0"
  then have f: "read_form (E\<lparr>expiry_text := earlier\<rparr>) mode None f = Inr q0" "1 \<le> fm_days f" "fm_days f \<le> 3650"
    "sq_type q0 = ?ty" and r: "si_title r = Some (sq_title q0)" "si_meta r = Some (sq_metadata q0)" "si_tags r = sq_tags q0"
    by blast+
  obtain ty' where t': "from_dropdown_index (fm_type f) = Some ty'"
    "q0 = \<lparr> sq_title = trim (fm_title f), sq_type = ty',
           sq_metadata = object_text (E\<lparr>expiry_text := earlier\<rparr>) (form_metadata ty' f),
           sq_tags = (if trim (fm_tags f) = [] then None else Some (trim (fm_tags f))),
           sq_expires = form_expiry (E\<lparr>expiry_text := earlier\<rparr>) f, sq_payload = str_bytes (new_secret_text mode None ty' f) \<rparr>"
    by (rule read_form_request [OF f(1)])
  have same: "ty' = ?ty" using f(4) unfolding t'(2) by simp
  have fty: "from_dropdown_index (fm_type f) = Some ?ty" using t'(1) same by simp
  have q0: "sq_title q0 = trim (fm_title f)" "sq_metadata q0 = object_text E (form_metadata ?ty f)"
      "sq_tags q0 = (if trim (fm_tags f) = [] then None else Some (trim (fm_tags f)))"
    unfolding t'(2) same by simp_all
  have "setup_for_edit E item (if False \<and> ?ty = Password then Some (fm_password f) else None) blank_form = shown_form False f"
    by (rule form_read_back [OF laws(2) f(2,3) fty refl]) (use item_texts [OF row(2)] r q0 in auto)
  then have g: "?g = (reopened f)\<lparr>fm_password := unwrap_or [] pw\<rparr>"
    using opened_form(8) [of E item pw] by (simp add: shown_form_def)
  have meta: "form_metadata ?ty ?g = form_metadata ?ty f" unfolding g using fty
    by (cases "s_type item") (simp_all add: form_metadata_def reopened_def Let_def)
  have "sq_title q = sq_title q0" "sq_metadata q = sq_metadata q0" "sq_tags q = sq_tags q0" "sq_expires q = form_expiry E f"
    unfolding q save_request.simps q0 meta
    by (simp_all add: g reopened_fields form_expiry_def)
  then have "update_rows (\<lambda>x. x = r) ?set (secrets s) =
      update_rows (\<lambda>x. x = r) (\<lambda>x. x\<lparr>si_expires := form_expiry E f\<rparr>) (secrets s)"
    unfolding update_rows_def using r by (intro map_cong refl) auto
  with frame show "same_but_audit (s\<lparr>secrets := update_rows (\<lambda>x. x = r) (\<lambda>x. x\<lparr>si_expires := form_expiry E f\<rparr>) (secrets s)\<rparr>) s'"
    by simp
qed

text \<open>An edit keeps no other key of the metadata: what is stored holds the form's keys alone, so an e-mail
  address or the source of an import is gone after the first edit.\<close>

theorem an_edit_drops_other_metadata:
  assumes "json_laws E" and "read_form E mode snapshot f = Inr q"
    and "k \<notin> {''category'', ''notes'', ''login'', ''url'', ''validity_unlimited'', ''validity_days'', ''provider'',
      ''ssh_public_key'', ''ssh_passphrase'', ''document_mime''}"
  shows "json_str (ed_ui E) (sq_metadata q) k = None"
proof -
  from read_form_request [OF assms(2)] obtain ty where "sq_metadata q = object_text E (form_metadata ty f)"
    by (metis save_request.select_convs(3))
  moreover have "map_of (form_metadata ty f) k = None" using assms(3) by (cases ty) (simp_all add: form_metadata_def)
  ultimately show ?thesis by (simp add: metadata_read_back [OF assms(1)])
qed

end
