(* ===== verification/Trash_Dialog.thy ===== *)
theory Trash_Dialog
  imports Secret_List
begin

text \<open>
  The trash (\<open>ui/dialogs/trash_dialog.rs\<close>): what it lists, the two actions of a row, and the button that
  empties it.  A time is shown by its parts when its text is long enough.
\<close>

section \<open>The list\<close>

record trash_row =
  tw_id :: uuid
  tw_vault :: uuid
  tw_title :: string
  tw_type_label :: string
  tw_login :: string
  tw_deleted :: "timestamp option"

definition trash_row_of :: "ui_crates \<Rightarrow> secret_item \<Rightarrow> trash_row" where
  "trash_row_of U i = \<lparr> tw_id = secret_id i, tw_vault = secret_vault i,
     tw_title = unwrap_or (tr U ''trash-secret-fallback-title'') (title i), tw_type_label = tr U (snd (type_icon (s_type i))),
     tw_login = meta_field U i ''login'', tw_deleted = deleted_at i \<rparr>"

definition load_trash :: "ui_crates \<Rightarrow> uuid \<Rightarrow> trash_row list dbm" where
  "load_trash U uid = bindE (list_all_trash_by_user uid) (\<lambda>items. ret (map (trash_row_of U) items))"

definition row_meta :: "trash_row \<Rightarrow> string \<times> string option" where
  "row_meta r = (tw_type_label r, if tw_login r = [] then None else Some (tw_login r))"

datatype deleted_text = DeletedAt string string | DeletedRaw string

definition deleted_label :: "ui_crates \<Rightarrow> trash_row \<Rightarrow> deleted_text option" where
  "deleted_label U r =
     (case tw_deleted r of
        None \<Rightarrow> None
      | Some t \<Rightarrow>
          (let raw = show_time U t in
           if 16 \<le> length raw then Some (DeletedAt (take 10 raw) (take 5 (drop 11 raw))) else Some (DeletedRaw raw)))"

datatype trash_page = TrashRows "trash_row list" | TrashEmpty | TrashUnavailable

definition trash_page_of :: "app_error + trash_row list \<Rightarrow> trash_page" where
  "trash_page_of r = (case r of Inl _ \<Rightarrow> TrashUnavailable | Inr rows \<Rightarrow> if rows = [] then TrashEmpty else TrashRows rows)"

definition refresh_trash :: "ui_crates \<Rightarrow> uuid \<Rightarrow> db \<Rightarrow> trash_page" where
  "refresh_trash U uid s = trash_page_of (fst (load_trash U uid s))"

section \<open>The actions\<close>

definition restore_clicked :: "trash_row \<Rightarrow> unit dbm" where
  "restore_clicked r = restore_secret (tw_id r) (tw_vault r)"

definition delete_confirmed :: "trash_row \<Rightarrow> unit dbm" where
  "delete_confirmed r = permanent_delete (tw_id r) (tw_vault r)"

text \<open>The vault whose trash the button empties: the first of the user's, opened with the key of its owner.\<close>

definition resolve_current_vault :: "primitives \<Rightarrow> uuid \<Rightarrow> bytes \<Rightarrow> uuid dbm" where
  "resolve_current_vault P uid mk =
     bindE (list_user_vaults uid) (\<lambda>vs.
     bindE (ok_or (NotFound ''vault not found'') (first_row (\<lambda>_. True) vs)) (\<lambda>v.
     bindE (open_vault P (vault_id v) mk) (\<lambda>_. ret (vault_id v))))"

definition empty_confirmed :: "primitives \<Rightarrow> uuid \<Rightarrow> bytes \<Rightarrow> unit dbm" where
  "empty_confirmed P uid mk =
     bindE (resolve_current_vault P uid mk) (\<lambda>vid.
     bindE (empty_trash vid) (\<lambda>_. ret ()))"

end
