(* ===== verification/Trash_Dialog_Properties.thy ===== *)
theory Trash_Dialog_Properties
  imports Trash_Dialog Secret_List_Properties
begin

text \<open>
  What the trash lists, what its actions do to the list, and how much of it the button empties.
\<close>

section \<open>The list\<close>

definition owned_trash :: "db \<Rightarrow> uuid \<Rightarrow> secret_row \<Rightarrow> bool" where
  "owned_trash s uid r \<longleftrightarrow> \<not> live_secret r \<and> (\<exists>v\<in>set (vaults s). v_id v = si_vault r \<and> v_owner v = uid)"

lemma sequence_of_results: "sequence_results (map Inr xs) = Inr xs"
  by (simp add: sequence_results_Inr)

lemma trash_listed:
  "load_trash U uid s = (Inr rows, s') \<longleftrightarrow>
     s' = s \<and> (\<exists>items. map row_to_secret_item (newest_first deletion_time (filter (owned_trash s uid) (secrets s))) =
         map Inr items \<and> rows = map (trash_row_of U) items)"
  by (auto simp: load_trash_def list_all_trash_by_user_def secret_list_trash_by_owner_def items_of_def bindE_run run_simps
      sequence_results_Inr sequence_of_results owned_trash_def [abs_def] split: sum.splits)

lemma newest_first_filter: "newest_first t (filter p xs) = filter p (newest_first t xs)"
  by (simp add: newest_first_def rev_filter [symmetric] filter_sort)

lemma item_vault: "row_to_secret_item r = Inr i \<Longrightarrow> secret_vault i = si_vault r"
  by (auto simp: row_to_secret_item_def split: option.splits sum.splits if_splits)

text \<open>Filtering the rows of a table by their vault filters the list by it.\<close>

lemma listed_filter:
  assumes "map row_to_secret_item xs = map Inr items"
  shows "map row_to_secret_item (filter (\<lambda>r. p (si_vault r)) xs) = map Inr (filter (\<lambda>i. p (secret_vault i)) items)"
  using assms
proof (induction xs arbitrary: items)
  case (Cons x xs)
  then obtain i rest where "items = i # rest" "row_to_secret_item x = Inr i" "map row_to_secret_item xs = map Inr rest"
    by (cases items) auto
  with Cons.IH [of rest] show ?case by (simp add: item_vault)
qed simp

lemma item_place: "row_to_secret_item r = Inr i \<Longrightarrow> secret_id i = si_id r \<and> secret_vault i = si_vault r \<and> deleted_at i = si_deleted r"
  by (auto simp: row_to_secret_item_def split: option.splits sum.splits if_splits)

lemma listed_fields:
  assumes "map row_to_secret_item xs = map Inr items"
  shows "map (\<lambda>i. (secret_id i, secret_vault i, deleted_at i)) items = map (\<lambda>r. (si_id r, si_vault r, si_deleted r)) xs"
  using assms
proof (induction xs arbitrary: items)
  case (Cons x xs)
  then obtain i rest where "items = i # rest" "row_to_secret_item x = Inr i" "map row_to_secret_item xs = map Inr rest"
    by (cases items) auto
  with Cons.IH [of rest] show ?case by (simp add: item_place)
qed simp

lemma listed_trash:
  assumes "load_trash U uid s = (Inr rows, s)"
  shows "map (\<lambda>r. (tw_id r, tw_vault r, tw_deleted r)) rows =
    map (\<lambda>x. (si_id x, si_vault x, si_deleted x)) (newest_first deletion_time (filter (owned_trash s uid) (secrets s)))"
proof -
  obtain items where "map row_to_secret_item (newest_first deletion_time (filter (owned_trash s uid) (secrets s))) = map Inr items"
    "rows = map (trash_row_of U) items" using assms by (auto simp: trash_listed)
  then show ?thesis using listed_fields by (simp add: trash_row_of_def comp_def)
qed

lemma emptied_list:
  assumes listed: "load_trash U uid s = (Inr rows, s)"
    and vs: "vaults s' = vaults s" and secs: "secrets s' = delete_rows (\<lambda>r. si_vault r = vid \<and> \<not> live_secret r) (secrets s)"
  shows "load_trash U uid s' = (Inr (filter (\<lambda>r. tw_vault r \<noteq> vid) rows), s')"
proof -
  obtain items where items: "map row_to_secret_item (newest_first deletion_time (filter (owned_trash s uid) (secrets s))) = map Inr items"
    "rows = map (trash_row_of U) items" using listed by (auto simp: trash_listed)
  have "filter (owned_trash s' uid) (secrets s') =
      filter (\<lambda>r. si_vault r \<noteq> vid) (filter (owned_trash s uid) (secrets s))"
    by (auto simp: secs delete_rows_def owned_trash_def vs intro!: filter_cong)
  then have "map row_to_secret_item (newest_first deletion_time (filter (owned_trash s' uid) (secrets s'))) =
      map Inr (filter (\<lambda>i. secret_vault i \<noteq> vid) items)"
    using listed_filter [OF items(1), of "\<lambda>v. v \<noteq> vid"] by (simp only: newest_first_filter)
  then show ?thesis
    unfolding trash_listed by (auto simp: items(2) filter_map comp_def trash_row_of_def)
qed

text \<open>C28. The button of the trash empties one vault, not the trash: the list holds exactly the deleted secrets of
  all the vaults the user owns, those deleted last first, but an emptying that returns has destroyed
  exactly the deleted secrets of the first vault in the user's listing, and every listed secret of
  another vault is listed as before.  It can only return where the user's master key opens that vault
  with its owner's envelope.\<close>

theorem emptying_the_trash_empties_one_vault:
  assumes laws: "aead_laws P" and ok: "db_ok s"
    and listed: "load_trash U uid s = (Inr rows, s)"
    and run: "empty_confirmed P uid mk s = (Inr (), s')"
  shows "map (\<lambda>r. (tw_id r, tw_vault r, tw_deleted r)) rows =
      map (\<lambda>x. (si_id x, si_vault x, si_deleted x)) (rev (sort_key (\<lambda>x. (deletion_time x, si_id x))
        (filter (\<lambda>x. si_deleted x \<noteq> None \<and> (\<exists>v\<in>set (vaults s). v_id v = si_vault x \<and> v_owner v = uid)) (secrets s)))) \<and>
    (\<exists>v vs r key env. list_user_vaults uid s = (Inr (v # vs), s) \<and>
     r \<in> set (vaults s) \<and> v_id r = vault_id v \<and> v_key r = Some env \<and> sealed_as P mk key env \<and>
     secrets s' = delete_rows (\<lambda>r. si_vault r = vault_id v \<and> \<not> live_secret r) (secrets s) \<and>
     load_trash U uid s' = (Inr (filter (\<lambda>r. tw_vault r \<noteq> vault_id v) rows), s'))"
proof
  show "map (\<lambda>r. (tw_id r, tw_vault r, tw_deleted r)) rows =
      map (\<lambda>x. (si_id x, si_vault x, si_deleted x)) (rev (sort_key (\<lambda>x. (deletion_time x, si_id x))
        (filter (\<lambda>x. si_deleted x \<noteq> None \<and> (\<exists>v\<in>set (vaults s). v_id v = si_vault x \<and> v_owner v = uid)) (secrets s))))"
    using listed_trash [OF listed] by (simp add: newest_first_def owned_trash_def [abs_def] live_secret_def)
next
  from run obtain vid s1 where vault: "resolve_current_vault P uid mk s = (Inr vid, s1)"
    and emptied: "s' = s1\<lparr>secrets := delete_rows (\<lambda>r. si_vault r = vid \<and> \<not> live_secret r) (secrets s1)\<rparr>"
    by (auto simp: empty_confirmed_def returns_iff empty_trash_def secret_empty_trash_def delete_secrets_def)
  from vault obtain ls t v key where ls: "list_user_vaults uid s = (Inr ls, t)" and v: "first_row (\<lambda>_. True) ls = Some v"
    "vault_id v = vid" and key: "open_vault P vid mk t = (Inr key, s1)"
    by (auto simp: resolve_current_vault_def returns_iff)
  have t: "t = s" by (rule reads_only_run [OF vault_service_reads(1) ls])
  obtain vs where vs: "ls = v # vs" using v(1) by (cases ls) (simp_all add: first_row_def)
  from key obtain r where r: "first_row (\<lambda>v. v_id v = vid \<and> live v) (vaults s) = Some r"
    and owner: "open_vault_for_user P (v_owner r) vid mk s = (Inr key, s1)"
    by (auto simp: open_vault_def returns_iff vault_get_by_id_def t row_to_vault_def fetch_optional_def run_simps
        split: option.splits)
  obtain env where env: "envelope_for s (v_owner r) vid = Some env" "sealed_as P mk key env"
    using open_iff_sealed [OF laws ok opener_exists [OF owner]] owner by blast
  have same: "same_but_audit s s1" by (rule open_state [OF owner])
  have "vaults s' = vaults s" "secrets s' = delete_rows (\<lambda>r. si_vault r = vid \<and> \<not> live_secret r) (secrets s)"
    using same by (simp_all add: emptied same_but_audit_def)
  with emptied_list [OF listed this] ls t vs v(2) env r
  show "\<exists>v vs r key env. list_user_vaults uid s = (Inr (v # vs), s) \<and>
     r \<in> set (vaults s) \<and> v_id r = vault_id v \<and> v_key r = Some env \<and> sealed_as P mk key env \<and>
     secrets s' = delete_rows (\<lambda>r. si_vault r = vault_id v \<and> \<not> live_secret r) (secrets s) \<and>
     load_trash U uid s' = (Inr (filter (\<lambda>r. tw_vault r \<noteq> vault_id v) rows), s')"
    by (intro exI [of _ v] exI [of _ vs] exI [of _ r] exI [of _ key] exI [of _ env])
      (auto simp: envelope_for_def dest: first_row_SomeD)
qed

end
