(* ===== verification/Login_Form.thy ===== *)
theory Login_Form
  imports Login
begin

text \<open>
  The widgets of the login dialog around the two submissions of \<open>Login\<close>: the submit button, the
  message under the form and the countdown of a lock (\<open>login_dialog/lock_state.rs\<close>), what each result of
  a submission does to them, and the probe that runs while an identifier is typed.  A message is its
  translation key; the countdown's timer is the number of seconds its closure holds.
\<close>

section \<open>The form\<close>

datatype login_step = CredentialsStep | TotpStep

datatype feedback = Message string | AccountLocked int

record login_form =
  lf_step :: login_step
  lf_username :: string
  lf_password :: string
  lf_totp :: string
  lf_feedback :: "feedback option"
  lf_sensitive :: bool
  lf_spinner :: bool
  lf_lock_active :: bool
  lf_lock_timer :: "int option"
  lf_cooldowns :: nat
  lf_session :: "authenticated_session option"
  lf_open :: bool
  lf_cancelled :: bool

definition new_login_form :: login_form where
  "new_login_form = \<lparr> lf_step = CredentialsStep, lf_username = [], lf_password = [], lf_totp = [], lf_feedback = None,
     lf_sensitive = True, lf_spinner = False, lf_lock_active = False, lf_lock_timer = None, lf_cooldowns = 0,
     lf_session = None, lf_open = True, lf_cancelled = False \<rparr>"

definition set_pending_state :: "bool \<Rightarrow> login_form \<Rightarrow> login_form" where
  "set_pending_state pending w = w\<lparr>lf_sensitive := \<not> pending, lf_spinner := pending\<rparr>"

text \<open>A change of the page of the stack makes the button sensitive.\<close>

definition show_step :: "login_step \<Rightarrow> login_form \<Rightarrow> login_form" where
  "show_step st w = (if lf_step w = st then w else w\<lparr>lf_step := st, lf_sensitive := True\<rparr>)"

definition show_feedback :: "feedback \<Rightarrow> login_form \<Rightarrow> login_form" where
  "show_feedback m w = w\<lparr>lf_feedback := Some m\<rparr>"

definition clear_feedback :: "login_form \<Rightarrow> login_form" where
  "clear_feedback w = w\<lparr>lf_feedback := None\<rparr>"

section \<open>The countdown of a lock\<close>

definition start_lock_countdown :: "int \<Rightarrow> login_form \<Rightarrow> login_form" where
  "start_lock_countdown remaining w =
     (let w = w\<lparr>lf_lock_timer := None\<rparr>; current = max remaining 0 in
      if current = 0 then
        show_feedback (Message ''login-error-retry-now'') (set_pending_state False (w\<lparr>lf_lock_active := False\<rparr>))
      else
        (show_feedback (AccountLocked current)
           (w\<lparr>lf_lock_active := True, lf_spinner := False, lf_sensitive := False\<rparr>))\<lparr>lf_lock_timer := Some current\<rparr>)"

text \<open>The timer's closure, called every second while it is installed.\<close>

definition lock_tick :: "login_form \<Rightarrow> login_form" where
  "lock_tick w =
     (case lf_lock_timer w of
        None \<Rightarrow> w
      | Some secs \<Rightarrow>
          (let current = saturating_sub_i64 secs 1 in
           if current = 0 then
             (show_feedback (Message ''login-error-retry-now'')
                (set_pending_state False (w\<lparr>lf_lock_active := False\<rparr>)))\<lparr>lf_lock_timer := None\<rparr>
           else (show_feedback (AccountLocked current) w)\<lparr>lf_lock_timer := Some current\<rparr>))"

text \<open>The one-shot timer that makes the button sensitive again after a failure.\<close>

definition start_cooldown :: "login_form \<Rightarrow> login_form" where
  "start_cooldown w = w\<lparr>lf_cooldowns := lf_cooldowns w + 1\<rparr>"

definition cooldown_over :: "login_form \<Rightarrow> login_form" where
  "cooldown_over w =
     (if lf_cooldowns w = 0 then w else set_pending_state False (w\<lparr>lf_cooldowns := lf_cooldowns w - 1\<rparr>))"

section \<open>Typing\<close>

definition feedback_reset :: "login_form \<Rightarrow> login_form" where
  "feedback_reset w = (if lf_lock_active w then w else clear_feedback w)"

definition password_changed :: "string \<Rightarrow> login_form \<Rightarrow> login_form" where
  "password_changed t w = (if t = lf_password w then w else feedback_reset (w\<lparr>lf_password := t\<rparr>))"

definition totp_changed :: "string \<Rightarrow> login_form \<Rightarrow> login_form" where
  "totp_changed t w = (if t = lf_totp w then w else feedback_reset (w\<lparr>lf_totp := t\<rparr>))"

text \<open>Another identifier lifts the lock shown, and is looked up in the background.\<close>

definition username_changed :: "string \<Rightarrow> login_form \<Rightarrow> login_form" where
  "username_changed t w =
     (if t = lf_username w then w
      else (let w = feedback_reset (w\<lparr>lf_username := t\<rparr>) in
            if lf_lock_active w then
              clear_feedback (set_pending_state False (w\<lparr>lf_lock_active := False, lf_lock_timer := None\<rparr>))
            else w))"

definition probe_lock :: "string \<Rightarrow> auth_policy_state option rtm" where
  "probe_lock ident =
     bindE (on_app (resolve_username_for_login_identifier ident)) (\<lambda>resolved.
     case resolved of
       Some name \<Rightarrow> bindE (rt_db (get_state name)) (\<lambda>st. ret (Some st))
     | None \<Rightarrow> ret None)"

datatype 'a task_result = Answer "app_error + 'a" | Interrupted

definition probe_result :: "string \<Rightarrow> auth_policy_state option task_result \<Rightarrow> login_form \<Rightarrow> login_form" where
  "probe_result checked r w =
     (case r of
        Answer (Inr (Some st)) \<Rightarrow>
          if trim (lf_username w) = checked \<and> is_locked st then start_lock_countdown (remaining_secs st) w else w
      | _ \<Rightarrow> w)"

definition totp_back :: "login_form \<Rightarrow> login_form" where
  "totp_back w = clear_feedback (totp_changed [] (show_step CredentialsStep w))"

text \<open>The back button and the title bar close the window; without a session that cancels the login.\<close>

definition form_closed :: "login_form \<Rightarrow> login_form" where
  "form_closed w =
     (if lf_open w then w\<lparr>lf_open := False, lf_cancelled := lf_cancelled w \<or> lf_session w = None\<rparr> else w)"

section \<open>Submitting\<close>

datatype submission = NotSent | SendCredentials string string | SendTotp string string string

definition submit_clicked :: "login_form \<Rightarrow> submission \<times> login_form" where
  "submit_clicked w =
     (if lf_lock_active w then (NotSent, w)
      else
        (let w = clear_feedback w; name = trim (lf_username w) in
         case lf_step w of
           CredentialsStep \<Rightarrow>
             if name = [] then (NotSent, show_feedback (Message ''login-error-username-required'') w)
             else if lf_password w = [] then (NotSent, show_feedback (Message ''login-error-password-required'') w)
             else (SendCredentials name (lf_password w), set_pending_state True w)
         | TotpStep \<Rightarrow> (SendTotp name (lf_password w) (trim (lf_totp w)), set_pending_state True w)))"

section \<open>Results\<close>

definition log_in :: "authenticated_session \<Rightarrow> login_form \<Rightarrow> login_form" where
  "log_in session w = (set_pending_state False w)\<lparr>lf_session := Some session, lf_open := False\<rparr>"

definition failed_task :: "string \<Rightarrow> login_form \<Rightarrow> login_form" where
  "failed_task message w = start_cooldown (show_feedback (Message message) w)"

definition locked_out :: "int \<Rightarrow> login_form \<Rightarrow> login_form" where
  "locked_out remaining w = start_lock_countdown remaining (set_pending_state False w)"

fun credentials_result :: "login_attempt_outcome task_result \<Rightarrow> login_form \<Rightarrow> login_form" where
  "credentials_result (Answer (Inr (LoginSuccess session))) w = log_in session w"
| "credentials_result (Answer (Inr LoginRequiresTotp)) w = show_step TotpStep (set_pending_state False w)"
| "credentials_result (Answer (Inr (LoginLocked remaining))) w = locked_out remaining w"
| "credentials_result (Answer (Inr (LoginInvalidCredentials remaining))) w =
     (let w = password_changed [] w in
      if remaining > 0 then locked_out remaining w else failed_task ''login-error-invalid-credentials'' w)"
| "credentials_result (Answer (Inr (LoginInvalidTotp _))) w =
     show_feedback (Message ''login-error-internal'') (set_pending_state False w)"
| "credentials_result (Answer (Inl _)) w = failed_task ''login-error-unavailable'' w"
| "credentials_result Interrupted w = failed_task ''login-error-interrupted'' w"

definition login_totp_error_message :: "string \<Rightarrow> string" where
  "login_totp_error_message code =
     (if trim code = [] then ''login-totp-code-missing-error'' else ''login-totp-code-invalid-error'')"

fun totp_result :: "login_attempt_outcome task_result \<Rightarrow> login_form \<Rightarrow> login_form" where
  "totp_result (Answer (Inr (LoginSuccess session))) w = log_in session w"
| "totp_result (Answer (Inr (LoginInvalidTotp remaining))) w =
     (if remaining > 0 then locked_out remaining w
      else failed_task (login_totp_error_message (trim (lf_totp w))) w)"
| "totp_result (Answer (Inr (LoginLocked remaining))) w = locked_out remaining w"
| "totp_result (Answer (Inr (LoginInvalidCredentials remaining))) w =
     (if remaining > 0 then locked_out remaining w
      else show_feedback (Message ''login-error-credentials'') (set_pending_state False w))"
| "totp_result (Answer (Inr LoginRequiresTotp)) w = set_pending_state False w"
| "totp_result (Answer (Inl _)) w = failed_task ''login-error-unavailable'' w"
| "totp_result Interrupted w = failed_task ''login-error-interrupted'' w"

end
