(* ===== verification/Login_Form_Properties.thy ===== *)
theory Login_Form_Properties
  imports Login_Form
begin

text \<open>
  The countdown ends when the lock it shows does, and no order of typing, results and timers gets a
  submission out of a form whose countdown is running.
\<close>

section \<open>The countdown\<close>

lemma tick_down:
  assumes "0 < c" and "c < 2 ^ 63" and "lf_lock_timer w = Some c"
  shows "lf_lock_timer (lock_tick w) = (if c = 1 then None else Some (c - 1))"
    "lf_lock_active (lock_tick w) = (lf_lock_active w \<and> c \<noteq> 1)"
    "lf_sensitive (lock_tick w) = (lf_sensitive w \<or> c = 1)"
    "lf_feedback (lock_tick w) = Some (if c = 1 then Message ''login-error-retry-now'' else AccountLocked (c - 1))"
  using assms
  by (auto simp: lock_tick_def saturating_sub_i64_def Let_def show_feedback_def set_pending_state_def)

lemma countdown_runs:
  assumes "0 < r" and "r < 2 ^ 63" and "int k < r"
  shows "lf_lock_timer ((lock_tick ^^ k) (start_lock_countdown r w)) = Some (r - int k) \<and>
    lf_lock_active ((lock_tick ^^ k) (start_lock_countdown r w)) \<and>
    \<not> lf_sensitive ((lock_tick ^^ k) (start_lock_countdown r w)) \<and>
    lf_feedback ((lock_tick ^^ k) (start_lock_countdown r w)) = Some (AccountLocked (r - int k))"
  using assms(3)
proof (induction k)
  case 0
  with assms(1) show ?case by (simp add: start_lock_countdown_def Let_def show_feedback_def)
next
  case (Suc k)
  let ?w = "(lock_tick ^^ k) (start_lock_countdown r w)"
  have IH: "lf_lock_timer ?w = Some (r - int k)" "lf_lock_active ?w" "\<not> lf_sensitive ?w"
    using Suc.IH Suc.prems by simp_all
  have "0 < r - int k" "r - int k < 2 ^ 63" "r - int k \<noteq> 1" using Suc.prems assms by simp_all
  with tick_down [OF this(1,2) IH(1)] IH show ?case by simp
qed

lemma countdown_ends:
  assumes "0 < r" and "r < 2 ^ 63"
  shows "lf_lock_timer ((lock_tick ^^ nat r) (start_lock_countdown r w)) = None \<and>
    \<not> lf_lock_active ((lock_tick ^^ nat r) (start_lock_countdown r w)) \<and>
    lf_sensitive ((lock_tick ^^ nat r) (start_lock_countdown r w)) \<and>
    lf_feedback ((lock_tick ^^ nat r) (start_lock_countdown r w)) = Some (Message ''login-error-retry-now'')"
proof -
  define k where "k = nat (r - 1)"
  have k: "nat r = Suc k" "int k = r - 1" using assms(1) by (simp_all add: k_def)
  have "lf_lock_timer ((lock_tick ^^ k) (start_lock_countdown r w)) = Some 1"
    using countdown_runs [OF assms, of k w] k(2) by simp
  from tick_down [OF _ _ this] show ?thesis unfolding k(1) by simp
qed

lemma ticks_after_end: "lf_lock_timer w = None \<Longrightarrow> (lock_tick ^^ k) w = w"
  by (induction k) (simp_all add: lock_tick_def)

lemma countdown_at:
  assumes "0 < r" and "r < 2 ^ 63"
  shows "lf_lock_active ((lock_tick ^^ k) (start_lock_countdown r w)) \<longleftrightarrow> int k < r"
    "lf_lock_timer ((lock_tick ^^ k) (start_lock_countdown r w)) = (if int k < r then Some (r - int k) else None)"
    "lf_sensitive ((lock_tick ^^ k) (start_lock_countdown r w)) \<longleftrightarrow> r \<le> int k"
proof -
  let ?w = "start_lock_countdown r w"
  have late: "(lock_tick ^^ k) ?w = (lock_tick ^^ nat r) ?w" if "r \<le> int k"
  proof -
    have "k = (k - nat r) + nat r" using that assms(1) by linarith
    then have "(lock_tick ^^ k) ?w = (lock_tick ^^ (k - nat r)) ((lock_tick ^^ nat r) ?w)"
      by (metis comp_apply funpow_add)
    then show ?thesis using ticks_after_end countdown_ends [OF assms, of w] by simp
  qed
  show "lf_lock_active ((lock_tick ^^ k) ?w) \<longleftrightarrow> int k < r"
    "lf_lock_timer ((lock_tick ^^ k) ?w) = (if int k < r then Some (r - int k) else None)"
    "lf_sensitive ((lock_tick ^^ k) ?w) \<longleftrightarrow> r \<le> int k"
    using countdown_runs [OF assms, of k w] countdown_ends [OF assms, of w] late
    by (cases "int k < r"; simp)+
qed

text \<open>C19. The countdown of a locked account ends, and it ends with the lock: a form that was told the
  seconds a lock has left counts one down at every tick, and at each tick it is locked exactly when the
  policy would still find the account locked; when the lock expires the timer is gone for good and the
  form can be submitted again.\<close>

theorem the_countdown_ends_with_the_lock:
  assumes fits: "clock_fits now" "clock_fits t"
    and past: "t \<le> now"
    and locked: "is_locked \<lparr> failed_attempts = failed, remaining_secs = remaining_lock_secs failed (Some t) now \<rparr>"
    and r: "r = remaining_lock_secs failed (Some t) now"
    and later: "clock_fits (now + int k)"
  shows "0 < r \<and>
     (lf_lock_active ((lock_tick ^^ k) (start_lock_countdown r w)) \<longleftrightarrow>
        is_locked \<lparr> failed_attempts = failed, remaining_secs = remaining_lock_secs failed (Some t) (now + int k) \<rparr>) \<and>
     lf_lock_timer ((lock_tick ^^ k) (start_lock_countdown r w)) = (if k < nat r then Some (r - int k) else None) \<and>
     (lf_sensitive ((lock_tick ^^ k) (start_lock_countdown r w)) \<longleftrightarrow> nat r \<le> k)"
proof -
  from locked have l: "5 \<le> failed" "now < t + 300" unfolding locked_iff [OF fits] by simp_all
  then have r: "r = t + 300 - now" using fits by (simp add: remaining_exact r)
  have bounds: "0 < r" "r < 2 ^ 63" using l(2) past by (simp_all add: r)
  have "is_locked \<lparr> failed_attempts = failed, remaining_secs = remaining_lock_secs failed (Some t) (now + int k) \<rparr>
      \<longleftrightarrow> int k < r"
    using locked_iff [OF later fits(2)] r l(1) by auto
  then show ?thesis using countdown_at [OF bounds, of k w] bounds(1) by auto
qed

section \<open>The form under any order of events\<close>

datatype form_event =
    LockTick | CooldownOver | TypedUsername string | TypedPassword string | TypedTotp string | Back | Submit | Close
  | Probed string "auth_policy_state option task_result"
  | CredentialsAnswer "login_attempt_outcome task_result"
  | TotpAnswer "login_attempt_outcome task_result"

fun form_after :: "form_event \<Rightarrow> login_form \<Rightarrow> login_form" where
  "form_after LockTick w = lock_tick w"
| "form_after CooldownOver w = cooldown_over w"
| "form_after (TypedUsername t) w = username_changed t w"
| "form_after (TypedPassword t) w = password_changed t w"
| "form_after (TypedTotp t) w = totp_changed t w"
| "form_after Back w = totp_back w"
| "form_after Submit w = snd (submit_clicked w)"
| "form_after Close w = form_closed w"
| "form_after (Probed u r) w = probe_result u r w"
| "form_after (CredentialsAnswer r) w = credentials_result r w"
| "form_after (TotpAnswer r) w = totp_result r w"

inductive reachable_form :: "login_form \<Rightarrow> bool" where
  opened: "reachable_form new_login_form"
| event: "reachable_form w \<Longrightarrow> reachable_form (form_after e w)"

text \<open>The flag and the timer agree, and only a session or a cancellation closes the dialog.\<close>

definition form_sound :: "login_form \<Rightarrow> bool" where
  "form_sound w \<longleftrightarrow> (lf_lock_active w \<longleftrightarrow> lf_lock_timer w \<noteq> None) \<and> (\<forall>c. lf_lock_timer w = Some c \<longrightarrow> 0 < c) \<and>
     (lf_open w \<longleftrightarrow> lf_session w = None \<and> \<not> lf_cancelled w)"

lemmas form_defs = set_pending_state_def show_feedback_def clear_feedback_def show_step_def start_cooldown_def
  feedback_reset_def log_in_def

lemma sound_widgets [simp]:
  "form_sound (set_pending_state b w) = form_sound w" "form_sound (show_feedback m w) = form_sound w"
  "form_sound (clear_feedback w) = form_sound w" "form_sound (show_step st w) = form_sound w"
  "form_sound (start_cooldown w) = form_sound w" "form_sound (feedback_reset w) = form_sound w"
  "form_sound (w\<lparr>lf_password := t\<rparr>) = form_sound w" "form_sound (w\<lparr>lf_totp := t\<rparr>) = form_sound w"
  "form_sound (w\<lparr>lf_username := t\<rparr>) = form_sound w" "form_sound (w\<lparr>lf_cooldowns := n\<rparr>) = form_sound w"
  by (simp_all add: form_defs form_sound_def)

lemma sound_countdown: "form_sound w \<Longrightarrow> form_sound (start_lock_countdown r w)"
  by (auto simp: start_lock_countdown_def form_sound_def form_defs Let_def)

lemma sound_tick: "form_sound w \<Longrightarrow> form_sound (lock_tick w)"
  by (auto simp: lock_tick_def form_sound_def form_defs Let_def saturating_sub_i64_def split: option.splits if_splits)

lemma sound_typing:
  assumes "form_sound w"
  shows "form_sound (password_changed t w)" "form_sound (totp_changed t w)" "form_sound (username_changed t w)"
  using assms
  by (simp_all add: password_changed_def totp_changed_def username_changed_def Let_def)
    (auto simp: form_sound_def form_defs)

lemma sound_results:
  assumes "form_sound w"
  shows "form_sound (log_in a w)" "form_sound (failed_task m w)" "form_sound (locked_out r w)"
  using assms by (simp_all add: failed_task_def locked_out_def sound_countdown) (simp add: log_in_def form_sound_def form_defs)

lemma sound_closed: "form_sound w \<Longrightarrow> form_sound (form_closed w)"
  by (auto simp: form_closed_def form_sound_def)

lemma sound_after: "form_sound w \<Longrightarrow> form_sound (form_after e w)"
proof (cases e)
  case (CredentialsAnswer r)
  then show "form_sound w \<Longrightarrow> ?thesis"
    by (cases "(r, w)" rule: credentials_result.cases) (simp_all add: sound_results sound_typing Let_def)
next
  case (TotpAnswer r)
  then show "form_sound w \<Longrightarrow> ?thesis"
    by (cases "(r, w)" rule: totp_result.cases) (simp_all add: sound_results)
qed (simp_all add: sound_tick sound_typing sound_closed sound_countdown cooldown_over_def totp_back_def probe_result_def
    submit_clicked_def Let_def split: option.split sum.split task_result.split login_step.split)

text \<open>C20. Whatever the order in which the user types and submits, the answers of submissions and of the
  identifier's probe arrive, the timers run and the window is closed: the lock of the form is on exactly
  while a countdown with seconds left is running, no submission leaves a form whose countdown is running,
  and the dialog is open until a session closes it or the user cancels it.\<close>

theorem reachable_forms_respect_the_lock:
  assumes "reachable_form w"
  shows "(lf_lock_active w \<longleftrightarrow> (\<exists>c. lf_lock_timer w = Some c \<and> 0 < c)) \<and>
    (lf_lock_timer w \<noteq> None \<longrightarrow> submit_clicked w = (NotSent, w)) \<and>
    (lf_open w \<longleftrightarrow> lf_session w = None \<and> \<not> lf_cancelled w)"
proof -
  from assms have "form_sound w"
    by (induction rule: reachable_form.induct) (simp_all add: sound_after, simp add: form_sound_def new_login_form_def)
  then show ?thesis by (auto simp: form_sound_def submit_clicked_def)
qed

text \<open>The pause after a failure holds back the button only: the Return key in an entry emits the click all
  the same, and it starts the next submission.\<close>

theorem return_key_skips_the_pause:
  assumes "lf_step w = CredentialsStep" and "\<not> lf_lock_active w" and "trim (lf_username w) \<noteq> []" and "lf_password w \<noteq> []"
  shows "fst (submit_clicked (w\<lparr>lf_sensitive := False, lf_cooldowns := n\<rparr>)) =
    SendCredentials (trim (lf_username w)) (lf_password w)"
  using assms by (simp add: submit_clicked_def clear_feedback_def Let_def)

end
