(* ===== verification/Strength_Bar.thy ===== *)
theory Strength_Bar
  imports Secret_List License_Service
begin

text \<open>
  \<open>ui/widgets/password_strength_bar.rs\<close>: the score of a typed password, the least of what the crate
  \<open>zxcvbn\<close> (a parameter) gives it and of a cap by length and kinds of characters, and the advice under the
  bar.  The French advices are the constructors of \<open>strength_hint\<close> and \<open>extra_advice\<close>.
\<close>

section \<open>The policy\<close>

definition APP_BLOCKLIST :: "string list" where
  "APP_BLOCKLIST = [''heelon'', ''vault'', ''heelonvault'', ''test'', ''azerty'', ''qwerty'', ''qwertz'', ''123456'',
     ''password'', ''motdepasse'']"

record criteria =
  has_upper :: bool
  has_lower :: bool
  has_digit :: bool
  has_special :: bool

definition check_criteria :: "ui_crates \<Rightarrow> chars \<Rightarrow> criteria" where
  "check_criteria U pw = \<lparr> has_upper = list_ex (char_upper U) pw, has_lower = list_ex (char_lower U) pw,
     has_digit = list_ex (\<lambda>c. 48 \<le> c \<and> c \<le> 57) pw, has_special = list_ex (\<lambda>c. \<not> char_alnum U c) pw \<rparr>"

definition category_count :: "criteria \<Rightarrow> nat" where
  "category_count c = length (filter (\<lambda>v. v) [has_upper c, has_lower c, has_digit c, has_special c])"

definition anssi_cap :: "nat \<Rightarrow> nat \<Rightarrow> int" where
  "anssi_cap len categories =
     (if len < 12 then 1
      else if len < 14 then if categories \<ge> 4 then 3 else 2
      else if len = 14 then if categories \<ge> 3 then 3 else 2
      else if categories \<ge> 3 then 4 else 2)"

datatype strength_hint =
    TooShort nat
  | MissingCategories nat
  | TwelveAndFour
  | OneMoreForRobust
  | GoodButPredictable
  | Middling
  | Solid
  | Robust

definition anssi_hint :: "nat \<Rightarrow> nat \<Rightarrow> int \<Rightarrow> strength_hint" where
  "anssi_hint len categories zxcvbn_score =
     (if len < 12 then TooShort len
      else if categories < 3 then MissingCategories (3 - categories)
      else if len < 15 \<and> categories < 4 then if len < 14 then TwelveAndFour else OneMoreForRobust
      else if zxcvbn_score = 0 \<or> zxcvbn_score = 1 then GoodButPredictable
      else if zxcvbn_score = 2 then Middling
      else if zxcvbn_score = 3 then Solid
      else Robust)"

section \<open>The advice of the estimator\<close>

record zxcvbn_entropy =
  zx_score :: int
  zx_feedback :: "(string option \<times> string list) option"

type_synonym zxcvbn = "string \<Rightarrow> string list \<Rightarrow> zxcvbn_entropy option"

datatype extra_advice = SaysTooShort | KnownWord | NoRepeats | NoSequences | TooCommon | AddSymbols | Verbatim string

definition localize :: "string \<Rightarrow> extra_advice" where
  "localize message =
     (let n = ascii_lower message in
      if contains_text ''too short'' n then SaysTooShort
      else if contains_text ''similar'' n then KnownWord
      else if contains_text ''repeat'' n then NoRepeats
      else if contains_text ''sequence'' n then NoSequences
      else if contains_text ''common'' n then TooCommon
      else if contains_text ''word'' n then AddSymbols
      else Verbatim message)"

definition extra_hint :: "zxcvbn_entropy \<Rightarrow> extra_advice option" where
  "extra_hint e =
     (case zx_feedback e of
        None \<Rightarrow> None
      | Some (warning, suggestions) \<Rightarrow>
          (case warning of
             Some t \<Rightarrow> Some (localize t)
           | None \<Rightarrow> (case suggestions of [] \<Rightarrow> None | t # _ \<Rightarrow> Some (localize t))))"

section \<open>The bar\<close>

record strength_bar =
  sb_visible :: bool
  sb_level :: int
  sb_hint :: "(strength_hint \<times> extra_advice option) option"
  sb_badges :: criteria
  sb_username :: string
  sb_last_score :: int

definition new_strength_bar :: strength_bar where
  "new_strength_bar = \<lparr> sb_visible = False, sb_level = 0, sb_hint = None,
     sb_badges = \<lparr> has_upper = False, has_lower = False, has_digit = False, has_special = False \<rparr>,
     sb_username = [], sb_last_score = 0 \<rparr>"

definition set_username :: "string \<Rightarrow> strength_bar \<Rightarrow> strength_bar" where
  "set_username name b = b\<lparr>sb_username := ascii_lower name\<rparr>"

definition update_view :: "ui_crates \<Rightarrow> zxcvbn \<Rightarrow> string \<Rightarrow> strength_bar \<Rightarrow> strength_bar" where
  "update_view U Z password b =
     (let trimmed = trim password in
      if trimmed = [] then b\<lparr>sb_visible := False, sb_level := 0, sb_hint := None, sb_last_score := 0\<rparr>
      else
        (let cs = chars_of trimmed; len = length cs; crit = check_criteria U cs; cats = category_count crit;
             inputs = APP_BLOCKLIST @ (if sb_username b = [] then [] else [sb_username b]);
             entropy = Z trimmed inputs;
             zxcvbn_score = (case entropy of None \<Rightarrow> 0 | Some e \<Rightarrow> zx_score e);
             cap = anssi_cap len cats; score = min zxcvbn_score cap;
             extra = (if 4 \<le> cap then case entropy of None \<Rightarrow> None | Some e \<Rightarrow> extra_hint e else None) in
         b\<lparr>sb_visible := True, sb_badges := crit, sb_level := score, sb_last_score := score,
           sb_hint := Some (anssi_hint len cats zxcvbn_score, extra)\<rparr>))"

text \<open>The button a bar gates is sensitive from a least score on.\<close>

definition gates_button :: "int \<Rightarrow> strength_bar \<Rightarrow> bool" where
  "gates_button min_score b \<longleftrightarrow> min_score \<le> sb_last_score b"

end
