(* ===== verification/Strength_Bar_Properties.thy ===== *)
theory Strength_Bar_Properties
  imports Strength_Bar Entry_Editor_Properties
begin

text \<open>
  What a score of the bar stands for, and what the save button of the entry form therefore lets through.
\<close>

section \<open>The cap\<close>

lemma category_at_most: "category_count c \<le> 4"
  by (simp add: category_count_def)

lemma cap_levels:
  assumes "cats \<le> 4"
  shows "4 \<le> anssi_cap len cats \<longleftrightarrow> 15 \<le> len \<and> 3 \<le> cats"
    "3 \<le> anssi_cap len cats \<longleftrightarrow> (12 \<le> len \<and> cats = 4) \<or> (14 \<le> len \<and> 3 \<le> cats)"
    "2 \<le> anssi_cap len cats \<longleftrightarrow> 12 \<le> len"
    "1 \<le> anssi_cap len cats" "anssi_cap len cats \<le> 4"
  using assms by (auto simp: anssi_cap_def)

text \<open>The measures of a typed password.\<close>

definition typed_length :: "string \<Rightarrow> nat" where
  "typed_length pw = length (chars_of (trim pw))"

definition typed_kinds :: "ui_crates \<Rightarrow> string \<Rightarrow> nat" where
  "typed_kinds U pw = category_count (check_criteria U (chars_of (trim pw)))"

definition estimate :: "zxcvbn \<Rightarrow> string \<Rightarrow> string \<Rightarrow> int" where
  "estimate Z name pw =
     (case Z (trim pw) (APP_BLOCKLIST @ (if name = [] then [] else [name])) of None \<Rightarrow> 0 | Some e \<Rightarrow> zx_score e)"

lemma typed_kinds_at_most: "typed_kinds U pw \<le> 4"
  by (simp add: typed_kinds_def category_at_most)

lemma bar_score:
  "sb_last_score (update_view U Z pw b) =
     (if trim pw = [] then 0 else min (estimate Z (sb_username b) pw) (anssi_cap (typed_length pw) (typed_kinds U pw)))"
  by (simp add: update_view_def Let_def typed_length_def typed_kinds_def estimate_def)

text \<open>The score of the bar is the policy's table: a password scores \<open>n\<close> or more exactly when the
  estimator gives it \<open>n\<close> or more and its length and the number of its kinds of characters are those the
  policy asks for at that level: 12 characters for 2; 12 with all four kinds or 14 with three for 3; 15 with
  three for 4.  A blank password scores 0, and no score is above 4.\<close>

theorem the_score_is_the_policy_table:
  "if trim pw = [] then sb_last_score (update_view U Z pw b) = 0
   else (1 \<le> sb_last_score (update_view U Z pw b) \<longleftrightarrow> 1 \<le> estimate Z (sb_username b) pw) \<and>
        (2 \<le> sb_last_score (update_view U Z pw b) \<longleftrightarrow> 2 \<le> estimate Z (sb_username b) pw \<and> 12 \<le> typed_length pw) \<and>
        (3 \<le> sb_last_score (update_view U Z pw b) \<longleftrightarrow> 3 \<le> estimate Z (sb_username b) pw \<and>
           ((12 \<le> typed_length pw \<and> typed_kinds U pw = 4) \<or> (14 \<le> typed_length pw \<and> 3 \<le> typed_kinds U pw))) \<and>
        (4 \<le> sb_last_score (update_view U Z pw b) \<longleftrightarrow> 4 \<le> estimate Z (sb_username b) pw \<and>
           15 \<le> typed_length pw \<and> 3 \<le> typed_kinds U pw) \<and>
        sb_last_score (update_view U Z pw b) \<le> 4"
proof (cases "trim pw = []")
  case False
  with cap_levels [OF typed_kinds_at_most, of "typed_length pw" U pw] show ?thesis
    unfolding bar_score if_not_P [OF False] min_le_iff_disj min.bounded_iff by auto
qed (simp add: bar_score)

text \<open>The advice and the score part ways for a password of 12 to 14 characters of all four kinds that the
  estimator finds perfect: it is called robust and conforming, and scores 3.\<close>

theorem robust_by_word_solid_by_score:
  assumes "12 \<le> typed_length pw" and "typed_length pw \<le> 14" and "typed_kinds U pw = 4"
    and "estimate Z (sb_username b) pw = 4" and "trim pw \<noteq> []"
  shows "(\<exists>extra. sb_hint (update_view U Z pw b) = Some (Robust, extra)) \<and>
    sb_last_score (update_view U Z pw b) = 3 \<and> \<not> gates_button 4 (update_view U Z pw b)"
proof -
  have s: "sb_last_score (update_view U Z pw b) = 3"
    using assms by (simp add: bar_score anssi_cap_def)
  have "\<exists>extra. sb_hint (update_view U Z pw b) = Some (anssi_hint (typed_length pw) (typed_kinds U pw) (estimate Z (sb_username b) pw), extra)"
    using assms(5) by (simp add: update_view_def Let_def typed_length_def typed_kinds_def estimate_def)
  with assms s show ?thesis by (simp add: anssi_hint_def gates_button_def)
qed

section \<open>What the save button lets through\<close>

text \<open>C37. No weak password is stored through the form: when the save button is sensitive and reading the
  form gives a password entry with a new value that is not blank, the bar that followed the password field
  had given it the highest score, so the value has 15 characters or more of at least three kinds (not
  counting blanks at its ends) and the estimator's best mark.\<close>

theorem stored_passwords_are_robust:
  assumes "can_save mode snapshot (sb_last_score (update_view U Z (fm_password f) b)) f"
    and "read_form E mode snapshot f = Inr q" and "sq_type q = Password"
    and "sq_payload q \<noteq> []" and "trim (fm_password f) \<noteq> []"
  shows "15 \<le> typed_length (fm_password f) \<and> 3 \<le> typed_kinds U (fm_password f) \<and>
    4 \<le> estimate Z (sb_username b) (fm_password f) \<and> sq_payload q = str_bytes (fm_password f)"
proof -
  have ty: "from_dropdown_index (fm_type f) = Some Password"
    and payload: "sq_payload q = str_bytes (new_secret_text mode snapshot Password f)"
    using assms(2,3) by (auto simp: read_form_def Let_def split: if_splits option.splits)
  have new: "new_secret_text mode snapshot Password f = fm_password f"
    and changed: "\<not> (is_edit mode \<and> snapshot = Some (trim (fm_password f)))"
    using assms(4) payload by (auto simp: new_secret_text_def Let_def str_bytes_code split: option.splits if_splits)
  have "4 \<le> sb_last_score (update_view U Z (fm_password f) b)"
    using assms(1,5) ty changed by (simp add: can_save_def Let_def)
  then have "4 \<le> estimate Z (sb_username b) (fm_password f)" "4 \<le> anssi_cap (typed_length (fm_password f)) (typed_kinds U (fm_password f))"
    using assms(5) by (simp_all add: bar_score)
  then show ?thesis
    using cap_levels(1) [OF typed_kinds_at_most, of "typed_length (fm_password f)" U "fm_password f"] payload new by simp
qed

text \<open>A blank value passes an edit: the button is sensitive whatever the score, and the blanks are the new
  value of the password.\<close>

theorem blank_password_passes_an_edit:
  assumes "trim (fm_password f) = []" and "fm_password f \<noteq> []" and "trim (fm_title f) \<noteq> []"
    and "from_dropdown_index (fm_type f) = Some Password" and "trim old \<noteq> []"
  shows "can_save (ModeEdit sid) (Some old) score f \<and>
    (\<exists>q. read_form E (ModeEdit sid) (Some old) f = Inr q \<and> sq_payload q = str_bytes (fm_password f) \<and> sq_payload q \<noteq> [])"
  using assms
  by (cases "fm_password f") (auto simp: can_save_def read_form_def new_secret_text_def Let_def str_bytes_code)

end
