(* ===== verification/Editor_Witnesses.thy ===== *)
theory Editor_Witnesses
  imports Entry_Editor_Properties Window_Witnesses Trash_Dialog_Properties Login_Form_Properties Strength_Bar_Properties
begin

text \<open>The properties of the entry form, the strength bar, the trash and the login form, applied at concrete
  inputs.  The JSON crate is instantiated by a printer of length-prefixed texts and its parser.\<close>

section \<open>A printer of JSON objects\<close>

definition print_text :: "string \<Rightarrow> string" where
  "print_text k = replicate (length k) (CHR ''1'') @ CHR ''0'' # k"

definition parse_text :: "string \<Rightarrow> string \<times> string" where
  "parse_text t = (let n = length (takeWhile (\<lambda>c. c = CHR ''1'') t); r = drop (Suc n) t in (take n r, drop n r))"

lemma parse_print_text [simp]: "parse_text (print_text k @ rest) = (k, rest)"
proof -
  have "takeWhile (\<lambda>c. c = CHR ''1'') (replicate n (CHR ''1'') @ CHR ''0'' # t) = replicate n (CHR ''1'')" for n t
    by (induction n) simp_all
  then show ?thesis by (simp add: parse_text_def print_text_def Let_def)
qed

fun print_value :: "json_value \<Rightarrow> string" where
  "print_value (JsonText t) = CHR ''t'' # print_text t"
| "print_value (JsonBool b) = CHR ''b'' # print_text (if b then ''y'' else [])"
| "print_value (JsonInt i) = (if i < 0 then CHR ''m'' else CHR ''p'') # print_text (replicate (nat (abs i)) (CHR ''x''))"

definition parse_value :: "string \<Rightarrow> json_value \<times> string" where
  "parse_value s =
     (let (t, rest) = parse_text (drop 1 s) in
      (if take 1 s = ''t'' then JsonText t else if take 1 s = ''b'' then JsonBool (t \<noteq> [])
       else JsonInt (if take 1 s = ''m'' then - int (length t) else int (length t)), rest))"

lemma parse_print_value [simp]: "parse_value (print_value v @ rest) = (v, rest)"
  by (cases v) (auto simp: parse_value_def)

fun print_object :: "(string \<times> json_value) list \<Rightarrow> string" where
  "print_object [] = ''.''"
| "print_object ((k, v) # m) = CHR '','' # print_text k @ print_value v @ print_object m"

fun parse_object :: "nat \<Rightarrow> string \<Rightarrow> (string \<times> json_value) list option" where
  "parse_object 0 s = None"
| "parse_object (Suc n) s =
     (if s = ''.'' then Some []
      else if take 1 s = '','' then
        (let (k, r) = parse_text (drop 1 s); (v, r) = parse_value r in map_option (Cons (k, v)) (parse_object n r))
      else None)"

lemma parse_print_object: "length m < n \<Longrightarrow> parse_object n (print_object m) = Some m"
  by (induction n "print_object m" arbitrary: m rule: parse_object.induct; case_tac m) auto

definition parsed :: "string \<Rightarrow> (string \<times> json_value) list option" where
  "parsed s = parse_object (length s + 1) s"

lemma short_object: "length m \<le> length (print_object m)"
  by (induction m rule: print_object.induct) simp_all

lemma parsed_print [simp]: "parsed (print_object m) = Some m"
  unfolding parsed_def by (rule parse_print_object) (simp add: short_object le_imp_less_Suc)

definition editor_E :: editor_crates where
  "editor_E = \<lparr> ed_ui = demo_U\<lparr>json_str := (\<lambda>s k. case parsed s of None \<Rightarrow> None | Some m \<Rightarrow>
       (case map_of m k of Some (JsonText t) \<Rightarrow> Some t | _ \<Rightarrow> None))\<rparr>,
     object_text = print_object, json_valid = (\<lambda>s. parsed s \<noteq> None),
     json_bool = (\<lambda>s k. case parsed s of None \<Rightarrow> None | Some m \<Rightarrow> (case map_of m k of Some (JsonBool b) \<Rightarrow> Some b | _ \<Rightarrow> None)),
     json_i64 = (\<lambda>s k. case parsed s of None \<Rightarrow> None | Some m \<Rightarrow> (case map_of m k of Some (JsonInt n) \<Rightarrow> Some n | _ \<Rightarrow> None)),
     expiry_text = (\<lambda>n. Some (replicate (nat n) (CHR ''d''))) \<rparr>"

lemma demo_json: "json_laws editor_E"
  by (simp add: json_laws_def editor_E_def)

section \<open>The entry form\<close>

definition demo_form :: entry_form where
  "demo_form = blank_form\<lparr>fm_title := '' Bank '', fm_password := ''Correct-Horse-7-Battery'', fm_login := ''ada '',
     fm_tags := ''money'', fm_days := 30\<rparr>"

definition demo_request :: save_request where
  "demo_request = projr (read_form editor_E ModeCreate None demo_form)"

lemma demo_request: "read_form editor_E (ModeCreateInVault 10) None demo_form = Inr demo_request"
  by code_simp

theorem saved_entry_reopens_as_typed_witness:
  "\<exists>s' item pw s''. save_entry demo_P 1 ada_key (ModeCreateInVault 10) 21 (Some demo_nonce) demo_request demo_db = (Inr (), s') \<and>
     load_entry demo_P 1 ada_key False 21 s' = (Inr (item, pw), s'') \<and>
     setup_for_edit editor_E item pw blank_form = demo_form\<lparr>fm_title := ''Bank'', fm_login := ''ada'', fm_password := []\<rparr>"
proof -
  let ?m = "save_entry demo_P 1 ada_key (ModeCreateInVault 10) 21 (Some demo_nonce) demo_request"
  have "fst (?m demo_db) = Inr ()" by code_simp
  then have run: "?m demo_db = (Inr (), snd (?m demo_db))" by (rule run_ok)
  have uses: "counted_uses demo_db" "\<forall>i\<in>set (secrets demo_db). si_usage i < 2 ^ 32"
    by (simp_all add: counted_uses_def demo_db_def demo_secret_def)
  have form: "1 \<le> fm_days demo_form" "fm_days demo_form \<le> 3650" "valid_utf8 (str_bytes (fm_password demo_form))"
    by code_simp+
  have shown: "shown_form False demo_form = demo_form\<lparr>fm_title := ''Bank'', fm_login := ''ada'', fm_password := []\<rparr>" by code_simp
  have "length demo_nonce = NONCE_LEN" "\<not> is_edit (ModeCreateInVault 10)" by (simp_all add: demo_nonce_def NONCE_LEN_def)
  from saved_entry_reopens_as_typed [OF demo_laws demo_json this(1) demo_db_ok uses this(2) demo_request form run, of False]
  obtain item pw s'' where "load_entry demo_P 1 ada_key False 21 (snd (?m demo_db)) = (Inr (item, pw), s'')"
    "setup_for_edit editor_E item pw blank_form = shown_form False demo_form" by blast
  with run shown show ?thesis by (intro exI [of _ "snd (?m demo_db)"] exI [of _ item] exI [of _ pw] exI [of _ s'']) simp
qed

text \<open>The same entry, opened and saved two days later as it is.\<close>

definition saved_db :: db where
  "saved_db = snd (save_entry demo_P 1 ada_key (ModeCreateInVault 10) 21 (Some demo_nonce) demo_request demo_db)"

definition demo_later :: "int \<Rightarrow> string option" where
  "demo_later n = Some (replicate (nat (n + 2)) (CHR ''d''))"

definition later_E :: editor_crates where
  "later_E = editor_E\<lparr>expiry_text := demo_later\<rparr>"

definition saved_item :: secret_item where
  "saved_item = (case live_row saved_db 21 of Some r \<Rightarrow> projr (row_to_secret_item r))"

definition later_request :: save_request where
  "later_request = projr (read_form later_E (ModeEdit 21) (Some ''Correct-Horse-7-Battery'')
     (setup_for_edit later_E saved_item (Some ''Correct-Horse-7-Battery'') blank_form))"

theorem saving_unchanged_only_renews_the_expiry_witness:
  "\<exists>r s'. live_row saved_db 21 = Some r \<and> si_expires r = Some (replicate 30 (CHR ''d'')) \<and>
     save_entry demo_P 1 ada_key (ModeEdit 21) 22 None later_request saved_db = (Inr (), s') \<and>
     secrets s' = update_rows (\<lambda>x. x = r) (\<lambda>x. x\<lparr>si_expires := Some (replicate 32 (CHR ''d''))\<rparr>) (secrets saved_db)"
proof -
  let ?pw = "Some ''Correct-Horse-7-Battery''" and ?m = "save_entry demo_P 1 ada_key (ModeEdit 21) 22 None later_request"
  obtain r where r: "live_row saved_db 21 = Some r" "row_to_secret_item r = Inr saved_item" "si_title r = Some (sq_title demo_request)"
    "si_meta r = Some (sq_metadata demo_request)" "si_tags r = sq_tags demo_request" "si_expires r = Some (replicate 30 (CHR ''d''))"
  proof -
    have "case live_row saved_db 21 of None \<Rightarrow> False | Some r \<Rightarrow> row_to_secret_item r = Inr saved_item \<and>
        si_title r = Some (sq_title demo_request) \<and> si_meta r = Some (sq_metadata demo_request) \<and>
        si_tags r = sq_tags demo_request \<and> si_expires r = Some (replicate 30 (CHR ''d''))" by code_simp
    then show thesis using that by (auto split: option.splits)
  qed
  have ok: "db_ok saved_db" unfolding saved_db_def by (rule keepsD [OF save_entry_keeps]) (rule demo_db_ok)
  have json: "json_laws later_E" unfolding later_E_def using demo_json by simp
  have ty: "s_type saved_item = Password" by code_simp
  have again: "read_form later_E (ModeEdit 21) ?pw (setup_for_edit later_E saved_item ?pw blank_form) = Inr later_request"
    by code_simp
  have "fst (?m saved_db) = Inr ()" by code_simp
  then have run: "?m saved_db = (Inr (), snd (?m saved_db))" by (rule run_ok)
  have form: "read_form (later_E\<lparr>expiry_text := expiry_text editor_E\<rparr>) (ModeCreateInVault 10) None demo_form = Inr demo_request"
    "1 \<le> fm_days demo_form" "fm_days demo_form \<le> 3650" "sq_type demo_request = Password" by code_simp+
  have late: "form_expiry later_E demo_form = Some (replicate 32 (CHR ''d''))" by code_simp
  have opened: "?pw = (if True \<and> s_type saved_item = Password then ?pw else None)" by (simp add: ty)
  have "\<not> is_edit (ModeCreateInVault 10)" by simp
  with form r(3-5) ty have
    "same_but_audit (saved_db\<lparr>secrets := update_rows (\<lambda>x. x = r)
      (\<lambda>x. x\<lparr>si_expires := form_expiry later_E demo_form\<rparr>) (secrets saved_db)\<rparr>) (snd (?m saved_db))"
    by (intro saving_unchanged_only_renews_the_expiry [OF demo_laws json ok r(1,2) opened again run,
          THEN conjunct2, THEN conjunct2, THEN conjunct2, rule_format, of "ModeCreateInVault 10" "expiry_text editor_E" demo_form demo_request])
       simp
  then show ?thesis using r(1,6) run late
    by (intro exI [of _ r] exI [of _ "snd (?m saved_db)"]) (simp add: same_but_audit_def)
qed

section \<open>The strength bar\<close>

definition best_mark :: zxcvbn where
  "best_mark = (\<lambda>_ _. Some \<lparr> zx_score = 4, zx_feedback = None \<rparr>)"

theorem stored_passwords_are_robust_witness:
  "15 \<le> typed_length ''Correct-Horse-7-Battery'' \<and> 3 \<le> typed_kinds demo_U ''Correct-Horse-7-Battery'' \<and>
   sq_payload demo_request = str_bytes ''Correct-Horse-7-Battery''"
proof -
  have pw: "fm_password demo_form = ''Correct-Horse-7-Battery''" by (simp add: demo_form_def blank_form_def)
  have "can_save (ModeCreateInVault 10) None (sb_last_score (update_view demo_U best_mark (fm_password demo_form) new_strength_bar)) demo_form"
    by code_simp
  moreover have "sq_type demo_request = Password" "sq_payload demo_request \<noteq> []" "trim (fm_password demo_form) \<noteq> []"
    by code_simp+
  ultimately show ?thesis using stored_passwords_are_robust [OF _ demo_request] pw by metis
qed

section \<open>The trash\<close>

definition trash_db :: db where
  "trash_db = snd (soft_delete 20 demo_db)"

theorem emptying_the_trash_empties_one_vault_witness:
  "\<exists>rows s'. load_trash demo_U 1 trash_db = (Inr rows, trash_db) \<and> map tw_id rows = [20] \<and>
     empty_confirmed demo_P 1 ada_key trash_db = (Inr (), s') \<and> load_trash demo_U 1 s' = (Inr [], s')"
proof -
  let ?m = "empty_confirmed demo_P 1 ada_key"
  have ok: "db_ok trash_db" unfolding trash_db_def by (rule keepsD [OF secret_service_keeps(3)]) (rule demo_db_ok)
  have "case fst (load_trash demo_U 1 trash_db) of Inr rows \<Rightarrow> map (\<lambda>r. (tw_id r, tw_vault r)) rows = [(20, 10)] | _ \<Rightarrow> False"
    by code_simp
  then obtain rows where rows: "fst (load_trash demo_U 1 trash_db) = Inr rows" "map (\<lambda>r. (tw_id r, tw_vault r)) rows = [(20, 10)]"
    by (auto split: sum.splits)
  then have listed: "load_trash demo_U 1 trash_db = (Inr rows, trash_db)"
    using run_ok [of "load_trash demo_U 1" trash_db rows] trash_listed by metis
  have "fst (?m trash_db) = Inr ()" by code_simp
  then have run: "?m trash_db = (Inr (), snd (?m trash_db))" by (rule run_ok)
  have first: "case fst (list_user_vaults 1 trash_db) of Inr (v # _) \<Rightarrow> vault_id v = 10 | _ \<Rightarrow> False" by code_simp
  obtain v vs where v: "list_user_vaults 1 trash_db = (Inr (v # vs), trash_db)"
    "load_trash demo_U 1 (snd (?m trash_db)) = (Inr (filter (\<lambda>r. tw_vault r \<noteq> vault_id v) rows), snd (?m trash_db))"
    using emptying_the_trash_empties_one_vault [OF demo_laws ok listed run] by blast
  with first have "vault_id v = 10" by simp
  moreover have "filter (\<lambda>r. tw_vault r \<noteq> 10) rows = []" "map tw_id rows = [20]" using rows(2) by auto
  ultimately show ?thesis using listed run v(2) by (intro exI [of _ rows] exI [of _ "snd (?m trash_db)"]) simp
qed

section \<open>The login form\<close>

theorem the_countdown_ends_with_the_lock_witness:
  "remaining_lock_secs 5 (Some 900) 1000 = 200 \<and>
   lf_lock_active ((lock_tick ^^ 199) (start_lock_countdown 200 new_login_form)) \<and>
   lf_lock_timer ((lock_tick ^^ 200) (start_lock_countdown 200 new_login_form)) = None"
proof -
  have fits: "clock_fits 1000" "clock_fits 900" "clock_fits (1000 + int 199)" "clock_fits (1000 + int 200)"
    by (simp_all add: clock_fits_def)
  have r: "200 = remaining_lock_secs 5 (Some 900) 1000" by code_simp
  have locked: "is_locked \<lparr> failed_attempts = 5, remaining_secs = remaining_lock_secs 5 (Some 900) 1000 \<rparr>" by code_simp
  have "is_locked \<lparr> failed_attempts = 5, remaining_secs = remaining_lock_secs 5 (Some 900) (1000 + int 199) \<rparr>" by code_simp
  then show ?thesis
    using the_countdown_ends_with_the_lock [OF fits(1,2) _ locked r fits(3), of new_login_form]
      the_countdown_ends_with_the_lock [OF fits(1,2) _ locked r fits(4), of new_login_form] r by simp
qed

theorem reachable_forms_respect_the_lock_witness:
  "submit_clicked (credentials_result (Answer (Inr (LoginLocked 30))) new_login_form) =
     (NotSent, credentials_result (Answer (Inr (LoginLocked 30))) new_login_form)"
proof -
  let ?w = "form_after (CredentialsAnswer (Answer (Inr (LoginLocked 30)))) new_login_form"
  have "reachable_form ?w" by (intro reachable_form.intros)
  moreover have "lf_lock_timer ?w \<noteq> None" by code_simp
  ultimately show ?thesis using reachable_forms_respect_the_lock [of ?w] by simp
qed

end
