(* ===== verification/First_Start.thy ===== *)
theory First_Start
  imports Login_Form Strength_Bar Backup_Service Auto_Lock Trimming
begin

text \<open>
  The pages of the first start (\<open>login_dialog/bootstrap_flow.rs\<close> and the closures of
  \<open>login_dialog/parts/new_body.inc\<close>): the identity of the first administrator, the phrase of 24 words with
  the two words asked back, the clipboard it may be copied to, and the call that creates the account.
  Then the form of a restoration (\<open>restore_flow.rs\<close>).  As in \<open>Auto_Lock\<close>, removing a timer that is not
  pending panics.
\<close>

section \<open>Words\<close>

text \<open>\<open>str::split_whitespace\<close> on UTF-8 strings.\<close>

fun next_word :: "string \<Rightarrow> string \<times> string" where
  "next_word [] = ([], [])"
| "next_word (c # r) =
     (if take_prefix_of white_space (c # r) \<noteq> None then ([], c # r)
      else (let (w, rest) = next_word r in (c # w, rest)))"

lemma next_word_shorter: "take_prefix_of white_space (c # r) = None \<Longrightarrow> length (snd (next_word (c # r))) < length (c # r)"
proof -
  have "length (snd (next_word s)) \<le> length s" for s
    by (induction s rule: next_word.induct) (auto split: prod.split)
  then show "take_prefix_of white_space (c # r) = None \<Longrightarrow> length (snd (next_word (c # r))) < length (c # r)"
    by (auto simp: le_imp_less_Suc split: prod.split) (metis le_imp_less_Suc snd_conv)
qed

lemma trim_start_shorter: "length (trim_start s) \<le> length s"
  using strip_drops [of white_space s] by (auto simp: trim_start_def)

function split_words :: "string \<Rightarrow> string list" where
  "split_words s =
     (case trim_start s of
        [] \<Rightarrow> []
      | c # r \<Rightarrow> fst (next_word (c # r)) # split_words (snd (next_word (c # r))))"
  by pat_completeness auto
termination split_words
proof (relation "measure length")
  fix s c r assume t: "trim_start s = c # r"
  then have "take_prefix_of white_space (c # r) = None" by (metis strip_fixed trim_start_def)
  from next_word_shorter [OF this] trim_start_shorter [of s] show "(snd (next_word (c # r)), s) \<in> measure length"
    unfolding t by (simp del: next_word.simps)
qed simp

declare split_words.simps [simp del]

fun join_words :: "string list \<Rightarrow> string" where
  "join_words [] = []"
| "join_words [w] = w"
| "join_words (w # ws) = w @ CHR 0x20 # join_words ws"

section \<open>The pages\<close>

datatype setup_page = IdentityPage | OathPage | PendingPage

record setup_form =
  su_page :: setup_page
  su_username :: string
  su_password :: string
  su_confirm :: string
  su_score :: int
  su_words :: "string list"
  su_indices :: "nat \<times> nat"
  su_verify_a :: string
  su_verify_b :: string
  su_sensitive :: bool
  su_spinning :: bool
  su_feedback :: "string option"
  su_clipboard :: string
  su_dirty :: bool
  su_timer :: "nat option"
  su_timers :: "nat list"
  su_next_id :: nat
  su_session :: "authenticated_session option"
  su_open :: bool

type_synonym 'a setup_act = "(panic, setup_form, 'a) act"

definition new_setup_form :: setup_form where
  "new_setup_form = \<lparr> su_page = IdentityPage, su_username = [], su_password = [], su_confirm = [], su_score = 0,
     su_words = [], su_indices = (0, 1), su_verify_a = [], su_verify_b = [], su_sensitive = False, su_spinning = False,
     su_feedback = None, su_clipboard = [], su_dirty = False, su_timer = None, su_timers = [], su_next_id = 0,
     su_session = None, su_open = True \<rparr>"

text \<open>What makes the button sensitive on the two pages.\<close>

definition identity_gate :: "setup_form \<Rightarrow> bool" where
  "identity_gate w \<longleftrightarrow>
     trim (su_username w) \<noteq> [] \<and> su_password w \<noteq> [] \<and> su_password w = su_confirm w \<and> 3 \<le> su_score w"

definition check_init_identity_gate :: "setup_form \<Rightarrow> setup_form" where
  "check_init_identity_gate w = w\<lparr>su_sensitive := identity_gate w\<rparr>"

definition oath_gate :: "ui_crates \<Rightarrow> setup_form \<Rightarrow> bool" where
  "oath_gate U w \<longleftrightarrow> su_words w \<noteq> [] \<and>
     lowercased U (trim (su_verify_a w)) = su_words w ! fst (su_indices w) \<and>
     lowercased U (trim (su_verify_b w)) = su_words w ! snd (su_indices w)"

definition check_init_oath_gate :: "ui_crates \<Rightarrow> setup_form \<Rightarrow> setup_form" where
  "check_init_oath_gate U w = w\<lparr>su_sensitive := oath_gate U w\<rparr>"

definition show_page :: "ui_crates \<Rightarrow> setup_page \<Rightarrow> setup_form \<Rightarrow> setup_form" where
  "show_page U p w =
     (if su_page w = p then w
      else (let w = w\<lparr>su_page := p\<rparr> in
            case p of IdentityPage \<Rightarrow> check_init_identity_gate w | OathPage \<Rightarrow> check_init_oath_gate U w | PendingPage \<Rightarrow> w))"

definition identity_typed :: "string \<Rightarrow> string \<Rightarrow> string \<Rightarrow> int \<Rightarrow> setup_form \<Rightarrow> setup_form" where
  "identity_typed name pw confirm score w =
     check_init_identity_gate (w\<lparr>su_username := name, su_password := pw, su_confirm := confirm, su_score := score\<rparr>)"

definition verify_typed :: "ui_crates \<Rightarrow> string \<Rightarrow> string \<Rightarrow> setup_form \<Rightarrow> setup_form" where
  "verify_typed U a b w = check_init_oath_gate U (w\<lparr>su_verify_a := a, su_verify_b := b\<rparr>)"

section \<open>The identity page\<close>

definition verify_indices :: "string \<Rightarrow> nat \<times> nat" where
  "verify_indices phrase =
     (let phrase_sum = sum_list (map (\<lambda>b. (of_char b :: 64 word)) phrase);
          a = unat (phrase_sum mod 24); b_raw = unat ((phrase_sum div 24 + 7) mod 24);
          b = (if b_raw = a then (a + 1) mod 24 else b_raw) in
      (min a b, max a b))"

definition handle_init_identity_step :: "ui_crates \<Rightarrow> (app_error + string) option \<Rightarrow> setup_form \<Rightarrow> setup_form" where
  "handle_init_identity_step U generated w =
     (if trim (su_username w) = [] then w\<lparr>su_feedback := Some ''init-error-username-empty''\<rparr>
      else case generated of
        None \<Rightarrow> w
      | Some (Inl _) \<Rightarrow> w\<lparr>su_feedback := Some ''login-error-internal''\<rparr>
      | Some (Inr phrase) \<Rightarrow>
         (let words = map (lowercased U) (split_words phrase) in
          if length words = 24 then
            show_page U OathPage (check_init_identity_gate (w\<lparr>su_indices := verify_indices phrase, su_words := words\<rparr>))
          else w\<lparr>su_feedback := Some ''login-error-internal''\<rparr>))"

section \<open>The clipboard\<close>

definition remove_timer :: "nat \<Rightarrow> unit setup_act" where
  "remove_timer i = (\<lambda>w.
     if i \<in> set (su_timers w) then (Inr (), w\<lparr>su_timers := remove1 i (su_timers w)\<rparr>) else (Inl SourceNotFound, w))"

definition take_timer :: "unit setup_act" where
  "take_timer =
     bindE (gets su_timer) (\<lambda>t.
     bindE (modify (\<lambda>w. w\<lparr>su_timer := None\<rparr>)) (\<lambda>_.
     case t of None \<Rightarrow> ret () | Some i \<Rightarrow> remove_timer i))"

definition copy_clicked :: "unit setup_act" where
  "copy_clicked =
     bindE (gets (\<lambda>w. join_words (su_words w))) (\<lambda>phrase.
     if phrase = [] then ret ()
     else
       bindE (modify (\<lambda>w. w\<lparr>su_clipboard := phrase, su_dirty := True\<rparr>)) (\<lambda>_.
       bindE take_timer (\<lambda>_.
       modify (\<lambda>w. w\<lparr>su_timers := su_next_id w # su_timers w, su_timer := Some (su_next_id w), su_next_id := su_next_id w + 1\<rparr>))))"

text \<open>The timer of a minute, which is gone once it has fired.\<close>

definition clear_clipboard_fires :: "nat \<Rightarrow> setup_form \<Rightarrow> setup_form" where
  "clear_clipboard_fires i w =
     (if i \<in> set (su_timers w) then w\<lparr>su_timers := remove1 i (su_timers w), su_clipboard := [], su_dirty := False\<rparr> else w)"

definition clear_clipboard :: "unit setup_act" where
  "clear_clipboard =
     bindE (gets su_dirty) (\<lambda>dirty.
     if dirty then
       bindE (modify (\<lambda>w. w\<lparr>su_clipboard := []\<rparr>)) (\<lambda>_.
       bindE take_timer (\<lambda>_.
       modify (\<lambda>w. w\<lparr>su_dirty := False\<rparr>)))
     else ret ())"

section \<open>The oath page\<close>

text \<open>The name and the password the account is created with.\<close>

definition handle_init_oath_step :: "(string \<times> bytes) setup_act" where
  "handle_init_oath_step =
     bindE clear_clipboard (\<lambda>_.
     bindE (modify (\<lambda>w. w\<lparr>su_page := PendingPage, su_spinning := True\<rparr>)) (\<lambda>_.
     gets (\<lambda>w. (trim (su_username w), str_bytes (su_password w)))))"

fun bootstrap_answer :: "ui_crates \<Rightarrow> bootstrap_result task_result \<Rightarrow> setup_form \<Rightarrow> setup_form" where
  "bootstrap_answer U (Answer (Inr r)) w =
     w\<lparr>su_spinning := False, su_open := False,
       su_session := Some \<lparr> as_user_id = br_user_id r, as_username = br_username r, as_identity_label = br_username r,
                            as_master_key = br_master_key r \<rparr>\<rparr>"
| "bootstrap_answer U (Answer (Inl e)) w =
     (show_page U IdentityPage (w\<lparr>su_spinning := False\<rparr>))\<lparr>su_sensitive := True,
       su_feedback := Some (case e of Conflict _ \<Rightarrow> ''init-error-already-initialized'' | _ \<Rightarrow> ''login-error-unavailable'')\<rparr>"
| "bootstrap_answer U Interrupted w =
     (show_page U IdentityPage (w\<lparr>su_spinning := False\<rparr>))\<lparr>su_sensitive := True,
       su_feedback := Some ''login-error-interrupted''\<rparr>"

text \<open>Closing the dialog.\<close>

definition close_requested :: "unit setup_act" where
  "close_requested = bindE clear_clipboard (\<lambda>_. modify (\<lambda>w. w\<lparr>su_open := False\<rparr>))"

section \<open>The form of a restoration\<close>

record restore_form =
  rf_file :: string
  rf_phrase :: string
  rf_password :: string
  rf_confirm :: string
  rf_score :: int
  rf_busy :: bool

datatype restore_complaint = NoFile | FileMissing | NotTwentyFourWords | NotConfirmed | NotSolid

definition restore_gate :: "restore_form \<Rightarrow> bool" where
  "restore_gate w \<longleftrightarrow> \<not> rf_busy w \<and> trim (rf_file w) \<noteq> [] \<and> trim (rf_phrase w) \<noteq> [] \<and> rf_password w \<noteq> [] \<and>
     rf_password w = rf_confirm w"

definition restore_submitted :: "(string \<Rightarrow> bool) \<Rightarrow> restore_form \<Rightarrow> restore_complaint + (string \<times> string \<times> string)" where
  "restore_submitted exists w =
     (let file = trim (rf_file w); phrase = trim (rf_phrase w) in
      if file = [] then Inl NoFile
      else if \<not> exists file then Inl FileMissing
      else if length (split_words phrase) \<noteq> 24 then Inl NotTwentyFourWords
      else if rf_password w \<noteq> rf_confirm w then Inl NotConfirmed
      else if rf_score w < 3 then Inl NotSolid
      else Inr (file, phrase, rf_password w))"

end
