(* ===== verification/First_Start_Properties.thy ===== *)
theory First_Start_Properties
  imports First_Start
begin

text \<open>
  The first administrator is created only for somebody who has typed two different words of the phrase back;
  what the clipboard's timer can do to the dialog; and what the phrase is good for.
\<close>

section \<open>The words asked back\<close>

lemma unat_mod_24: "unat (x mod 24 :: 64 word) < 24"
  by (simp add: unat_mod_distrib)

lemma verify_indices_differ: "fst (verify_indices phrase) < snd (verify_indices phrase) \<and> snd (verify_indices phrase) < 24"
proof -
  have "a < 24 \<Longrightarrow> b < 24 \<Longrightarrow> min a (if b = a then (a + 1) mod 24 else b) < max a (if b = a then (a + 1) mod 24 else b) \<and>
      max a (if b = a then (a + 1) mod 24 else b) < 24" for a b :: nat
    by (cases "a = 23") auto
  from this [OF unat_mod_24 unat_mod_24] show ?thesis by (simp add: verify_indices_def Let_def)
qed

section \<open>The dialog\<close>

datatype setup_event =
    TypedIdentity string string string int
  | TypedWords string string
  | NextClicked "(app_error + string) option"
  | ConfirmClicked
  | CopyClicked
  | ClipboardFires nat
  | Answered "bootstrap_result task_result"

fun handle_setup :: "ui_crates \<Rightarrow> setup_event \<Rightarrow> unit setup_act" where
  "handle_setup U (TypedIdentity name pw confirm score) = modify (identity_typed name pw confirm score)"
| "handle_setup U (TypedWords a b) = modify (verify_typed U a b)"
| "handle_setup U (NextClicked generated) = modify (handle_init_identity_step U generated)"
| "handle_setup U ConfirmClicked = bindE handle_init_oath_step (\<lambda>_. ret ())"
| "handle_setup U CopyClicked = copy_clicked"
| "handle_setup U (ClipboardFires i) = modify (clear_clipboard_fires i)"
| "handle_setup U (Answered r) = modify (bootstrap_answer U r)"

text \<open>The entries and buttons are those of the page shown, and an insensitive button is not clicked.\<close>

fun setup_enabled :: "setup_event \<Rightarrow> setup_form \<Rightarrow> bool" where
  "setup_enabled (TypedIdentity _ _ _ _) w = (su_page w = IdentityPage)"
| "setup_enabled (TypedWords _ _) w = (su_page w = OathPage)"
| "setup_enabled (NextClicked _) w = (su_page w = IdentityPage \<and> su_sensitive w)"
| "setup_enabled ConfirmClicked w = (su_page w = OathPage \<and> su_sensitive w)"
| "setup_enabled CopyClicked w = (su_page w = OathPage)"
| "setup_enabled (ClipboardFires i) w = (i \<in> set (su_timers w))"
| "setup_enabled (Answered _) w = (su_page w = PendingPage)"

inductive setup_reached :: "ui_crates \<Rightarrow> setup_form \<Rightarrow> bool" for U where
  setup_start: "setup_reached U new_setup_form"
| setup_step: "setup_reached U w \<Longrightarrow> setup_enabled e w \<Longrightarrow> handle_setup U e w = (Inr (), w') \<Longrightarrow> setup_reached U w'"

definition oath_taken :: "ui_crates \<Rightarrow> setup_form \<Rightarrow> bool" where
  "oath_taken U w \<longleftrightarrow> length (su_words w) = 24 \<and> fst (su_indices w) < snd (su_indices w) \<and> snd (su_indices w) < 24 \<and>
     (su_sensitive w \<longrightarrow> oath_gate U w)"

definition clipboard_watched :: "setup_form \<Rightarrow> bool" where
  "clipboard_watched w \<longleftrightarrow> (su_timers w = [] \<or> (\<exists>i. su_timer w = Some i \<and> su_timers w = [i])) \<and>
     (su_dirty w \<longleftrightarrow> su_timers w \<noteq> [])"

definition setup_sound :: "ui_crates \<Rightarrow> setup_form \<Rightarrow> bool" where
  "setup_sound U w \<longleftrightarrow> (su_page w \<noteq> IdentityPage \<or> su_sensitive w \<longrightarrow> identity_gate w) \<and>
     (su_page w = OathPage \<longrightarrow> oath_taken U w) \<and> clipboard_watched w"

lemmas page_defs = show_page_def check_init_identity_gate_def check_init_oath_gate_def

lemma clear_clipboard_run:
  assumes "clipboard_watched w"
  shows "\<exists>w'. clear_clipboard w = (Inr (), w') \<and> clipboard_watched w' \<and> \<not> su_dirty w' \<and> su_page w' = su_page w \<and>
    su_sensitive w' = su_sensitive w \<and> su_username w' = su_username w \<and> su_password w' = su_password w \<and>
    su_confirm w' = su_confirm w \<and> su_score w' = su_score w \<and> (su_dirty w \<longrightarrow> su_clipboard w' = [])"
  using assms
  by (auto simp: clear_clipboard_def take_timer_def remove_timer_def clipboard_watched_def bindE_run run_simps modify_def)

lemma sound_typed:
  assumes "setup_sound U w" and "su_page w = IdentityPage"
  shows "setup_sound U (identity_typed name pw confirm score w)"
  using assms by (auto simp: setup_sound_def identity_typed_def check_init_identity_gate_def identity_gate_def clipboard_watched_def)

lemma sound_words:
  assumes "setup_sound U w" and "su_page w = OathPage"
  shows "setup_sound U (verify_typed U a b w)"
  using assms
  by (auto simp: setup_sound_def verify_typed_def check_init_oath_gate_def oath_taken_def oath_gate_def identity_gate_def
      clipboard_watched_def)

lemma sound_next:
  assumes "setup_sound U w" and "su_page w = IdentityPage" and "su_sensitive w"
  shows "setup_sound U (handle_init_identity_step U g w)"
proof -
  have "identity_gate w" using assms by (simp add: setup_sound_def)
  with assms verify_indices_differ show ?thesis
    by (auto simp: setup_sound_def handle_init_identity_step_def page_defs oath_taken_def oath_gate_def identity_gate_def
        clipboard_watched_def Let_def split: option.split sum.split)
qed

definition copied :: "setup_form \<Rightarrow> nat list \<Rightarrow> setup_form" where
  "copied w ts = w\<lparr>su_clipboard := join_words (su_words w), su_dirty := True, su_timers := su_next_id w # ts,
     su_timer := Some (su_next_id w), su_next_id := su_next_id w + 1\<rparr>"

lemma copy_run:
  "copy_clicked w =
     (if join_words (su_words w) = [] then (Inr (), w)
      else case su_timer w of
        None \<Rightarrow> (Inr (), copied w (su_timers w))
      | Some i \<Rightarrow>
          if i \<in> set (su_timers w) then (Inr (), copied w (remove1 i (su_timers w)))
          else (Inl SourceNotFound, w\<lparr>su_clipboard := join_words (su_words w), su_dirty := True, su_timer := None\<rparr>))"
  by (simp add: copy_clicked_def take_timer_def remove_timer_def copied_def bindE_run run_simps modify_def split: option.split)

lemma copied_sound: "setup_sound U w \<Longrightarrow> setup_sound U (copied w [])"
  by (auto simp: setup_sound_def copied_def oath_taken_def oath_gate_def identity_gate_def clipboard_watched_def)

lemma sound_clipboard:
  assumes "setup_sound U w"
  shows "copy_clicked w = (Inr (), w') \<Longrightarrow> setup_sound U w'"
    "setup_sound U (clear_clipboard_fires i w)"
proof -
  show "setup_sound U (clear_clipboard_fires i w)"
    using assms by (auto simp: setup_sound_def clear_clipboard_fires_def oath_taken_def oath_gate_def identity_gate_def
        clipboard_watched_def)
  assume run: "copy_clicked w = (Inr (), w')"
  have "su_timers w = [] \<or> (\<exists>i. su_timer w = Some i \<and> su_timers w = [i])"
    using assms by (simp add: setup_sound_def clipboard_watched_def)
  with run have "w' = w \<or> w' = copied w []"
    by (auto simp: copy_run split: if_splits option.splits)
  with assms copied_sound show "setup_sound U w'" by blast
qed

lemma sound_answer:
  assumes "setup_sound U w" and "su_page w = PendingPage"
  shows "setup_sound U (bootstrap_answer U r w)"
  using assms
  by (cases "(U, r, w)" rule: bootstrap_answer.cases)
    (auto simp: setup_sound_def page_defs oath_taken_def oath_gate_def identity_gate_def clipboard_watched_def)

lemma sound_confirm:
  assumes "setup_sound U w" and "su_page w = OathPage" and "handle_init_oath_step w = (r, w')"
  shows "setup_sound U w'"
proof -
  have sound: "clipboard_watched w" "identity_gate w" using assms by (simp_all add: setup_sound_def)
  obtain v where v: "clear_clipboard w = (Inr (), v)" "clipboard_watched v" "su_username v = su_username w"
    "su_password v = su_password w" "su_confirm v = su_confirm w" "su_score v = su_score w"
    using clear_clipboard_run [OF sound(1)] by blast
  have "w' = v\<lparr>su_page := PendingPage, su_spinning := True\<rparr>"
    using assms(3) by (simp add: handle_init_oath_step_def bindE_run run_simps v(1))
  then show ?thesis using v(2-) sound(2) by (auto simp: setup_sound_def identity_gate_def clipboard_watched_def)
qed

lemma sound_event:
  assumes "setup_sound U w" and "setup_enabled e w" and "handle_setup U e w = (Inr (), w')"
  shows "setup_sound U w'"
proof (cases e)
  case ConfirmClicked
  with assms(3) obtain r where "handle_init_oath_step w = (Inr r, w')"
    by (auto simp: returns_iff simp del: split_paired_Ex)
  with sound_confirm [OF assms(1)] assms(2) ConfirmClicked show ?thesis by simp
next
  case CopyClicked
  with sound_clipboard(1) [OF assms(1)] assms(3) show ?thesis by simp
next
  case (NextClicked g)
  with sound_next [OF assms(1), of g] assms(2,3) show ?thesis by (simp add: run_simps)
next
  case (TypedWords a b)
  with sound_words [OF assms(1), of a b] assms(2,3) show ?thesis by (simp add: run_simps)
next
  case (TypedIdentity n p c k)
  with sound_typed [OF assms(1), of n p c k] assms(2,3) show ?thesis by (simp add: run_simps)
next
  case (ClipboardFires i)
  with sound_clipboard(2) [OF assms(1), of i] assms(3) show ?thesis by (simp add: run_simps)
next
  case (Answered r)
  with sound_answer [OF assms(1), of r] assms(2,3) show ?thesis by (simp add: run_simps)
qed

lemma sound_reached: "setup_reached U w \<Longrightarrow> setup_sound U w"
proof (induction rule: setup_reached.induct)
  case setup_start
  show ?case by (simp add: setup_sound_def new_setup_form_def clipboard_watched_def)
qed (rule sound_event)

text \<open>C21. The first administrator takes the oath: whenever the dialog can send the request that creates the
  account, it sends the name and the password of the identity page, the name is not blank, the password was
  confirmed and scored at least 3, and the user has typed back two different words of the 24, those asked
  for; a phrase left in the clipboard is wiped first, and none of it panics.\<close>

theorem first_administrator_takes_the_oath:
  assumes "setup_reached U w" and "setup_enabled ConfirmClicked w"
  shows "\<exists>a b w'. a < b \<and> b < 24 \<and> length (su_words w) = 24 \<and>
     lowercased U (trim (su_verify_a w)) = su_words w ! a \<and> lowercased U (trim (su_verify_b w)) = su_words w ! b \<and>
     handle_init_oath_step w = (Inr (trim (su_username w), str_bytes (su_password w)), w') \<and>
     trim (su_username w) \<noteq> [] \<and> su_password w = su_confirm w \<and> 3 \<le> su_score w \<and>
     \<not> su_dirty w' \<and> (su_dirty w \<longrightarrow> su_clipboard w' = [])"
proof -
  have s: "identity_gate w" "oath_taken U w" "clipboard_watched w"
    using sound_reached [OF assms(1)] assms(2) by (simp_all add: setup_sound_def)
  with clear_clipboard_run [OF s(3)] assms(2) show ?thesis
    by (intro exI [of _ "fst (su_indices w)"] exI [of _ "snd (su_indices w)"])
      (auto simp: oath_taken_def oath_gate_def identity_gate_def handle_init_oath_step_def bindE_run run_simps)
qed

text \<open>C22. The copy of the phrase panics when it is asked for again after the first copy has been wiped: the
  timer that wipes the clipboard leaves its id behind, and the next copy removes a timer that is gone.  It
  panics in no other case.\<close>

theorem copying_again_after_the_wipe_panics:
  assumes "setup_reached U w" and "setup_enabled CopyClicked w"
  shows "fst (copy_clicked w) = Inl SourceNotFound \<longleftrightarrow> join_words (su_words w) \<noteq> [] \<and> su_timer w \<noteq> None \<and> \<not> su_dirty w"
  using sound_reached [OF assms(1)]
  by (auto simp: setup_sound_def clipboard_watched_def copy_run split: option.split)

text \<open>The phrase is asked back and dropped: what the request creates the account from does not depend on it:
  any other phrase would have given the same account.\<close>

theorem the_phrase_of_the_first_start_is_dropped:
  assumes "clipboard_watched w"
  shows "fst (handle_init_oath_step (w\<lparr>su_words := ws, su_indices := ab, su_verify_a := x, su_verify_b := y\<rparr>)) =
    fst (handle_init_oath_step w)"
proof -
  let ?w = "w\<lparr>su_words := ws, su_indices := ab, su_verify_a := x, su_verify_b := y\<rparr>"
  have "clipboard_watched ?w" using assms by (simp add: clipboard_watched_def)
  from clear_clipboard_run [OF assms] clear_clipboard_run [OF this] show ?thesis
    by (auto simp: handle_init_oath_step_def bindE_run run_simps)
qed

section \<open>The form of a restoration\<close>

text \<open>A restoration is asked for only with a file that is there, 24 words and a confirmed password of score 3.\<close>

theorem restorations_are_asked_for_in_full:
  assumes "restore_submitted exists w = Inr (file, phrase, pw)"
  shows "exists file \<and> length (split_words phrase) = 24 \<and> pw = rf_confirm w \<and> 3 \<le> rf_score w \<and> trim file = file \<and> file \<noteq> []"
  using assms by (auto simp: restore_submitted_def Let_def split: if_splits)

end
