(* ===== verification/First_Start_Witnesses.thy ===== *)
theory First_Start_Witnesses
  imports First_Start_Properties Window_Witnesses
begin

text \<open>A first start with a phrase of 24 one-letter words, up to the oath and up to the second copy.\<close>

definition demo_phrase :: string where
  "demo_phrase = ''A b c d e f g h i j k l m n o p q r s t u v w x''"

lemma demo_words: "map ascii_lower (split_words demo_phrase) =
    [''a'', ''b'', ''c'', ''d'', ''e'', ''f'', ''g'', ''h'', ''i'', ''j'', ''k'', ''l'', ''m'', ''n'', ''o'', ''p'', ''q'', ''r'', ''s'', ''t'', ''u'', ''v'', ''w'', ''x'']"
  by code_simp

lemma demo_indices: "verify_indices demo_phrase = (0, 20)"
  by code_simp

lemma reached_by:
  "setup_reached U w \<Longrightarrow> handle_setup U e w = (Inr (), w') \<Longrightarrow> setup_enabled e w \<Longrightarrow> setup_reached U w'"
  by (rule setup_step)

definition named_form :: setup_form where
  "named_form = new_setup_form\<lparr>su_username := '' Ada'', su_password := ''Correct-Horse-7'',
     su_confirm := ''Correct-Horse-7'', su_score := 4, su_sensitive := True\<rparr>"

definition oath_shown :: setup_form where
  "oath_shown = named_form\<lparr>su_page := OathPage, su_sensitive := False, su_indices := (0, 20),
     su_words := [''a'', ''b'', ''c'', ''d'', ''e'', ''f'', ''g'', ''h'', ''i'', ''j'', ''k'', ''l'', ''m'', ''n'', ''o'', ''p'', ''q'', ''r'', ''s'', ''t'', ''u'', ''v'', ''w'', ''x'']\<rparr>"

lemma ada_trimmed: "trim '' Ada'' = ''Ada''" "trim [] = []" "trim ''a'' = ''a''" "trim ''u'' = ''u''"
  by code_simp+

lemma named_reached: "setup_reached demo_U named_form"
proof (rule setup_step [OF setup_start])
  show "handle_setup demo_U (TypedIdentity '' Ada'' ''Correct-Horse-7'' ''Correct-Horse-7'' 4) new_setup_form = (Inr (), named_form)"
    by (simp add: run_simps identity_typed_def check_init_identity_gate_def identity_gate_def named_form_def ada_trimmed)
qed (simp add: new_setup_form_def)

lemma oath_shown_reached: "setup_reached demo_U oath_shown"
proof (rule setup_step [OF named_reached])
  have "lowercased demo_U = ascii_lower" by (simp add: demo_U_def)
  moreover have "ascii_lower [] = []" by (simp add: ascii_lower_def)
  ultimately show "handle_setup demo_U (NextClicked (Some (Inr demo_phrase))) named_form = (Inr (), oath_shown)"
    by (simp add: run_simps handle_init_identity_step_def demo_words demo_indices Let_def show_page_def
        check_init_identity_gate_def check_init_oath_gate_def oath_gate_def oath_shown_def named_form_def new_setup_form_def
        ada_trimmed)
qed (simp add: named_form_def new_setup_form_def)

theorem first_administrator_takes_the_oath_witness:
  "\<exists>w w'. setup_reached demo_U w \<and> handle_init_oath_step w = (Inr (''Ada'', str_bytes ''Correct-Horse-7''), w') \<and> \<not> su_dirty w'"
proof -
  let ?w = "oath_shown\<lparr>su_verify_a := ''a'', su_verify_b := ''u'', su_sensitive := True\<rparr>"
  have low: "lowercased demo_U ''a'' = ''a''" "lowercased demo_U ''u'' = ''u''" by code_simp+
  have "handle_setup demo_U (TypedWords ''a'' ''u'') oath_shown = (Inr (), ?w)"
    by (simp add: run_simps verify_typed_def check_init_oath_gate_def oath_gate_def oath_shown_def ada_trimmed low)
  with oath_shown_reached have "setup_reached demo_U ?w" by (rule reached_by) (simp add: oath_shown_def)
  moreover have "setup_enabled ConfirmClicked ?w" "trim (su_username ?w) = ''Ada''" "su_password ?w = ''Correct-Horse-7''"
    by (simp_all add: oath_shown_def named_form_def ada_trimmed)
  ultimately show ?thesis using first_administrator_takes_the_oath [of demo_U ?w] by metis
qed

definition copied_once :: setup_form where
  "copied_once = copied oath_shown []"

definition wiped_copy :: setup_form where
  "wiped_copy = copied_once\<lparr>su_timers := [], su_clipboard := [], su_dirty := False\<rparr>"

theorem copying_again_after_the_wipe_panics_witness:
  "setup_reached demo_U wiped_copy \<and> su_clipboard wiped_copy = [] \<and> fst (copy_clicked wiped_copy) = Inl SourceNotFound"
proof -
  have fields: "su_page oath_shown = OathPage" "su_timer oath_shown = None" "su_timers oath_shown = []"
    "join_words (su_words oath_shown) \<noteq> []" by (simp_all add: oath_shown_def named_form_def new_setup_form_def)
  have "handle_setup demo_U CopyClicked oath_shown = (Inr (), copied_once)"
    by (simp add: copy_run fields copied_once_def)
  with oath_shown_reached have "setup_reached demo_U copied_once" by (rule reached_by) (simp add: fields)
  moreover have "handle_setup demo_U (ClipboardFires (su_next_id oath_shown)) copied_once = (Inr (), wiped_copy)"
    by (simp add: run_simps clear_clipboard_fires_def copied_once_def copied_def wiped_copy_def)
  ultimately have reached: "setup_reached demo_U wiped_copy"
    by (rule reached_by) (simp add: copied_once_def copied_def)
  have "setup_enabled CopyClicked wiped_copy" "join_words (su_words wiped_copy) \<noteq> []" "su_timer wiped_copy \<noteq> None"
    "\<not> su_dirty wiped_copy" "su_clipboard wiped_copy = []"
    using fields by (simp_all add: wiped_copy_def copied_once_def copied_def)
  with reached show ?thesis using copying_again_after_the_wipe_panics [OF reached] by simp
qed

end
