(* ===== verification/Restore.thy ===== *)
theory Restore
  imports Backup_Properties Admin_Service Vault_Properties
begin

text \<open>
  Restoring a backup from the login screen (\<open>main.rs\<close>): the backup is unsealed to a staging file next to
  the database, the password of its account is replaced there, and the staged file takes the place of
  the database.  The SQLite library is a parameter: which database the bytes of a file hold, and the
  bytes of a database.
\<close>

section \<open>The operations\<close>

record sqlite_files =
  db_of :: "bytes \<Rightarrow> db option"
  bytes_of :: "db \<Rightarrow> bytes"

definition map_error :: "('e \<Rightarrow> 'f) \<Rightarrow> ('e, 's, 'a) act \<Rightarrow> ('f, 's, 'a) act" where
  "map_error f m = (\<lambda>s. case m s of (Inl e, s') \<Rightarrow> (Inl (f e), s') | (Inr x, s') \<Rightarrow> (Inr x, s'))"

definition build_restore_staging_path :: "path \<Rightarrow> path" where
  "build_restore_staging_path db =
     Path (path_parent db)
       ((if file_name db = [] then ''heelonvault-rust.db'' else file_name db) @ ''.restore.tmp'')"

definition cleanup_restore_staging_path :: "path \<Rightarrow> unit iom" where
  "cleanup_restore_staging_path staging =
     bindE (fs_exists staging) (\<lambda>present.
     bindE (if present then fs_remove staging else ret ()) (\<lambda>_.
     bindE (fs_exists (old_path staging)) (\<lambda>stale.
     if stale then fs_remove (old_path staging) else ret ())))"

definition take_place :: "path \<Rightarrow> path \<Rightarrow> bool \<Rightarrow> unit iom" where
  "take_place staging database present =
     bindE (attempt (fs_rename staging database)) (\<lambda>r.
     case r of
       Inr _ \<Rightarrow> ret ()
     | Inl _ \<Rightarrow>
         bindE (if present then
                  bindE (fs_exists (old_path database)) (\<lambda>kept.
                  if kept then ignore_error (fs_rename (old_path database) database) else ret ())
                else ret ()) (\<lambda>_.
         fail (Storage ''failed to promote staged restore'')))"

definition promote_staged_restore :: "path \<Rightarrow> path \<Rightarrow> unit iom" where
  "promote_staged_restore staging database =
     bindE (ensure_parent_exists database) (\<lambda>_.
     bindE (fs_exists (old_path database)) (\<lambda>stale.
     bindE (if stale then fs_remove (old_path database) else ret ()) (\<lambda>_.
     bindE (fs_exists database) (\<lambda>present.
     bindE (if present then fs_rename database (old_path database) else ret ()) (\<lambda>_.
     take_place staging database present)))))"

text \<open>\<open>apply_restored_login_password\<close> on the file: open, update, close.\<close>

definition reset_password_in_file ::
  "sqlite_files \<Rightarrow> primitives \<Rightarrow> bytes option \<Rightarrow> string \<Rightarrow> path \<Rightarrow> unit iom" where
  "reset_password_in_file K P salt_rnd new_password p =
     bindE (fs_read p) (\<lambda>b.
     bindE (ok_or (Storage ''failed to open restored database'') (db_of K b)) (\<lambda>d.
     case apply_restored_login_password P salt_rnd new_password d of
       (Inl e, _) \<Rightarrow> fail e
     | (Inr _, d') \<Rightarrow> fs_write p (bytes_of K d')))"

record restore_state =
  rs_host :: host
  rs_auth :: auth_state
  rs_pool_open :: bool

definition on_disk :: "'a iom \<Rightarrow> (app_error, restore_state, 'a) act" where
  "on_disk m = (\<lambda>w. (fst (m (rs_host w)), w\<lparr>rs_host := snd (m (rs_host w))\<rparr>))"

definition stage_restore ::
  "sqlite_files \<Rightarrow> primitives \<Rightarrow> backup_crates \<Rightarrow> bytes option \<Rightarrow> path \<Rightarrow> string \<Rightarrow> string \<Rightarrow> path \<Rightarrow> unit iom" where
  "stage_restore K P B salt_rnd backup phrase new_password staging =
     bindE (map_error (\<lambda>_. Storage ''failed to prepare restore staging area'') (cleanup_restore_staging_path staging)) (\<lambda>_.
     bindE (import_hvb_with_recovery_key P B backup phrase staging) (\<lambda>_.
     map_error (\<lambda>_. Storage ''failed to update restored password envelope'')
       (reset_password_in_file K P salt_rnd new_password staging)))"

definition restore_from_login ::
  "sqlite_files \<Rightarrow> primitives \<Rightarrow> backup_crates \<Rightarrow> bytes option \<Rightarrow> path \<Rightarrow> string \<Rightarrow> string \<Rightarrow> path \<Rightarrow>
   (app_error, restore_state, unit) act" where
  "restore_from_login K P B salt_rnd backup phrase new_password database =
     (let staging = build_restore_staging_path database in
      bindE (on_disk (stage_restore K P B salt_rnd backup phrase new_password staging)) (\<lambda>_.
      bindE (modify (\<lambda>w. w\<lparr>rs_pool_open := False\<rparr>)) (\<lambda>_.
      bindE (on_disk (map_error (\<lambda>_. Storage ''failed to promote restored database'')
               (promote_staged_restore staging database))) (\<lambda>_.
      modify (\<lambda>w. w\<lparr>rs_auth := signal_shutdown (rs_auth w)\<rparr>)))))"

section \<open>Nothing but the staging file is touched before the promotion\<close>

lemma map_error_snd [simp]: "snd (map_error f m s) = snd (m s)"
  by (auto simp: map_error_def split: prod.split sum.split)

lemma map_error_returns: "map_error f m s = (Inr x, s') \<longleftrightarrow> m s = (Inr x, s')"
  by (auto simp: map_error_def split: prod.splits sum.splits)

lemma map_error_fst: "fst (map_error f m s) = Inr x \<longleftrightarrow> fst (m s) = Inr x"
  by (auto simp: map_error_def split: prod.splits sum.splits)

lemma touches_map_error: "moves (touches X) m \<Longrightarrow> moves (touches X) (map_error f m)"
  by (simp add: moves_def)

lemma stage_touches: "moves (touches {p, old_path p}) (stage_restore K P B rnd backup phrase pw p)"
proof -
  have "moves (touches {p, old_path p}) (cleanup_restore_staging_path p)"
    unfolding cleanup_restore_staging_path_def by (intro disk_steps) simp_all
  moreover have rep: "moves (touches {p, old_path p}) (replace_existing_database p pt)" for pt
    unfolding replace_existing_database_def by (intro disk_steps) simp_all
  have "moves (touches {p, old_path p}) (import_hvb_with_recovery_key P B backup phrase p)"
    unfolding import_hvb_with_recovery_key_def by (intro disk_steps rep disk.moves_of_reads [OF open_hvb_reads])
  moreover have "moves (touches {p, old_path p}) (reset_password_in_file K P rnd pw p)"
    unfolding reset_password_in_file_def by (intro disk_steps) simp_all
  ultimately show ?thesis unfolding stage_restore_def by (intro disk_steps touches_map_error)
qed

lemma staging_apart:
  assumes "file_name t \<noteq> []"
  shows "build_restore_staging_path t \<noteq> t" "build_restore_staging_path t \<noteq> old_path t"
    "old_path (build_restore_staging_path t) \<noteq> t" "old_path (build_restore_staging_path t) \<noteq> old_path t"
proof -
  let ?n = "file_name t"
  have stem: "file_stem (?n @ ''.restore.tmp'') = ?n @ ''.restore''"
    by (simp add: file_stem_def Let_def)
  have short: "length (file_stem n) \<le> length n" for n
  proof -
    have "length (dropWhile (\<lambda>c. c \<noteq> CHR ''.'') (rev n)) \<le> length (rev n)" by (rule length_dropWhile_le)
    then show ?thesis by (simp add: file_stem_def Let_def) linarith
  qed
  have old: "file_name (old_path t) = file_stem ?n @ ''.old''" by (simp add: old_path_def)
  have staged: "file_name (build_restore_staging_path t) = ?n @ ''.restore.tmp''"
    using assms by (simp add: build_restore_staging_path_def)
  have staged_old: "file_name (old_path (build_restore_staging_path t)) = ?n @ ''.restore.old''"
    by (simp add: old_path_def staged stem)
  have neq: "length (file_name p) \<noteq> length (file_name q) \<Longrightarrow> p \<noteq> q" for p q by auto
  show "build_restore_staging_path t \<noteq> t" by (rule neq) (simp add: staged)
  show "build_restore_staging_path t \<noteq> old_path t" by (rule neq) (use short [of ?n] in \<open>simp add: staged old\<close>)
  show "old_path (build_restore_staging_path t) \<noteq> t" by (rule neq) (simp add: staged_old)
  show "old_path (build_restore_staging_path t) \<noteq> old_path t"
    by (rule neq) (use short [of ?n] in \<open>simp add: staged_old old\<close>)
qed

section \<open>The promotion keeps the database\<close>

lemma rename_back_survives:
  assumes "files h (old_path t) = Some f"
  shows "survives f t (snd (fs_rename (old_path t) t h))"
  using assms
  by (auto simp: fs_rename_def permitted_def existing_file_def fs_attempt_def bindE_run run_simps survives_def)

lemma take_place_survives:
  assumes f: "files h (old_path t) = Some f" and "old_path t \<noteq> t" "p \<noteq> old_path t"
  shows "survives f t (snd (take_place p t present h))"
proof -
  have ren: "moves (touches {p, t}) (attempt (fs_rename p t))" by (intro disk.moves_catch touches_rename) simp_all
  obtain r h1 where run: "attempt (fs_rename p t) h = (Inr r, h1)" by (simp add: attempt_run)
  have f1: "files h1 (old_path t) = Some f"
    using moves_run [OF ren run] assms by (auto simp: touches_def)
  have "survives f t (snd ((if present then
                  bindE (fs_exists (old_path t)) (\<lambda>kept.
                  if kept then ignore_error (fs_rename (old_path t) t) else ret ())
                else ret ()) h1))"
  proof -
    have seen: "\<exists>b. fs_exists (old_path t) h1 = (Inr b, tick h1)"
      by (auto simp: fs_exists_def fs_attempt_def bindE_run run_simps)
    then obtain b where b: "fs_exists (old_path t) h1 = (Inr b, tick h1)" ..
    have "files (tick h1) (old_path t) = Some f" using f1 by simp
    from rename_back_survives [OF this] show ?thesis
      using f1 by (simp add: bindE_ok [where m = "fs_exists (old_path t)", OF b] run_simps survives_def)
  qed
  then show ?thesis
    using f1 unfolding take_place_def bindE_ok [where m = "attempt (fs_rename p t)", OF run]
    by (cases r) (auto simp: bindE_run run_simps survives_def split: prod.split sum.split)
qed

lemma promotion_survives:
  assumes f: "files h t = Some f" and t: "old_path t \<noteq> t" "p \<noteq> old_path t" and seen: "\<And>n. \<not> denies h n (OpStat t)"
  shows "survives f t (snd (promote_staged_restore p t h))"
proof -
  let ?tail = "bindE (fs_exists t) (\<lambda>present.
     bindE (if present then fs_rename t (old_path t) else ret ()) (\<lambda>_. take_place p t present))"
  have tail: "survives f t (snd (?tail h1))" if h1: "files h1 t = Some f" "\<And>n. \<not> denies h1 n (OpStat t)" for h1
  proof -
    have ex: "fs_exists t h1 = (Inr True, tick h1)"
      using h1 by (simp add: fs_exists_def fs_attempt_def bindE_run run_simps)
    have "files (tick h1) t = Some f" using h1(1) by simp
    note renamed = rename_survives [OF this]
    show ?thesis
      unfolding bindE_ok [where m = "fs_exists t", OF ex] if_True
      using renamed take_place_survives [OF _ t]
      by (cases "fs_rename t (old_path t) (tick h1)"; cases "fst (fs_rename t (old_path t) (tick h1))")
         (auto simp: bindE_run)
  qed
  show ?thesis
    unfolding promote_staged_restore_def
  proof (rule post_moves [OF touches_parent [where X = "{old_path t}"]])
    show "survives f t h'" if "touches {old_path t} h h'" for h'
      using that f t by (auto simp: touches_def survives_def)
  next
    fix x h1 assume h1: "touches {old_path t} h h1"
    show "survives f t (snd (bindE (fs_exists (old_path t)) (\<lambda>stale.
        bindE (if stale then fs_remove (old_path t) else ret ()) (\<lambda>_. ?tail)) h1))"
    proof (rule post_moves [OF touches_exists [where X = "{old_path t}"]])
      show "survives f t h'" if "touches {old_path t} h1 h'" for h'
        using disk.R_trans [OF h1 that] f t by (auto simp: touches_def survives_def)
    next
      fix stale h2 assume "touches {old_path t} h1 h2"
      with h1 have h2: "touches {old_path t} h h2" by (rule disk.R_trans)
      have rem: "moves (touches {old_path t}) (if stale then fs_remove (old_path t) else ret ())"
        by (intro disk_steps) simp
      show "survives f t (snd (bindE (if stale then fs_remove (old_path t) else ret ()) (\<lambda>_. ?tail) h2))"
      proof (rule post_moves [OF rem])
        show "survives f t h'" if "touches {old_path t} h2 h'" for h'
          using disk.R_trans [OF h2 that] f t by (auto simp: touches_def survives_def)
      next
        fix y h3 assume "touches {old_path t} h2 h3"
        then have "touches {old_path t} h h3" using h2 disk.R_trans by blast
        then show "survives f t (snd (?tail h3))" using tail f t(1) seen by (simp add: touches_def)
      qed
    qed
  qed
qed

text \<open>C16. Restoring from the login screen never loses the database: whatever operation fails, in whatever
  phase, and whatever the backup holds, the database that was there is afterwards at its path or
  next to it under \<open>.old\<close>; as long as the staging has not succeeded it is untouched at its path and
  the connection pool stays open.  This needs a database whose own name does not end in \<open>.old\<close> and
  whose existence can be queried.\<close>

theorem login_restore_never_loses_the_database:
  assumes "files (rs_host w) database = Some f" and "file_name database \<noteq> []" and "old_path database \<noteq> database"
    and "\<And>n. \<not> denies (rs_host w) n (OpStat database)"
  shows "let w' = snd (restore_from_login K P B salt_rnd backup phrase new_password database w) in
    (files (rs_host w') database = Some f \<or> files (rs_host w') (old_path database) = Some f) \<and>
    (\<not> rs_pool_open w' \<or> files (rs_host w') database = Some f \<and> rs_auth w' = rs_auth w)"
proof -
  let ?p = "build_restore_staging_path database"
  let ?stage = "stage_restore K P B salt_rnd backup phrase new_password ?p"
  note apart = staging_apart [OF assms(2)]
  obtain r h1 where st: "?stage (rs_host w) = (r, h1)" by (cases "?stage (rs_host w)")
  have "touches {?p, old_path ?p} (rs_host w) h1" by (rule moves_run [OF stage_touches st])
  then have h1: "files h1 database = Some f" "\<not> denies h1 n (OpStat database)" for n
    using assms apart by (auto simp: touches_def)
  note kept = promotion_survives [OF h1(1) assms(3) apart(2) h1(2), folded survives_def]
  show ?thesis
  proof (cases r)
    case (Inl e)
    then show ?thesis using h1(1) st
      by (simp add: restore_from_login_def Let_def on_disk_def bindE_run)
  next
    case (Inr u)
    then show ?thesis using kept st
      by (auto simp: restore_from_login_def Let_def on_disk_def bindE_run run_simps survives_def
          split: sum.split prod.split)
  qed
qed

section \<open>A restoration that succeeds\<close>

lemma fs_write_returns:
  "fs_write p b h = (Inr x, h') \<longleftrightarrow>
     \<not> denies h (ticks h) (OpWrite p) \<and> h' = put_file p (Some (written (files h p) b)) (tick h)"
  by (auto simp: fs_write_def fs_attempt_def bindE_run run_simps)

lemma fs_rename_returns:
  "fs_rename p q h = (Inr x, h') \<longleftrightarrow>
     \<not> denies h (ticks h) (OpRename p q) \<and>
     (\<exists>f. files h p = Some f \<and> h' = put_file q (Some f) (put_file p None (tick h)))"
  by (auto simp: fs_rename_def permitted_def existing_file_def fs_attempt_def bindE_run run_simps split: option.splits)

lemma fs_chmod_returns:
  "set_owner_only_file_permissions p h = (Inr x, h') \<longleftrightarrow>
     \<not> denies h (ticks h) (OpSetMode p) \<and>
     (\<exists>f. files h p = Some f \<and> h' = put_file p (Some (f\<lparr>owner_only := True\<rparr>)) (tick h))"
  by (auto simp: set_owner_only_file_permissions_def permitted_def existing_file_def fs_attempt_def bindE_run run_simps
      split: option.splits)

lemma replaced_content:
  assumes "replace_existing_database p b h = (Inr x, h')"
  shows "\<exists>g. files h' p = Some g \<and> content g = b"
  using assms
  by (auto simp: replace_existing_database_def returns_iff fs_write_returns fs_chmod_returns written_def)

lemma imported_content:
  assumes "import_hvb_with_recovery_key P B backup phrase p h = (Inr m, h')"
  shows "\<exists>f q n c key pt g. files h backup = Some f \<and> hvb_from_json B (content f) = Some q \<and>
    hvb_opens P B phrase q n c key pt \<and> files h' p = Some g \<and> content g = pt"
proof -
  from assms obtain b h1 q pt h2 where b: "fs_read backup h = (Inr b, h1)" and q: "hvb_from_json B b = Some q"
    and opened: "\<exists>n c key. hvb_opens P B phrase q n c key pt" and put: "replace_existing_database p pt h2 = (Inr (), h')"
    unfolding import_hvb_with_recovery_key_def
    by (auto simp: bindE_returns require_returns lift_result_returns parse_hvb_payload_ok open_hvb_returns ret_run) blast
  from b obtain f where "files h backup = Some f" "content f = b" by (auto simp: fs_read_returns)
  moreover from replaced_content [OF put] obtain g where "files h' p = Some g" "content g = pt" by blast
  ultimately show ?thesis using q opened by blast
qed

lemma reset_content:
  assumes "reset_password_in_file K P rnd pw p h = (Inr x, h')"
  shows "\<exists>g d d' g'. files h p = Some g \<and> db_of K (content g) = Some d \<and>
    apply_restored_login_password P rnd pw d = (Inr (), d') \<and> files h' p = Some g' \<and> content g' = bytes_of K d'"
proof -
  from assms obtain b h1 d where b: "fs_read p h = (Inr b, h1)" and d: "db_of K b = Some d"
    and rest: "(case apply_restored_login_password P rnd pw d of
       (Inl e, _) \<Rightarrow> fail e
     | (Inr _, d') \<Rightarrow> fs_write p (bytes_of K d')) h1 = (Inr x, h')"
    unfolding reset_password_in_file_def bindE_returns ok_or_returns by blast
  obtain r d' where run: "apply_restored_login_password P rnd pw d = (r, d')"
    by (cases "apply_restored_login_password P rnd pw d")
  from rest run obtain u where "r = Inr u" "fs_write p (bytes_of K d') h1 = (Inr x, h')"
    by (cases r) (auto simp: run_simps)
  then have "files h' p = Some (written (files h1 p) (bytes_of K d'))" by (auto simp: fs_write_returns)
  then show ?thesis using b d run \<open>r = Inr u\<close> by (auto simp: fs_read_returns written_def)
qed

lemma staged_content:
  assumes run: "stage_restore K P B rnd backup phrase pw p h = (Inr x, h')" and "backup \<notin> {p, old_path p}"
  shows "\<exists>f q n c key pt d d' g. files h backup = Some f \<and> hvb_from_json B (content f) = Some q \<and>
    hvb_opens P B phrase q n c key pt \<and> db_of K pt = Some d \<and> apply_restored_login_password P rnd pw d = (Inr (), d') \<and>
    files h' p = Some g \<and> content g = bytes_of K d'"
proof -
  from run obtain u h1 m h2 where cl: "cleanup_restore_staging_path p h = (Inr u, h1)"
    and im: "import_hvb_with_recovery_key P B backup phrase p h1 = (Inr m, h2)"
    and pw: "reset_password_in_file K P rnd pw p h2 = (Inr x, h')"
    by (auto simp: stage_restore_def bindE_returns map_error_returns)
  have "moves (touches {p, old_path p}) (cleanup_restore_staging_path p)"
    unfolding cleanup_restore_staging_path_def by (intro disk_steps) simp_all
  from moves_run [OF this cl] assms(2) have same: "files h1 backup = files h backup" by (simp add: touches_def)
  from imported_content [OF im] reset_content [OF pw] show ?thesis unfolding same by fastforce
qed

lemma took_place:
  assumes "take_place p t present h = (Inr x, h')" and "files h p = Some g" and "p \<noteq> t" "old_path t \<noteq> t" "p \<noteq> old_path t"
  shows "files h' t = Some g \<and> files h' p = None \<and> files h' (old_path t) = files h (old_path t)"
proof -
  obtain r h1 where run: "fs_rename p t h = (r, h1)" by (cases "fs_rename p t h")
  then have att: "attempt (fs_rename p t) h = (Inr r, h1)" by (simp add: attempt_run)
  have "\<exists>u. r = Inr u"
  proof (cases r)
    case (Inl e)
    with assms(1) show ?thesis
      unfolding take_place_def bindE_ok [where m = "attempt (fs_rename p t)", OF att] by (simp add: bindE_returns fail_returns)
  qed simp
  then obtain u where r: "r = Inr u" ..
  then have "h' = h1" using assms(1)
    unfolding take_place_def bindE_ok [where m = "attempt (fs_rename p t)", OF att] by (simp add: run_simps)
  then show ?thesis using run r assms(2-5) by (auto simp: fs_rename_returns)
qed

lemma promoted:
  assumes run: "promote_staged_restore p t h = (Inr x, h')" and f: "files h t = Some f" and g: "files h p = Some g"
    and apart: "p \<noteq> t" "old_path t \<noteq> t" "p \<noteq> old_path t" and seen: "\<And>n. \<not> denies h n (OpStat t)"
  shows "files h' t = Some g \<and> files h' p = None \<and> files h' (old_path t) = Some f"
proof -
  let ?clear = "\<lambda>stale. if stale then fs_remove (old_path t) else ret ()"
  from run obtain u1 h1 stale h2 u2 h3 present h4 u3 h5
    where steps: "ensure_parent_exists t h = (Inr u1, h1)" "fs_exists (old_path t) h1 = (Inr stale, h2)"
      "?clear stale h2 = (Inr u2, h3)"
      and ex: "fs_exists t h3 = (Inr present, h4)"
      and ren: "(if present then fs_rename t (old_path t) else ret ()) h4 = (Inr u3, h5)"
      and tk: "take_place p t present h5 = (Inr x, h')"
    unfolding promote_staged_restore_def bindE_returns by blast
  have clear: "moves (touches {old_path t}) (?clear stale)" by (intro disk_steps) simp
  then have "touches {old_path t} h h3"
    using moves_run [OF touches_parent steps(1)] moves_run [OF touches_exists steps(2)]
      moves_run [where m = "?clear stale", OF clear steps(3)] disk.R_trans by blast
  then have h3: "files h3 t = Some f" "files h3 p = Some g" "\<not> denies h3 n (OpStat t)" for n
    using f g apart seen by (auto simp: touches_def)
  then have "present \<and> h4 = tick h3"
    using ex by (auto simp: fs_exists_def fs_attempt_def bindE_run run_simps split: if_splits)
  with ren h3 apart have h5: "files h5 p = Some g" "files h5 (old_path t) = Some f" by (auto simp: fs_rename_returns)
  show ?thesis using took_place [OF tk h5(1) apart] h5(2) by simp
qed

lemma reset_keeps_envelopes:
  assumes "apply_restored_login_password P rnd pw d = (Inr (), d')"
  shows "envelope_for d' = envelope_for d"
proof -
  have "vaults d' = vaults d \<and> shares d' = shares d"
    using assms by (auto simp: apply_restored_login_password_def returns_iff update_users_def run_simps Let_def
        split: if_splits)
  then show ?thesis by (intro ext) (simp add: envelope_for_def split: option.split)
qed

text \<open>C30. A restoration from the login screen that reports success has put in the place of the database
  the database that the chosen backup file decrypts to under the recovery phrase, with the new password
  for its first administrator, has kept the replaced database under \<open>.old\<close> and left no staging file,
  and has closed the pool and shut the sessions down.  But the new password opens no vault by that:
  every vault envelope is the one of the backup, sealed under the master key of the old password.  As
  for C16 the database's name does not end in \<open>.old\<close> and its existence can be queried; and the backup is
  not one of the two staging files, which are removed first.\<close>

theorem login_restore_replaces_the_database:
  assumes f: "files (rs_host w) database = Some f" and name: "file_name database \<noteq> []"
    and old: "old_path database \<noteq> database" and seen: "\<And>n. \<not> denies (rs_host w) n (OpStat database)"
    and backup: "backup \<notin> {build_restore_staging_path database, old_path (build_restore_staging_path database)}"
    and run: "restore_from_login K P B salt_rnd backup phrase new_password database w = (Inr (), w')"
  shows "\<exists>b q n c key pt d d' g. files (rs_host w) backup = Some b \<and> hvb_from_json B (content b) = Some q \<and>
    hvb_opens P B phrase q n c key pt \<and> db_of K pt = Some d \<and> apply_restored_login_password P salt_rnd new_password d = (Inr (), d') \<and>
    files (rs_host w') database = Some g \<and> content g = bytes_of K d' \<and>
    files (rs_host w') (old_path database) = Some f \<and> files (rs_host w') (build_restore_staging_path database) = None \<and>
    \<not> rs_pool_open w' \<and> shutdown_in_progress (rs_auth w') \<and> (\<forall>uid vid. envelope_for d' uid vid = envelope_for d uid vid)"
proof -
  let ?p = "build_restore_staging_path database"
  note apart = staging_apart [OF name]
  from run obtain x1 w1 x2 w2 where st: "on_disk (stage_restore K P B salt_rnd backup phrase new_password ?p) w = (Inr x1, w1)"
    and pr: "on_disk (map_error (\<lambda>_. Storage ''failed to promote restored database'') (promote_staged_restore ?p database))
       (w1\<lparr>rs_pool_open := False\<rparr>) = (Inr x2, w2)"
    and w': "w' = w2\<lparr>rs_auth := signal_shutdown (rs_auth w2)\<rparr>"
    unfolding restore_from_login_def Let_def bindE_returns by (auto simp: run_simps)
  have st': "stage_restore K P B salt_rnd backup phrase new_password ?p (rs_host w) = (Inr x1, rs_host w1)"
    using st by (auto simp: on_disk_def prod_eq_iff)
  have pr': "promote_staged_restore ?p database (rs_host w1) = (Inr x2, rs_host w2)" "\<not> rs_pool_open w2"
    using pr by (auto simp: on_disk_def prod_eq_iff map_error_fst)
  from staged_content [OF st' backup] obtain b q n c key pt d d' g where opened: "files (rs_host w) backup = Some b"
    "hvb_from_json B (content b) = Some q" "hvb_opens P B phrase q n c key pt" and d: "db_of K pt = Some d"
    "apply_restored_login_password P salt_rnd new_password d = (Inr (), d')"
    "files (rs_host w1) ?p = Some g" "content g = bytes_of K d'" by blast
  have "touches {?p, old_path ?p} (rs_host w) (rs_host w1)" by (rule moves_run [OF stage_touches st'])
  then have "files (rs_host w1) database = Some f" "\<And>n. \<not> denies (rs_host w1) n (OpStat database)"
    using f seen apart by (auto simp: touches_def)
  from promoted [OF pr'(1) this(1) d(3) apart(1) old apart(2) this(2)]
  have "files (rs_host w2) database = Some g \<and> files (rs_host w2) ?p = None \<and> files (rs_host w2) (old_path database) = Some f" .
  then show ?thesis
    using opened d pr'(2) reset_keeps_envelopes [OF d(2)] w'
    by (intro exI [of _ b] exI [of _ q] exI [of _ n] exI [of _ c] exI [of _ key] exI [of _ pt] exI [of _ d]
        exI [of _ d'] exI [of _ g]) (simp add: signal_shutdown_def)
qed

end
