(* ===== verification/Restore_Witnesses.thy ===== *)
theory Restore_Witnesses
  imports Restore Backup_Witnesses
begin

text \<open>The properties of the restoration from the login screen, applied at a concrete file system.\<close>

definition demo_K :: sqlite_files where
  "demo_K = \<lparr> db_of = (\<lambda>_. Some demo_db), bytes_of = (\<lambda>_. SQLITE_HEADER @ [0]) \<rparr>"

definition login_site :: "host \<Rightarrow> restore_state" where
  "login_site h = \<lparr> rs_host = h, rs_auth = demo_auth, rs_pool_open = True \<rparr>"

definition calm_host :: host where
  "calm_host = exported\<lparr>denies := (\<lambda>_ _. False)\<rparr>"

definition login_restore :: "(app_error, restore_state, unit) act" where
  "login_restore = restore_from_login demo_K demo_P demo_B (Some demo_salt) hvb_path '''' ''correct horse staple'' db_path"

lemma exported_db: "files (rs_host (login_site calm_host)) db_path = Some \<lparr> content = SQLITE_HEADER, owner_only = True \<rparr>"
  by code_simp

lemma db_name: "file_name db_path \<noteq> []" by code_simp

lemma backup_apart:
  "hvb_path \<notin> {build_restore_staging_path db_path, old_path (build_restore_staging_path db_path)}"
  by code_simp

lemma restore_runs: "fst (login_restore (login_site calm_host)) = Inr ()"
  by code_simp

theorem login_restore_replaces_the_database_witness:
  "\<exists>w' g. login_restore (login_site calm_host) = (Inr (), w') \<and> files (rs_host w') db_path = Some g \<and>
     content g = SQLITE_HEADER @ [0] \<and> \<not> rs_pool_open w' \<and>
     files (rs_host w') (old_path db_path) = Some \<lparr> content = SQLITE_HEADER, owner_only = True \<rparr>"
proof -
  have run: "restore_from_login demo_K demo_P demo_B (Some demo_salt) hvb_path '''' ''correct horse staple'' db_path
      (login_site calm_host) = (Inr (), snd (login_restore (login_site calm_host)))"
    using restore_runs by (simp add: login_restore_def prod_eq_iff)
  have calm: "\<not> denies (rs_host (login_site calm_host)) n (OpStat db_path)" for n
    by (simp add: login_site_def calm_host_def)
  have "bytes_of demo_K d = SQLITE_HEADER @ [0]" for d by (simp add: demo_K_def)
  with login_restore_replaces_the_database [OF exported_db db_name demo_paths(1) calm backup_apart run] run
  show ?thesis unfolding login_restore_def by metis
qed

text \<open>The staged file cannot take the place of the database.\<close>

definition stuck_host :: host where
  "stuck_host = exported\<lparr>denies := (\<lambda>_ op. op = OpRename (build_restore_staging_path db_path) db_path)\<rparr>"

theorem login_restore_never_loses_the_database_witness:
  "let w' = snd (login_restore (login_site stuck_host)) in
     fst (login_restore (login_site stuck_host)) = Inl (Storage ''failed to promote restored database'') \<and>
     (files (rs_host w') db_path = Some \<lparr> content = SQLITE_HEADER, owner_only = True \<rparr> \<or>
      files (rs_host w') (old_path db_path) = Some \<lparr> content = SQLITE_HEADER, owner_only = True \<rparr>)"
proof -
  have "fst (login_restore (login_site stuck_host)) = Inl (Storage ''failed to promote restored database'')" by code_simp
  moreover have here: "files (rs_host (login_site stuck_host)) db_path = Some \<lparr> content = SQLITE_HEADER, owner_only = True \<rparr>"
    by code_simp
  have calm: "\<not> denies (rs_host (login_site stuck_host)) n (OpStat db_path)" for n
    by (simp add: login_site_def stuck_host_def)
  note login_restore_never_loses_the_database [OF here db_name demo_paths(1) calm]
  ultimately show ?thesis unfolding login_restore_def Let_def by blast
qed

end
