(* ===== verification/Users_Dialog.thy ===== *)
theory Users_Dialog
  imports Secret_List Admin_Service
begin

text \<open>
  The administration of accounts (\<open>ui/dialogs/manage_users_dialog.rs\<close>): the list of the accounts, the three
  buttons of a row, and the form of a new account.  A click starts a task on a thread of its own; the answer
  of the task reaches the window later, in any order.  The window holds the state of the program next to
  its own, so that a task can run on it.  The small windows in which a name or a password is typed are the
  arguments of the clicks.
\<close>

section \<open>The rows\<close>

record user_line =
  ul_id :: uuid
  ul_name :: string
  ul_role :: string
  ul_changed :: string
  ul_toggle :: string
  ul_target_role :: user_role

definition user_line_of :: "ui_crates \<Rightarrow> user \<Rightarrow> user_line" where
  "user_line_of U u = \<lparr> ul_id = user_id u, ul_name = username u,
     ul_role = tr U (if role u = RoleAdmin then ''manage-users-role-admin'' else ''manage-users-role-user''),
     ul_changed = (case updated_at u of None \<Rightarrow> ''-'' | Some t \<Rightarrow> show_time U t),
     ul_toggle = tr U (if role u = RoleAdmin then ''manage-users-toggle-to-user'' else ''manage-users-toggle-to-admin''),
     ul_target_role = (if role u = RoleAdmin then RoleUser else RoleAdmin) \<rparr>"

section \<open>The tasks\<close>

datatype users_task =
    FillTask
  | ListTask
  | RoleTask uuid user_role
  | DeleteTask uuid
  | ResetTask uuid string
  | CreateTask string string user_role

datatype users_answer = Accounts "user list" | Finished

record users_draws =
  dr_salt :: "bytes option"
  dr_user :: uuid
  dr_vault :: uuid
  dr_key :: "bytes option"
  dr_nonce :: "bytes option"

text \<open>A new account, and the vault it starts with.\<close>

definition create_account_task ::
  "primitives \<Rightarrow> kdf_config \<Rightarrow> users_draws \<Rightarrow> uuid \<Rightarrow> string \<Rightarrow> string \<Rightarrow> user_role \<Rightarrow> unit appm" where
  "create_account_task P cfg d actor name password ro =
     bindE (admin_create_user P cfg (dr_salt d) (dr_user d) actor name (str_bytes password) ro) (\<lambda>created.
     bindE (on_db (create_vault P (dr_vault d) (dr_key d) (dr_nonce d) (user_id (cr_user created)) ''perso''
              (cr_master_key created))) (\<lambda>_.
     ret ()))"

fun run_users_task ::
  "primitives \<Rightarrow> kdf_config \<Rightarrow> users_draws \<Rightarrow> uuid \<Rightarrow> users_task \<Rightarrow> users_answer appm" where
  "run_users_task P cfg d actor FillTask = bindE (admin_list_all_users actor) (\<lambda>us. ret (Accounts us))"
| "run_users_task P cfg d actor ListTask = bindE (admin_list_all_users actor) (\<lambda>us. ret (Accounts us))"
| "run_users_task P cfg d actor (RoleTask uid ro) = bindE (admin_update_user_role actor uid ro) (\<lambda>_. ret Finished)"
| "run_users_task P cfg d actor (DeleteTask uid) = bindE (admin_delete_user actor uid) (\<lambda>_. ret Finished)"
| "run_users_task P cfg d actor (ResetTask uid pw) =
     bindE (admin_reset_user_password P cfg (dr_salt d) actor uid (str_bytes pw)) (\<lambda>_. ret Finished)"
| "run_users_task P cfg d actor (CreateTask name pw ro) =
     bindE (create_account_task P cfg d actor name pw ro) (\<lambda>_. ret Finished)"

section \<open>The window\<close>

record users_window =
  uw_app :: app
  uw_rows :: "user_line list"
  uw_tasks :: "users_task list"
  uw_alerts :: "(string \<times> app_error) list"

definition error_title :: "ui_crates \<Rightarrow> string \<Rightarrow> app_error \<Rightarrow> string" where
  "error_title U dialog e =
     tr U (dialog @ (case e of Authorization _ \<Rightarrow> ''-error-authorization'' | _ \<Rightarrow> ''-error-generic''))"

definition users_alert :: "ui_crates \<Rightarrow> app_error \<Rightarrow> users_window \<Rightarrow> users_window" where
  "users_alert U e w = w\<lparr>uw_alerts := uw_alerts w @ [(error_title U ''manage-users'' e, e)]\<rparr>"

definition start_task :: "users_task \<Rightarrow> users_window \<Rightarrow> users_window" where
  "start_task t w = w\<lparr>uw_tasks := uw_tasks w @ [t]\<rparr>"

text \<open>The two refreshes: the first fills the list when its answer comes, the second, which follows a change
  of role and a deletion, looks at the answer for an error only.\<close>

definition refresh_users :: "users_window \<Rightarrow> users_window" where
  "refresh_users w = start_task FillTask (w\<lparr>uw_rows := []\<rparr>)"

definition refresh_toggle :: "users_window \<Rightarrow> users_window" where
  "refresh_toggle w = start_task ListTask (w\<lparr>uw_rows := []\<rparr>)"

definition open_users_window :: "app \<Rightarrow> users_window" where
  "open_users_window a = refresh_users \<lparr> uw_app = a, uw_rows = [], uw_tasks = [], uw_alerts = [] \<rparr>"

definition role_choice :: "32 word \<Rightarrow> user_role" where
  "role_choice selected = (if selected = 1 then RoleAdmin else RoleUser)"

fun users_answered :: "ui_crates \<Rightarrow> users_task \<Rightarrow> users_answer \<Rightarrow> users_window \<Rightarrow> users_window" where
  "users_answered U FillTask (Accounts us) w = w\<lparr>uw_rows := uw_rows w @ map (user_line_of U) us\<rparr>"
| "users_answered U (RoleTask uid ro) a w = refresh_toggle w"
| "users_answered U (DeleteTask uid) a w = refresh_toggle w"
| "users_answered U (CreateTask name pw ro) a w = refresh_users w"
| "users_answered U t a w = w"

text \<open>The clicks.\<close>

definition toggle_clicked :: "user_line \<Rightarrow> users_window \<Rightarrow> users_window" where
  "toggle_clicked l = start_task (RoleTask (ul_id l) (ul_target_role l))"

definition deletion_confirmed :: "user_line \<Rightarrow> users_window \<Rightarrow> users_window" where
  "deletion_confirmed l = start_task (DeleteTask (ul_id l))"

definition reset_applied :: "ui_crates \<Rightarrow> user_line \<Rightarrow> string \<Rightarrow> users_window \<Rightarrow> users_window" where
  "reset_applied U l pw =
     (if trim pw = [] then users_alert U (Validation (tr U ''manage-users-error-empty-password''))
      else start_task (ResetTask (ul_id l) pw))"

definition create_clicked :: "string \<Rightarrow> string \<Rightarrow> 32 word \<Rightarrow> users_window \<Rightarrow> users_window" where
  "create_clicked name pw selected = start_task (CreateTask name pw (role_choice selected))"

datatype users_event =
    ToggleClicked user_line
  | DeletionConfirmed user_line
  | ResetApplied user_line string
  | CreateClicked string string "32 word"
  | TaskAnswers nat users_draws
  | TaskIsLost nat

definition drop_task :: "nat \<Rightarrow> users_window \<Rightarrow> users_window" where
  "drop_task i w = w\<lparr>uw_tasks := take i (uw_tasks w) @ drop (Suc i) (uw_tasks w)\<rparr>"

definition task_answers ::
  "ui_crates \<Rightarrow> primitives \<Rightarrow> kdf_config \<Rightarrow> uuid \<Rightarrow> nat \<Rightarrow> users_draws \<Rightarrow> users_window \<Rightarrow> users_window" where
  "task_answers U P cfg actor i d w =
     (let t = uw_tasks w ! i; (r, a) = run_users_task P cfg d actor t (uw_app w); w = (drop_task i w)\<lparr>uw_app := a\<rparr> in
      case r of Inl e \<Rightarrow> users_alert U e w | Inr x \<Rightarrow> users_answered U t x w)"

text \<open>A task that is lost ends without an answer, and here without having changed anything.\<close>

fun users_step ::
  "ui_crates \<Rightarrow> primitives \<Rightarrow> kdf_config \<Rightarrow> uuid \<Rightarrow> users_event \<Rightarrow> users_window \<Rightarrow> users_window" where
  "users_step U P cfg actor (ToggleClicked l) w = toggle_clicked l w"
| "users_step U P cfg actor (DeletionConfirmed l) w = deletion_confirmed l w"
| "users_step U P cfg actor (ResetApplied l pw) w = reset_applied U l pw w"
| "users_step U P cfg actor (CreateClicked name pw selected) w = create_clicked name pw selected w"
| "users_step U P cfg actor (TaskAnswers i d) w =
     (if i < length (uw_tasks w) then task_answers U P cfg actor i d w else w)"
| "users_step U P cfg actor (TaskIsLost i) w =
     (if i < length (uw_tasks w) then users_alert U Internal (drop_task i w) else w)"

definition users_run ::
  "ui_crates \<Rightarrow> primitives \<Rightarrow> kdf_config \<Rightarrow> uuid \<Rightarrow> users_event list \<Rightarrow> users_window \<Rightarrow> users_window" where
  "users_run U P cfg actor es w = fold (users_step U P cfg actor) es w"

end
