(* ===== verification/Users_Dialog_Properties.thy ===== *)
theory Users_Dialog_Properties
  imports Users_Dialog Admin_Properties
begin

text \<open>
  What the administration of accounts does: the account a click creates, the vaults an account keeps when
  its password is reset, and the list after a change of role.
\<close>

section \<open>A new account\<close>

lemma exists_by_name: "r \<in> set (users s) \<Longrightarrow> u_id r \<in> set (user_ids s)"
  by (simp add: user_ids_def)

text \<open>The account whose creation returns has the id that was drawn.\<close>

lemma created_account_id:
  assumes ok: "db_ok (app_db w)" and run: "admin_create_user P cfg rnd new_id actor name pw ro w = (Inr res, w')"
  shows "user_id (cr_user res) = new_id" "new_id \<notin> set (user_ids (app_db w))"
    "same_but_audit (app_db w\<lparr>users := users (app_db w')\<rparr>) (app_db w')"
proof -
  from run obtain u a1 a2 a3 s1 s2 s3 env det where
    d: "user_create_db new_id (trim name) ro (app_db w) = (Inr (), s1)"
      "user_update_password_envelope new_id env s1 = (Inr (), s2)"
    and g: "user_get_by_id new_id s2 = (Inr (Some (cr_user res)), s3)"
    and ev: "record_event (Some actor) UserCreated (Some ''user'') (Some (TargetId new_id)) det s3 =
        (Inr (), app_db w')"
    by (auto simp: admin_create_user_def Let_def returns_iff on_db_returns on_auth_returns require_admin_returns [OF ok])
  have s3: "s3 = s2" by (rule reads_only_run [OF user_queries_read(1) g])
  from g obtain q where "u_id q = new_id" "row_to_user q = Inr (cr_user res)"
    by (auto simp: user_get_by_id_returns dest: first_row_SomeD)
  then show "user_id (cr_user res) = new_id" using row_to_user_fields by auto
  have s1: "new_id \<notin> set (user_ids (app_db w)) \<and>
      s1 = (app_db w)\<lparr>users := users (app_db w) @ [new_user_row new_id (trim name) ro]\<rparr>"
    using d(1) insert_user_Inr [of "new_user_row new_id (trim name) ro" "app_db w" s1]
    by (simp add: user_create_returns new_user_row_def)
  then show "new_id \<notin> set (user_ids (app_db w))" by blast
  have "same_but_audit s2 (app_db w')" using ev record_event_same by (simp add: s3)
  then show "same_but_audit (app_db w\<lparr>users := users (app_db w')\<rparr>) (app_db w')"
    using update_envelope_returns [OF d(2)] s1 by (simp add: same_but_audit_def)
qed

lemma access_needs_an_account:
  assumes "db_ok s" and "has_access s uid vid" shows "uid \<in> set (user_ids s)"
  using assms db_okD(2,6) [OF assms(1)] by (auto simp: has_access_def vaults_ok_def shares_ok_def)

text \<open>C5. An account the dialog creates can log in with the typed password, whose master key opens the one vault
  the account has, \<open>perso\<close>, with the key that was drawn for it; nobody else reaches that vault, the account
  reaches no other, and the access of everyone else is as it was.\<close>

theorem new_account_has_its_own_vault:
  assumes laws: "aead_laws P" and ok: "db_ok (app_db w)" and nonce: "dr_nonce d = Some n" "length n = NONCE_LEN"
    and run: "create_account_task P cfg d actor name pw ro w = (Inr (), w')"
  shows "\<exists>mk key. derive_key_if_valid P cfg (trim name) (str_bytes pw) (app_auth w') = (Inr (Some mk), app_auth w') \<and>
     dr_key d = Some key \<and>
     (\<exists>t. open_vault_for_user P (dr_user d) (dr_vault d) mk (app_db w') = (Inr key, t)) \<and>
     (\<exists>v\<in>set (vaults (app_db w')). v_id v = dr_vault d \<and> v_name v = ''perso'' \<and> live v) \<and>
     (\<forall>uid vid. has_access (app_db w') uid vid \<longleftrightarrow>
        (if vid = dr_vault d then uid = dr_user d else uid \<noteq> dr_user d \<and> has_access (app_db w) uid vid))"
proof -
  from run obtain res w1 v where created: "admin_create_user P cfg (dr_salt d) (dr_user d) actor name (str_bytes pw) ro w = (Inr res, w1)"
    and vault: "create_vault P (dr_vault d) (dr_key d) (dr_nonce d) (user_id (cr_user res)) ''perso'' (cr_master_key res) (app_db w1) =
      (Inr v, app_db w')" and auth: "app_auth w' = app_auth w1"
    by (auto simp: create_account_task_def returns_iff on_db_returns)
  note acct = created_account_id [OF ok created]
  have ok1: "db_ok (app_db w1)" using keeps_run [OF admin_service_keeps(1) created] ok by simp
  from created_user_can_log_in [OF ok created] obtain cred where
    login: "verify_password P cfg (trim name) (str_bytes pw) (app_auth w1) = (Inr True, app_auth w1)"
    and cred: "credentials (app_auth w1) (trim name) = Some cred" "cr_master_key res = password_hash cred" by auto
  have key: "derive_key_if_valid P cfg (trim name) (str_bytes pw) (app_auth w') = (Inr (Some (cr_master_key res)), app_auth w')"
    using login cred unfolding auth by (auto simp: verify_returns derive_if_valid_returns key_of_Some)
  from create_vault_effect [OF vault] obtain q key where kr: "dr_key d = Some key" and id: "vault_id v = dr_vault d"
    and same: "same_but_audit (app_db w1\<lparr>vaults := vaults (app_db w1) @ [created_row (dr_vault d) (dr_user d) ''perso'' (serialize_envelope q)]\<rparr>)
      (app_db w')" using acct(1) by auto
  note opens = created_vault_opens_for_its_owner_only [OF laws ok1 nonce(2) vault [unfolded kr nonce(1)]]
  have tables: "vaults (app_db w1) = vaults (app_db w)" "shares (app_db w1) = shares (app_db w)"
    using acct(3) by (simp_all add: same_but_audit_def)
  have access: "has_access (app_db w') uid vid \<longleftrightarrow>
      (if vid = dr_vault d then uid = dr_user d else uid \<noteq> dr_user d \<and> has_access (app_db w) uid vid)" for uid vid
  proof (cases "vid = dr_vault d")
    case True
    then show ?thesis using opens acct(1) id by auto
  next
    case False
    have "has_access (app_db w') uid vid = has_access (app_db w) uid vid"
      using same False by (auto simp: has_access_def same_but_audit_def tables created_row_def)
    then show ?thesis using False acct(2) access_needs_an_account [OF ok] by auto
  qed
  have "\<exists>v\<in>set (vaults (app_db w')). v_id v = dr_vault d \<and> v_name v = ''perso'' \<and> live v"
    using same by (auto simp: same_but_audit_def created_row_def live_def)
  with key kr opens acct(1) id access show ?thesis by auto
qed

section \<open>Resetting a password\<close>

text \<open>An operation that changes no vault and no share, and keeps the accounts there were, lets every vault
  open with exactly the keys it opened with before.\<close>

lemma opens_as_before:
  assumes laws: "aead_laws P" and ok: "db_ok s" "db_ok s'"
    and same: "vaults s' = vaults s" "shares s' = shares s" "user_ids s' = user_ids s"
  shows "(\<exists>t. open_vault_for_user P x vid mk s' = (Inr key, t)) \<longleftrightarrow>
         (\<exists>t. open_vault_for_user P x vid mk s = (Inr key, t))"
proof (cases "x \<in> set (user_ids s)")
  case True
  have "envelope_for s' x vid = envelope_for s x vid" unfolding envelope_for_def same ..
  then show ?thesis using open_iff_sealed [OF laws ok(1), of x] open_iff_sealed [OF laws ok(2), of x] same(3) True by simp
next
  case False
  have "\<not> (\<exists>t. open_vault_for_user P x vid mk d = (Inr key, t))" if "x \<notin> set (user_ids d)" for d
    using that user_read_exists by (auto simp: open_vault_for_user_def bindE_returns require_user_returns)
  with False same(3) show ?thesis by metis
qed

lemma reset_effect:
  assumes ok: "db_ok (app_db w)"
    and run: "admin_reset_user_password P cfg rnd actor target pw w = (Inr mk, w')"
  shows "\<exists>r\<in>set (users (app_db w)). u_id r = target \<and>
      derive_key_if_valid P cfg (u_name r) pw (app_auth w') = (Inr (Some mk), app_auth w')"
    "same_but_audit (app_db w\<lparr>users := users (app_db w')\<rparr>) (app_db w')"
    "user_ids (app_db w') = user_ids (app_db w)"
proof -
  from run obtain a t fresh a1 env a2 s1 a3 where
    t: "user_get_by_id target (app_db w) = (Inr (Some t), app_db w)"
    and d: "user_update_password_envelope target env (app_db w) = (Inr (), s1)"
    and key: "derive_key_if_valid P cfg (username t) pw a2 = (Inr (Some mk), a3)"
    and ev: "record_event (Some actor) UserPasswordReset (Some ''user'') (Some (TargetId target)) None s1 = (Inr (), app_db w')"
    and auth: "app_auth w' = a3"
    by (auto simp: admin_reset_user_password_def returns_iff on_db_returns on_auth_returns user_found_returns
        require_admin_returns [OF ok])
  from t obtain r where r: "r \<in> set (users (app_db w))" "u_id r = target" "row_to_user r = Inr t"
    by (auto simp: user_get_by_id_returns dest: first_row_SomeD)
  have "a3 = a2" using key by (simp add: derive_if_valid_returns)
  with r key auth row_to_user_fields [OF r(3)]
  show "\<exists>r\<in>set (users (app_db w)). u_id r = target \<and>
      derive_key_if_valid P cfg (u_name r) pw (app_auth w') = (Inr (Some mk), app_auth w')" by auto
  have same: "same_but_audit s1 (app_db w')" using ev by (rule record_event_same)
  note s1 = update_envelope_returns [OF d]
  show "same_but_audit (app_db w\<lparr>users := users (app_db w')\<rparr>) (app_db w')"
    using same s1 by (simp add: same_but_audit_def)
  show "user_ids (app_db w') = user_ids (app_db w)"
    using same s1 by (simp add: same_but_audit_def user_ids_def table_simps)
qed

text \<open>After a reset by an administrator the new password derives the master key that is returned, but every vault
  opens with exactly the keys that opened it before: the reset seals no vault for the new key, so the
  account reaches its own vaults only if the new key happens to be the old one.\<close>

theorem reset_does_not_rewrap_vaults:
  assumes laws: "aead_laws P" and ok: "db_ok (app_db w)"
    and run: "admin_reset_user_password P cfg rnd actor target pw w = (Inr mk, w')"
  shows "(\<exists>r\<in>set (users (app_db w)). u_id r = target \<and>
            derive_key_if_valid P cfg (u_name r) pw (app_auth w') = (Inr (Some mk), app_auth w')) \<and>
         (\<forall>x vid k key. (\<exists>t. open_vault_for_user P x vid k (app_db w') = (Inr key, t)) \<longleftrightarrow>
            (\<exists>t. open_vault_for_user P x vid k (app_db w) = (Inr key, t)))"
proof -
  note eff = reset_effect [OF ok run]
  have "db_ok (app_db w')" using keeps_run [OF admin_service_keeps(4) run] ok by simp
  moreover have "vaults (app_db w') = vaults (app_db w)" "shares (app_db w') = shares (app_db w)"
    using eff(2) by (simp_all add: same_but_audit_def)
  ultimately show ?thesis using opens_as_before [OF laws ok] eff(1,3) by blast
qed

section \<open>The list after a change\<close>

text \<open>No task is under way whose answer will fill the list.\<close>

definition nothing_fills :: "users_window \<Rightarrow> bool" where
  "nothing_fills w \<longleftrightarrow> (\<forall>t\<in>set (uw_tasks w). t \<noteq> FillTask \<and> (\<forall>name pw ro. t \<noteq> CreateTask name pw ro))"

definition has_admin :: "app \<Rightarrow> bool" where
  "has_admin a \<longleftrightarrow> db_ok (app_db a) \<and> admins (app_db a) \<noteq> []"

lemma drop_task_nothing: "nothing_fills w \<Longrightarrow> nothing_fills (drop_task i w)"
  by (auto simp: nothing_fills_def drop_task_def dest: in_set_takeD in_set_dropD)

lemma admins_kept_by_map:
  assumes "\<And>r. u_role (f r) = u_role r"
  shows "admins (s\<lparr>users := update_rows p f (users s)\<rparr>) = update_rows p f (admins s)"
proof -
  have "u_role (if p r then f r else r) = u_role r" for r by (simp add: assms)
  then show ?thesis by (simp add: admins_def update_rows_def filter_map comp_def)
qed

lemma update_envelope_keeps_admins: "keeps (\<lambda>s. admins s \<noteq> []) (user_update_password_envelope uid env)"
proof (rule keepsI)
  fix s assume adm: "admins s \<noteq> []"
  then show "admins (snd (user_update_password_envelope uid env s)) \<noteq> []"
    by (auto simp: user_update_password_envelope_def require_rows_def update_users_def bindE_run run_simps Let_def
        admins_kept_by_map) (simp add: update_rows_def)
qed

lemma record_event_keeps_admins: "keeps (\<lambda>s. admins s \<noteq> []) (record_event a b c d e)"
proof (rule keepsI)
  fix s assume "admins s \<noteq> []"
  then show "admins (snd (record_event a b c d e s)) \<noteq> []"
    using record_event_same [of a b c d e s] by (cases "record_event a b c d e s") (auto simp: admins_def same_but_audit_def)
qed

lemma reset_keeps_admins: "keeps (\<lambda>w. admins (app_db w) \<noteq> []) (admin_reset_user_password P cfg rnd actor target pw)"
  unfolding admin_reset_user_password_def
  by (intro app_part_keeps on_auth_keeps_db on_db_keeps update_envelope_keeps_admins record_event_keeps_admins step_intros)

lemma task_keeps_admins:
  assumes "has_admin a" and "\<And>name pw ro. t \<noteq> CreateTask name pw ro"
  shows "has_admin (snd (run_users_task P cfg d actor t a))"
proof -
  have step: "has_admin (snd (bindE m (\<lambda>x. ret (g x)) a))" if "keeps (\<lambda>w. db_ok (app_db w)) m" "admins (app_db (snd (m a))) \<noteq> []"
    for m :: "'b appm" and g :: "'b \<Rightarrow> users_answer"
    using keepsD [OF that(1), of a] that(2) assms(1)
    by (cases "m a"; cases "fst (m a)") (auto simp: has_admin_def bindE_run run_simps)
  have reads: "reads_only (admin_list_all_users actor)" by (intro step_intros)
  have admins: "db_ok (app_db a)" "admins (app_db a) \<noteq> []" using assms(1) by (simp_all add: has_admin_def)
  show ?thesis
  proof (cases t)
    case (RoleTask uid ro)
    then show ?thesis using step [OF admin_service_keeps(3)] role_change_keeps_an_admin [OF admins] by simp
  next
    case (DeleteTask uid)
    then show ?thesis using step [OF admin_service_keeps(2)] delete_keeps_an_admin [OF admins] by simp
  next
    case (ResetTask uid pw)
    then show ?thesis using step [OF admin_service_keeps(4)] keepsD [OF reset_keeps_admins admins(2)] by simp
  qed (use step [OF keeps_reads [OF reads]] reads_onlyD [OF reads] admins(2) assms(2) in simp_all)
qed

text \<open>Nothing fills the list until a new account is asked for.\<close>

definition emptied_list :: "users_window \<Rightarrow> bool" where
  "emptied_list w \<longleftrightarrow> uw_rows w = [] \<and> nothing_fills w \<and> has_admin (uw_app w)"

lemma alert_fields [simp]:
  "uw_rows (users_alert U e w) = uw_rows w" "uw_tasks (users_alert U e w) = uw_tasks w" "uw_app (users_alert U e w) = uw_app w"
  by (simp_all add: users_alert_def)

lemma drop_task_fields [simp]: "uw_rows (drop_task i w) = uw_rows w" "uw_app (drop_task i w) = uw_app w"
  by (simp_all add: drop_task_def)

lemma answered_empty:
  assumes "nothing_fills w" and "t \<noteq> FillTask" "\<And>name pw ro. t \<noteq> CreateTask name pw ro"
    and "uw_rows w = [] \<or> (\<exists>uid ro. t = RoleTask uid ro \<or> t = DeleteTask uid)" and "has_admin (uw_app w)"
  shows "emptied_list (users_answered U t x w)"
  using assms
  by (cases t; cases x) (auto simp: emptied_list_def refresh_toggle_def start_task_def nothing_fills_def)

lemma task_answers_empty:
  assumes quiet: "nothing_fills w" and i: "i < length (uw_tasks w)" and adm: "has_admin (uw_app w)"
    and rows: "uw_rows w = [] \<or>
      (\<exists>uid ro. uw_tasks w ! i = RoleTask uid ro \<or> uw_tasks w ! i = DeleteTask uid) \<and>
      (\<exists>x. fst (run_users_task P cfg d actor (uw_tasks w ! i) (uw_app w)) = Inr x)"
  shows "emptied_list (task_answers U P cfg actor i d w)"
proof -
  let ?t = "uw_tasks w ! i"
  have "?t \<in> set (uw_tasks w)" using i by simp
  then have t: "?t \<noteq> FillTask" "\<And>name pw ro. ?t \<noteq> CreateTask name pw ro" using quiet by (auto simp: nothing_fills_def)
  obtain r a where run: "run_users_task P cfg d actor ?t (uw_app w) = (r, a)" by fastforce
  have a: "has_admin a" using task_keeps_admins [OF adm t(2), of P cfg d actor] by (simp add: run)
  let ?w = "drop_task i w\<lparr>uw_app := a\<rparr>"
  have quiet': "nothing_fills ?w" using drop_task_nothing [OF quiet, of i] by (simp add: nothing_fills_def)
  show ?thesis
  proof (cases r)
    case (Inl e)
    then have "uw_rows w = []" using rows by (auto simp: run)
    with Inl a quiet' show ?thesis by (simp add: task_answers_def run emptied_list_def nothing_fills_def)
  next
    case (Inr x)
    have "emptied_list (users_answered U ?t x ?w)"
      using rows by (intro answered_empty [OF quiet' t]) (auto simp: a)
    with Inr show ?thesis by (simp add: task_answers_def run)
  qed
qed

lemma step_keeps_empty:
  assumes "emptied_list w" and "\<And>name pw c. e \<noteq> CreateClicked name pw c"
  shows "emptied_list (users_step U P cfg actor e w)"
  using assms
proof (cases e)
  case (TaskAnswers i d)
  then show ?thesis using assms(1) task_answers_empty [of w i P cfg d actor U] by (simp add: emptied_list_def)
next
  case (TaskIsLost i)
  then show ?thesis using assms(1) drop_task_nothing [of w i] by (auto simp: emptied_list_def nothing_fills_def)
qed (auto simp: emptied_list_def start_task_def nothing_fills_def toggle_clicked_def deletion_confirmed_def reset_applied_def)

text \<open>When a change of role or a deletion returns, the list of accounts is emptied and stays so whatever is
  clicked and answered, until a new account is asked for; the accounts themselves are not empty, they have
  an administrator.\<close>

theorem a_changed_account_empties_the_list:
  assumes adm: "has_admin (uw_app w)" and quiet: "nothing_fills w" and i: "i < length (uw_tasks w)"
    and change: "uw_tasks w ! i = RoleTask uid ro \<or> uw_tasks w ! i = DeleteTask uid"
    and returns: "fst (run_users_task P cfg d actor (uw_tasks w ! i) (uw_app w)) = Inr x"
    and later: "\<And>name pw c. CreateClicked name pw c \<notin> set es"
  shows "uw_rows (users_run U P cfg actor (TaskAnswers i d # es) w) = [] \<and>
         admins (app_db (uw_app (users_run U P cfg actor (TaskAnswers i d # es) w))) \<noteq> []"
proof -
  let ?w = "users_step U P cfg actor (TaskAnswers i d) w"
  have first: "emptied_list ?w" using task_answers_empty [OF quiet i adm] change returns i by auto
  have "emptied_list (fold (users_step U P cfg actor) es v)" if "emptied_list v" for v
    using that later
  proof (induction es arbitrary: v)
    case (Cons e es)
    have "emptied_list (users_step U P cfg actor e v)" using Cons.prems by (intro step_keeps_empty) auto
    then show ?case using Cons by simp
  qed simp
  from this [OF first] show ?thesis by (simp add: users_run_def emptied_list_def has_admin_def)
qed

end
