(* ===== verification/Teams_Dialog.thy ===== *)
theory Teams_Dialog
  imports Users_Dialog Team_Service
begin

text \<open>
  The administration of teams (\<open>ui/dialogs/manage_teams_dialog.rs\<close>): the list of the teams, the window of the
  members of a team, the window in which a vault is chosen to be shared with a team, and the buttons.  As in
  \<open>Users_Dialog\<close> a click starts a task whose answer reaches the window later.  The two small windows are
  numbered: an answer for a window that has been replaced changes nothing that is shown.
\<close>

section \<open>Rows and pickers\<close>

record team_line =
  tl_id :: uuid
  tl_name :: string
  tl_created :: string

definition team_line_of :: "ui_crates \<Rightarrow> team \<Rightarrow> team_line" where
  "team_line_of U t = \<lparr> tl_id = team_id t, tl_name = team_name t, tl_created = show_time U (team_created_at t) \<rparr>"

record member_line =
  ml_user :: uuid
  ml_role :: string

definition member_line_of :: "ui_crates \<Rightarrow> team_member \<Rightarrow> member_line" where
  "member_line_of U m = \<lparr> ml_user = tm_user m,
     ml_role = tr U (case tm_role m of Leader \<Rightarrow> ''manage-teams-role-leader'' | Member \<Rightarrow> ''manage-teams-role-member'') \<rparr>"

text \<open>The entry 0 of a picker is its placeholder; the ids stand beside the entries after it.\<close>

definition picked :: "string \<Rightarrow> string \<Rightarrow> uuid list \<Rightarrow> 32 word \<Rightarrow> app_error + uuid" where
  "picked none_msg bad_msg ids selected =
     (if selected = 0 then Inl (Validation none_msg)
      else let index = unat (selected - 1) in
        if length ids \<le> index then Inl (Validation bad_msg) else Inr (ids ! index))"

definition member_role_choice :: "32 word \<Rightarrow> team_member_role" where
  "member_role_choice selected = (if selected = 1 then Leader else Member)"

section \<open>The tasks\<close>

datatype teams_task =
    FillTeams
  | FillMembers nat uuid
  | FillVaults nat string
  | AddTask nat uuid uuid team_member_role
  | RemoveTask nat uuid uuid
  | ShareTask nat uuid uuid bytes
  | DeleteTeamTask uuid
  | CreateTeamTask string

datatype teams_answer =
    Teams "team list"
  | Members "team_member list" "user list"
  | Vaults "vault list"
  | Done

record teams_draws =
  td_team :: uuid
  td_nonces :: "uuid \<Rightarrow> bytes option"

definition load_members_task :: "uuid \<Rightarrow> uuid \<Rightarrow> (team_member list \<times> user list) dbm" where
  "load_members_task actor tid =
     bindE (list_team_members actor tid) (\<lambda>ms.
     bindE (list_users_for_member_picker actor) (\<lambda>us. ret (ms, us)))"

text \<open>The vault is opened with the key of the session, and its key handed to the team; no key of a member is
  supplied.\<close>

definition share_vault_task :: "primitives \<Rightarrow> (uuid \<Rightarrow> bytes option) \<Rightarrow> uuid \<Rightarrow> uuid \<Rightarrow> uuid \<Rightarrow> bytes \<Rightarrow> unit dbm" where
  "share_vault_task P nonces actor tid vid master =
     bindE (open_vault_for_user P actor vid master) (\<lambda>vault_key.
     share_vault_with_team P nonces actor vid tid vault_key [])"

fun run_teams_task :: "primitives \<Rightarrow> teams_draws \<Rightarrow> uuid \<Rightarrow> teams_task \<Rightarrow> teams_answer dbm" where
  "run_teams_task P d actor FillTeams = bindE (list_visible_teams actor) (\<lambda>ts. ret (Teams ts))"
| "run_teams_task P d actor (FillMembers n tid) = bindE (load_members_task actor tid) (\<lambda>(ms, us). ret (Members ms us))"
| "run_teams_task P d actor (FillVaults n name) = bindE (list_owned_vaults actor) (\<lambda>vs. ret (Vaults vs))"
| "run_teams_task P d actor (AddTask n tid uid ro) = bindE (add_member actor tid uid ro) (\<lambda>_. ret Done)"
| "run_teams_task P d actor (RemoveTask n tid uid) = bindE (remove_member actor tid uid) (\<lambda>_. ret Done)"
| "run_teams_task P d actor (ShareTask n tid vid master) =
     bindE (share_vault_task P (td_nonces d) actor tid vid master) (\<lambda>_. ret Done)"
| "run_teams_task P d actor (DeleteTeamTask tid) = bindE (delete_team actor tid) (\<lambda>_. ret Done)"
| "run_teams_task P d actor (CreateTeamTask name) = bindE (create_team (td_team d) actor name) (\<lambda>_. ret Done)"

section \<open>The window\<close>

record members_window =
  mw_number :: nat
  mw_team :: uuid
  mw_rows :: "member_line list"
  mw_labels :: "string list"
  mw_ids :: "uuid list"

record share_window =
  sw_number :: nat
  sw_team :: uuid
  sw_master :: bytes
  sw_labels :: "string list"
  sw_ids :: "uuid list"
  sw_status :: "string \<times> string option"
  sw_sensitive :: bool

datatype notice = ErrorNotice string app_error | WarningNotice string string

record teams_window =
  gw_db :: db
  gw_rows :: "team_line list"
  gw_members :: "members_window option"
  gw_share :: "share_window option"
  gw_tasks :: "teams_task list"
  gw_notices :: "notice list"
  gw_windows :: nat
  gw_changes :: nat
  gw_master :: bytes

definition teams_notice :: "notice \<Rightarrow> teams_window \<Rightarrow> teams_window" where
  "teams_notice x w = w\<lparr>gw_notices := gw_notices w @ [x]\<rparr>"

definition teams_error :: "ui_crates \<Rightarrow> app_error \<Rightarrow> teams_window \<Rightarrow> teams_window" where
  "teams_error U e = teams_notice (ErrorNotice (error_title U ''manage-teams'' e) e)"

definition start_teams_task :: "teams_task \<Rightarrow> teams_window \<Rightarrow> teams_window" where
  "start_teams_task t w = w\<lparr>gw_tasks := gw_tasks w @ [t]\<rparr>"

definition refresh_teams :: "teams_window \<Rightarrow> teams_window" where
  "refresh_teams w = start_teams_task FillTeams (w\<lparr>gw_rows := []\<rparr>)"

definition open_teams_window :: "db \<Rightarrow> bytes \<Rightarrow> teams_window" where
  "open_teams_window s master = refresh_teams \<lparr> gw_db = s, gw_rows = [], gw_members = None, gw_share = None, gw_tasks = [],
     gw_notices = [], gw_windows = 0, gw_changes = 0, gw_master = master \<rparr>"

text \<open>The window of the members, and the change of the one with a number when it is still there.\<close>

definition on_members :: "nat \<Rightarrow> (members_window \<Rightarrow> members_window) \<Rightarrow> teams_window \<Rightarrow> teams_window" where
  "on_members n f w =
     w\<lparr>gw_members := map_option (\<lambda>m. if mw_number m = n then f m else m) (gw_members w)\<rparr>"

definition refresh_members :: "nat \<Rightarrow> uuid \<Rightarrow> teams_window \<Rightarrow> teams_window" where
  "refresh_members n tid w = start_teams_task (FillMembers n tid) (on_members n (\<lambda>m. m\<lparr>mw_rows := []\<rparr>) w)"

definition members_clicked :: "ui_crates \<Rightarrow> team_line \<Rightarrow> teams_window \<Rightarrow> teams_window" where
  "members_clicked U l w =
     refresh_members (gw_windows w) (tl_id l)
       (w\<lparr>gw_windows := gw_windows w + 1, gw_members := Some \<lparr> mw_number = gw_windows w, mw_team = tl_id l, mw_rows = [],
          mw_labels = [tr U ''manage-teams-member-picker-placeholder''], mw_ids = [] \<rparr>\<rparr>)"

definition fill_members :: "ui_crates \<Rightarrow> team_member list \<Rightarrow> user list \<Rightarrow> members_window \<Rightarrow> members_window" where
  "fill_members U ms us m = m\<lparr>mw_ids := map user_id us,
     mw_labels := tr U ''manage-teams-member-picker-placeholder'' # map username us,
     mw_rows := mw_rows m @ map (member_line_of U) ms\<rparr>"

definition add_clicked :: "ui_crates \<Rightarrow> 32 word \<Rightarrow> 32 word \<Rightarrow> members_window \<Rightarrow> teams_window \<Rightarrow> teams_window" where
  "add_clicked U selected role_selected m w =
     (case picked (tr U ''manage-teams-error-select-user'') (tr U ''manage-teams-error-invalid-user'') (mw_ids m) selected of
        Inl e \<Rightarrow> teams_error U e w
      | Inr uid \<Rightarrow> start_teams_task (AddTask (mw_number m) (mw_team m) uid (member_role_choice role_selected)) w)"

definition remove_clicked :: "member_line \<Rightarrow> members_window \<Rightarrow> teams_window \<Rightarrow> teams_window" where
  "remove_clicked l m = start_teams_task (RemoveTask (mw_number m) (mw_team m) (ml_user l))"

definition team_create_clicked :: "string \<Rightarrow> teams_window \<Rightarrow> teams_window" where
  "team_create_clicked name = start_teams_task (CreateTeamTask name)"

definition team_deletion_confirmed :: "team_line \<Rightarrow> teams_window \<Rightarrow> teams_window" where
  "team_deletion_confirmed l = start_teams_task (DeleteTeamTask (tl_id l))"

text \<open>The window in which a vault is chosen; its text is a key of the translation and the name it is given.\<close>

definition share_clicked :: "ui_crates \<Rightarrow> team_line \<Rightarrow> teams_window \<Rightarrow> teams_window" where
  "share_clicked U l w =
     (if gw_master w = [] then
        teams_notice (WarningNotice (tr U ''manage-teams-warning-vault-locked-title'') (tr U ''manage-teams-warning-vault-locked-body'')) w
      else start_teams_task (FillVaults (gw_windows w) (tl_name l))
        (w\<lparr>gw_windows := gw_windows w + 1, gw_share := Some \<lparr> sw_number = gw_windows w, sw_team = tl_id l, sw_master = gw_master w,
           sw_labels = [tr U ''manage-teams-share-select-placeholder''], sw_ids = [], sw_status = ([], None), sw_sensitive = True \<rparr>\<rparr>))"

definition on_share :: "nat \<Rightarrow> (share_window \<Rightarrow> share_window) \<Rightarrow> teams_window \<Rightarrow> teams_window" where
  "on_share n f w = w\<lparr>gw_share := map_option (\<lambda>x. if sw_number x = n then f x else x) (gw_share w)\<rparr>"

definition fill_vaults :: "ui_crates \<Rightarrow> string \<Rightarrow> vault list \<Rightarrow> share_window \<Rightarrow> share_window" where
  "fill_vaults U name vs x =
     (if vs = [] then x\<lparr>sw_sensitive := False, sw_status := (tr U ''manage-teams-share-select-empty'', None)\<rparr>
      else x\<lparr>sw_ids := map vault_id vs, sw_labels := tr U ''manage-teams-share-select-placeholder'' # map vault_name vs,
             sw_status := (tr U ''manage-teams-share-select-status'', Some name)\<rparr>)"

definition vaults_unavailable :: "ui_crates \<Rightarrow> share_window \<Rightarrow> share_window" where
  "vaults_unavailable U x = x\<lparr>sw_sensitive := False, sw_status := (tr U ''main-list-unavailable-description'', None)\<rparr>"

definition share_applied :: "ui_crates \<Rightarrow> 32 word \<Rightarrow> share_window \<Rightarrow> teams_window \<Rightarrow> teams_window" where
  "share_applied U selected x w =
     (case picked (tr U ''manage-teams-error-select-vault'') (tr U ''manage-teams-error-select-vault'') (sw_ids x) selected of
        Inl e \<Rightarrow> teams_error U e w
      | Inr vid \<Rightarrow> start_teams_task (ShareTask (sw_number x) (sw_team x) vid (sw_master x)) w)"

definition close_share :: "nat \<Rightarrow> teams_window \<Rightarrow> teams_window" where
  "close_share n w =
     (case gw_share w of Some x \<Rightarrow> if sw_number x = n then w\<lparr>gw_share := None\<rparr> else w | None \<Rightarrow> w)"

definition share_done :: "ui_crates \<Rightarrow> nat \<Rightarrow> teams_window \<Rightarrow> teams_window" where
  "share_done U n w =
     teams_notice (WarningNotice (tr U ''manage-teams-warning-share-title'') (tr U ''manage-teams-warning-share-body''))
       (let w = close_share n w in w\<lparr>gw_changes := gw_changes w + 1\<rparr>)"

section \<open>Answers and events\<close>

fun teams_answered :: "ui_crates \<Rightarrow> teams_task \<Rightarrow> teams_answer \<Rightarrow> teams_window \<Rightarrow> teams_window" where
  "teams_answered U FillTeams (Teams ts) w = w\<lparr>gw_rows := gw_rows w @ map (team_line_of U) ts\<rparr>"
| "teams_answered U (FillMembers n tid) (Members ms us) w = on_members n (fill_members U ms us) w"
| "teams_answered U (FillVaults n name) (Vaults vs) w = on_share n (fill_vaults U name vs) w"
| "teams_answered U (AddTask n tid uid ro) a w = refresh_members n tid w"
| "teams_answered U (RemoveTask n tid uid) a w = refresh_members n tid w"
| "teams_answered U (ShareTask n tid vid mk) a w = share_done U n w"
| "teams_answered U (DeleteTeamTask tid) a w = refresh_teams w"
| "teams_answered U (CreateTeamTask name) a w = refresh_teams w"
| "teams_answered U t a w = w"

fun teams_failed :: "ui_crates \<Rightarrow> teams_task \<Rightarrow> app_error \<Rightarrow> teams_window \<Rightarrow> teams_window" where
  "teams_failed U (FillVaults n name) e w = on_share n (vaults_unavailable U) w"
| "teams_failed U t e w = teams_error U e w"

definition drop_teams_task :: "nat \<Rightarrow> teams_window \<Rightarrow> teams_window" where
  "drop_teams_task i w = w\<lparr>gw_tasks := take i (gw_tasks w) @ drop (Suc i) (gw_tasks w)\<rparr>"

definition teams_task_answers ::
  "ui_crates \<Rightarrow> primitives \<Rightarrow> uuid \<Rightarrow> nat \<Rightarrow> teams_draws \<Rightarrow> teams_window \<Rightarrow> teams_window" where
  "teams_task_answers U P actor i d w =
     (let t = gw_tasks w ! i; (r, s) = run_teams_task P d actor t (gw_db w); w = (drop_teams_task i w)\<lparr>gw_db := s\<rparr> in
      case r of Inl e \<Rightarrow> teams_failed U t e w | Inr x \<Rightarrow> teams_answered U t x w)"

text \<open>\<open>SessionLocked\<close> is the wiping of the session's master key by the main window, whose cell the dialog
  shares.  As in \<open>Users_Dialog\<close>, a lost task has changed nothing.\<close>

datatype teams_event =
    TeamCreateClicked string
  | TeamDeletionConfirmed team_line
  | MembersClicked team_line
  | AddClicked "32 word" "32 word"
  | RemoveClicked member_line
  | ShareClicked team_line
  | ShareApplied "32 word"
  | ShareClosed
  | MembersClosed
  | TeamsHidden
  | SessionLocked
  | TeamsTaskAnswers nat teams_draws
  | TeamsTaskIsLost nat

fun teams_step :: "ui_crates \<Rightarrow> primitives \<Rightarrow> uuid \<Rightarrow> teams_event \<Rightarrow> teams_window \<Rightarrow> teams_window" where
  "teams_step U P actor (TeamCreateClicked name) w = team_create_clicked name w"
| "teams_step U P actor (TeamDeletionConfirmed l) w = team_deletion_confirmed l w"
| "teams_step U P actor (MembersClicked l) w = members_clicked U l w"
| "teams_step U P actor (AddClicked selected role_selected) w =
     (case gw_members w of None \<Rightarrow> w | Some m \<Rightarrow> add_clicked U selected role_selected m w)"
| "teams_step U P actor (RemoveClicked l) w =
     (case gw_members w of None \<Rightarrow> w | Some m \<Rightarrow> remove_clicked l m w)"
| "teams_step U P actor (ShareClicked l) w = share_clicked U l w"
| "teams_step U P actor (ShareApplied selected) w =
     (case gw_share w of None \<Rightarrow> w | Some x \<Rightarrow> if sw_sensitive x then share_applied U selected x w else w)"
| "teams_step U P actor ShareClosed w = w\<lparr>gw_share := None\<rparr>"
| "teams_step U P actor MembersClosed w = w\<lparr>gw_members := None\<rparr>"
| "teams_step U P actor TeamsHidden w = w\<lparr>gw_changes := gw_changes w + 1\<rparr>"
| "teams_step U P actor SessionLocked w = w\<lparr>gw_master := []\<rparr>"
| "teams_step U P actor (TeamsTaskAnswers i d) w =
     (if i < length (gw_tasks w) then teams_task_answers U P actor i d w else w)"
| "teams_step U P actor (TeamsTaskIsLost i) w =
     (if i < length (gw_tasks w) then teams_failed U (gw_tasks w ! i) Internal (drop_teams_task i w) else w)"

definition teams_run :: "ui_crates \<Rightarrow> primitives \<Rightarrow> uuid \<Rightarrow> teams_event list \<Rightarrow> teams_window \<Rightarrow> teams_window" where
  "teams_run U P actor es w = fold (teams_step U P actor) es w"

end
