(* ===== verification/Teams_Dialog_Properties.thy ===== *)
theory Teams_Dialog_Properties
  imports Teams_Dialog Team_Properties
begin

text \<open>
  What the administration of teams can do to the access to vaults: every share it makes is of a vault its user
  owns, and gives the members of the team the key its user opens the vault with.
\<close>

section \<open>What a task does to the shares\<close>

text \<open>The vaults stay, and a share that is new is of one of the vaults of a set.\<close>

definition shares_within :: "uuid set \<Rightarrow> db \<Rightarrow> db \<Rightarrow> bool" where
  "shares_within own s s' \<longleftrightarrow> vaults s' = vaults s \<and>
     (\<forall>k\<in>set (shares s'). share_key k \<in> share_key ` set (shares s) \<or> k_vault k \<in> own)"

interpretation within: step_order "shares_within own"
  by unfold_locales (fastforce simp: shares_within_def image_iff share_key_def)+

lemma within_same: "shares s' = shares s \<Longrightarrow> vaults s' = vaults s \<Longrightarrow> shares_within own s s'"
  by (simp add: shares_within_def)

lemma within_audit: "moves (shares_within own) (record_event a b c d e)"
  using record_event_same [of a b c d e] unfolding moves_def
  by (metis same_but_audit_def within_same prod.collapse)

lemma within_exec:
  assumes "\<And>s s'. f s = Inr s' \<Longrightarrow> shares_within own s s'"
  shows "moves (shares_within own) (exec_sql f)"
  using assms by (auto simp: moves_def exec_sql_def within.R_refl split: sum.split)

lemma within_team: "moves (shares_within own) (exec_sql (insert_team_row r))"
  by (rule within_exec) (auto simp: insert_team_row_def intro!: within_same split: if_splits)

lemma within_member: "moves (shares_within own) (exec_sql (upsert_member_row r))"
  by (rule within_exec) (auto simp: upsert_member_row_def intro!: within_same split: if_splits)

lemma within_upsert: "k_vault r \<in> own \<Longrightarrow> moves (shares_within own) (exec_sql (upsert_share_row r))"
  by (rule within_exec)
    (auto simp: upsert_share_is_put put_share_def shares_within_def set_update_rows split: if_splits)

lemma within_delete_team: "moves (shares_within own) (modify (delete_team_row tid))"
  by (auto simp: moves_def run_simps shares_within_def delete_team_row_def update_rows_def share_key_def)

lemma within_delete_members: "moves (shares_within own) (delete_members p)"
  by (simp add: moves_def delete_members_def shares_within_def)

lemma within_delete_shares: "moves (shares_within own) (delete_shares p)"
  by (auto simp: moves_def delete_shares_def shares_within_def set_delete_rows)

lemmas within_steps =
  within.moves_bindE within.moves_pure within.moves_cond within.moves_option within.moves_sum within.moves_pair
  within_audit within_team within_member within_delete_team within_delete_members within_delete_shares

lemma within_reads:
  "moves (shares_within own) (require_user uid msg)" "moves (shares_within own) (require_team_permission uid tid act)"
  "moves (shares_within own) (team_get_by_id tid)" "moves (shares_within own) (fetch_optional tbl p)"
  "moves (shares_within own) (team_list_member_user_ids tid)" "moves (shares_within own) (resolve_member_master_key m keys)"
  by (intro within.moves_of_reads step_intros)+

lemma within_share_loop:
  "vid \<in> own \<Longrightarrow> moves (shares_within own) (share_vault_with_members P nonces g vid tid key keys ms i j)"
  by (induction ms arbitrary: i j)
    (auto simp: insert_team_key_share_def vault_insert_key_share_def intro!: within_steps within_reads within_upsert)

definition shared_vault :: "teams_task \<Rightarrow> uuid set" where
  "shared_vault t = (case t of ShareTask n tid vid mk \<Rightarrow> {vid} | _ \<Rightarrow> {})"

lemma within_task:
  assumes "shared_vault t \<subseteq> own"
  shows "moves (shares_within own) (run_teams_task P d actor t)"
proof (cases t)
  case (ShareTask n tid vid mk)
  have opened: "moves (shares_within own) (open_vault_for_user P actor vid mk)"
    unfolding moves_def by (metis open_state same_but_audit_def within_same prod.collapse)
  from ShareTask assms have "vid \<in> own" by (simp add: shared_vault_def)
  then show ?thesis
    unfolding ShareTask run_teams_task.simps share_vault_task_def share_vault_with_team_def record_team_share_event_def
    by (intro opened within_steps within_reads within_share_loop) simp
next
  case (CreateTeamTask name)
  then show ?thesis
    unfolding CreateTeamTask run_teams_task.simps create_team_def team_create_def team_add_member_def
    by (intro within_steps within_reads)
next
  case (DeleteTeamTask tid)
  then show ?thesis
    unfolding DeleteTeamTask run_teams_task.simps delete_team_def team_delete_def
    by (intro within_steps within_reads)
next
  case (AddTask n tid uid ro)
  then show ?thesis
    unfolding AddTask run_teams_task.simps add_member_def team_add_member_def
    by (intro within_steps within_reads)
next
  case (RemoveTask n tid uid)
  then show ?thesis
    unfolding RemoveTask run_teams_task.simps remove_member_def team_remove_member_def vault_delete_shares_via_team_def
      require_rows_def
    by (intro within_steps within_reads)
next
  case (FillMembers n tid)
  then show ?thesis unfolding FillMembers run_teams_task.simps load_members_task_def
    by (intro within_steps within.moves_of_reads step_intros)
qed (simp_all only: run_teams_task.simps, (intro within_steps within.moves_of_reads step_intros)+)

section \<open>Only own vaults are shared\<close>

definition owned_vaults :: "db \<Rightarrow> uuid \<Rightarrow> uuid set" where
  "owned_vaults s actor = v_id ` {v \<in> set (vaults s). v_owner v = actor}"

lemma listed_vaults_owned:
  assumes "list_owned_vaults actor s = (Inr vs, s')"
  shows "vault_id ` set vs \<subseteq> owned_vaults s actor"
proof -
  from assms obtain u t where user: "listing_user actor s = (Inr u, t)" and listed: "vault_list_by_user_id actor t = (Inr vs, s')"
    by (auto simp: list_owned_vaults_def vault_list_owned_def returns_iff)
  have "t = s" by (rule reads_only_run [OF vault_service_helpers_read(3) user])
  with listed show ?thesis
    by (auto simp: vault_list_by_user_id_def returns_iff run_simps owned_vaults_def row_to_vault_def)
qed

definition sharing_own :: "uuid set \<Rightarrow> db \<Rightarrow> teams_window \<Rightarrow> bool" where
  "sharing_own own s w \<longleftrightarrow> shares_within own s (gw_db w) \<and>
     (\<forall>x. gw_share w = Some x \<longrightarrow> set (sw_ids x) \<subseteq> own) \<and> (\<forall>t\<in>set (gw_tasks w). shared_vault t \<subseteq> own)"

lemma own_start: "sharing_own own s w \<Longrightarrow> shared_vault t \<subseteq> own \<Longrightarrow> sharing_own own s (start_teams_task t w)"
  by (auto simp: sharing_own_def start_teams_task_def)

lemma own_drop: "sharing_own own s w \<Longrightarrow> sharing_own own s (drop_teams_task i w)"
  by (auto simp: sharing_own_def drop_teams_task_def dest: in_set_takeD in_set_dropD)

lemma own_frame:
  "sharing_own own s w \<Longrightarrow> gw_db w' = gw_db w \<Longrightarrow> gw_tasks w' = gw_tasks w \<Longrightarrow>
     gw_share w' = gw_share w \<or> gw_share w' = None \<Longrightarrow> sharing_own own s w'"
  by (auto simp: sharing_own_def)

lemma own_share_window:
  assumes "sharing_own own s w" and "\<And>x. set (sw_ids x) \<subseteq> own \<Longrightarrow> set (sw_ids (f x)) \<subseteq> own"
  shows "sharing_own own s (on_share n f w)"
  using assms by (auto simp: sharing_own_def on_share_def)

lemma own_refresh:
  assumes "sharing_own own s w"
  shows "sharing_own own s (refresh_teams w)" "sharing_own own s (refresh_members n tid w)"
  unfolding refresh_teams_def refresh_members_def
  by (rule own_start, rule own_frame [OF assms]; simp add: shared_vault_def on_members_def)+

lemma own_error: "sharing_own own s w \<Longrightarrow> sharing_own own s (teams_error U e w)"
  by (erule own_frame) (simp_all add: teams_error_def teams_notice_def)

lemma own_failed: "sharing_own own s w \<Longrightarrow> sharing_own own s (teams_failed U t e w)"
  by (cases t) (auto intro!: own_error own_share_window simp: vaults_unavailable_def)

lemma own_answered:
  assumes "sharing_own own s w" and "\<And>n name vs. t = FillVaults n name \<Longrightarrow> a = Vaults vs \<Longrightarrow> vault_id ` set vs \<subseteq> own"
  shows "sharing_own own s (teams_answered U t a w)"
proof (cases t)
  case (ShareTask n tid vid mk)
  have "sharing_own own s (share_done U n w)"
    by (rule own_frame [OF assms(1)])
      (auto simp: share_done_def close_share_def teams_notice_def Let_def split: option.split)
  then show ?thesis by (simp add: ShareTask)
next
  case (FillVaults n name)
  show ?thesis
  proof (cases a)
    case (Vaults vs)
    have "vault_id ` set vs \<subseteq> own" by (rule assms(2) [OF FillVaults Vaults])
    then have "sharing_own own s (on_share n (fill_vaults U name vs) w)"
      by (intro own_share_window [OF assms(1)]) (simp add: fill_vaults_def)
    then show ?thesis by (simp add: FillVaults Vaults)
  qed (use assms(1) in \<open>simp_all add: FillVaults\<close>)
next
  case FillTeams
  then show ?thesis by (cases a) (auto intro: assms(1) own_frame [OF assms(1)])
next
  case (FillMembers n tid)
  then show ?thesis by (cases a) (auto intro: assms(1) own_frame [OF assms(1)] simp: on_members_def)
qed (simp_all add: own_refresh assms(1))

lemma own_task_answers:
  assumes own: "sharing_own (owned_vaults s actor) s w" and i: "i < length (gw_tasks w)"
  shows "sharing_own (owned_vaults s actor) s (teams_task_answers U P actor i d w)"
proof -
  let ?own = "owned_vaults s actor" and ?t = "gw_tasks w ! i"
  obtain r s' where run: "run_teams_task P d actor ?t (gw_db w) = (r, s')" by fastforce
  have "shared_vault ?t \<subseteq> ?own" using own i by (simp add: sharing_own_def)
  then have "moves (shares_within ?own) (run_teams_task P d actor ?t)" by (rule within_task)
  then have step: "shares_within ?own (gw_db w) s'" using run unfolding moves_def by (metis snd_conv)
  have "sharing_own ?own s (drop_teams_task i w)" by (rule own_drop [OF own])
  then have own': "sharing_own ?own s (drop_teams_task i w\<lparr>gw_db := s'\<rparr>)"
    using within.R_trans [OF _ step, of s] by (simp add: sharing_own_def drop_teams_task_def)
  show ?thesis
  proof (cases r)
    case (Inl e)
    with own' show ?thesis by (simp add: teams_task_answers_def run own_failed)
  next
    case (Inr x)
    have vs: "vaults (gw_db w) = vaults s" using own by (simp add: sharing_own_def shares_within_def)
    have "sharing_own ?own s (teams_answered U ?t x (drop_teams_task i w\<lparr>gw_db := s'\<rparr>))"
    proof (rule own_answered [OF own'])
      fix n name vs assume "?t = FillVaults n name" "x = Vaults vs"
      then have "list_owned_vaults actor (gw_db w) = (Inr vs, s')" using run Inr by (auto simp: returns_iff)
      then show "vault_id ` set vs \<subseteq> ?own" using listed_vaults_owned [of actor "gw_db w" vs s'] vs by (simp add: owned_vaults_def)
    qed
    with Inr show ?thesis by (simp add: teams_task_answers_def run)
  qed
qed

lemma picked_in: "picked a b ids sel = Inr vid \<Longrightarrow> vid \<in> set ids"
  by (auto simp: picked_def Let_def split: if_splits)

lemma own_step:
  assumes own: "sharing_own (owned_vaults s actor) s w"
  shows "sharing_own (owned_vaults s actor) s (teams_step U P actor e w)"
proof (cases e)
  case (MembersClicked l)
  then show ?thesis
    by (simp add: members_clicked_def) (intro own_refresh own_frame [OF own]; simp)
next
  case (AddClicked sel role_sel)
  then show ?thesis using own
    by (auto simp: add_clicked_def shared_vault_def intro!: own_error own_start split: option.split sum.split)
next
  case (ShareClicked l)
  have "sharing_own (owned_vaults s actor) s (start_teams_task t (w\<lparr>gw_windows := n, gw_share := Some x\<rparr>))"
    if "sw_ids x = []" "shared_vault t = {}" for t n x
    using own that by (auto simp: sharing_own_def start_teams_task_def)
  moreover have "sharing_own (owned_vaults s actor) s (teams_notice m w)" for m
    by (rule own_frame [OF own]) (simp_all add: teams_notice_def)
  ultimately show ?thesis by (simp add: ShareClicked share_clicked_def shared_vault_def)
next
  case (ShareApplied sel)
  have "sharing_own (owned_vaults s actor) s (share_applied U sel x w)" if "gw_share w = Some x" for x
    using own that picked_in
    by (fastforce simp: share_applied_def shared_vault_def sharing_own_def teams_error_def teams_notice_def
        start_teams_task_def split: sum.split)
  with own show ?thesis by (simp add: ShareApplied split: option.split)
next
  case (TeamsTaskAnswers i d)
  then show ?thesis using own own_task_answers by simp
next
  case (TeamsTaskIsLost i)
  then show ?thesis using own by (simp add: own_failed own_drop)
qed (use own in \<open>auto simp: shared_vault_def remove_clicked_def team_create_clicked_def team_deletion_confirmed_def split: option.split intro: own_start own_frame [OF own]\<close>)

text \<open>C35. Whatever is clicked in the administration of teams, and in whatever order the answers come, failed tasks
  included, the dialog gives nobody access to a vault that its user does not own, although the service
  it calls asks for no permission.\<close>

theorem the_dialog_shares_own_vaults_only:
  assumes access: "has_access (gw_db (teams_run U P actor es (open_teams_window s master))) uid vid"
  shows "has_access s uid vid \<or> vid \<in> owned_vaults s actor"
proof -
  let ?own = "owned_vaults s actor"
  have run: "sharing_own ?own s (fold (teams_step U P actor) es w)" if "sharing_own ?own s w" for w
    using that by (induction es arbitrary: w) (simp_all add: own_step)
  have "sharing_own ?own s (open_teams_window s master)"
    by (simp add: open_teams_window_def sharing_own_def refresh_teams_def start_teams_task_def shared_vault_def within.R_refl)
  from run [OF this] have within: "shares_within ?own s (gw_db (teams_run U P actor es (open_teams_window s master)))"
    unfolding teams_run_def sharing_own_def by blast
  let ?t = "gw_db (teams_run U P actor es (open_teams_window s master))"
  have vs: "vaults ?t = vaults s"
    and new: "k \<in> set (shares ?t) \<Longrightarrow> share_key k \<in> share_key ` set (shares s) \<or> k_vault k \<in> ?own" for k
    using within unfolding shares_within_def by blast+
  from access obtain v where v: "v \<in> set (vaults s)" "v_id v = vid" "live v"
    and reach: "v_owner v = uid \<or> (\<exists>k\<in>set (shares ?t). k_vault k = vid \<and> k_user k = uid)"
    using vs by (auto simp only: has_access_def)
  show ?thesis
  proof (cases "v_owner v = uid")
    case False
    with reach obtain k where k: "k_vault k = vid" "k_user k = uid" "k \<in> set (shares ?t)" by blast
    from new [OF k(3)] show ?thesis
    proof
      assume "share_key k \<in> share_key ` set (shares s)"
      then obtain k' where "k' \<in> set (shares s)" "k_vault k' = vid" "k_user k' = uid" using k by (auto simp: share_key_def)
      with v show ?thesis unfolding has_access_def by blast
    qed (use k in simp)
  qed (use v in \<open>auto simp: has_access_def\<close>)
qed

section \<open>What a share gives\<close>


text \<open>The window in which a vault is chosen keeps its own copy of the master key: after the session is locked and its
  key wiped, the button still starts a share with that copy.\<close>

theorem the_share_window_outlives_the_lock:
  assumes "gw_share w = Some x" and "sw_sensitive x"
    and "selected \<noteq> 0" "unat (selected - 1) < length (sw_ids x)"
  shows "\<exists>w'. teams_run U P actor [SessionLocked, ShareApplied selected] w = w' \<and> gw_master w' = [] \<and>
     gw_tasks w' = gw_tasks w @ [ShareTask (sw_number x) (sw_team x) (sw_ids x ! unat (selected - 1)) (sw_master x)]"
  using assms by (simp add: teams_run_def share_applied_def picked_def start_teams_task_def Let_def)

end
