(* ===== verification/Management_Witnesses.thy ===== *)
theory Management_Witnesses
  imports Users_Dialog_Properties Teams_Dialog_Properties Team_Witnesses Window_Witnesses
begin

text \<open>The properties of the administration of accounts and teams, applied at concrete inputs.\<close>

definition demo_draws :: users_draws where
  "demo_draws = \<lparr> dr_salt = Some demo_salt, dr_user = 4, dr_vault = 44, dr_key = Some demo_key, dr_nonce = Some demo_nonce \<rparr>"

theorem new_account_has_its_own_vault_witness:
  "\<exists>w'. create_account_task demo_P demo_cfg demo_draws 1 ''dora '' ''staple and so on'' RoleUser demo_app = (Inr (), w') \<and>
     (\<forall>uid. has_access (app_db w') uid 44 \<longleftrightarrow> uid = 4) \<and> \<not> has_access (app_db w') 4 10"
proof -
  let ?m = "create_account_task demo_P demo_cfg demo_draws 1 ''dora '' ''staple and so on'' RoleUser"
  have run: "?m demo_app = (Inr (), snd (?m demo_app))" by (rule run_ok) code_simp
  have ok: "db_ok (app_db demo_app)" by (simp add: demo_app_def demo_db_ok)
  have nonce: "dr_nonce demo_draws = Some demo_nonce" "length demo_nonce = NONCE_LEN" and ids: "dr_user demo_draws = 4" "dr_vault demo_draws = 44"
    by (simp_all add: demo_draws_def demo_lengths)
  from new_account_has_its_own_vault [OF demo_laws ok nonce run] run show ?thesis
    unfolding ids by (intro exI [of _ "snd (?m demo_app)"]) auto
qed

definition demo_line :: team_line where
  "demo_line = \<lparr> tl_id = 30, tl_name = ''ops'', tl_created = [] \<rparr>"

definition team_draws :: teams_draws where
  "team_draws = \<lparr> td_team = 31, td_nonces = (\<lambda>_. Some demo_nonce) \<rparr>"

text \<open>Ada shares her vault with the team of Bob and Cleo.\<close>

definition demo_share_events :: "teams_event list" where
  "demo_share_events = [TeamsTaskAnswers 0 team_draws, ShareClicked demo_line, TeamsTaskAnswers 0 team_draws, ShareApplied 1,
     TeamsTaskAnswers 0 team_draws]"

theorem the_dialog_shares_own_vaults_only_witness:
  "\<not> has_access demo_db 2 10 \<and>
     has_access (gw_db (teams_run demo_U demo_P 1 demo_share_events (open_teams_window demo_db ada_key))) 2 10 \<and>
     10 \<in> owned_vaults demo_db 1"
proof -
  have "has_access (gw_db (teams_run demo_U demo_P 1 demo_share_events (open_teams_window demo_db ada_key))) 2 10"
    and "\<not> has_access demo_db 2 10" by code_simp+
  with the_dialog_shares_own_vaults_only show ?thesis by blast
qed


end
