(* ===== verification/Export_Dialog.thy ===== *)
theory Export_Dialog
  imports First_Start
begin

text \<open>
  The export of a backup (\<open>ui/dialogs/recovery_key_export_dialog.rs\<close>): the file is chosen, a recovery phrase of
  24 words is drawn and shown, and the export is started once the phrase has been copied, printed or saved
  to a text file.  The task of the export is that of the profile page, \<open>export_backup_secured\<close>.  The clipboard
  is the desktop's, which other programs fill too; the timers that empty it are counted.
\<close>

section \<open>File names\<close>

text \<open>\<open>Path::extension\<close> and \<open>PathBuf::set_extension\<close> on a name without one; the component \<open>..\<close> is not a name.\<close>

definition has_extension :: "string \<Rightarrow> bool" where
  "has_extension n \<longleftrightarrow> CHR ''.'' \<in> set (drop 1 n)"

definition with_default_extension :: "string \<Rightarrow> path \<Rightarrow> path" where
  "with_default_extension ext p =
     (if has_extension (file_name p) \<or> file_name p = [] \<or> file_name p = ''..'' then p
      else Path (path_parent p) (file_name p @ CHR ''.'' # ext))"

section \<open>The text of the phrase\<close>

text \<open>The format \<open>{:02}\<close> of a number below 100.\<close>

definition two_digits :: "nat \<Rightarrow> string" where
  "two_digits n = [char_of (48 + n div 10), char_of (48 + n mod 10)]"

fun numbered_lines :: "nat \<Rightarrow> string list \<Rightarrow> string" where
  "numbered_lines n [] = []"
| "numbered_lines n (w # ws) = two_digits n @ ''. '' @ w @ CHR 0x0A # numbered_lines (Suc n) ws"

definition key_text :: "ui_crates \<Rightarrow> string \<Rightarrow> string list \<Rightarrow> string" where
  "key_text U now words =
     tr U ''profile-export-print-header'' @ CHR 0x0A # tr U ''profile-export-print-date'' @ '': '' @ now @
     [CHR 0x0A, CHR 0x0A] @ numbered_lines 1 words"

section \<open>The dialog\<close>

record export_dialog =
  xd_site :: site
  xd_path :: path
  xd_phrase :: string
  xd_words :: "string list"
  xd_confirm :: bool
  xd_shown :: bool
  xd_clipboard :: string
  xd_timers :: nat
  xd_critical :: int
  xd_exports :: "(path \<times> string) list"
  xd_feedback :: "(string \<times> string) list"

datatype file_choice = Declined | NoFileChosen | NoLocalPath | FileChosen path

definition say :: "ui_crates \<Rightarrow> string \<Rightarrow> string \<Rightarrow> export_dialog \<Rightarrow> export_dialog" where
  "say U head body x = x\<lparr>xd_feedback := xd_feedback x @ [(tr U head, tr U body)]\<rparr>"

definition no_dialog :: "site \<Rightarrow> string \<Rightarrow> export_dialog" where
  "no_dialog w clip = \<lparr> xd_site = w, xd_path = Path [] [], xd_phrase = [], xd_words = [], xd_confirm = False, xd_shown = False,
     xd_clipboard = clip, xd_timers = 0, xd_critical = 0, xd_exports = [], xd_feedback = [] \<rparr>"

definition backup_file_chosen :: "ui_crates \<Rightarrow> backup_crates \<Rightarrow> bytes option \<Rightarrow> file_choice \<Rightarrow> export_dialog \<Rightarrow> export_dialog" where
  "backup_file_chosen U B rnd choice x =
     (case choice of
        Declined \<Rightarrow> x
      | NoFileChosen \<Rightarrow> say U ''profile-export-accept'' ''profile-export-invalid-destination'' x
      | NoLocalPath \<Rightarrow> say U ''profile-export-accept'' ''profile-export-invalid-path'' x
      | FileChosen p \<Rightarrow>
         (case generate_recovery_key B rnd of
            Inl _ \<Rightarrow> say U ''profile-export-accept'' ''profile-export-recovery-key-failed'' x
          | Inr phrase \<Rightarrow>
             (let words = split_words phrase in
              if length words \<noteq> 24 then say U ''profile-export-accept'' ''profile-export-recovery-invalid'' x
              else x\<lparr>xd_path := with_default_extension ''hvb'' p, xd_phrase := phrase, xd_words := words,
                     xd_confirm := False, xd_shown := True\<rparr>)))"

definition enable_confirm :: "export_dialog \<Rightarrow> export_dialog" where
  "enable_confirm x = x\<lparr>xd_confirm := True\<rparr>"

definition phrase_copied :: "ui_crates \<Rightarrow> bool \<Rightarrow> export_dialog \<Rightarrow> export_dialog" where
  "phrase_copied U display x =
     (if \<not> display then say U ''profile-export-accept'' ''profile-export-clipboard-unavailable'' x
      else enable_confirm (say U ''profile-export-success-title'' ''profile-export-copied''
             (x\<lparr>xd_clipboard := xd_phrase x, xd_timers := xd_timers x + 1\<rparr>)))"

text \<open>The closure of \<open>timeout_add_seconds_local\<close>.\<close>

definition clipboard_timeout :: "export_dialog \<Rightarrow> export_dialog" where
  "clipboard_timeout x = (if xd_timers x = 0 then x else x\<lparr>xd_clipboard := [], xd_timers := xd_timers x - 1\<rparr>)"

datatype print_outcome = PrintDone | PrintCancelled | PrintFailed

definition phrase_printed :: "ui_crates \<Rightarrow> print_outcome \<Rightarrow> export_dialog \<Rightarrow> export_dialog" where
  "phrase_printed U r x =
     (case r of
        PrintDone \<Rightarrow> enable_confirm x
      | PrintCancelled \<Rightarrow> x
      | PrintFailed \<Rightarrow> say U ''profile-export-accept'' ''profile-export-print-failed'' x)"

definition key_file_chosen :: "ui_crates \<Rightarrow> string \<Rightarrow> file_choice \<Rightarrow> export_dialog \<Rightarrow> export_dialog" where
  "key_file_chosen U now choice x =
     (case choice of
        Declined \<Rightarrow> x
      | NoFileChosen \<Rightarrow> say U ''profile-export-accept'' ''profile-export-save-key-invalid-file'' x
      | NoLocalPath \<Rightarrow> say U ''profile-export-accept'' ''profile-export-save-key-invalid-path'' x
      | FileChosen p \<Rightarrow>
         (case fs_write (with_default_extension ''txt'' p) (str_bytes (key_text U now (xd_words x))) (site_host (xd_site x)) of
            (r, h) \<Rightarrow>
             (let x = x\<lparr>xd_site := (xd_site x)\<lparr>site_host := h\<rparr>\<rparr> in
              case r of
                Inr _ \<Rightarrow> enable_confirm (say U ''profile-export-success-title'' ''profile-export-save-key-saved'' x)
              | Inl _ \<Rightarrow> say U ''profile-export-accept'' ''profile-export-save-key-failed'' x)))"

text \<open>\<open>clear_clipboard\<close>, and the two ways the dialog is closed.\<close>

definition wipe_clipboard :: "export_dialog \<Rightarrow> export_dialog" where
  "wipe_clipboard x = x\<lparr>xd_clipboard := []\<rparr>"

definition export_responded :: "string \<Rightarrow> export_dialog \<Rightarrow> export_dialog" where
  "export_responded response x =
     (let x = wipe_clipboard (x\<lparr>xd_shown := False\<rparr>) in
      if response \<noteq> ''confirm'' then x
      else x\<lparr>xd_critical := xd_critical x + 1, xd_exports := xd_exports x @ [(xd_path x, xd_phrase x)]\<rparr>)"

definition export_close_requested :: "export_dialog \<Rightarrow> export_dialog" where
  "export_close_requested x = wipe_clipboard (x\<lparr>xd_shown := False\<rparr>)"

definition export_ends :: "ui_crates \<Rightarrow> app_error + backup_metadata \<Rightarrow> export_dialog \<Rightarrow> export_dialog" where
  "export_ends U r x =
     (let x = x\<lparr>xd_critical := xd_critical x - 1\<rparr> in
      case r of
        Inr _ \<Rightarrow> say U ''profile-export-success-title'' ''profile-export-success-body'' x
      | Inl (Authorization _) \<Rightarrow> say U ''profile-export-accept'' ''profile-export-admin-required-body'' x
      | Inl _ \<Rightarrow> say U ''profile-export-accept'' ''profile-export-failed'' x)"

text \<open>The oldest export under way runs.\<close>

definition run_export ::
  "ui_crates \<Rightarrow> primitives \<Rightarrow> backup_crates \<Rightarrow> bytes option \<Rightarrow> bytes option \<Rightarrow> uuid \<Rightarrow> path \<Rightarrow> export_dialog \<Rightarrow> export_dialog" where
  "run_export U P B salt_rnd nonce_rnd actor db x =
     (case xd_exports x of
        [] \<Rightarrow> x
      | (p, phrase) # rest \<Rightarrow>
         (case export_backup_secured P B salt_rnd nonce_rnd actor db p phrase (xd_site x) of
            (r, w) \<Rightarrow> export_ends U r (x\<lparr>xd_exports := rest, xd_site := w\<rparr>)))"

section \<open>Events\<close>

datatype export_event =
    CopyPressed bool
  | Printed print_outcome
  | KeyFileChosen string file_choice
  | Responded string
  | CloseRequested
  | WipeTimer
  | OthersCopy string

fun export_enabled :: "export_event \<Rightarrow> export_dialog \<Rightarrow> bool" where
  "export_enabled (Responded r) x \<longleftrightarrow> xd_shown x \<and> (r = ''confirm'' \<longrightarrow> xd_confirm x)"
| "export_enabled WipeTimer x \<longleftrightarrow> xd_timers x \<noteq> 0"
| "export_enabled (OthersCopy t) x \<longleftrightarrow> True"
| "export_enabled e x \<longleftrightarrow> xd_shown x"

fun export_step :: "ui_crates \<Rightarrow> export_event \<Rightarrow> export_dialog \<Rightarrow> export_dialog" where
  "export_step U (CopyPressed display) x = phrase_copied U display x"
| "export_step U (Printed r) x = phrase_printed U r x"
| "export_step U (KeyFileChosen now choice) x = key_file_chosen U now choice x"
| "export_step U (Responded r) x = export_responded r x"
| "export_step U CloseRequested x = export_close_requested x"
| "export_step U WipeTimer x = clipboard_timeout x"
| "export_step U (OthersCopy t) x = x\<lparr>xd_clipboard := t\<rparr>"

text \<open>What can happen from the moment the phrase is shown.\<close>

inductive export_run :: "ui_crates \<Rightarrow> export_dialog \<Rightarrow> export_event list \<Rightarrow> export_dialog \<Rightarrow> bool" for U x where
  export_start: "export_run U x [] x"
| export_next: "export_run U x es y \<Longrightarrow> export_enabled e y \<Longrightarrow> export_run U x (es @ [e]) (export_step U e y)"

end
