(* ===== verification/Export_Dialog_Properties.thy ===== *)
theory Export_Dialog_Properties
  imports Export_Dialog Backup_Properties
begin

text \<open>
  What the export dialog guarantees: no export without the phrase having left the dialog, and a reported one can
  be restored with the words that were shown; and what becomes of a phrase that was copied or saved.
\<close>

section \<open>The phrase leaves the dialog\<close>

text \<open>A text file with the words was written without an error.\<close>

definition phrase_saved :: "ui_crates \<Rightarrow> export_dialog \<Rightarrow> export_event list \<Rightarrow> bool" where
  "phrase_saved U x es \<longleftrightarrow>
     (\<exists>now p before after z. es = before @ KeyFileChosen now (FileChosen p) # after \<and> export_run U x before z \<and>
        fst (fs_write (with_default_extension ''txt'' p) (str_bytes (key_text U now (xd_words x))) (site_host (xd_site z))) = Inr ())"

definition phrase_kept :: "ui_crates \<Rightarrow> export_dialog \<Rightarrow> export_event list \<Rightarrow> bool" where
  "phrase_kept U x es \<longleftrightarrow> CopyPressed True \<in> set es \<or> Printed PrintDone \<in> set es \<or> phrase_saved U x es"

lemma kept_mono: "phrase_kept U x es \<Longrightarrow> phrase_kept U x (es @ [e])"
  by (auto simp: phrase_kept_def phrase_saved_def) (metis append.assoc append_Cons)

lemma said_fields [simp]:
  "xd_phrase (say U t b x) = xd_phrase x" "xd_words (say U t b x) = xd_words x" "xd_path (say U t b x) = xd_path x"
  "xd_confirm (say U t b x) = xd_confirm x" "xd_exports (say U t b x) = xd_exports x" "xd_shown (say U t b x) = xd_shown x"
  "xd_clipboard (say U t b x) = xd_clipboard x" "xd_timers (say U t b x) = xd_timers x" "xd_site (say U t b x) = xd_site x"
  by (simp_all add: say_def)

lemma step_fixed:
  "xd_phrase (export_step U e y) = xd_phrase y \<and> xd_words (export_step U e y) = xd_words y \<and>
   xd_path (export_step U e y) = xd_path y"
  by (cases e)
    (auto simp: phrase_copied_def phrase_printed_def key_file_chosen_def export_responded_def export_close_requested_def
      clipboard_timeout_def wipe_clipboard_def enable_confirm_def Let_def split: print_outcome.split file_choice.split prod.split sum.split)

lemma run_fixed:
  "export_run U x es y \<Longrightarrow> xd_phrase y = xd_phrase x \<and> xd_words y = xd_words x \<and> xd_path y = xd_path x"
  by (induction rule: export_run.induct) (simp_all add: step_fixed)

lemma step_confirm:
  assumes run: "export_run U x es y" and confirm: "xd_confirm (export_step U e y)"
  shows "xd_confirm y \<or> phrase_kept U x (es @ [e])"
proof (cases e)
  case (KeyFileChosen now choice)
  show ?thesis
  proof (cases choice)
    case (FileChosen p)
    let ?w = "fs_write (with_default_extension ''txt'' p) (str_bytes (key_text U now (xd_words x))) (site_host (xd_site y))"
    have "xd_confirm y \<or> fst ?w = Inr ()"
      using confirm run_fixed [OF run]
      by (cases ?w; cases "fst ?w") (auto simp: KeyFileChosen FileChosen key_file_chosen_def Let_def)
    moreover have "phrase_saved U x (es @ [e])" if "fst ?w = Inr ()"
      unfolding phrase_saved_def KeyFileChosen FileChosen using run that by blast
    ultimately show ?thesis by (auto simp: phrase_kept_def)
  qed (use confirm in \<open>simp_all add: KeyFileChosen key_file_chosen_def\<close>)
next
  case (CopyPressed display)
  then show ?thesis using confirm by (cases display) (simp_all add: phrase_copied_def phrase_kept_def)
next
  case (Printed r)
  then show ?thesis using confirm by (cases r) (simp_all add: phrase_printed_def phrase_kept_def)
qed (use confirm in \<open>auto simp: export_responded_def export_close_requested_def clipboard_timeout_def wipe_clipboard_def
  Let_def split: if_splits\<close>)

text \<open>A request of an export is for the chosen path and the shown phrase, once the phrase was kept.\<close>

lemma step_exports:
  "xd_exports (export_step U e y) = xd_exports y \<or>
   e = Responded ''confirm'' \<and> xd_exports (export_step U e y) = xd_exports y @ [(xd_path y, xd_phrase y)]"
  by (cases e)
    (auto simp: phrase_copied_def phrase_printed_def key_file_chosen_def export_responded_def export_close_requested_def
      clipboard_timeout_def wipe_clipboard_def enable_confirm_def Let_def split: print_outcome.split file_choice.split prod.split sum.split)

lemma run_requests:
  assumes "export_run U x es y" and "\<not> xd_confirm x" and "xd_exports x = []"
  shows "(xd_confirm y \<longrightarrow> phrase_kept U x es) \<and>
     (\<forall>r\<in>set (xd_exports y). r = (xd_path x, xd_phrase x) \<and> phrase_kept U x es)"
  using assms
proof (induction rule: export_run.induct)
  case (export_next es y e)
  note ih = export_next.IH [OF export_next.prems]
  have "xd_confirm (export_step U e y) \<longrightarrow> phrase_kept U x (es @ [e])"
    using step_confirm [OF export_next.hyps(1), of e] ih kept_mono by blast
  moreover have "r = (xd_path x, xd_phrase x) \<and> phrase_kept U x (es @ [e])" if "r \<in> set (xd_exports (export_step U e y))" for r
  proof (cases "r \<in> set (xd_exports y)")
    case True
    with ih kept_mono show ?thesis by blast
  next
    case False
    with that step_exports [of U e y] have "e = Responded ''confirm''" "r = (xd_path y, xd_phrase y)" by auto
    with export_next.hyps(2) ih run_fixed [OF export_next.hyps(1)] kept_mono show ?thesis by auto
  qed
  ultimately show ?case by blast
qed simp

section \<open>The shown words restore the backup\<close>

text \<open>What the BIP-39 crate documents of the phrases it makes: the words stand between single spaces, and the crate
  reads them.\<close>

definition mnemonic_laws :: "backup_crates \<Rightarrow> bool" where
  "mnemonic_laws B \<longleftrightarrow>
     (\<forall>e ph. mnemonic_from_entropy B e = Some ph \<longrightarrow> join_words (split_words ph) = ph \<and> mnemonic_parses B ph)"

lemma shown_phrase:
  assumes "mnemonic_laws B" and "backup_file_chosen U B rnd choice x0 = x" and "xd_shown x" "\<not> xd_shown x0"
  shows "join_words (xd_words x) = xd_phrase x" "mnemonic_parses B (xd_phrase x)" "length (xd_words x) = 24" "\<not> xd_confirm x"
    "xd_exports x = xd_exports x0"
  using assms
  by (auto simp: backup_file_chosen_def generate_recovery_key_def mnemonic_laws_def Let_def
      split: file_choice.splits sum.splits option.splits if_splits)

lemma secured_export:
  assumes "export_backup_secured P B salt_rnd nonce_rnd actor db p phrase w = (Inr md, w')"
  shows "export_hvb_with_recovery_key P B salt_rnd nonce_rnd db p phrase (site_host w) = (Inr md, site_host w')"
proof -
  from assms obtain u w1 where actor: "backup_actor BackupExport actor w = (Inr u, w1)"
    and run: "zoom site_host (\<lambda>h w. w\<lparr>site_host := h\<rparr>) (export_hvb_with_recovery_key P B salt_rnd nonce_rnd db p phrase) w1 = (Inr md, w')"
    by (auto simp: export_backup_secured_def returns_iff)
  have "w1 = w" by (rule reads_only_run [OF backup_actor_reads actor])
  with run show ?thesis by (auto simp: site_host.zoom_returns)
qed

text \<open>C17. An export the dialog has asked for comes after the phrase was copied, printed, or saved in a text file that
  could be written; and if the export is reported as done, the 24 words that were shown, typed in with single
  spaces, restore the exported database to the byte from the chosen file.\<close>

theorem the_shown_words_restore_the_backup:
  assumes laws: "mnemonic_laws B"
    and shown: "backup_file_chosen U B rnd choice x0 = x" "xd_shown x" "\<not> xd_shown x0" "xd_exports x0 = []"
    and run: "export_run U x es y" and asked: "r \<in> set (xd_exports y)"
    and exported: "export_backup_secured P B salt_rnd nonce_rnd actor db (fst r) (snd r) (xd_site y) = (Inr md, w)"
    and calm: "calm (site_host (xd_site y))" and target: "old_path target \<noteq> target"
  shows "phrase_kept U x es \<and> length (xd_words x) = 24 \<and>
     (\<exists>f g h. files (site_host (xd_site y)) db = Some f \<and>
        import_hvb_with_recovery_key P B (xd_path x) (join_words (xd_words x)) target (site_host w) = (Inr md, h) \<and>
        files h target = Some g \<and> content g = content f \<and> owner_only g)"
proof -
  note phrase = shown_phrase [OF laws shown(1-3)]
  have "r = (xd_path x, xd_phrase x)" "phrase_kept U x es"
    using run_requests [OF run phrase(4)] phrase(5) shown(4) asked by auto
  moreover from this exported have "export_hvb_with_recovery_key P B salt_rnd nonce_rnd db (xd_path x) (xd_phrase x)
      (site_host (xd_site y)) = (Inr md, site_host w)"
    using secured_export by simp
  from a_reported_export_can_be_restored [OF this calm phrase(2) target] obtain f g h where
    "files (site_host (xd_site y)) db = Some f"
    "import_hvb_with_recovery_key P B (xd_path x) (xd_phrase x) target (site_host w) = (Inr md, h)"
    "files h target = Some g" "content g = content f" "owner_only g" by blast
  ultimately show ?thesis using phrase by auto
qed

section \<open>Copied and saved phrases\<close>

text \<open>The answer of the dialog empties the clipboard: when copying is all that was done, the export is asked for under a
  phrase that is nowhere any more.  And the timer of a copy empties the clipboard whatever another program
  has put there since.\<close>

theorem a_copied_phrase_is_wiped_by_the_answer:
  assumes "xd_shown x" and "\<not> xd_confirm x"
  shows "\<exists>y. export_run U x [CopyPressed True, Responded ''confirm''] y \<and>
           xd_exports y = xd_exports x @ [(xd_path x, xd_phrase x)] \<and> xd_clipboard y = []"
    and "\<exists>y. export_run U x [CopyPressed True, OthersCopy t, WipeTimer] y \<and> xd_clipboard y = []"
proof -
  let ?y = "phrase_copied U True x"
  have "export_run U x ([] @ [CopyPressed True]) (export_step U (CopyPressed True) x)"
    by (rule export_next [OF export_start]) (simp add: assms)
  then have copied: "export_run U x [CopyPressed True] ?y" by simp
  have shown: "xd_shown ?y" "xd_confirm ?y" "xd_timers ?y \<noteq> 0"
    by (simp_all add: phrase_copied_def enable_confirm_def assms)
  from export_next [OF copied, of "Responded ''confirm''"] shown
  show "\<exists>y. export_run U x [CopyPressed True, Responded ''confirm''] y \<and>
           xd_exports y = xd_exports x @ [(xd_path x, xd_phrase x)] \<and> xd_clipboard y = []"
    by (intro exI [of _ "export_responded ''confirm'' ?y"])
      (simp add: export_responded_def wipe_clipboard_def Let_def phrase_copied_def enable_confirm_def)
  from export_next [OF copied, of "OthersCopy t"]
  have "export_run U x [CopyPressed True, OthersCopy t] (?y\<lparr>xd_clipboard := t\<rparr>)" by simp
  from export_next [OF this, of WipeTimer] shown
  show "\<exists>y. export_run U x [CopyPressed True, OthersCopy t, WipeTimer] y \<and> xd_clipboard y = []"
    by (intro exI [of _ "clipboard_timeout (?y\<lparr>xd_clipboard := t\<rparr>)"]) (simp add: clipboard_timeout_def)
qed

text \<open>The text file with the words of the phrase is not restricted to its owner, unlike the backup it opens.\<close>

theorem the_saved_phrase_is_not_owner_only:
  assumes "calm (site_host (xd_site x))" and "files (site_host (xd_site x)) (with_default_extension ''txt'' p) = None"
  shows "\<exists>f. files (site_host (xd_site (key_file_chosen U now (FileChosen p) x))) (with_default_extension ''txt'' p) = Some f \<and>
           content f = str_bytes (key_text U now (xd_words x)) \<and> \<not> owner_only f"
  using assms by (simp add: key_file_chosen_def fs_write_calm written_def enable_confirm_def Let_def)

end
