(* ===== verification/Export_Witnesses.thy ===== *)
theory Export_Witnesses
  imports Export_Dialog_Properties First_Start_Witnesses Backup_Witnesses
begin

text \<open>The export dialog with the phrase of the first start: printed, confirmed, exported and restored.\<close>

definition phrase_key :: bytes where
  "phrase_key = take 32 (str_bytes demo_phrase)"

definition phrase_B :: backup_crates where
  "phrase_B = demo_B\<lparr>mnemonic_from_entropy := (\<lambda>_. Some demo_phrase),
     hvb_from_json := (\<lambda>_. Some (demo_payload\<lparr>ciphertext_b64 := bytes_str (SQLITE_HEADER @ phrase_key)\<rparr>))\<rparr>"

definition export_site :: site where
  "export_site = \<lparr> site_db = demo_db, site_host = demo_host \<rparr>"

definition shown_dialog :: export_dialog where
  "shown_dialog = backup_file_chosen demo_U phrase_B (Some []) (FileChosen (Path '''' ''today'')) (no_dialog export_site [])"

definition asked_dialog :: export_dialog where
  "asked_dialog = export_responded ''confirm'' (phrase_printed demo_U PrintDone shown_dialog)"

definition done_export :: "(app_error + backup_metadata) \<times> site" where
  "done_export = export_backup_secured demo_P phrase_B (Some demo_salt) (Some demo_nonce) 1 db_path hvb_path demo_phrase export_site"

lemma phrase_laws: "mnemonic_laws phrase_B"
proof -
  have "join_words (split_words demo_phrase) = demo_phrase" by code_simp
  then show ?thesis by (simp add: mnemonic_laws_def phrase_B_def demo_B_def)
qed

theorem the_shown_words_restore_the_backup_witness:
  "\<exists>md h g. fst done_export = Inr md \<and>
     import_hvb_with_recovery_key demo_P phrase_B hvb_path (join_words (xd_words shown_dialog)) db_path (site_host (snd done_export)) =
       (Inr md, h) \<and> files h db_path = Some g \<and> content g = SQLITE_HEADER"
proof -
  have shown: "xd_shown shown_dialog" "\<not> xd_shown (no_dialog export_site [])" "xd_exports (no_dialog export_site []) = []"
    "xd_path shown_dialog = hvb_path" "xd_exports asked_dialog = [(hvb_path, demo_phrase)]" by code_simp+
  have "xd_site shown_dialog = export_site"
    by (auto simp: shown_dialog_def backup_file_chosen_def Let_def no_dialog_def split: sum.split)
  then have site: "xd_site asked_dialog = export_site"
    by (simp add: asked_dialog_def export_responded_def wipe_clipboard_def phrase_printed_def enable_confirm_def Let_def)
  have "export_run demo_U shown_dialog ([] @ [Printed PrintDone]) (export_step demo_U (Printed PrintDone) shown_dialog)"
    by (rule export_next [OF export_start]) (simp add: shown)
  from export_next [OF this, of "Responded ''confirm''"]
  have run: "export_run demo_U shown_dialog [Printed PrintDone, Responded ''confirm''] asked_dialog"
    by (simp add: asked_dialog_def phrase_printed_def enable_confirm_def shown)
  have "case fst done_export of Inr _ \<Rightarrow> True | Inl _ \<Rightarrow> False" by code_simp
  then obtain md where md: "fst done_export = Inr md" by (auto split: sum.splits)
  then have exported: "export_backup_secured demo_P phrase_B (Some demo_salt) (Some demo_nonce) 1 db_path
      (fst (hvb_path, demo_phrase)) (snd (hvb_path, demo_phrase)) (xd_site asked_dialog) = (Inr md, snd done_export)"
    by (simp add: site done_export_def prod_eq_iff)
  have "calm (site_host (xd_site asked_dialog))" by (simp add: site export_site_def calm_def demo_host_def)
  moreover have "(hvb_path, demo_phrase) \<in> set (xd_exports asked_dialog)" by (simp add: shown(5))
  moreover have "files (site_host (xd_site asked_dialog)) db_path = Some \<lparr> content = SQLITE_HEADER, owner_only = True \<rparr>"
    by (simp add: site export_site_def demo_host_def)
  ultimately show ?thesis
    using the_shown_words_restore_the_backup [OF phrase_laws shown_dialog_def [symmetric] shown(1-3) run _ exported _ demo_paths(1)] md
    unfolding shown(4) by auto
qed

end
