(* ===== verification/Start_Up.thy ===== *)
theory Start_Up
  imports File_System Trimming "HOL-Library.Sublist"
begin

text \<open>
  The process before its window (\<open>main.rs\<close>): the flags of the command line, where the database and the logs are,
  the filter of the log and the writer that starts a new file each day.  The environment is a function, the
  current directory and the directories of the platform are lists of components from the root.
\<close>

section \<open>The command line\<close>

record startup_flags =
  show_version :: bool
  startup_check_only :: bool

definition flags_from_args :: "string list \<Rightarrow> startup_flags" where
  "flags_from_args args = \<lparr> show_version = list_ex (\<lambda>a. a = ''--version'') args,
     startup_check_only = list_ex (\<lambda>a. a = ''--startup-check'') args \<rparr>"

datatype start_outcome = VersionPrinted | CheckDone | WindowRuns bool | StartFailed

text \<open>\<open>needs_bootstrap\<close> is the answer of the start of the services, \<open>Admin_Service.start_services\<close>.\<close>

definition main_run :: "string list \<Rightarrow> app_error + bool \<Rightarrow> start_outcome" where
  "main_run args needs_bootstrap =
     (let f = flags_from_args args in
      if show_version f then VersionPrinted
      else case needs_bootstrap of
        Inl _ \<Rightarrow> StartFailed
      | Inr b \<Rightarrow> if startup_check_only f then CheckDone else WindowRuns b)"

section \<open>Directories\<close>

type_synonym dir = "string list"
type_synonym env_vars = "string \<Rightarrow> string option"

datatype platform = Windows | MacOs | OtherSystem

definition platform_runtime_root :: "platform \<Rightarrow> dir option \<Rightarrow> dir option \<Rightarrow> dir option" where
  "platform_runtime_root os data_local data =
     (case os of
        Windows \<Rightarrow> map_option (\<lambda>d. d @ [''heelonvault'']) data_local
      | MacOs \<Rightarrow> map_option (\<lambda>d. d @ [''heelonvault'']) data
      | OtherSystem \<Rightarrow> None)"

definition default_database_path_for :: "dir \<Rightarrow> dir option \<Rightarrow> dir" where
  "default_database_path_for cur root =
     (case root of
        Some r \<Rightarrow> r @ [''data'', ''heelonvault-rust.db'']
      | None \<Rightarrow>
         (if cur \<noteq> [] \<and> last cur = ''rust'' then butlast cur @ [''data'', ''heelonvault-rust-dev.db'']
          else cur @ [''data'', ''heelonvault-rust-dev.db'']))"

definition default_log_dir_for :: "dir \<Rightarrow> dir option \<Rightarrow> dir" where
  "default_log_dir_for cur root = (case root of Some r \<Rightarrow> r @ [''logs''] | None \<Rightarrow> cur @ [''logs''])"

datatype location = AsGiven string | Resolved dir

definition resolve_database_path :: "env_vars \<Rightarrow> dir option \<Rightarrow> dir option \<Rightarrow> location option" where
  "resolve_database_path env cur root =
     (case map_option trim (env ''HEELONVAULT_DB_PATH'') of
        Some (c # p) \<Rightarrow> Some (AsGiven (c # p))
      | _ \<Rightarrow> map_option (\<lambda>c. Resolved (default_database_path_for c root)) cur)"

definition non_blank :: "string option \<Rightarrow> string option" where
  "non_blank v = (case v of Some x \<Rightarrow> if trim x = [] then None else Some x | None \<Rightarrow> None)"

definition resolve_log_dir :: "env_vars \<Rightarrow> dir option \<Rightarrow> dir option \<Rightarrow> location option" where
  "resolve_log_dir env cur root =
     (case non_blank (env ''HEELONVAULT_LOG_DIR'') of
        Some p \<Rightarrow> Some (AsGiven p)
      | None \<Rightarrow> map_option (\<lambda>c. Resolved (default_log_dir_for c root)) cur)"

section \<open>The filter of the log\<close>

definition SENSITIVE_TARGETS :: "string list" where
  "SENSITIVE_TARGETS = [''vault::crypto'', ''auth::session'', ''heelonvault_rust::services::crypto_service'',
     ''heelonvault_rust::services::secret_service'', ''heelonvault_rust::services::auth_service'',
     ''heelonvault_rust::services::vault_service'']"

definition base_filter_spec :: "bool \<Rightarrow> env_vars \<Rightarrow> string" where
  "base_filter_spec debug_build env =
     (case non_blank (env ''RUST_LOG'') of
        Some v \<Rightarrow> v
      | None \<Rightarrow>
         (case non_blank (env ''HEELONVAULT_LOG_LEVEL'') of
            Some v \<Rightarrow> v
          | None \<Rightarrow> if debug_build then ''debug'' else ''info''))"

definition filter_spec_of :: "string \<Rightarrow> string" where
  "filter_spec_of base = fold (\<lambda>t spec. if sublist t base then spec else spec @ '','' @ t @ ''=warn'') SENSITIVE_TARGETS base"

section \<open>The writer of the log\<close>

record log_writer =
  lw_dir :: string
  lw_base :: string
  lw_date :: string
  lw_file :: path

definition log_path_for :: "string \<Rightarrow> string \<Rightarrow> string \<Rightarrow> path" where
  "log_path_for d base date = Path d (base @ ''_'' @ date @ ''.log'')"

text \<open>\<open>OpenOptions\<close> with \<open>create\<close> and \<open>append\<close>, and a write to the file it opens.\<close>

definition open_log_file :: "string \<Rightarrow> string \<Rightarrow> string \<Rightarrow> path iom" where
  "open_log_file d base date =
     (let p = log_path_for d base date in
      bindE (permitted (OpCreate p)) (\<lambda>_.
      bindE (modify (\<lambda>h. if files h p = None then put_file p (Some \<lparr> content = [], owner_only = False \<rparr>) h else h)) (\<lambda>_.
      ret p)))"

definition append_to :: "path \<Rightarrow> bytes \<Rightarrow> nat iom" where
  "append_to p b =
     bindE (permitted (OpWrite p)) (\<lambda>_.
     bindE (modify (\<lambda>h. put_file p (Some (written (files h p) ((case files h p of None \<Rightarrow> [] | Some f \<Rightarrow> content f) @ b))) h)) (\<lambda>_.
     ret (length b)))"

definition new_log_writer :: "string \<Rightarrow> string \<Rightarrow> string \<Rightarrow> log_writer iom" where
  "new_log_writer d base today =
     bindE (open_log_file d base today) (\<lambda>p. ret \<lparr> lw_dir = d, lw_base = base, lw_date = today, lw_file = p \<rparr>)"

type_synonym 'a logm = "log_writer \<times> host \<Rightarrow> (app_error + 'a) \<times> log_writer \<times> host"

definition rotate_if_needed :: "string \<Rightarrow> unit logm" where
  "rotate_if_needed today = (\<lambda>(w, h).
     if today = lw_date w then (Inr (), w, h)
     else case open_log_file (lw_dir w) (lw_base w) today h of
       (Inl e, h') \<Rightarrow> (Inl e, w, h')
     | (Inr p, h') \<Rightarrow> (Inr (), w\<lparr>lw_file := p, lw_date := today\<rparr>, h'))"

definition write_log :: "string \<Rightarrow> bytes \<Rightarrow> nat logm" where
  "write_log today b =
     bindE (rotate_if_needed today) (\<lambda>_ (w, h).
     case append_to (lw_file w) b h of (r, h') \<Rightarrow> (r, w, h'))"

section \<open>What they do\<close>

text \<open>The directives of a filter are separated by commas.\<close>

fun split_commas :: "string \<Rightarrow> string list" where
  "split_commas [] = [[]]"
| "split_commas (c # r) =
     (if c = CHR '','' then [] # split_commas r
      else case split_commas r of [] \<Rightarrow> [[c]] | d # ds \<Rightarrow> (c # d) # ds)"

lemma split_commas_nonempty: "split_commas s \<noteq> []"
  by (induction s) (auto split: list.split)

lemma split_commas_append:
  assumes "CHR '','' \<notin> set t"
  shows "split_commas (s @ '','' @ t) = split_commas s @ [t]"
proof (induction s)
  case Nil
  have "split_commas t = [t]" using assms by (induction t) auto
  then show ?case by simp
next
  case (Cons c r)
  then show ?case using split_commas_nonempty [of r] by (auto split: list.split)
qed

text \<open>The filter of the log is what was asked for, followed by one directive that lets only warnings through for
  each sensitive part of the program that was not named.\<close>

theorem sensitive_targets_are_capped:
  "split_commas (filter_spec_of base) =
     split_commas base @ map (\<lambda>t. t @ ''=warn'') (filter (\<lambda>t. \<not> sublist t base) SENSITIVE_TARGETS)"
proof -
  have step: "split_commas (fold (\<lambda>t spec. if sublist t base then spec else spec @ '','' @ t @ ''=warn'') ts spec) =
      split_commas spec @ map (\<lambda>t. t @ ''=warn'') (filter (\<lambda>t. \<not> sublist t base) ts)"
    if "\<forall>t\<in>set ts. CHR '','' \<notin> set t" for ts spec
    using that
  proof (induction ts arbitrary: spec)
    case (Cons t ts)
    have "split_commas (spec @ '','' @ t @ ''=warn'') = split_commas spec @ [t @ ''=warn'']"
      by (rule split_commas_append) (use Cons.prems in simp)
    with Cons show ?case by simp
  qed simp
  show ?thesis unfolding filter_spec_of_def by (rule step) (simp add: SENSITIVE_TARGETS_def)
qed

definition content_at :: "host \<Rightarrow> path \<Rightarrow> bytes" where
  "content_at h p = (case files h p of None \<Rightarrow> [] | Some f \<Rightarrow> content f)"

text \<open>The lines written on each day, in order.\<close>

fun write_all :: "(string \<times> bytes) list \<Rightarrow> unit logm" where
  "write_all [] = ret ()"
| "write_all ((today, b) # ws) = bindE (write_log today b) (\<lambda>_. write_all ws)"

lemma log_path_inj: "log_path_for d base x = log_path_for d base y \<longleftrightarrow> x = y"
  by (simp add: log_path_for_def)

lemma permitted_calm: "calm h \<Longrightarrow> permitted op h = (Inr (), tick h)"
  by (simp add: permitted_def fs_attempt_def bindE_run run_simps calm_def)

lemma calm_put: "calm (put_file p v h) \<longleftrightarrow> calm h"
  by (simp add: calm_def put_file_def)

lemma content_put: "content_at (put_file p v h) = (content_at h)(p := case v of None \<Rightarrow> [] | Some f \<Rightarrow> content f)"
  by (simp add: content_at_def put_file_def fun_eq_iff)

lemma content_tick: "content_at (tick h) = content_at h"
  by (rule ext) (simp add: content_at_def)

lemma open_log_calm:
  assumes "calm h"
  shows "\<exists>h'. open_log_file d base date h = (Inr (log_path_for d base date), h') \<and> calm h' \<and> content_at h' = content_at h"
proof -
  let ?p = "log_path_for d base date"
  let ?h = "if files (tick h) ?p = None then put_file ?p (Some \<lparr> content = [], owner_only = False \<rparr>) (tick h) else tick h"
  have "open_log_file d base date h = (Inr ?p, ?h)"
    by (simp add: open_log_file_def Let_def bindE_run run_simps permitted_calm assms)
  moreover have "calm ?h" using assms by (simp add: calm_put)
  moreover have "content_at h ?p = []" if "files h ?p = None" using that by (simp add: content_at_def)
  then have "content_at ?h = content_at h" by (auto simp: content_put content_tick fun_eq_iff)
  ultimately show ?thesis by blast
qed

lemma append_calm:
  assumes "calm h"
  shows "\<exists>h'. append_to p b h = (Inr (length b), h') \<and> calm h' \<and>
     content_at h' = (content_at h)(p := content_at h p @ b)"
proof -
  let ?h = "put_file p (Some (written (files (tick h) p) (content_at h p @ b))) (tick h)"
  have "append_to p b h = (Inr (length b), ?h)"
    by (simp add: append_to_def content_at_def bindE_run run_simps permitted_calm assms)
  moreover have "calm ?h" using assms by (simp add: calm_put)
  moreover have "content_at ?h = (content_at h)(p := content_at h p @ b)" by (simp add: content_put content_tick written_def)
  ultimately show ?thesis by blast
qed

definition writer_of :: "string \<Rightarrow> string \<Rightarrow> log_writer \<Rightarrow> bool" where
  "writer_of d base w \<longleftrightarrow> lw_dir w = d \<and> lw_base w = base \<and> lw_file w = log_path_for d base (lw_date w)"

lemma write_log_calm:
  assumes calm: "calm h" and w: "writer_of d base w"
  shows "\<exists>w' h'. write_log today b (w, h) = (Inr (length b), w', h') \<and> calm h' \<and> writer_of d base w' \<and>
     content_at h' = (content_at h)(log_path_for d base today := content_at h (log_path_for d base today) @ b)"
proof -
  obtain w1 h1 where rot: "rotate_if_needed today (w, h) = (Inr (), w1, h1)" "calm h1" "content_at h1 = content_at h"
    "writer_of d base w1" "lw_date w1 = today"
  proof (cases "today = lw_date w")
    case True
    then have "rotate_if_needed today (w, h) = (Inr (), w, h)" by (simp add: rotate_if_needed_def)
    with True that calm w show ?thesis by blast
  next
    case False
    obtain k where k: "open_log_file d base today h = (Inr (log_path_for d base today), k)" "calm k" "content_at k = content_at h"
      using open_log_calm [OF calm] by blast
    from w have "lw_dir w = d" "lw_base w = base" by (simp_all add: writer_of_def)
    then have "rotate_if_needed today (w, h) = (Inr (), w\<lparr>lw_file := log_path_for d base today, lw_date := today\<rparr>, k)"
      using False k(1) by (simp add: rotate_if_needed_def)
    then show ?thesis by (rule that) (use k w in \<open>simp_all add: writer_of_def\<close>)
  qed
  have place: "lw_file w1 = log_path_for d base today" using rot(4,5) by (simp add: writer_of_def)
  obtain k where k: "append_to (lw_file w1) b h1 = (Inr (length b), k)" "calm k"
    "content_at k = (content_at h1)(lw_file w1 := content_at h1 (lw_file w1) @ b)"
    using append_calm [OF rot(2)] by blast
  have "write_log today b (w, h) = (Inr (length b), w1, k)"
    unfolding write_log_def bindE_ok [where m = "rotate_if_needed today", OF rot(1)] by (simp add: k(1))
  with k rot place show ?thesis by auto
qed

text \<open>While no operation on files fails, every write to the log returns, the file of each day receives what was
  written on that day, in order, after what it held before, and no other file changes.\<close>

theorem each_day_has_its_own_log:
  assumes calm: "calm h" and start: "new_log_writer d base today h = (Inr w, h1)"
  shows "\<exists>w' h'. write_all ws (w, h1) = (Inr (), w', h') \<and>
     (\<forall>p. content_at h' p = content_at h p @ concat (map snd (filter (\<lambda>e. log_path_for d base (fst e) = p) ws)))"
proof -
  obtain h0 where "open_log_file d base today h = (Inr (log_path_for d base today), h0)" "calm h0" "content_at h0 = content_at h"
    using open_log_calm [OF calm] by blast
  with start have first: "writer_of d base w" "calm h1" "content_at h1 = content_at h"
    by (auto simp: new_log_writer_def returns_iff writer_of_def)
  have "\<exists>w' h'. write_all ws (v, k) = (Inr (), w', h') \<and>
     (\<forall>p. content_at h' p = content_at k p @ concat (map snd (filter (\<lambda>e. log_path_for d base (fst e) = p) ws)))"
    if "writer_of d base v" "calm k" for v k
    using that
  proof (induction ws arbitrary: v k)
    case (Cons e ws)
    obtain date b where e: "e = (date, b)" by fastforce
    obtain v1 k1 where wrote: "write_log date b (v, k) = (Inr (length b), v1, k1)" "calm k1" "writer_of d base v1"
      "content_at k1 = (content_at k)(log_path_for d base date := content_at k (log_path_for d base date) @ b)"
      using write_log_calm [OF Cons.prems(2,1)] by blast
    from Cons.IH [OF wrote(3,2)] show ?case
      by (auto simp: e bindE_ok [where m = "write_log date b", OF wrote(1)] wrote(4))
  qed (simp add: run_simps)
  from this [OF first(1,2)] first(3) show ?thesis by simp
qed

end
