(* ===== verification/Audit_Report.thy ===== *)
theory Audit_Report
  imports License_Service Team_Audit_Repository
begin

text \<open>
  \<open>services/audit_report_service.rs\<close>: the signed report of the audit log.  The query joins the entries
  of a period with the names of their authors and targets, each row becomes five texts, the texts
  are hashed and signed, and the same texts are laid out in a PDF.  The text of ids and dates, SHA-256,
  hexadecimal, the PDF crate and the folder of downloads are the fields of \<open>report_crates\<close>.
\<close>

section \<open>The crates and the data\<close>

record pdf_table =
  columns :: "nat list"
  table_rows :: "string list list"

text \<open>The layout: styles, fonts and the heights of breaks are left out.\<close>

datatype pdf_element = Paragraph string | Break | Table pdf_table

record pdf_document =
  doc_title :: string
  page_footer :: "string list"
  doc_content :: "pdf_element list"

text \<open>\<open>days_ago t n\<close> is SQLite's \<open>datetime('now', '-n days')\<close> at time \<open>t\<close>, in seconds, \<open>None\<close> for NULL.  The
  local time is read with the number of readings the call made before.\<close>

record report_crates =
  uuid_text :: "uuid \<Rightarrow> string"
  time_text :: "timestamp \<Rightarrow> string"
  days_ago :: "timestamp \<Rightarrow> int \<Rightarrow> int option"
  local_now :: "nat \<Rightarrow> string \<Rightarrow> string"
  sha256_digest :: "bytes \<Rightarrow> bytes"
  hex_encode :: "bytes \<Rightarrow> string"
  load_fonts :: "string + unit"
  push_row :: "string list \<Rightarrow> pdf_table \<Rightarrow> string + pdf_table"
  download_dir :: "string option"
  render_to_file :: "pdf_document \<Rightarrow> path \<Rightarrow> host \<Rightarrow> (string + unit) \<times> host"

datatype report_error =
    ReportLicenseRequired
  | SigningKeyMissing
  | DownloadsDirectoryNotFound
  | FontInitialization string
  | AuditData string
  | SignatureError string
  | PdfWrite string

record generated_report =
  report_path :: string
  hash_hex :: string

definition hash_prefix :: "generated_report \<Rightarrow> string" where
  "hash_prefix g = take (min (length (hash_hex g)) 12) (hash_hex g)"

record audit_entry =
  en_performed :: string
  en_action :: string
  en_actor :: string
  en_target :: string
  en_detail :: string

record report_data =
  audit_entries :: "audit_entry list"
  data_hash :: string
  signature_b64 :: string

section \<open>Texts\<close>

fun decimal :: "nat \<Rightarrow> string" where
  "decimal n = (if n < 10 then [char_of (48 + n)] else decimal (n div 10) @ [char_of (48 + n mod 10)])"

declare decimal.simps [simp del]

fun chunk_text :: "report_crates \<Rightarrow> chunk \<Rightarrow> string" where
  "chunk_text R (Lit t) = t"
| "chunk_text R (IdText i) = uuid_text R i"
| "chunk_text R (NatText n) = decimal n"

definition detail_text :: "report_crates \<Rightarrow> rich_text \<Rightarrow> string" where
  "detail_text R d = concat (map (chunk_text R) d)"

fun target_text :: "report_crates \<Rightarrow> target_ref \<Rightarrow> string" where
  "target_text R (TargetId i) = uuid_text R i"
| "target_text R (TargetText t) = t"

definition period_label :: "int \<Rightarrow> string" where
  "period_label days =
     (if days = 1 then ''les dernieres 24 heures'' else ''les '' @ decimal (nat days) @ '' derniers jours'')"

fun format_target :: "string option \<Rightarrow> string option \<Rightarrow> string" where
  "format_target (Some ty) (Some i) = ty @ '':'' @ i"
| "format_target (Some ty) None = ty"
| "format_target None (Some i) = i"
| "format_target None None = ''-''"

definition format_target_with_names :: "string option \<Rightarrow> string option \<Rightarrow> string option \<Rightarrow> string option \<Rightarrow> string" where
  "format_target_with_names ty i vault_title secret_title =
     (if ty = Some ''vault'' then
        (case nonempty_trimmed vault_title of
           Some n \<Rightarrow> ''vault:'' @ n
         | None \<Rightarrow> format_target ty i)
      else if ty = Some ''secret'' then
        (case nonempty_trimmed secret_title of
           Some n \<Rightarrow> ''secret:'' @ n
         | None \<Rightarrow> format_target ty i)
      else format_target ty i)"

definition normalize_optional_text :: "string option \<Rightarrow> string" where
  "normalize_optional_text v = (case nonempty_trimmed v of Some t \<Rightarrow> t | None \<Rightarrow> ''-'')"

definition format_audit_detail :: "string \<Rightarrow> string option \<Rightarrow> string option \<Rightarrow> string" where
  "format_audit_detail act raw secret_title =
     (let normalized = normalize_optional_text raw in
      if normalized \<noteq> ''-'' then normalized
      else if act = ''secret.created'' \<or> act = ''secret.updated'' \<or> act = ''secret.deleted'' then
        (case nonempty_trimmed secret_title of
           Some n \<Rightarrow> ''{\"title\":\"'' @ n @ ''\"}''
         | None \<Rightarrow> normalized)
      else normalized)"

definition resolve_actor_label :: "string option \<Rightarrow> string option \<Rightarrow> string option \<Rightarrow> string" where
  "resolve_actor_label i name display =
     (case i of
        None \<Rightarrow> ''SYSTEM''
      | Some fallback_id \<Rightarrow>
         (case nonempty_trimmed display of
            Some d \<Rightarrow> d
          | None \<Rightarrow>
             (case nonempty_trimmed name of
                Some n \<Rightarrow> n
              | None \<Rightarrow>
                 if fallback_id = [] then ''SYSTEM''
                 else ''Utilisateur ('' @ take 8 fallback_id @ '')'')))"

section \<open>The query\<close>

text \<open>A row of the query, and a \<open>LEFT JOIN\<close>: the matching rows, or one of NULLs when there is none.\<close>

record report_row =
  rr_actor :: "string option"
  rr_action :: string
  rr_ttype :: "string option"
  rr_tid :: "string option"
  rr_detail :: "string option"
  rr_performed :: timestamp
  rr_username :: "string option"
  rr_display :: "string option"
  rr_vault :: "string option"
  rr_title :: "string option"

definition left_join :: "('r \<Rightarrow> bool) \<Rightarrow> 'r list \<Rightarrow> 'r option list" where
  "left_join p tbl = (let ms = filter p tbl in if ms = [] then [None] else map Some ms)"

definition actor_of :: "audit_row \<Rightarrow> user_row \<Rightarrow> bool" where
  "actor_of a u \<longleftrightarrow> a_actor a = Some (u_id u)"

definition targets :: "report_crates \<Rightarrow> string \<Rightarrow> audit_row \<Rightarrow> uuid \<Rightarrow> bool" where
  "targets R ty a i \<longleftrightarrow> a_ttype a = Some ty \<and> map_option (target_text R) (a_tid a) = Some (uuid_text R i)"

definition joined_row ::
  "report_crates \<Rightarrow> audit_row \<Rightarrow> user_row option \<Rightarrow> vault_row option \<Rightarrow> secret_row option \<Rightarrow> report_row" where
  "joined_row R a u v i =
     \<lparr> rr_actor = map_option (uuid_text R) (a_actor a), rr_action = a_action a, rr_ttype = a_ttype a,
       rr_tid = map_option (target_text R) (a_tid a), rr_detail = map_option (detail_text R) (a_detail a),
       rr_performed = a_at a, rr_username = map_option u_name u, rr_display = Option.bind u u_display,
       rr_vault = map_option v_name v, rr_title = Option.bind i si_title \<rparr>"

definition joined_rows :: "report_crates \<Rightarrow> db \<Rightarrow> audit_row \<Rightarrow> report_row list" where
  "joined_rows R s a =
     [joined_row R a u v i.
        u \<leftarrow> left_join (actor_of a) (users s),
        v \<leftarrow> left_join (\<lambda>v. targets R ''vault'' a (v_id v)) (vaults s),
        i \<leftarrow> left_join (\<lambda>i. targets R ''secret'' a (si_id i)) (secrets s)]"

text \<open>\<open>performed_at >= NULL\<close> holds of no row; rows of the same second keep their insertion order.\<close>

definition report_rows :: "report_crates \<Rightarrow> int \<Rightarrow> report_row list dbm" where
  "report_rows R days = gets (\<lambda>s.
     sort_key (\<lambda>r. - int (rr_performed r))
       (concat (map (joined_rows R s)
         (filter (\<lambda>a. case days_ago R (clock s) days of None \<Rightarrow> False | Some start \<Rightarrow> start \<le> int (a_at a))
           (audits s)))))"

definition entry_of_row :: "report_crates \<Rightarrow> report_row \<Rightarrow> audit_entry" where
  "entry_of_row R r =
     \<lparr> en_performed = time_text R (rr_performed r), en_action = rr_action r,
       en_actor = resolve_actor_label (rr_actor r) (rr_username r) (rr_display r),
       en_target = format_target_with_names (rr_ttype r) (rr_tid r) (rr_vault r) (rr_title r),
       en_detail = format_audit_detail (rr_action r) (rr_detail r) (rr_title r) \<rparr>"

section \<open>The signature\<close>

record report_state =
  rp_db :: db
  rp_license :: license_state

type_synonym 'a reportm = "report_state \<Rightarrow> (report_error + 'a) \<times> report_state"

definition signed_line :: "audit_entry \<Rightarrow> string" where
  "signed_line e =
     ''['' @ en_performed e @ ''] action='' @ en_action e @ '' acteur='' @ en_actor e @ '' cible='' @ en_target e @
     '' detail='' @ en_detail e"

fun join_lines :: "string list \<Rightarrow> string" where
  "join_lines [] = []"
| "join_lines [l] = l"
| "join_lines (l # ls) = l @ [newline] @ join_lines ls"

definition signed_text :: "report_crates \<Rightarrow> string \<Rightarrow> int \<Rightarrow> audit_entry list \<Rightarrow> string" where
  "signed_text R customer days es = join_lines
     ([''Rapport d'' @ [CHR 0x27] @ ''audit HeelonVault pour '' @ customer,
       ''Periode analysee: '' @ period_label days,
       ''Date de generation: '' @ local_now R 0 ''%d/%m/%Y %H:%M:%S'',
       ''Evenements exportes: '' @ decimal (length es)]
      @ map signed_line es)"

fun signing_error :: "audit_signing_error \<Rightarrow> report_error" where
  "signing_error LicenseRequired = ReportLicenseRequired"
| "signing_error (MissingKey m) = SigningKeyMissing"
| "signing_error (InvalidKey m) = SignatureError m"

definition on_report_db :: "'a dbm \<Rightarrow> 'a reportm" where
  "on_report_db m = (\<lambda>w. case m (rp_db w) of
     (Inl e, s) \<Rightarrow> (Inl (AuditData ''database error''), w\<lparr>rp_db := s\<rparr>)
   | (Inr x, s) \<Rightarrow> (Inr x, w\<lparr>rp_db := s\<rparr>))"

definition on_license :: "'a licm \<Rightarrow> 'a reportm" where
  "on_license m = (\<lambda>w. case m (rp_license w) of
     (Inl e, l) \<Rightarrow> (Inl (signing_error e), w\<lparr>rp_license := l\<rparr>)
   | (Inr x, l) \<Rightarrow> (Inr x, w\<lparr>rp_license := l\<rparr>))"

definition collect_report_data ::
  "report_crates \<Rightarrow> 'j license_crates \<Rightarrow> environment \<Rightarrow> bytes option \<Rightarrow> string \<Rightarrow> int \<Rightarrow> report_data reportm" where
  "collect_report_data R C E seed_rnd customer days =
     bindE (on_report_db (report_rows R days)) (\<lambda>rows.
     let es = map (entry_of_row R) rows;
         h = sha256_digest R (str_bytes (signed_text R customer days es)) in
     bindE (on_license (sign_audit_hash C E seed_rnd h)) (\<lambda>sg.
     ret \<lparr> audit_entries = es, data_hash = hex_encode R h, signature_b64 = sg \<rparr>))"

section \<open>The document\<close>

fun tier_text :: "license_tier \<Rightarrow> string" where
  "tier_text Community = ''Community''"
| "tier_text Professional = ''Professional''"

definition ascii_upper :: "string \<Rightarrow> string" where
  "ascii_upper s =
     map (\<lambda>c. if 97 \<le> (of_char c :: nat) \<and> (of_char c :: nat) \<le> 122 then char_of ((of_char c :: nat) - 32) else c) s"

definition is_premium :: "license \<Rightarrow> bool" where
  "is_premium l \<longleftrightarrow>
     ascii_upper (tier_text (tier l)) \<in> {''PROFESSIONAL'', ''PRO'', ''ENTERPRISE'', ''ENT''} \<or> tier l = Professional"

definition entry_cells :: "audit_entry \<Rightarrow> string list" where
  "entry_cells e = [en_performed e, en_action e, en_actor e, en_target e, en_detail e]"

fun push_rows :: "report_crates \<Rightarrow> string list list \<Rightarrow> pdf_table \<Rightarrow> report_error + pdf_table" where
  "push_rows R [] t = Inr t"
| "push_rows R (cells # rest) t =
     (case push_row R cells t of Inl m \<Rightarrow> Inl (PdfWrite m) | Inr t' \<Rightarrow> push_rows R rest t')"

definition header_cells :: "string list" where
  "header_cells = [''Date'', ''Action'', ''Acteur'', ''Cible'', ''D'' @ [CHR 0xC3, CHR 0xA9] @ ''tail'']"

definition register_title :: string where
  "register_title = ''REGISTRE DE TRA'' @ [CHR 0xC3, CHR 0x87] @ ''ABILIT'' @ [CHR 0xC3, CHR 0x89] @ '' DES ACC'' @
     [CHR 0xC3, CHR 0x88] @ ''S''"

definition entries_element :: "report_crates \<Rightarrow> audit_entry list \<Rightarrow> report_error + pdf_element" where
  "entries_element R es =
     (if es = [] then Inr (Paragraph (''Aucun evenement d'' @ [CHR 0x27] @ ''audit sur la periode selectionnee.''))
      else case push_rows R (header_cells # map entry_cells es) \<lparr> columns = [2, 3, 2, 3, 4], table_rows = [] \<rparr> of
        Inl e \<Rightarrow> Inl e
      | Inr t \<Rightarrow> Inr (Table t))"

text \<open>The foot of every page.\<close>

definition decorate_page :: "string \<Rightarrow> string \<Rightarrow> string list" where
  "decorate_page hash sg =
     [''SHA-256: '' @ hash,
      ''Document certifi'' @ [CHR 0xC3, CHR 0xA9] @ '' int'' @ [CHR 0xC3, CHR 0xA8] @ ''gre par HeelonVault.'',
      ''Signature ID: '' @ sg]"

definition report_document :: "report_crates \<Rightarrow> string \<Rightarrow> int \<Rightarrow> report_data \<Rightarrow> report_error + pdf_document" where
  "report_document R customer days d =
     (case entries_element R (audit_entries d) of
        Inl e \<Rightarrow> Inl e
      | Inr journal \<Rightarrow> Inr
          \<lparr> doc_title = ''HeelonVault - Rapport d'' @ [CHR 0x27] @ ''audit'',
            page_footer = decorate_page (data_hash d) (signature_b64 d),
            doc_content =
              [Paragraph (''Date: '' @ local_now R 1 ''%d/%m/%Y''),
               Paragraph (''Periode analysee: '' @ period_label days),
               Paragraph (''Evenements exportes: '' @ decimal (length (audit_entries d))),
               Break, Paragraph register_title, Paragraph (''Etabli pour : '' @ customer), Break,
               Paragraph (''JOURNAL D'' @ [CHR 0x27] @ ''AUDIT SIGNE''), Break, journal] \<rparr>)"

definition path_to_string :: "path \<Rightarrow> string" where
  "path_to_string p = path_parent p @ ''/'' @ file_name p"

definition output_path :: "report_crates \<Rightarrow> string \<Rightarrow> int \<Rightarrow> path" where
  "output_path R dir days =
     Path dir (''HeelonVault_Audit_'' @ decimal (nat days) @ ''j_'' @ local_now R 2 ''%Y%m%d'' @ ''.pdf'')"

definition draw_pdf :: "report_crates \<Rightarrow> pdf_document \<Rightarrow> path \<Rightarrow> unit reportm" where
  "draw_pdf R doc p = (\<lambda>w. case render_to_file R doc p (lic_host (rp_license w)) of
     (r, h) \<Rightarrow> ((case r of Inl m \<Rightarrow> Inl (PdfWrite m) | Inr _ \<Rightarrow> Inr ()), w\<lparr>rp_license := (rp_license w)\<lparr>lic_host := h\<rparr>\<rparr>))"

definition generate_audit_report ::
  "report_crates \<Rightarrow> 'j license_crates \<Rightarrow> environment \<Rightarrow> bytes option \<Rightarrow> string \<Rightarrow> 64 word \<Rightarrow> generated_report reportm" where
  "generate_audit_report R C E seed_rnd customer days =
     bindE (gets (\<lambda>w. cached_license (rp_license w))) (\<lambda>l_opt.
     bindE (require (case l_opt of None \<Rightarrow> False | Some l \<Rightarrow> is_premium l) ReportLicenseRequired) (\<lambda>_.
     let period = max (sint days) 1 in
     bindE (collect_report_data R C E seed_rnd customer period) (\<lambda>d.
     bindE (lift_result (case load_fonts R of Inl m \<Rightarrow> Inl (FontInitialization m) | Inr _ \<Rightarrow> Inr ())) (\<lambda>_.
     bindE (lift_result (report_document R customer period d)) (\<lambda>doc.
     bindE (ok_or DownloadsDirectoryNotFound (download_dir R)) (\<lambda>dir.
     let p = output_path R dir period in
     bindE (draw_pdf R doc p) (\<lambda>_.
     ret \<lparr> report_path = path_to_string p, hash_hex = data_hash d \<rparr>)))))))"

end
