(* ===== verification/Audit_Report_Properties.thy ===== *)
theory Audit_Report_Properties
  imports Audit_Report "HOL-Library.Multiset"
begin

text \<open>
  What a signed report is of: the joins of its query are look-ups of the author and the target, its
  entries are those of the period, newest first, and what is signed is the text of exactly these.
\<close>

section \<open>The joins are look-ups\<close>

lemma left_join_unique:
  assumes "distinct (map k tbl)" and "\<And>x y. p x \<Longrightarrow> p y \<Longrightarrow> k x = k y"
  shows "left_join p tbl = [first_row p tbl]"
  using assms(1)
proof (induction tbl)
  case Nil
  show ?case by (simp add: left_join_def first_row_def)
next
  case (Cons x xs)
  show ?case
  proof (cases "p x")
    case True
    then have "\<forall>y\<in>set xs. \<not> p y" using Cons.prems assms(2) by (metis distinct.simps(2) image_eqI list.set_map list.simps(9))
    then have "filter p xs = []" by (simp add: filter_empty_conv)
    with True show ?thesis by (simp add: left_join_def first_row_def)
  next
    case False
    with Cons show ?thesis by (simp add: left_join_def first_row_def)
  qed
qed

text \<open>An entry with the names of its author and its target, as the tables have them.\<close>

definition looked_up :: "report_crates \<Rightarrow> db \<Rightarrow> audit_row \<Rightarrow> report_row" where
  "looked_up R s a =
     joined_row R a (first_row (actor_of a) (users s))
       (first_row (\<lambda>v. targets R ''vault'' a (v_id v)) (vaults s))
       (first_row (\<lambda>i. targets R ''secret'' a (si_id i)) (secrets s))"

definition named_entry :: "report_crates \<Rightarrow> db \<Rightarrow> audit_row \<Rightarrow> audit_entry" where
  "named_entry R s a = entry_of_row R (looked_up R s a)"

lemma joined_rows_lookup:
  assumes "db_ok s" and "inj (uuid_text R)"
  shows "joined_rows R s a = [looked_up R s a]"
proof -
  have u: "left_join (actor_of a) (users s) = [first_row (actor_of a) (users s)]"
    using assms(1) by (intro left_join_unique [of u_id]) (auto simp: db_ok_def users_ok_def actor_of_def)
  have v: "left_join (\<lambda>v. targets R ''vault'' a (v_id v)) (vaults s) =
      [first_row (\<lambda>v. targets R ''vault'' a (v_id v)) (vaults s)]"
    using assms by (intro left_join_unique [of v_id]) (auto simp: db_ok_def vaults_ok_def targets_def inj_eq)
  have i: "left_join (\<lambda>i. targets R ''secret'' a (si_id i)) (secrets s) =
      [first_row (\<lambda>i. targets R ''secret'' a (si_id i)) (secrets s)]"
    using assms by (intro left_join_unique [of si_id]) (auto simp: db_ok_def secrets_ok_def targets_def inj_eq)
  show ?thesis by (simp add: joined_rows_def u v i looked_up_def)
qed

section \<open>The entries of a period\<close>

lemma insort_key_map: "insort_key k (g x) (map g xs) = map g (insort_key (\<lambda>y. k (g y)) x xs)"
  by (induction xs) simp_all

lemma sort_key_map: "sort_key k (map g xs) = map g (sort_key (\<lambda>y. k (g y)) xs)"
  by (induction xs) (simp_all add: insort_key_map)

lemma concat_map_single: "(\<And>x. x \<in> set xs \<Longrightarrow> f x = [g x]) \<Longrightarrow> concat (map f xs) = map g xs"
  by (induction xs) auto

text \<open>The entries at or after a time, newest first.\<close>

definition newest_since :: "int \<Rightarrow> db \<Rightarrow> audit_row list" where
  "newest_since start s = sort_key (\<lambda>a. - int (a_at a)) (filter (\<lambda>a. start \<le> int (a_at a)) (audits s))"

lemma newest_since_mset: "mset (newest_since start s) = filter_mset (\<lambda>a. start \<le> int (a_at a)) (mset (audits s))"
  by (simp add: newest_since_def)

lemma newest_since_sorted: "sorted_wrt (\<lambda>a b. a_at b \<le> a_at a) (newest_since start s)"
  using sorted_sort_key [of "\<lambda>a. - int (a_at a)" "filter (\<lambda>a. start \<le> int (a_at a)) (audits s)"]
  by (simp add: newest_since_def sorted_map)

lemma report_rows_run:
  assumes "db_ok s" and "inj (uuid_text R)" and "days_ago R (clock s) days = Some start"
  shows "\<exists>rows. report_rows R days s = (Inr rows, s) \<and>
    map (entry_of_row R) rows = map (named_entry R s) (newest_since start s)"
proof -
  have "joined_rows R s = (\<lambda>a. [looked_up R s a])" using joined_rows_lookup [OF assms(1,2)] by blast
  moreover have "rr_performed (looked_up R s a) = a_at a" for a by (simp add: looked_up_def joined_row_def)
  ultimately show ?thesis
    by (simp add: report_rows_def run_simps assms(3) sort_key_map newest_since_def named_entry_def)
qed

lemma on_report_db_returns:
  "on_report_db m w = (Inr x, w') \<longleftrightarrow> (\<exists>s. m (rp_db w) = (Inr x, s) \<and> w' = w\<lparr>rp_db := s\<rparr>)"
  by (auto simp: on_report_db_def split: prod.splits sum.splits)

lemma on_license_returns:
  "on_license m w = (Inr x, w') \<longleftrightarrow> (\<exists>l. m (rp_license w) = (Inr x, l) \<and> w' = w\<lparr>rp_license := l\<rparr>)"
  by (auto simp: on_license_def split: prod.splits sum.splits)

lemma draw_pdf_returns:
  "draw_pdf R doc p w = (Inr x, w') \<longleftrightarrow>
     (\<exists>h. render_to_file R doc p (lic_host (rp_license w)) = (Inr (), h) \<and>
       w' = w\<lparr>rp_license := (rp_license w)\<lparr>lic_host := h\<rparr>\<rparr>)"
  by (auto simp: draw_pdf_def split: prod.splits sum.splits)

lemma push_rows_run:
  assumes "\<And>cells t. length cells = length (columns t) \<Longrightarrow> push_row R cells t = Inr (t\<lparr>table_rows := table_rows t @ [cells]\<rparr>)"
    and "\<forall>cells\<in>set rows. length cells = length (columns t)"
  shows "push_rows R rows t = Inr (t\<lparr>table_rows := table_rows t @ rows\<rparr>)"
  using assms(2) by (induction rows arbitrary: t) (simp_all add: assms(1))

lemma entries_table:
  assumes "\<And>cells t. length cells = length (columns t) \<Longrightarrow> push_row R cells t = Inr (t\<lparr>table_rows := table_rows t @ [cells]\<rparr>)"
    and "es \<noteq> []"
  shows "entries_element R es =
    Inr (Table \<lparr> columns = [2, 3, 2, 3, 4], table_rows = header_cells # map entry_cells es \<rparr>)"
  using assms(2) push_rows_run [of R "header_cells # map entry_cells es" "\<lparr> columns = [2, 3, 2, 3, 4], table_rows = [] \<rparr>"]
    assms(1)
  by (simp add: entries_element_def header_cells_def entry_cells_def)

lemma report_document_returns:
  assumes "report_document R customer n d = Inr doc"
  shows "page_footer doc = decorate_page (data_hash d) (signature_b64 d)"
    and "entries_element R (audit_entries d) = Inr (last (doc_content doc))"
  using assms by (auto simp: report_document_def split: sum.splits)

lemma premium_is_professional: "is_premium l \<longleftrightarrow> tier l = Professional"
  by (cases "tier l") (simp_all add: is_premium_def ascii_upper_def)

text \<open>C29. A report is generated only under a professional license, changes nothing in the database, and lists
  exactly the entries of the period, each with the current names of its author and its target: the hash
  it shows is that of the text of these entries, newest first, the signature is the one made of that
  hash, and the table of the document written to the file has one row for each of them.\<close>

theorem signed_report_shows_the_period:
  assumes ok: "db_ok (rp_db w)" and ids: "inj (uuid_text R)"
    and start: "days_ago R (clock (rp_db w)) (max (sint days) 1) = Some start"
    and table: "\<And>cells t. length cells = length (columns t) \<Longrightarrow>
      push_row R cells t = Inr (t\<lparr>table_rows := table_rows t @ [cells]\<rparr>)"
    and run: "generate_audit_report R C E seed_rnd customer days w = (Inr g, w')"
  shows "\<exists>l rows h sg provisioned doc p.
    cached_license (rp_license w) = Some l \<and> tier l = Professional \<and> rp_db w' = rp_db w \<and>
    mset rows = filter_mset (\<lambda>a. start \<le> int (a_at a)) (mset (audits (rp_db w))) \<and>
    sorted_wrt (\<lambda>a b. a_at b \<le> a_at a) rows \<and>
    h = sha256_digest R (str_bytes (signed_text R customer (max (sint days) 1) (map (named_entry R (rp_db w)) rows))) \<and>
    sign_audit_hash C E seed_rnd h (rp_license w) = (Inr sg, provisioned) \<and>
    hash_hex g = hex_encode R h \<and> page_footer doc = decorate_page (hash_hex g) sg \<and>
    (rows = [] \<or> last (doc_content doc) = Table \<lparr> columns = [2, 3, 2, 3, 4],
       table_rows = header_cells # map (entry_cells \<circ> named_entry R (rp_db w)) rows \<rparr>) \<and>
    report_path g = path_to_string p \<and>
    render_to_file R doc p (lic_host provisioned) = (Inr (), lic_host (rp_license w'))"
proof -
  let ?n = "max (sint days) 1" and ?rows = "newest_since start (rp_db w)"
  let ?es = "map (named_entry R (rp_db w)) ?rows"
  let ?h = "sha256_digest R (str_bytes (signed_text R customer ?n ?es))"
  from report_rows_run [OF ok ids start] obtain rs
    where rs: "report_rows R ?n (rp_db w) = (Inr rs, rp_db w)" "map (entry_of_row R) rs = ?es" by blast
  from run obtain l sg provisioned doc dir h where lic: "cached_license (rp_license w) = Some l" "tier l = Professional"
    and sg: "sign_audit_hash C E seed_rnd ?h (rp_license w) = (Inr sg, provisioned)"
    and doc: "report_document R customer ?n \<lparr> audit_entries = ?es, data_hash = hex_encode R ?h, signature_b64 = sg \<rparr> = Inr doc"
    and drawn: "render_to_file R doc (output_path R dir ?n) (lic_host provisioned) = (Inr (), h)"
    and w': "w' = w\<lparr>rp_license := provisioned\<lparr>lic_host := h\<rparr>\<rparr>"
    and g: "g = \<lparr> report_path = path_to_string (output_path R dir ?n), hash_hex = hex_encode R ?h \<rparr>"
    by (auto simp: generate_audit_report_def collect_report_data_def Let_def returns_iff on_license_returns
        draw_pdf_returns premium_is_professional on_report_db_returns rs split: option.splits)
  have "?rows = [] \<or> last (doc_content doc) = Table \<lparr> columns = [2, 3, 2, 3, 4],
      table_rows = header_cells # map (entry_cells \<circ> named_entry R (rp_db w)) ?rows \<rparr>"
    using report_document_returns(2) [OF doc] entries_table [of R ?es] table by (cases "?rows = []") simp_all
  moreover have "page_footer doc = decorate_page (hex_encode R ?h) sg"
    using report_document_returns(1) [OF doc] by simp
  ultimately show ?thesis
    using lic sg drawn w' g newest_since_mset [of start "rp_db w"] newest_since_sorted [of start "rp_db w"]
    by (intro exI [of _ l] exI [of _ ?rows] exI [of _ ?h] exI [of _ sg] exI [of _ provisioned] exI [of _ doc]
        exI [of _ "output_path R dir ?n"]) simp
qed

text \<open>The texts of an entry are joined without escaping: what stands before a separator in one field may as
  well stand in the next one, so that different entries are signed alike.  Names of users and vaults are
  chosen by users.\<close>

theorem entries_are_signed_alike:
  "\<exists>e e'. e \<noteq> e' \<and> en_actor e \<noteq> en_actor e' \<and>
     signed_text R customer days (before @ e # after) = signed_text R customer days (before @ e' # after)"
proof -
  let ?e = "\<lparr> en_performed = '''', en_action = '''', en_actor = ''Eve'', en_target = ''vault:a cible=vault:b'', en_detail = ''-'' \<rparr>"
  let ?e' = "?e\<lparr>en_actor := ''Eve cible=vault:a'', en_target := ''vault:b''\<rparr>"
  have "signed_line ?e = signed_line ?e'" by (simp add: signed_line_def)
  then have "signed_text R customer days (before @ ?e # after) = signed_text R customer days (before @ ?e' # after)"
    by (simp only: signed_text_def map_append list.simps length_append list.size)
  moreover have "?e \<noteq> ?e'" and "en_actor ?e \<noteq> en_actor ?e'" by simp_all
  ultimately show ?thesis by blast
qed

text \<open>With its author an entry loses the name in every report: after the deletion of an account what it did
  is reported as done by the system.\<close>

theorem deleted_authors_become_the_system:
  assumes "a \<in> set (audits (cascade_user uid s))" and "a \<notin> set (audits s)"
  shows "en_actor (named_entry R s' a) = ''SYSTEM''"
proof -
  from assms obtain b where "b \<in> set (audits s)" and "a = (if a_actor b = Some uid then b\<lparr>a_actor := None\<rparr> else b)"
    by (auto simp: cascade_user_def update_rows_def)
  with assms(2) have "a_actor a = None" by (auto split: if_splits)
  then show ?thesis
    by (simp add: named_entry_def looked_up_def entry_of_row_def joined_row_def resolve_actor_label_def)
qed

text \<open>A report is generated if the license, the key and the crates allow it.\<close>

lemma report_returns:
  assumes ok: "db_ok (rp_db w)" and ids: "inj (uuid_text R)"
    and start: "days_ago R (clock (rp_db w)) (max (sint days) 1) = Some start"
    and table: "\<And>cells t. length cells = length (columns t) \<Longrightarrow>
      push_row R cells t = Inr (t\<lparr>table_rows := table_rows t @ [cells]\<rparr>)"
    and lic: "cached_license (rp_license w) = Some l" "tier l = Professional"
    and signs: "\<And>h. \<exists>sg. sign_audit_hash C E seed_rnd h (rp_license w) = (Inr sg, provisioned)"
    and rest: "load_fonts R = Inr ()" "download_dir R = Some dir" "\<And>doc p h. fst (render_to_file R doc p h) = Inr ()"
  shows "\<exists>g w'. generate_audit_report R C E seed_rnd customer days w = (Inr g, w')"
proof -
  let ?n = "max (sint days) 1"
  from report_rows_run [OF ok ids start] obtain rs where rs: "report_rows R ?n (rp_db w) = (Inr rs, rp_db w)" by blast
  let ?es = "map (entry_of_row R) rs"
  from signs obtain sg where
    "sign_audit_hash C E seed_rnd (sha256_digest R (str_bytes (signed_text R customer ?n ?es))) (rp_license w) = (Inr sg, provisioned)"
    by blast
  moreover obtain j where "entries_element R ?es = Inr j"
    using entries_table [of R ?es] table by (cases "?es = []") (auto simp: entries_element_def)
  moreover obtain h where "\<And>doc p. render_to_file R doc p (lic_host provisioned) = (Inr (), h doc p)"
    using that [of "\<lambda>doc p. snd (render_to_file R doc p (lic_host provisioned))"] rest(3) by (simp add: prod_eq_iff)
  ultimately show ?thesis
    using lic rest(1,2) rs
    by (simp add: generate_audit_report_def collect_report_data_def Let_def run_simps bindE_run premium_is_professional
        on_report_db_def on_license_def report_document_def draw_pdf_def)
qed

end
