(* ===== verification/Audit_Service.thy ===== *)
theory Audit_Service
  imports Team_Audit_Repository
begin

text \<open>
  \<open>services/audit_service.rs\<close>: the second writer of the audit log, with its own actions and severities.
  \<open>log_async\<close> starts a task that performs the insertion and drops its error; the model performs it at
  once.
\<close>

datatype audit_severity = Info | Warn | Critical

fun severity_str :: "audit_severity \<Rightarrow> string" where
  "severity_str Info = ''INFO''"
| "severity_str Warn = ''WARN''"
| "severity_str Critical = ''CRITICAL''"

datatype audit_event =
    BootstrapInit
  | BootstrapInitSuccess
  | BootstrapInitFailure
  | AuthLogin
  | AuthLoginSuccess
  | AuthLoginFailure
  | AuthLogout
  | RbacPermissionChange
  | RbacRoleAssignment
  | RbacRoleRevocation
  | SecretView
  | SecretCreate
  | SecretUpdate
  | SecretDelete
  | LicenseCheck
  | LicenseCheckSuccess
  | LicenseCheckFailure

fun event_str :: "audit_event \<Rightarrow> string" where
  "event_str BootstrapInit = ''bootstrap.init''"
| "event_str BootstrapInitSuccess = ''bootstrap.init.success''"
| "event_str BootstrapInitFailure = ''bootstrap.init.failure''"
| "event_str AuthLogin = ''auth.login''"
| "event_str AuthLoginSuccess = ''auth.login.success''"
| "event_str AuthLoginFailure = ''auth.login.failure''"
| "event_str AuthLogout = ''auth.logout''"
| "event_str RbacPermissionChange = ''rbac.permission.change''"
| "event_str RbacRoleAssignment = ''rbac.role.assignment''"
| "event_str RbacRoleRevocation = ''rbac.role.revocation''"
| "event_str SecretView = ''secret.view''"
| "event_str SecretCreate = ''secret.create''"
| "event_str SecretUpdate = ''secret.update''"
| "event_str SecretDelete = ''secret.delete''"
| "event_str LicenseCheck = ''license.check''"
| "event_str LicenseCheckSuccess = ''license.check.success''"
| "event_str LicenseCheckFailure = ''license.check.failure''"

definition severity :: "audit_event \<Rightarrow> audit_severity" where
  "severity e =
     (if e \<in> {RbacPermissionChange, RbacRoleAssignment, RbacRoleRevocation, AuthLoginFailure, BootstrapInitFailure}
      then Critical
      else if e \<in> {SecretDelete, AuthLogout} then Warn
      else Info)"

definition log_sync ::
  "uuid option \<Rightarrow> audit_event \<Rightarrow> string option \<Rightarrow> target_ref option \<Rightarrow> rich_text option \<Rightarrow> unit dbm" where
  "log_sync actor e tty tid det =
     bindE (gets clock) (\<lambda>t.
     exec_sql (insert_audit_row (\<lambda>n.
       \<lparr> a_id = n, a_actor = actor, a_action = event_str e, a_ttype = tty, a_tid = tid, a_detail = det, a_at = t \<rparr>)))"

definition log_async ::
  "uuid option \<Rightarrow> audit_event \<Rightarrow> string option \<Rightarrow> target_ref option \<Rightarrow> rich_text option \<Rightarrow> unit dbm" where
  "log_async actor e tty tid det = ignore_error (log_sync actor e tty tid det)"

definition log_bootstrap_success :: "string \<Rightarrow> unit dbm" where
  "log_bootstrap_success name =
     log_async None BootstrapInitSuccess (Some ''user'') (Some (TargetText name)) (Some [Lit ''First admin account initialized''])"

definition log_bootstrap_failure :: "string \<Rightarrow> unit dbm" where
  "log_bootstrap_failure reason = log_async None BootstrapInitFailure (Some ''bootstrap'') None (Some [Lit reason])"

definition log_login_success :: "uuid \<Rightarrow> string \<Rightarrow> unit dbm" where
  "log_login_success uid name =
     log_async (Some uid) AuthLoginSuccess (Some ''user'') (Some (TargetText name))
       (Some [Lit ''Login successful for user '', Lit name])"

definition log_login_failure :: "string \<Rightarrow> string \<Rightarrow> unit dbm" where
  "log_login_failure name reason =
     log_async None AuthLoginFailure (Some ''user'') (Some (TargetText name)) (Some [Lit ''Login failed: '', Lit reason])"

definition log_secret_view :: "uuid \<Rightarrow> uuid \<Rightarrow> string \<Rightarrow> unit dbm" where
  "log_secret_view uid sid secret_title =
     log_async (Some uid) SecretView (Some ''secret'') (Some (TargetId sid)) (Some [Lit ''Viewed secret: '', Lit secret_title])"

definition log_license_check_success :: "unit dbm" where
  "log_license_check_success =
     log_async None LicenseCheckSuccess (Some ''license'') None (Some [Lit ''License validation passed at startup''])"

definition log_license_check_failure :: "string \<Rightarrow> unit dbm" where
  "log_license_check_failure reason = log_async None LicenseCheckFailure (Some ''license'') None (Some [Lit reason])"

section \<open>What is logged\<close>

lemma event_str_inj: "event_str e = event_str e' \<longleftrightarrow> e = e'"
  by (cases e; cases e') simp_all

text \<open>A dropped error leaves the entry out; nothing but the log changes, whatever is logged.\<close>

lemma log_async_run:
  "log_async actor e tty tid det s =
     (Inr (), if ref_in actor (user_ids s)
              then s\<lparr>audits := audits s @ [\<lparr> a_id = Suc (audit_seq s), a_actor = actor, a_action = event_str e,
                       a_ttype = tty, a_tid = tid, a_detail = det, a_at = clock s \<rparr>],
                     audit_seq := Suc (audit_seq s)\<rparr>
              else s)"
  by (simp add: log_async_def log_sync_def run_simps exec_sql_def insert_audit_row_def bindE_run)

text \<open>Every failure is of the highest severity, but that of a license.\<close>

lemma failures_are_critical:
  "take 8 (rev (event_str e)) = rev ''.failure'' \<Longrightarrow> severity e = Critical \<or> e = LicenseCheckFailure"
  by (cases e) (simp_all add: severity_def)

end
