(* ===== verification/Report_Witnesses.thy ===== *)
theory Report_Witnesses
  imports Audit_Report_Properties Audit_Service License_Witnesses Demo
begin

text \<open>A concrete installation with two audit entries, one of them in the period, and its report.\<close>

definition demo_R :: report_crates where
  "demo_R = \<lparr> uuid_text = (\<lambda>i. replicate (unat i) CHR ''1''), time_text = (\<lambda>t. replicate t CHR ''s''),
     days_ago = (\<lambda>t n. Some (int t - n)), local_now = (\<lambda>_ _. ''now''),
     sha256_digest = (\<lambda>b. [word_of_nat (length b)]), hex_encode = padded, load_fonts = Inr (),
     push_row = (\<lambda>cells t. if length cells = length (columns t)
       then Inr (t\<lparr>table_rows := table_rows t @ [cells]\<rparr>) else Inl ''wrong number of columns''),
     download_dir = Some ''/home/ada'',
     render_to_file = (\<lambda>doc p h. (Inr (), put_file p (Some \<lparr> content = [], owner_only = False \<rparr>) h)) \<rparr>"

definition opened_entry :: "timestamp \<Rightarrow> audit_row" where
  "opened_entry t =
     \<lparr> a_id = t, a_actor = Some 1, a_action = ''vault.opened'', a_ttype = Some ''vault'', a_tid = Some (TargetId 10),
       a_detail = None, a_at = t \<rparr>"

definition report_E :: environment where
  "report_E = \<lparr> current_exe = None, env_var = (\<lambda>v. if v = AUDIT_SIGNING_KEY_ENV then Some ''seed'' else None),
     config_dir = None \<rparr>"

definition report_site :: report_state where
  "report_site = \<lparr> rp_db = demo_db\<lparr>audits := [opened_entry 1, opened_entry 8], audit_seq := 8\<rparr>,
     rp_license = licensed (Some demo_license) \<rparr>"

lemma demo_R_ids: "inj (uuid_text demo_R)"
proof (rule injI)
  fix i j
  assume "uuid_text demo_R i = uuid_text demo_R j"
  then have "length (uuid_text demo_R i) = length (uuid_text demo_R j)" by (rule arg_cong)
  then show "i = j" by (simp add: demo_R_def unsigned_word_eqI)
qed

lemma report_site_ok: "db_ok (rp_db report_site)"
  by code_simp

lemma seed_signs:
  "\<exists>sg. sign_audit_hash demo_L report_E None h (rp_license report_site) =
     (Inr sg, (rp_license report_site)\<lparr>audit_key_auto_generated := False\<rparr>)"
proof -
  have "nonempty_trimmed (env_var report_E AUDIT_SIGNING_KEY_ENV) = Some ''seed''" by code_simp
  moreover have "decode_key_material demo_L ''seed'' = Inr (replicate 32 0)" by code_simp
  ultimately show ?thesis
    by (simp add: sign_audit_hash_def ensure_audit_key_exists_def resolve_audit_signing_key_material_def
        has_certified_license_def set_auto_generated_def map_err_def run_simps bindE_run report_site_def licensed_def
        demo_license_def)
qed

theorem signed_report_shows_the_period_witness:
  "\<exists>g w' sg. generate_audit_report demo_R demo_L report_E None ''Lab'' 7 report_site = (Inr g, w') \<and>
     rp_db w' = rp_db report_site \<and>
     (let h = sha256_digest demo_R (str_bytes (signed_text demo_R ''Lab'' 7
                [named_entry demo_R (rp_db report_site) (opened_entry 8)])) in
      hash_hex g = hex_encode demo_R h \<and> fst (sign_audit_hash demo_L report_E None h (rp_license report_site)) = Inr sg)"
proof -
  have start: "days_ago demo_R (clock (rp_db report_site)) (max (sint (7 :: 64 word)) 1) = Some 2"
    by (simp add: demo_R_def report_site_def demo_db_def)
  have table: "push_row demo_R cells t = Inr (t\<lparr>table_rows := table_rows t @ [cells]\<rparr>)"
    if "length cells = length (columns t)" for cells t using that by (simp add: demo_R_def)
  have lic: "cached_license (rp_license report_site) = Some demo_license" "tier demo_license = Professional"
    by (simp_all add: report_site_def licensed_def demo_license_def)
  have "load_fonts demo_R = Inr ()" "download_dir demo_R = Some ''/home/ada''"
    "fst (render_to_file demo_R doc p h) = Inr ()" for doc p h by (simp_all add: demo_R_def)
  from report_returns [OF report_site_ok demo_R_ids start table lic seed_signs this, of "''Lab''"] obtain g w' where
    run: "generate_audit_report demo_R demo_L report_E None ''Lab'' 7 report_site = (Inr g, w')" by auto
  have "filter_mset (\<lambda>a. 2 \<le> int (a_at a)) (mset (audits (rp_db report_site))) = {#opened_entry 8#}"
    by (simp add: report_site_def opened_entry_def)
  with signed_report_shows_the_period [OF report_site_ok demo_R_ids start table run] show ?thesis
    unfolding run by (fastforce simp: Let_def)
qed

end
