(* ===== verification/Spec2Isabelle.thy ===== *)
theory Spec2Isabelle
  imports Account_Witnesses Team_Witnesses Login_Witnesses Backup_Witnesses Import_Witnesses
    License_Witnesses Password_Service System_Witnesses Window_Witnesses Editor_Witnesses First_Start_Witnesses
    Restore_Witnesses Management_Witnesses Export_Witnesses Start_Up
    Report_Witnesses
begin

text \<open>
  HeelonVault: the core of a multi-user password manager in Rust, over SQLite.

  \<^bold>\<open>The program.\<close>  A desktop application (\<open>src/main.rs\<close>, \<open>src/ui\<close>) drives services (\<open>src/services\<close>)
  which read and write one SQLite database through repositories (\<open>src/repositories\<close>).  A user's
  password, stretched by Argon2id, is the user's master key; every vault has a random key, stored
  once per user who may open it, sealed under that user's master key (the owner's in the vault row,
  the others' in \<open>vault_key_shares\<close>); every secret is sealed under its vault's key.  Who may reach a
  vault is what the SQL view \<open>accessible_vaults\<close> projects from owners and shares, and what a user may
  do there is decided by \<open>check_permission\<close>.

  \<^bold>\<open>The model.\<close>
  \<^item> \<open>Prelude\<close>: results as sums, the state-and-error combinators (\<open>bindE\<close> is \<open>?\<close>, \<open>ignore_error\<close> is
    \<open>.ok()\<close>, \<open>transaction\<close> rolls back on an error), locales for step orders that invariants travel
    along, tables as lists of rows, \<open>str::trim\<close> and the like (\<open>Trimming\<close>).
  \<^item> \<open>Models\<close>: \<open>errors.rs\<close> and \<open>models/\<close>.  \<open>Schema\<close>: the tables of \<open>migrations/\<close>, their constraints as
    the invariant \<open>db_ok\<close>, inserts that check them and deletions that cascade.
  \<^item> \<open>User_Repository\<close>, \<open>Vault_Repository\<close>, \<open>Secret_Repository\<close>, \<open>Team_Audit_Repository\<close>: one
    definition per repository method, the errors of missing rows and violated constraints included.
  \<^item> \<open>Access_Control\<close>: \<open>check_permission\<close>, equal to a policy stated by right.
  \<^item> \<open>Crypto\<close>: \<open>crypto_service.rs\<close>; AES-GCM and Argon2id are fields of the parameter \<open>primitives\<close>,
    with \<open>aead_laws\<close> the documented behaviour the proofs use.
  \<^item> \<open>Audit_Log_Service\<close>, \<open>Vault_Service\<close>, \<open>Secret_Service\<close>, \<open>Team_Service\<close>: the services over
    the database; \<open>Auth_Service\<close>: the in-memory credentials; \<open>Admin_Service\<close>: the operations over
    both (\<open>admin_service.rs\<close>, \<open>user_service.rs\<close>, the start-up of \<open>main.rs\<close>).
  \<^item> \<open>Vault_Properties\<close>, \<open>Secret_Properties\<close>, \<open>Team_Properties\<close>, \<open>Admin_Properties\<close>: what they
    achieve.
  \<^item> \<open>Auth_Policy\<close>: the counter of failed attempts and the lock-out (\<open>auth_policy_service.rs\<close>);
    \<open>Totp_Service\<close>, \<open>Totp_Properties\<close>: the second factor and its replay guard, a state shared by all
    sessions, with runs of calls as an inductive relation; \<open>Login\<close>: the two steps of the login dialog
    over all of them.  The TOTP crate is the parameter \<open>totp_crate\<close>, with \<open>totp_laws\<close>.
  \<^item> \<open>File_System\<close>: files, and an oracle that may let any operation fail; \<open>Backup_Service\<close>,
    \<open>Backup_Properties\<close>: \<open>backup_service.rs\<close> and \<open>backup_application_service.rs\<close>; \<open>License_Service\<close>,
    \<open>License_Properties\<close>: \<open>license_service.rs\<close>, with the audit signing key.
  \<^item> \<open>Password_Service\<close>: policy, score and generator; the rejection loop of the generator is a
    partial function of a source of random draws.  \<open>Import_Service\<close>, \<open>Import_Properties\<close>: the CSV import.
  \<^item> \<open>Audit_Report\<close>, \<open>Audit_Report_Properties\<close>: the signed report (\<open>audit_report_service.rs\<close>);
    \<open>Audit_Service\<close>: the second writer of the audit log (\<open>audit_service.rs\<close>).
  \<^item> \<open>Start_Up\<close>: the command line, the paths and the log of \<open>main.rs\<close>.
  \<^item> \<open>System\<close>: any order of the calls, failed ones and restarts included, as the relation \<open>run\<close>, with
    the invariants that hold along it; its locales state what a step order has to admit for the services
    to move along it, and are interpreted for the well-formed states, the stored values and the audit log.
    \<open>Failures\<close>: what a failed call leaves; \<open>Keyring\<close>: the abstract keyring that the calls implement, those
    on accounts included.
  \<^item> The user interface, where it decides something: \<open>Search\<close>, \<open>Search_Properties\<close> (the search language,
    \<open>search_filter.rs\<close>), \<open>Secret_List\<close>, \<open>Secret_List_Properties\<close> (the list, \<open>secret_flow.rs\<close>),
    \<open>Entry_Editor\<close>, \<open>Entry_Editor_Properties\<close> (the form of an entry, \<open>add_edit_dialog\<close>), \<open>Strength_Bar\<close>,
    \<open>Strength_Bar_Properties\<close> (\<open>password_strength_bar.rs\<close>), \<open>Trash_Dialog\<close>, \<open>Trash_Dialog_Properties\<close>
    (\<open>trash_dialog.rs\<close>), \<open>Login_Form\<close>, \<open>Login_Form_Properties\<close> (the button, messages and countdown of the
    login dialog), \<open>First_Start\<close>, \<open>First_Start_Properties\<close> (its pages of the first start), \<open>Users_Dialog\<close>,
    \<open>Users_Dialog_Properties\<close>, \<open>Teams_Dialog\<close>, \<open>Teams_Dialog_Properties\<close> (the administration of accounts and
    teams, where the answers of tasks arrive in any order), \<open>Export_Dialog\<close>, \<open>Export_Dialog_Properties\<close> (the
    recovery phrase of an export), \<open>Auto_Lock\<close> (the inactivity timer, \<open>auto_lock.rs\<close>, and the copies of the
    session's key that loads of the list, cards, the inline editor and the trash hold) and \<open>Restore\<close> (the
    restoration from the login dialog, \<open>main.rs\<close>).  A widget is the part of it the code reads or sets.
  \<^item> \<open>Demo\<close> is a concrete database with a concrete cipher; the \<open>_Witnesses\<close> theories apply the
    properties there.

  \<^bold>\<open>How to read it.\<close>  An operation is a function from a state to a result and a state: \<open>dbm\<close> on the
  database, \<open>authm\<close> on the credentials, \<open>appm\<close> on both.  Its result is \<open>Inl\<close> of an \<open>app_error\<close> or
  \<open>Inr\<close> of a value; an error keeps whatever had been written before it, as the code does outside a
  transaction.  What a call draws (ids, nonces, salts, keys) is an argument, an \<open>option\<close> where the
  random source can fail.  Calls run one after the other: a statement of SQLite is atomic, and
  what two calls interleaved at their \<open>await\<close> points would do is not modelled.  No loop needs fuel: all
  run over lists or numbers but the one of \<open>random_index\<close>, which returns if the source is fair.

  \<^bold>\<open>What is shown.\<close>  Opening a vault returns a key exactly if the envelope stored for the user is
  that key sealed under the user's master key; creating, granting, sharing with a team, revoking,
  removing members, rotating and deleting do what they say, to the named rows and no others, and
  together they refine an abstract keyring; secrets read back what was stored, and are destroyed only
  from the trash; passwords verify after creation, change and restart, and not otherwise; the permission
  rules equal their policy and grow with rights.  Along any run of calls the database is well formed, has
  an administrator, parses up to usage counters beyond \<open>u32\<close>, and its audit log only grows, authors being
  cleared with their accounts; failed calls leave no trace but for eight operations that are named.  A login needs the password and a fresh code, guesses are limited in number
  and time, a code is accepted once, and the form counts a lock down to its end.  A backup reported as
  written restores to the same bytes with the words its dialog showed, a restoration puts the decrypted
  backup in place and none loses the previous database; generated passwords meet the policy; an import
  stores a prefix of its rows in the first vault listed; licenses are verified; a signed report hashes and
  shows the entries of its period.  The list shows the live secrets of a vault as they decrypt, entries are
  found by their fields, the fuzzy match is Levenshtein's distance, an entry reopens in the form as it was
  typed, weak passwords do not pass the form, a new account has a vault of its own, the administration of
  teams shares nothing but its user's own vaults, and an unattended session is locked in time; what a load
  under way and the inline editor keep beyond the lock is shown as well.  Some theorems
  describe what the code does where its comments or names suggest otherwise.

  \<^bold>\<open>Not modelled.\<close>  The layout and styles of the widgets, and the pages of the profile and the vaults,
  which call the services with what was typed; the tracing library, opening the database and process control;
  failures of SQLite other than violated constraints; the text form of a Uuid and of a date; the error texts of foreign libraries; memory zeroing;
  concurrency; directories of the file system, and platforms other than Linux.
\<close>

end
